(* ===== verification/Prelude.thy ===== *)
theory Prelude
  imports Main "HOL-Library.Word"
begin

text \<open>
  Shared vocabulary of the development: the byte type, the width of Rust's \<open>usize\<close>, the
  outcome type of code that mutates a state and may return an error or panic, and the
  big-endian and little-endian digit conversions that the big-integer, buffer and hashing
  components rest on.  The generic lemmas are collected in \<open>outcome_simps\<close> (the sequencing
  operators) and \<open>digit_simps\<close> (digit conversions).
\<close>

named_theorems outcome_simps "unfolding of the sequencing operators of fallible code"
named_theorems digit_simps "values and lengths of digit sequences"

section \<open>Machine types\<close>

type_synonym byte = "8 word"

type_synonym usize = nat
type_synonym u64 = nat

text \<open>\<open>usize\<close> and \<open>u64\<close> values are natural numbers below \<open>usize_limit\<close>; the release build
  (the Makefile builds and tests with \<open>--release\<close>) wraps additions around at that limit.\<close>

definition usize_limit :: nat where
  "usize_limit = 2 ^ 64"

definition usize_add :: "usize \<Rightarrow> usize \<Rightarrow> usize" where
  "usize_add a b = (a + b) mod usize_limit"

lemma usize_add_wraps_iff:
  assumes "a < usize_limit" "b < usize_limit"
  shows "usize_add a b < a \<longleftrightarrow> usize_limit \<le> a + b"
proof (cases "a + b < usize_limit")
  case True
  then show ?thesis by (simp add: usize_add_def)
next
  case False
  with assms have "(a + b) mod usize_limit = a + b - usize_limit"
    by (metis add_less_mono le_add_diff_inverse le_mod_geq less_diff_conv2 linorder_not_less mod_less)
  with False assms show ?thesis by (simp add: usize_add_def)
qed

section \<open>Outcomes of fallible, state-changing code\<close>

text \<open>
  A Rust method on \<open>&mut self\<close> that returns \<open>Result<T, E>\<close> either returns \<open>Ok\<close> (here
  \<open>Done\<close>), or returns \<open>Err\<close> (here \<open>Fail\<close>) with the state as mutated up to that point, or
  panics.  \<open>Panic\<close> also stands for code that does not return.
\<close>

datatype ('e, 's, 'a) outcome = Done 'a 's | Fail 'e 's | Panic

type_synonym ('e, 's, 'a) comp = "'s \<Rightarrow> ('e, 's, 'a) outcome"

definition return_c :: "'a \<Rightarrow> ('e, 's, 'a) comp" where
  "return_c a s = Done a s"

definition fail_c :: "'e \<Rightarrow> ('e, 's, 'a) comp" where
  "fail_c e s = Fail e s"

definition panic_c :: "('e, 's, 'a) comp" where
  "panic_c s = Panic"

definition bind_c :: "('e, 's, 'a) comp \<Rightarrow> ('a \<Rightarrow> ('e, 's, 'b) comp) \<Rightarrow> ('e, 's, 'b) comp" where
  "bind_c f g s = (case f s of Done a t \<Rightarrow> g a t | Fail e t \<Rightarrow> Fail e t | Panic \<Rightarrow> Panic)"

definition then_c :: "('e, 's, 'a) comp \<Rightarrow> ('e, 's, 'b) comp \<Rightarrow> ('e, 's, 'b) comp" where
  "then_c f g = bind_c f (\<lambda>_. g)"

definition modify_c :: "('s \<Rightarrow> 's) \<Rightarrow> ('e, 's, unit) comp" where
  "modify_c f s = Done () (f s)"

text \<open>\<open>unwrap\<close> on an \<open>Option\<close>: the value, or a panic.\<close>

definition unwrap_c :: "'a option \<Rightarrow> ('e, 's, 'a) comp" where
  "unwrap_c x s = (case x of Some a \<Rightarrow> Done a s | None \<Rightarrow> Panic)"

declare return_c_def [outcome_simps] fail_c_def [outcome_simps] panic_c_def [outcome_simps]
  bind_c_def [outcome_simps] then_c_def [outcome_simps] modify_c_def [outcome_simps]
  unwrap_c_def [outcome_simps]

lemma bind_c_Done_iff:
  "bind_c f g s = Done b u \<longleftrightarrow> (\<exists>a t. f s = Done a t \<and> g a t = Done b u)"
  by (auto simp: bind_c_def split: outcome.splits)

lemma then_c_Done_iff:
  "then_c f g s = Done b u \<longleftrightarrow> (\<exists>a t. f s = Done a t \<and> g t = Done b u)"
  by (simp add: then_c_def bind_c_Done_iff)

lemma bind_c_assoc: "bind_c (bind_c f g) h = bind_c f (\<lambda>a. bind_c (g a) h)"
  by (rule ext) (simp add: bind_c_def split: outcome.split)

lemma then_c_assoc: "then_c (then_c f g) h = then_c f (then_c g h)"
  by (simp add: then_c_def bind_c_assoc)

lemma return_c_bind [simp]: "bind_c (return_c a) g = g a"
  by (rule ext) (simp add: bind_c_def return_c_def)

section \<open>Digit sequences\<close>

text \<open>The value of a big-endian byte string, and of a little-endian one.\<close>

definition be_value :: "byte list \<Rightarrow> nat" where
  "be_value bs = foldl (\<lambda>acc b. acc * 256 + unat b) 0 bs"

fun le_digits :: "nat \<Rightarrow> nat \<Rightarrow> nat list" where
  "le_digits b n = (if n = 0 \<or> b < 2 then [] else n mod b # le_digits b (n div b))"

declare le_digits.simps [simp del]

lemma le_digits_0 [simp]: "le_digits b 0 = []"
  by (simp add: le_digits.simps)

definition le_value :: "nat \<Rightarrow> nat list \<Rightarrow> nat" where
  "le_value b ds = foldr (\<lambda>d acc. d + b * acc) ds 0"

lemma le_value_Nil [simp]: "le_value b [] = 0"
  by (simp add: le_value_def)

lemma le_value_Cons [simp]: "le_value b (d # ds) = d + b * le_value b ds"
  by (simp add: le_value_def)

lemma le_value_append: "le_value b (xs @ ys) = le_value b xs + b ^ length xs * le_value b ys"
  by (induction xs) (auto simp: algebra_simps)

lemma le_value_replicate_0 [simp]: "le_value b (replicate n 0) = 0"
  by (induction n) auto

lemma le_value_le_digits: "1 < b \<Longrightarrow> le_value b (le_digits b n) = n"
proof (induction b n rule: le_digits.induct)
  case (1 b n)
  then show ?case
    by (cases "n = 0") (auto simp: le_digits.simps [of b n])
qed

lemma le_digits_less: "\<forall>d \<in> set (le_digits b n). d < b"
proof (induction b n rule: le_digits.induct)
  case (1 b n)
  then show ?case by (auto simp: le_digits.simps [of b n])
qed

lemma length_le_digits_le: "1 < b \<Longrightarrow> n < b ^ k \<Longrightarrow> length (le_digits b n) \<le> k"
proof (induction k arbitrary: n)
  case 0
  then show ?case by (simp add: le_digits.simps)
next
  case (Suc k)
  have "n div b < b ^ k"
    using Suc.prems by (simp add: less_mult_imp_div_less mult.commute)
  with Suc.IH Suc.prems show ?case
    by (cases "n = 0") (auto simp: le_digits.simps [of b n])
qed

lemma le_value_less: "\<forall>d \<in> set ds. d < b \<Longrightarrow> le_value b ds < b ^ length ds"
proof (induction ds)
  case (Cons d ds)
  then have "d < b" and "le_value b ds \<le> b ^ length ds - 1" by auto
  then have "d + b * le_value b ds \<le> (b - 1) + b * (b ^ length ds - 1)"
    by (intro add_mono mult_le_mono2) auto
  also have "\<dots> < b ^ length (d # ds)"
    using \<open>d < b\<close> by (cases "b ^ length ds") (auto simp: algebra_simps)
  finally show ?case by simp
qed simp

lemma be_value_snoc: "be_value (bs @ [b]) = be_value bs * 256 + unat b"
  by (simp add: be_value_def)

lemma be_value_eq_le: "be_value bs = le_value 256 (map unat (rev bs))"
proof (induction bs rule: rev_induct)
  case (snoc b bs)
  then show ?case by (simp add: be_value_snoc)
qed (simp add: be_value_def)

lemma unat_byte_less [simp]: "unat (b :: byte) < 256"
  using unsigned_less [of b, where ?'a = nat] by simp

lemma be_value_less: "be_value bs < 256 ^ length bs"
  using le_value_less [of "map unat (rev bs)" 256] by (simp add: be_value_eq_le)

lemma be_value_append: "be_value (xs @ ys) = be_value xs * 256 ^ length ys + be_value ys"
  by (simp add: be_value_eq_le le_value_append algebra_simps)

lemma be_value_Nil [simp]: "be_value [] = 0"
  by (simp add: be_value_def)

lemma be_value_replicate_0 [simp]: "be_value (replicate n 0) = 0"
  by (simp add: be_value_eq_le map_replicate)

text \<open>The big-endian bytes of a number without leading zeros; empty for zero.\<close>

definition be_bytes :: "nat \<Rightarrow> byte list" where
  "be_bytes n = map word_of_nat (rev (le_digits 256 n))"

lemma be_value_be_bytes [digit_simps]: "be_value (be_bytes n) = n"
proof -
  have "map (unat \<circ> (word_of_nat :: nat \<Rightarrow> byte)) (le_digits 256 n) = le_digits 256 n"
    using le_digits_less [of 256 n]
    by (intro map_idI) (auto simp: unat_of_nat)
  then show ?thesis
    by (simp add: be_value_eq_le be_bytes_def rev_map le_value_le_digits)
qed

lemma length_be_bytes_le [digit_simps]: "n < 256 ^ k \<Longrightarrow> length (be_bytes n) \<le> k"
  by (simp add: be_bytes_def length_le_digits_le)

lemma be_value_inj:
  "length xs = length ys \<Longrightarrow> be_value xs = be_value ys \<Longrightarrow> xs = ys"
proof (induction xs arbitrary: ys rule: rev_induct)
  case (snoc x xs)
  then obtain zs z where ys: "ys = zs @ [z]"
    by (metis append_butlast_last_id length_0_conv snoc_eq_iff_butlast)
  with snoc.prems have *: "unat z + be_value zs * 256 = unat x + be_value xs * 256"
    by (simp add: be_value_snoc)
  have "unat x = unat z"
    using arg_cong [OF *, of "\<lambda>v. v mod 256"] by simp
  with * have "be_value xs = be_value zs" and "x = z"
    by (auto simp: word_unat_eq_iff)
  with snoc ys show ?case by simp
qed simp

section \<open>Lists and options\<close>

text \<open>Rust's \<open>slice.get(i)\<close>.\<close>

definition get_at :: "'a list \<Rightarrow> nat \<Rightarrow> 'a option" where
  "get_at xs i = (if i < length xs then Some (xs ! i) else None)"

lemma get_at_Some_iff [simp]: "get_at xs i = Some x \<longleftrightarrow> i < length xs \<and> xs ! i = x"
  by (simp add: get_at_def)

lemma get_at_None_iff [simp]: "get_at xs i = None \<longleftrightarrow> length xs \<le> i"
  by (auto simp: get_at_def)

text \<open>Collecting an iterator of options or results: the first failure ends the loop.\<close>

fun collect_opt :: "('a \<Rightarrow> 'b option) \<Rightarrow> 'a list \<Rightarrow> 'b list option" where
  "collect_opt f [] = Some []"
| "collect_opt f (x # xs) =
     (case f x of None \<Rightarrow> None
      | Some y \<Rightarrow> (case collect_opt f xs of None \<Rightarrow> None | Some ys \<Rightarrow> Some (y # ys)))"

lemma collect_opt_Some_iff:
  "collect_opt f xs = Some ys \<longleftrightarrow> list_all2 (\<lambda>x y. f x = Some y) xs ys"
proof (induction xs arbitrary: ys)
  case (Cons x xs)
  then show ?case
    by (auto split: option.splits simp: list_all2_Cons1) (metis option.inject)
qed auto

lemma collect_opt_map_Some: "\<forall>x \<in> set xs. f x = Some (g x) \<Longrightarrow> collect_opt f xs = Some (map g xs)"
  by (induction xs) auto

lemma collect_opt_cong [fundef_cong]:
  "xs = ys \<Longrightarrow> (\<And>x. x \<in> set ys \<Longrightarrow> f x = g x) \<Longrightarrow> collect_opt f xs = collect_opt g ys"
  by (induction ys arbitrary: xs) (auto split: option.splits)

lemma bind_Some_eq_map: "Option.bind x (\<lambda>a. Some (f a)) = map_option f x"
  by (cases x) auto

text \<open>The same for results: \<open>Inl\<close> is the error of the first element that fails.\<close>

fun collect_res :: "('a \<Rightarrow> 'e + 'b) \<Rightarrow> 'a list \<Rightarrow> 'e + 'b list" where
  "collect_res f [] = Inr []"
| "collect_res f (x # xs) =
     (case f x of Inl e \<Rightarrow> Inl e
      | Inr y \<Rightarrow> (case collect_res f xs of Inl e \<Rightarrow> Inl e | Inr ys \<Rightarrow> Inr (y # ys)))"

lemma collect_res_Inr_iff:
  "collect_res f xs = Inr ys \<longleftrightarrow> list_all2 (\<lambda>x y. f x = Inr y) xs ys"
proof (induction xs arbitrary: ys)
  case (Cons x xs)
  then show ?case
    by (auto split: sum.splits simp: list_all2_Cons1) (metis sum.inject(2))
qed auto

lemma collect_res_Inr_Ex: "(\<exists>ys. collect_res f xs = Inr ys) \<longleftrightarrow> (\<forall>x \<in> set xs. \<exists>y. f x = Inr y)"
  by (induction xs) (auto split: sum.splits)

lemma collect_res_Inl: "collect_res f xs = Inl e \<Longrightarrow> \<exists>x \<in> set xs. f x = Inl e"
  by (induction xs) (auto split: sum.splits)

lemma collect_res_cong [fundef_cong]:
  "xs = ys \<Longrightarrow> (\<And>x. x \<in> set ys \<Longrightarrow> f x = g x) \<Longrightarrow> collect_res f xs = collect_res g ys"
  by (induction ys arbitrary: xs) (auto split: sum.splits)

lemma collect_opt_Some_Ex: "(\<exists>ys. collect_opt f xs = Some ys) \<longleftrightarrow> (\<forall>x \<in> set xs. \<exists>y. f x = Some y)"
  by (induction xs) (auto split: option.splits)

lemma size_list_nth: "i < length xs \<Longrightarrow> f (xs ! i) \<le> size_list f xs"
  by (metis nth_mem order_refl size_list_estimation')

end
