(* ===== verification/Uint256.thy ===== *)
theory Uint256
  imports Prelude "HOL-Library.Signed_Division"
begin

text \<open>
  The 256-bit integers of \<open>src/uint256.rs\<close>.  A \<open>Uint256\<close> wraps an arbitrary-precision
  \<open>BigUint\<close>; both are natural numbers here, and \<open>BigInt\<close> is \<open>int\<close>.  The type itself
  does not force the value below \<open>2 ^ 256\<close> (\<open>from_bytes\<close> and \<open>from_u32_digits\<close> do not
  trim), so \<open>u256_ok\<close> is the invariant and the operations are shown to keep it.  A result
  of type \<open>_ option\<close> whose \<open>None\<close> stands for a failed \<open>unwrap\<close> is marked so in the text.
  The correctness statements relate every operation to arithmetic on \<open>256 word\<close>.
  \<open>keccak256\<close>, \<open>rlp::encode\<close> and the decimal/hexadecimal parsers are library code and
  are parameters of the operations that call them.
\<close>

unbundle bit_operations_syntax

section \<open>Definitions\<close>

type_synonym uint256 = nat

definition u256_modulus :: nat where
  "u256_modulus = 2 ^ 256"

definition u256_ok :: "uint256 \<Rightarrow> bool" where
  "u256_ok x \<longleftrightarrow> x < u256_modulus"

text \<open>\<open>BigUint::new\<close> takes little-endian 32-bit digits; \<open>BigUint::bits\<close> is the bit length.\<close>

definition biguint_new :: "nat list \<Rightarrow> nat" where
  "biguint_new ds = le_value (2 ^ 32) ds"

fun biguint_bits :: "nat \<Rightarrow> nat" where
  "biguint_bits n = (if n = 0 then 0 else Suc (biguint_bits (n div 2)))"

declare biguint_bits.simps [simp del]

definition biguint_to_bytes_be :: "nat \<Rightarrow> byte list" where
  "biguint_to_bytes_be n = (if n = 0 then [0] else be_bytes n)"

definition biguint_to_u32_digits :: "nat \<Rightarrow> nat list" where
  "biguint_to_u32_digits n = le_digits (2 ^ 32) n"

definition biguint_checked_sub :: "nat \<Rightarrow> nat \<Rightarrow> nat option" where
  "biguint_checked_sub a b = (if b \<le> a then Some (a - b) else None)"

subsection \<open>Constructors and conversions\<close>

definition uint256_from_u64 :: "u64 \<Rightarrow> uint256" where
  "uint256_from_u64 x = x"

definition uint256_from_usize :: "usize \<Rightarrow> uint256" where
  "uint256_from_usize x = x"

definition uint256_zero :: uint256 where
  "uint256_zero = 0"

definition uint256_one :: uint256 where
  "uint256_one = 1"

definition uint256_max_uint :: uint256 where
  "uint256_max_uint = biguint_new (replicate 8 0xffffffff)"

definition uint256_is_zero :: "uint256 \<Rightarrow> bool" where
  "uint256_is_zero x \<longleftrightarrow> x = 0"

definition uint256_from_bool :: "bool \<Rightarrow> uint256" where
  "uint256_from_bool b = (if b then uint256_one else uint256_zero)"

definition uint256_trim :: "nat \<Rightarrow> nat \<times> bool" where
  "uint256_trim bui =
     (if biguint_bits bui \<le> 256 then (bui, True)
      else (bui AND biguint_new (replicate 8 0xffffffff), False))"

definition uint256_from_string :: "(string \<Rightarrow> nat option) \<Rightarrow> string \<Rightarrow> uint256 option" where
  "uint256_from_string parse_dec s =
     (case parse_dec s of
        Some bui \<Rightarrow> (case uint256_trim bui of (val, True) \<Rightarrow> Some val | (_, False) \<Rightarrow> None)
      | None \<Rightarrow> None)"

definition uint256_from_string_hex :: "(string \<Rightarrow> nat option) \<Rightarrow> string \<Rightarrow> uint256 option" where
  "uint256_from_string_hex parse_hex s =
     (case parse_hex s of
        Some bui \<Rightarrow> (case uint256_trim bui of (val, True) \<Rightarrow> Some val | (_, False) \<Rightarrow> None)
      | None \<Rightarrow> None)"

definition uint256_from_bytes :: "byte list \<Rightarrow> uint256" where
  "uint256_from_bytes b = be_value b"

definition uint256_from_u32_digits :: "nat list \<Rightarrow> uint256" where
  "uint256_from_u32_digits ds = biguint_new ds"

definition uint256_to_usize :: "uint256 \<Rightarrow> usize option" where
  "uint256_to_usize x = (if x < usize_limit then Some x else None)"

definition uint256_to_u64 :: "uint256 \<Rightarrow> u64 option" where
  "uint256_to_u64 x = (if x < 2 ^ 64 then Some x else None)"

definition uint256_trim_to_u64 :: "uint256 \<Rightarrow> u64" where
  "uint256_trim_to_u64 x = x AND 0xffffffffffffffff"

definition uint256_to_bytes_be :: "uint256 \<Rightarrow> byte list" where
  "uint256_to_bytes_be x =
     (let raw = biguint_to_bytes_be x
      in if length raw < 32 then replicate (32 - length raw) 0 @ raw else raw)"

definition uint256_to_bytes_minimal :: "uint256 \<Rightarrow> byte list" where
  "uint256_to_bytes_minimal x = (if uint256_is_zero x then [] else biguint_to_bytes_be x)"

text \<open>\<open>H160::from_slice\<close> panics (\<open>None\<close>) on anything but 20 bytes.\<close>

definition uint256_to_h160 :: "uint256 \<Rightarrow> byte list option" where
  "uint256_to_h160 x =
     (let raw = biguint_to_bytes_be x;
          padded = (if length raw < 20 then replicate (20 - length raw) 0 @ raw else raw)
      in if length padded = 20 then Some padded else None)"

text \<open>The assignments \<open>ret[7 - i]\<close> panic (\<open>None\<close>) when there are more than eight digits.\<close>

definition uint256_to_u32_digits_be :: "uint256 \<Rightarrow> nat list option" where
  "uint256_to_u32_digits_be x =
     (let v = biguint_to_u32_digits x
      in if length v \<le> 8 then Some (replicate (8 - length v) 0 @ rev v) else None)"

text \<open>The second loop writes \<open>ret[15 - i]\<close>, which reaches into the first half once there are
  more than eight digits and panics beyond sixteen.\<close>

definition uint256_to_u32_digits_be_2 :: "uint256 \<Rightarrow> uint256 \<Rightarrow> nat list option" where
  "uint256_to_u32_digits_be_2 x ui2 =
     (let v = biguint_to_u32_digits x; w = biguint_to_u32_digits ui2
      in if length v \<le> 8 \<and> length w \<le> 16
         then Some (take (16 - length w) (replicate (8 - length v) 0 @ rev v @ replicate 8 0) @ rev w)
         else None)"

definition uint256_rlp_encode :: "(byte list \<Rightarrow> byte list) \<Rightarrow> uint256 \<Rightarrow> byte list" where
  "uint256_rlp_encode rlp_encode x =
     (if uint256_is_zero x then [0x80] else rlp_encode (uint256_to_bytes_minimal x))"

subsection \<open>Bitwise operations and modular arithmetic\<close>

definition uint256_bitwise_neg :: "uint256 \<Rightarrow> uint256" where
  "uint256_bitwise_neg x = x XOR biguint_new (replicate 8 0xffffffff)"

definition uint256_bitwise_and :: "uint256 \<Rightarrow> uint256 \<Rightarrow> uint256" where
  "uint256_bitwise_and x y = x AND y"

definition uint256_bitwise_or :: "uint256 \<Rightarrow> uint256 \<Rightarrow> uint256" where
  "uint256_bitwise_or x y = x OR y"

definition uint256_bitwise_xor :: "uint256 \<Rightarrow> uint256 \<Rightarrow> uint256" where
  "uint256_bitwise_xor x y = x XOR y"

definition uint256_add :: "uint256 \<Rightarrow> uint256 \<Rightarrow> uint256" where
  "uint256_add x y = fst (uint256_trim (x + y))"

definition uint256_sub :: "uint256 \<Rightarrow> uint256 \<Rightarrow> uint256 option" where
  "uint256_sub x y =
     (case biguint_checked_sub x y of
        None \<Rightarrow> None
      | Some res \<Rightarrow> Some (fst (uint256_trim res)))"

definition uint256_unary_minus :: "uint256 \<Rightarrow> uint256 option" where
  "uint256_unary_minus x =
     (if x = biguint_new [0, 0, 0, 0, 0, 0, 0, 0x80000000] then Some x
      else Some (uint256_add (uint256_bitwise_neg x) uint256_one))"

text \<open>\<open>None\<close>: one of the \<open>unwrap\<close> calls panics.\<close>

definition uint256_unchecked_sub :: "uint256 \<Rightarrow> uint256 \<Rightarrow> uint256 option" where
  "uint256_unchecked_sub x y =
     (if x < y
      then (case uint256_sub y x of None \<Rightarrow> None | Some d \<Rightarrow> uint256_unary_minus d)
      else uint256_sub x y)"

definition uint256_mul :: "uint256 \<Rightarrow> uint256 \<Rightarrow> uint256" where
  "uint256_mul x y = fst (uint256_trim (x * y))"

definition uint256_div :: "uint256 \<Rightarrow> uint256 \<Rightarrow> uint256 option" where
  "uint256_div x y = (if y = 0 then None else Some (x div y))"

definition uint256_modulo :: "uint256 \<Rightarrow> uint256 \<Rightarrow> uint256 option" where
  "uint256_modulo x y = (if y = 0 then None else Some (x mod y))"

definition uint256_to_signed :: "uint256 \<Rightarrow> int" where
  "uint256_to_signed x =
     (if x < biguint_new [0, 0, 0, 0, 0, 0, 0, 0x80000000] then int x
      else int x - int (biguint_new [0, 0, 0, 0, 0, 0, 0, 0, 1]))"

text \<open>\<open>None\<close>: \<open>to_biguint().unwrap()\<close> panics on a number below \<open>- (2 ^ 256)\<close>.\<close>

definition uint256_bigint_to_biguint :: "int \<Rightarrow> nat option" where
  "uint256_bigint_to_biguint bi =
     (let shifted = (if bi < 0 then bi + int (biguint_new [0, 0, 0, 0, 0, 0, 0, 0, 1]) else bi)
      in if shifted < 0 then None else Some (nat shifted))"

text \<open>\<open>s.replace("s", "")\<close> drops every \<open>s\<close>.  The outer \<open>option\<close> is a panic.\<close>

definition uint256_from_signed_string ::
    "(string \<Rightarrow> int option) \<Rightarrow> string \<Rightarrow> uint256 option option" where
  "uint256_from_signed_string parse_signed s =
     (case parse_signed (filter (\<lambda>c. c \<noteq> CHR ''s'') s) of
        Some bi \<Rightarrow>
          (case uint256_bigint_to_biguint bi of
             None \<Rightarrow> None
           | Some bui \<Rightarrow>
               Some (case uint256_trim bui of (val, True) \<Rightarrow> Some val | (_, False) \<Rightarrow> None))
      | None \<Rightarrow> Some None)"

text \<open>Big-integer division truncates towards zero and the remainder takes the sign of the
  dividend (\<open>sdiv\<close> and \<open>smod\<close> on \<open>int\<close>).  Outer \<open>None\<close>: panic; inner \<open>None\<close>: zero divisor.\<close>

definition uint256_sdiv :: "uint256 \<Rightarrow> uint256 \<Rightarrow> uint256 option option" where
  "uint256_sdiv x y =
     (if y = 0 then Some None
      else map_option Some (uint256_bigint_to_biguint (uint256_to_signed x sdiv uint256_to_signed y)))"

definition uint256_smodulo :: "uint256 \<Rightarrow> uint256 \<Rightarrow> uint256 option option" where
  "uint256_smodulo x y =
     (if y = 0 then Some None
      else map_option Some (uint256_bigint_to_biguint (uint256_to_signed x smod uint256_to_signed y)))"

definition uint256_add_mod :: "uint256 \<Rightarrow> uint256 \<Rightarrow> uint256 \<Rightarrow> uint256 option" where
  "uint256_add_mod x denom modulus = (if modulus = 0 then None else Some ((x + denom) mod modulus))"

definition uint256_mul_mod :: "uint256 \<Rightarrow> uint256 \<Rightarrow> uint256 \<Rightarrow> uint256 option" where
  "uint256_mul_mod x denom modulus = (if modulus = 0 then None else Some ((x * denom) mod modulus))"

definition uint256_exp :: "uint256 \<Rightarrow> uint256 \<Rightarrow> uint256" where
  "uint256_exp x y = x ^ y mod (push_bit 256 1)"

definition uint256_max_neg_int :: uint256 where
  "uint256_max_neg_int = uint256_exp uint256_one (uint256_from_usize 255)"

definition uint256_from_gwei :: "u64 \<Rightarrow> uint256" where
  "uint256_from_gwei n = uint256_mul (uint256_from_u64 n) (uint256_from_u64 1000000000)"

definition uint256_from_eth :: "u64 \<Rightarrow> uint256" where
  "uint256_from_eth n = uint256_mul (uint256_from_u64 n) (uint256_from_u64 1000000000000000000)"

definition uint256_shift_left :: "uint256 \<Rightarrow> usize \<Rightarrow> uint256" where
  "uint256_shift_left x num =
     (if 256 \<le> num then uint256_zero else fst (uint256_trim (push_bit num x)))"

definition uint256_shift_right :: "uint256 \<Rightarrow> usize \<Rightarrow> uint256" where
  "uint256_shift_right x num = drop_bit num x"

definition uint256_shift_arith :: "uint256 \<Rightarrow> usize \<Rightarrow> uint256" where
  "uint256_shift_arith x raw_num =
     (let need_fill = (biguint_bits x = 256);
          num = (if 256 < raw_num then 256 else raw_num);
          val = drop_bit num x;
          val' = (if need_fill then val + push_bit (256 - num) uint256_max_uint else val)
      in fst (uint256_trim val'))"

definition uint256_s_less_than :: "uint256 \<Rightarrow> uint256 \<Rightarrow> bool" where
  "uint256_s_less_than x y \<longleftrightarrow> uint256_to_signed x < uint256_to_signed y"

definition uint256_avm_hash :: "(byte list \<Rightarrow> byte list) \<Rightarrow> uint256 \<Rightarrow> uint256" where
  "uint256_avm_hash keccak256 x = uint256_from_bytes (keccak256 (uint256_to_bytes_be x))"

definition uint256_avm_hash2 :: "(byte list \<Rightarrow> byte list) \<Rightarrow> uint256 \<Rightarrow> uint256 \<Rightarrow> uint256" where
  "uint256_avm_hash2 keccak256 v1 v2 =
     uint256_from_bytes (keccak256 (uint256_to_bytes_be v1 @ uint256_to_bytes_be v2))"

section \<open>Reduction modulo 2 ^ 256\<close>

lemma biguint_bits_0 [simp]: "biguint_bits 0 = 0"
  by (simp add: biguint_bits.simps)
lemma biguint_bits_le_iff: "biguint_bits n \<le> k \<longleftrightarrow> n < 2 ^ k"
proof (induction n arbitrary: k rule: biguint_bits.induct)
  case (1 n)
  show ?case
  proof (cases k)
    case 0
    then show ?thesis by (simp add: biguint_bits.simps [of n])
  next
    case (Suc j)
    with "1.IH" [of j] show ?thesis
      by (cases "n = 0") (auto simp: biguint_bits.simps [of n])
  qed
qed

lemma biguint_max_mask: "biguint_new (replicate 8 0xffffffff) = mask 256"
proof -
  have "replicate 8 (0xffffffff::nat) = map (\<lambda>_. 0xffffffff) [0..<8]"
    by (simp add: map_replicate_const)
  then show ?thesis
    by (simp add: biguint_new_def mask_eq_exp_minus_1 upt_rec)
qed

lemma biguint_2_255: "biguint_new [0, 0, 0, 0, 0, 0, 0, 0x80000000] = 2 ^ 255"
  by (simp add: biguint_new_def)

lemma biguint_2_256: "biguint_new [0, 0, 0, 0, 0, 0, 0, 0, Suc 0] = u256_modulus"
  by (simp add: biguint_new_def u256_modulus_def)

lemma uint256_trim_eq: "uint256_trim n = (n mod u256_modulus, n < u256_modulus)"
  unfolding uint256_trim_def biguint_bits_le_iff biguint_max_mask take_bit_eq_mask [symmetric]
  by (simp add: take_bit_eq_mod u256_modulus_def)

lemma u256_modulus_pos [simp]: "0 < u256_modulus"
  by (simp add: u256_modulus_def)

lemma mod_u256_ok [simp]: "u256_ok (n mod u256_modulus)"
  by (simp add: u256_ok_def)

lemma u256_ok_0 [simp]: "u256_ok 0"
  by (simp add: u256_ok_def)

lemma u256_ok_1 [simp]: "u256_ok (Suc 0)"
  by (simp add: u256_ok_def u256_modulus_def)

lemma usize_limit_le_modulus: "usize_limit \<le> u256_modulus"
  by (simp add: usize_limit_def u256_modulus_def)

lemma u256_ok_usize: "n < usize_limit \<Longrightarrow> u256_ok n"
  using usize_limit_le_modulus by (simp add: u256_ok_def)

lemma u256_ok_mono: "u256_ok y \<Longrightarrow> x \<le> y \<Longrightarrow> u256_ok x"
  by (simp add: u256_ok_def)

lemma uint256_add_eq: "uint256_add x y = (x + y) mod u256_modulus"
  by (simp add: uint256_add_def uint256_trim_eq)

lemma uint256_mul_eq: "uint256_mul x y = (x * y) mod u256_modulus"
  by (simp add: uint256_mul_def uint256_trim_eq)

lemma uint256_exp_eq: "uint256_exp x y = x ^ y mod u256_modulus"
  by (simp add: uint256_exp_def u256_modulus_def push_bit_eq_mult)

lemma uint256_sub_eq:
  "u256_ok x \<Longrightarrow> uint256_sub x y = (if y \<le> x then Some (x - y) else None)"
  by (auto simp: uint256_sub_def biguint_checked_sub_def uint256_trim_eq u256_ok_def)

lemma uint256_max_uint_eq: "uint256_max_uint = u256_modulus - 1"
  by (simp add: uint256_max_uint_def biguint_max_mask mask_eq_exp_minus_1 u256_modulus_def)

lemma u256_ok_iff_take_bit: "u256_ok x \<longleftrightarrow> take_bit 256 x = x"
  by (simp add: u256_ok_def u256_modulus_def take_bit_nat_eq_self_iff)

section \<open>Refinement of 256-bit words\<close>

definition u256_word :: "uint256 \<Rightarrow> 256 word" where
  "u256_word x = word_of_nat x"

lemma unat_u256_word [simp]: "u256_ok x \<Longrightarrow> unat (u256_word x) = x"
  by (simp add: u256_word_def unat_of_nat u256_ok_def u256_modulus_def)

lemma u256_word_inj: "u256_ok x \<Longrightarrow> u256_ok y \<Longrightarrow> u256_word x = u256_word y \<longleftrightarrow> x = y"
  by (metis unat_u256_word)

lemma u256_word_mod [simp]: "u256_word (n mod u256_modulus) = u256_word n"
  by (simp add: u256_word_def u256_modulus_def word_unat_eq_iff unat_of_nat)

lemma u256_word_modulus [simp]: "u256_word u256_modulus = 0"
  by (simp add: u256_word_def u256_modulus_def word_unat_eq_iff unat_of_nat)

lemma u256_word_0 [simp]: "u256_word 0 = 0"
  by (simp add: u256_word_def)

lemma u256_word_1: "u256_word 1 = 1"
  by (simp add: u256_word_def)

lemma u256_word_add: "u256_word (x + y) = u256_word x + u256_word y"
  by (simp add: u256_word_def)

lemma u256_word_mult: "u256_word (x * y) = u256_word x * u256_word y"
  by (simp add: u256_word_def)

lemma u256_word_diff: "y \<le> x \<Longrightarrow> u256_word (x - y) = u256_word x - u256_word y"
  by (simp add: u256_word_def of_nat_diff)

lemma bitwise_neg_word: "u256_word (uint256_bitwise_neg x) = NOT (u256_word x)"
proof -
  have "u256_word (x XOR mask 256) = u256_word x XOR mask 256"
    by (simp only: u256_word_def of_nat_xor_eq of_nat_mask_eq)
  also have "\<dots> = NOT (u256_word x)"
    by (rule bit_word_eqI) (simp add: bit_simps)
  finally show ?thesis
    by (simp only: uint256_bitwise_neg_def biguint_max_mask)
qed

lemma bitwise_closed:
  assumes "u256_ok x" "u256_ok y"
  shows "u256_ok (x AND y)" "u256_ok (x OR y)" "u256_ok (x XOR y)"
  using assms by (simp_all add: u256_ok_iff_take_bit)

lemma bitwise_neg_ok: "u256_ok x \<Longrightarrow> u256_ok (uint256_bitwise_neg x)"
  unfolding uint256_bitwise_neg_def biguint_max_mask u256_ok_iff_take_bit by simp

lemma unary_minus_word:
  assumes "u256_ok x"
  obtains r where "uint256_unary_minus x = Some r" "u256_ok r" "u256_word r = - u256_word x"
proof (cases "x = 2 ^ 255")
  case True
  then have "u256_word x = - u256_word x"
    by (simp add: u256_word_def)
  with that assms True show ?thesis
    by (simp add: uint256_unary_minus_def biguint_2_255)
next
  case False
  then have "uint256_unary_minus x = Some (uint256_add (uint256_bitwise_neg x) 1)"
    by (simp add: uint256_unary_minus_def biguint_2_255 uint256_one_def)
  moreover have "u256_word (uint256_add (uint256_bitwise_neg x) 1) = NOT (u256_word x) + 1"
    by (simp only: uint256_add_eq u256_word_mod u256_word_add bitwise_neg_word u256_word_1)
  ultimately show ?thesis
    using that by (simp add: uint256_add_eq not_eq_complement)
qed

lemma unchecked_sub_word:
  assumes "u256_ok x" "u256_ok y"
  obtains r where "uint256_unchecked_sub x y = Some r" "u256_ok r"
    "u256_word r = u256_word x - u256_word y"
proof (cases "x < y")
  case True
  obtain r where r: "uint256_unary_minus (y - x) = Some r" "u256_ok r"
    "u256_word r = - u256_word (y - x)"
    using assms unary_minus_word [of "y - x"] u256_ok_mono [of y "y - x"] by auto
  with True have "u256_word r = u256_word x - u256_word y"
    by (simp add: u256_word_diff)
  with True assms r show ?thesis
    by (intro that) (auto simp: uint256_unchecked_sub_def uint256_sub_eq)
next
  case False
  with assms show ?thesis
    by (intro that [of "x - y"])
       (auto simp: uint256_unchecked_sub_def uint256_sub_eq u256_word_diff intro: u256_ok_mono)
qed

lemma uint_u256_word: "u256_ok x \<Longrightarrow> uint (u256_word x) = int x"
  by (metis uint_nat unat_u256_word)

lemma bit_top_iff: "x < 2 ^ Suc k \<Longrightarrow> bit (x :: nat) k \<longleftrightarrow> 2 ^ k \<le> x"
proof -
  assume "x < 2 ^ Suc k"
  then have "x div 2 ^ k < 2" by (simp add: less_mult_imp_div_less)
  then have "x div 2 ^ k = of_bool (2 ^ k \<le> x)"
    using div_greater_zero_iff [of x "2 ^ k"] by (cases "2 ^ k \<le> x") (auto simp: less_2_cases_iff)
  then show ?thesis by (simp add: bit_iff_odd)
qed

lemma to_signed_sint:
  assumes "u256_ok x"
  shows "uint256_to_signed x = sint (u256_word x)"
proof -
  have x: "x < 2 ^ 256" using assms by (simp add: u256_ok_def u256_modulus_def)
  then have b: "bit (int x) 255 \<longleftrightarrow> 2 ^ 255 \<le> x"
    using bit_top_iff [of x 255] by (simp add: bit_of_nat_iff_bit)
  have "sint (u256_word x) = signed_take_bit 255 (int x)"
    using assms by (simp add: sint_uint uint_u256_word)
  also have "\<dots> = int x - 2 ^ 256 * of_bool (bit (int x) 255)"
    using x by (simp add: signed_take_bit_eq_take_bit_minus take_bit_int_eq_self del: bit_of_nat_iff_bit)
  finally show ?thesis
    by (auto simp: uint256_to_signed_def biguint_2_255 biguint_2_256 b u256_modulus_def)
qed


lemma bigint_to_biguint_word:
  assumes "- int u256_modulus \<le> i" "i < int u256_modulus"
  obtains r where "uint256_bigint_to_biguint i = Some r" "u256_ok r" "u256_word r = word_of_int i"
proof (cases "i < 0")
  case True
  have "word_of_int (i + int u256_modulus) = (word_of_int i :: 256 word)"
    using u256_word_modulus by (simp add: u256_word_def)
  moreover have "word_of_nat (nat (i + int u256_modulus)) = (word_of_int (i + int u256_modulus) :: 256 word)"
    using assms of_int_of_nat_eq [of "nat (i + int u256_modulus)", where ?'a = "256 word"] by simp
  ultimately show ?thesis
    using True assms
    by (intro that [of "nat (i + int u256_modulus)"])
       (auto simp: uint256_bigint_to_biguint_def biguint_2_256 u256_ok_def u256_word_def)
next
  case False
  with assms show ?thesis
    by (intro that [of "nat i"])
       (auto simp: uint256_bigint_to_biguint_def Let_def u256_ok_def u256_word_def)
qed

lemma to_signed_range:
  assumes "u256_ok x"
  shows "- (2 ^ 255) \<le> uint256_to_signed x" "uint256_to_signed x < 2 ^ 255"
  using assms by (auto simp: uint256_to_signed_def biguint_2_255 biguint_2_256 u256_ok_def u256_modulus_def)

lemma to_signed_eq_0_iff: "u256_ok x \<Longrightarrow> uint256_to_signed x = 0 \<longleftrightarrow> x = 0"
  by (auto simp: uint256_to_signed_def biguint_2_255 biguint_2_256 u256_ok_def u256_modulus_def)


lemma abs_sdiv_le: "\<bar>a sdiv b\<bar> \<le> \<bar>a :: int\<bar>"
proof (cases "b = 0")
  case False
  then have "\<bar>a\<bar> div \<bar>b\<bar> \<le> \<bar>a\<bar>" and "0 \<le> \<bar>a\<bar> div \<bar>b\<bar>"
    using zdiv_mono2 [of "\<bar>a\<bar>" 1 "\<bar>b\<bar>"] by (auto simp: pos_imp_zdiv_nonneg_iff)
  then show ?thesis
    by (simp add: signed_divide_int_def abs_mult abs_sgn_eq)
qed (simp add: signed_divide_int_def)

lemma abs_smod_le: "\<bar>a smod b\<bar> \<le> \<bar>a :: int\<bar>"
proof (cases "b = 0")
  case False
  then have "\<bar>a\<bar> mod \<bar>b\<bar> \<le> \<bar>a\<bar>" and "0 \<le> \<bar>a\<bar> mod \<bar>b\<bar>"
    by (auto intro: zmod_le_nonneg_dividend)
  then show ?thesis
    by (simp add: signed_modulo_int_def abs_mult abs_sgn_eq)
qed (simp add: signed_modulo_int_def abs_mult abs_sgn_eq)

lemma sdiv_word:
  assumes "u256_ok x" "u256_ok y" "y \<noteq> 0"
  obtains r where "uint256_sdiv x y = Some (Some r)" "u256_ok r"
    "u256_word r = word_of_int (sint (u256_word x) sdiv sint (u256_word y))"
proof -
  let ?q = "uint256_to_signed x sdiv uint256_to_signed y"
  have "\<bar>?q\<bar> \<le> 2 ^ 255"
    using abs_sdiv_le [of "uint256_to_signed x" "uint256_to_signed y"] to_signed_range [OF assms(1)]
    by linarith
  then have "- int u256_modulus \<le> ?q" "?q < int u256_modulus"
    by (auto simp: u256_modulus_def)
  then obtain r where "uint256_bigint_to_biguint ?q = Some r" "u256_ok r" "u256_word r = word_of_int ?q"
    by (rule bigint_to_biguint_word)
  with assms show ?thesis
    by (intro that) (auto simp: uint256_sdiv_def to_signed_sint)
qed

lemma smodulo_word:
  assumes "u256_ok x" "u256_ok y" "y \<noteq> 0"
  obtains r where "uint256_smodulo x y = Some (Some r)" "u256_ok r"
    "u256_word r = word_of_int (sint (u256_word x) smod sint (u256_word y))"
proof -
  let ?q = "uint256_to_signed x smod uint256_to_signed y"
  have "\<bar>?q\<bar> \<le> 2 ^ 255"
    using abs_smod_le [of "uint256_to_signed x" "uint256_to_signed y"] to_signed_range [OF assms(1)]
    by linarith
  then have "- int u256_modulus \<le> ?q" "?q < int u256_modulus"
    by (auto simp: u256_modulus_def)
  then obtain r where "uint256_bigint_to_biguint ?q = Some r" "u256_ok r" "u256_word r = word_of_int ?q"
    by (rule bigint_to_biguint_word)
  with assms show ?thesis
    by (intro that) (auto simp: uint256_smodulo_def to_signed_sint)
qed

lemma shift_left_word: "u256_word (uint256_shift_left x n) = push_bit n (u256_word x)"
proof (cases "256 \<le> n")
  case True
  then have "push_bit n (u256_word x) = 0"
    by (intro bit_word_eqI) (simp add: bit_simps)
  with True show ?thesis by (simp add: uint256_shift_left_def uint256_zero_def)
next
  case False
  then show ?thesis
    by (simp add: uint256_shift_left_def uint256_trim_eq push_bit_eq_mult u256_word_mult)
       (simp add: u256_word_def)
qed

lemma shift_right_ok: "u256_ok x \<Longrightarrow> u256_ok (uint256_shift_right x n)"
  by (erule u256_ok_mono) (simp add: uint256_shift_right_def drop_bit_eq_div)

lemma shift_right_word:
  assumes "u256_ok x"
  shows "u256_word (uint256_shift_right x n) = drop_bit n (u256_word x)"
proof -
  have "take_bit 256 x = x" using assms by (simp add: u256_ok_iff_take_bit)
  then show ?thesis
    using assms shift_right_ok [OF assms, of n]
    by (simp add: word_unat_eq_iff unsigned_drop_bit_eq) (simp add: uint256_shift_right_def)
qed

lemma biguint_bits_256_iff: "u256_ok x \<Longrightarrow> biguint_bits x = 256 \<longleftrightarrow> 2 ^ 255 \<le> x"
  using biguint_bits_le_iff [of x 255] biguint_bits_le_iff [of x 256]
  by (auto simp: u256_ok_def u256_modulus_def)

lemma shift_arith_word:
  assumes "u256_ok x"
  shows "u256_word (uint256_shift_arith x n) = signed_drop_bit n (u256_word x)"
    and "u256_ok (uint256_shift_arith x n)"
proof -
  show "u256_ok (uint256_shift_arith x n)"
    by (simp add: uint256_shift_arith_def Let_def uint256_trim_eq)
  let ?m = "if 256 < n then 256 else n"
  have x: "x < 2 ^ 256" using assms by (simp add: u256_ok_def u256_modulus_def)
  have b: "bit x i \<Longrightarrow> i < 256" for i
    using x by (metis bit_take_bit_iff take_bit_nat_eq_self)
  have neg: "biguint_bits x = 256 \<longleftrightarrow> bit x 255"
    using bit_top_iff [of x 255] x biguint_bits_256_iff [OF assms] by simp
  have mx: "uint256_max_uint = mask 256"
    by (simp add: uint256_max_uint_def biguint_max_mask)
  have sum: "drop_bit ?m x + push_bit (256 - ?m) (mask 256) =
      drop_bit ?m x OR push_bit (256 - ?m) (mask 256)"
    by (rule disjunctive_add_eq_or) (auto simp: bit_eq_iff bit_simps dest: b)
  have w: "u256_word (uint256_shift_arith x n) =
      u256_word (if bit x 255 then drop_bit ?m x OR push_bit (256 - ?m) (mask 256) else drop_bit ?m x)"
    by (simp only: uint256_shift_arith_def Let_def uint256_trim_eq neg mx sum fst_conv u256_word_mod)
  have "bit (u256_word (uint256_shift_arith x n)) i = bit (signed_drop_bit n (u256_word x)) i"
    if "i < LENGTH(256)" for i
    using that unfolding w by (auto simp: u256_word_def bit_simps dest: b)
  then show "u256_word (uint256_shift_arith x n) = signed_drop_bit n (u256_word x)"
    by (rule bit_word_eqI)
qed

section \<open>Byte and digit representations\<close>

lemma length_to_bytes_be [simp]: "u256_ok x \<Longrightarrow> length (uint256_to_bytes_be x) = 32"
  using length_be_bytes_le [of x 32]
  by (auto simp: uint256_to_bytes_be_def biguint_to_bytes_be_def Let_def u256_ok_def u256_modulus_def)

lemma from_bytes_to_bytes_be [simp]: "uint256_from_bytes (uint256_to_bytes_be x) = x"
proof -
  have "be_value (biguint_to_bytes_be x) = x"
    using be_value_replicate_0 [of 1] by (simp add: biguint_to_bytes_be_def be_value_be_bytes)
  then show ?thesis
    by (simp add: uint256_to_bytes_be_def uint256_from_bytes_def Let_def be_value_append)
qed

lemma from_bytes_ok: "length bs \<le> 32 \<Longrightarrow> u256_ok (uint256_from_bytes bs)"
proof -
  assume "length bs \<le> 32"
  then have "(256::nat) ^ length bs \<le> 256 ^ 32" by (intro power_increasing) auto
  with be_value_less [of bs] show ?thesis
    by (simp add: u256_ok_def u256_modulus_def uint256_from_bytes_def)
qed

lemma to_bytes_be_from_bytes:
  "length bs = 32 \<Longrightarrow> uint256_to_bytes_be (uint256_from_bytes bs) = bs"
  by (rule be_value_inj)
     (auto simp: from_bytes_ok simp flip: uint256_from_bytes_def)

lemma to_bytes_be_inj: "uint256_to_bytes_be x = uint256_to_bytes_be y \<longleftrightarrow> x = y"
  by (metis from_bytes_to_bytes_be)

lemma from_bytes_minimal: "uint256_from_bytes (uint256_to_bytes_minimal x) = x"
  by (simp add: uint256_to_bytes_minimal_def uint256_is_zero_def biguint_to_bytes_be_def
      uint256_from_bytes_def be_value_be_bytes)

lemma to_u32_digits_be_value:
  assumes "u256_ok x"
  obtains ds where "uint256_to_u32_digits_be x = Some ds" "length ds = 8"
    "uint256_from_u32_digits (rev ds) = x"
proof -
  have "length (biguint_to_u32_digits x) \<le> 8"
    using assms by (auto simp: biguint_to_u32_digits_def u256_ok_def u256_modulus_def
        intro: length_le_digits_le)
  then show ?thesis
    by (intro that [of "replicate (8 - length (biguint_to_u32_digits x)) 0 @ rev (biguint_to_u32_digits x)"])
       (auto simp: uint256_to_u32_digits_be_def Let_def uint256_from_u32_digits_def biguint_new_def
          le_value_append le_value_le_digits biguint_to_u32_digits_def)
qed

lemma bytes_minimal_eq_be_bytes: "uint256_to_bytes_minimal x = be_bytes x"
  by (simp add: uint256_to_bytes_minimal_def uint256_is_zero_def biguint_to_bytes_be_def be_bytes_def)

section \<open>Properties\<close>



text \<open>C34: Signed division and remainder on in-range values never panic; a zero divisor gives
  \<open>None\<close>, and otherwise the result is the two's complement encoding of the quotient (or
  remainder) of the two's complement operands, truncated towards zero.  This includes the
  overflowing quotient of the least negative number by minus one, which wraps.\<close>

theorem uint256_signed_ops_refine_words:
  assumes "u256_ok x" "u256_ok y"
  shows "(if y = 0 then uint256_sdiv x y = Some None \<and> uint256_smodulo x y = Some None
          else (\<exists>q. uint256_sdiv x y = Some (Some q) \<and> u256_ok q \<and>
                   u256_word q = word_of_int (sint (u256_word x) sdiv sint (u256_word y)))
             \<and> (\<exists>r. uint256_smodulo x y = Some (Some r) \<and> u256_ok r \<and>
                   u256_word r = word_of_int (sint (u256_word x) smod sint (u256_word y))))
    \<and> uint256_s_less_than x y = (sint (u256_word x) < sint (u256_word y))"
proof (cases "y = 0")
  case True
  with assms show ?thesis
    by (simp add: uint256_sdiv_def uint256_smodulo_def uint256_s_less_than_def to_signed_sint)
next
  case False
  with sdiv_word [OF assms] smodulo_word [OF assms]
  have "\<exists>q. uint256_sdiv x y = Some (Some q) \<and> u256_ok q \<and>
          u256_word q = word_of_int (sint (u256_word x) sdiv sint (u256_word y))"
    and "\<exists>r. uint256_smodulo x y = Some (Some r) \<and> u256_ok r \<and>
          u256_word r = word_of_int (sint (u256_word x) smod sint (u256_word y))"
    by metis+
  with False assms show ?thesis
    by (simp add: uint256_s_less_than_def to_signed_sint)
qed

theorem uint256_signed_ops_refine_words_witness:
  "\<exists>q. uint256_sdiv (2 ^ 255) 7 = Some (Some q) \<and> u256_ok q \<and>
     u256_word q = word_of_int (sint (u256_word (2 ^ 255)) sdiv sint (u256_word 7))"
proof -
  have "u256_ok (2 ^ 255)" "u256_ok 7" by (simp_all add: u256_ok_def u256_modulus_def)
  from uint256_signed_ops_refine_words [OF this] show ?thesis by simp
qed

text \<open>C35: The bitwise operations and the three shifts keep values in range and agree with the
  bit operations of 256-bit words, for every shift amount (also those of 256 and more).\<close>

theorem uint256_bit_ops_refine_words:
  assumes "u256_ok x" "u256_ok y"
  shows "(u256_ok (uint256_bitwise_neg x) \<and> u256_word (uint256_bitwise_neg x) = NOT (u256_word x))
    \<and> (u256_ok (uint256_bitwise_and x y) \<and> u256_word (uint256_bitwise_and x y) = u256_word x AND u256_word y)
    \<and> (u256_ok (uint256_bitwise_or x y) \<and> u256_word (uint256_bitwise_or x y) = u256_word x OR u256_word y)
    \<and> (u256_ok (uint256_bitwise_xor x y) \<and> u256_word (uint256_bitwise_xor x y) = u256_word x XOR u256_word y)
    \<and> (u256_ok (uint256_shift_left x n) \<and> u256_word (uint256_shift_left x n) = push_bit n (u256_word x))
    \<and> (u256_ok (uint256_shift_right x n) \<and> u256_word (uint256_shift_right x n) = drop_bit n (u256_word x))
    \<and> (u256_ok (uint256_shift_arith x n) \<and> u256_word (uint256_shift_arith x n) = signed_drop_bit n (u256_word x))"
proof -
  have "u256_word (x AND y) = u256_word x AND u256_word y"
    "u256_word (x OR y) = u256_word x OR u256_word y"
    "u256_word (x XOR y) = u256_word x XOR u256_word y"
    by (simp_all add: u256_word_def of_nat_and_eq of_nat_or_eq of_nat_xor_eq)
  moreover have "u256_ok (uint256_shift_left x n)"
    by (simp add: uint256_shift_left_def uint256_trim_eq uint256_zero_def)
  ultimately show ?thesis
    using assms bitwise_closed [OF assms] shift_arith_word [OF assms(1)]
    by (simp add: bitwise_neg_ok bitwise_neg_word shift_left_word shift_right_word shift_right_ok
        uint256_bitwise_and_def uint256_bitwise_or_def uint256_bitwise_xor_def)
qed

theorem uint256_bit_ops_refine_words_witness:
  "u256_word (uint256_shift_arith (2 ^ 255 + 1) 300) = signed_drop_bit 300 (u256_word (2 ^ 255 + 1))"
proof -
  have "u256_ok (2 ^ 255 + 1)" "u256_ok 1" by (simp_all add: u256_ok_def u256_modulus_def)
  from uint256_bit_ops_refine_words [OF this, of 300] show ?thesis by blast
qed

text \<open>Byte encodings round trip: an in-range value encodes to exactly 32 big-endian bytes
  that decode to the value, every 32-byte string is the encoding of the value it decodes to,
  the minimal encoding decodes to the value, and the eight 32-bit digits recompose to it.\<close>

theorem uint256_bytes_roundtrip:
  assumes "u256_ok x" "length bs = 32"
  shows "length (uint256_to_bytes_be x) = 32
    \<and> uint256_from_bytes (uint256_to_bytes_be x) = x
    \<and> uint256_to_bytes_be (uint256_from_bytes bs) = bs
    \<and> uint256_from_bytes (uint256_to_bytes_minimal x) = x
    \<and> (\<exists>ds. uint256_to_u32_digits_be x = Some ds \<and> length ds = 8 \<and> uint256_from_u32_digits (rev ds) = x)"
proof -
  obtain ds where "uint256_to_u32_digits_be x = Some ds" "length ds = 8"
    "uint256_from_u32_digits (rev ds) = x"
    using to_u32_digits_be_value [OF assms(1)] .
  with assms show ?thesis
    by (simp add: to_bytes_be_from_bytes from_bytes_minimal)
qed

theorem uint256_bytes_roundtrip_witness:
  "uint256_from_bytes (uint256_to_bytes_be 258) = 258
   \<and> uint256_to_bytes_be (uint256_from_bytes (replicate 32 7)) = replicate 32 7"
proof -
  have "u256_ok 258" "length (replicate 32 (7 :: byte)) = 32"
    by (simp_all add: u256_ok_def u256_modulus_def)
  from uint256_bytes_roundtrip [OF this] show ?thesis by blast
qed

text \<open>The parsers accept exactly the numerals the library parser accepts whose value is
  below \<open>2 ^ 256\<close>, and return that value; a signed numeral between \<open>- (2 ^ 256)\<close> and
  \<open>2 ^ 256\<close> is returned modulo \<open>2 ^ 256\<close> without a panic.\<close>

theorem uint256_from_string_exact:
  "uint256_from_string parse s =
     (case parse s of Some n \<Rightarrow> if n < u256_modulus then Some n else None | None \<Rightarrow> None)
   \<and> (case psigned (filter (\<lambda>c. c \<noteq> CHR ''s'') s) of
        None \<Rightarrow> uint256_from_signed_string psigned s = Some None
      | Some i \<Rightarrow>
          if - int u256_modulus \<le> i \<and> i < int u256_modulus
          then uint256_from_signed_string psigned s = Some (Some (nat (i mod int u256_modulus)))
          else if i < 0 then uint256_from_signed_string psigned s = None
          else uint256_from_signed_string psigned s = Some None)"
proof -
  have "i mod int u256_modulus = i + int u256_modulus" if "- int u256_modulus \<le> i" "i < 0" for i
    using that by (metis add.commute add_less_same_cancel1 mod_add_self2 mod_pos_pos_trivial
        le_minus_iff add_uminus_conv_diff diff_ge_0_iff_ge minus_minus)
  then show ?thesis
    by (auto simp: uint256_from_string_def uint256_from_signed_string_def uint256_trim_eq
        uint256_bigint_to_biguint_def biguint_2_256 Let_def nat_less_iff split: option.splits)
qed

text \<open>\<open>_max_neg_int\<close> is documented by its name as the least negative number, but it raises
  one (not two) to the power 255: its value is 1.\<close>

theorem uint256_max_neg_int_is_one: "uint256_max_neg_int = 1 \<and> uint256_to_signed uint256_max_neg_int = 1"
  by (simp add: uint256_max_neg_int_def uint256_exp_eq uint256_one_def uint256_to_signed_def
      biguint_2_255 u256_modulus_def)

end
