(* ===== verification/Buffer.thy ===== *)
theory Buffer
  imports Uint256
begin

text \<open>
  The byte buffers of \<open>src/mavm.rs\<close>: a hash-carrying binary tree of 32-byte leaves that grows
  on demand.  \<open>BufferInternal\<close> is flattened into the constructor \<open>Internal\<close> of
  \<open>buffer_node\<close>.  Operations are total on well-formed buffers; elsewhere the Rust code may
  index out of range or recurse for ever, and the model returns \<open>None\<close>.  The locale
  \<open>byte_store\<close> is what clients rely on: a buffer behaves like a byte string padded with
  infinitely many zeros.  It is interpreted on the tree operations at the end of the theory.
\<close>

section \<open>Definitions\<close>

type_synonym hash_fn = "byte list \<Rightarrow> byte list"

datatype buffer_node =
    Leaf "byte list"
  | Internal (height: usize) (capacity: nat) (left: buffer_node) (right: buffer_node) (hash_val: uint256)

record buffer =
  root :: buffer_node
  size :: nat

definition node_new_empty :: buffer_node where
  "node_new_empty = Leaf (replicate 32 0)"

fun node_hash :: "hash_fn \<Rightarrow> buffer_node \<Rightarrow> uint256" where
  "node_hash keccak256 (Leaf b) = uint256_from_bytes (keccak256 b)"
| "node_hash keccak256 (Internal _ _ _ _ hv) = hv"

definition internal_new :: "hash_fn \<Rightarrow> usize \<Rightarrow> nat \<Rightarrow> buffer_node \<Rightarrow> buffer_node \<Rightarrow> buffer_node" where
  "internal_new keccak256 h c l r =
     Internal h c l r
       (uint256_from_bytes
         (keccak256 (uint256_to_bytes_be (node_hash keccak256 l) @ uint256_to_bytes_be (node_hash keccak256 r))))"

text \<open>At height 0 the subtraction \<open>height - 1\<close> wraps and the recursion does not end.\<close>

fun new_empty_internal :: "hash_fn \<Rightarrow> usize \<Rightarrow> nat \<Rightarrow> buffer_node option" where
  "new_empty_internal keccak256 0 c = None"
| "new_empty_internal keccak256 (Suc h) c =
     (case (if h = 0 then Some node_new_empty else new_empty_internal keccak256 h (c div 2)) of
        None \<Rightarrow> None
      | Some child \<Rightarrow> Some (internal_new keccak256 (Suc h) c child child))"

fun internal_grow :: "hash_fn \<Rightarrow> buffer_node \<Rightarrow> buffer_node option" where
  "internal_grow keccak256 (Internal h c l r hv) =
     (case new_empty_internal keccak256 h c of
        None \<Rightarrow> None
      | Some e \<Rightarrow> Some (internal_new keccak256 (h + 1) (c * 2) (Internal h c l r hv) e))"
| "internal_grow keccak256 (Leaf b) = None"

definition grow_from_leaf :: "hash_fn \<Rightarrow> buffer_node \<Rightarrow> buffer_node" where
  "grow_from_leaf keccak256 leaf = internal_new keccak256 2 (2 * 32) leaf node_new_empty"

fun node_read_byte :: "buffer_node \<Rightarrow> nat \<Rightarrow> byte option" where
  "node_read_byte (Leaf b) offset = get_at b (offset mod usize_limit)"
| "node_read_byte (Internal h c l r hv) offset =
     (if offset < c div 2 then node_read_byte l offset
      else node_read_byte r (offset - c div 2))"

partial_function (option) node_set_byte :: "hash_fn \<Rightarrow> buffer_node \<Rightarrow> nat \<Rightarrow> byte \<Rightarrow> buffer_node option" where
  "node_set_byte keccak256 n offset v =
     (case n of
        Leaf b \<Rightarrow>
          if offset < 32
          then if offset < length b then Some (Leaf (b[offset := v])) else None
          else node_set_byte keccak256 (grow_from_leaf keccak256 (Leaf b)) offset v
      | Internal h c l r hv \<Rightarrow>
          if offset < c div 2
          then Option.bind (node_set_byte keccak256 l offset v)
                 (\<lambda>l'. Some (internal_new keccak256 h c l' r))
          else if offset < c
          then Option.bind (node_set_byte keccak256 r (offset - c div 2) v)
                 (\<lambda>r'. Some (internal_new keccak256 h c l r'))
          else Option.bind (internal_grow keccak256 n)
                 (\<lambda>n'. node_set_byte keccak256 n' offset v))"

text \<open>\<open>hex::encode\<close> is library code; the slice \<open>[0..(2 * size)]\<close> panics when it is too long.\<close>

fun node_hex_encode :: "(byte list \<Rightarrow> string) \<Rightarrow> buffer_node \<Rightarrow> usize \<Rightarrow> string option" where
  "node_hex_encode hex (Leaf b) sz =
     (if 2 * sz \<le> length (hex b) then Some (take (2 * sz) (hex b)) else None)"
| "node_hex_encode hex (Internal h c l r hv) sz =
     (let half_capacity = (c div 2) mod usize_limit
      in if sz = 0 then Some []
         else if sz \<le> half_capacity then node_hex_encode hex l sz
         else (case node_hex_encode hex l half_capacity of
                 None \<Rightarrow> None
               | Some left_str \<Rightarrow>
                   (case node_hex_encode hex r (sz - half_capacity) of
                      None \<Rightarrow> None
                    | Some right_str \<Rightarrow> Some (left_str @ right_str))))"

definition buffer_new_empty :: buffer where
  "buffer_new_empty = \<lparr>root = node_new_empty, size = 0\<rparr>"

definition buffer_read_byte :: "buffer \<Rightarrow> nat \<Rightarrow> byte option" where
  "buffer_read_byte b offset = (if size b \<le> offset then Some 0 else node_read_byte (root b) offset)"

definition buffer_set_byte :: "hash_fn \<Rightarrow> buffer \<Rightarrow> nat \<Rightarrow> byte \<Rightarrow> buffer option" where
  "buffer_set_byte keccak256 b offset v =
     map_option (\<lambda>n. \<lparr>root = n, size = (if size b \<le> offset then offset + 1 else size b)\<rparr>)
       (node_set_byte keccak256 (root b) offset v)"

text \<open>Writing consecutive bytes one at a time, the loop shared by \<open>from_bytes\<close> and the
  \<open>SetBuffer\<close> instructions; \<open>put\<close> is the single-byte write.\<close>

fun write_loop :: "('b \<Rightarrow> nat \<Rightarrow> byte \<Rightarrow> 'b option) \<Rightarrow> 'b \<Rightarrow> nat \<Rightarrow> byte list \<Rightarrow> 'b option" where
  "write_loop put b i [] = Some b"
| "write_loop put b i (v # vs) = Option.bind (put b i v) (\<lambda>b'. write_loop put b' (i + 1) vs)"

definition buffer_from_bytes :: "hash_fn \<Rightarrow> byte list \<Rightarrow> buffer option" where
  "buffer_from_bytes keccak256 contents = write_loop (buffer_set_byte keccak256) buffer_new_empty 0 contents"

definition buffer_as_bytes :: "buffer \<Rightarrow> usize \<Rightarrow> byte list option" where
  "buffer_as_bytes b nbytes = collect_opt (buffer_read_byte b) [0..<nbytes]"

definition buffer_avm_hash :: "hash_fn \<Rightarrow> buffer \<Rightarrow> uint256" where
  "buffer_avm_hash keccak256 b = node_hash keccak256 (root b)"

definition buffer_hex_encode :: "(byte list \<Rightarrow> string) \<Rightarrow> buffer \<Rightarrow> string option" where
  "buffer_hex_encode hex b = node_hex_encode hex (root b) (size b mod usize_limit)"

text \<open>Serialization to, and deserialization from, a hexadecimal string.\<close>

definition buffer_serialize :: "(byte list \<Rightarrow> string) \<Rightarrow> buffer \<Rightarrow> string option" where
  "buffer_serialize hex b = map_option hex (buffer_as_bytes b (size b mod usize_limit))"

definition buffer_deserialize ::
    "hash_fn \<Rightarrow> (string \<Rightarrow> byte list option) \<Rightarrow> string \<Rightarrow> buffer option option" where
  "buffer_deserialize keccak256 unhex s =
     (case unhex s of None \<Rightarrow> Some None | Some bs \<Rightarrow> map_option Some (buffer_from_bytes keccak256 bs))"

text \<open>\<open>_levels_needed\<close>: the loop doubles \<open>size\<close> until it reaches \<open>x\<close>.\<close>

function levels_needed_loop :: "nat \<Rightarrow> usize \<Rightarrow> nat \<Rightarrow> usize \<times> nat" where
  "levels_needed_loop x h sz =
     (if sz < x \<and> 0 < sz then levels_needed_loop x (h + 1) (sz * 2) else (h, sz))"
  by pat_completeness auto
termination
  by (relation "measure (\<lambda>(x, h, sz). x - sz)") auto

declare levels_needed_loop.simps [simp del]

definition levels_needed :: "nat \<Rightarrow> usize \<times> nat" where
  "levels_needed x = levels_needed_loop x 1 32"

section \<open>Well-formed trees\<close>

text \<open>
  The shape of every tree the operations build.  Along the left spine, level \<open>k\<close> has
  capacity \<open>32 * 2 ^ k\<close>.  The right child of a spine node of level 2 and above comes from
  \<open>new_empty_internal\<close>, which hangs a full 32-byte leaf where only 16 bytes are addressed:
  \<open>wf_fill h\<close> describes such a tree of height \<open>h\<close> and capacity \<open>16 * 2 ^ h\<close>, whose unused
  leaf halves stay zero.
\<close>

fun wf_fill :: "hash_fn \<Rightarrow> nat \<Rightarrow> buffer_node \<Rightarrow> bool" where
  "wf_fill keccak256 0 (Leaf b) \<longleftrightarrow> length b = 32 \<and> drop 16 b = replicate 16 0"
| "wf_fill keccak256 (Suc h) (Internal ht c l r hv) \<longleftrightarrow>
     Internal ht c l r hv = internal_new keccak256 (Suc h) (32 * 2 ^ h) l r \<and>
     wf_fill keccak256 h l \<and> wf_fill keccak256 h r"
| "wf_fill keccak256 _ _ \<longleftrightarrow> False"

fun wf_spine :: "hash_fn \<Rightarrow> nat \<Rightarrow> buffer_node \<Rightarrow> bool" where
  "wf_spine keccak256 0 (Leaf b) \<longleftrightarrow> length b = 32"
| "wf_spine keccak256 (Suc k) (Internal ht c l r hv) \<longleftrightarrow>
     Internal ht c l r hv = internal_new keccak256 (k + 2) (64 * 2 ^ k) l r \<and>
     wf_spine keccak256 k l \<and>
     (if k = 0 then wf_spine keccak256 0 r else wf_fill keccak256 (Suc k) r)"
| "wf_spine keccak256 _ _ \<longleftrightarrow> False"

text \<open>The invariant: the tree has the level \<open>_levels_needed\<close> gives for the size, and every byte
  from the size up to the capacity is zero.\<close>

definition buffer_ok :: "hash_fn \<Rightarrow> buffer \<Rightarrow> bool" where
  "buffer_ok kec b \<longleftrightarrow>
     (case levels_needed (size b) of
        (h, c) \<Rightarrow> wf_spine kec (h - 1) (root b) \<and>
                  (\<forall>i \<in> {size b..<c}. node_read_byte (root b) i = Some 0))"

definition buffer_bytes :: "buffer \<Rightarrow> byte list" where
  "buffer_bytes b = map (\<lambda>i. the (node_read_byte (root b) i)) [0..<size b]"

definition store_at :: "byte list \<Rightarrow> nat \<Rightarrow> byte \<Rightarrow> byte list" where
  "store_at xs i v = (if i < length xs then xs[i := v] else xs @ replicate (i - length xs) 0 @ [v])"

text \<open>What a write does to the byte string a buffer stands for, and the reading of a byte string
  that is padded with zeros.\<close>

definition padded_nth :: "byte list \<Rightarrow> nat \<Rightarrow> byte" where
  "padded_nth xs i = (if i < length xs then xs ! i else 0)"

section \<open>Lemmas on trees\<close>

lemma wf_fill_SucE:
  assumes "wf_fill kec (Suc h) n"
  obtains l r where "n = internal_new kec (Suc h) (32 * 2 ^ h) l r" "wf_fill kec h l" "wf_fill kec h r"
  using assms by (cases n) auto

lemma wf_spine_SucE:
  assumes "wf_spine kec (Suc k) n"
  obtains l r where "n = internal_new kec (k + 2) (64 * 2 ^ k) l r" "wf_spine kec k l"
    "if k = 0 then wf_spine kec 0 r else wf_fill kec (Suc k) r"
  using assms by (cases n) auto

lemma wf_fill_new [simp]:
  "wf_fill kec (Suc h) (internal_new kec ht c l r) \<longleftrightarrow>
     ht = Suc h \<and> c = 32 * 2 ^ h \<and> wf_fill kec h l \<and> wf_fill kec h r"
  by (auto simp: internal_new_def)

lemma wf_spine_new [simp]:
  "wf_spine kec (Suc k) (internal_new kec ht c l r) \<longleftrightarrow>
     ht = k + 2 \<and> c = 64 * 2 ^ k \<and> wf_spine kec k l \<and>
     (if k = 0 then wf_spine kec 0 r else wf_fill kec (Suc k) r)"
  by (auto simp: internal_new_def)

lemma internal_new_inject [simp]:
  "internal_new kec h c l r = internal_new kec h' c' l' r' \<longleftrightarrow> h = h' \<and> c = c' \<and> l = l' \<and> r = r'"
  by (auto simp: internal_new_def)

lemma read_internal_new [simp]:
  "node_read_byte (internal_new kec h c l r) off =
     (if off < c div 2 then node_read_byte l off else node_read_byte r (off - c div 2))"
  by (simp add: internal_new_def)

lemma node_set_byte_Leaf:
  "node_set_byte kec (Leaf b) off v =
     (if off < 32 then if off < length b then Some (Leaf (b[off := v])) else None
      else node_set_byte kec (grow_from_leaf kec (Leaf b)) off v)"
  by (subst node_set_byte.simps) simp

lemma node_set_byte_new:
  "node_set_byte kec (internal_new kec h c l r) off v =
     (if off < c div 2 then map_option (\<lambda>l'. internal_new kec h c l' r) (node_set_byte kec l off v)
      else if off < c then map_option (\<lambda>r'. internal_new kec h c l r') (node_set_byte kec r (off - c div 2) v)
      else Option.bind (internal_grow kec (internal_new kec h c l r)) (\<lambda>n'. node_set_byte kec n' off v))"
  by (subst node_set_byte.simps) (auto simp: internal_new_def [abs_def] bind_Some_eq_map)

lemma small_mod_usize: "off < 32 \<Longrightarrow> off mod usize_limit = off"
  by (simp add: usize_limit_def)

lemma wf_fill_0E: assumes "wf_fill kec 0 n" obtains b where "n = Leaf b" "length b = 32" "drop 16 b = replicate 16 0"
  using assms by (cases n) auto

lemma wf_spine_0E: assumes "wf_spine kec 0 n" obtains b where "n = Leaf b" "length b = 32"
  using assms by (cases n) auto

subsection \<open>Writes inside the capacity\<close>

lemma set_fill:
  "wf_fill kec h n \<Longrightarrow> off < 16 * 2 ^ h \<Longrightarrow>
   \<exists>n'. node_set_byte kec n off v = Some n' \<and> wf_fill kec h n' \<and>
     (\<forall>i < 16 * 2 ^ h. node_read_byte n' i = (if i = off then Some v else node_read_byte n i))"
proof (induction h arbitrary: n off)
  case 0
  then obtain b where b: "n = Leaf b" "length b = 32" "drop 16 b = replicate 16 0"
    by (elim wf_fill_0E) auto
  with 0 show ?case
    by (auto simp: node_set_byte_Leaf get_at_def small_mod_usize drop_update_cancel)
next
  case (Suc h)
  then obtain l r where n: "n = internal_new kec (Suc h) (32 * 2 ^ h) l r"
    and l: "wf_fill kec h l" and r: "wf_fill kec h r" by (elim wf_fill_SucE)
  show ?case
  proof (cases "off < 16 * 2 ^ h")
    case True
    then obtain l' where "node_set_byte kec l off v = Some l'" "wf_fill kec h l'"
      "\<forall>i < 16 * 2 ^ h. node_read_byte l' i = (if i = off then Some v else node_read_byte l i)"
      using Suc.IH [OF l] by blast
    with True n r show ?thesis by (auto simp: node_set_byte_new)
  next
    case False
    with Suc.prems have "off - 16 * 2 ^ h < 16 * 2 ^ h" by simp
    then obtain r' where "node_set_byte kec r (off - 16 * 2 ^ h) v = Some r'" "wf_fill kec h r'"
      "\<forall>i < 16 * 2 ^ h. node_read_byte r' i = (if i = off - 16 * 2 ^ h then Some v else node_read_byte r i)"
      using Suc.IH [OF r] by blast
    with False Suc.prems n l show ?thesis by (auto simp: node_set_byte_new)
  qed
qed

lemma set_spine:
  "wf_spine kec k n \<Longrightarrow> off < 32 * 2 ^ k \<Longrightarrow>
   \<exists>n'. node_set_byte kec n off v = Some n' \<and> wf_spine kec k n' \<and>
     (\<forall>i < 32 * 2 ^ k. node_read_byte n' i = (if i = off then Some v else node_read_byte n i))"
proof (induction k arbitrary: n off)
  case 0
  then obtain b where b: "n = Leaf b" "length b = 32"
    by (elim wf_spine_0E) auto
  with 0 show ?case
    by (auto simp: node_set_byte_Leaf get_at_def small_mod_usize)
next
  case (Suc k)
  then obtain l r where n: "n = internal_new kec (k + 2) (64 * 2 ^ k) l r"
    and l: "wf_spine kec k l" and r: "if k = 0 then wf_spine kec 0 r else wf_fill kec (Suc k) r"
    by (elim wf_spine_SucE)
  show ?case
  proof (cases "off < 32 * 2 ^ k")
    case True
    then obtain l' where "node_set_byte kec l off v = Some l'" "wf_spine kec k l'"
      "\<forall>i < 32 * 2 ^ k. node_read_byte l' i = (if i = off then Some v else node_read_byte l i)"
      using Suc.IH [OF l] by blast
    with True n r show ?thesis by (auto simp: node_set_byte_new)
  next
    case False
    with Suc.prems have off: "off - 32 * 2 ^ k < 32 * 2 ^ k" by simp
    have "\<exists>r'. node_set_byte kec r (off - 32 * 2 ^ k) v = Some r' \<and>
      (if k = 0 then wf_spine kec 0 r' else wf_fill kec (Suc k) r') \<and>
      (\<forall>i < 32 * 2 ^ k. node_read_byte r' i = (if i = off - 32 * 2 ^ k then Some v else node_read_byte r i))"
    proof (cases "k = 0")
      case True
      with Suc.IH [of r "off - 32 * 2 ^ k"] r off show ?thesis by simp
    next
      case False
      with set_fill [of kec "Suc k" r "off - 32 * 2 ^ k" v] r off show ?thesis by simp
    qed
    then obtain r' where "node_set_byte kec r (off - 32 * 2 ^ k) v = Some r'"
      "if k = 0 then wf_spine kec 0 r' else wf_fill kec (Suc k) r'"
      "\<forall>i < 32 * 2 ^ k. node_read_byte r' i = (if i = off - 32 * 2 ^ k then Some v else node_read_byte r i)"
      by blast
    with False Suc.prems n l show ?thesis by (auto simp: node_set_byte_new)
  qed
qed

subsection \<open>Growing\<close>

lemma new_empty_internal_fill:
  "\<exists>e. new_empty_internal kec (Suc h) (32 * 2 ^ h) = Some e \<and> wf_fill kec (Suc h) e \<and>
     (\<forall>i < 32 * 2 ^ h. node_read_byte e i = Some 0)"
proof (induction h)
  case 0
  show ?case
    by (auto simp: node_new_empty_def get_at_def usize_limit_def)
next
  case (Suc h)
  then obtain e where "new_empty_internal kec (Suc h) (32 * 2 ^ h) = Some e" "wf_fill kec (Suc h) e"
     "\<forall>i < 32 * 2 ^ h. node_read_byte e i = Some 0" by blast
  then show ?case by (auto simp del: new_empty_internal.simps(2)) (auto)
qed

lemma grow_spine:
  assumes "wf_spine kec k n"
  obtains n' where "wf_spine kec (Suc k) n'"
    "\<forall>i < 64 * 2 ^ k. node_read_byte n' i = (if i < 32 * 2 ^ k then node_read_byte n i else Some 0)"
    "\<forall>off v. 32 * 2 ^ k \<le> off \<longrightarrow> node_set_byte kec n off v = node_set_byte kec n' off v"
proof (cases k)
  case 0
  with assms obtain b where b: "n = Leaf b" "length b = 32" by (auto elim: wf_spine_0E)
  show ?thesis
    by (rule that [of "grow_from_leaf kec n"])
       (use 0 b in \<open>auto simp: grow_from_leaf_def node_new_empty_def get_at_def usize_limit_def
          node_set_byte_Leaf\<close>)
next
  case (Suc j)
  obtain e where e: "new_empty_internal kec (Suc k) (32 * 2 ^ k) = Some e" "wf_fill kec (Suc k) e"
     "\<forall>i < 32 * 2 ^ k. node_read_byte e i = Some 0" using new_empty_internal_fill by blast
  from assms Suc obtain l r where n: "n = internal_new kec (Suc k) (32 * 2 ^ k) l r"
    by (auto elim: wf_spine_SucE)
  have g: "internal_grow kec n = Some (internal_new kec (Suc k + 1) (64 * 2 ^ k) n e)"
    using e(1) unfolding n by (simp add: internal_new_def del: new_empty_internal.simps)
  show ?thesis
  proof (rule that [of "internal_new kec (Suc k + 1) (64 * 2 ^ k) n e"])
    show "wf_spine kec (Suc k) (internal_new kec (Suc k + 1) (64 * 2 ^ k) n e)"
      using assms e Suc by simp
    show "\<forall>off v. 32 * 2 ^ k \<le> off \<longrightarrow>
        node_set_byte kec n off v = node_set_byte kec (internal_new kec (Suc k + 1) (64 * 2 ^ k) n e) off v"
      using g unfolding n by (simp add: node_set_byte_new [of kec "Suc k" "32 * 2 ^ k" l r])
  qed (use e in auto)
qed


subsection \<open>Writes at any offset\<close>

lemma set_any_spine:
  "wf_spine kec k n \<Longrightarrow> off < 32 * 2 ^ (k + d) \<Longrightarrow>
   \<exists>k' n'. node_set_byte kec n off v = Some n' \<and> wf_spine kec k' n' \<and> k \<le> k' \<and> off < 32 * 2 ^ k' \<and>
     (k' = k \<or> 32 * 2 ^ (k' - 1) \<le> off) \<and>
     (\<forall>i < 32 * 2 ^ k'. node_read_byte n' i =
        (if i = off then Some v else if i < 32 * 2 ^ k then node_read_byte n i else Some 0))"
proof (induction d arbitrary: k n)
  case 0
  then have "\<exists>n'. node_set_byte kec n off v = Some n' \<and> wf_spine kec k n' \<and>
     (\<forall>i < 32 * 2 ^ k. node_read_byte n' i = (if i = off then Some v else node_read_byte n i))"
    by (intro set_spine) auto
  with 0 show ?case by force
next
  case (Suc d)
  show ?case
  proof (cases "off < 32 * 2 ^ k")
    case True
    with Suc.prems(1) have "\<exists>n'. node_set_byte kec n off v = Some n' \<and> wf_spine kec k n' \<and>
       (\<forall>i < 32 * 2 ^ k. node_read_byte n' i = (if i = off then Some v else node_read_byte n i))"
      by (rule set_spine)
    with True show ?thesis by force
  next
    case False
    obtain m where m: "wf_spine kec (Suc k) m"
      and rd: "\<forall>i < 64 * 2 ^ k. node_read_byte m i = (if i < 32 * 2 ^ k then node_read_byte n i else Some 0)"
      and st: "\<forall>off v. 32 * 2 ^ k \<le> off \<longrightarrow> node_set_byte kec n off v = node_set_byte kec m off v"
      by (rule grow_spine [OF Suc.prems(1)])
    from Suc.IH [OF m] Suc.prems(2) obtain k' n' where n':
      "node_set_byte kec m off v = Some n'" "wf_spine kec k' n'" "Suc k \<le> k'" "off < 32 * 2 ^ k'"
      "k' = Suc k \<or> 32 * 2 ^ (k' - 1) \<le> off"
      "\<forall>i < 32 * 2 ^ k'. node_read_byte n' i =
        (if i = off then Some v else if i < 32 * 2 ^ Suc k then node_read_byte m i else Some 0)"
      by auto
    have "node_read_byte n' i =
        (if i = off then Some v else if i < 32 * 2 ^ k then node_read_byte n i else Some 0)"
      if "i < 32 * 2 ^ k'" for i
      using n'(6) that rd by auto
    moreover have "k' = k \<or> 32 * 2 ^ (k' - 1) \<le> off"
      using n'(5) False by auto
    ultimately show ?thesis
      using n' st False by (intro exI [of _ k'] exI [of _ n']) auto
  qed
qed

subsection \<open>Equal contents, equal trees\<close>

lemma fill_ext:
  "wf_fill kec h n \<Longrightarrow> wf_fill kec h n' \<Longrightarrow>
   (\<And>i. i < 16 * 2 ^ h \<Longrightarrow> node_read_byte n i = node_read_byte n' i) \<Longrightarrow> n = n'"
proof (induction h arbitrary: n n')
  case 0
  then obtain b b' where b: "n = Leaf b" "length b = 32" "drop 16 b = replicate 16 0"
    "n' = Leaf b'" "length b' = 32" "drop 16 b' = replicate 16 0"
    by (auto elim!: wf_fill_0E)
  have "b ! i = b' ! i" if "i < 16" for i
    using 0(3) [of i] that b by (auto simp: get_at_def small_mod_usize)
  then have "take 16 b = take 16 b'" using b by (intro nth_equalityI) auto
  with b show ?case by (metis append_take_drop_id)
next
  case (Suc h)
  from Suc.prems(1,2) obtain l r l' r' where
    n: "n = internal_new kec (Suc h) (32 * 2 ^ h) l r" "wf_fill kec h l" "wf_fill kec h r" and
    n': "n' = internal_new kec (Suc h) (32 * 2 ^ h) l' r'" "wf_fill kec h l'" "wf_fill kec h r'"
    by (auto elim!: wf_fill_SucE)
  have "node_read_byte l i = node_read_byte l' i" if "i < 16 * 2 ^ h" for i
    using Suc.prems(3) [of i] that n n' by simp
  moreover have "node_read_byte r i = node_read_byte r' i" if "i < 16 * 2 ^ h" for i
    using Suc.prems(3) [of "16 * 2 ^ h + i"] that n n' by simp
  ultimately show ?case using Suc.IH n n' by auto
qed

lemma spine_ext:
  "wf_spine kec k n \<Longrightarrow> wf_spine kec k n' \<Longrightarrow>
   (\<And>i. i < 32 * 2 ^ k \<Longrightarrow> node_read_byte n i = node_read_byte n' i) \<Longrightarrow> n = n'"
proof (induction k arbitrary: n n')
  case 0
  then obtain b b' where b: "n = Leaf b" "length b = 32" "n' = Leaf b'" "length b' = 32"
    by (auto elim!: wf_spine_0E)
  have "b ! i = b' ! i" if "i < 32" for i
    using 0(3) [of i] that b by (auto simp: get_at_def small_mod_usize)
  with b show ?case by (auto intro: nth_equalityI)
next
  case (Suc k)
  from Suc.prems(1,2) obtain l r l' r' where
    n: "n = internal_new kec (k + 2) (64 * 2 ^ k) l r" "wf_spine kec k l"
       "if k = 0 then wf_spine kec 0 r else wf_fill kec (Suc k) r" and
    n': "n' = internal_new kec (k + 2) (64 * 2 ^ k) l' r'" "wf_spine kec k l'"
       "if k = 0 then wf_spine kec 0 r' else wf_fill kec (Suc k) r'"
    by (elim wf_spine_SucE)
  have l: "node_read_byte l i = node_read_byte l' i" if "i < 32 * 2 ^ k" for i
    using Suc.prems(3) [of i] that n n' by simp
  have r: "node_read_byte r i = node_read_byte r' i" if "i < 32 * 2 ^ k" for i
    using Suc.prems(3) [of "32 * 2 ^ k + i"] that n n' by simp
  have "r = r'"
    using n(3) n'(3) r Suc.IH [of r r'] fill_ext [of kec "Suc k" r r'] by (auto split: if_splits)
  moreover have "l = l'" using Suc.IH n(2) n'(2) l by blast
  ultimately show ?case using n n' by simp
qed

lemma spine_read_Some: "wf_spine kec k n \<Longrightarrow> i < 32 * 2 ^ k \<Longrightarrow> node_read_byte n i \<noteq> None"
proof (induction k arbitrary: n i)
  case 0
  then show ?case by (auto elim!: wf_spine_0E simp: small_mod_usize)
next
  case (Suc k)
  have fill: "wf_fill kec h m \<Longrightarrow> j < 16 * 2 ^ h \<Longrightarrow> node_read_byte m j \<noteq> None" for h m j
  proof (induction h arbitrary: m j)
    case 0
    then show ?case by (auto elim!: wf_fill_0E simp: small_mod_usize)
  next
    case (Suc h)
    from Suc.prems obtain l r where "m = internal_new kec (Suc h) (32 * 2 ^ h) l r"
      "wf_fill kec h l" "wf_fill kec h r" by (elim wf_fill_SucE)
    with Suc.IH [of l j] Suc.IH [of r "j - 16 * 2 ^ h"] Suc.prems show ?case by auto
  qed
  from Suc.prems(1) obtain l r where n: "n = internal_new kec (k + 2) (64 * 2 ^ k) l r" "wf_spine kec k l"
       "if k = 0 then wf_spine kec 0 r else wf_fill kec (Suc k) r"
    by (elim wf_spine_SucE)
  with Suc.IH [of l i] Suc.IH [of r "i - 32 * 2 ^ k"] fill [of "Suc k" r "i - 32 * 2 ^ k"] Suc.prems(2)
  show ?case by (auto split: if_splits)
qed

subsection \<open>The level of a given size\<close>

lemma levels_loop_spec:
  assumes "j = 0 \<or> 32 * 2 ^ (j - 1) < x"
  shows "\<exists>k. levels_needed_loop x (Suc j) (32 * 2 ^ j) = (Suc k, 32 * 2 ^ k) \<and> x \<le> 32 * 2 ^ k \<and>
    (k = 0 \<or> 32 * 2 ^ (k - 1) < x)"
  using assms
proof (induction "x - 32 * 2 ^ j" arbitrary: j rule: less_induct)
  case less
  show ?case
  proof (cases "32 * 2 ^ j < x")
    case True
    have "levels_needed_loop x (Suc j) (32 * 2 ^ j) = levels_needed_loop x (Suc (Suc j)) (32 * 2 ^ Suc j)"
      using True by (subst levels_needed_loop.simps) (simp add: mult.commute mult.left_commute)
    moreover have "x - 32 * 2 ^ Suc j < x - 32 * 2 ^ j"
      using True by (intro diff_less_mono2) auto
    ultimately show ?thesis using less.hyps [of "Suc j"] True by simp
  next
    case False
    with less.prems show ?thesis
      by (intro exI [of _ j]) (auto simp: levels_needed_loop.simps)
  qed
qed

lemma level_unique:
  fixes k l x :: nat
  assumes "x \<le> 32 * 2 ^ k" "k = 0 \<or> 32 * 2 ^ (k - 1) < x" "x \<le> 32 * 2 ^ l" "l = 0 \<or> 32 * 2 ^ (l - 1) < x"
  shows "k = l"
proof -
  have *: "\<not> a < b" if "x \<le> 32 * 2 ^ a" "b = 0 \<or> 32 * 2 ^ (b - 1) < x" for a b :: nat
  proof
    assume "a < b"
    then have "(2::nat) ^ a \<le> 2 ^ (b - 1)" by (intro power_increasing) auto
    moreover from that(2) \<open>a < b\<close> have "32 * 2 ^ (b - 1) < x" by auto
    ultimately show False using that(1) by linarith
  qed
  from * [OF assms(1,4)] * [OF assms(3,2)] show ?thesis by simp
qed

lemma levels_needed_iff:
  "levels_needed x = (Suc k, 32 * 2 ^ k) \<longleftrightarrow> x \<le> 32 * 2 ^ k \<and> (k = 0 \<or> 32 * 2 ^ (k - 1) < x)"
proof -
  obtain l where l: "levels_needed x = (Suc l, 32 * 2 ^ l)" "x \<le> 32 * 2 ^ l" "l = 0 \<or> 32 * 2 ^ (l - 1) < x"
    using levels_loop_spec [of 0 x] by (auto simp: levels_needed_def)
  then show ?thesis using level_unique [of x k l] by auto
qed

lemma levels_needed_ex: "\<exists>k. levels_needed x = (Suc k, 32 * 2 ^ k)"
  using levels_loop_spec [of 0 x] by (auto simp: levels_needed_def)


section \<open>The buffer invariant\<close>

lemma buffer_okE:
  assumes "buffer_ok kec b"
  obtains k where "wf_spine kec k (root b)" "size b \<le> 32 * 2 ^ k" "k = 0 \<or> 32 * 2 ^ (k - 1) < size b"
    "\<forall>i. size b \<le> i \<and> i < 32 * 2 ^ k \<longrightarrow> node_read_byte (root b) i = Some 0"
proof -
  obtain k where k: "levels_needed (size b) = (Suc k, 32 * 2 ^ k)" using levels_needed_ex by blast
  show ?thesis
    by (rule that [of k]) (use assms k levels_needed_iff [of "size b" k] in \<open>auto simp: buffer_ok_def\<close>)
qed

lemma buffer_okI:
  assumes "wf_spine kec k (root b)" "size b \<le> 32 * 2 ^ k" "k = 0 \<or> 32 * 2 ^ (k - 1) < size b"
    "\<forall>i. size b \<le> i \<and> i < 32 * 2 ^ k \<longrightarrow> node_read_byte (root b) i = Some 0"
  shows "buffer_ok kec b"
proof -
  have "levels_needed (size b) = (Suc k, 32 * 2 ^ k)" using assms levels_needed_iff by blast
  with assms show ?thesis by (simp add: buffer_ok_def)
qed

lemma buffer_empty_ok: "buffer_ok kec buffer_new_empty"
  by (rule buffer_okI [of _ 0])
     (auto simp: buffer_new_empty_def node_new_empty_def get_at_def small_mod_usize)

lemma length_buffer_bytes [simp]: "length (buffer_bytes b) = size b"
  by (simp add: buffer_bytes_def)

lemma buffer_read_bytes:
  assumes "buffer_ok kec b"
  shows "buffer_read_byte b i = Some (if i < length (buffer_bytes b) then buffer_bytes b ! i else 0)"
proof (cases "i < size b")
  case True
  obtain k where k: "wf_spine kec k (root b)" "size b \<le> 32 * 2 ^ k" using assms by (rule buffer_okE)
  then have "node_read_byte (root b) i \<noteq> None" using True by (intro spine_read_Some) auto
  with True show ?thesis by (auto simp: buffer_read_byte_def buffer_bytes_def)
qed (simp add: buffer_read_byte_def)

lemma buffer_set_bytes_store:
  assumes "buffer_ok kec b"
  shows "\<exists>b'. buffer_set_byte kec b off v = Some b' \<and> buffer_ok kec b' \<and>
    buffer_bytes b' = store_at (buffer_bytes b) off v"
proof -
  obtain k where k: "wf_spine kec k (root b)" "size b \<le> 32 * 2 ^ k" "k = 0 \<or> 32 * 2 ^ (k - 1) < size b"
    and z: "\<forall>i. size b \<le> i \<and> i < 32 * 2 ^ k \<longrightarrow> node_read_byte (root b) i = Some 0"
    using assms by (rule buffer_okE)
  have "off < 2 ^ off" by (rule less_exp)
  also have "(2::nat) ^ off \<le> 32 * 2 ^ (k + off)" by (simp add: power_add)
  finally obtain k' n' where n': "node_set_byte kec (root b) off v = Some n'" "wf_spine kec k' n'"
    "k \<le> k'" "off < 32 * 2 ^ k'" "k' = k \<or> 32 * 2 ^ (k' - 1) \<le> off"
    and rd: "\<And>i. i < 32 * 2 ^ k' \<Longrightarrow> node_read_byte n' i =
        (if i = off then Some v else if i < 32 * 2 ^ k then node_read_byte (root b) i else Some 0)"
    using set_any_spine [OF k(1), of off off v] by auto
  let ?b = "\<lparr>root = n', size = (if size b \<le> off then off + 1 else size b)\<rparr>"
  have "(32::nat) * 2 ^ k \<le> 32 * 2 ^ k'" using n'(3) by simp
  then have cap: "size b \<le> 32 * 2 ^ k'" using k(2) by linarith
  have ok: "buffer_ok kec ?b"
  proof (rule buffer_okI [of _ k'])
    show "k' = 0 \<or> 32 * 2 ^ (k' - 1) < size ?b"
      using n'(5) k(2,3) by auto
    show "\<forall>i. size ?b \<le> i \<and> i < 32 * 2 ^ k' \<longrightarrow> node_read_byte (root ?b) i = Some 0"
      using rd z by (auto split: if_splits)
  qed (use n' cap in auto)
  have "buffer_bytes ?b = store_at (buffer_bytes b) off v"
  proof (rule nth_equalityI)
    fix i assume "i < length (buffer_bytes ?b)"
    then have i: "i < (if size b \<le> off then off + 1 else size b)" by simp
    then have "i < 32 * 2 ^ k'" using n'(4) cap by (auto split: if_splits)
    then show "buffer_bytes ?b ! i = store_at (buffer_bytes b) off v ! i"
      using rd [of i] z i k(2)
      by (auto simp: buffer_bytes_def store_at_def nth_append nth_list_update split: if_splits)
  qed (auto simp: store_at_def)
  with n'(1) ok show ?thesis by (auto simp: buffer_set_byte_def)
qed

lemma buffer_bytes_inj:
  assumes "buffer_ok kec b" "buffer_ok kec b'" "buffer_bytes b = buffer_bytes b'"
  shows "b = b'"
proof -
  have sz: "size b = size b'" using arg_cong [OF assms(3), of length] by simp
  obtain k where k: "wf_spine kec k (root b)" "size b \<le> 32 * 2 ^ k" "k = 0 \<or> 32 * 2 ^ (k - 1) < size b"
    and z: "\<forall>i. size b \<le> i \<and> i < 32 * 2 ^ k \<longrightarrow> node_read_byte (root b) i = Some 0"
    using assms(1) by (rule buffer_okE)
  obtain l where l: "wf_spine kec l (root b')" "size b' \<le> 32 * 2 ^ l" "l = 0 \<or> 32 * 2 ^ (l - 1) < size b'"
    and z': "\<forall>i. size b' \<le> i \<and> i < 32 * 2 ^ l \<longrightarrow> node_read_byte (root b') i = Some 0"
    using assms(2) by (rule buffer_okE)
  have kl: "k = l" using level_unique k l sz by metis
  have "node_read_byte (root b) i = node_read_byte (root b') i" if "i < 32 * 2 ^ k" for i
  proof (cases "i < size b")
    case True
    then have "buffer_read_byte b i = buffer_read_byte b' i"
      using assms buffer_read_bytes by metis
    with True sz show ?thesis by (simp add: buffer_read_byte_def)
  next
    case False
    with z z' that kl sz show ?thesis by simp
  qed
  then have "root b = root b'" using spine_ext k(1) l(1) kl by blast
  with sz show ?thesis by simp
qed


section \<open>The interface of byte stores\<close>

text \<open>What clients may assume of a store of bytes: reads and writes never fail on a store that
  satisfies the invariant, and act on the byte string \<open>contents\<close>, which determines the store.\<close>

locale byte_store =
  fixes empty :: 'b
    and fetch :: "'b \<Rightarrow> nat \<Rightarrow> byte option"
    and put :: "'b \<Rightarrow> nat \<Rightarrow> byte \<Rightarrow> 'b option"
    and contents :: "'b \<Rightarrow> byte list"
    and invar :: "'b \<Rightarrow> bool"
  assumes invar_empty: "invar empty"
    and contents_empty: "contents empty = []"
    and fetch_contents: "invar b \<Longrightarrow> fetch b i = Some (padded_nth (contents b) i)"
    and put_contents: "invar b \<Longrightarrow>
      \<exists>b'. put b i v = Some b' \<and> invar b' \<and> contents b' = store_at (contents b) i v"
    and contents_inj: "invar b \<Longrightarrow> invar b' \<Longrightarrow> contents b = contents b' \<Longrightarrow> b = b'"
begin

lemma fetch_put:
  assumes "invar b" "put b i v = Some b'"
  shows "invar b'" "fetch b' j = (if j = i then Some v else fetch b j)"
  using assms put_contents [OF assms(1), of i v] fetch_contents
  by (auto simp: padded_nth_def store_at_def nth_append nth_list_update)

lemma write_loop_spec:
  "invar b \<Longrightarrow> \<exists>b'. write_loop put b i vs = Some b' \<and> invar b' \<and>
     length (contents b') = (if vs = [] then length (contents b) else max (length (contents b)) (i + length vs)) \<and>
     (\<forall>j. fetch b' j = (if i \<le> j \<and> j < i + length vs then Some (vs ! (j - i)) else fetch b j))"
proof (induction vs arbitrary: b i)
  case (Cons v vs)
  obtain b1 where b1: "put b i v = Some b1" "invar b1" "contents b1 = store_at (contents b) i v"
    using put_contents [OF Cons.prems] by blast
  obtain b' where b': "write_loop put b1 (i + 1) vs = Some b'" "invar b'"
     "length (contents b') = (if vs = [] then length (contents b1) else max (length (contents b1)) (i + 1 + length vs))"
     "\<forall>j. fetch b' j = (if i + 1 \<le> j \<and> j < i + 1 + length vs then Some (vs ! (j - (i + 1))) else fetch b1 j)"
    using Cons.IH [OF b1(2), of "i + 1"] by auto
  have "fetch b' j = (if i \<le> j \<and> j < i + length (v # vs) then Some ((v # vs) ! (j - i)) else fetch b j)" for j
    using b'(4) fetch_put(2) [OF Cons.prems b1(1), of j] by (auto simp: nth_Cons')
  moreover have "length (contents b') = max (length (contents b)) (i + length (v # vs))"
    using b'(3) b1(3) by (auto simp: store_at_def)
  ultimately show ?case using b1(1) b'(1,2) by auto
qed auto

lemma collect_fetch:
  "invar b \<Longrightarrow> collect_opt (fetch b) is = Some (map (padded_nth (contents b)) is)"
  by (simp add: collect_opt_map_Some fetch_contents)

text \<open>Loading a byte string into the empty store gives exactly that byte string.\<close>

lemma load_contents:
  "\<exists>b. write_loop put empty 0 bs = Some b \<and> invar b \<and> contents b = bs"
proof -
  obtain b where b: "write_loop put empty 0 bs = Some b" "invar b" "length (contents b) = length bs"
    "\<forall>j < length bs. fetch b j = Some (bs ! j)"
    using write_loop_spec [OF invar_empty, of 0 bs] by (auto simp: contents_empty split: if_splits)
  have "contents b ! j = bs ! j" if "j < length bs" for j
    using b(4) that fetch_contents [OF b(2), of j] b(3) by (auto simp: padded_nth_def)
  with b show ?thesis by (auto intro: nth_equalityI)
qed

text \<open>Storing the contents away and loading them again gives back the very same store.\<close>

lemma reload_contents: "invar b \<Longrightarrow> write_loop put empty 0 (contents b) = Some b"
  using load_contents [of "contents b"] contents_inj by auto

text \<open>A block that was written is read back, and other bytes are untouched.\<close>

lemma read_back_block:
  assumes "invar b" "write_loop put b i vs = Some b'"
  shows "collect_opt (fetch b') [i..<i + length vs] = Some vs"
proof -
  have "invar b'" and rd: "\<forall>j. fetch b' j = (if i \<le> j \<and> j < i + length vs then Some (vs ! (j - i)) else fetch b j)"
    using write_loop_spec [OF assms(1), of i vs] assms(2) by auto
  then have "collect_opt (fetch b') [i..<i + length vs] = Some (map (\<lambda>j. vs ! (j - i)) [i..<i + length vs])"
    by (intro collect_opt_map_Some) auto
  also have "map (\<lambda>j. vs ! (j - i)) [i..<i + length vs] = vs"
    by (rule nth_equalityI) auto
  finally show ?thesis .
qed

end

interpretation buf: byte_store buffer_new_empty buffer_read_byte "buffer_set_byte kec" buffer_bytes "buffer_ok kec"
  for kec
proof unfold_locales
  show "buffer_bytes buffer_new_empty = []"
    by (simp add: buffer_bytes_def buffer_new_empty_def)
qed (auto simp: buffer_empty_ok padded_nth_def buffer_read_bytes buffer_set_bytes_store intro: buffer_bytes_inj)

section \<open>Hexadecimal display\<close>

text \<open>What the display code relies on of \<open>hex::encode\<close>: two characters per byte, byte by byte.\<close>

definition hex_ok :: "(byte list \<Rightarrow> string) \<Rightarrow> bool" where
  "hex_ok hex \<longleftrightarrow> (\<forall>xs ys. hex (xs @ ys) = hex xs @ hex ys) \<and> (\<forall>xs. length (hex xs) = 2 * length xs)"

definition node_prefix :: "buffer_node \<Rightarrow> nat \<Rightarrow> byte list" where
  "node_prefix n sz = map (\<lambda>i. the (node_read_byte n i)) [0..<sz]"

lemma node_prefix_Leaf: "sz \<le> length b \<Longrightarrow> length b = 32 \<Longrightarrow> node_prefix (Leaf b) sz = take sz b"
  by (rule nth_equalityI) (auto simp: node_prefix_def get_at_def small_mod_usize)

lemma node_prefix_new:
  "c div 2 \<le> sz \<Longrightarrow> node_prefix (internal_new kec h c l r) sz =
     node_prefix l (c div 2) @ node_prefix r (sz - c div 2)"
  by (rule nth_equalityI) (auto simp: node_prefix_def nth_append)

lemma node_prefix_new_left:
  "sz \<le> c div 2 \<Longrightarrow> node_prefix (internal_new kec h c l r) sz = node_prefix l sz"
  by (auto simp: node_prefix_def)

lemma node_prefix_0 [simp]: "node_prefix n 0 = []"
  by (simp add: node_prefix_def)

lemma hex_take: "hex_ok hex \<Longrightarrow> sz \<le> length b \<Longrightarrow> take (2 * sz) (hex b) = hex (take sz b)"
proof -
  assume a: "hex_ok hex" "sz \<le> length b"
  then have "hex b = hex (take sz b) @ hex (drop sz b)"
    by (metis append_take_drop_id hex_ok_def)
  with a show ?thesis by (simp add: hex_ok_def)
qed

lemma hex_Nil: "hex_ok hex \<Longrightarrow> hex [] = []"
  by (metis append_Nil append_self_conv2 hex_ok_def)

lemma node_hex_encode_new:
  assumes "hex_ok hex" "c div 2 < usize_limit"
    and "\<And>s. s \<le> c div 2 \<Longrightarrow> node_hex_encode hex l s = Some (hex (node_prefix l s))"
    and "\<And>s. s \<le> c div 2 \<Longrightarrow> node_hex_encode hex r s = Some (hex (node_prefix r s))"
    and "sz \<le> 2 * (c div 2)"
  shows "node_hex_encode hex (internal_new kec h c l r) sz = Some (hex (node_prefix (internal_new kec h c l r) sz))"
proof (cases "sz \<le> c div 2")
  case True
  with assms(2,3) hex_Nil [OF assms(1)] show ?thesis
    by (auto simp: node_prefix_new_left) (auto simp: internal_new_def Let_def)
next
  case False
  then have "node_prefix (internal_new kec h c l r) sz = node_prefix l (c div 2) @ node_prefix r (sz - c div 2)"
    by (intro node_prefix_new) simp
  then have "hex (node_prefix (internal_new kec h c l r) sz) =
      hex (node_prefix l (c div 2)) @ hex (node_prefix r (sz - c div 2))"
    using assms(1) by (simp only: hex_ok_def)
  moreover have "node_hex_encode hex (internal_new kec h c l r) sz =
      Some (hex (node_prefix l (c div 2)) @ hex (node_prefix r (sz - c div 2)))"
    using False assms(2,5) assms(3) [of "c div 2"] assms(4) [of "sz - c div 2"]
    by (simp add: internal_new_def Let_def)
  ultimately show ?thesis by simp
qed

lemma node_hex_encode_fill:
  "hex_ok hex \<Longrightarrow> wf_fill kec h n \<Longrightarrow> 16 * 2 ^ h < usize_limit \<Longrightarrow> sz \<le> 16 * 2 ^ h \<Longrightarrow>
   node_hex_encode hex n sz = Some (hex (node_prefix n sz))"
proof (induction h arbitrary: n sz)
  case 0
  then show ?case
    by (auto elim!: wf_fill_0E simp: node_prefix_Leaf hex_take hex_ok_def [THEN iffD1])
next
  case (Suc h)
  from Suc.prems(2) obtain l r where n: "n = internal_new kec (Suc h) (32 * 2 ^ h) l r"
    "wf_fill kec h l" "wf_fill kec h r" by (elim wf_fill_SucE)
  have "16 * 2 ^ h < usize_limit" using Suc.prems(3) by simp
  with n Suc.IH Suc.prems show ?case
    unfolding n(1) by (intro node_hex_encode_new) auto
qed

lemma node_hex_encode_spine:
  "hex_ok hex \<Longrightarrow> wf_spine kec k n \<Longrightarrow> 32 * 2 ^ k < usize_limit \<Longrightarrow> sz \<le> 32 * 2 ^ k \<Longrightarrow>
   node_hex_encode hex n sz = Some (hex (node_prefix n sz))"
proof (induction k arbitrary: n sz)
  case 0
  then show ?case
    by (auto elim!: wf_spine_0E simp: node_prefix_Leaf hex_take hex_ok_def [THEN iffD1])
next
  case (Suc k)
  from Suc.prems(2) obtain l r where n: "n = internal_new kec (k + 2) (64 * 2 ^ k) l r" "wf_spine kec k l"
       "if k = 0 then wf_spine kec 0 r else wf_fill kec (Suc k) r"
    by (elim wf_spine_SucE)
  have c: "32 * 2 ^ k < usize_limit" using Suc.prems(3) by simp
  have "node_hex_encode hex r s = Some (hex (node_prefix r s))" if "s \<le> 32 * 2 ^ k" for s
  proof (cases "k = 0")
    case True
    with n(3) Suc.IH [of r s] Suc.prems(1) c that show ?thesis by simp
  next
    case False
    with n(3) node_hex_encode_fill [of hex kec "Suc k" r s] Suc.prems(1) c that show ?thesis by simp
  qed
  with n c Suc.IH Suc.prems show ?case
    unfolding n(1) by (intro node_hex_encode_new) auto
qed

section \<open>Properties\<close>



text \<open>C37: Buffers are canonical: two well-formed buffers are equal as trees (the comparison of the
  \<open>Equal\<close> instruction), and so have the same hash, exactly when their contents are equal,
  whatever sequence of writes produced them.\<close>

theorem buffer_canonical:
  assumes "buffer_ok kec b" "buffer_ok kec b'"
  shows "(b = b' \<longleftrightarrow> buffer_bytes b = buffer_bytes b')
    \<and> (buffer_bytes b = buffer_bytes b' \<longrightarrow> buffer_avm_hash kec b = buffer_avm_hash kec b')"
  using buf.contents_inj [OF assms] by auto

theorem buffer_canonical_witness:
  "\<exists>b'. buffer_set_byte id buffer_new_empty 0 7 = Some b' \<and> buffer_ok id b' \<and> b' \<noteq> buffer_new_empty"
proof -
  obtain b' where b': "buffer_set_byte id buffer_new_empty 0 7 = Some b'" "buffer_ok id b'"
    "buffer_bytes b' = store_at (buffer_bytes buffer_new_empty) 0 7"
    using buf.put_contents [OF buffer_empty_ok [of id]] by blast
  moreover have "buffer_bytes b' \<noteq> buffer_bytes buffer_new_empty"
    by (simp add: b'(3) store_at_def buf.contents_empty)
  ultimately show ?thesis
    using buffer_canonical [OF b'(2) buffer_empty_ok [of id]] by blast
qed

text \<open>\<open>from_bytes\<close> builds a well-formed buffer with exactly the given contents, and
  \<open>as_bytes\<close> returns the requested number of bytes of the zero-padded contents.\<close>

theorem buffer_from_as_bytes:
  "\<exists>b. buffer_from_bytes kec bs = Some b \<and> buffer_ok kec b \<and> size b = length bs
     \<and> (\<forall>n. buffer_as_bytes b n = Some (take n bs @ replicate (n - length bs) 0))"
proof -
  obtain b where b: "buffer_from_bytes kec bs = Some b" "buffer_ok kec b" "buffer_bytes b = bs"
    using buf.load_contents by (auto simp: buffer_from_bytes_def)
  have "map (padded_nth bs) [0..<n] = take n bs @ replicate (n - length bs) 0" for n
    by (rule nth_equalityI) (auto simp: padded_nth_def nth_append)
  with b show ?thesis
    by (intro exI [of _ b]) (auto simp: buffer_as_bytes_def buf.collect_fetch [OF b(2)]
        simp flip: length_buffer_bytes)
qed

text \<open>Serialization round trip: if decoding undoes encoding for the hexadecimal library, then
  deserializing the serialized form of a well-formed buffer of less than \<open>2 ^ 64\<close> bytes gives
  back the same buffer, tree shape and hashes included.\<close>

theorem buffer_serialize_roundtrip:
  assumes "\<forall>bs. unhex (hex bs) = Some bs" "buffer_ok kec b" "size b < usize_limit"
  shows "\<exists>s. buffer_serialize hex b = Some s \<and> buffer_deserialize kec unhex s = Some (Some b)"
proof -
  have "map (padded_nth (buffer_bytes b)) [0..<size b] = buffer_bytes b"
    by (rule nth_equalityI) (auto simp: padded_nth_def)
  then have "buffer_serialize hex b = Some (hex (buffer_bytes b))"
    using assms(3) by (simp add: buffer_serialize_def buffer_as_bytes_def buf.collect_fetch [OF assms(2)])
  moreover have "buffer_from_bytes kec (buffer_bytes b) = Some b"
    using buf.reload_contents [OF assms(2)] by (simp add: buffer_from_bytes_def)
  ultimately show ?thesis using assms(1) by (simp add: buffer_deserialize_def)
qed

theorem buffer_serialize_roundtrip_witness:
  "\<exists>s. buffer_serialize (map (\<lambda>b. char_of (unat b))) buffer_new_empty = Some s
     \<and> buffer_deserialize id (\<lambda>s. Some (map (\<lambda>c. word_of_nat (of_char c)) s)) s = Some (Some buffer_new_empty)"
proof (rule buffer_serialize_roundtrip)
  show "\<forall>bs :: byte list. Some (map (\<lambda>c. word_of_nat (of_char c)) (map (\<lambda>b. char_of (unat b)) bs)) = Some bs"
    by (auto simp: comp_def map_idI of_char_of)
qed (simp_all add: buffer_empty_ok, simp add: buffer_new_empty_def usize_limit_def)

text \<open>The displayed form of a well-formed buffer (with a capacity below \<open>2 ^ 64\<close>) is the
  hexadecimal encoding of its contents; no slice is out of range.\<close>

theorem buffer_hex_encode_contents:
  assumes "hex_ok hex" "buffer_ok kec b" "snd (levels_needed (size b)) < usize_limit"
  shows "buffer_hex_encode hex b = Some (hex (buffer_bytes b))"
proof -
  obtain k where k: "wf_spine kec k (root b)" "size b \<le> 32 * 2 ^ k" "k = 0 \<or> 32 * 2 ^ (k - 1) < size b"
    using assms(2) by (rule buffer_okE)
  then have "32 * 2 ^ k < usize_limit"
    using assms(3) levels_needed_iff [of "size b" k] by simp
  with node_hex_encode_spine [OF assms(1) k(1)] k(2) show ?thesis
    by (simp add: buffer_hex_encode_def buffer_bytes_def node_prefix_def)
qed

theorem buffer_hex_encode_contents_witness:
  "buffer_hex_encode (\<lambda>bs. replicate (2 * length bs) CHR ''0'') buffer_new_empty
     = Some (replicate (2 * length (buffer_bytes buffer_new_empty)) CHR ''0'')"
proof (rule buffer_hex_encode_contents [where kec = id])
  show "snd (levels_needed (size buffer_new_empty)) < usize_limit"
    by (simp add: levels_needed_def levels_needed_loop.simps buffer_new_empty_def usize_limit_def)
qed (auto simp: hex_ok_def buffer_empty_ok replicate_add)

end
