(* ===== verification/Opcodes.thy ===== *)
theory Opcodes
  imports Prelude
begin

text \<open>
  The instruction sets of \<open>src/mavm.rs\<close>: the opcodes of the virtual machine
  (\<open>AVMOpcode\<close>) with their numeric codes and assembler names, and the wider opcode type of
  the compiler (\<open>Opcode\<close>), in which some opcodes are virtual and are expanded after linking.
\<close>

section \<open>Definitions\<close>

subsection \<open>Labels\<close>

datatype label = Func usize | Anon usize | External usize | Evm usize

subsection \<open>Opcodes of the virtual machine\<close>

datatype (plugins only: code size) avm_opcode =
    Zero | Add | Mul | Sub | Div | Sdiv | Mod | Smod | AddMod | MulMod | Exp | SignExtend |
    LessThan | GreaterThan | SLessThan | SGreaterThan | Equal | IsZero | BitwiseAnd |
    BitwiseOr | BitwiseXor | BitwiseNeg | Byte | ShiftLeft | ShiftRight | ShiftArith | Hash |
    Type | EthHash2 | Keccakf | Sha256f | Ripemd160f | Blake2f | Pop | Spush | Rpush | Rset |
    Jump | Cjump | StackEmpty | PCpush | AuxPush | AuxPop | AuxStackEmpty | Noop | ErrPush |
    ErrSet | Dup0 | Dup1 | Dup2 | Swap1 | Swap2 | Tget | Tset | Tlen | Xget | Xset |
    Breakpoint | Log | Send | InboxPeek | Inbox | Error | Halt | SetGas | PushGas |
    ErrCodePoint | PushInsn | PushInsnImm | OpenInsn | Sideload | EcRecover | EcAdd | EcMul |
    EcPairing | DebugPrint | NewBuffer | GetBuffer8 | GetBuffer64 | GetBuffer256 |
    SetBuffer8 | SetBuffer64 | SetBuffer256

subsection \<open>Opcodes of the compiler\<close>

datatype opcode =
    GetLocal | SetLocal | MakeFrame usize usize bool | LabelOp label | PushExternal usize
  | TupleGet usize | TupleSet usize | ArrayGet | UncheckedFixedArrayGet usize
  | GetGlobalVar usize | SetGlobalVar usize | Return | UnaryMinus | Len | LogicalAnd | LogicalOr
  | AVM avm_opcode

definition opcode_is_pure :: "opcode \<Rightarrow> bool" where
  "opcode_is_pure op =
     (op \<notin> {AVM Log, AVM Inbox, AVM InboxPeek, AVM Send, AVM Rset, AVM Rpush, AVM PushInsn,
        AVM PushInsnImm, AVM ErrCodePoint, AVM ErrSet, AVM ErrPush, AVM SetGas, AVM PushGas,
        AVM Jump, AVM Cjump, AVM AuxPop, AVM AuxPush, AVM Sideload})"

subsection \<open>Numeric codes\<close>

definition opcode_numbers :: "(usize \<times> avm_opcode) list" where
  "opcode_numbers =
     [(0x00, Zero), (0x01, Add), (0x02, Mul), (0x03, Sub), (0x04, Div), (0x05, Sdiv),
      (0x06, Mod), (0x07, Smod), (0x08, AddMod), (0x09, MulMod), (0x0a, Exp),
      (0x0b, SignExtend), (0x10, LessThan), (0x11, GreaterThan), (0x12, SLessThan),
      (0x13, SGreaterThan), (0x14, Equal), (0x15, IsZero), (0x16, BitwiseAnd),
      (0x17, BitwiseOr), (0x18, BitwiseXor), (0x19, BitwiseNeg), (0x1a, Byte),
      (0x1b, ShiftLeft), (0x1c, ShiftRight), (0x1d, ShiftArith), (0x20, Hash), (0x21, Type),
      (0x22, EthHash2), (0x23, Keccakf), (0x24, Sha256f), (0x25, Ripemd160f), (0x26, Blake2f),
      (0x30, Pop), (0x31, Spush), (0x32, Rpush), (0x33, Rset), (0x34, Jump), (0x35, Cjump),
      (0x36, StackEmpty), (0x37, PCpush), (0x38, AuxPush), (0x39, AuxPop),
      (0x3a, AuxStackEmpty), (0x3b, Noop), (0x3c, ErrPush), (0x3d, ErrSet), (0x40, Dup0),
      (0x41, Dup1), (0x42, Dup2), (0x43, Swap1), (0x44, Swap2), (0x50, Tget), (0x51, Tset),
      (0x52, Tlen), (0x53, Xget), (0x54, Xset), (0x60, Breakpoint), (0x61, Log), (0x70, Send),
      (0x71, InboxPeek), (0x72, Inbox), (0x73, Error), (0x74, Halt), (0x75, SetGas),
      (0x76, PushGas), (0x77, ErrCodePoint), (0x78, PushInsn), (0x79, PushInsnImm),
      (0x7a, OpenInsn), (0x7b, Sideload), (0x80, EcRecover), (0x81, EcAdd), (0x82, EcMul),
      (0x83, EcPairing), (0x90, DebugPrint), (0xa0, NewBuffer), (0xa1, GetBuffer8),
      (0xa2, GetBuffer64), (0xa3, GetBuffer256), (0xa4, SetBuffer8), (0xa5, SetBuffer64),
      (0xa6, SetBuffer256)]"

definition avm_opcode_from_number :: "usize \<Rightarrow> avm_opcode option" where
  "avm_opcode_from_number num = map_of opcode_numbers num"

primrec avm_opcode_to_number :: "avm_opcode \<Rightarrow> nat" where
  "avm_opcode_to_number Zero = 0"
| "avm_opcode_to_number Add = 0x01"
| "avm_opcode_to_number Mul = 0x02"
| "avm_opcode_to_number Sub = 0x03"
| "avm_opcode_to_number Div = 0x04"
| "avm_opcode_to_number Sdiv = 0x05"
| "avm_opcode_to_number Mod = 0x06"
| "avm_opcode_to_number Smod = 0x07"
| "avm_opcode_to_number AddMod = 0x08"
| "avm_opcode_to_number MulMod = 0x09"
| "avm_opcode_to_number Exp = 0x0a"
| "avm_opcode_to_number SignExtend = 0x0b"
| "avm_opcode_to_number LessThan = 0x10"
| "avm_opcode_to_number GreaterThan = 0x11"
| "avm_opcode_to_number SLessThan = 0x12"
| "avm_opcode_to_number SGreaterThan = 0x13"
| "avm_opcode_to_number Equal = 0x14"
| "avm_opcode_to_number IsZero = 0x15"
| "avm_opcode_to_number BitwiseAnd = 0x16"
| "avm_opcode_to_number BitwiseOr = 0x17"
| "avm_opcode_to_number BitwiseXor = 0x18"
| "avm_opcode_to_number BitwiseNeg = 0x19"
| "avm_opcode_to_number Byte = 0x1a"
| "avm_opcode_to_number ShiftLeft = 0x1b"
| "avm_opcode_to_number ShiftRight = 0x1c"
| "avm_opcode_to_number ShiftArith = 0x1d"
| "avm_opcode_to_number Hash = 0x20"
| "avm_opcode_to_number Type = 0x21"
| "avm_opcode_to_number EthHash2 = 0x22"
| "avm_opcode_to_number Keccakf = 0x23"
| "avm_opcode_to_number Sha256f = 0x24"
| "avm_opcode_to_number Ripemd160f = 0x25"
| "avm_opcode_to_number Blake2f = 0x26"
| "avm_opcode_to_number Pop = 0x30"
| "avm_opcode_to_number Spush = 0x31"
| "avm_opcode_to_number Rpush = 0x32"
| "avm_opcode_to_number Rset = 0x33"
| "avm_opcode_to_number Jump = 0x34"
| "avm_opcode_to_number Cjump = 0x35"
| "avm_opcode_to_number StackEmpty = 0x36"
| "avm_opcode_to_number PCpush = 0x37"
| "avm_opcode_to_number AuxPush = 0x38"
| "avm_opcode_to_number AuxPop = 0x39"
| "avm_opcode_to_number AuxStackEmpty = 0x3a"
| "avm_opcode_to_number Noop = 0x3b"
| "avm_opcode_to_number ErrPush = 0x3c"
| "avm_opcode_to_number ErrSet = 0x3d"
| "avm_opcode_to_number Dup0 = 0x40"
| "avm_opcode_to_number Dup1 = 0x41"
| "avm_opcode_to_number Dup2 = 0x42"
| "avm_opcode_to_number Swap1 = 0x43"
| "avm_opcode_to_number Swap2 = 0x44"
| "avm_opcode_to_number Tget = 0x50"
| "avm_opcode_to_number Tset = 0x51"
| "avm_opcode_to_number Tlen = 0x52"
| "avm_opcode_to_number Xget = 0x53"
| "avm_opcode_to_number Xset = 0x54"
| "avm_opcode_to_number Breakpoint = 0x60"
| "avm_opcode_to_number Log = 0x61"
| "avm_opcode_to_number Send = 0x70"
| "avm_opcode_to_number InboxPeek = 0x71"
| "avm_opcode_to_number Inbox = 0x72"
| "avm_opcode_to_number Error = 0x73"
| "avm_opcode_to_number Halt = 0x74"
| "avm_opcode_to_number SetGas = 0x75"
| "avm_opcode_to_number PushGas = 0x76"
| "avm_opcode_to_number ErrCodePoint = 0x77"
| "avm_opcode_to_number PushInsn = 0x78"
| "avm_opcode_to_number PushInsnImm = 0x79"
| "avm_opcode_to_number OpenInsn = 0x7a"
| "avm_opcode_to_number Sideload = 0x7b"
| "avm_opcode_to_number EcRecover = 0x80"
| "avm_opcode_to_number EcAdd = 0x81"
| "avm_opcode_to_number EcMul = 0x82"
| "avm_opcode_to_number EcPairing = 0x83"
| "avm_opcode_to_number DebugPrint = 0x90"
| "avm_opcode_to_number NewBuffer = 0xa0"
| "avm_opcode_to_number GetBuffer8 = 0xa1"
| "avm_opcode_to_number GetBuffer64 = 0xa2"
| "avm_opcode_to_number GetBuffer256 = 0xa3"
| "avm_opcode_to_number SetBuffer8 = 0xa4"
| "avm_opcode_to_number SetBuffer64 = 0xa5"
| "avm_opcode_to_number SetBuffer256 = 0xa6"

subsection \<open>Assembler names\<close>

primrec avm_opcode_to_name :: "avm_opcode \<Rightarrow> string" where
  "avm_opcode_to_name Rpush = ''rpush''"
| "avm_opcode_to_name Rset = ''rset''"
| "avm_opcode_to_name Spush = ''spush''"
| "avm_opcode_to_name Tset = ''tset''"
| "avm_opcode_to_name Tget = ''tget''"
| "avm_opcode_to_name Pop = ''pop''"
| "avm_opcode_to_name StackEmpty = ''stackempty''"
| "avm_opcode_to_name AuxPush = ''auxpush''"
| "avm_opcode_to_name AuxPop = ''auxpop''"
| "avm_opcode_to_name AuxStackEmpty = ''auxstackempty''"
| "avm_opcode_to_name Xget = ''xget''"
| "avm_opcode_to_name Xset = ''xset''"
| "avm_opcode_to_name Dup0 = ''dup0''"
| "avm_opcode_to_name Dup1 = ''dup1''"
| "avm_opcode_to_name Dup2 = ''dup2''"
| "avm_opcode_to_name Swap1 = ''swap1''"
| "avm_opcode_to_name Swap2 = ''swap2''"
| "avm_opcode_to_name BitwiseNeg = ''bitwiseneg''"
| "avm_opcode_to_name Hash = ''hash''"
| "avm_opcode_to_name EthHash2 = ''ethhash2''"
| "avm_opcode_to_name Type = ''type''"
| "avm_opcode_to_name Keccakf = ''keccakf''"
| "avm_opcode_to_name Sha256f = ''sha256f''"
| "avm_opcode_to_name Ripemd160f = ''ripemd160f''"
| "avm_opcode_to_name Blake2f = ''blake2f''"
| "avm_opcode_to_name Tlen = ''length''"
| "avm_opcode_to_name Add = ''add''"
| "avm_opcode_to_name Sub = ''sub''"
| "avm_opcode_to_name Mul = ''mul''"
| "avm_opcode_to_name Div = ''div''"
| "avm_opcode_to_name Mod = ''mod''"
| "avm_opcode_to_name Sdiv = ''sdiv''"
| "avm_opcode_to_name Smod = ''smod''"
| "avm_opcode_to_name AddMod = ''addmod''"
| "avm_opcode_to_name MulMod = ''mulmod''"
| "avm_opcode_to_name Exp = ''exp''"
| "avm_opcode_to_name LessThan = ''lt''"
| "avm_opcode_to_name GreaterThan = ''gt''"
| "avm_opcode_to_name SLessThan = ''slt''"
| "avm_opcode_to_name SGreaterThan = ''sgt''"
| "avm_opcode_to_name Equal = ''eq''"
| "avm_opcode_to_name IsZero = ''iszero''"
| "avm_opcode_to_name Byte = ''byte''"
| "avm_opcode_to_name SignExtend = ''signextend''"
| "avm_opcode_to_name ShiftLeft = ''shl''"
| "avm_opcode_to_name ShiftRight = ''shr''"
| "avm_opcode_to_name ShiftArith = ''sar''"
| "avm_opcode_to_name BitwiseAnd = ''bitwiseand''"
| "avm_opcode_to_name BitwiseOr = ''bitwiseor''"
| "avm_opcode_to_name BitwiseXor = ''bitwisexor''"
| "avm_opcode_to_name Noop = ''noop''"
| "avm_opcode_to_name ErrPush = ''errpush''"
| "avm_opcode_to_name Inbox = ''inbox''"
| "avm_opcode_to_name Error = ''error''"
| "avm_opcode_to_name Zero = ''zero''"
| "avm_opcode_to_name Halt = ''halt''"
| "avm_opcode_to_name InboxPeek = ''inboxpeek''"
| "avm_opcode_to_name Jump = ''jump''"
| "avm_opcode_to_name Cjump = ''cjump''"
| "avm_opcode_to_name PCpush = ''pcpush''"
| "avm_opcode_to_name Breakpoint = ''breakpoint''"
| "avm_opcode_to_name Log = ''log''"
| "avm_opcode_to_name Send = ''send''"
| "avm_opcode_to_name ErrCodePoint = ''errcodept''"
| "avm_opcode_to_name PushInsn = ''pushinsn''"
| "avm_opcode_to_name PushInsnImm = ''pushinsnimm''"
| "avm_opcode_to_name OpenInsn = ''openinsn''"
| "avm_opcode_to_name DebugPrint = ''debugprint''"
| "avm_opcode_to_name SetGas = ''setgas''"
| "avm_opcode_to_name PushGas = ''pushgas''"
| "avm_opcode_to_name ErrSet = ''errset''"
| "avm_opcode_to_name Sideload = ''sideload''"
| "avm_opcode_to_name EcRecover = ''ecrecover''"
| "avm_opcode_to_name EcAdd = ''ecadd''"
| "avm_opcode_to_name EcMul = ''ecmul''"
| "avm_opcode_to_name EcPairing = ''ecpairing''"
| "avm_opcode_to_name NewBuffer = ''newbuffer''"
| "avm_opcode_to_name GetBuffer8 = ''getbuffer8''"
| "avm_opcode_to_name GetBuffer64 = ''getbuffer64''"
| "avm_opcode_to_name GetBuffer256 = ''getbuffer256''"
| "avm_opcode_to_name SetBuffer8 = ''setbuffer8''"
| "avm_opcode_to_name SetBuffer64 = ''setbuffer64''"
| "avm_opcode_to_name SetBuffer256 = ''setbuffer256''"

definition opcode_to_name :: "opcode \<Rightarrow> string" where
  "opcode_to_name op =
     (case op of AVM avm \<Rightarrow> avm_opcode_to_name avm
      | UnaryMinus \<Rightarrow> ''unaryminus'' | LogicalAnd \<Rightarrow> ''logicaland'' | LogicalOr \<Rightarrow> ''logicalor''
      | _ \<Rightarrow> ''Unknown'')"

text \<open>\<open>None\<close>: the name is not supported and \<open>from_name\<close> panics.\<close>

definition opcode_names :: "(string \<times> opcode) list" where
  "opcode_names =
     [(''rget'', AVM Rpush), (''rset'', AVM Rset), (''spush'', AVM Spush),
      (''tset'', AVM Tset), (''tget'', AVM Tget), (''tlen'', AVM Tlen), (''pop'', AVM Pop),
      (''stackempty'', AVM StackEmpty), (''auxpush'', AVM AuxPush), (''auxpop'', AVM AuxPop),
      (''auxstackempty'', AVM AuxStackEmpty), (''xget'', AVM Xget), (''xset'', AVM Xset),
      (''dup0'', AVM Dup0), (''dup1'', AVM Dup1), (''dup2'', AVM Dup2),
      (''swap1'', AVM Swap1), (''swap2'', AVM Swap2), (''unaryminus'', UnaryMinus),
      (''bitwiseneg'', AVM BitwiseNeg), (''hash'', AVM Hash), (''ethhash2'', AVM EthHash2),
      (''keccakf'', AVM Keccakf), (''sha256f'', AVM Sha256f),
      (''ripemd160f'', AVM Ripemd160f), (''blake2f'', AVM Blake2f), (''length'', AVM Tlen),
      (''add'', AVM Add), (''sub'', AVM Sub), (''mul'', AVM Mul), (''div'', AVM Div),
      (''mod'', AVM Mod), (''sdiv'', AVM Sdiv), (''smod'', AVM Smod), (''exp'', AVM Exp),
      (''lt'', AVM LessThan), (''gt'', AVM GreaterThan), (''slt'', AVM SLessThan),
      (''sgt'', AVM SGreaterThan), (''eq'', AVM Equal), (''iszero'', AVM IsZero),
      (''byte'', AVM Byte), (''signextend'', AVM SignExtend), (''shl'', AVM ShiftLeft),
      (''shr'', AVM ShiftRight), (''sar'', AVM ShiftArith), (''bitwiseand'', AVM BitwiseAnd),
      (''bitwiseor'', AVM BitwiseOr), (''bitwisexor'', AVM BitwiseXor),
      (''logicaland'', LogicalAnd), (''logicalor'', LogicalOr), (''inbox'', AVM Inbox),
      (''inboxpeek'', AVM InboxPeek), (''jump'', AVM Jump), (''log'', AVM Log),
      (''send'', AVM Send), (''errcodept'', AVM ErrCodePoint), (''pushinsn'', AVM PushInsn),
      (''pushinsnimm'', AVM PushInsnImm), (''openinsn'', AVM OpenInsn),
      (''debugprint'', AVM DebugPrint), (''setgas'', AVM SetGas), (''pushgas'', AVM PushGas),
      (''errset'', AVM ErrSet), (''sideload'', AVM Sideload), (''ecrecover'', AVM EcRecover),
      (''ecadd'', AVM EcAdd), (''ecmul'', AVM EcMul), (''ecpairing'', AVM EcPairing),
      (''addmod'', AVM AddMod), (''mulmod'', AVM MulMod)]"

definition opcode_from_name :: "string \<Rightarrow> opcode option" where
  "opcode_from_name name = map_of opcode_names name"

section \<open>Properties\<close>

text \<open>The numeric code of every opcode decodes to that opcode, every number that decodes is the
  code of the opcode it decodes to, and all codes fit a byte.  (The source's test
  \<open>test_consistent_opcode_numbers\<close> checks one direction for numbers below 256.)\<close>

theorem opcode_number_roundtrip:
  "avm_opcode_from_number (avm_opcode_to_number op) = Some op
   \<and> avm_opcode_to_number op < 256
   \<and> (avm_opcode_from_number n = Some op \<longleftrightarrow> n = avm_opcode_to_number op)"
proof -
  have rt: "avm_opcode_from_number (avm_opcode_to_number op) = Some op \<and> avm_opcode_to_number op < 256" for op
    by (cases op) (simp_all add: avm_opcode_from_number_def opcode_numbers_def)
  have "\<forall>(m, op') \<in> set opcode_numbers. m = avm_opcode_to_number op'"
    by (simp add: opcode_numbers_def)
  then have "avm_opcode_from_number n = Some op \<Longrightarrow> n = avm_opcode_to_number op"
    by (auto simp: avm_opcode_from_number_def dest: map_of_SomeD)
  with rt show ?thesis by auto
qed

text \<open>Every assembler name that \<open>from_name\<close> accepts is printed back by \<open>to_name\<close>, except the
  two synonyms \<open>rget\<close> and \<open>tlen\<close>; conversely the printed name of a machine opcode is accepted
  and denotes it, except for the opcodes listed, whose printed name makes \<open>from_name\<close> panic.\<close>

theorem opcode_name_roundtrip:
  "(opcode_from_name name = Some op \<longrightarrow>
     opcode_to_name op = (if name = ''rget'' then ''rpush'' else if name = ''tlen'' then ''length'' else name))
   \<and> opcode_from_name (avm_opcode_to_name a) =
     (if a \<in> {Rpush, Type, Noop, ErrPush, Error, Zero, Halt, Cjump, PCpush, Breakpoint, NewBuffer, GetBuffer8, GetBuffer64, GetBuffer256, SetBuffer8, SetBuffer64, SetBuffer256}
      then None else Some (AVM a))"
proof -
  have "opcode_to_name op = (if name = ''rget'' then ''rpush'' else if name = ''tlen'' then ''length'' else name)"
    if "opcode_from_name name = Some op"
  proof -
    have "\<forall>x \<in> set opcode_names. opcode_to_name (snd x) =
        (if fst x = ''rget'' then ''rpush'' else if fst x = ''tlen'' then ''length'' else fst x)"
      by (simp add: opcode_names_def opcode_to_name_def)
    moreover have "(name, op) \<in> set opcode_names"
      using that by (simp add: opcode_from_name_def map_of_SomeD)
    ultimately show ?thesis by (metis fst_conv snd_conv)
  qed
  moreover have "opcode_from_name (avm_opcode_to_name a) =
     (if a \<in> {Rpush, Type, Noop, ErrPush, Error, Zero, Halt, Cjump, PCpush, Breakpoint, NewBuffer, GetBuffer8, GetBuffer64, GetBuffer256, SetBuffer8, SetBuffer64, SetBuffer256}
      then None else Some (AVM a))"
    by (cases a) (simp_all add: opcode_from_name_def opcode_names_def)
  ultimately show ?thesis by blast
qed

theorem opcode_name_roundtrip_witness:
  "opcode_to_name (AVM Rpush) = ''rpush'' \<and> opcode_from_name ''rpush'' = None"
proof -
  have "opcode_from_name ''rget'' = Some (AVM Rpush)"
    by (simp add: opcode_from_name_def opcode_names_def)
  with opcode_name_roundtrip [of "''rget''" "AVM Rpush" Rpush] show ?thesis by simp
qed

end
