(* ===== verification/Mavm.thy ===== *)
theory Mavm
  imports Buffer Opcodes
begin

text \<open>
  Values, code points and instructions of the virtual machine (\<open>src/mavm.rs\<close>), with the
  operations the linker performs on them: relocation, replacement of labels by code points
  and translation of labels.  Relocating a runtime code point and hashing an EVM label panic in the
  source; the model returns \<open>None\<close>.
\<close>

section \<open>Definitions\<close>

subsection \<open>Debugging information\<close>

datatype inlining_mode = AlwaysInline | AutoInline | NeverInline

record location =
  line :: nat
  column :: nat
  absolute :: nat
  file_id :: nat

record attributes =
  breakpoint :: bool
  inline_mode :: inlining_mode
  codegen_print :: bool

record debug_info =
  location :: "location option"
  attributes :: attributes

definition attributes_default :: attributes where
  "attributes_default = \<lparr>breakpoint = False, inline_mode = AutoInline, codegen_print = False\<rparr>"

definition debug_info_default :: debug_info where
  "debug_info_default = \<lparr>location = None, attributes = attributes_default\<rparr>"

subsection \<open>Code points\<close>

datatype codept = CpInternal usize | CpExternal usize | InSegment usize usize | Null

definition codept_incr :: "codept \<Rightarrow> codept option" where
  "codept_incr cp =
     (case cp of
        CpInternal pc \<Rightarrow> Some (CpInternal (pc + 1))
      | InSegment seg offset \<Rightarrow> if offset = 0 then None else Some (InSegment seg (offset - 1))
      | CpExternal _ \<Rightarrow> None
      | Null \<Rightarrow> None)"

definition codept_relocate :: "codept \<Rightarrow> usize \<Rightarrow> usize \<Rightarrow> codept option" where
  "codept_relocate cp int_offset ext_offset =
     (case cp of
        CpInternal pc \<Rightarrow> Some (CpInternal (pc + int_offset))
      | CpExternal off \<Rightarrow> Some (CpExternal (off + ext_offset))
      | InSegment _ _ \<Rightarrow> None
      | Null \<Rightarrow> None)"

subsection \<open>Labels\<close>

definition label_relocate :: "label \<Rightarrow> usize \<Rightarrow> usize \<Rightarrow> usize \<Rightarrow> label \<times> usize" where
  "label_relocate l int_offset ext_offset func_offset =
     (case l of
        Func sid \<Rightarrow> (Func (sid + func_offset), sid + func_offset)
      | Anon pc \<Rightarrow> (Anon (pc + int_offset), func_offset)
      | External slot \<Rightarrow> (External (slot + ext_offset), func_offset)
      | Evm _ \<Rightarrow> (l, func_offset))"

record label_generator =
  next_label :: usize

definition label_generator_new :: label_generator where
  "label_generator_new = \<lparr>next_label = 0\<rparr>"

definition label_generator_next :: "label_generator \<Rightarrow> label \<times> label_generator" where
  "label_generator_next g = (Anon (next_label g), \<lparr>next_label = next_label g + 1\<rparr>)"

subsection \<open>Values\<close>

datatype val =
    IntV uint256
  | TupleV "val list"
  | CodePointV codept
  | LabelV label
  | BufferV buffer

definition value_none :: val where
  "value_none = TupleV []"

definition value_new_tuple :: "val list \<Rightarrow> val" where
  "value_new_tuple v = TupleV v"

definition value_new_buffer :: "hash_fn \<Rightarrow> byte list \<Rightarrow> val option" where
  "value_new_buffer keccak256 v = map_option BufferV (buffer_from_bytes keccak256 v)"

definition value_is_none :: "val \<Rightarrow> bool" where
  "value_is_none v \<longleftrightarrow> v = value_none"

text \<open>\<open>None\<close>: the type of a label panics.\<close>

definition value_type_insn_result :: "val \<Rightarrow> usize option" where
  "value_type_insn_result v =
     (case v of
        IntV _ \<Rightarrow> Some 0
      | CodePointV _ \<Rightarrow> Some 1
      | TupleV _ \<Rightarrow> Some 3
      | BufferV _ \<Rightarrow> Some 4
      | LabelV _ \<Rightarrow> None)"

definition value_to_usize :: "val \<Rightarrow> usize option" where
  "value_to_usize v = (case v of IntV i \<Rightarrow> uint256_to_usize i | _ \<Rightarrow> None)"

text \<open>\<open>Inl\<close> carries the first label without a code point.\<close>

fun value_replace_labels :: "(label \<rightharpoonup> codept) \<Rightarrow> val \<Rightarrow> label + val" where
  "value_replace_labels label_map (IntV i) = Inr (IntV i)"
| "value_replace_labels label_map (CodePointV cp) = Inr (CodePointV cp)"
| "value_replace_labels label_map (BufferV b) = Inr (BufferV b)"
| "value_replace_labels label_map (LabelV l) =
     (case label_map l of Some pc \<Rightarrow> Inr (CodePointV pc) | None \<Rightarrow> Inl l)"
| "value_replace_labels label_map (TupleV tup) =
     (case collect_res (value_replace_labels label_map) tup of
        Inl l \<Rightarrow> Inl l
      | Inr new_vec \<Rightarrow> Inr (TupleV new_vec))"

text \<open>\<open>None\<close>: the last element reached is neither the empty tuple nor a tuple, which panics.\<close>

function value_replace_last_none :: "val \<Rightarrow> val \<Rightarrow> val option" where
  "value_replace_last_none (TupleV tup) v =
     (if tup = [] then Some v
      else map_option (\<lambda>y. TupleV (tup[length tup - 1 := y]))
             (value_replace_last_none (tup ! (length tup - 1)) v))"
| "value_replace_last_none (IntV i) v = None"
| "value_replace_last_none (CodePointV cp) v = None"
| "value_replace_last_none (LabelV l) v = None"
| "value_replace_last_none (BufferV b) v = None"
  by pat_completeness auto
termination
  by (relation "measure (size_class.size \<circ> fst)") (auto simp: less_Suc_eq_le intro: size_list_nth)

text \<open>The second component is the largest function offset met; \<open>None\<close> is a panic.\<close>

fun value_relocate :: "val \<Rightarrow> usize \<Rightarrow> usize \<Rightarrow> usize \<Rightarrow> (val \<times> usize) option" where
  "value_relocate (IntV i) int_offset ext_offset func_offset = Some (IntV i, 0)"
| "value_relocate (BufferV b) int_offset ext_offset func_offset = Some (BufferV b, 0)"
| "value_relocate (TupleV v) int_offset ext_offset func_offset =
     (case collect_opt (\<lambda>x. value_relocate x int_offset ext_offset func_offset) v of
        None \<Rightarrow> None
      | Some rs \<Rightarrow> Some (TupleV (map fst rs), foldl (\<lambda>m r. if m < snd r then snd r else m) 0 rs))"
| "value_relocate (CodePointV cpt) int_offset ext_offset func_offset =
     map_option (\<lambda>c. (CodePointV c, 0)) (codept_relocate cpt int_offset ext_offset)"
| "value_relocate (LabelV l) int_offset ext_offset func_offset =
     Some (LabelV (fst (label_relocate l int_offset ext_offset func_offset)),
           snd (label_relocate l int_offset ext_offset func_offset))"

fun value_xlate_labels :: "(label \<rightharpoonup> label) \<Rightarrow> val \<Rightarrow> val" where
  "value_xlate_labels label_map (TupleV v) = TupleV (map (value_xlate_labels label_map) v)"
| "value_xlate_labels label_map (LabelV l) =
     (case label_map l of Some l2 \<Rightarrow> LabelV l2 | None \<Rightarrow> LabelV l)"
| "value_xlate_labels label_map v = v"

subsection \<open>Hashing\<close>

definition value_avm_hash2 :: "hash_fn \<Rightarrow> uint256 \<Rightarrow> uint256 \<Rightarrow> uint256" where
  "value_avm_hash2 keccak256 ui ui2 =
     uint256_from_bytes (keccak256 (uint256_to_bytes_be ui @ uint256_to_bytes_be ui2))"

text \<open>Hashing an EVM label panics.\<close>

definition label_avm_hash :: "hash_fn \<Rightarrow> label \<Rightarrow> uint256 option" where
  "label_avm_hash keccak256 l =
     (case l of
        Func sid \<Rightarrow> Some (value_avm_hash2 keccak256 4 sid)
      | Anon n \<Rightarrow> Some (value_avm_hash2 keccak256 5 n)
      | External n \<Rightarrow> Some (value_avm_hash2 keccak256 6 n)
      | Evm _ \<Rightarrow> None)"

definition codept_avm_hash :: "hash_fn \<Rightarrow> codept \<Rightarrow> uint256" where
  "codept_avm_hash keccak256 cp =
     (case cp of
        CpInternal sz \<Rightarrow> value_avm_hash2 keccak256 3 sz
      | CpExternal _ \<Rightarrow> uint256_zero
      | InSegment _ _ \<Rightarrow> uint256_zero
      | Null \<Rightarrow> uint256_zero)"

fun value_avm_hash :: "hash_fn \<Rightarrow> val \<Rightarrow> uint256 option" where
  "value_avm_hash keccak256 (IntV ui) = Some (uint256_avm_hash keccak256 ui)"
| "value_avm_hash keccak256 (BufferV buf) = Some (buffer_avm_hash keccak256 buf)"
| "value_avm_hash keccak256 (TupleV v) =
     (case collect_opt (value_avm_hash keccak256) v of
        None \<Rightarrow> None
      | Some hs \<Rightarrow> Some (foldl (\<lambda>acc ui. uint256_avm_hash2 keccak256 acc ui) uint256_zero hs))"
| "value_avm_hash keccak256 (CodePointV cp) =
     Some (value_avm_hash2 keccak256 uint256_one (codept_avm_hash keccak256 cp))"
| "value_avm_hash keccak256 (LabelV l) =
     map_option (value_avm_hash2 keccak256 2) (label_avm_hash keccak256 l)"

subsection \<open>Instructions\<close>

datatype 'op instruction =
  Instruction (opcode: 'op) (immediate: "val option") (insn_debug_info: debug_info)

definition instruction_from_avm :: "avm_opcode instruction \<Rightarrow> opcode instruction" where
  "instruction_from_avm i = Instruction (AVM (opcode i)) (immediate i) (insn_debug_info i)"

definition instruction_from_opcode :: "'op \<Rightarrow> debug_info \<Rightarrow> 'op instruction" where
  "instruction_from_opcode op di = Instruction op None di"

definition instruction_from_opcode_imm :: "'op \<Rightarrow> val \<Rightarrow> debug_info \<Rightarrow> 'op instruction" where
  "instruction_from_opcode_imm op imm di = Instruction op (Some imm) di"

definition instruction_replace_labels ::
    "(label \<rightharpoonup> codept) \<Rightarrow> 'op instruction \<Rightarrow> label + 'op instruction" where
  "instruction_replace_labels label_map i =
     (case immediate i of
        Some v \<Rightarrow> (case value_replace_labels label_map v of
                     Inl l \<Rightarrow> Inl l
                   | Inr v' \<Rightarrow> Inr (instruction_from_opcode_imm (opcode i) v' (insn_debug_info i)))
      | None \<Rightarrow> Inr i)"

definition instruction_xlate_labels :: "(label \<rightharpoonup> label) \<Rightarrow> 'op instruction \<Rightarrow> 'op instruction" where
  "instruction_xlate_labels xlate_map i =
     (case immediate i of
        Some v \<Rightarrow> instruction_from_opcode_imm (opcode i) (value_xlate_labels xlate_map v) (insn_debug_info i)
      | None \<Rightarrow> i)"

definition instruction_is_pure :: "opcode instruction \<Rightarrow> bool" where
  "instruction_is_pure i = opcode_is_pure (opcode i)"

definition instruction_get_label :: "opcode instruction \<Rightarrow> label option" where
  "instruction_get_label i = (case opcode i of LabelOp l \<Rightarrow> Some l | _ \<Rightarrow> None)"

definition opcode_relocate :: "opcode \<Rightarrow> usize \<Rightarrow> usize \<Rightarrow> usize \<Rightarrow> usize \<Rightarrow> opcode" where
  "opcode_relocate op int_offset ext_offset func_offset globals_offset =
     (case op of
        PushExternal off \<Rightarrow> PushExternal (off + ext_offset)
      | LabelOp l \<Rightarrow> LabelOp (fst (label_relocate l int_offset ext_offset func_offset))
      | GetGlobalVar idx \<Rightarrow> GetGlobalVar (idx + globals_offset)
      | SetGlobalVar idx \<Rightarrow> SetGlobalVar (idx + globals_offset)
      | _ \<Rightarrow> op)"

definition instruction_relocate ::
    "opcode instruction \<Rightarrow> usize \<Rightarrow> usize \<Rightarrow> usize \<Rightarrow> usize \<Rightarrow> (opcode instruction \<times> usize) option" where
  "instruction_relocate i int_offset ext_offset func_offset globals_offset =
     (let m1 = (case opcode i of
                  LabelOp l \<Rightarrow> max func_offset (snd (label_relocate l int_offset ext_offset func_offset))
                | _ \<Rightarrow> func_offset);
          op = opcode_relocate (opcode i) int_offset ext_offset func_offset globals_offset
      in case immediate i of
           None \<Rightarrow> Some (Instruction op None (insn_debug_info i), m1)
         | Some imm \<Rightarrow>
             (case value_relocate imm int_offset ext_offset func_offset of
                None \<Rightarrow> None
              | Some (imm', m2) \<Rightarrow> Some (Instruction op (Some imm') (insn_debug_info i), max m1 m2)))"

text \<open>The labels a value mentions, from left to right.\<close>

fun value_labels :: "val \<Rightarrow> label list" where
  "value_labels (LabelV l) = [l]"
| "value_labels (TupleV vs) = concat (map value_labels vs)"
| "value_labels _ = []"

text \<open>Every integer in a value is in range, every buffer in it is well formed, and the length of every
  tuple fits into a \<open>usize\<close>, as that of every vector does.\<close>

fun value_ok :: "hash_fn \<Rightarrow> val \<Rightarrow> bool" where
  "value_ok kec (IntV i) \<longleftrightarrow> u256_ok i"
| "value_ok kec (TupleV vs) \<longleftrightarrow> length vs < usize_limit \<and> list_all (value_ok kec) vs"
| "value_ok kec (BufferV b) \<longleftrightarrow> buffer_ok kec b"
| "value_ok kec (CodePointV _) \<longleftrightarrow> True"
| "value_ok kec (LabelV _) \<longleftrightarrow> True"

section \<open>Labels under replacement, translation and relocation\<close>

text \<open>The reference for \<open>replace_labels\<close>: every label becomes the code point the map gives it.\<close>

fun value_resolve :: "(label \<Rightarrow> codept) \<Rightarrow> val \<Rightarrow> val" where
  "value_resolve f (LabelV l) = CodePointV (f l)"
| "value_resolve f (TupleV vs) = TupleV (map (value_resolve f) vs)"
| "value_resolve f v = v"

lemma find_append:
  "find P (xs @ ys) = (case find P xs of Some x \<Rightarrow> Some x | None \<Rightarrow> find P ys)"
  by (induction xs) auto

lemma find_map_eq: "find P (map f xs) = map_option f (find (\<lambda>x. P (f x)) xs)"
  by (induction xs) auto

lemma collect_res_find:
  assumes "\<And>x. x \<in> set xs \<Longrightarrow>
     f x = (case find P (g x) of Some l \<Rightarrow> Inl l | None \<Rightarrow> Inr (h x))"
  shows "collect_res f xs =
     (case find P (concat (map g xs)) of Some l \<Rightarrow> Inl l | None \<Rightarrow> Inr (map h xs))"
  using assms by (induction xs) (auto simp: find_append split: option.splits)

lemma value_replace_labels_eq:
  "value_replace_labels m v =
     (case find (\<lambda>l. m l = None) (value_labels v) of
        Some l \<Rightarrow> Inl l
      | None \<Rightarrow> Inr (value_resolve (\<lambda>l. the (m l)) v))"
proof (induction v rule: val.induct)
  case (TupleV vs)
  have "collect_res (value_replace_labels m) vs =
     (case find (\<lambda>l. m l = None) (concat (map value_labels vs)) of
        Some l \<Rightarrow> Inl l | None \<Rightarrow> Inr (map (value_resolve (\<lambda>l. the (m l))) vs))"
    by (rule collect_res_find) (rule TupleV)
  then show ?case by (simp split: option.splits)
qed (auto split: option.splits)

lemma value_resolve_labels [simp]: "value_labels (value_resolve f v) = []"
  by (induction v) auto

lemma value_resolve_xlate:
  "value_resolve f (value_xlate_labels x v) =
     value_resolve (\<lambda>l. f (case x l of Some l2 \<Rightarrow> l2 | None \<Rightarrow> l)) v"
  by (induction v) (auto split: option.splits)

lemma value_labels_xlate:
  "value_labels (value_xlate_labels x v) =
     map (\<lambda>l. case x l of Some l2 \<Rightarrow> l2 | None \<Rightarrow> l) (value_labels v)"
  by (induction v) (auto simp: map_concat intro!: arg_cong [where f = concat] split: option.splits)

text \<open>
  Replacing the labels of a value fails with the first label, from left to right, that the map
  does not know; when there is none it yields the value in which each label is the code point the
  map gives it, and that value mentions no label any more.
\<close>

theorem value_replace_labels_exact:
  "value_replace_labels m v =
     (case find (\<lambda>l. m l = None) (value_labels v) of
        Some l \<Rightarrow> Inl l
      | None \<Rightarrow> Inr (value_resolve (\<lambda>l. the (m l)) v))
   \<and> value_labels (value_resolve (\<lambda>l. the (m l)) v) = []"
  by (simp add: value_replace_labels_eq)

text \<open>
  Translating labels first and then replacing them by code points is one replacement, through the
  map that looks a label up under its translated name; in particular a label with no translation
  keeps its meaning.
\<close>

theorem value_xlate_then_replace:
  "(value_replace_labels m (value_xlate_labels x v) = Inr w) =
   (value_replace_labels (\<lambda>l. m (case x l of Some l2 \<Rightarrow> l2 | None \<Rightarrow> l)) v = Inr w)"
  by (simp add: value_replace_labels_eq value_labels_xlate value_resolve_xlate find_map_eq
      split: option.split)

subsection \<open>Relocation\<close>

text \<open>The function offset a label reports when it is relocated.\<close>

abbreviation label_shift :: "usize \<Rightarrow> usize \<Rightarrow> usize \<Rightarrow> label \<Rightarrow> label" where
  "label_shift i e f l \<equiv> fst (label_relocate l i e f)"

abbreviation label_reach :: "usize \<Rightarrow> label \<Rightarrow> usize" where
  "label_reach f l \<equiv> snd (label_relocate l 0 0 f)"

lemma label_shift_add:
  "label_shift i e f (label_shift i' e' f' l) = label_shift (i' + i) (e' + e) (f' + f) l"
  by (simp add: label_relocate_def split: label.splits)

lemma label_shift_inj: "label_shift i e f l = label_shift i e f l' \<longleftrightarrow> l = l'"
  by (auto simp: label_relocate_def split: label.splits)

lemma label_shift_Func: "label_shift i e f l = Func s \<Longrightarrow> f \<le> s \<and> s \<le> label_reach f l"
  by (auto simp: label_relocate_def split: label.splits)

lemma foldl_max_eq:
  "foldl (\<lambda>m r. if m < snd r then snd r else m) (a::nat) rs = fold max (map snd rs) a"
proof (induction rs arbitrary: a)
  case (Cons r rs)
  have "(if a < snd r then snd r else a) = max (snd r) a" by auto
  then show ?case by (simp only: foldl_Cons list.map fold_Cons comp_apply Cons)
qed simp

lemma fold_max_acc: "fold max ys b = max b (fold max ys (0::nat))"
proof (induction ys rule: rev_induct)
  case (snoc y ys)
  then show ?case by (metis fold_append fold_Cons fold_Nil comp_apply id_apply max.left_commute)
qed simp

lemma fold_max_concat:
  "fold max (map (\<lambda>x. fold max (g x) (0::nat)) xs) 0 = fold max (concat (map g xs)) 0"
proof (induction xs)
  case (Cons x xs)
  then show ?case
    by (simp add: fold_max_acc [of _ "fold max (g x) 0"])
qed simp

lemma fold_max_ge: "s \<le> g x \<Longrightarrow> x \<in> set xs \<Longrightarrow> s \<le> fold max (map g xs) (a::nat)"
  by (induction xs arbitrary: a rule: rev_induct) (auto simp: le_max_iff_disj)

text \<open>A value that holds no code point of a running machine can be relocated.\<close>

fun value_static :: "val \<Rightarrow> bool" where
  "value_static (CodePointV cp) \<longleftrightarrow> (case cp of CpInternal _ \<Rightarrow> True | CpExternal _ \<Rightarrow> True | _ \<Rightarrow> False)"
| "value_static (TupleV vs) \<longleftrightarrow> list_all value_static vs"
| "value_static _ \<longleftrightarrow> True"

fun value_shift :: "usize \<Rightarrow> usize \<Rightarrow> usize \<Rightarrow> val \<Rightarrow> val" where
  "value_shift i e f (CodePointV cp) =
     CodePointV (case cp of CpInternal pc \<Rightarrow> CpInternal (pc + i) | CpExternal x \<Rightarrow> CpExternal (x + e) | c \<Rightarrow> c)"
| "value_shift i e f (TupleV vs) = TupleV (map (value_shift i e f) vs)"
| "value_shift i e f (LabelV l) = LabelV (label_shift i e f l)"
| "value_shift i e f v = v"

lemma value_relocate_eq:
  "value_relocate v i e f =
     (if value_static v
      then Some (value_shift i e f v, fold max (map (label_reach f) (value_labels v)) 0)
      else None)"
proof (induction v)
  case (TupleV vs)
  let ?g = "\<lambda>v. (value_shift i e f v, fold max (map (label_reach f) (value_labels v)) 0)"
  show ?case
  proof (cases "list_all value_static vs")
    case True
    then have "collect_opt (\<lambda>x. value_relocate x i e f) vs = Some (map ?g vs)"
      using TupleV by (auto simp: collect_opt_Some_iff list_all2_map2 list_all_iff intro!: list.rel_refl_strong)
    with True show ?thesis
      by (simp add: foldl_max_eq comp_def fold_max_concat map_concat)
  next
    case False
    then have "\<not> (\<exists>ys. collect_opt (\<lambda>x. value_relocate x i e f) vs = Some ys)"
      using TupleV by (auto simp: collect_opt_Some_Ex list_all_iff)
    with False show ?thesis by (auto split: option.splits)
  qed
next
  case (LabelV l)
  show ?case by (cases l) (simp_all add: label_relocate_def)
qed (auto simp: codept_relocate_def split: codept.splits)

lemma value_labels_shift: "value_labels (value_shift i e f v) = map (label_shift i e f) (value_labels v)"
  by (induction v) (auto simp: map_concat intro!: arg_cong [where f = concat])

lemma value_shift_static: "value_static (value_shift i e f v) = value_static v"
  by (induction v) (auto simp: list_all_iff split: codept.splits)

lemma value_shift_add: "value_shift i e f (value_shift i' e' f' v) = value_shift (i' + i) (e' + e) (f' + f) v"
  by (induction v) (auto simp: label_shift_add split: codept.splits)

text \<open>
  Relocating a value panics exactly when it holds a code point of a running machine.  Otherwise the
  labels are the old ones shifted, no function label lies above the offset that is returned (so a
  program relocated behind that offset shares no function label with this one) or below the offset
  that was given, and relocating twice is relocating once by the sums of the offsets.
\<close>

theorem value_relocate_spec:
  "(value_relocate v i e f = None) = (\<not> value_static v)
   \<and> (value_relocate v i e f = Some (w, m) \<longrightarrow>
        value_labels w = map (label_shift i e f) (value_labels v)
        \<and> (\<forall>s. Func s \<in> set (value_labels w) \<longrightarrow> f \<le> s \<and> s \<le> m)
        \<and> map_option fst (value_relocate w i' e' f') =
           map_option fst (value_relocate v (i + i') (e + e') (f + f')))"
  by (auto simp: value_relocate_eq value_labels_shift value_shift_static value_shift_add
      dest!: label_shift_Func [OF sym] intro: fold_max_ge)

theorem value_relocate_spec_witness:
  "value_labels (TupleV [LabelV (Func 7), LabelV (Anon 5), CodePointV (CpInternal 3)]) =
     map (label_shift 2 0 4) (value_labels (TupleV [LabelV (Func 3), LabelV (Anon 3), CodePointV (CpInternal 1)]))"
  using value_relocate_spec [of "TupleV [LabelV (Func 3), LabelV (Anon 3), CodePointV (CpInternal 1)]"
      2 0 4 "TupleV [LabelV (Func 7), LabelV (Anon 5), CodePointV (CpInternal 3)]" 7 0 0 0]
  by (simp add: label_relocate_def codept_relocate_def)

end
