(* ===== verification/Runtime_Env.thy ===== *)
theory Runtime_Env
  imports Mavm "HOL-Library.Monad_Syntax"
begin

text \<open>
  The environment an emulated machine talks to (\<open>src/run/runtime_env.rs\<close>): the inbox of messages,
  the logs and sends the machine produces, the recorder that keeps a copy of all three, the
  construction of the messages, the compression of addresses and amounts, and byte stacks.
  A panic is \<open>None\<close>; where the source returns an \<open>Option\<close> and can also panic the model returns
  an option of an option.  \<open>keccak256\<close>, \<open>rlp::encode\<close> and the signing of a transaction are library code
  and parameters.
\<close>

section \<open>Definitions\<close>

subsection \<open>Recorder\<close>

record rt_env_recorder =
  format_version :: u64
  rec_inbox :: "val list"
  rec_logs :: "val list"
  rec_sends :: "byte list list"
  total_gas :: u64

definition recorder_new :: rt_env_recorder where
  "recorder_new = \<lparr>format_version = 1, rec_inbox = [], rec_logs = [], rec_sends = [], total_gas = 0\<rparr>"

definition recorder_add_msg :: "rt_env_recorder \<Rightarrow> val \<Rightarrow> rt_env_recorder" where
  "recorder_add_msg r msg = r\<lparr>rec_inbox := rec_inbox r @ [msg]\<rparr>"

definition recorder_add_log :: "rt_env_recorder \<Rightarrow> val \<Rightarrow> rt_env_recorder" where
  "recorder_add_log r log_item = r\<lparr>rec_logs := rec_logs r @ [log_item]\<rparr>"

definition recorder_add_send :: "rt_env_recorder \<Rightarrow> byte list \<Rightarrow> rt_env_recorder" where
  "recorder_add_send r send_item = r\<lparr>rec_sends := rec_sends r @ [send_item]\<rparr>"

subsection \<open>Compression of addresses and token amounts\<close>

record tx_compressor =
  address_map :: "byte list \<rightharpoonup> byte list"
  next_index :: u64

definition compressor_new :: tx_compressor where
  "compressor_new = \<lparr>address_map = Map.empty, next_index = 1\<rparr>"

definition compress_address ::
    "(byte list \<Rightarrow> byte list) \<Rightarrow> tx_compressor \<Rightarrow> uint256 \<Rightarrow> byte list \<times> tx_compressor" where
  "compress_address rlp_encode c addr =
     (case address_map c (uint256_to_bytes_be addr) of
        Some rlp_bytes \<Rightarrow> (rlp_bytes, c)
      | None \<Rightarrow>
          let addr_bytes = uint256_to_bytes_be addr
          in (148 # drop 12 (take 32 addr_bytes),
              c\<lparr>address_map := (address_map c)
                   (addr_bytes \<mapsto> uint256_rlp_encode rlp_encode (uint256_from_u64 (next_index c))),
                next_index := 1 + next_index c\<rparr>))"

text \<open>The loop that strips decimal zeros; the amount is not zero when it starts.\<close>

function strip_zeroes :: "uint256 \<Rightarrow> nat \<Rightarrow> uint256 \<times> nat" where
  "strip_zeroes amt num_zeroes =
     (if amt \<noteq> 0 \<and> amt mod 10 = 0 then strip_zeroes (amt div 10) (1 + num_zeroes) else (amt, num_zeroes))"
  by auto
termination by (relation "measure fst") auto

declare strip_zeroes.simps [simp del]

definition generic_compress_token_amount :: "(byte list \<Rightarrow> byte list) \<Rightarrow> uint256 \<Rightarrow> byte list" where
  "generic_compress_token_amount rlp_encode amt =
     (if uint256_is_zero amt then uint256_rlp_encode rlp_encode amt
      else let (m, num_zeroes) = strip_zeroes amt 0
           in uint256_rlp_encode rlp_encode m @ [word_of_nat num_zeroes])"

definition compress_token_amount :: "(byte list \<Rightarrow> byte list) \<Rightarrow> tx_compressor \<Rightarrow> uint256 \<Rightarrow> byte list" where
  "compress_token_amount rlp_encode c amt = generic_compress_token_amount rlp_encode amt"

subsection \<open>Byte stacks\<close>

definition bytestack_build_uint :: "byte list \<Rightarrow> val" where
  "bytestack_build_uint b =
     IntV (foldl (\<lambda>ui j. if j < length b
                        then uint256_add (uint256_mul ui (uint256_from_usize 256)) (uint256_from_usize (unat (b ! j)))
                        else uint256_mul ui (uint256_from_usize 256)) uint256_zero [0..<32])"

fun bytestack_from_bytes_2 :: "byte list \<Rightarrow> val \<Rightarrow> val" where
  "bytestack_from_bytes_2 b so_far =
     (if 32 < length b
      then bytestack_from_bytes_2 (drop 32 b) (value_new_tuple [bytestack_build_uint (take 32 b), so_far])
      else value_new_tuple [bytestack_build_uint b, so_far])"

declare bytestack_from_bytes_2.simps [simp del]

definition bytestack_from_bytes :: "byte list \<Rightarrow> val" where
  "bytestack_from_bytes b =
     value_new_tuple [IntV (uint256_from_usize (length b)), bytestack_from_bytes_2 b value_none]"

fun hash_bytestack_loop :: "hash_fn \<Rightarrow> uint256 \<Rightarrow> val \<Rightarrow> uint256 option option" where
  "hash_bytestack_loop kec acc (TupleV []) = Some (Some acc)"
| "hash_bytestack_loop kec acc (TupleV [IntV ui2]) = None"
| "hash_bytestack_loop kec acc (TupleV (IntV ui2 # pair # rest)) =
     hash_bytestack_loop kec (uint256_avm_hash2 kec acc ui2) pair"
| "hash_bytestack_loop kec acc _ = Some None"

definition hash_bytestack :: "hash_fn \<Rightarrow> val \<Rightarrow> uint256 option option" where
  "hash_bytestack kec bs =
     (case bs of
        TupleV tup \<Rightarrow>
          (case get_at tup 0 of
             None \<Rightarrow> None
           | Some (IntV ui) \<Rightarrow> (case get_at tup 1 of None \<Rightarrow> None | Some pair \<Rightarrow> hash_bytestack_loop kec ui pair)
           | Some _ \<Rightarrow> Some None)
      | _ \<Rightarrow> Some None)"

text \<open>The inner loops: the low \<open>n\<close> base-256 digits, most significant first; dropping \<open>n\<close> digits.\<close>

primrec low_bytes :: "nat \<Rightarrow> uint256 \<Rightarrow> byte list \<Rightarrow> byte list" where
  "low_bytes 0 v arr = arr"
| "low_bytes (Suc n) v arr = low_bytes n (v div 256) (word_of_nat (v mod 256) # arr)"

primrec drop_bytes :: "nat \<Rightarrow> uint256 \<Rightarrow> uint256" where
  "drop_bytes 0 v = v"
| "drop_bytes (Suc n) v = drop_bytes n (v div 256)"

function bytes_from_bytestack_2 :: "val \<Rightarrow> usize \<Rightarrow> byte list option option" where
  "bytes_from_bytestack_2 cell nbytes =
     (if nbytes = 0 then Some (Some [])
      else case cell of
        TupleV [IntV int_val, next_cell] \<Rightarrow>
          if nbytes mod 32 = 0
          then (case bytes_from_bytestack_2 next_cell (nbytes - 32) of
                  None \<Rightarrow> None | Some None \<Rightarrow> Some None
                | Some (Some sub_arr) \<Rightarrow> Some (Some (sub_arr @ low_bytes 32 int_val [])))
          else (case bytes_from_bytestack_2 next_cell (32 * (nbytes div 32)) of
                  None \<Rightarrow> None | Some None \<Rightarrow> Some None
                | Some (Some sub_arr) \<Rightarrow>
                    let this_size = nbytes mod 32
                    in Some (Some (sub_arr @ low_bytes this_size (drop_bytes (32 - this_size) int_val) [])))
      | TupleV tup \<Rightarrow> if length tup = 2 then Some None else None
      | _ \<Rightarrow> Some None)"
  by auto
termination by (relation "measure (size_class.size \<circ> fst)") auto

declare bytes_from_bytestack_2.simps [simp del]

definition bytes_from_bytestack :: "val \<Rightarrow> byte list option option" where
  "bytes_from_bytestack bs =
     (case bs of
        TupleV tup \<Rightarrow>
          (case get_at tup 0 of
             None \<Rightarrow> None
           | Some (IntV ui) \<Rightarrow>
               (case uint256_to_usize ui of
                  Some nbytes \<Rightarrow> (case get_at tup 1 of None \<Rightarrow> None | Some c \<Rightarrow> bytes_from_bytestack_2 c nbytes)
                | None \<Rightarrow> Some None)
           | Some _ \<Rightarrow> Some None)
      | _ \<Rightarrow> Some None)"

subsection \<open>The environment\<close>

record runtime_env =
  chain_id :: u64
  l1_inbox :: "val list"
  current_block_num :: uint256
  current_timestamp :: uint256
  logs :: "val list"
  sends :: "byte list list"
  next_inbox_seq_num :: uint256
  caller_seq_nums :: "uint256 \<rightharpoonup> uint256"
  env_next_id :: uint256
  recorder :: rt_env_recorder
  compressor :: tx_compressor
  charging_policy :: "(uint256 \<times> uint256 \<times> uint256) option"
  num_wallets :: u64
  chain_init_message :: "byte list"

definition get_params_bytes :: "hash_fn \<Rightarrow> uint256 option \<Rightarrow> u64 \<Rightarrow> byte list" where
  "get_params_bytes kec owner chain =
     concat (map (\<lambda>(name, v). kec (map (\<lambda>c. word_of_nat (of_char c)) name) @ uint256_to_bytes_be v)
       [(''ChainOwner'', case owner of Some x \<Rightarrow> x | None \<Rightarrow> uint256_zero),
        (''ChainID'', uint256_from_u64 chain)])"

definition get_gas_price :: "runtime_env \<Rightarrow> uint256" where
  "get_gas_price env = uint256_from_gwei 2"

definition insert_full_inbox_contents :: "runtime_env \<Rightarrow> val list \<Rightarrow> runtime_env" where
  "insert_full_inbox_contents env contents = env\<lparr>l1_inbox := contents\<rparr>"

definition unwrap_or :: "'a option \<Rightarrow> 'a \<Rightarrow> 'a" where
  "unwrap_or x d = (case x of Some a \<Rightarrow> a | None \<Rightarrow> d)"

definition insert_l1_message ::
    "hash_fn \<Rightarrow> runtime_env \<Rightarrow> nat \<Rightarrow> uint256 \<Rightarrow> byte list \<Rightarrow> uint256 option \<Rightarrow> uint256 option
     \<Rightarrow> (uint256 \<times> runtime_env) option" where
  "insert_l1_message kec env msg_type sender_addr msg block_num timestamp = do {
     msg_buffer \<leftarrow> value_new_buffer kec msg;
     let l1_msg = value_new_tuple
       [IntV (uint256_from_usize msg_type),
        IntV (unwrap_or block_num (current_block_num env)),
        IntV (unwrap_or timestamp (current_timestamp env)),
        IntV sender_addr,
        IntV (next_inbox_seq_num env),
        IntV (get_gas_price env),
        IntV (uint256_from_usize (length msg)),
        msg_buffer];
     let msg_id = uint256_avm_hash2 kec (uint256_from_u64 (chain_id env)) (next_inbox_seq_num env);
     Some (msg_id, env\<lparr>next_inbox_seq_num := uint256_add (next_inbox_seq_num env) uint256_one,
                       l1_inbox := l1_inbox env @ [l1_msg],
                       recorder := recorder_add_msg (recorder env) l1_msg\<rparr>)
   }"

definition send_chain_init_message :: "hash_fn \<Rightarrow> runtime_env \<Rightarrow> runtime_env option" where
  "send_chain_init_message kec env =
     map_option snd (insert_l1_message kec env 4 uint256_zero (chain_init_message env) None None)"

definition env_new_with_blocknum_timestamp ::
    "hash_fn \<Rightarrow> uint256 \<Rightarrow> uint256 \<Rightarrow> (uint256 \<times> uint256 \<times> uint256) option \<Rightarrow> uint256 option
     \<Rightarrow> runtime_env option" where
  "env_new_with_blocknum_timestamp kec blocknum timestamp policy owner =
     (let chain = 42161
      in send_chain_init_message kec
           \<lparr>chain_id = chain, l1_inbox = [], current_block_num = blocknum, current_timestamp = timestamp,
            logs = [], sends = [], next_inbox_seq_num = uint256_zero, caller_seq_nums = Map.empty,
            env_next_id = uint256_zero, recorder = recorder_new, compressor = compressor_new,
            charging_policy = policy, num_wallets = 0, chain_init_message = get_params_bytes kec owner chain\<rparr>)"

definition env_new :: "hash_fn \<Rightarrow> (uint256 \<times> uint256 \<times> uint256) option \<Rightarrow> runtime_env option" where
  "env_new kec policy =
     env_new_with_blocknum_timestamp kec (uint256_from_u64 100000) (uint256_from_u64 10000000) policy None"

definition env_new_options :: "hash_fn \<Rightarrow> runtime_env option" where
  "env_new_options kec =
     env_new_with_blocknum_timestamp kec (uint256_from_u64 100000) (uint256_from_u64 10000000) None None"

definition env_new_with_owner :: "hash_fn \<Rightarrow> uint256 option \<Rightarrow> runtime_env option" where
  "env_new_with_owner kec owner =
     env_new_with_blocknum_timestamp kec (uint256_from_u64 100000) (uint256_from_u64 10000000) None owner"

definition get_and_incr_seq_num :: "runtime_env \<Rightarrow> uint256 \<Rightarrow> uint256 \<times> runtime_env" where
  "get_and_incr_seq_num env addr =
     (let cur_seq_num = (case caller_seq_nums env addr of Some sn \<Rightarrow> sn | None \<Rightarrow> uint256_zero)
      in (cur_seq_num,
          env\<lparr>caller_seq_nums := (caller_seq_nums env)(addr \<mapsto> uint256_add cur_seq_num uint256_one)\<rparr>))"

text \<open>Indexing the first byte of an empty message panics.\<close>

definition insert_l2_message ::
    "hash_fn \<Rightarrow> runtime_env \<Rightarrow> uint256 \<Rightarrow> byte list \<Rightarrow> bool \<Rightarrow> (uint256 \<times> runtime_env) option" where
  "insert_l2_message kec env sender_addr msg is_buddy_deploy = do {
     (default_id, env1) \<leftarrow> insert_l1_message kec env (if is_buddy_deploy then 5 else 3) sender_addr msg None None;
     if is_buddy_deploy then Some (default_id, env1)
     else do {
       b \<leftarrow> get_at msg 0;
       Some (if b = 0
             then uint256_avm_hash2 kec sender_addr
                    (uint256_avm_hash2 kec (uint256_from_u64 (chain_id env1)) (uint256_from_bytes (kec msg)))
             else default_id, env1)
     }
   }"

definition insert_l2_message_with_deposit ::
    "hash_fn \<Rightarrow> runtime_env \<Rightarrow> uint256 \<Rightarrow> byte list \<Rightarrow> (uint256 \<times> runtime_env) option" where
  "insert_l2_message_with_deposit kec env sender_addr msg = do {
     b \<leftarrow> get_at msg 0;
     if b \<noteq> 0 \<and> b \<noteq> 1 then None
     else do {
       (default_id, env1) \<leftarrow> insert_l1_message kec env 7 sender_addr msg None None;
       if b = 0
       then do {
         h \<leftarrow> hash_bytestack kec (bytestack_from_bytes msg);
         h' \<leftarrow> h;
         Some (uint256_avm_hash2 kec sender_addr
                 (uint256_avm_hash2 kec (uint256_from_u64 (chain_id env1)) h'), env1)
       }
       else Some (default_id, env1)
     }
   }"

definition insert_tx_message ::
    "hash_fn \<Rightarrow> runtime_env \<Rightarrow> uint256 \<Rightarrow> uint256 \<Rightarrow> uint256 option \<Rightarrow> uint256 \<Rightarrow> uint256 \<Rightarrow> byte list \<Rightarrow> bool
     \<Rightarrow> (uint256 \<times> runtime_env) option" where
  "insert_tx_message kec env sender_addr max_gas gas_price_bid to_addr value data with_deposit =
     (let (seq_num, env1) = get_and_incr_seq_num env sender_addr;
          buf = [0] @ uint256_to_bytes_be max_gas
                @ uint256_to_bytes_be (unwrap_or gas_price_bid (get_gas_price env1))
                @ uint256_to_bytes_be seq_num @ uint256_to_bytes_be to_addr
                @ uint256_to_bytes_be value @ data
      in if with_deposit then insert_l2_message_with_deposit kec env1 sender_addr buf
         else insert_l2_message kec env1 sender_addr buf False)"

definition insert_tx_message_from_contract ::
    "hash_fn \<Rightarrow> runtime_env \<Rightarrow> uint256 \<Rightarrow> uint256 \<Rightarrow> uint256 option \<Rightarrow> uint256 \<Rightarrow> uint256 \<Rightarrow> byte list \<Rightarrow> bool
     \<Rightarrow> (uint256 \<times> runtime_env) option" where
  "insert_tx_message_from_contract kec env sender_addr max_gas gas_price_bid to_addr value data with_deposit =
     (let buf = [1] @ uint256_to_bytes_be max_gas
                @ uint256_to_bytes_be (unwrap_or gas_price_bid (get_gas_price env))
                @ uint256_to_bytes_be to_addr @ uint256_to_bytes_be value @ data
      in if with_deposit then insert_l2_message_with_deposit kec env sender_addr buf
         else insert_l2_message kec env sender_addr buf False)"

definition insert_retryable_tx_message ::
    "hash_fn \<Rightarrow> runtime_env \<Rightarrow> uint256 \<Rightarrow> uint256 \<Rightarrow> uint256 \<Rightarrow> uint256 \<Rightarrow> uint256 \<Rightarrow> uint256 \<Rightarrow> uint256
     \<Rightarrow> uint256 \<Rightarrow> uint256 \<Rightarrow> byte list \<Rightarrow> ((uint256 \<times> uint256 \<times> uint256 option) \<times> runtime_env) option" where
  "insert_retryable_tx_message kec env sender destination callvalue deposit max_submission_cost
       credit_back_address beneficiary max_gas_immed gas_price_immed calldata = do {
     let msg = concat (map uint256_to_bytes_be
       [destination, callvalue, deposit, max_submission_cost, credit_back_address, beneficiary,
        max_gas_immed, gas_price_immed, uint256_from_usize (length calldata)]) @ calldata;
     (submit_req_id, env1) \<leftarrow> insert_l1_message kec env 9 sender msg None None;
     let buf = uint256_to_bytes_be submit_req_id @ replicate 32 0;
     let buf2 = uint256_to_bytes_be submit_req_id @ uint256_to_bytes_be uint256_one;
     Some ((submit_req_id, uint256_from_bytes (kec buf),
            if max_gas_immed \<noteq> uint256_zero then Some (uint256_from_bytes (kec buf2)) else None), env1)
   }"

definition insert_batch_message :: "hash_fn \<Rightarrow> runtime_env \<Rightarrow> uint256 \<Rightarrow> byte list \<Rightarrow> runtime_env option" where
  "insert_batch_message kec env sender_addr batch =
     map_option snd (insert_l2_message kec env sender_addr batch False)"

definition insert_nonmutating_call_message ::
    "hash_fn \<Rightarrow> runtime_env \<Rightarrow> uint256 \<Rightarrow> uint256 \<Rightarrow> uint256 \<Rightarrow> byte list \<Rightarrow> runtime_env option" where
  "insert_nonmutating_call_message kec env sender_addr to_addr max_gas data =
     map_option snd (insert_l2_message kec env sender_addr
       ([2] @ uint256_to_bytes_be max_gas @ uint256_to_bytes_be uint256_zero
        @ uint256_to_bytes_be to_addr @ data) False)"

definition insert_eth_deposit_message ::
    "hash_fn \<Rightarrow> runtime_env \<Rightarrow> uint256 \<Rightarrow> uint256 \<Rightarrow> uint256 \<Rightarrow> runtime_env option" where
  "insert_eth_deposit_message kec env sender_addr payee amount =
     map_option snd (insert_tx_message_from_contract kec env sender_addr (uint256_from_u64 100000000)
       None payee amount [] True)"

definition advance_time ::
    "hash_fn \<Rightarrow> runtime_env \<Rightarrow> uint256 \<Rightarrow> uint256 option \<Rightarrow> bool \<Rightarrow> runtime_env option" where
  "advance_time kec env delta_blocks delta_timestamp send_heartbeat_message =
     (let env1 = env\<lparr>current_block_num := uint256_add (current_block_num env) delta_blocks,
                     current_timestamp := uint256_add (current_timestamp env)
                       (unwrap_or delta_timestamp (uint256_mul (uint256_from_u64 13) delta_blocks))\<rparr>
      in if send_heartbeat_message then map_option snd (insert_l2_message kec env1 uint256_zero [6] False)
         else Some env1)"

definition new_batch :: "byte list" where
  "new_batch = [3]"

definition new_sequencer_batch :: "runtime_env \<Rightarrow> (uint256 \<times> uint256) option \<Rightarrow> byte list option" where
  "new_sequencer_batch env delay = do {
     let (delay_blocks, delay_seconds) = unwrap_or delay (uint256_one, uint256_one);
     (release_block_num, release_timestamp) \<leftarrow>
       (if current_block_num env \<le> delay_blocks \<or> current_timestamp env \<le> delay_seconds
        then Some (uint256_zero, uint256_zero)
        else do {
          b \<leftarrow> uint256_sub (current_block_num env) delay_blocks;
          t \<leftarrow> uint256_sub (current_timestamp env) delay_seconds;
          Some (b, t)
        });
     let low_order_bnum = uint256_trim_to_u64 release_block_num mod 0x10000;
     let low_order_ts = uint256_trim_to_u64 release_timestamp mod 0x1000000;
     Some [5, word_of_nat (low_order_bnum div 256), word_of_nat (low_order_bnum mod 256),
           word_of_nat (low_order_ts div 65536), word_of_nat (low_order_ts div 256 mod 256),
           word_of_nat (low_order_ts mod 256)]
   }"

definition insert_bls_batch ::
    "hash_fn \<Rightarrow> (byte list \<Rightarrow> byte list) \<Rightarrow> runtime_env \<Rightarrow> uint256 list \<Rightarrow> byte list list \<Rightarrow> byte list
     \<Rightarrow> uint256 \<Rightarrow> runtime_env option" where
  "insert_bls_batch kec rlp_encode env senders msgs aggregated_sig batch_sender =
     (if length senders \<noteq> length msgs \<or> length aggregated_sig \<noteq> 64 then None
      else map_option snd (insert_l2_message kec env batch_sender
             ([8] @ uint256_rlp_encode rlp_encode (uint256_from_usize (length senders))
              @ aggregated_sig @ concat msgs) False))"

text \<open>A transaction request as the signing library takes it.\<close>

record tx_request =
  tx_from :: "byte list"
  tx_to :: "byte list"
  tx_gas :: uint256
  tx_gas_price :: uint256
  tx_value :: uint256
  tx_data :: "byte list"
  tx_nonce :: uint256

text \<open>A signed transaction: the signature \<open>r\<close>, \<open>s\<close>, \<open>v\<close> and its RLP form.  \<open>address\<close> and \<open>sign\<close>
  are the wallet.\<close>

record signed_tx =
  sig_r :: uint256
  sig_s :: uint256
  sig_v :: u64
  signed_rlp :: "byte list"

definition make_compressed_and_signed_l2_message ::
    "hash_fn \<Rightarrow> (byte list \<Rightarrow> byte list) \<Rightarrow> (tx_request \<Rightarrow> signed_tx) \<Rightarrow> byte list \<Rightarrow> runtime_env
     \<Rightarrow> uint256 option \<Rightarrow> uint256 \<Rightarrow> uint256 \<Rightarrow> uint256 \<Rightarrow> byte list
     \<Rightarrow> ((byte list \<times> byte list) \<times> runtime_env) option" where
  "make_compressed_and_signed_l2_message kec rlp_encode sign address env gas_price gas_limit to_addr value calldata = do {
     let sender = uint256_from_bytes address;
     let (seq_num, env1) = get_and_incr_seq_num env sender;
     let price = unwrap_or gas_price (get_gas_price env1);
     let (to_bytes, c1) = compress_address rlp_encode (compressor env1) to_addr;
     let result = [7, 0xff] @ uint256_rlp_encode rlp_encode seq_num @ uint256_rlp_encode rlp_encode price
       @ uint256_rlp_encode rlp_encode gas_limit @ to_bytes
       @ compress_token_amount rlp_encode c1 value @ calldata;
     from_h160 \<leftarrow> uint256_to_h160 sender;
     to_h160 \<leftarrow> uint256_to_h160 to_addr;
     let tx = sign \<lparr>tx_from = from_h160, tx_to = to_h160, tx_gas = gas_limit, tx_gas_price = price,
                    tx_value = value, tx_data = calldata, tx_nonce = seq_num\<rparr>;
     Some ((result @ uint256_to_bytes_be (sig_r tx) @ uint256_to_bytes_be (sig_s tx) @ [word_of_nat (sig_v tx mod 2)],
            kec (signed_rlp tx)),
           env1\<lparr>compressor := c1\<rparr>)
   }"

definition append_compressed_and_signed_tx_message_to_batch ::
    "hash_fn \<Rightarrow> (byte list \<Rightarrow> byte list) \<Rightarrow> (tx_request \<Rightarrow> signed_tx) \<Rightarrow> byte list \<Rightarrow> runtime_env \<Rightarrow> byte list
     \<Rightarrow> uint256 \<Rightarrow> uint256 option \<Rightarrow> uint256 \<Rightarrow> uint256 \<Rightarrow> byte list
     \<Rightarrow> (byte list \<times> byte list \<times> runtime_env) option" where
  "append_compressed_and_signed_tx_message_to_batch kec rlp_encode sign address env batch
       max_gas gas_price_bid to_addr value calldata = do {
     ((msg, tx_id_bytes), env1) \<leftarrow>
       make_compressed_and_signed_l2_message kec rlp_encode sign address env gas_price_bid max_gas
         to_addr value calldata;
     let rlp_encoded_len = uint256_rlp_encode rlp_encode (uint256_from_u64 (length msg));
     Some (tx_id_bytes, batch @ rlp_encoded_len @ msg, env1)
   }"

definition make_compressed_tx_for_bls ::
    "(byte list \<Rightarrow> byte list) \<Rightarrow> (tx_request \<Rightarrow> u64 \<Rightarrow> byte list) \<Rightarrow> runtime_env \<Rightarrow> uint256
     \<Rightarrow> uint256 option \<Rightarrow> uint256 \<Rightarrow> uint256 \<Rightarrow> uint256 \<Rightarrow> byte list
     \<Rightarrow> ((byte list \<times> byte list) \<times> runtime_env) option" where
  "make_compressed_tx_for_bls rlp_encode sighash env sender gas_price gas_limit to_addr value calldata = do {
     let (sender_bytes, c1) = compress_address rlp_encode (compressor env) sender;
     let price = unwrap_or gas_price (get_gas_price env);
     let (seq_num, env1) = get_and_incr_seq_num (env\<lparr>compressor := c1\<rparr>) sender;
     let (to_bytes, c2) = compress_address rlp_encode (compressor env1) to_addr;
     let buf = [0xff] @ uint256_rlp_encode rlp_encode seq_num @ uint256_rlp_encode rlp_encode price
       @ uint256_rlp_encode rlp_encode gas_limit @ to_bytes
       @ compress_token_amount rlp_encode c2 value @ calldata;
     from_h160 \<leftarrow> uint256_to_h160 sender;
     to_h160 \<leftarrow> uint256_to_h160 to_addr;
     let tx = \<lparr>tx_from = from_h160, tx_to = to_h160, tx_gas = gas_limit, tx_gas_price = price,
               tx_value = value, tx_data = calldata, tx_nonce = seq_num\<rparr>;
     Some ((sender_bytes @ uint256_rlp_encode rlp_encode (uint256_from_usize (length buf)) @ buf,
            sighash tx (chain_id env1)),
           env1\<lparr>compressor := c2\<rparr>)
   }"

definition get_from_inbox :: "runtime_env \<Rightarrow> val option \<times> runtime_env" where
  "get_from_inbox env =
     (case l1_inbox env of
        [] \<Rightarrow> (None, env)
      | msg # rest \<Rightarrow> (Some msg, env\<lparr>l1_inbox := rest\<rparr>))"

definition peek_at_inbox_head :: "runtime_env \<Rightarrow> val option" where
  "peek_at_inbox_head env = (case l1_inbox env of [] \<Rightarrow> None | msg # _ \<Rightarrow> Some msg)"

definition push_log :: "runtime_env \<Rightarrow> val \<Rightarrow> runtime_env" where
  "push_log env log_item =
     env\<lparr>logs := logs env @ [log_item], recorder := recorder_add_log (recorder env) log_item\<rparr>"

definition push_send :: "runtime_env \<Rightarrow> uint256 \<Rightarrow> buffer \<Rightarrow> runtime_env option" where
  "push_send env sz buf = do {
     n \<leftarrow> uint256_to_usize sz;
     contents \<leftarrow> buffer_as_bytes buf n;
     Some (env\<lparr>sends := sends env @ [contents], recorder := recorder_add_send (recorder env) contents\<rparr>)
   }"

text \<open>The contents of a send that the operating system logged; the outer \<open>None\<close> is a panic.\<close>

definition get_send_contents :: "val \<Rightarrow> byte list option option" where
  "get_send_contents log =
     (case log of
        TupleV tup \<Rightarrow>
          (case get_at tup 0 of
             None \<Rightarrow> None
           | Some (IntV kind) \<Rightarrow>
               if kind = uint256_from_u64 2
               then (case get_at tup 3 of
                       Some (IntV usz) \<Rightarrow>
                         (case uint256_to_usize usz of
                            None \<Rightarrow> None
                          | Some sz \<Rightarrow>
                              (case get_at tup 4 of
                                 Some (BufferV buf) \<Rightarrow> map_option Some (buffer_as_bytes buf sz)
                               | _ \<Rightarrow> None))
                     | _ \<Rightarrow> None)
               else Some None
           | Some _ \<Rightarrow> Some None)
      | _ \<Rightarrow> Some None)"

definition get_all_sends :: "runtime_env \<Rightarrow> byte list list option" where
  "get_all_sends env = map_option (\<lambda>rs. map the (filter (\<lambda>r. r \<noteq> None) rs)) (collect_opt get_send_contents (logs env))"

definition get_last_send :: "runtime_env \<Rightarrow> byte list option option" where
  "get_last_send env =
     map_option (\<lambda>s. if length s = 0 then None else get_at s 0) (get_all_sends env)"

subsection \<open>Log items compared on replay\<close>

definition zero_item_in_tuple :: "val \<Rightarrow> usize \<Rightarrow> val option" where
  "zero_item_in_tuple in_val index =
     (case in_val of
        TupleV tup \<Rightarrow> Some (value_new_tuple
          (map (\<lambda>(i, v). if i = index then IntV uint256_zero else v) (List.enumerate 0 tup)))
      | _ \<Rightarrow> None)"

definition strip_var_from_log :: "val \<Rightarrow> val option option" where
  "strip_var_from_log log =
     (case log of
        TupleV tup \<Rightarrow>
          (case get_at tup 0 of
             Some (IntV item_type) \<Rightarrow>
               if item_type = uint256_zero
               then do {
                 t1 \<leftarrow> get_at tup 1; t2 \<leftarrow> get_at tup 2; t3 \<leftarrow> get_at tup 3; t5 \<leftarrow> get_at tup 5;
                 z \<leftarrow> zero_item_in_tuple t5 0;
                 Some (Some (value_new_tuple [IntV item_type, t1, t2, t3, z]))
               }
               else if item_type = uint256_one
               then do {
                 t1 \<leftarrow> get_at tup 1; t2 \<leftarrow> get_at tup 2; t3 \<leftarrow> get_at tup 3; t6 \<leftarrow> get_at tup 6;
                 Some (Some (value_new_tuple [IntV item_type, t1, t2, t3, t6]))
               }
               else if item_type = uint256_from_u64 2 then Some (Some log)
               else if item_type = uint256_from_u64 3 then Some None
               else None
           | _ \<Rightarrow> None)
      | _ \<Rightarrow> None)"

section \<open>Byte stacks\<close>

lemma low_bytes_append: "low_bytes n v arr = low_bytes n v [] @ arr"
proof (induction n arbitrary: v arr)
  case (Suc n)
  show ?case using Suc [of "v div 256" "word_of_nat (v mod 256) # arr"] Suc [of "v div 256" "[word_of_nat (v mod 256)]"]
    by simp
qed simp

lemma length_low_bytes [simp]: "length (low_bytes n v arr) = n + length arr"
  by (induction n arbitrary: v arr) auto

lemma be_value_low_bytes: "be_value (low_bytes n v []) = v mod 256 ^ n"
proof (induction n arbitrary: v)
  case (Suc n)
  have "be_value (low_bytes (Suc n) v []) = be_value (low_bytes n (v div 256) [] @ [word_of_nat (v mod 256)])"
    using low_bytes_append [of n "v div 256" "[word_of_nat (v mod 256)]"] by simp
  also have "\<dots> = (v div 256 mod 256 ^ n) * 256 + v mod 256"
    by (simp add: be_value_snoc Suc unat_of_nat)
  also have "\<dots> = v mod 256 ^ Suc n"
    using mod_mult2_eq [of v 256 "256 ^ n"] by (simp add: mult.commute)
  finally show ?case .
qed simp

lemma drop_bytes_eq: "drop_bytes n v = v div 256 ^ n"
  by (induction n arbitrary: v) (simp_all add: div_mult2_eq)

lemma low_bytes_be_value: "length b = n \<Longrightarrow> low_bytes n (be_value b) [] = b"
  using be_value_less [of b] by (intro be_value_inj) (auto simp: be_value_low_bytes)

text \<open>The bytes of a cell, padded on the right with zeros.\<close>

abbreviation pad32 :: "byte list \<Rightarrow> byte list" where
  "pad32 b \<equiv> b @ replicate (32 - length b) 0"

lemma bytestack_build_uint_eq:
  assumes "length b \<le> 32"
  shows "bytestack_build_uint b = IntV (be_value (pad32 b))"
proof -
  let ?f = "\<lambda>ui j. if j < length b
      then uint256_add (uint256_mul ui (uint256_from_usize 256)) (uint256_from_usize (unat (b ! j)))
      else uint256_mul ui (uint256_from_usize 256)"
  have "foldl ?f uint256_zero [0..<n] = be_value (take n (pad32 b))" if "n \<le> 32" for n
    using that
  proof (induction n)
    case (Suc n)
    have tk: "take (Suc n) (pad32 b) = take n (pad32 b) @ [pad32 b ! n]"
      using Suc.prems assms by (intro take_Suc_conv_app_nth) auto
    have "length (take (Suc n) (pad32 b)) = Suc n" using Suc.prems assms by simp
    then have "be_value (take (Suc n) (pad32 b)) < 256 ^ Suc n"
      using be_value_less [of "take (Suc n) (pad32 b)"] by (simp only:)
    also have "\<dots> \<le> 256 ^ 32" using Suc.prems by (intro power_increasing) auto
    finally have lt: "be_value (take n (pad32 b)) * 256 + unat (pad32 b ! n) < u256_modulus"
      unfolding tk be_value_snoc by (simp add: u256_modulus_def)
    have "foldl ?f uint256_zero [0..<Suc n] = ?f (be_value (take n (pad32 b))) n"
      using Suc by simp
    also have "\<dots> = be_value (take n (pad32 b)) * 256 + unat (pad32 b ! n)"
      using lt Suc.prems
      by (cases "n < length b") (auto simp: uint256_add_eq uint256_mul_eq uint256_from_usize_def nth_append)
    finally show ?case unfolding tk be_value_snoc .
  qed (simp add: uint256_zero_def)
  from this [of 32] assms show ?thesis by (simp add: bytestack_build_uint_def)
qed

lemma read_cell:
  assumes "length b \<le> 32" "b \<noteq> [] \<or> p = []" "length p mod 32 = 0"
    and "bytes_from_bytestack_2 s (length p) = Some (Some p)"
  shows "bytes_from_bytestack_2 (TupleV [IntV (be_value (pad32 b)), s]) (length p + length b) = Some (Some (p @ b))"
proof (cases "length b = 32")
  case True
  with assms show ?thesis
    by (simp add: bytes_from_bytestack_2.simps [of "TupleV _"] low_bytes_be_value mod_add_eq [symmetric])
next
  case False
  with assms have lt: "length b < 32" by simp
  obtain q where q: "length p = 32 * q" using assms(3) by auto
  have m: "(length p + length b) mod 32 = length b" "32 * ((length p + length b) div 32) = length p"
    using lt by (simp_all add: q)
  have "be_value (pad32 b) div 256 ^ (32 - length b) = be_value b"
    by (simp add: be_value_append)
  then have "low_bytes (length b) (drop_bytes (32 - length b) (be_value (pad32 b))) [] = b"
    by (simp add: drop_bytes_eq low_bytes_be_value)
  with m assms(2,4) show ?thesis
    by (auto simp: bytes_from_bytestack_2.simps [of "TupleV _"] Let_def)
qed

lemma bytestack_2_roundtrip:
  "b \<noteq> [] \<or> p = [] \<Longrightarrow> length p mod 32 = 0 \<Longrightarrow> bytes_from_bytestack_2 s (length p) = Some (Some p) \<Longrightarrow>
   bytes_from_bytestack_2 (bytestack_from_bytes_2 b s) (length p + length b) = Some (Some (p @ b))"
proof (induction b s arbitrary: p rule: bytestack_from_bytes_2.induct)
  case (1 b s)
  show ?case
  proof (cases "32 < length b")
    case True
    let ?t = "take 32 b"
    have "bytes_from_bytestack_2 (TupleV [IntV (be_value (pad32 ?t)), s]) (length p + length ?t) = Some (Some (p @ ?t))"
      using 1 True by (intro read_cell) auto
    then have "bytes_from_bytestack_2 (bytestack_from_bytes_2 (drop 32 b) (value_new_tuple [bytestack_build_uint ?t, s]))
        (length (p @ ?t) + length (drop 32 b)) = Some (Some ((p @ ?t) @ drop 32 b))"
      using True 1(3) by (intro 1(1)) (auto simp: bytestack_build_uint_eq value_new_tuple_def)
    with True show ?thesis by (simp add: bytestack_from_bytes_2.simps [of b s])
  next
    case False
    with read_cell [of b p s] 1 show ?thesis
      by (simp add: bytestack_from_bytes_2.simps [of b s] bytestack_build_uint_eq value_new_tuple_def)
  qed
qed

text \<open>
  Byte stacks round trip: packing a byte string into cells of 32 bytes and unpacking it gives the
  byte string back; neither direction panics.
\<close>

theorem bytestack_roundtrip:
  assumes "length b < usize_limit"
  shows "bytes_from_bytestack (bytestack_from_bytes b) = Some (Some b)"
proof -
  have "bytes_from_bytestack_2 (bytestack_from_bytes_2 b value_none) (length b) = Some (Some b)"
    using bytestack_2_roundtrip [of b "[]" value_none] by (simp add: bytes_from_bytestack_2.simps [of value_none])
  then show ?thesis
    using assms by (simp add: bytes_from_bytestack_def bytestack_from_bytes_def value_new_tuple_def
        get_at_def uint256_from_usize_def uint256_to_usize_def)
qed

theorem bytestack_roundtrip_witness:
  "bytes_from_bytestack (bytestack_from_bytes (replicate 40 7)) = Some (Some (replicate 40 7))"
  by (rule bytestack_roundtrip) (simp add: usize_limit_def)

section \<open>Compression\<close>

lemma strip_zeroes_spec:
  "amt \<noteq> 0 \<Longrightarrow> strip_zeroes amt k = (m, z) \<Longrightarrow>
   k \<le> z \<and> amt = m * 10 ^ (z - k) \<and> m mod 10 \<noteq> 0"
proof (induction amt k rule: strip_zeroes.induct)
  case (1 amt k)
  show ?case
  proof (cases "amt mod 10 = 0")
    case True
    with 1 have *: "1 + k \<le> z \<and> amt div 10 = m * 10 ^ (z - (1 + k)) \<and> m mod 10 \<noteq> 0"
      by (intro 1(1)) (auto simp: strip_zeroes.simps [of amt k])
    have "amt = 10 * (amt div 10)" using True by auto
    also have "\<dots> = m * 10 ^ (Suc (z - (1 + k)))" using * by simp
    also have "Suc (z - (1 + k)) = z - k" using * by linarith
    finally show ?thesis using * by simp
  next
    case False
    with 1(2,3) show ?thesis by (simp add: strip_zeroes.simps [of amt k])
  qed
qed

text \<open>
  The compressed form of a token amount is exact: it is the RLP form of a mantissa not divisible by
  ten followed by one byte, and the amount is the mantissa times ten to that byte.  The count of
  stripped zeros always fits into the byte.
\<close>

theorem token_amount_compression_exact:
  assumes "u256_ok amt" "amt \<noteq> 0"
  shows "\<exists>m z. generic_compress_token_amount rlp amt = uint256_rlp_encode rlp m @ [z]
     \<and> amt = m * 10 ^ unat z \<and> m mod 10 \<noteq> 0"
proof -
  obtain m z where sz: "strip_zeroes amt 0 = (m, z)" by fastforce
  with strip_zeroes_spec [OF assms(2) this] have e: "amt = m * 10 ^ z" "m mod 10 \<noteq> 0" by auto
  have "z < 78"
  proof (rule ccontr)
    assume "\<not> z < 78"
    then have "(10::nat) ^ 78 \<le> 10 ^ z" by (intro power_increasing) auto
    also have "\<dots> \<le> amt" using e assms(2) by simp
    finally show False using assms(1) by (simp add: u256_ok_def u256_modulus_def)
  qed
  then have "unat (word_of_nat z :: byte) = z" by (simp add: unat_of_nat)
  with e sz assms(2) show ?thesis
    by (intro exI [of _ m] exI [of _ "word_of_nat z"])
       (simp add: generic_compress_token_amount_def uint256_is_zero_def)
qed

theorem token_amount_compression_exact_witness:
  "\<exists>m z. generic_compress_token_amount id 2500 = uint256_rlp_encode id m @ [z]
     \<and> 2500 = m * 10 ^ unat z \<and> m mod 10 \<noteq> 0"
  by (rule token_amount_compression_exact) (simp_all add: u256_ok_def u256_modulus_def)

subsection \<open>Addresses\<close>

text \<open>The receiving side: a full address is entered into the table, anything else is looked up.\<close>

definition decompress_address :: "(byte list \<rightharpoonup> uint256) \<Rightarrow> byte list \<Rightarrow> uint256 option" where
  "decompress_address tab bs = (if hd bs = 148 then Some (uint256_from_bytes (tl bs)) else tab bs)"

text \<open>What the compressor relies on of RLP: the form of an index is found out again, and does not
  look like a twenty-byte string.\<close>

definition rlp_index_ok :: "(byte list \<Rightarrow> byte list) \<Rightarrow> bool" where
  "rlp_index_ok rlp \<longleftrightarrow>
     (\<forall>i < usize_limit. \<forall>j < usize_limit. i \<noteq> j \<longrightarrow> uint256_rlp_encode rlp i \<noteq> uint256_rlp_encode rlp j)
     \<and> (\<forall>i < usize_limit. hd (uint256_rlp_encode rlp i) \<noteq> 148)"

lemma rlp_index_inj:
  "rlp_index_ok rlp \<Longrightarrow> i < usize_limit \<Longrightarrow> j < usize_limit \<Longrightarrow>
   uint256_rlp_encode rlp i = uint256_rlp_encode rlp j \<longleftrightarrow> i = j"
  unfolding rlp_index_ok_def by blast

text \<open>The compressor has seen exactly the given addresses, in this order.\<close>

definition compressor_for :: "(byte list \<Rightarrow> byte list) \<Rightarrow> uint256 list \<Rightarrow> tx_compressor \<Rightarrow> bool" where
  "compressor_for rlp seen c \<longleftrightarrow>
     distinct seen \<and> next_index c = 1 + length seen
     \<and> (\<forall>a. address_map c (uint256_to_bytes_be a) =
           (case find (\<lambda>i. seen ! i = a) [0..<length seen] of
              None \<Rightarrow> None | Some i \<Rightarrow> Some (uint256_rlp_encode rlp (1 + i))))"

definition receiver_table :: "(byte list \<Rightarrow> byte list) \<Rightarrow> uint256 list \<Rightarrow> byte list \<rightharpoonup> uint256" where
  "receiver_table rlp seen bs =
     map_option (nth seen) (find (\<lambda>i. uint256_rlp_encode rlp (1 + i) = bs) [0..<length seen])"

lemma find_nth_eq:
  assumes "\<forall>i < n. \<forall>j < n. P i \<longrightarrow> P j \<longrightarrow> i = j" "k < n" "P k"
  shows "find P [0..<n] = Some k"
proof -
  have "\<not> P j" if "j < k" for j
    using assms(1) [rule_format, of j k] assms(2,3) that by auto
  with assms(2,3) show ?thesis unfolding find_Some_iff by (intro exI [of _ k]) simp
qed

lemma find_seen_None: "find (\<lambda>i. seen ! i = a) [0..<length seen] = None \<longleftrightarrow> a \<notin> set seen"
  by (auto simp: find_None_iff in_set_conv_nth)

lemma find_seen_Some:
  "distinct seen \<Longrightarrow> find (\<lambda>i. seen ! i = a) [0..<length seen] = Some i \<longleftrightarrow> i < length seen \<and> seen ! i = a"
proof
  assume "distinct seen" "i < length seen \<and> seen ! i = a"
  then show "find (\<lambda>i. seen ! i = a) [0..<length seen] = Some i"
    by (intro find_nth_eq) (auto simp: nth_eq_iff_index_eq)
qed (auto simp: find_Some_iff)

lemma compressor_new_for: "compressor_for rlp [] compressor_new"
  by (simp add: compressor_for_def compressor_new_def)

lemma address_tail:
  assumes "a < 256 ^ 20"
  shows "uint256_from_bytes (drop 12 (take 32 (uint256_to_bytes_be a))) = a"
proof -
  have ok: "u256_ok a" using assms by (simp add: u256_ok_def u256_modulus_def)
  let ?b = "uint256_to_bytes_be a"
  have "be_value (take 12 ?b @ drop 12 ?b) = be_value (take 12 ?b) * 256 ^ 20 + be_value (drop 12 ?b)"
    using ok by (subst be_value_append) simp
  moreover have "be_value (take 12 ?b @ drop 12 ?b) = a"
    using from_bytes_to_bytes_be [of a] by (simp add: uint256_from_bytes_def)
  ultimately have e: "be_value (take 12 ?b) * 256 ^ 20 + be_value (drop 12 ?b) = a" by simp
  then have "be_value (take 12 ?b) = 0" using assms by (cases "be_value (take 12 ?b)") auto
  with e have "be_value (drop 12 ?b) = a" by simp
  then show ?thesis using ok by (simp add: uint256_from_bytes_def)
qed

text \<open>
  Address compression is decodable: a receiver that has seen the same addresses decodes what the
  compressor sends for a twenty-byte address, first occurrence or repetition, to that address, and
  the compressor then has seen the address too.
\<close>

theorem address_compression_decodable:
  assumes "rlp_index_ok rlp" "compressor_for rlp seen c" "length seen + 1 < usize_limit" "a < 256 ^ 20"
  shows "decompress_address (receiver_table rlp seen) (fst (compress_address rlp c a)) = Some a
       \<and> compressor_for rlp (if a \<in> set seen then seen else seen @ [a]) (snd (compress_address rlp c a))"
proof (cases "a \<in> set seen")
  case True
  have d: "distinct seen" using assms(2) by (simp add: compressor_for_def)
  from True obtain i where i: "i < length seen" "seen ! i = a" by (auto simp: in_set_conv_nth)
  then have "address_map c (uint256_to_bytes_be a) = Some (uint256_rlp_encode rlp (1 + i))"
    using assms(2) find_seen_Some [OF d, of a i] by (simp add: compressor_for_def)
  then have ca: "compress_address rlp c a = (uint256_rlp_encode rlp (1 + i), c)"
    by (simp add: compress_address_def)
  have inj: "uint256_rlp_encode rlp (1 + j) = uint256_rlp_encode rlp (1 + i) \<longleftrightarrow> j = i" if "j < length seen" for j
    using rlp_index_inj [OF assms(1), of "1 + j" "1 + i"] assms(3) i that by auto
  have "find (\<lambda>j. uint256_rlp_encode rlp (1 + j) = uint256_rlp_encode rlp (1 + i)) [0..<length seen] = Some i"
    using i inj by (intro find_nth_eq) auto
  moreover have "hd (uint256_rlp_encode rlp (1 + i)) \<noteq> 148"
    using assms(1,3) i unfolding rlp_index_ok_def by auto
  ultimately show ?thesis
    using True assms(2) i by (simp add: ca decompress_address_def receiver_table_def)
next
  case False
  then have no: "address_map c (uint256_to_bytes_be a) = None"
    using assms(2) find_seen_None [of seen a] by (simp add: compressor_for_def)
  have d: "distinct (seen @ [a])" "distinct seen" using assms(2) False by (auto simp: compressor_for_def)
  have old: "find (\<lambda>i. (seen @ [a]) ! i = x) [0..<length seen] = find (\<lambda>i. seen ! i = x) [0..<length seen]" for x
    by (intro find_cong) (auto simp: nth_append)
  have "find (\<lambda>i. (seen @ [a]) ! i = x) [0..<Suc (length seen)] =
      (case find (\<lambda>i. seen ! i = x) [0..<length seen] of Some i \<Rightarrow> Some i
       | None \<Rightarrow> if a = x then Some (length seen) else None)" for x
    by (simp add: find_append old split: option.split)
  moreover have "find (\<lambda>i. seen ! i = a) [0..<length seen] = None" using False by (simp add: find_seen_None)
  ultimately have "compressor_for rlp (seen @ [a]) (snd (compress_address rlp c a))"
    using d no assms(2) by (simp add: compressor_for_def compress_address_def Let_def to_bytes_be_inj
        uint256_from_u64_def split: option.split)
  with False no assms(4) show ?thesis
    by (simp add: compress_address_def Let_def decompress_address_def address_tail)
qed

lemma rlp_index_ok_example: "rlp_index_ok (\<lambda>bs. 0 # bs)"
proof -
  have "uint256_to_bytes_minimal i = uint256_to_bytes_minimal j \<Longrightarrow> i = j" for i j
    by (metis from_bytes_minimal)
  then show ?thesis
    by (auto simp: rlp_index_ok_def uint256_rlp_encode_def uint256_is_zero_def)
qed

theorem address_compression_decodable_witness:
  "decompress_address (receiver_table (\<lambda>bs. 0 # bs) []) (fst (compress_address (\<lambda>bs. 0 # bs) compressor_new 5)) = Some 5"
  using address_compression_decodable [OF rlp_index_ok_example compressor_new_for, of 5]
  by (simp add: usize_limit_def)

section \<open>The inbox as a queue\<close>

text \<open>What the machine may assume of the source of its messages.\<close>

locale message_queue =
  fixes pending :: "'s \<Rightarrow> 'm list"
    and take_msg :: "'s \<Rightarrow> 'm option \<times> 's"
    and peek_msg :: "'s \<Rightarrow> 'm option"
  assumes take_empty: "pending s = [] \<Longrightarrow> take_msg s = (None, s)"
    and take_first: "pending s = m # ms \<Longrightarrow> fst (take_msg s) = Some m \<and> pending (snd (take_msg s)) = ms"
    and peek_first: "peek_msg s = (case pending s of [] \<Rightarrow> None | m # _ \<Rightarrow> Some m)"
begin

lemma peek_is_take: "peek_msg s = fst (take_msg s)"
  using take_empty [of s] take_first [of s] by (cases "pending s") (auto simp: peek_first)

fun drain :: "nat \<Rightarrow> 's \<Rightarrow> 'm list \<times> 's" where
  "drain 0 s = ([], s)"
| "drain (Suc n) s =
     (case take_msg s of
        (None, s1) \<Rightarrow> ([], s1)
      | (Some m, s1) \<Rightarrow> (let (ms, s2) = drain n s1 in (m # ms, s2)))"

lemma drain_pending:
  "fst (drain n s) = take n (pending s) \<and> pending (snd (drain n s)) = drop n (pending s)"
proof (induction n arbitrary: s)
  case (Suc n)
  show ?case
  proof (cases "pending s")
    case Nil
    then show ?thesis by (simp add: take_empty)
  next
    case (Cons m ms)
    then obtain s1 where "take_msg s = (Some m, s1)" "pending s1 = ms"
      using take_first [of s m ms] by (cases "take_msg s") auto
    with Cons Suc [of s1] show ?thesis by (simp add: split_def Let_def)
  qed
qed simp

end

interpretation inbox: message_queue l1_inbox get_from_inbox peek_at_inbox_head
  by unfold_locales (auto simp: get_from_inbox_def peek_at_inbox_head_def)

section \<open>Messages\<close>

text \<open>The message \<open>insert_l1_message\<close> builds.\<close>

definition l1_message :: "runtime_env \<Rightarrow> nat \<Rightarrow> uint256 \<Rightarrow> byte list \<Rightarrow> uint256 option \<Rightarrow> uint256 option \<Rightarrow> buffer \<Rightarrow> val" where
  "l1_message env ty sender msg bn ts b =
     TupleV [IntV ty, IntV (unwrap_or bn (current_block_num env)), IntV (unwrap_or ts (current_timestamp env)),
       IntV sender, IntV (next_inbox_seq_num env), IntV (get_gas_price env), IntV (length msg), BufferV b]"

lemma insert_l1_message_eq:
  "\<exists>b. buffer_ok kec b \<and> buffer_bytes b = msg \<and>
     insert_l1_message kec env ty sender msg bn ts =
       Some (uint256_avm_hash2 kec (chain_id env) (next_inbox_seq_num env),
             env\<lparr>next_inbox_seq_num := (next_inbox_seq_num env + 1) mod u256_modulus,
                 l1_inbox := l1_inbox env @ [l1_message env ty sender msg bn ts b],
                 recorder := recorder_add_msg (recorder env) (l1_message env ty sender msg bn ts b)\<rparr>)"
proof -
  obtain b where b: "buffer_from_bytes kec msg = Some b" "buffer_ok kec b" "buffer_bytes b = msg"
    using buf.load_contents by (auto simp: buffer_from_bytes_def)
  then show ?thesis
    by (intro exI [of _ b]) (simp add: insert_l1_message_def value_new_buffer_def value_new_tuple_def
        l1_message_def uint256_add_eq uint256_one_def uint256_from_usize_def uint256_from_u64_def Let_def)
qed

text \<open>
  Messages are delivered in the order they were inserted, with their contents: inserting a message
  never fails, and after the messages that were pending before, reading the inbox yields the new
  message, which carries its kind, sender, sequence number and length and a buffer that holds exactly
  its bytes; then the inbox is empty.  Peeking shows what reading would return.
\<close>

theorem inbox_delivers_in_order:
  "\<exists>mid env1 b. insert_l1_message kec env ty sender msg bn ts = Some (mid, env1)
     \<and> buffer_bytes b = msg \<and> buffer_ok kec b
     \<and> fst (inbox.drain (length (l1_inbox env) + 1) env1) =
         l1_inbox env @ [l1_message env ty sender msg bn ts b]
     \<and> l1_inbox (snd (inbox.drain (length (l1_inbox env) + 1) env1)) = []
     \<and> peek_at_inbox_head env1 = fst (get_from_inbox env1)"
  using insert_l1_message_eq [of kec msg env ty sender bn ts]
  by (auto simp: inbox.drain_pending inbox.peek_is_take simp del: inbox.drain.simps)

subsection \<open>Sequence numbers\<close>

fun take_seq_nums :: "nat \<Rightarrow> runtime_env \<Rightarrow> uint256 \<Rightarrow> uint256 list \<times> runtime_env" where
  "take_seq_nums 0 env a = ([], env)"
| "take_seq_nums (Suc n) env a =
     (let (k, env1) = get_and_incr_seq_num env a; (ks, env2) = take_seq_nums n env1 a in (k # ks, env2))"

definition seq_num :: "runtime_env \<Rightarrow> uint256 \<Rightarrow> uint256" where
  "seq_num env a = unwrap_or (caller_seq_nums env a) uint256_zero"

lemma get_and_incr_seq_num_spec:
  "fst (get_and_incr_seq_num env a) = seq_num env a"
  "seq_num (snd (get_and_incr_seq_num env a)) x =
     (if x = a then (seq_num env a + 1) mod u256_modulus else seq_num env x)"
  by (auto simp: get_and_incr_seq_num_def seq_num_def unwrap_or_def Let_def uint256_add_eq uint256_one_def
      split: option.splits)

lemma env_new_Some: "\<exists>env. env_new kec policy = Some env \<and> caller_seq_nums env = Map.empty"
  using insert_l1_message_eq
  unfolding env_new_def env_new_with_blocknum_timestamp_def send_chain_init_message_def Let_def
  by fastforce

text \<open>
  A caller's sequence numbers are consecutive (modulo \<open>2 ^ 256\<close>), whatever other callers do:
  taking a number for one address does not change the next number of any other.
\<close>

theorem seq_nums_consecutive:
  assumes "u256_ok (seq_num env a)"
  shows "fst (take_seq_nums n env a) = map (\<lambda>k. (seq_num env a + k) mod u256_modulus) [0..<n]
       \<and> (x \<noteq> a \<longrightarrow> seq_num (snd (take_seq_nums n env a)) x = seq_num env x)"
  using assms
proof (induction n arbitrary: env)
  case (Suc n)
  let ?e = "snd (get_and_incr_seq_num env a)"
  have ok: "u256_ok (seq_num ?e a)" by (simp add: get_and_incr_seq_num_spec u256_ok_def u256_modulus_def)
  have "map (\<lambda>k. (seq_num ?e a + k) mod u256_modulus) [0..<n] =
      map (\<lambda>k. (seq_num env a + k) mod u256_modulus) [Suc 0..<Suc n]"
    by (simp add: get_and_incr_seq_num_spec mod_add_left_eq map_Suc_upt [symmetric] del: map_Suc_upt upt_Suc)
  with Suc.IH [OF ok] Suc.prems show ?case
    by (simp add: split_def Let_def get_and_incr_seq_num_spec u256_ok_def upt_conv_Cons del: upt_Suc)
qed simp

theorem seq_nums_consecutive_witness:
  "\<exists>env. env_new id None = Some env \<and> fst (take_seq_nums 3 env 9) = [0, 1, 2]"
proof -
  obtain env where env: "env_new id None = Some env" "caller_seq_nums env = Map.empty"
    using env_new_Some by blast
  then have "seq_num env 9 = 0" by (simp add: seq_num_def unwrap_or_def uint256_zero_def)
  with env seq_nums_consecutive [of env 9 3 0] show ?thesis
    by (simp add: u256_ok_def u256_modulus_def upt_rec)
qed

section \<open>Reachable environments\<close>

text \<open>
  One step of the environment: a message arrives, the machine takes a message, logs or sends, a
  sequence number is taken, time passes, or the compressor changes.
\<close>

inductive env_step :: "hash_fn \<Rightarrow> runtime_env \<Rightarrow> runtime_env \<Rightarrow> bool" for kec where
  message: "insert_l1_message kec env ty sender msg bn ts = Some (mid, env') \<Longrightarrow> env_step kec env env'"
| taken: "get_from_inbox env = (m, env') \<Longrightarrow> env_step kec env env'"
| logged: "env_step kec env (push_log env v)"
| sent: "push_send env sz b = Some env' \<Longrightarrow> env_step kec env env'"
| nonce: "get_and_incr_seq_num env a = (n, env') \<Longrightarrow> env_step kec env env'"
| clock: "env_step kec env (env\<lparr>current_block_num := bn, current_timestamp := ts\<rparr>)"
| compress: "env_step kec env (env\<lparr>compressor := c\<rparr>)"

inductive env_reachable :: "hash_fn \<Rightarrow> runtime_env \<Rightarrow> bool" for kec where
  start: "env_new_with_blocknum_timestamp kec bn ts policy owner = Some env \<Longrightarrow> env_reachable kec env"
| step: "env_reachable kec env \<Longrightarrow> env_step kec env env' \<Longrightarrow> env_reachable kec env'"

text \<open>The sequence number a message carries.\<close>

definition msg_seq_num :: "val \<Rightarrow> uint256 option" where
  "msg_seq_num m = (case m of TupleV t \<Rightarrow> (case get_at t 4 of Some (IntV n) \<Rightarrow> Some n | _ \<Rightarrow> None) | _ \<Rightarrow> None)"

definition env_ok :: "runtime_env \<Rightarrow> bool" where
  "env_ok env \<longleftrightarrow>
     (let r = recorder env
      in rec_logs r = logs env \<and> rec_sends r = sends env
         \<and> drop (length (rec_inbox r) - length (l1_inbox env)) (rec_inbox r) = l1_inbox env
         \<and> next_inbox_seq_num env = length (rec_inbox r) mod u256_modulus
         \<and> map msg_seq_num (rec_inbox r) = map (\<lambda>i. Some (i mod u256_modulus)) [0..<length (rec_inbox r)])"

lemma env_ok_drop_len: "env_ok env \<Longrightarrow> length (l1_inbox env) \<le> length (rec_inbox (recorder env))"
  unfolding env_ok_def Let_def by (metis diff_le_self length_drop)

lemma env_ok_message:
  assumes "env_ok env" "insert_l1_message kec env ty sender msg bn ts = Some (mid, env')"
  shows "env_ok env'"
proof -
  obtain b where "env' = env\<lparr>next_inbox_seq_num := (next_inbox_seq_num env + 1) mod u256_modulus,
       l1_inbox := l1_inbox env @ [l1_message env ty sender msg bn ts b],
       recorder := recorder_add_msg (recorder env) (l1_message env ty sender msg bn ts b)\<rparr>"
    using insert_l1_message_eq [of kec msg env ty sender bn ts] assms(2) by auto
  moreover have "msg_seq_num (l1_message env ty sender msg bn ts b) = Some (next_inbox_seq_num env)"
    by (simp add: msg_seq_num_def l1_message_def get_at_def)
  ultimately show ?thesis
    using assms(1) env_ok_drop_len [OF assms(1)]
    by (simp add: env_ok_def Let_def recorder_add_msg_def mod_Suc_eq)
qed

lemma env_ok_taken:
  assumes "env_ok env"
  shows "env_ok (snd (get_from_inbox env))"
proof (cases "l1_inbox env")
  case Nil
  with assms show ?thesis by (simp add: get_from_inbox_def)
next
  case (Cons m ms)
  let ?r = "rec_inbox (recorder env)"
  have d: "drop (length ?r - Suc (length ms)) ?r = m # ms"
    using assms Cons by (simp add: env_ok_def Let_def)
  have "Suc (length ms) \<le> length ?r" using env_ok_drop_len [OF assms] Cons by simp
  then have "length ?r - length ms = Suc (length ?r - Suc (length ms))" by simp
  then have "drop (length ?r - length ms) ?r = tl (drop (length ?r - Suc (length ms)) ?r)"
    by (simp only: drop_Suc tl_drop)
  with d have "drop (length ?r - length ms) ?r = ms" by simp
  with assms Cons show ?thesis by (simp add: env_ok_def get_from_inbox_def Let_def)
qed

lemma env_ok_step: "env_step kec env env' \<Longrightarrow> env_ok env \<Longrightarrow> env_ok env'"
proof (induction rule: env_step.induct)
  case (message env ty sender msg bn ts mid env')
  then show ?case by (blast intro: env_ok_message)
next
  case (taken env m env')
  then show ?case using env_ok_taken [of env] by simp
qed (auto simp: env_ok_def Let_def push_log_def recorder_add_log_def push_send_def recorder_add_send_def
      get_and_incr_seq_num_def bind_eq_Some_conv)

lemma env_ok_start:
  assumes "env_new_with_blocknum_timestamp kec bn ts policy owner = Some env"
  shows "env_ok env"
proof -
  let ?e = "\<lparr>chain_id = 42161, l1_inbox = [], current_block_num = bn, current_timestamp = ts,
            logs = [], sends = [], next_inbox_seq_num = uint256_zero, caller_seq_nums = Map.empty,
            env_next_id = uint256_zero, recorder = recorder_new, compressor = compressor_new,
            charging_policy = policy, num_wallets = 0, chain_init_message = get_params_bytes kec owner 42161\<rparr>"
  have "env_ok ?e" by (simp add: env_ok_def recorder_new_def uint256_zero_def)
  with assms show ?thesis
    by (auto simp: env_new_with_blocknum_timestamp_def send_chain_init_message_def Let_def
        intro: env_ok_message)
qed



subsection \<open>Transactions\<close>

lemma insert_l2_message_eq:
  assumes "is_buddy \<or> msg \<noteq> []"
  shows "\<exists>mid b. buffer_ok kec b \<and> buffer_bytes b = msg \<and>
     insert_l2_message kec env sender msg is_buddy =
       Some (mid, env\<lparr>next_inbox_seq_num := (next_inbox_seq_num env + 1) mod u256_modulus,
          l1_inbox := l1_inbox env @ [l1_message env (if is_buddy then 5 else 3) sender msg None None b],
          recorder := recorder_add_msg (recorder env)
            (l1_message env (if is_buddy then 5 else 3) sender msg None None b)\<rparr>)"
  using insert_l1_message_eq [of kec msg env "if is_buddy then 5 else 3" sender None None] assms
  by (auto simp: insert_l2_message_def get_at_def)

text \<open>The byte string of a sequenced transaction and where its fields lie.\<close>

definition tx_message_bytes :: "uint256 \<Rightarrow> uint256 \<Rightarrow> uint256 \<Rightarrow> uint256 \<Rightarrow> uint256 \<Rightarrow> byte list \<Rightarrow> byte list" where
  "tx_message_bytes max_gas price nonce dest amount data =
     [0] @ uint256_to_bytes_be max_gas @ uint256_to_bytes_be price @ uint256_to_bytes_be nonce
     @ uint256_to_bytes_be dest @ uint256_to_bytes_be amount @ data"

definition tx_field :: "byte list \<Rightarrow> nat \<Rightarrow> uint256" where
  "tx_field bs k = uint256_from_bytes (take 32 (drop (1 + 32 * k) bs))"

text \<open>
  A transaction inserted without a deposit arrives as one message of kind 3 from its sender; the bytes
  of its buffer decode to the gas limit, gas price, the sender's next sequence number, the destination
  and the amount at their fixed places, followed by the data, and the sender's sequence number goes up.
\<close>

theorem insert_tx_message_layout:
  assumes "u256_ok max_gas" "u256_ok price" "u256_ok (seq_num env sender)" "u256_ok dest" "u256_ok amount"
  shows "\<exists>mid env1 m b. insert_tx_message kec env sender max_gas (Some price) dest amount data False = Some (mid, env1)
     \<and> l1_inbox env1 = l1_inbox env @ [TupleV m]
     \<and> m ! 0 = IntV 3 \<and> m ! 3 = IntV sender \<and> m ! 7 = BufferV b \<and> buffer_ok kec b
     \<and> map (tx_field (buffer_bytes b)) [0..<5] = [max_gas, price, seq_num env sender, dest, amount]
     \<and> drop 161 (buffer_bytes b) = data
     \<and> seq_num env1 sender = (seq_num env sender + 1) mod u256_modulus"
proof -
  obtain n env0 where g: "get_and_incr_seq_num env sender = (n, env0)" by fastforce
  have n: "n = seq_num env sender" and sn: "seq_num env0 sender = (seq_num env sender + 1) mod u256_modulus"
    using get_and_incr_seq_num_spec [of env sender] by (simp_all add: g)
  have i0: "l1_inbox env0 = l1_inbox env" using g by (auto simp: get_and_incr_seq_num_def Let_def)
  let ?msg = "tx_message_bytes max_gas price n dest amount data"
  obtain mid b where b: "buffer_ok kec b" "buffer_bytes b = ?msg"
     "insert_l2_message kec env0 sender ?msg False = Some (mid,
        env0\<lparr>next_inbox_seq_num := (next_inbox_seq_num env0 + 1) mod u256_modulus,
          l1_inbox := l1_inbox env0 @ [l1_message env0 3 sender ?msg None None b],
          recorder := recorder_add_msg (recorder env0) (l1_message env0 3 sender ?msg None None b)\<rparr>)"
    using insert_l2_message_eq [of False ?msg kec env0 sender] by (auto simp: tx_message_bytes_def)
  have "map (tx_field ?msg) [0..<5] = [max_gas, price, seq_num env sender, dest, amount]"
    using assms by (simp add: upt_rec tx_field_def tx_message_bytes_def n)
  moreover have "drop 161 ?msg = data" using assms by (simp add: tx_message_bytes_def n)
  moreover have "insert_tx_message kec env sender max_gas (Some price) dest amount data False =
      insert_l2_message kec env0 sender ?msg False"
    by (simp add: insert_tx_message_def g tx_message_bytes_def unwrap_or_def)
  ultimately show ?thesis using b sn i0 by (simp add: l1_message_def seq_num_def)
qed

theorem insert_tx_message_layout_witness:
  "\<exists>env mid env1. env_new id None = Some env
     \<and> insert_tx_message id env 1 2 (Some 3) 4 5 [6] False = Some (mid, env1)"
proof -
  obtain env where env: "env_new id None = Some env" "caller_seq_nums env = Map.empty"
    using env_new_Some by blast
  then have "u256_ok (seq_num env 1)"
    by (simp add: seq_num_def unwrap_or_def uint256_zero_def u256_ok_def u256_modulus_def)
  with insert_tx_message_layout [of 2 3 env 1 4 5 id "[6]"] env show ?thesis
    by (fastforce simp: u256_ok_def u256_modulus_def)
qed

end
