(* ===== verification/Ripemd160.thy ===== *)
theory Ripemd160
  imports Prelude
begin

text \<open>
  The RIPEMD-160 compression function as the emulator carries it (\<open>src/run/ripemd160port.rs\<close>).  The
  source unrolls 160 steps by a macro: each line names the order in which the five chaining words play
  the roles A to E, a message index and a rotation.  The lines are the ten tables below.  The reference
  is the textbook formulation, in which the roles stay put and the words move; the port computes it.
\<close>

unbundle bit_operations_syntax

section \<open>Definitions\<close>

type_synonym u32 = "32 word"

text \<open>The macro \<open>round\<close>: the chaining words \<open>bb\<close>, an ordering of their indices, a message word, a
  rotation, the additive constant and the boolean function.\<close>

definition ripemd_step ::
    "(u32 \<Rightarrow> u32 \<Rightarrow> u32 \<Rightarrow> u32) \<Rightarrow> u32 \<Rightarrow> u32 list \<Rightarrow> u32 list \<Rightarrow> nat list \<times> nat \<times> nat \<Rightarrow> u32 list" where
  "ripemd_step f add data bb line =
     (case line of (ord, data_index, bits) \<Rightarrow>
        let a = bb ! (ord ! 0) + f (bb ! (ord ! 1)) (bb ! (ord ! 2)) (bb ! (ord ! 3)) + data ! data_index + add;
            bb1 = bb[ord ! 0 := word_rotl bits a + bb ! (ord ! 4)]
        in bb1[ord ! 2 := word_rotl 10 (bb1 ! (ord ! 2))])"

definition rmd_f1 :: "u32 \<Rightarrow> u32 \<Rightarrow> u32 \<Rightarrow> u32" where
  "rmd_f1 x y z = x XOR y XOR z"

definition rmd_f2 :: "u32 \<Rightarrow> u32 \<Rightarrow> u32 \<Rightarrow> u32" where
  "rmd_f2 x y z = (x AND y) OR (NOT x AND z)"

definition rmd_f3 :: "u32 \<Rightarrow> u32 \<Rightarrow> u32 \<Rightarrow> u32" where
  "rmd_f3 x y z = (x OR NOT y) XOR z"

definition rmd_f4 :: "u32 \<Rightarrow> u32 \<Rightarrow> u32 \<Rightarrow> u32" where
  "rmd_f4 x y z = (x AND z) OR (y AND NOT z)"

definition rmd_f5 :: "u32 \<Rightarrow> u32 \<Rightarrow> u32 \<Rightarrow> u32" where
  "rmd_f5 x y z = x XOR (y OR NOT z)"

definition ripemd_round1 :: "(nat list \<times> nat \<times> nat) list" where
  "ripemd_round1 =
     [([0, 1, 2, 3, 4], 0, 11), ([4, 0, 1, 2, 3], 1, 14),
      ([3, 4, 0, 1, 2], 2, 15), ([2, 3, 4, 0, 1], 3, 12),
      ([1, 2, 3, 4, 0], 4, 5), ([0, 1, 2, 3, 4], 5, 8),
      ([4, 0, 1, 2, 3], 6, 7), ([3, 4, 0, 1, 2], 7, 9),
      ([2, 3, 4, 0, 1], 8, 11), ([1, 2, 3, 4, 0], 9, 13),
      ([0, 1, 2, 3, 4], 10, 14), ([4, 0, 1, 2, 3], 11, 15),
      ([3, 4, 0, 1, 2], 12, 6), ([2, 3, 4, 0, 1], 13, 7),
      ([1, 2, 3, 4, 0], 14, 9), ([0, 1, 2, 3, 4], 15, 8)]"

definition ripemd_round2 :: "(nat list \<times> nat \<times> nat) list" where
  "ripemd_round2 =
     [([4, 0, 1, 2, 3], 7, 7), ([3, 4, 0, 1, 2], 4, 6),
      ([2, 3, 4, 0, 1], 13, 8), ([1, 2, 3, 4, 0], 1, 13),
      ([0, 1, 2, 3, 4], 10, 11), ([4, 0, 1, 2, 3], 6, 9),
      ([3, 4, 0, 1, 2], 15, 7), ([2, 3, 4, 0, 1], 3, 15),
      ([1, 2, 3, 4, 0], 12, 7), ([0, 1, 2, 3, 4], 0, 12),
      ([4, 0, 1, 2, 3], 9, 15), ([3, 4, 0, 1, 2], 5, 9),
      ([2, 3, 4, 0, 1], 2, 11), ([1, 2, 3, 4, 0], 14, 7),
      ([0, 1, 2, 3, 4], 11, 13), ([4, 0, 1, 2, 3], 8, 12)]"

definition ripemd_round3 :: "(nat list \<times> nat \<times> nat) list" where
  "ripemd_round3 =
     [([3, 4, 0, 1, 2], 3, 11), ([2, 3, 4, 0, 1], 10, 13),
      ([1, 2, 3, 4, 0], 14, 6), ([0, 1, 2, 3, 4], 4, 7),
      ([4, 0, 1, 2, 3], 9, 14), ([3, 4, 0, 1, 2], 15, 9),
      ([2, 3, 4, 0, 1], 8, 13), ([1, 2, 3, 4, 0], 1, 15),
      ([0, 1, 2, 3, 4], 2, 14), ([4, 0, 1, 2, 3], 7, 8),
      ([3, 4, 0, 1, 2], 0, 13), ([2, 3, 4, 0, 1], 6, 6),
      ([1, 2, 3, 4, 0], 13, 5), ([0, 1, 2, 3, 4], 11, 12),
      ([4, 0, 1, 2, 3], 5, 7), ([3, 4, 0, 1, 2], 12, 5)]"

definition ripemd_round4 :: "(nat list \<times> nat \<times> nat) list" where
  "ripemd_round4 =
     [([2, 3, 4, 0, 1], 1, 11), ([1, 2, 3, 4, 0], 9, 12),
      ([0, 1, 2, 3, 4], 11, 14), ([4, 0, 1, 2, 3], 10, 15),
      ([3, 4, 0, 1, 2], 0, 14), ([2, 3, 4, 0, 1], 8, 15),
      ([1, 2, 3, 4, 0], 12, 9), ([0, 1, 2, 3, 4], 4, 8),
      ([4, 0, 1, 2, 3], 13, 9), ([3, 4, 0, 1, 2], 3, 14),
      ([2, 3, 4, 0, 1], 7, 5), ([1, 2, 3, 4, 0], 15, 6),
      ([0, 1, 2, 3, 4], 14, 8), ([4, 0, 1, 2, 3], 5, 6),
      ([3, 4, 0, 1, 2], 6, 5), ([2, 3, 4, 0, 1], 2, 12)]"

definition ripemd_round5 :: "(nat list \<times> nat \<times> nat) list" where
  "ripemd_round5 =
     [([1, 2, 3, 4, 0], 4, 9), ([0, 1, 2, 3, 4], 0, 15),
      ([4, 0, 1, 2, 3], 5, 5), ([3, 4, 0, 1, 2], 9, 11),
      ([2, 3, 4, 0, 1], 7, 6), ([1, 2, 3, 4, 0], 12, 8),
      ([0, 1, 2, 3, 4], 2, 13), ([4, 0, 1, 2, 3], 10, 12),
      ([3, 4, 0, 1, 2], 14, 5), ([2, 3, 4, 0, 1], 1, 12),
      ([1, 2, 3, 4, 0], 3, 13), ([0, 1, 2, 3, 4], 8, 14),
      ([4, 0, 1, 2, 3], 11, 11), ([3, 4, 0, 1, 2], 6, 8),
      ([2, 3, 4, 0, 1], 15, 5), ([1, 2, 3, 4, 0], 13, 6)]"

definition ripemd_par_round1 :: "(nat list \<times> nat \<times> nat) list" where
  "ripemd_par_round1 =
     [([0, 1, 2, 3, 4], 5, 8), ([4, 0, 1, 2, 3], 14, 9),
      ([3, 4, 0, 1, 2], 7, 9), ([2, 3, 4, 0, 1], 0, 11),
      ([1, 2, 3, 4, 0], 9, 13), ([0, 1, 2, 3, 4], 2, 15),
      ([4, 0, 1, 2, 3], 11, 15), ([3, 4, 0, 1, 2], 4, 5),
      ([2, 3, 4, 0, 1], 13, 7), ([1, 2, 3, 4, 0], 6, 7),
      ([0, 1, 2, 3, 4], 15, 8), ([4, 0, 1, 2, 3], 8, 11),
      ([3, 4, 0, 1, 2], 1, 14), ([2, 3, 4, 0, 1], 10, 14),
      ([1, 2, 3, 4, 0], 3, 12), ([0, 1, 2, 3, 4], 12, 6)]"

definition ripemd_par_round2 :: "(nat list \<times> nat \<times> nat) list" where
  "ripemd_par_round2 =
     [([4, 0, 1, 2, 3], 6, 9), ([3, 4, 0, 1, 2], 11, 13),
      ([2, 3, 4, 0, 1], 3, 15), ([1, 2, 3, 4, 0], 7, 7),
      ([0, 1, 2, 3, 4], 0, 12), ([4, 0, 1, 2, 3], 13, 8),
      ([3, 4, 0, 1, 2], 5, 9), ([2, 3, 4, 0, 1], 10, 11),
      ([1, 2, 3, 4, 0], 14, 7), ([0, 1, 2, 3, 4], 15, 7),
      ([4, 0, 1, 2, 3], 8, 12), ([3, 4, 0, 1, 2], 12, 7),
      ([2, 3, 4, 0, 1], 4, 6), ([1, 2, 3, 4, 0], 9, 15),
      ([0, 1, 2, 3, 4], 1, 13), ([4, 0, 1, 2, 3], 2, 11)]"

definition ripemd_par_round3 :: "(nat list \<times> nat \<times> nat) list" where
  "ripemd_par_round3 =
     [([3, 4, 0, 1, 2], 15, 9), ([2, 3, 4, 0, 1], 5, 7),
      ([1, 2, 3, 4, 0], 1, 15), ([0, 1, 2, 3, 4], 3, 11),
      ([4, 0, 1, 2, 3], 7, 8), ([3, 4, 0, 1, 2], 14, 6),
      ([2, 3, 4, 0, 1], 6, 6), ([1, 2, 3, 4, 0], 9, 14),
      ([0, 1, 2, 3, 4], 11, 12), ([4, 0, 1, 2, 3], 8, 13),
      ([3, 4, 0, 1, 2], 12, 5), ([2, 3, 4, 0, 1], 2, 14),
      ([1, 2, 3, 4, 0], 10, 13), ([0, 1, 2, 3, 4], 0, 13),
      ([4, 0, 1, 2, 3], 4, 7), ([3, 4, 0, 1, 2], 13, 5)]"

definition ripemd_par_round4 :: "(nat list \<times> nat \<times> nat) list" where
  "ripemd_par_round4 =
     [([2, 3, 4, 0, 1], 8, 15), ([1, 2, 3, 4, 0], 6, 5),
      ([0, 1, 2, 3, 4], 4, 8), ([4, 0, 1, 2, 3], 1, 11),
      ([3, 4, 0, 1, 2], 3, 14), ([2, 3, 4, 0, 1], 11, 14),
      ([1, 2, 3, 4, 0], 15, 6), ([0, 1, 2, 3, 4], 0, 14),
      ([4, 0, 1, 2, 3], 5, 6), ([3, 4, 0, 1, 2], 12, 9),
      ([2, 3, 4, 0, 1], 2, 12), ([1, 2, 3, 4, 0], 13, 9),
      ([0, 1, 2, 3, 4], 9, 12), ([4, 0, 1, 2, 3], 7, 5),
      ([3, 4, 0, 1, 2], 10, 15), ([2, 3, 4, 0, 1], 14, 8)]"

definition ripemd_par_round5 :: "(nat list \<times> nat \<times> nat) list" where
  "ripemd_par_round5 =
     [([1, 2, 3, 4, 0], 12, 8), ([0, 1, 2, 3, 4], 15, 5),
      ([4, 0, 1, 2, 3], 10, 12), ([3, 4, 0, 1, 2], 4, 9),
      ([2, 3, 4, 0, 1], 1, 12), ([1, 2, 3, 4, 0], 5, 5),
      ([0, 1, 2, 3, 4], 8, 14), ([4, 0, 1, 2, 3], 7, 6),
      ([3, 4, 0, 1, 2], 6, 8), ([2, 3, 4, 0, 1], 2, 13),
      ([1, 2, 3, 4, 0], 13, 6), ([0, 1, 2, 3, 4], 14, 5),
      ([4, 0, 1, 2, 3], 0, 15), ([3, 4, 0, 1, 2], 3, 13),
      ([2, 3, 4, 0, 1], 9, 11), ([1, 2, 3, 4, 0], 11, 11)]"

definition ripemd_lines :: "(u32 \<Rightarrow> u32 \<Rightarrow> u32 \<Rightarrow> u32) \<Rightarrow> u32 \<Rightarrow> u32 list \<Rightarrow> (nat list \<times> nat \<times> nat) list \<Rightarrow> u32 list \<Rightarrow> u32 list" where
  "ripemd_lines f add data ls bb = foldl (ripemd_step f add data) bb ls"

text \<open>The macro \<open>process_block\<close>.\<close>

definition process_block :: "u32 list \<Rightarrow> u32 list \<Rightarrow> u32 list" where
  "process_block h data =
     (let bb = ripemd_lines rmd_f5 0xa953fd4e data ripemd_round5
                 (ripemd_lines rmd_f4 0x8f1bbcdc data ripemd_round4
                   (ripemd_lines rmd_f3 0x6ed9eba1 data ripemd_round3
                     (ripemd_lines rmd_f2 0x5a827999 data ripemd_round2
                       (ripemd_lines rmd_f1 0 data ripemd_round1 h))));
          bbb = ripemd_lines rmd_f1 0 data ripemd_par_round5
                  (ripemd_lines rmd_f2 0x7a6d76e9 data ripemd_par_round4
                    (ripemd_lines rmd_f3 0x6d703ef3 data ripemd_par_round3
                      (ripemd_lines rmd_f4 0x5c4dd124 data ripemd_par_round2
                        (ripemd_lines rmd_f5 0x50a28be6 data ripemd_par_round1 h))));
          bbb3 = bbb ! 3 + h ! 1 + bb ! 2
      in [bbb3, h ! 2 + bb ! 3 + bbb ! 4, h ! 3 + bb ! 4 + bbb ! 0,
          h ! 4 + bb ! 0 + bbb ! 1, h ! 0 + bb ! 1 + bbb ! 2])"

text \<open>The message words are little-endian; words the data does not fill stay zero.\<close>

definition le_word32 :: "byte list \<Rightarrow> u32" where
  "le_word32 chunk = word_of_nat (le_value 256 (map unat chunk))"

definition message_words :: "byte list \<Rightarrow> u32 list" where
  "message_words data =
     map (\<lambda>i. if 4 * i + 4 \<le> length data then le_word32 (take 4 (drop (4 * i) data)) else 0) [0..<16]"

definition process_msg_block :: "u32 list \<Rightarrow> byte list \<Rightarrow> u32 list" where
  "process_msg_block h data = process_block h (message_words data)"

section \<open>Reference\<close>

text \<open>The selection of message words and the amounts of rotation of RIPEMD-160, left and right line.\<close>

definition rmd_r :: "nat list" where
  "rmd_r =
     [0, 1, 2, 3, 4, 5, 6, 7, 8, 9, 10, 11, 12, 13, 14, 15,
      7, 4, 13, 1, 10, 6, 15, 3, 12, 0, 9, 5, 2, 14, 11, 8,
      3, 10, 14, 4, 9, 15, 8, 1, 2, 7, 0, 6, 13, 11, 5, 12,
      1, 9, 11, 10, 0, 8, 12, 4, 13, 3, 7, 15, 14, 5, 6, 2,
      4, 0, 5, 9, 7, 12, 2, 10, 14, 1, 3, 8, 11, 6, 15, 13]"

definition rmd_r_par :: "nat list" where
  "rmd_r_par =
     [5, 14, 7, 0, 9, 2, 11, 4, 13, 6, 15, 8, 1, 10, 3, 12,
      6, 11, 3, 7, 0, 13, 5, 10, 14, 15, 8, 12, 4, 9, 1, 2,
      15, 5, 1, 3, 7, 14, 6, 9, 11, 8, 12, 2, 10, 0, 4, 13,
      8, 6, 4, 1, 3, 11, 15, 0, 5, 12, 2, 13, 9, 7, 10, 14,
      12, 15, 10, 4, 1, 5, 8, 7, 6, 2, 13, 14, 0, 3, 9, 11]"

definition rmd_s :: "nat list" where
  "rmd_s =
     [11, 14, 15, 12, 5, 8, 7, 9, 11, 13, 14, 15, 6, 7, 9, 8,
      7, 6, 8, 13, 11, 9, 7, 15, 7, 12, 15, 9, 11, 7, 13, 12,
      11, 13, 6, 7, 14, 9, 13, 15, 14, 8, 13, 6, 5, 12, 7, 5,
      11, 12, 14, 15, 14, 15, 9, 8, 9, 14, 5, 6, 8, 6, 5, 12,
      9, 15, 5, 11, 6, 8, 13, 12, 5, 12, 13, 14, 11, 8, 5, 6]"

definition rmd_s_par :: "nat list" where
  "rmd_s_par =
     [8, 9, 9, 11, 13, 15, 15, 5, 7, 7, 8, 11, 14, 14, 12, 6,
      9, 13, 15, 7, 12, 8, 9, 11, 7, 7, 12, 7, 6, 15, 13, 11,
      9, 7, 15, 11, 8, 6, 6, 14, 12, 13, 5, 14, 13, 13, 7, 5,
      15, 5, 8, 11, 14, 14, 6, 14, 6, 9, 12, 9, 12, 5, 15, 8,
      8, 5, 12, 9, 12, 5, 14, 6, 8, 13, 6, 5, 15, 13, 11, 11]"

definition rmd_fun :: "nat \<Rightarrow> u32 \<Rightarrow> u32 \<Rightarrow> u32 \<Rightarrow> u32" where
  "rmd_fun j = [rmd_f1, rmd_f2, rmd_f3, rmd_f4, rmd_f5] ! (j div 16)"

definition rmd_k :: "nat \<Rightarrow> u32" where
  "rmd_k j = [0, 0x5a827999, 0x6ed9eba1, 0x8f1bbcdc, 0xa953fd4e] ! (j div 16)"

definition rmd_k_par :: "nat \<Rightarrow> u32" where
  "rmd_k_par j = [0x50a28be6, 0x5c4dd124, 0x6d703ef3, 0x7a6d76e9, 0] ! (j div 16)"

text \<open>One step of the textbook: the five words move one place on.\<close>

fun rmd_ref_step :: "(u32 \<Rightarrow> u32 \<Rightarrow> u32 \<Rightarrow> u32) \<Rightarrow> u32 \<Rightarrow> u32 \<Rightarrow> nat \<Rightarrow> u32 \<times> u32 \<times> u32 \<times> u32 \<times> u32
    \<Rightarrow> u32 \<times> u32 \<times> u32 \<times> u32 \<times> u32" where
  "rmd_ref_step f k x s (a, b, c, d, e) = (e, word_rotl s (a + f b c d + x + k) + e, b, word_rotl 10 c, d)"

definition rmd_left :: "u32 list \<Rightarrow> u32 \<times> u32 \<times> u32 \<times> u32 \<times> u32 \<Rightarrow> u32 \<times> u32 \<times> u32 \<times> u32 \<times> u32" where
  "rmd_left x = fold (\<lambda>j. rmd_ref_step (rmd_fun j) (rmd_k j) (x ! (rmd_r ! j)) (rmd_s ! j)) [0..<80]"

definition rmd_right :: "u32 list \<Rightarrow> u32 \<times> u32 \<times> u32 \<times> u32 \<times> u32 \<Rightarrow> u32 \<times> u32 \<times> u32 \<times> u32 \<times> u32" where
  "rmd_right x = fold (\<lambda>j. rmd_ref_step (rmd_fun (79 - j)) (rmd_k_par j) (x ! (rmd_r_par ! j)) (rmd_s_par ! j)) [0..<80]"

definition rmd_compress :: "u32 list \<Rightarrow> u32 list \<Rightarrow> u32 list" where
  "rmd_compress h x =
     (let (a, b, c, d, e) = rmd_left x (h ! 0, h ! 1, h ! 2, h ! 3, h ! 4);
          (a', b', c', d', e') = rmd_right x (h ! 0, h ! 1, h ! 2, h ! 3, h ! 4)
      in [h ! 1 + c + d', h ! 2 + d + e', h ! 3 + e + a', h ! 4 + a + b', h ! 0 + b + c'])"

section \<open>The port computes the reference\<close>

text \<open>Where the roles are after \<open>j\<close> steps.\<close>

definition rmd_ord :: "nat \<Rightarrow> nat list" where
  "rmd_ord j = map (\<lambda>k. (k + 4 * j) mod 5) [0..<5]"

definition rmd_rel :: "nat \<Rightarrow> u32 list \<Rightarrow> u32 \<times> u32 \<times> u32 \<times> u32 \<times> u32 \<Rightarrow> bool" where
  "rmd_rel j bb s \<longleftrightarrow> length bb = 5 \<and>
     (bb ! (rmd_ord j ! 0), bb ! (rmd_ord j ! 1), bb ! (rmd_ord j ! 2), bb ! (rmd_ord j ! 3), bb ! (rmd_ord j ! 4)) = s"

lemma length_5_cases:
  assumes "length xs = 5"
  shows "\<exists>a b c d e. xs = [a, b, c, d, e]"
  using assms by (auto simp: eval_nat_numeral length_Suc_conv)

lemma rmd_ord_mod: "rmd_ord j = rmd_ord (j mod 5)"
  unfolding rmd_ord_def by (metis mod_add_right_eq mod_mult_right_eq)

lemma rmd_step_rel:
  assumes "rmd_rel j bb s"
  shows "rmd_rel (Suc j) (ripemd_step f k x bb (rmd_ord j, i, r)) (rmd_ref_step f k (x ! i) r s)"
proof -
  have "length bb = 5" using assms by (simp add: rmd_rel_def)
  then obtain a b c d e where bb: "bb = [a, b, c, d, e]" using length_5_cases by blast
  have "j mod 5 = 0 \<or> j mod 5 = 1 \<or> j mod 5 = 2 \<or> j mod 5 = 3 \<or> j mod 5 = 4" by linarith
  moreover have "rmd_ord j = rmd_ord (j mod 5)" "rmd_ord (Suc j) = rmd_ord (Suc (j mod 5))"
    using rmd_ord_mod [of j] rmd_ord_mod [of "Suc j"] rmd_ord_mod [of "Suc (j mod 5)"]
    by (simp_all add: mod_Suc_eq)
  ultimately show ?thesis
    using assms unfolding rmd_rel_def bb
    by (elim disjE) (auto simp: rmd_ord_def upt_rec ripemd_step_def Let_def)
qed

lemma rmd_lines_rel:
  "rmd_rel j bb s \<Longrightarrow>
   rmd_rel (j + n) (ripemd_lines f k x (map (\<lambda>i. (rmd_ord i, t ! i, u ! i)) [j..<j + n]) bb)
     (fold (\<lambda>i. rmd_ref_step f k (x ! (t ! i)) (u ! i)) [j..<j + n] s)"
proof (induction n)
  case (Suc n)
  from rmd_step_rel [OF Suc.IH [OF Suc.prems], of f k x "t ! (j + n)" "u ! (j + n)"]
  show ?case by (simp add: ripemd_lines_def)
qed (simp add: ripemd_lines_def)

lemma rmd_chunk_rel:
  assumes "rmd_rel j bb s" "j \<le> j'"
  shows "rmd_rel j' (ripemd_lines f k x (map (\<lambda>i. (rmd_ord i, t ! i, u ! i)) [j..<j']) bb)
     (fold (\<lambda>i. rmd_ref_step f k (x ! (t ! i)) (u ! i)) [j..<j'] s)"
  using rmd_lines_rel [OF assms(1), of "j' - j" f k x t u] assms(2) by simp

text \<open>The tables of the source are those of the standard, with the roles rotated.\<close>

lemma ripemd_tables:
  "ripemd_round1 = map (\<lambda>j. (rmd_ord j, rmd_r ! j, rmd_s ! j)) [0..<16]"
  "ripemd_round2 = map (\<lambda>j. (rmd_ord j, rmd_r ! j, rmd_s ! j)) [16..<32]"
  "ripemd_round3 = map (\<lambda>j. (rmd_ord j, rmd_r ! j, rmd_s ! j)) [32..<48]"
  "ripemd_round4 = map (\<lambda>j. (rmd_ord j, rmd_r ! j, rmd_s ! j)) [48..<64]"
  "ripemd_round5 = map (\<lambda>j. (rmd_ord j, rmd_r ! j, rmd_s ! j)) [64..<80]"
  "ripemd_par_round1 = map (\<lambda>j. (rmd_ord j, rmd_r_par ! j, rmd_s_par ! j)) [0..<16]"
  "ripemd_par_round2 = map (\<lambda>j. (rmd_ord j, rmd_r_par ! j, rmd_s_par ! j)) [16..<32]"
  "ripemd_par_round3 = map (\<lambda>j. (rmd_ord j, rmd_r_par ! j, rmd_s_par ! j)) [32..<48]"
  "ripemd_par_round4 = map (\<lambda>j. (rmd_ord j, rmd_r_par ! j, rmd_s_par ! j)) [48..<64]"
  "ripemd_par_round5 = map (\<lambda>j. (rmd_ord j, rmd_r_par ! j, rmd_s_par ! j)) [64..<80]"
  by code_simp+

lemma upt_80: "[0..<80] = [0..<16] @ [16..<32] @ [32..<48] @ [48..<64] @ [64..<80]"
  by code_simp

lemma rmd_fun_chunk:
  "i \<in> {0..<16} \<Longrightarrow> rmd_fun i = rmd_f1 \<and> rmd_k i = 0 \<and> rmd_fun (79 - i) = rmd_f5 \<and> rmd_k_par i = 0x50a28be6"
  "i \<in> {16..<32} \<Longrightarrow> rmd_fun i = rmd_f2 \<and> rmd_k i = 0x5a827999 \<and> rmd_fun (79 - i) = rmd_f4 \<and> rmd_k_par i = 0x5c4dd124"
  "i \<in> {32..<48} \<Longrightarrow> rmd_fun i = rmd_f3 \<and> rmd_k i = 0x6ed9eba1 \<and> rmd_fun (79 - i) = rmd_f3 \<and> rmd_k_par i = 0x6d703ef3"
  "i \<in> {48..<64} \<Longrightarrow> rmd_fun i = rmd_f4 \<and> rmd_k i = 0x8f1bbcdc \<and> rmd_fun (79 - i) = rmd_f2 \<and> rmd_k_par i = 0x7a6d76e9"
  "i \<in> {64..<80} \<Longrightarrow> rmd_fun i = rmd_f5 \<and> rmd_k i = 0xa953fd4e \<and> rmd_fun (79 - i) = rmd_f1 \<and> rmd_k_par i = 0"
proof -
  have d: "i div 16 = q" if "16 * q \<le> i" "i < 16 * q + 16" for q i :: nat
    using that by (simp add: div_nat_eqI)
  show "i \<in> {0..<16} \<Longrightarrow> rmd_fun i = rmd_f1 \<and> rmd_k i = 0 \<and> rmd_fun (79 - i) = rmd_f5 \<and> rmd_k_par i = 0x50a28be6"
    using d [of 0 i] d [of 4 "79 - i"] by (simp add: rmd_fun_def rmd_k_def rmd_k_par_def)
  show "i \<in> {16..<32} \<Longrightarrow> rmd_fun i = rmd_f2 \<and> rmd_k i = 0x5a827999 \<and> rmd_fun (79 - i) = rmd_f4 \<and> rmd_k_par i = 0x5c4dd124"
    using d [of 1 i] d [of 3 "79 - i"] by (simp add: rmd_fun_def rmd_k_def rmd_k_par_def)
  show "i \<in> {32..<48} \<Longrightarrow> rmd_fun i = rmd_f3 \<and> rmd_k i = 0x6ed9eba1 \<and> rmd_fun (79 - i) = rmd_f3 \<and> rmd_k_par i = 0x6d703ef3"
    using d [of 2 i] d [of 2 "79 - i"] by (simp add: rmd_fun_def rmd_k_def rmd_k_par_def)
  show "i \<in> {48..<64} \<Longrightarrow> rmd_fun i = rmd_f4 \<and> rmd_k i = 0x8f1bbcdc \<and> rmd_fun (79 - i) = rmd_f2 \<and> rmd_k_par i = 0x7a6d76e9"
    using d [of 3 i] d [of 1 "79 - i"] by (simp add: rmd_fun_def rmd_k_def rmd_k_par_def)
  show "i \<in> {64..<80} \<Longrightarrow> rmd_fun i = rmd_f5 \<and> rmd_k i = 0xa953fd4e \<and> rmd_fun (79 - i) = rmd_f1 \<and> rmd_k_par i = 0"
    using d [of 4 i] d [of 0 "79 - i"] by (simp add: rmd_fun_def rmd_k_def rmd_k_par_def)
qed

lemma rmd_left_chunks:
  "rmd_left x s =
     fold (\<lambda>i. rmd_ref_step rmd_f5 0xa953fd4e (x ! (rmd_r ! i)) (rmd_s ! i)) [64..<80]
      (fold (\<lambda>i. rmd_ref_step rmd_f4 0x8f1bbcdc (x ! (rmd_r ! i)) (rmd_s ! i)) [48..<64]
       (fold (\<lambda>i. rmd_ref_step rmd_f3 0x6ed9eba1 (x ! (rmd_r ! i)) (rmd_s ! i)) [32..<48]
        (fold (\<lambda>i. rmd_ref_step rmd_f2 0x5a827999 (x ! (rmd_r ! i)) (rmd_s ! i)) [16..<32]
         (fold (\<lambda>i. rmd_ref_step rmd_f1 0 (x ! (rmd_r ! i)) (rmd_s ! i)) [0..<16] s))))"
  unfolding rmd_left_def upt_80 fold_append comp_apply
  by (intro fold_cong refl) (simp_all only: set_upt rmd_fun_chunk)

lemma rmd_right_chunks:
  "rmd_right x s =
     fold (\<lambda>i. rmd_ref_step rmd_f1 0 (x ! (rmd_r_par ! i)) (rmd_s_par ! i)) [64..<80]
      (fold (\<lambda>i. rmd_ref_step rmd_f2 0x7a6d76e9 (x ! (rmd_r_par ! i)) (rmd_s_par ! i)) [48..<64]
       (fold (\<lambda>i. rmd_ref_step rmd_f3 0x6d703ef3 (x ! (rmd_r_par ! i)) (rmd_s_par ! i)) [32..<48]
        (fold (\<lambda>i. rmd_ref_step rmd_f4 0x5c4dd124 (x ! (rmd_r_par ! i)) (rmd_s_par ! i)) [16..<32]
         (fold (\<lambda>i. rmd_ref_step rmd_f5 0x50a28be6 (x ! (rmd_r_par ! i)) (rmd_s_par ! i)) [0..<16] s))))"
  unfolding rmd_right_def upt_80 fold_append comp_apply
  by (intro fold_cong refl) (simp_all only: set_upt rmd_fun_chunk)

lemma rmd_rel_0: "length h = 5 \<Longrightarrow> rmd_rel 0 h (h ! 0, h ! 1, h ! 2, h ! 3, h ! 4)"
  using length_5_cases [of h] by (auto simp: rmd_rel_def rmd_ord_def upt_rec)

lemma rmd_rel_80: "rmd_rel 80 bb (a, b, c, d, e) \<Longrightarrow> bb = [a, b, c, d, e]"
  using length_5_cases [of bb] by (auto simp: rmd_rel_def rmd_ord_def upt_rec)

text \<open>
  C31: The unrolled port of the RIPEMD-160 compression function computes the textbook function, in which
  one step function moves the five words along for 80 steps on the left and on the right line with the
  selection and rotation tables of the standard, on every chaining state and message.
\<close>

theorem process_msg_block_is_ripemd160:
  assumes "length h = 5"
  shows "process_msg_block h data = rmd_compress h (message_words data)"
proof -
  let ?x = "message_words data"
  obtain a b c d e where l: "rmd_left ?x (h ! 0, h ! 1, h ! 2, h ! 3, h ! 4) = (a, b, c, d, e)"
    by (metis prod.exhaust)
  obtain a' b' c' d' e' where r: "rmd_right ?x (h ! 0, h ! 1, h ! 2, h ! 3, h ! 4) = (a', b', c', d', e')"
    by (metis prod.exhaust)
  have "ripemd_lines rmd_f5 0xa953fd4e ?x ripemd_round5
                 (ripemd_lines rmd_f4 0x8f1bbcdc ?x ripemd_round4
                   (ripemd_lines rmd_f3 0x6ed9eba1 ?x ripemd_round3
                     (ripemd_lines rmd_f2 0x5a827999 ?x ripemd_round2
                       (ripemd_lines rmd_f1 0 ?x ripemd_round1 h)))) = [a, b, c, d, e]"
    unfolding ripemd_tables by (rule rmd_rel_80, unfold l [symmetric] rmd_left_chunks)
      (intro rmd_chunk_rel [where j = 64] rmd_chunk_rel [where j = 48] rmd_chunk_rel [where j = 32]
        rmd_chunk_rel [where j = 16] rmd_chunk_rel [where j = 0] rmd_rel_0 assms; simp)
  moreover have "ripemd_lines rmd_f1 0 ?x ripemd_par_round5
                  (ripemd_lines rmd_f2 0x7a6d76e9 ?x ripemd_par_round4
                    (ripemd_lines rmd_f3 0x6d703ef3 ?x ripemd_par_round3
                      (ripemd_lines rmd_f4 0x5c4dd124 ?x ripemd_par_round2
                        (ripemd_lines rmd_f5 0x50a28be6 ?x ripemd_par_round1 h)))) = [a', b', c', d', e']"
    unfolding ripemd_tables by (rule rmd_rel_80, unfold r [symmetric] rmd_right_chunks)
      (intro rmd_chunk_rel [where j = 64] rmd_chunk_rel [where j = 48] rmd_chunk_rel [where j = 32]
        rmd_chunk_rel [where j = 16] rmd_chunk_rel [where j = 0] rmd_rel_0 assms; simp)
  ultimately show ?thesis
    using l r by (simp add: process_msg_block_def process_block_def rmd_compress_def add_ac)
qed

theorem process_msg_block_is_ripemd160_witness:
  "process_msg_block [1, 2, 3, 4, 5] [] = rmd_compress [1, 2, 3, 4, 5] (message_words [])"
  by (rule process_msg_block_is_ripemd160) simp

end
