(* ===== verification/Blake2b.thy ===== *)
theory Blake2b
  imports Buffer
begin

text \<open>
  The BLAKE2b compression function behind the \<open>Blake2f\<close> instruction (\<open>src/run/blake2b.rs\<close>): decoding
  of the 213-byte operand, the rounds, and the 64-byte result.  Words of 64 bits are \<open>64 word\<close>, so additions
  wrap as \<open>wrapping_add\<close> does.  A failed assertion or slice is \<open>None\<close>.
\<close>

unbundle bit_operations_syntax

section \<open>Definitions\<close>

type_synonym u64w = "64 word"

definition blake2b_IV :: "u64w list" where
  "blake2b_IV =
     [0x6a09e667f3bcc908, 0xbb67ae8584caa73b, 0x3c6ef372fe94f82b, 0xa54ff53a5f1d36f1,
      0x510e527fade682d1, 0x9b05688c2b3e6c1f, 0x1f83d9abfb41bd6b, 0x5be0cd19137e2179]"

definition blake2b_SIGMA :: "nat list list" where
  "blake2b_SIGMA =
     [[0, 1, 2, 3, 4, 5, 6, 7, 8, 9, 10, 11, 12, 13, 14, 15],
      [14, 10, 4, 8, 9, 15, 13, 6, 1, 12, 0, 2, 11, 7, 5, 3],
      [11, 8, 12, 0, 5, 2, 15, 13, 10, 14, 3, 6, 7, 1, 9, 4],
      [7, 9, 3, 1, 13, 12, 11, 14, 2, 6, 5, 10, 4, 0, 15, 8],
      [9, 0, 5, 7, 2, 4, 10, 15, 14, 1, 11, 12, 6, 8, 3, 13],
      [2, 12, 6, 10, 0, 11, 8, 3, 4, 13, 7, 5, 15, 14, 1, 9],
      [12, 5, 1, 15, 14, 13, 4, 10, 0, 7, 6, 3, 9, 2, 8, 11],
      [13, 11, 7, 14, 12, 1, 3, 9, 5, 0, 15, 4, 8, 6, 2, 10],
      [6, 15, 14, 9, 11, 3, 0, 8, 12, 2, 13, 7, 1, 4, 10, 5],
      [10, 2, 8, 4, 7, 6, 1, 5, 15, 11, 9, 14, 3, 12, 13, 0]]"

record blake2b =
  b2_h :: "u64w list"
  b2_t :: "u64w list"
  b2_f :: "u64w list"
  b2_buf :: "byte list"

definition to_le_bytes64 :: "u64w \<Rightarrow> byte list" where
  "to_le_bytes64 w = map (\<lambda>i. ucast (drop_bit (8 * i) w)) [0..<8]"

definition from_le_bytes64 :: "byte list \<Rightarrow> u64w" where
  "from_le_bytes64 bs = word_of_nat (le_value 256 (map unat bs))"

text \<open>The loop of \<open>load64\<close> reads eight bytes.\<close>

definition load64 :: "byte list \<Rightarrow> u64w" where
  "load64 b = foldl (\<lambda>v i. v OR push_bit (8 * i) (ucast (b ! i))) 0 [0..<8]"

text \<open>The macros \<open>g\<close> and \<open>round\<close>.\<close>

definition blake2b_g :: "u64w list \<Rightarrow> nat \<Rightarrow> nat \<Rightarrow> nat \<times> nat \<times> nat \<times> nat \<Rightarrow> u64w list \<Rightarrow> u64w list" where
  "blake2b_g m r i idx v =
     (case idx of (a, b, c, d) \<Rightarrow>
        let v1 = v[a := v ! a + v ! b + m ! (blake2b_SIGMA ! (r mod 10) ! (2 * i))];
            v2 = v1[d := word_rotr 32 (v1 ! d XOR v1 ! a)];
            v3 = v2[c := v2 ! c + v2 ! d];
            v4 = v3[b := word_rotr 24 (v3 ! b XOR v3 ! c)];
            v5 = v4[a := v4 ! a + v4 ! b + m ! (blake2b_SIGMA ! (r mod 10) ! (2 * i + 1))];
            v6 = v5[d := word_rotr 16 (v5 ! d XOR v5 ! a)];
            v7 = v6[c := v6 ! c + v6 ! d]
        in v7[b := word_rotr 63 (v7 ! b XOR v7 ! c)])"

definition blake2b_round :: "u64w list \<Rightarrow> nat \<Rightarrow> u64w list \<Rightarrow> u64w list" where
  "blake2b_round m r v =
     foldl (\<lambda>v (i, idx). blake2b_g m r i idx v) v
       [(0, (0, 4, 8, 12)), (1, (1, 5, 9, 13)), (2, (2, 6, 10, 14)), (3, (3, 7, 11, 15)),
        (4, (0, 5, 10, 15)), (5, (1, 6, 11, 12)), (6, (2, 7, 8, 13)), (7, (3, 4, 9, 14))]"

definition blake2b_compress :: "blake2b \<Rightarrow> nat \<Rightarrow> u64w list \<Rightarrow> blake2b option" where
  "blake2b_compress s num_rounds orig_m =
     (let block = b2_buf s;
          m = map (\<lambda>i. load64 (drop (i * 8) block)) [0..<16]
      in if length block < 128 \<or> m \<noteq> orig_m then None
         else let v0 = take 8 (b2_h s) @ take 4 blake2b_IV
                       @ [b2_t s ! 0 XOR blake2b_IV ! 4, b2_t s ! 1 XOR blake2b_IV ! 5,
                          b2_f s ! 0 XOR blake2b_IV ! 6, b2_f s ! 1 XOR blake2b_IV ! 7];
                  v = foldl (\<lambda>v i. blake2b_round m i v) v0 [0..<num_rounds]
              in Some (s\<lparr>b2_h := map (\<lambda>i. b2_h s ! i XOR v ! i XOR v ! (i + 8)) [0..<8]\<rparr>))"

text \<open>The outer \<open>None\<close> is a failed assertion, the inner one the result for a flag that is not 0 or 1.\<close>

definition eth_blake2bf ::
    "nat \<Rightarrow> u64w list \<Rightarrow> u64w list \<Rightarrow> u64w list \<Rightarrow> byte \<Rightarrow> u64w list option option" where
  "eth_blake2bf num_rounds h m t f =
     (if f = 0 \<or> f = 1
      then let fw = (if f = 0 then [0, 0] else [0xffffffffffffffff, 0]);
               buf = concat (map to_le_bytes64 m) @ replicate (256 - 8 * length m) 0
           in map_option (\<lambda>s. Some (b2_h s))
                (blake2b_compress \<lparr>b2_h = h, b2_t = t, b2_f = fw, b2_buf = buf\<rparr> num_rounds m)
      else Some None)"

definition eth_blake2bf_from_bytes :: "byte list \<Rightarrow> byte list option option" where
  "eth_blake2bf_from_bytes b =
     (let n = be_value (take 4 b);
          num_rounds = (if n > 0xffff then 0xffff else n);
          word_at = (\<lambda>offset. from_le_bytes64 (take 8 (drop offset b)));
          h = map (\<lambda>i. word_at (4 + 8 * i)) [0..<8];
          m = map (\<lambda>i. word_at (68 + 8 * i)) [0..<16];
          t = map (\<lambda>i. word_at (196 + 8 * i)) [0..<2];
          f = b ! 212
      in map_option (map_option (\<lambda>chunks. take 64 (concat (map to_le_bytes64 (take 8 chunks)))))
           (eth_blake2bf num_rounds h m t f))"

definition blake2bf_instruction :: "hash_fn \<Rightarrow> buffer \<Rightarrow> buffer option" where
  "blake2bf_instruction kec buf =
     (case collect_opt (buffer_read_byte buf) [0..<213] of
        None \<Rightarrow> None
      | Some b \<Rightarrow>
          (case eth_blake2bf_from_bytes (b[212 := b ! 212 AND 1]) of
             Some (Some result) \<Rightarrow> write_loop (buffer_set_byte kec) buffer_new_empty 0 (take 64 result)
           | _ \<Rightarrow> None))"

section \<open>The reference function\<close>

text \<open>BLAKE2's function F: initialise the sixteen working words, mix them for the given number of
  rounds, and fold the halves into the state.\<close>

definition blake2b_F :: "nat \<Rightarrow> u64w list \<Rightarrow> u64w list \<Rightarrow> u64w list \<Rightarrow> bool \<Rightarrow> u64w list" where
  "blake2b_F rounds h m t final =
     (let v = fold (blake2b_round m) [0..<rounds]
                (h @ take 4 blake2b_IV
                 @ [t ! 0 XOR blake2b_IV ! 4, t ! 1 XOR blake2b_IV ! 5,
                    (if final then 0xffffffffffffffff else 0) XOR blake2b_IV ! 6, blake2b_IV ! 7])
      in map (\<lambda>i. h ! i XOR v ! i XOR v ! (i + 8)) [0..<8])"

lemma length_to_le_bytes64 [simp]: "length (to_le_bytes64 w) = 8"
  by (simp add: to_le_bytes64_def)

lemma byte_bit:
  "bit (push_bit k (ucast (ucast (drop_bit k w) :: byte)) :: u64w) n \<longleftrightarrow> k \<le> n \<and> n < k + 8 \<and> bit (w :: u64w) n"
  by (auto simp: bit_simps dest: bit_imp_le_length)

lemma load64_to_le_bytes64: "load64 (to_le_bytes64 w @ rest) = w"
proof (rule bit_word_eqI)
  fix n assume n: "n < LENGTH(64)"
  have "load64 (to_le_bytes64 w @ rest) = foldl (\<lambda>v i. v OR push_bit (8 * i) (ucast (to_le_bytes64 w ! i))) 0 [0..<8]"
    unfolding load64_def by (intro foldl_cong) (auto simp: nth_append)
  with n show "bit (load64 (to_le_bytes64 w @ rest)) n = bit w n"
    by (simp add: to_le_bytes64_def upt_rec bit_or_iff byte_bit [of 0, simplified] byte_bit) linarith
qed

lemma drop_concat_blocks:
  "i < length ms \<Longrightarrow> \<forall>x \<in> set ms. length (g x) = k \<Longrightarrow>
   drop (i * k) (concat (map g ms)) = g (ms ! i) @ concat (map g (drop (Suc i) ms))"
proof (induction ms arbitrary: i)
  case (Cons x ms)
  then show ?case by (cases i) auto
qed simp

lemma reload_message:
  assumes "length m = 16"
  shows "map (\<lambda>i. load64 (drop (i * 8) (concat (map to_le_bytes64 m) @ pad))) [0..<16] = m"
proof (rule nth_equalityI)
  fix i assume "i < length (map (\<lambda>i. load64 (drop (i * 8) (concat (map to_le_bytes64 m) @ pad))) [0..<16])"
  then have i: "i < 16" by simp
  have "length (concat (map to_le_bytes64 m)) = 128"
    using assms by (simp add: length_concat comp_def sum_list_triv)
  with i assms drop_concat_blocks [of i m to_le_bytes64 8]
  show "map (\<lambda>i. load64 (drop (i * 8) (concat (map to_le_bytes64 m) @ pad))) [0..<16] ! i = m ! i"
    by (simp add: load64_to_le_bytes64)
qed (simp add: assms)

lemma compress_eq:
  assumes "length h = 8" "length m = 16"
  shows "blake2b_compress \<lparr>b2_h = h, b2_t = t, b2_f = [f, 0], b2_buf = concat (map to_le_bytes64 m) @ pad\<rparr> n m =
     Some \<lparr>b2_h = (let v = fold (blake2b_round m) [0..<n]
                (h @ take 4 blake2b_IV
                 @ [t ! 0 XOR blake2b_IV ! 4, t ! 1 XOR blake2b_IV ! 5, f XOR blake2b_IV ! 6, blake2b_IV ! 7])
            in map (\<lambda>i. h ! i XOR v ! i XOR v ! (i + 8)) [0..<8]),
          b2_t = t, b2_f = [f, 0], b2_buf = concat (map to_le_bytes64 m) @ pad\<rparr>"
proof -
  have "\<not> length (concat (map to_le_bytes64 m) @ pad) < 128"
    using assms by (simp add: length_concat comp_def sum_list_triv)
  then show ?thesis
    using assms(1) unfolding blake2b_compress_def Let_def blake2b.simps reload_message [OF assms(2)]
    by (simp add: foldl_conv_fold)
qed

lemma eth_blake2bf_eq:
  assumes "length h = 8" "length m = 16"
  shows "eth_blake2bf n h m t f = Some (if f = 0 \<or> f = 1 then Some (blake2b_F n h m t (f = 1)) else None)"
  using compress_eq [OF assms] by (simp add: eth_blake2bf_def Let_def blake2b_F_def)

text \<open>The operand of the instruction and what it decodes to.\<close>

definition blake2f_operand :: "buffer \<Rightarrow> byte list" where
  "blake2f_operand buf = map (padded_nth (buffer_bytes buf)) [0..<213]"

definition operand_word :: "byte list \<Rightarrow> nat \<Rightarrow> u64w" where
  "operand_word b k = from_le_bytes64 (take 8 (drop (4 + 8 * k) b))"

text \<open>The eight words of the result.\<close>

definition blake2f_words :: "buffer \<Rightarrow> u64w list" where
  "blake2f_words buf =
     (let b = blake2f_operand buf
      in blake2b_F (min 0xffff (be_value (take 4 b))) (map (operand_word b) [0..<8])
           (map (operand_word b) [8..<24]) (map (operand_word b) [24..<26]) (bit (b ! 212) 0))"

lemma blake2bf_instruction_eq:
  assumes "buffer_ok kec buf"
  shows "blake2bf_instruction kec buf =
     write_loop (buffer_set_byte kec) buffer_new_empty 0 (concat (map to_le_bytes64 (blake2f_words buf)))"
proof -
  let ?b = "blake2f_operand buf"
  let ?b' = "?b[212 := ?b ! 212 AND 1]"
  let ?n = "min 0xffff (be_value (take 4 ?b))"
  let ?r = "blake2b_F ?n (map (operand_word ?b) [0..<8]) (map (operand_word ?b) [8..<24])
              (map (operand_word ?b) [24..<26]) (bit (?b ! 212) 0)"
  have len: "length ?b = 213" by (simp add: blake2f_operand_def)
  have rd: "collect_opt (buffer_read_byte buf) [0..<213] = Some ?b"
    by (simp add: buf.collect_fetch [OF assms] blake2f_operand_def)
  have flag: "?b ! 212 AND 1 = (if bit (?b ! 212) 0 then 1 else 0)"
    by (simp add: and_one_eq mod_2_eq_odd bit_0)
  have same: "take 8 (drop (4 + 8 * k) ?b') = take 8 (drop (4 + 8 * k) ?b)" if "k < 26" for k
    using that len by (simp add: drop_update_swap)
  have chunk: "map (\<lambda>i. from_le_bytes64 (take 8 (drop (4 + 8 * a + 8 * i) ?b'))) [0..<n] =
      map (operand_word ?b) [a..<n + a]" if "a + n \<le> 26" for a n
    unfolding map_add_upt [symmetric] map_map
    using that same [of "_ + a"] by (auto simp: operand_word_def algebra_simps intro!: map_cong)
  have words: "map (\<lambda>i. from_le_bytes64 (take 8 (drop (4 + 8 * i) ?b'))) [0..<8] = map (operand_word ?b) [0..<8]"
    "map (\<lambda>i. from_le_bytes64 (take 8 (drop (68 + 8 * i) ?b'))) [0..<16] = map (operand_word ?b) [8..<24]"
    "map (\<lambda>i. from_le_bytes64 (take 8 (drop (196 + 8 * i) ?b'))) [0..<2] = map (operand_word ?b) [24..<26]"
    using chunk [of 0 8] chunk [of 8 16] chunk [of 24 2] by simp_all
  have F: "eth_blake2bf ?n (map (operand_word ?b) [0..<8]) (map (operand_word ?b) [8..<24])
      (map (operand_word ?b) [24..<26]) (?b' ! 212) = Some (Some ?r)"
    using len flag by (subst eth_blake2bf_eq) simp_all
  have n: "(if be_value (take 4 ?b') > 0xffff then 0xffff else be_value (take 4 ?b')) = ?n"
    by (simp add: min_def)
  have len_r: "length ?r = 8" "length (concat (map to_le_bytes64 ?r)) = 64"
    by (simp_all add: length_concat comp_def sum_list_triv blake2b_F_def Let_def)
  have "eth_blake2bf_from_bytes ?b' = Some (Some (concat (map to_le_bytes64 ?r)))"
    unfolding eth_blake2bf_from_bytes_def Let_def words n F using len_r by simp
  then have "blake2bf_instruction kec buf =
      write_loop (buffer_set_byte kec) buffer_new_empty 0 (concat (map to_le_bytes64 ?r))"
    using rd len_r(2) by (simp add: blake2bf_instruction_def del: upt.simps)
  then show ?thesis unfolding blake2f_words_def Let_def .
qed



end
