(* ===== verification/Machine.thy ===== *)
theory Machine
  imports Runtime_Env Ripemd160 Blake2b
begin

text \<open>
  The state of the emulated machine (\<open>src/run/emulator.rs\<close>): stacks of values, errors, machine states,
  the code store with its segments, and the machine record.  The trace writer and the table of file
  names only serve output and are left out.  A stack is a list with its top first (the source pushes at
  the end of a vector, so its element 0 is the last of the list).
\<close>

section \<open>Definitions\<close>

subsection \<open>Errors and machine states\<close>

datatype execution_error =
    StoppedErr string
  | Wrapped string execution_error
  | RunningErr string codept "val option"

datatype machine_state = Stopped | ErrorState execution_error | Running codept

definition execution_error_new :: "string \<Rightarrow> machine_state \<Rightarrow> val option \<Rightarrow> execution_error" where
  "execution_error_new why st v =
     (case st of
        Stopped \<Rightarrow> StoppedErr why
      | ErrorState e \<Rightarrow> Wrapped why e
      | Running cp \<Rightarrow> RunningErr why cp v)"

definition is_running :: "machine_state \<Rightarrow> bool" where
  "is_running st \<longleftrightarrow> (case st of Running _ \<Rightarrow> True | _ \<Rightarrow> False)"

subsection \<open>Value stacks\<close>

type_synonym value_stack = "val list"

definition value_stack_new :: value_stack where
  "value_stack_new = []"

definition value_stack_is_empty :: "value_stack \<Rightarrow> bool" where
  "value_stack_is_empty s \<longleftrightarrow> length s = 0"

definition value_stack_push :: "value_stack \<Rightarrow> val \<Rightarrow> value_stack" where
  "value_stack_push s v = v # s"

definition value_stack_push_uint :: "value_stack \<Rightarrow> uint256 \<Rightarrow> value_stack" where
  "value_stack_push_uint s v = value_stack_push s (IntV v)"

definition value_stack_push_usize :: "value_stack \<Rightarrow> usize \<Rightarrow> value_stack" where
  "value_stack_push_usize s v = value_stack_push_uint s (uint256_from_usize v)"

definition value_stack_push_codepoint :: "value_stack \<Rightarrow> codept \<Rightarrow> value_stack" where
  "value_stack_push_codepoint s v = value_stack_push s (CodePointV v)"

definition value_stack_push_bool :: "value_stack \<Rightarrow> bool \<Rightarrow> value_stack" where
  "value_stack_push_bool s v = value_stack_push_uint s (if v then uint256_one else uint256_zero)"

definition value_stack_push_buffer :: "value_stack \<Rightarrow> buffer \<Rightarrow> value_stack" where
  "value_stack_push_buffer s v = value_stack_push s (BufferV v)"

definition value_stack_top :: "value_stack \<Rightarrow> val option" where
  "value_stack_top s = (if value_stack_is_empty s then None else Some (s ! 0))"

definition value_stack_nth :: "value_stack \<Rightarrow> usize \<Rightarrow> val option" where
  "value_stack_nth s n = (if length s > n then Some (s ! n) else None)"

text \<open>A pop that finds a value of the wrong kind has already removed it.\<close>

definition value_stack_pop :: "value_stack \<Rightarrow> machine_state \<Rightarrow> (execution_error + val) \<times> value_stack" where
  "value_stack_pop s st =
     (case s of
        [] \<Rightarrow> (Inl (execution_error_new ''stack underflow'' st None), [])
      | v # rest \<Rightarrow> (Inr v, rest))"

definition value_stack_pop_codepoint :: "value_stack \<Rightarrow> machine_state \<Rightarrow> (execution_error + codept) \<times> value_stack" where
  "value_stack_pop_codepoint s st =
     (case value_stack_pop s st of
        (Inl e, s1) \<Rightarrow> (Inl e, s1)
      | (Inr v, s1) \<Rightarrow>
          (case v of
             CodePointV cp \<Rightarrow> (Inr cp, s1)
           | _ \<Rightarrow> (Inl (execution_error_new ''expected CodePoint on stack'' st (Some v)), s1)))"

definition value_stack_pop_uint :: "value_stack \<Rightarrow> machine_state \<Rightarrow> (execution_error + uint256) \<times> value_stack" where
  "value_stack_pop_uint s st =
     (case value_stack_pop s st of
        (Inl e, s1) \<Rightarrow> (Inl e, s1)
      | (Inr v, s1) \<Rightarrow>
          (case v of
             IntV i \<Rightarrow> (Inr i, s1)
           | _ \<Rightarrow> (Inl (execution_error_new ''expected integer on stack'' st (Some v)), s1)))"

definition value_stack_pop_usize :: "value_stack \<Rightarrow> machine_state \<Rightarrow> (execution_error + usize) \<times> value_stack" where
  "value_stack_pop_usize s st =
     (case value_stack_pop_uint s st of
        (Inl e, s1) \<Rightarrow> (Inl e, s1)
      | (Inr i, s1) \<Rightarrow>
          (case uint256_to_usize i of
             Some u \<Rightarrow> (Inr u, s1)
           | None \<Rightarrow> (Inl (execution_error_new ''expected small integer on stack'' st (Some (IntV i))), s1)))"

definition value_stack_pop_tuple :: "value_stack \<Rightarrow> machine_state \<Rightarrow> (execution_error + val list) \<times> value_stack" where
  "value_stack_pop_tuple s st =
     (case value_stack_pop s st of
        (Inl e, s1) \<Rightarrow> (Inl e, s1)
      | (Inr v, s1) \<Rightarrow>
          (case v of
             TupleV vs \<Rightarrow> (Inr vs, s1)
           | _ \<Rightarrow> (Inl (execution_error_new ''expected tuple on stack'' st (Some v)), s1)))"

definition value_stack_pop_buffer :: "value_stack \<Rightarrow> machine_state \<Rightarrow> (execution_error + buffer) \<times> value_stack" where
  "value_stack_pop_buffer s st =
     (case value_stack_pop s st of
        (Inl e, s1) \<Rightarrow> (Inl e, s1)
      | (Inr v, s1) \<Rightarrow>
          (case v of
             BufferV b \<Rightarrow> (Inr b, s1)
           | _ \<Rightarrow> (Inl (execution_error_new ''expected buffer on stack'' st (Some v)), s1)))"

text \<open>The code points on a stack, bottom first: the source iterates over the vector.\<close>

definition value_stack_all_codepts :: "value_stack \<Rightarrow> codept list" where
  "value_stack_all_codepts s =
     concat (map (\<lambda>item. case item of CodePointV cp \<Rightarrow> [cp] | _ \<Rightarrow> []) (rev s))"

subsection \<open>Code store\<close>

type_synonym code_store = "avm_opcode instruction list list"

definition code_store_new :: "avm_opcode instruction list \<Rightarrow> code_store" where
  "code_store_new runtime = [runtime]"

definition segment_size :: "code_store \<Rightarrow> usize \<Rightarrow> usize option" where
  "segment_size segs seg_num = map_option length (get_at segs seg_num)"

text \<open>The outer \<open>None\<close>: an unlinked reference, or no segment 0, which panics.\<close>

definition get_insn :: "code_store \<Rightarrow> codept \<Rightarrow> avm_opcode instruction option option" where
  "get_insn segs cp =
     (case cp of
        CpInternal pc \<Rightarrow> map_option (\<lambda>seg. get_at seg pc) (get_at segs 0)
      | InSegment seg_num pc \<Rightarrow> Some (if seg_num < length segs then get_at (segs ! seg_num) pc else None)
      | CpExternal _ \<Rightarrow> None
      | Null \<Rightarrow> None)"

definition create_segment :: "code_store \<Rightarrow> codept \<times> code_store" where
  "create_segment segs =
     (let segs1 = segs @ [[instruction_from_opcode Zero debug_info_default]]
      in (InSegment (length segs1 - 1) 0, segs1))"

text \<open>Every way to misuse \<open>push_insn\<close> panics; its \<open>None\<close> branches are commented out in the source.\<close>

definition push_insn :: "code_store \<Rightarrow> usize \<Rightarrow> val option \<Rightarrow> codept \<Rightarrow> (codept \<times> code_store) option" where
  "push_insn segs op imm cp =
     (case cp of
        InSegment seg_num old_offset \<Rightarrow>
          if seg_num \<ge> length segs then None
          else let segment = segs ! seg_num
               in if old_offset + 1 = length segment
                  then (case avm_opcode_from_number op of
                          Some opc \<Rightarrow> Some (InSegment seg_num (old_offset + 1),
                             segs[seg_num := segment @ [Instruction opc imm debug_info_default]])
                        | None \<Rightarrow> None)
                  else None
      | _ \<Rightarrow> None)"

subsection \<open>Machines\<close>

record machine =
  stack :: value_stack
  aux_stack :: value_stack
  state :: machine_state
  code :: code_store
  static_val :: val
  register :: val
  err_codepoint :: codept
  arb_gas_remaining :: uint256
  runtime_env :: runtime_env
  total_gas_usage :: uint256

type_synonym 'a exec = "(execution_error, machine, 'a) comp"

definition machine_new :: "avm_opcode instruction list \<Rightarrow> val \<Rightarrow> runtime_env \<Rightarrow> machine" where
  "machine_new program_code program_static env =
     \<lparr>stack = value_stack_new, aux_stack = value_stack_new, state = Stopped,
      code = code_store_new program_code, static_val = program_static, register = value_none,
      err_codepoint = Null, arb_gas_remaining = uint256_bitwise_neg uint256_zero,
      runtime_env = env, total_gas_usage = uint256_zero\<rparr>"

definition start_at_zero :: "machine \<Rightarrow> machine" where
  "start_at_zero m = m\<lparr>state := Running (CpInternal 0)\<rparr>"

definition get_stack_trace :: "machine \<Rightarrow> codept list" where
  "get_stack_trace m = value_stack_all_codepts (aux_stack m)"

definition call_state :: "machine \<Rightarrow> codept \<Rightarrow> val list \<Rightarrow> codept \<times> machine" where
  "call_state m func_addr args =
     (let stop_pc = CpInternal (length (code m ! 0))
      in (stop_pc,
          m\<lparr>stack := value_stack_push (foldl value_stack_push (stack m) (rev args)) (CodePointV stop_pc),
            state := Running func_addr\<rparr>))"

definition get_pc :: "machine \<Rightarrow> execution_error + codept" where
  "get_pc m =
     (case state m of
        Running pc \<Rightarrow> Inr pc
      | _ \<Rightarrow> Inl (execution_error_new ''tried to get PC of non-running machine'' (state m) None))"

definition incr_pc :: "unit exec" where
  "incr_pc m =
     (case state m of
        Running pc \<Rightarrow>
          (case codept_incr pc of
             Some new_pc \<Rightarrow> Done () (m\<lparr>state := Running new_pc\<rparr>)
           | None \<Rightarrow> Panic)
      | _ \<Rightarrow> Panic)"

text \<open>The outer \<open>None\<close> is the panic of \<open>get_insn\<close>.\<close>

definition next_opcode :: "machine \<Rightarrow> avm_opcode instruction option option" where
  "next_opcode m = (case state m of Running pc \<Rightarrow> get_insn (code m) pc | _ \<Rightarrow> Some None)"

text \<open>The pops and pushes of the handlers, on the stack and on the auxiliary stack of the machine.\<close>

definition on_stack :: "(value_stack \<Rightarrow> machine_state \<Rightarrow> (execution_error + 'a) \<times> value_stack) \<Rightarrow> 'a exec" where
  "on_stack f m =
     (case f (stack m) (state m) of
        (Inl e, s) \<Rightarrow> Fail e (m\<lparr>stack := s\<rparr>)
      | (Inr a, s) \<Rightarrow> Done a (m\<lparr>stack := s\<rparr>))"

definition on_aux_stack :: "(value_stack \<Rightarrow> machine_state \<Rightarrow> (execution_error + 'a) \<times> value_stack) \<Rightarrow> 'a exec" where
  "on_aux_stack f m =
     (case f (aux_stack m) (state m) of
        (Inl e, s) \<Rightarrow> Fail e (m\<lparr>aux_stack := s\<rparr>)
      | (Inr a, s) \<Rightarrow> Done a (m\<lparr>aux_stack := s\<rparr>))"

definition pop :: "val exec" where "pop = on_stack value_stack_pop"

definition pop_uint :: "uint256 exec" where "pop_uint = on_stack value_stack_pop_uint"

definition pop_usize :: "usize exec" where "pop_usize = on_stack value_stack_pop_usize"

definition pop_codepoint :: "codept exec" where "pop_codepoint = on_stack value_stack_pop_codepoint"

definition pop_tuple :: "val list exec" where "pop_tuple = on_stack value_stack_pop_tuple"

definition pop_buffer :: "buffer exec" where "pop_buffer = on_stack value_stack_pop_buffer"

definition push :: "val \<Rightarrow> unit exec" where
  "push v = modify_c (\<lambda>m. m\<lparr>stack := value_stack_push (stack m) v\<rparr>)"

definition push_uint :: "uint256 \<Rightarrow> unit exec" where "push_uint v = push (IntV v)"

definition push_aux :: "val \<Rightarrow> unit exec" where
  "push_aux v = modify_c (\<lambda>m. m\<lparr>aux_stack := value_stack_push (aux_stack m) v\<rparr>)"

text \<open>Returning an error built from the current machine state.\<close>

definition throw :: "string \<Rightarrow> val option \<Rightarrow> 'a exec" where
  "throw why v m = Fail (execution_error_new why (state m) v) m"

text \<open>The end of most handlers: \<open>self.incr_pc(); Ok(true)\<close>.\<close>

definition next_insn :: "bool exec" where
  "next_insn = then_c incr_pc (return_c True)"

definition push_next :: "val \<Rightarrow> bool exec" where
  "push_next v = then_c (push v) next_insn"

end
