(* ===== verification/Crypto_Ops.thy ===== *)
theory Crypto_Ops
  imports Machine
begin

text \<open>
  The cryptographic helpers of the emulator (end of \<open>src/run/emulator.rs\<close>): packing of the Keccak state
  in a tuple, SHA-256 and RIPEMD-160 compression on 256-bit integers, elliptic-curve operations, and the
  check of trace information.  The permutation, the SHA-256 block function, signature recovery and the
  curve library are library code and fields of the record \<open>externals\<close>; points and field
  elements of the curve library are opaque handles.
\<close>

unbundle bit_operations_syntax

section \<open>Definitions\<close>

record bn_lib =
  fq_from_slice :: "byte list \<Rightarrow> nat option"
  fr_from_slice :: "byte list \<Rightarrow> nat option"
  fq_is_zero :: "nat \<Rightarrow> bool"
  fq2_new :: "nat \<Rightarrow> nat \<Rightarrow> nat"
  fq2_is_zero :: "nat \<Rightarrow> bool"
  g1_zero :: nat
  g1_affine :: "nat \<Rightarrow> nat \<Rightarrow> nat option"
  g1_add :: "nat \<Rightarrow> nat \<Rightarrow> nat"
  g1_mul :: "nat \<Rightarrow> nat \<Rightarrow> nat"
  g1_coords :: "nat \<Rightarrow> (byte list \<times> byte list) option"
  g2_zero :: nat
  g2_affine :: "nat \<Rightarrow> nat \<Rightarrow> nat option"
  bn_pairing :: "nat \<Rightarrow> nat \<Rightarrow> nat"
  gt_one :: nat
  gt_mul :: "nat \<Rightarrow> nat \<Rightarrow> nat"

record externals =
  keccak256 :: hash_fn
  keccak_f1600 :: "u64 list \<Rightarrow> u64 list"
  sha256_digest_block :: "nat list \<Rightarrow> nat list \<Rightarrow> nat list"
  sig_recover :: "byte list \<Rightarrow> byte list \<Rightarrow> u64 \<Rightarrow> byte list \<Rightarrow> byte list option"
  bn :: bn_lib

definition max_pairing_size :: u64 where
  "max_pairing_size = 30"

text \<open>The check panics when the assertion it stands for fails; the model returns whether it passes.\<close>

fun check_validity_of_trace_info :: "val \<Rightarrow> nat \<Rightarrow> bool" where
  "check_validity_of_trace_info (TupleV []) nesting \<longleftrightarrow> nesting = 0"
| "check_validity_of_trace_info (TupleV [TupleV (IntV typecode # _), next_val]) nesting \<longleftrightarrow>
     (if typecode = uint256_zero then check_validity_of_trace_info next_val (nesting + 1)
      else if typecode = uint256_one then nesting > 0 \<and> check_validity_of_trace_info next_val (nesting - 1)
      else typecode \<le> uint256_from_u64 3 \<and> check_validity_of_trace_info next_val nesting)"
| "check_validity_of_trace_info _ nesting \<longleftrightarrow> False"

definition check_debugprint_for_malformed_trace_info :: "val \<Rightarrow> bool" where
  "check_debugprint_for_malformed_trace_info r1 =
     (case r1 of
        TupleV tup \<Rightarrow>
          length tup = 2 \<and> tup ! 0 = IntV (uint256_from_u64 20000) \<longrightarrow> check_validity_of_trace_info (tup ! 1) 0
      | _ \<Rightarrow> True)"

definition mask64 :: uint256 where
  "mask64 = uint256_from_u64 ((2 ^ 32 + 1) * (2 ^ 32 - 1))"

definition two_to_64 :: uint256 where
  "two_to_64 = uint256_add mask64 uint256_one"

text \<open>The loop that takes the 25 lanes out of the seven integers.\<close>

definition keccak_lanes :: "uint256 list \<Rightarrow> u64 list" where
  "keccak_lanes inuis =
     fst (foldl (\<lambda>(outtup, us) i.
            (outtup @ [uint256_trim_to_u64 (uint256_bitwise_and (us ! (i div 4)) mask64)],
             us[i div 4 := us ! (i div 4) div two_to_64])) ([], inuis) [0..<25])"

definition keccak_pack :: "u64 list \<Rightarrow> uint256 list" where
  "keccak_pack outtup =
     map (\<lambda>i. foldl (\<lambda>u j. uint256_add (uint256_mul u two_to_64) (uint256_from_u64 (outtup ! (4 * i + j))))
                (uint256_from_u64 (outtup ! (4 * i + 3))) [2, 1, 0]) [0..<6]
     @ [uint256_from_u64 (outtup ! 24)]"

definition tuple_keccak ::
    "(u64 list \<Rightarrow> u64 list) \<Rightarrow> val list \<Rightarrow> machine_state \<Rightarrow> execution_error + val list" where
  "tuple_keccak f1600 intup st =
     (if length intup \<noteq> 7 then Inl (execution_error_new ''invalid tuple length for keccakf: '' st None)
      else case collect_res (\<lambda>inelt. case inelt of
                     IntV ui \<Rightarrow> Inr ui
                   | _ \<Rightarrow> Inl (execution_error_new ''invalid operand for keccakf'' st None)) intup of
             Inl e \<Rightarrow> Inl e
           | Inr inuis \<Rightarrow> Inr (map IntV (keccak_pack (f1600 (keccak_lanes inuis)))))"

definition do_ecrecover :: "externals \<Rightarrow> uint256 \<Rightarrow> uint256 \<Rightarrow> uint256 \<Rightarrow> uint256 \<Rightarrow> uint256" where
  "do_ecrecover ext first_half second_half recover_id msg_hash =
     (case sig_recover ext (take 32 (uint256_to_bytes_be first_half)) (take 32 (uint256_to_bytes_be second_half))
             (if recover_id = uint256_zero then 27 else 28) (take 32 (uint256_to_bytes_be msg_hash)) of
        Some addr \<Rightarrow> uint256_from_bytes addr
      | None \<Rightarrow> uint256_zero)"

text \<open>A point of the curve from its affine coordinates; both zero stand for the neutral element.\<close>

definition g1_point :: "bn_lib \<Rightarrow> nat \<Rightarrow> nat \<Rightarrow> nat option" where
  "g1_point lib px py = (if fq_is_zero lib px \<and> fq_is_zero lib py then Some (g1_zero lib) else g1_affine lib px py)"

definition ec_result :: "bn_lib \<Rightarrow> nat \<Rightarrow> uint256 \<times> uint256" where
  "ec_result lib p =
     (case g1_coords lib p of
        Some (out_buf_0, out_buf_1) \<Rightarrow> (uint256_from_bytes out_buf_0, uint256_from_bytes out_buf_1)
      | None \<Rightarrow> (uint256_zero, uint256_zero))"

definition do_ecadd ::
    "bn_lib \<Rightarrow> uint256 \<Rightarrow> uint256 \<Rightarrow> uint256 \<Rightarrow> uint256 \<Rightarrow> string + uint256 \<times> uint256" where
  "do_ecadd lib x0 x1 y0 y1 =
     (case (fq_from_slice lib (uint256_to_bytes_be x0), fq_from_slice lib (uint256_to_bytes_be x1),
            fq_from_slice lib (uint256_to_bytes_be y0), fq_from_slice lib (uint256_to_bytes_be y1)) of
        (Some px, Some py, Some qx, Some qy) \<Rightarrow>
          (case (g1_point lib px py, g1_point lib qx qy) of
             (Some p, Some q) \<Rightarrow> Inr (ec_result lib (g1_add lib p q))
           | _ \<Rightarrow> Inl ''Not on curve'')
      | _ \<Rightarrow> Inl ''Invalid slice'')"

definition do_ecmul :: "bn_lib \<Rightarrow> uint256 \<Rightarrow> uint256 \<Rightarrow> uint256 \<Rightarrow> string + uint256 \<times> uint256" where
  "do_ecmul lib x0 x1 nui =
     (case (fq_from_slice lib (uint256_to_bytes_be x0), fq_from_slice lib (uint256_to_bytes_be x1),
            fr_from_slice lib (uint256_to_bytes_be nui)) of
        (Some px, Some py, Some n) \<Rightarrow>
          (case g1_point lib px py of
             Some p \<Rightarrow> Inr (ec_result lib (g1_mul lib p n))
           | None \<Rightarrow> Inl ''Not on curve'')
      | _ \<Rightarrow> Inl ''Invalid slice'')"

text \<open>One pair of points: \<open>None\<close> leaves the loop with \<open>Some(false)\<close>.\<close>

definition ecpairing_term :: "bn_lib \<Rightarrow> uint256 list \<Rightarrow> nat option" where
  "ecpairing_term lib uis =
     (case collect_opt (\<lambda>ui. fq_from_slice lib (uint256_to_bytes_be ui)) uis of
        Some [ax, ay, b0, b1, b2, b3] \<Rightarrow>
          let ba = fq2_new lib b0 b1; bb = fq2_new lib b2 b3
          in (case (if fq2_is_zero lib ba \<and> fq2_is_zero lib bb then Some (g2_zero lib) else g2_affine lib ba bb,
                    g1_point lib ax ay) of
                (Some b, Some a) \<Rightarrow> Some (bn_pairing lib a b)
              | _ \<Rightarrow> None)
      | _ \<Rightarrow> None)"

fun do_ecpairing_loop :: "bn_lib \<Rightarrow> nat \<Rightarrow> val \<Rightarrow> nat \<Rightarrow> bool option" where
  "do_ecpairing_loop lib 0 v acc = None"
| "do_ecpairing_loop lib (Suc k) v acc =
     (case v of
        TupleV [] \<Rightarrow> Some (acc = gt_one lib)
      | TupleV [TupleV pts_tup, next_val] \<Rightarrow>
          if length pts_tup = 6
          then (case collect_opt (\<lambda>p. case p of IntV ui \<Rightarrow> Some ui | _ \<Rightarrow> None) pts_tup of
                  None \<Rightarrow> None
                | Some uis \<Rightarrow>
                    (case ecpairing_term lib uis of
                       None \<Rightarrow> Some False
                     | Some t \<Rightarrow> do_ecpairing_loop lib k next_val (gt_mul lib acc t)))
          else None
      | _ \<Rightarrow> None)"

definition do_ecpairing :: "bn_lib \<Rightarrow> val \<Rightarrow> bool option" where
  "do_ecpairing lib v = do_ecpairing_loop lib max_pairing_size v (gt_one lib)"

definition sha256_compression ::
    "(nat list \<Rightarrow> nat list \<Rightarrow> nat list) \<Rightarrow> uint256 \<Rightarrow> uint256 \<Rightarrow> uint256 \<Rightarrow> uint256 option" where
  "sha256_compression digest_block acc buf0 buf1 = do {
     acc_32 \<leftarrow> uint256_to_u32_digits_be acc;
     buf_32 \<leftarrow> uint256_to_u32_digits_be_2 buf0 buf1;
     Some (uint256_from_u32_digits (rev (digest_block acc_32 buf_32)))
   }"

definition reverse32 :: "u32 \<Rightarrow> u32" where
  "reverse32 x =
     (let mid = drop_bit 16 x OR push_bit 16 x
      in push_bit 8 (mid AND 0x00ff00ff) OR drop_bit 8 (mid AND 0xff00ff00))"

definition ripemd160_compression :: "uint256 \<Rightarrow> uint256 \<Rightarrow> uint256 \<Rightarrow> uint256 option" where
  "ripemd160_compression acc buf0 buf1 = do {
     words \<leftarrow> uint256_to_u32_digits_be acc;
     let acc_buf = map (\<lambda>i. word_of_nat (words ! i)) [3, 4, 5, 6, 7];
     let out = process_msg_block acc_buf (uint256_to_bytes_be buf0 @ uint256_to_bytes_be buf1);
     Some (uint256_from_u32_digits (map (\<lambda>i. unat (reverse32 (out ! i))) [4, 3, 2, 1, 0] @ [0, 0, 0]))
   }"

section \<open>Byte order\<close>

lemma reverse32_bit: "n < 32 \<Longrightarrow> bit (reverse32 x) n = bit x (8 * (3 - n div 8) + n mod 8)"
proof -
  assume n: "n < 32"
  have "list_all (\<lambda>n. bit (reverse32 x) n = bit x (8 * (3 - n div 8) + n mod 8)) [0..<32]"
  proof -
    have "[0..<32] = [0, 1, 2, 3, 4, 5, 6, 7, 8, 9, 10, 11, 12, 13, 14, 15, 16, 17, 18, 19, 20, 21, 22, 23,
        24, 25, 26, 27, 28, 29, 30, 31 :: nat]" by code_simp
    moreover have "bit x k = False" if "32 \<le> k" for k
      using that bit_imp_le_length [of x k] by auto
    ultimately show ?thesis
      by (simp add: reverse32_def Let_def bit_simps) (simp add: numeral_2_eq_2)
  qed
  with n show ?thesis by (simp only: list_all_iff set_upt) simp
qed

lemma reverse32_involution: "reverse32 (reverse32 x) = x"
proof (rule bit_word_eqI)
  fix n assume n: "n < LENGTH(32)"
  let ?k = "8 * (3 - n div 8) + n mod 8"
  have "?k < 32" using n by (simp; presburger)
  moreover have "?k div 8 = 3 - n div 8" "?k mod 8 = n mod 8" by simp_all
  then have "8 * (3 - ?k div 8) + ?k mod 8 = n" using n by (simp; presburger)
  ultimately show "bit (reverse32 (reverse32 x)) n = bit x n" using n by (simp add: reverse32_bit)
qed

section \<open>The Keccak state\<close>

lemma two_to_64_eq: "two_to_64 = 2 ^ 64"
  by (simp add: two_to_64_def mask64_def uint256_add_eq uint256_from_u64_def uint256_one_def u256_modulus_def)

lemma and_mask64: "uint256_bitwise_and u mask64 = u mod 2 ^ 64"
proof -
  have "mask64 = mask 64" by (simp add: mask64_def uint256_from_u64_def mask_eq_exp_minus_1)
  then show ?thesis by (metis take_bit_eq_mask take_bit_eq_mod uint256_bitwise_and_def)
qed

lemma trim_to_u64_eq: "uint256_trim_to_u64 x = x mod 2 ^ 64"
proof -
  have "(0xffffffffffffffff :: nat) = mask 64" by (simp add: mask_eq_exp_minus_1)
  then show ?thesis by (simp only: uint256_trim_to_u64_def take_bit_eq_mod flip: take_bit_eq_mask)
qed

text \<open>Lane \<open>i\<close> of the state.\<close>

definition lane :: "uint256 list \<Rightarrow> nat \<Rightarrow> u64" where
  "lane us i = us ! (i div 4) div 2 ^ (64 * (i mod 4)) mod 2 ^ 64"

lemma keccak_lanes_eq:
  assumes "length us = 7"
  shows "keccak_lanes us = map (lane us) [0..<25]"
proof -
  let ?f = "\<lambda>(outtup, us) i.
     (outtup @ [uint256_trim_to_u64 (uint256_bitwise_and (us ! (i div 4)) mask64)],
      us[i div 4 := us ! (i div 4) div two_to_64])"
  have "foldl ?f ([], us) [0..<n] =
      (map (lane us) [0..<n], map (\<lambda>k. us ! k div 2 ^ (64 * min 4 (n - 4 * k))) [0..<7])" if "n \<le> 25" for n
    using that
  proof (induction n)
    case 0
    show ?case using assms by (simp add: map_nth flip: assms)
  next
    case (Suc n)
    let ?us = "map (\<lambda>k. us ! k div 2 ^ (64 * min 4 (n - 4 * k))) [0..<7]"
    have q: "n div 4 < 7" "min 4 (n - 4 * (n div 4)) = n mod 4"
      using Suc.prems by (auto simp: minus_mult_div_eq_mod min_def)
    have "?us[n div 4 := ?us ! (n div 4) div two_to_64] = map (\<lambda>k. us ! k div 2 ^ (64 * min 4 (Suc n - 4 * k))) [0..<7]"
    proof (rule nth_equalityI)
      fix k assume "k < length (?us[n div 4 := ?us ! (n div 4) div two_to_64])"
      then have k: "k < 7" by simp
      have "min 4 (Suc n - 4 * k) = (if k = n div 4 then Suc (min 4 (n - 4 * k)) else min 4 (n - 4 * k))" by auto
      then show "?us[n div 4 := ?us ! (n div 4) div two_to_64] ! k =
          map (\<lambda>k. us ! k div 2 ^ (64 * min 4 (Suc n - 4 * k))) [0..<7] ! k"
        using k by (simp add: nth_list_update two_to_64_eq div_mult2_eq [symmetric] power_add mult.commute)
    qed simp
    moreover have "uint256_trim_to_u64 (uint256_bitwise_and (?us ! (n div 4)) mask64) = lane us n"
      using q by (simp add: and_mask64 lane_def trim_to_u64_eq)
    ultimately show ?case using Suc q(1) by simp
  qed
  from this [of 25] show ?thesis by (simp add: keccak_lanes_def)
qed

lemma keccak_pack_eq:
  assumes "length ls = 25" "\<forall>l \<in> set ls. l < 2 ^ 64"
  shows "keccak_pack ls =
    map (\<lambda>i. ls ! (4 * i) + 2 ^ 64 * (ls ! (4 * i + 1) + 2 ^ 64 * (ls ! (4 * i + 2) + 2 ^ 64 * ls ! (4 * i + 3)))) [0..<6]
    @ [ls ! 24]"
proof -
  have "uint256_add (uint256_mul u two_to_64) l = l + 2 ^ 64 * u" if "l < 2 ^ 64" "u < 2 ^ 192" for u l
  proof -
    have "2 ^ 64 * u \<le> 2 ^ 64 * (2 ^ 192 - 1)" using that by (intro mult_le_mono) auto
    with that show ?thesis
      by (simp add: uint256_add_eq uint256_mul_eq two_to_64_eq u256_modulus_def mult.commute)
  qed
  note step = this
  have "foldl (\<lambda>u j. uint256_add (uint256_mul u two_to_64) (uint256_from_u64 (ls ! (4 * i + j))))
        (uint256_from_u64 (ls ! (4 * i + 3))) [2, 1, 0] =
      ls ! (4 * i) + 2 ^ 64 * (ls ! (4 * i + 1) + 2 ^ 64 * (ls ! (4 * i + 2) + 2 ^ 64 * ls ! (4 * i + 3)))"
    if "i < 6" for i
  proof -
    have b: "ls ! (4 * i + j) < 2 ^ 64" if "j < 4" for j
      using assms that \<open>i < 6\<close> by (intro bspec [OF assms(2)] nth_mem) simp
    let ?a = "ls ! (4 * i + 3)"
    have 1: "uint256_add (uint256_mul ?a two_to_64) (ls ! (4 * i + 2)) = ls ! (4 * i + 2) + 2 ^ 64 * ?a"
      using b [of 3] b [of 2] by (intro step) auto
    have 2: "uint256_add (uint256_mul (ls ! (4 * i + 2) + 2 ^ 64 * ?a) two_to_64) (ls ! (4 * i + 1)) =
        ls ! (4 * i + 1) + 2 ^ 64 * (ls ! (4 * i + 2) + 2 ^ 64 * ?a)"
      using b [of 3] b [of 2] b [of 1] by (intro step) auto
    have 3: "uint256_add (uint256_mul (ls ! (4 * i + 1) + 2 ^ 64 * (ls ! (4 * i + 2) + 2 ^ 64 * ?a)) two_to_64) (ls ! (4 * i + 0)) =
        ls ! (4 * i + 0) + 2 ^ 64 * (ls ! (4 * i + 1) + 2 ^ 64 * (ls ! (4 * i + 2) + 2 ^ 64 * ?a))"
      using b [of 3] b [of 2] b [of 1] b [of 0] by (intro step) auto
    show ?thesis unfolding foldl_Cons foldl_Nil uint256_from_u64_def 1 2 3 by simp
  qed
  then show ?thesis by (simp add: keccak_pack_def uint256_from_u64_def)
qed

lemma four_digits:
  assumes "a < B" "b < B" "c < B" "d < (B :: nat)"
  shows "(a + B * (b + B * (c + B * d))) div B ^ 0 mod B = a"
    "(a + B * (b + B * (c + B * d))) div B ^ 1 mod B = b"
    "(a + B * (b + B * (c + B * d))) div B ^ 2 mod B = c"
    "(a + B * (b + B * (c + B * d))) div B ^ 3 mod B = d"
  using assms by (simp_all add: power2_eq_square power3_eq_cube div_mult2_eq)

lemma lane_pack:
  assumes "length ls = 25" "\<forall>l \<in> set ls. l < 2 ^ 64" "i < 25"
  shows "lane (keccak_pack ls) i = ls ! i"
proof -
  have b: "ls ! j < 2 ^ 64" if "j < 25" for j using assms that by (intro bspec [OF assms(2)] nth_mem) simp
  show ?thesis
  proof (cases "i < 24")
    case False
    with assms have "i = 24" by simp
    with b [of 24] show ?thesis by (simp add: lane_def keccak_pack_eq [OF assms(1,2)] nth_append)
  next
    case True
    define q B where "q = i div 4" and "B = (2 :: nat) ^ 64"
    have q: "q < 6" using True by (simp add: q_def)
    let ?x = "ls ! (4 * q) + B * (ls ! (4 * q + 1) + B * (ls ! (4 * q + 2) + B * ls ! (4 * q + 3)))"
    have "lane (keccak_pack ls) i = ?x div B ^ (i mod 4) mod B"
      using q unfolding lane_def keccak_pack_eq [OF assms(1,2)] B_def
      by (simp add: nth_append power_mult flip: q_def)
    also have "\<dots> = ls ! (4 * q + i mod 4)"
    proof -
      have d: "ls ! (4 * q + j) < B" if "j < 4" for j using b [of "4 * q + j"] that q by (simp add: B_def)
      have "i mod 4 = 0 \<or> i mod 4 = 1 \<or> i mod 4 = 2 \<or> i mod 4 = 3" by linarith
      then show ?thesis
        using four_digits [OF d [of 0] d [of 1] d [of 2] d [of 3]] by (elim disjE) simp_all
    qed
    also have "4 * q + i mod 4 = i" by (simp add: q_def)
    finally show ?thesis .
  qed
qed

lemma pack_lanes:
  assumes "length us = 7" "\<forall>u \<in> set us. u256_ok u" "us ! 6 < 2 ^ 64"
  shows "keccak_pack (keccak_lanes us) = us"
proof (rule nth_equalityI)
  have ls: "length (keccak_lanes us) = 25" "\<forall>l \<in> set (keccak_lanes us). l < 2 ^ 64"
    by (auto simp: keccak_lanes_eq [OF assms(1)] lane_def)
  show "length (keccak_pack (keccak_lanes us)) = length us" by (simp add: keccak_pack_def assms(1))
  fix i assume "i < length (keccak_pack (keccak_lanes us))"
  then have i: "i < 7" by (simp add: keccak_pack_def)
  show "keccak_pack (keccak_lanes us) ! i = us ! i"
  proof (cases "i = 6")
    case True
    have "keccak_lanes us ! 24 = us ! 6"
      using assms(3) by (simp add: keccak_lanes_eq [OF assms(1)] lane_def)
    with True show ?thesis by (simp add: keccak_pack_eq [OF ls] nth_append)
  next
    case False
    define B where "B = (2 :: nat) ^ 64"
    have "u256_ok (us ! i)" using assms(1,2) i by simp
    then have "us ! i < B * (B * (B * B))" by (simp add: u256_ok_def u256_modulus_def B_def)
    then have "us ! i div B div B div B < B" by (simp add: div_mult2_eq [symmetric] less_mult_imp_div_less mult_ac)
    then have e: "us ! i = us ! i mod B + B * (us ! i div B mod B + B * (us ! i div B div B mod B + B * (us ! i div B div B div B mod B)))"
      by simp
    have "lane us (4 * i + k) = us ! i div B ^ k mod B" if "k < 4" for k
      using that by (simp add: lane_def B_def power_mult)
    moreover have "keccak_lanes us ! j = lane us j" if "j < 25" for j
      using that by (simp add: keccak_lanes_eq [OF assms(1)])
    ultimately have k: "keccak_lanes us ! (4 * i + k) = us ! i div B ^ k mod B" if "k < 4" for k
      using that False i by simp
    from k [of 0] k [of 1] k [of 2] k [of 3] False i show ?thesis
      by (subst e) (simp add: keccak_pack_eq [OF ls, folded B_def] nth_append
          power2_eq_square power3_eq_cube div_mult2_eq)
  qed
qed

text \<open>
  The \<open>Keccakf\<close> instruction hands the permutation exactly the 25 lanes its operand packs, four
  64-bit lanes to an integer, lowest first: for any operand of seven integers the lanes are the base
  \<open>2 ^ 64\<close> digits, the packing of 25 lanes has those lanes again, and packing the lanes of an operand in
  range gives the operand back, so with the identity in place of the permutation the instruction changes nothing.
\<close>

theorem tuple_keccak_exact:
  assumes "length us = 7" "\<forall>u \<in> set us. u256_ok u" "us ! 6 < 2 ^ 64"
    and "length ls = 25" "\<forall>l \<in> set ls. l < 2 ^ 64"
  shows "tuple_keccak f (map IntV us) st = Inr (map IntV (keccak_pack (f (map (lane us) [0..<25]))))
     \<and> tuple_keccak id (map IntV us) st = Inr (map IntV us)
     \<and> map (lane (keccak_pack ls)) [0..<25] = ls"
proof -
  have "collect_res (\<lambda>inelt. case inelt of IntV ui \<Rightarrow> Inr ui
           | _ \<Rightarrow> Inl (execution_error_new ''invalid operand for keccakf'' st None)) (map IntV us) = Inr us"
    by (induction us) auto
  then have "tuple_keccak g (map IntV us) st = Inr (map IntV (keccak_pack (g (keccak_lanes us))))" for g
    using assms(1) by (simp add: tuple_keccak_def)
  moreover have "map (lane (keccak_pack ls)) [0..<25] = ls"
    using assms(4) by (intro nth_equalityI) (simp_all add: lane_pack [OF assms(4,5)])
  ultimately show ?thesis
    using keccak_lanes_eq [OF assms(1)] pack_lanes [OF assms(1-3)] by simp
qed

theorem tuple_keccak_exact_witness:
  "tuple_keccak id (map IntV [1, 2, 3, 4, 5, 6, 7]) Stopped = Inr (map IntV [1, 2, 3, 4, 5, 6, 7])"
  by (rule tuple_keccak_exact [THEN conjunct2, THEN conjunct1, of _ "replicate 25 0"])
     (simp_all add: u256_ok_def u256_modulus_def)

end
