(* ===== verification/Emulator.thy ===== *)
theory Emulator
  imports Crypto_Ops
begin

text \<open>
  The emulator proper (\<open>src/run/emulator.rs\<close>): the gas table, one definition per opcode of the big match
  in \<open>run_one_dont_catch_errors\<close>, the step with and without error handling, and the run loop.  A handler
  is a computation on the machine: it ends with a result (\<open>True\<close> goes on, \<open>False\<close> blocks or halts),
  with an error and the machine as changed so far, or in a panic.  The debugger and the profiler, which
  drive the same step, and all printing are left out.
\<close>

section \<open>Gas\<close>

fun gas_for_pairing_loop :: "nat \<Rightarrow> u64 \<Rightarrow> val \<Rightarrow> u64" where
  "gas_for_pairing_loop 0 i v = 1000 + max_pairing_size * 500000"
| "gas_for_pairing_loop (Suc k) i v =
     (case v of
        TupleV tup \<Rightarrow> if length tup \<noteq> 2 then 1000 + i * 500000 else gas_for_pairing_loop k (i + 1) (tup ! 1)
      | _ \<Rightarrow> 1000 + i * 500000)"

text \<open>\<open>contents.get(0)\<close> is the bottom of the stack.\<close>

definition stack_contents_0 :: "machine \<Rightarrow> val option" where
  "stack_contents_0 m = (if stack m = [] then None else Some (last (stack m)))"

definition gas_for_pairing :: "machine \<Rightarrow> u64 option" where
  "gas_for_pairing m =
     (case stack_contents_0 m of
        Some v \<Rightarrow> Some (gas_for_pairing_loop max_pairing_size 0 v)
      | None \<Rightarrow> Some 1000)"

definition gas_for_blake2f :: "machine \<Rightarrow> u64 option" where
  "gas_for_blake2f m =
     (case stack_contents_0 m of
        Some (BufferV buf) \<Rightarrow>
          map_option (\<lambda>bs. let num_rounds = be_value bs in 10 * (if num_rounds > 0xffff then 0xffff else num_rounds))
            (buffer_as_bytes buf 4)
      | _ \<Rightarrow> Some 10)"

text \<open>The cost of an opcode; \<open>None\<close> is a panic while reading the stack.\<close>

primrec op_gas :: "machine \<Rightarrow> avm_opcode \<Rightarrow> u64 option" where
  "op_gas m Zero = Some 5"
| "op_gas m Add = Some 3"
| "op_gas m Mul = Some 3"
| "op_gas m Sub = Some 3"
| "op_gas m Div = Some 4"
| "op_gas m Sdiv = Some 7"
| "op_gas m Mod = Some 4"
| "op_gas m Smod = Some 7"
| "op_gas m AddMod = Some 4"
| "op_gas m MulMod = Some 4"
| "op_gas m Exp = Some 25"
| "op_gas m SignExtend = Some 7"
| "op_gas m LessThan = Some 2"
| "op_gas m GreaterThan = Some 2"
| "op_gas m SLessThan = Some 2"
| "op_gas m SGreaterThan = Some 2"
| "op_gas m Equal = Some 2"
| "op_gas m IsZero = Some 1"
| "op_gas m BitwiseAnd = Some 2"
| "op_gas m BitwiseOr = Some 2"
| "op_gas m BitwiseXor = Some 2"
| "op_gas m BitwiseNeg = Some 1"
| "op_gas m Byte = Some 4"
| "op_gas m ShiftLeft = Some 4"
| "op_gas m ShiftRight = Some 4"
| "op_gas m ShiftArith = Some 4"
| "op_gas m Hash = Some 7"
| "op_gas m Type = Some 3"
| "op_gas m EthHash2 = Some 8"
| "op_gas m Keccakf = Some 600"
| "op_gas m Sha256f = Some 250"
| "op_gas m Ripemd160f = Some 250"
| "op_gas m Blake2f = gas_for_blake2f m"
| "op_gas m Pop = Some 1"
| "op_gas m Spush = Some 1"
| "op_gas m Rpush = Some 1"
| "op_gas m Rset = Some 2"
| "op_gas m Jump = Some 4"
| "op_gas m Cjump = Some 4"
| "op_gas m StackEmpty = Some 2"
| "op_gas m PCpush = Some 1"
| "op_gas m AuxPush = Some 1"
| "op_gas m AuxPop = Some 1"
| "op_gas m AuxStackEmpty = Some 2"
| "op_gas m Noop = Some 1"
| "op_gas m ErrPush = Some 1"
| "op_gas m ErrSet = Some 1"
| "op_gas m Dup0 = Some 1"
| "op_gas m Dup1 = Some 1"
| "op_gas m Dup2 = Some 1"
| "op_gas m Swap1 = Some 1"
| "op_gas m Swap2 = Some 1"
| "op_gas m Tget = Some 2"
| "op_gas m Tset = Some 40"
| "op_gas m Tlen = Some 2"
| "op_gas m Xget = Some 3"
| "op_gas m Xset = Some 41"
| "op_gas m Breakpoint = Some 100"
| "op_gas m Log = Some 100"
| "op_gas m Send = Some 100"
| "op_gas m InboxPeek = Some 40"
| "op_gas m Inbox = Some 40"
| "op_gas m Error = Some 5"
| "op_gas m Halt = Some 10"
| "op_gas m SetGas = Some 1"
| "op_gas m PushGas = Some 1"
| "op_gas m ErrCodePoint = Some 25"
| "op_gas m PushInsn = Some 25"
| "op_gas m PushInsnImm = Some 25"
| "op_gas m OpenInsn = Some 25"
| "op_gas m Sideload = Some 10"
| "op_gas m EcRecover = Some 20000"
| "op_gas m EcAdd = Some 3500"
| "op_gas m EcMul = Some 82000"
| "op_gas m EcPairing = gas_for_pairing m"
| "op_gas m DebugPrint = Some 1"
| "op_gas m NewBuffer = Some 1"
| "op_gas m GetBuffer8 = Some 10"
| "op_gas m GetBuffer64 = Some 10"
| "op_gas m GetBuffer256 = Some 10"
| "op_gas m SetBuffer8 = Some 100"
| "op_gas m SetBuffer64 = Some 100"
| "op_gas m SetBuffer256 = Some 100"

text \<open>The outer \<open>None\<close> is a panic, the inner one a missing instruction.\<close>

definition next_op_gas :: "machine \<Rightarrow> u64 option option" where
  "next_op_gas m =
     (case state m of
        Running pc \<Rightarrow>
          (case get_insn (code m) pc of
             None \<Rightarrow> None
           | Some None \<Rightarrow> Some None
           | Some (Some insn) \<Rightarrow> map_option Some (op_gas m (opcode insn)))
      | _ \<Rightarrow> Some None)"

section \<open>Handlers\<close>

text \<open>Shapes that many handlers share.\<close>

definition un_op :: "(uint256 \<Rightarrow> uint256) \<Rightarrow> bool exec" where
  "un_op f = bind_c pop_uint (\<lambda>r. push_next (IntV (f r)))"

definition bin_op :: "(uint256 \<Rightarrow> uint256 \<Rightarrow> uint256) \<Rightarrow> bool exec" where
  "bin_op f = bind_c pop_uint (\<lambda>r1. bind_c pop_uint (\<lambda>r2. push_next (IntV (f r1 r2))))"

definition push_or_throw :: "string \<Rightarrow> uint256 option \<Rightarrow> bool exec" where
  "push_or_throw msg ores = (case ores of Some res \<Rightarrow> push_next (IntV res) | None \<Rightarrow> throw msg None)"

definition bin_op_fail :: "string \<Rightarrow> (uint256 \<Rightarrow> uint256 \<Rightarrow> uint256 option) \<Rightarrow> bool exec" where
  "bin_op_fail msg f = bind_c pop_uint (\<lambda>r1. bind_c pop_uint (\<lambda>r2. push_or_throw msg (f r1 r2)))"

definition uint_of_bool :: "bool \<Rightarrow> uint256" where
  "uint_of_bool b = uint256_from_usize (if b then 1 else 0)"

subsection \<open>Control and registers\<close>

definition op_noop :: "bool exec" where
  "op_noop = next_insn"

definition op_panic :: "bool exec" where
  "op_panic = throw ''panicked'' None"

definition op_jump :: "bool exec" where
  "op_jump = bind_c pop_codepoint (\<lambda>cp. then_c (modify_c (\<lambda>m. m\<lparr>state := Running cp\<rparr>)) (return_c True))"

definition op_cjump :: "bool exec" where
  "op_cjump = bind_c pop_codepoint (\<lambda>cp. bind_c pop_uint (\<lambda>cond.
     if cond \<noteq> uint256_zero then then_c (modify_c (\<lambda>m. m\<lparr>state := Running cp\<rparr>)) (return_c True)
     else next_insn))"

definition op_pcpush :: "bool exec" where
  "op_pcpush m = (case get_pc m of Inl e \<Rightarrow> Fail e m | Inr pc \<Rightarrow> push_next (CodePointV pc) m)"

definition op_rpush :: "bool exec" where
  "op_rpush m = push_next (register m) m"

definition op_rset :: "bool exec" where
  "op_rset = bind_c pop (\<lambda>v. then_c (modify_c (\<lambda>m. m\<lparr>register := v\<rparr>)) next_insn)"

definition op_spush :: "bool exec" where
  "op_spush m = push_next (static_val m) m"

definition op_errset :: "bool exec" where
  "op_errset = bind_c pop_codepoint (\<lambda>cp. then_c (modify_c (\<lambda>m. m\<lparr>err_codepoint := cp\<rparr>)) next_insn)"

definition op_errpush :: "bool exec" where
  "op_errpush m = push_next (CodePointV (err_codepoint m)) m"

definition op_breakpoint :: "bool exec" where
  "op_breakpoint = then_c incr_pc (return_c False)"

definition op_halt :: "bool exec" where
  "op_halt = then_c (modify_c (\<lambda>m. m\<lparr>state := Stopped\<rparr>)) (return_c False)"

definition op_debugprint :: "bool exec" where
  "op_debugprint = bind_c pop (\<lambda>r1.
     if check_debugprint_for_malformed_trace_info r1 then next_insn else panic_c)"

definition op_pushgas :: "bool exec" where
  "op_pushgas m = push_next (IntV (arb_gas_remaining m)) m"

definition op_setgas :: "bool exec" where
  "op_setgas = bind_c pop_uint (\<lambda>gas. then_c (modify_c (\<lambda>m. m\<lparr>arb_gas_remaining := gas\<rparr>)) next_insn)"

definition op_sideload :: "bool exec" where
  "op_sideload = bind_c pop_uint (\<lambda>_. push_next value_none)"

subsection \<open>Tuples and stacks\<close>

definition op_tset :: "bool exec" where
  "op_tset = bind_c pop_usize (\<lambda>idx. bind_c pop_tuple (\<lambda>tup. bind_c pop (\<lambda>v.
     if idx < length tup then push_next (value_new_tuple (tup[idx := v]))
     else throw ''index out of bounds in Tset'' None)))"

definition op_tget :: "bool exec" where
  "op_tget = bind_c pop_usize (\<lambda>idx. bind_c pop_tuple (\<lambda>tup.
     if idx < length tup then push_next (tup ! idx) else throw ''index out of bounds in Tget'' None))"

definition op_tlen :: "bool exec" where
  "op_tlen = bind_c pop_tuple (\<lambda>tup. push_next (IntV (uint256_from_usize (length tup))))"

definition op_pop :: "bool exec" where
  "op_pop = bind_c pop (\<lambda>_. next_insn)"

definition op_stackempty :: "bool exec" where
  "op_stackempty m = push_next (IntV (uint_of_bool (value_stack_is_empty (stack m)))) m"

definition op_auxpush :: "bool exec" where
  "op_auxpush = bind_c pop (\<lambda>v. then_c (push_aux v) next_insn)"

definition op_auxpop :: "bool exec" where
  "op_auxpop = bind_c (on_aux_stack value_stack_pop) push_next"

definition op_auxstackempty :: "bool exec" where
  "op_auxstackempty m = push_next (IntV (uint_of_bool (value_stack_is_empty (aux_stack m)))) m"

definition op_xget :: "bool exec" where
  "op_xget = bind_c pop_usize (\<lambda>slot_num m.
     case value_stack_top (aux_stack m) of
       None \<Rightarrow> throw ''aux stack underflow'' None m
     | Some aux_top \<Rightarrow>
         (case aux_top of
            TupleV v \<Rightarrow>
              (case get_at v slot_num of
                 Some x \<Rightarrow> push_next x m
               | None \<Rightarrow> throw ''tuple access out of bounds'' None m)
          | _ \<Rightarrow> throw ''expected tuple on aux stack'' (Some aux_top) m))"

definition op_xset :: "bool exec" where
  "op_xset = bind_c pop_usize (\<lambda>slot_num. bind_c (on_aux_stack value_stack_pop_tuple) (\<lambda>tup.
     if slot_num < length tup
     then bind_c pop (\<lambda>v. then_c (push_aux (value_new_tuple (tup[slot_num := v]))) next_insn)
     else throw ''tuple access out of bounds'' None))"

definition op_dup0 :: "bool exec" where
  "op_dup0 = bind_c pop (\<lambda>top. then_c (push top) (push_next top))"

definition op_dup1 :: "bool exec" where
  "op_dup1 = bind_c pop (\<lambda>top. bind_c pop (\<lambda>snd. then_c (push snd) (then_c (push top) (push_next snd))))"

definition op_dup2 :: "bool exec" where
  "op_dup2 = bind_c pop (\<lambda>top. bind_c pop (\<lambda>snd. bind_c pop (\<lambda>trd.
     then_c (push trd) (then_c (push snd) (then_c (push top) (push_next trd))))))"

definition op_swap1 :: "bool exec" where
  "op_swap1 = bind_c pop (\<lambda>top. bind_c pop (\<lambda>snd. then_c (push top) (push_next snd)))"

definition op_swap2 :: "bool exec" where
  "op_swap2 = bind_c pop (\<lambda>top. bind_c pop (\<lambda>snd. bind_c pop (\<lambda>trd.
     then_c (push top) (then_c (push snd) (push_next trd)))))"

subsection \<open>Arithmetic and comparison\<close>

definition op_iszero :: "bool exec" where
  "op_iszero = un_op (\<lambda>r. uint_of_bool (r = uint256_zero))"

definition op_bitwiseneg :: "bool exec" where
  "op_bitwiseneg = un_op uint256_bitwise_neg"

definition op_hash :: "externals \<Rightarrow> bool exec" where
  "op_hash ext = bind_c pop (\<lambda>v. bind_c (unwrap_c (value_avm_hash (keccak256 ext) v)) (\<lambda>h. push_next (IntV h)))"

definition op_add :: "bool exec" where "op_add = bin_op uint256_add"

definition op_sub :: "bool exec" where
  "op_sub = bind_c pop_uint (\<lambda>r1. bind_c pop_uint (\<lambda>r2.
     bind_c (unwrap_c (uint256_unchecked_sub r1 r2)) (\<lambda>r. push_next (IntV r))))"

definition op_mul :: "bool exec" where "op_mul = bin_op uint256_mul"

definition op_div :: "bool exec" where "op_div = bin_op_fail ''divide by zero'' uint256_div"

definition op_mod :: "bool exec" where "op_mod = bin_op_fail ''modulo by zero'' uint256_modulo"

definition op_sdiv :: "bool exec" where
  "op_sdiv = bind_c pop_uint (\<lambda>r1. bind_c pop_uint (\<lambda>r2.
     bind_c (unwrap_c (uint256_sdiv r1 r2)) (push_or_throw ''divide by zero'')))"

definition op_smod :: "bool exec" where
  "op_smod = bind_c pop_uint (\<lambda>r1. bind_c pop_uint (\<lambda>r2.
     bind_c (unwrap_c (uint256_smodulo r1 r2)) (push_or_throw ''modulo by zero'')))"

definition op_addmod :: "bool exec" where
  "op_addmod = bind_c pop_uint (\<lambda>r1. bind_c pop_uint (\<lambda>r2. bind_c pop_uint (\<lambda>r3.
     push_or_throw ''modulo by zero'' (uint256_add_mod r1 r2 r3))))"

definition op_mulmod :: "bool exec" where
  "op_mulmod = bind_c pop_uint (\<lambda>r1. bind_c pop_uint (\<lambda>r2. bind_c pop_uint (\<lambda>r3.
     push_or_throw ''modulo by zero'' (uint256_mul_mod r1 r2 r3))))"

definition op_exp :: "bool exec" where "op_exp = bin_op uint256_exp"

text \<open>The value that is pushed; \<open>None\<close> is the error of the checked subtraction.\<close>

definition sign_extend :: "uint256 \<Rightarrow> uint256 \<Rightarrow> uint256 option" where
  "sign_extend bnum x =
     (case uint256_to_usize bnum of
        Some ub \<Rightarrow>
          if ub \<ge> 31 then Some x
          else let shifted_bit = uint256_exp (uint256_from_usize 2) (uint256_from_usize (8 * ub + 7));
                   sign_bit = uint256_bitwise_and x shifted_bit \<noteq> uint256_zero
               in map_option (\<lambda>msk. if sign_bit then uint256_bitwise_or x (uint256_bitwise_neg msk)
                                    else uint256_bitwise_and x msk)
                    (uint256_sub (uint256_mul shifted_bit (uint256_from_u64 2)) uint256_one)
      | None \<Rightarrow> Some x)"

definition op_signextend :: "bool exec" where
  "op_signextend = bin_op_fail ''underflow in signextend'' sign_extend"

definition op_lessthan :: "bool exec" where
  "op_lessthan = bin_op (\<lambda>r1 r2. uint_of_bool (r1 < r2))"

definition op_greaterthan :: "bool exec" where
  "op_greaterthan = bin_op (\<lambda>r1 r2. uint_of_bool (r1 > r2))"

definition op_slessthan :: "bool exec" where
  "op_slessthan = bin_op (\<lambda>r1 r2. uint_of_bool (uint256_s_less_than r1 r2))"

definition op_sgreaterthan :: "bool exec" where
  "op_sgreaterthan = bin_op (\<lambda>r1 r2. uint_of_bool (uint256_s_less_than r2 r1))"

definition op_equal :: "bool exec" where
  "op_equal = bind_c pop (\<lambda>r1. bind_c pop (\<lambda>r2. push_next (IntV (uint_of_bool (r1 = r2)))))"

definition op_type :: "bool exec" where
  "op_type = bind_c pop (\<lambda>v. bind_c (unwrap_c (value_type_insn_result v)) (\<lambda>t.
     push_next (IntV (uint256_from_usize t))))"

definition op_bitwiseand :: "bool exec" where "op_bitwiseand = bin_op uint256_bitwise_and"

definition op_bitwiseor :: "bool exec" where "op_bitwiseor = bin_op uint256_bitwise_or"

definition op_bitwisexor :: "bool exec" where "op_bitwisexor = bin_op uint256_bitwise_xor"

definition byte_of :: "uint256 \<Rightarrow> uint256 \<Rightarrow> uint256" where
  "byte_of r1 r2 =
     (if r1 < uint256_from_usize 32
      then let shift_factor = uint256_exp (uint256_from_u64 256) (uint256_from_usize (31 - r1))
           in uint256_bitwise_and (r2 div shift_factor) (uint256_from_usize 255)
      else uint256_zero)"

definition op_byte :: "bool exec" where "op_byte = bin_op byte_of"

definition shift_op :: "(uint256 \<Rightarrow> usize \<Rightarrow> uint256) \<Rightarrow> uint256 \<Rightarrow> uint256 \<Rightarrow> uint256" where
  "shift_op f shift_big v = (case uint256_to_usize shift_big of Some shift \<Rightarrow> f v shift | None \<Rightarrow> uint256_zero)"

definition op_shiftleft :: "bool exec" where "op_shiftleft = bin_op (shift_op uint256_shift_left)"

definition op_shiftright :: "bool exec" where "op_shiftright = bin_op (shift_op uint256_shift_right)"

definition op_shiftarith :: "bool exec" where "op_shiftarith = bin_op (shift_op uint256_shift_arith)"

subsection \<open>Hashes and curves\<close>

definition op_ethhash2 :: "externals \<Rightarrow> bool exec" where
  "op_ethhash2 ext = bin_op (uint256_avm_hash2 (keccak256 ext))"

definition op_keccakf :: "externals \<Rightarrow> bool exec" where
  "op_keccakf ext = bind_c pop_tuple (\<lambda>t1 m.
     case tuple_keccak (keccak_f1600 ext) t1 (state m) of
       Inl e \<Rightarrow> Fail e m
     | Inr t2 \<Rightarrow> push_next (value_new_tuple t2) m)"

definition op_sha256f :: "externals \<Rightarrow> bool exec" where
  "op_sha256f ext = bind_c pop_uint (\<lambda>t1. bind_c pop_uint (\<lambda>t2. bind_c pop_uint (\<lambda>t3.
     bind_c (unwrap_c (sha256_compression (sha256_digest_block ext) t1 t2 t3)) (\<lambda>r. push_next (IntV r)))))"

definition op_ripemd160f :: "bool exec" where
  "op_ripemd160f = bind_c pop_uint (\<lambda>t1. bind_c pop_uint (\<lambda>t2. bind_c pop_uint (\<lambda>t3.
     bind_c (unwrap_c (ripemd160_compression t1 t2 t3)) (\<lambda>r. push_next (IntV r)))))"

definition op_blake2f :: "externals \<Rightarrow> bool exec" where
  "op_blake2f ext = bind_c pop_buffer (\<lambda>t.
     bind_c (unwrap_c (blake2bf_instruction (keccak256 ext) t)) (\<lambda>r. push_next (BufferV r)))"

definition op_ecrecover :: "externals \<Rightarrow> bool exec" where
  "op_ecrecover ext = bind_c pop_uint (\<lambda>first_half. bind_c pop_uint (\<lambda>second_half.
     bind_c pop_uint (\<lambda>recover_id. bind_c pop_uint (\<lambda>msg_hash.
       push_next (IntV (do_ecrecover ext first_half second_half recover_id msg_hash))))))"

definition push_point :: "string + uint256 \<times> uint256 \<Rightarrow> bool exec" where
  "push_point r = (case r of Inl msg \<Rightarrow> throw msg None
                   | Inr (z0, z1) \<Rightarrow> then_c (push_uint z1) (push_next (IntV z0)))"

definition op_ecadd :: "externals \<Rightarrow> bool exec" where
  "op_ecadd ext = bind_c pop_uint (\<lambda>x0. bind_c pop_uint (\<lambda>x1. bind_c pop_uint (\<lambda>y0. bind_c pop_uint (\<lambda>y1.
     push_point (do_ecadd (bn ext) x0 x1 y0 y1)))))"

definition op_ecmul :: "externals \<Rightarrow> bool exec" where
  "op_ecmul ext = bind_c pop_uint (\<lambda>x0. bind_c pop_uint (\<lambda>x1. bind_c pop_uint (\<lambda>n.
     push_point (do_ecmul (bn ext) x0 x1 n))))"

definition op_ecpairing :: "externals \<Rightarrow> bool exec" where
  "op_ecpairing ext = bind_c pop (\<lambda>x.
     case do_ecpairing (bn ext) x of
       Some result \<Rightarrow> push_next (IntV (uint_of_bool result))
     | None \<Rightarrow> throw ''invalid operand to EcPairing instruction'' None)"

subsection \<open>Input and output\<close>

text \<open>Both handlers take the gas that remained before this instruction and put it back when the machine
  blocks.\<close>

definition op_inbox :: "bool \<Rightarrow> uint256 \<Rightarrow> bool exec" where
  "op_inbox has_immediate gas_before m =
     (case get_from_inbox (runtime_env m) of
        (Some msg, env) \<Rightarrow> push_next msg (m\<lparr>runtime_env := env\<rparr>)
      | (None, env) \<Rightarrow>
          let m1 = m\<lparr>runtime_env := env, arb_gas_remaining := gas_before\<rparr>;
              m2 = (if has_immediate then m1\<lparr>stack := snd (value_stack_pop (stack m1) (state m1))\<rparr> else m1)
          in Done False m2)"

definition op_inboxpeek :: "uint256 \<Rightarrow> bool exec" where
  "op_inboxpeek gas_before = bind_c pop_uint (\<lambda>block m.
     case peek_at_inbox_head (runtime_env m) of
       Some (TupleV tup) \<Rightarrow>
         (case get_at tup 1 of
            None \<Rightarrow> Panic
          | Some (IntV msg_bn) \<Rightarrow> push_next (IntV (uint_of_bool (block = msg_bn))) m
          | Some _ \<Rightarrow> throw ''inbox contents not a tuple'' None m)
     | Some _ \<Rightarrow> throw ''blocknum not an integer'' None m
     | None \<Rightarrow> Done False (m\<lparr>arb_gas_remaining := gas_before, stack := value_stack_push_uint (stack m) block\<rparr>))"

definition op_send :: "bool exec" where
  "op_send = bind_c pop_uint (\<lambda>sz. bind_c pop_buffer (\<lambda>b m.
     case push_send (runtime_env m) sz b of
       None \<Rightarrow> Panic
     | Some env \<Rightarrow> next_insn (m\<lparr>runtime_env := env\<rparr>)))"

definition op_log :: "bool exec" where
  "op_log = bind_c pop (\<lambda>v. then_c (modify_c (\<lambda>m. m\<lparr>runtime_env := push_log (runtime_env m) v\<rparr>)) next_insn)"

subsection \<open>Code segments\<close>

definition op_errcodepoint :: "bool exec" where
  "op_errcodepoint m =
     (let (cp, segs) = create_segment (code m) in push_next (CodePointV cp) (m\<lparr>code := segs\<rparr>))"

definition push_insn_op :: "usize \<Rightarrow> val option \<Rightarrow> codept \<Rightarrow> bool exec" where
  "push_insn_op op imm cp m =
     (case push_insn (code m) op imm cp of
        None \<Rightarrow> Panic
      | Some (new_cp, segs) \<Rightarrow> push_next (CodePointV new_cp) (m\<lparr>code := segs\<rparr>))"

definition op_pushinsn :: "bool exec" where
  "op_pushinsn = bind_c pop_usize (\<lambda>op. bind_c pop_codepoint (\<lambda>cp. push_insn_op op None cp))"

definition op_pushinsnimm :: "bool exec" where
  "op_pushinsnimm = bind_c pop_usize (\<lambda>op. bind_c pop (\<lambda>imm. bind_c pop_codepoint (\<lambda>cp.
     push_insn_op op (Some imm) cp)))"

definition op_openinsn :: "bool exec" where
  "op_openinsn = bind_c pop_codepoint (\<lambda>cp m.
     case get_insn (code m) cp of
       Some (Some insn) \<Rightarrow>
         then_c (push (case immediate insn of Some v \<Rightarrow> value_new_tuple [v] | None \<Rightarrow> value_none))
           (push_next (IntV (uint256_from_usize (avm_opcode_to_number (opcode insn))))) m
     | _ \<Rightarrow> Panic)"

subsection \<open>Buffers\<close>

definition op_newbuffer :: "externals \<Rightarrow> bool exec" where
  "op_newbuffer ext = bind_c (unwrap_c (value_new_buffer (keccak256 ext) [])) push_next"

definition op_getbuffer8 :: "bool exec" where
  "op_getbuffer8 = bind_c pop_usize (\<lambda>offset. bind_c pop_buffer (\<lambda>b.
     bind_c (unwrap_c (buffer_read_byte b offset)) (\<lambda>r. push_next (IntV (uint256_from_usize (unat r))))))"

text \<open>The test \<open>offset + n < offset\<close> catches the wrap-around of the address.\<close>

definition get_buffer :: "nat \<Rightarrow> bool exec" where
  "get_buffer n = bind_c pop_usize (\<lambda>offset. bind_c pop_buffer (\<lambda>b.
     if usize_add offset (n - 1) < offset
     then throw ''buffer overflow'' (Some (IntV (uint256_from_usize offset)))
     else bind_c (unwrap_c (collect_opt (\<lambda>i. buffer_read_byte b (offset + i)) [0..<n]))
            (\<lambda>res. push_next (IntV (uint256_from_bytes res)))))"

definition op_getbuffer64 :: "bool exec" where "op_getbuffer64 = get_buffer 8"

definition op_getbuffer256 :: "bool exec" where "op_getbuffer256 = get_buffer 32"

definition op_setbuffer8 :: "externals \<Rightarrow> bool exec" where
  "op_setbuffer8 ext = bind_c pop_usize (\<lambda>offset. bind_c pop_uint (\<lambda>v. bind_c pop_buffer (\<lambda>b.
     bind_c (unwrap_c (buffer_set_byte (keccak256 ext) b offset (uint256_to_bytes_be v ! 31)))
       (\<lambda>nbuf. push_next (BufferV nbuf)))))"

text \<open>Writes the first \<open>n\<close> of the 32 big-endian bytes of the value.\<close>

definition set_buffer :: "externals \<Rightarrow> nat \<Rightarrow> bool exec" where
  "set_buffer ext n = bind_c pop_usize (\<lambda>offset.
     if usize_add offset (n - 1) < offset
     then throw ''buffer overflow'' (Some (IntV (uint256_from_usize offset)))
     else bind_c pop_uint (\<lambda>v. bind_c pop_buffer (\<lambda>b.
            bind_c (unwrap_c (write_loop (buffer_set_byte (keccak256 ext)) b offset (take n (uint256_to_bytes_be v))))
              (\<lambda>nbuf. push_next (BufferV nbuf)))))"

definition op_setbuffer64 :: "externals \<Rightarrow> bool exec" where "op_setbuffer64 ext = set_buffer ext 8"

definition op_setbuffer256 :: "externals \<Rightarrow> bool exec" where "op_setbuffer256 ext = set_buffer ext 32"

section \<open>Steps\<close>

text \<open>The match over the opcodes.\<close>

primrec exec_opcode :: "externals \<Rightarrow> bool \<Rightarrow> uint256 \<Rightarrow> avm_opcode \<Rightarrow> bool exec" where
  "exec_opcode ext has_immediate gas_before Zero = op_panic"
| "exec_opcode ext has_immediate gas_before Add = op_add"
| "exec_opcode ext has_immediate gas_before Mul = op_mul"
| "exec_opcode ext has_immediate gas_before Sub = op_sub"
| "exec_opcode ext has_immediate gas_before Div = op_div"
| "exec_opcode ext has_immediate gas_before Sdiv = op_sdiv"
| "exec_opcode ext has_immediate gas_before Mod = op_mod"
| "exec_opcode ext has_immediate gas_before Smod = op_smod"
| "exec_opcode ext has_immediate gas_before AddMod = op_addmod"
| "exec_opcode ext has_immediate gas_before MulMod = op_mulmod"
| "exec_opcode ext has_immediate gas_before Exp = op_exp"
| "exec_opcode ext has_immediate gas_before SignExtend = op_signextend"
| "exec_opcode ext has_immediate gas_before LessThan = op_lessthan"
| "exec_opcode ext has_immediate gas_before GreaterThan = op_greaterthan"
| "exec_opcode ext has_immediate gas_before SLessThan = op_slessthan"
| "exec_opcode ext has_immediate gas_before SGreaterThan = op_sgreaterthan"
| "exec_opcode ext has_immediate gas_before Equal = op_equal"
| "exec_opcode ext has_immediate gas_before IsZero = op_iszero"
| "exec_opcode ext has_immediate gas_before BitwiseAnd = op_bitwiseand"
| "exec_opcode ext has_immediate gas_before BitwiseOr = op_bitwiseor"
| "exec_opcode ext has_immediate gas_before BitwiseXor = op_bitwisexor"
| "exec_opcode ext has_immediate gas_before BitwiseNeg = op_bitwiseneg"
| "exec_opcode ext has_immediate gas_before Byte = op_byte"
| "exec_opcode ext has_immediate gas_before ShiftLeft = op_shiftleft"
| "exec_opcode ext has_immediate gas_before ShiftRight = op_shiftright"
| "exec_opcode ext has_immediate gas_before ShiftArith = op_shiftarith"
| "exec_opcode ext has_immediate gas_before Hash = op_hash ext"
| "exec_opcode ext has_immediate gas_before Type = op_type"
| "exec_opcode ext has_immediate gas_before EthHash2 = op_ethhash2 ext"
| "exec_opcode ext has_immediate gas_before Keccakf = op_keccakf ext"
| "exec_opcode ext has_immediate gas_before Sha256f = op_sha256f ext"
| "exec_opcode ext has_immediate gas_before Ripemd160f = op_ripemd160f"
| "exec_opcode ext has_immediate gas_before Blake2f = op_blake2f ext"
| "exec_opcode ext has_immediate gas_before Pop = op_pop"
| "exec_opcode ext has_immediate gas_before Spush = op_spush"
| "exec_opcode ext has_immediate gas_before Rpush = op_rpush"
| "exec_opcode ext has_immediate gas_before Rset = op_rset"
| "exec_opcode ext has_immediate gas_before Jump = op_jump"
| "exec_opcode ext has_immediate gas_before Cjump = op_cjump"
| "exec_opcode ext has_immediate gas_before StackEmpty = op_stackempty"
| "exec_opcode ext has_immediate gas_before PCpush = op_pcpush"
| "exec_opcode ext has_immediate gas_before AuxPush = op_auxpush"
| "exec_opcode ext has_immediate gas_before AuxPop = op_auxpop"
| "exec_opcode ext has_immediate gas_before AuxStackEmpty = op_auxstackempty"
| "exec_opcode ext has_immediate gas_before Noop = op_noop"
| "exec_opcode ext has_immediate gas_before ErrPush = op_errpush"
| "exec_opcode ext has_immediate gas_before ErrSet = op_errset"
| "exec_opcode ext has_immediate gas_before Dup0 = op_dup0"
| "exec_opcode ext has_immediate gas_before Dup1 = op_dup1"
| "exec_opcode ext has_immediate gas_before Dup2 = op_dup2"
| "exec_opcode ext has_immediate gas_before Swap1 = op_swap1"
| "exec_opcode ext has_immediate gas_before Swap2 = op_swap2"
| "exec_opcode ext has_immediate gas_before Tget = op_tget"
| "exec_opcode ext has_immediate gas_before Tset = op_tset"
| "exec_opcode ext has_immediate gas_before Tlen = op_tlen"
| "exec_opcode ext has_immediate gas_before Xget = op_xget"
| "exec_opcode ext has_immediate gas_before Xset = op_xset"
| "exec_opcode ext has_immediate gas_before Breakpoint = op_breakpoint"
| "exec_opcode ext has_immediate gas_before Log = op_log"
| "exec_opcode ext has_immediate gas_before Send = op_send"
| "exec_opcode ext has_immediate gas_before InboxPeek = op_inboxpeek gas_before"
| "exec_opcode ext has_immediate gas_before Inbox = op_inbox has_immediate gas_before"
| "exec_opcode ext has_immediate gas_before Error = op_panic"
| "exec_opcode ext has_immediate gas_before Halt = op_halt"
| "exec_opcode ext has_immediate gas_before SetGas = op_setgas"
| "exec_opcode ext has_immediate gas_before PushGas = op_pushgas"
| "exec_opcode ext has_immediate gas_before ErrCodePoint = op_errcodepoint"
| "exec_opcode ext has_immediate gas_before PushInsn = op_pushinsn"
| "exec_opcode ext has_immediate gas_before PushInsnImm = op_pushinsnimm"
| "exec_opcode ext has_immediate gas_before OpenInsn = op_openinsn"
| "exec_opcode ext has_immediate gas_before Sideload = op_sideload"
| "exec_opcode ext has_immediate gas_before EcRecover = op_ecrecover ext"
| "exec_opcode ext has_immediate gas_before EcAdd = op_ecadd ext"
| "exec_opcode ext has_immediate gas_before EcMul = op_ecmul ext"
| "exec_opcode ext has_immediate gas_before EcPairing = op_ecpairing ext"
| "exec_opcode ext has_immediate gas_before DebugPrint = op_debugprint"
| "exec_opcode ext has_immediate gas_before NewBuffer = op_newbuffer ext"
| "exec_opcode ext has_immediate gas_before GetBuffer8 = op_getbuffer8"
| "exec_opcode ext has_immediate gas_before GetBuffer64 = op_getbuffer64"
| "exec_opcode ext has_immediate gas_before GetBuffer256 = op_getbuffer256"
| "exec_opcode ext has_immediate gas_before SetBuffer8 = op_setbuffer8 ext"
| "exec_opcode ext has_immediate gas_before SetBuffer64 = op_setbuffer64 ext"
| "exec_opcode ext has_immediate gas_before SetBuffer256 = op_setbuffer256 ext"

definition push_immediate :: "avm_opcode instruction \<Rightarrow> machine \<Rightarrow> machine" where
  "push_immediate insn m =
     (case immediate insn of Some v \<Rightarrow> m\<lparr>stack := value_stack_push (stack m) v\<rparr> | None \<Rightarrow> m)"

definition run_one_dont_catch_errors :: "externals \<Rightarrow> bool exec" where
  "run_one_dont_catch_errors ext m =
     (case state m of
        Running pc \<Rightarrow>
          (case get_insn (code m) pc of
             None \<Rightarrow> Panic
           | Some None \<Rightarrow> throw ''invalid program counter'' None m
           | Some (Some insn) \<Rightarrow>
               let m1 = push_immediate insn m;
                   exec = exec_opcode ext (immediate insn \<noteq> None) (arb_gas_remaining m1) (opcode insn)
               in (case next_op_gas m1 of
                     None \<Rightarrow> Panic
                   | Some None \<Rightarrow> exec m1
                   | Some (Some gas) \<Rightarrow>
                       (case uint256_sub (arb_gas_remaining m1) (uint256_from_u64 gas) of
                          Some remaining \<Rightarrow>
                            exec (m1\<lparr>arb_gas_remaining := remaining,
                                     total_gas_usage := uint256_add (total_gas_usage m1) (uint256_from_u64 gas)\<rparr>)
                        | None \<Rightarrow> throw ''Out of ArbGas'' None (m1\<lparr>arb_gas_remaining := uint256_max_uint\<rparr>))))
      | _ \<Rightarrow> throw ''tried to run machine that is not runnable'' None m)"

definition run_one :: "externals \<Rightarrow> bool exec" where
  "run_one ext m =
     (case run_one_dont_catch_errors ext m of
        Done b m1 \<Rightarrow> Done b m1
      | Fail e m1 \<Rightarrow>
          if err_codepoint m1 = Null then Fail e m1
          else Done True (m1\<lparr>state := Running (err_codepoint m1)\<rparr>)
      | Panic \<Rightarrow> Panic)"

text \<open>
  The run loop.  The outer option is \<open>None\<close> when the loop does not end; the inner one is \<open>None\<close> for a panic.
  A step that blocks or halts takes back the cost of its instruction.
\<close>

partial_function (option) run_loop ::
    "externals \<Rightarrow> codept option \<Rightarrow> machine \<Rightarrow> u64 \<Rightarrow> (u64 \<times> machine) option option" where
  "run_loop ext stop_pc m gas_used =
     (if \<not> is_running (state m) then Some (Some (gas_used, m))
      else if stop_pc \<noteq> None \<and> state m = Running (the stop_pc) then Some (Some (gas_used, m))
      else case next_op_gas m of
             None \<Rightarrow> Some None
           | Some og \<Rightarrow>
               (let gas = (case og of Some g \<Rightarrow> g | None \<Rightarrow> 1);
                    gas_used1 = (case og of Some g \<Rightarrow> usize_add gas_used g | None \<Rightarrow> gas_used)
                in case run_one ext m of
                     Done still_runnable m1 \<Rightarrow>
                       if still_runnable then run_loop ext stop_pc m1 gas_used1
                       else (case uint256_sub (total_gas_usage m1) (uint256_from_u64 gas) of
                               None \<Rightarrow> Some None
                             | Some t \<Rightarrow> Some (Some ((gas_used1 + usize_limit - gas) mod usize_limit,
                                                    m1\<lparr>total_gas_usage := t\<rparr>)))
                   | Fail e m1 \<Rightarrow> Some (Some (gas_used1, m1\<lparr>state := ErrorState e\<rparr>))
                   | Panic \<Rightarrow> Some None))"

definition run :: "externals \<Rightarrow> codept option \<Rightarrow> machine \<Rightarrow> (u64 \<times> machine) option option" where
  "run ext stop_pc m = run_loop ext stop_pc m 0"

text \<open>The call of a function for a test (without the debugger): the final stack or an error.\<close>

definition test_call ::
    "externals \<Rightarrow> machine \<Rightarrow> codept \<Rightarrow> val list \<Rightarrow> ((execution_error + value_stack) \<times> machine) option option" where
  "test_call ext m func_addr args =
     (let (stop_pc, m1) = call_state m func_addr args
      in map_option (map_option (\<lambda>(cost, m2).
           (case state m2 of
              Stopped \<Rightarrow> Inl (execution_error_new ''execution stopped'' (state m2) None)
            | ErrorState e \<Rightarrow> Inl e
            | Running _ \<Rightarrow> Inr (stack m2), m2))) (run ext (Some stop_pc) m1))"

end
