(* ===== verification/Machine_Contract.thy ===== *)
theory Machine_Contract
  imports Emulator
begin

text \<open>
  What holds of every handler of the emulator.  The locale \<open>machine_contract\<close> states what an assertion
  on machines has to satisfy with respect to the primitive state changes (pops, pushes, registers, code,
  environment, program counter); under these laws every handler keeps the assertion, and panics only where
  the contract allows it.  Laws about the error handler and about the code store are asked for only when an
  allowed opcode changes them.  The contract is interpreted in theory \<open>Emulator_Safety\<close>: by the range of
  all values, by the absence of panics and by what ordinary instructions leave alone.
\<close>

named_theorems keeps_intros "rules for handlers that keep an assertion"

section \<open>Assertions on computations\<close>

text \<open>Running \<open>c\<close> where \<open>I\<close> holds keeps \<open>I\<close>, on success with a result satisfying \<open>A\<close>; \<open>p\<close> says whether a
  panic is allowed.\<close>

definition keeps :: "bool \<Rightarrow> (machine \<Rightarrow> bool) \<Rightarrow> ('a \<Rightarrow> bool) \<Rightarrow> 'a exec \<Rightarrow> bool" where
  "keeps p I A c \<longleftrightarrow>
     (\<forall>m. I m \<longrightarrow> (case c m of Done a m' \<Rightarrow> A a \<and> I m' | Fail e m' \<Rightarrow> I m' | Panic \<Rightarrow> p))"

text \<open>Running \<open>c\<close> where \<open>I\<close> holds ends where \<open>J\<close> holds.\<close>

abbreviation outcome_in :: "bool \<Rightarrow> (machine \<Rightarrow> bool) \<Rightarrow> (execution_error, machine, 'a) outcome \<Rightarrow> bool" where
  "outcome_in p J r \<equiv> (case r of Done a m' \<Rightarrow> J m' | Fail e m' \<Rightarrow> J m' | Panic \<Rightarrow> p)"

definition ends :: "bool \<Rightarrow> (machine \<Rightarrow> bool) \<Rightarrow> (machine \<Rightarrow> bool) \<Rightarrow> 'a exec \<Rightarrow> bool" where
  "ends p I J c \<longleftrightarrow>
     (\<forall>m. I m \<longrightarrow> outcome_in p J (c m))"

lemma endsI: "(\<And>m. I m \<Longrightarrow> outcome_in p J (c m)) \<Longrightarrow> ends p I J c"
  by (simp add: ends_def)

lemma ends_at: "ends p I J c \<Longrightarrow> I m \<Longrightarrow> outcome_in p J (c m)"
  by (simp add: ends_def)

lemma ends_bind:
  assumes "\<And>m. I m \<Longrightarrow> J m" "keeps p I A f" "\<And>a. A a \<Longrightarrow> ends p I J (g a)"
  shows "ends p I J (bind_c f g)"
  unfolding ends_def
proof (intro allI impI)
  fix m assume "I m"
  with assms(2) have "case f m of Done a m' \<Rightarrow> A a \<and> I m' | Fail e m' \<Rightarrow> I m' | Panic \<Rightarrow> p"
    by (simp add: keeps_def)
  with assms(1) assms(3) [unfolded ends_def, rule_format]
  show "case bind_c f g m of Done a m' \<Rightarrow> J m' | Fail e m' \<Rightarrow> J m' | Panic \<Rightarrow> p"
    by (cases "f m") (auto simp: bind_c_def)
qed

lemma ends_then: "(\<And>m. I m \<Longrightarrow> J m) \<Longrightarrow> keeps p I (\<lambda>_. True) f \<Longrightarrow> ends p I J g \<Longrightarrow> ends p I J (then_c f g)"
  unfolding then_c_def by (rule ends_bind [where A = "\<lambda>_. True"]) auto

lemma keeps_modify: "(\<And>m. I m \<Longrightarrow> I (f m)) \<Longrightarrow> keeps p I (\<lambda>_. True) (modify_c f)"
  by (simp add: keeps_def modify_c_def)

lemma keeps_unwrap: "p \<or> x \<noteq> None \<Longrightarrow> (\<And>a. x = Some a \<Longrightarrow> A a) \<Longrightarrow> keeps p I A (unwrap_c x)"
  by (auto simp: keeps_def unwrap_c_def split: option.splits)

lemma ends_throw: "(\<And>m. I m \<Longrightarrow> J m) \<Longrightarrow> ends p I J (throw why v)"
  by (simp add: ends_def throw_def)

lemma ends_if: "(b \<Longrightarrow> ends p I J f) \<Longrightarrow> (\<not> b \<Longrightarrow> ends p I J g) \<Longrightarrow> ends p I J (if b then f else g)"
  by simp

text \<open>What a pop does to a stack: it takes the top off if there is one and fails on the empty stack.\<close>

definition pops :: "(val \<Rightarrow> bool) \<Rightarrow> ('a \<Rightarrow> bool) \<Rightarrow> (value_stack \<Rightarrow> machine_state \<Rightarrow> (execution_error + 'a) \<times> value_stack) \<Rightarrow> bool" where
  "pops vp A f \<longleftrightarrow>
     (\<forall>st. snd (f [] st) = [] \<and> (\<exists>e. fst (f [] st) = Inl e))
     \<and> (\<forall>v s st. snd (f (v # s) st) = s \<and> (\<forall>a. vp v \<longrightarrow> fst (f (v # s) st) = Inr a \<longrightarrow> A a))"

lemmas pop_defs = value_stack_pop_def value_stack_pop_uint_def value_stack_pop_usize_def
  value_stack_pop_codepoint_def value_stack_pop_tuple_def value_stack_pop_buffer_def

lemma pops_Cons:
  "pops vp A f \<Longrightarrow> vp v \<Longrightarrow> snd (f (v # s) st) = s \<and> (\<forall>a. fst (f (v # s) st) = Inr a \<longrightarrow> A a)"
  by (simp add: pops_def)

lemma pops_all:
  "pops vp vp value_stack_pop"
  "pops vp (\<lambda>i. vp (IntV i)) value_stack_pop_uint"
  "pops vp (\<lambda>_. True) value_stack_pop_usize"
  "pops vp (\<lambda>_. True) value_stack_pop_codepoint"
  "pops vp (\<lambda>t. vp (TupleV t)) value_stack_pop_tuple"
  "pops vp (\<lambda>b. vp (BufferV b)) value_stack_pop_buffer"
  by (auto simp: pops_def pop_defs split: val.splits option.splits)

section \<open>Results in range\<close>

text \<open>What the emulator relies on of the libraries it calls: digests of 32 bytes, 25 lanes of 64 bits,
  eight words of 32 bits, and coordinates and addresses of at most 32 bytes.\<close>

definition ext_ok :: "externals \<Rightarrow> bool" where
  "ext_ok ext \<longleftrightarrow>
     (\<forall>bs. length (keccak256 ext bs) = 32)
     \<and> (\<forall>ls. length ls = 25 \<and> (\<forall>l \<in> set ls. l < 2 ^ 64) \<longrightarrow>
           length (keccak_f1600 ext ls) = 25 \<and> (\<forall>l \<in> set (keccak_f1600 ext ls). l < 2 ^ 64))
     \<and> (\<forall>a b. length a = 8 \<and> length b = 16 \<longrightarrow>
           length (sha256_digest_block ext a b) = 8 \<and> (\<forall>w \<in> set (sha256_digest_block ext a b). w < 2 ^ 32))
     \<and> (\<forall>r s v h a. sig_recover ext r s v h = Some a \<longrightarrow> length a \<le> 32)
     \<and> (\<forall>p x y. g1_coords (bn ext) p = Some (x, y) \<longrightarrow> length x \<le> 32 \<and> length y \<le> 32)"

lemma u256_ok_uint_of_bool [simp]: "u256_ok (uint_of_bool b)"
  by (simp add: uint_of_bool_def uint256_from_usize_def u256_ok_def u256_modulus_def)

lemma avm_hash2_ok: "\<forall>bs. length (kec bs) = 32 \<Longrightarrow> u256_ok (uint256_avm_hash2 kec a b)"
  by (simp add: uint256_avm_hash2_def from_bytes_ok)

lemma value_avm_hash2_ok: "\<forall>bs. length (kec bs) = 32 \<Longrightarrow> u256_ok (value_avm_hash2 kec a b)"
  by (simp add: value_avm_hash2_def from_bytes_ok)

lemma buffer_avm_hash_ok: "\<forall>bs. length (kec bs) = 32 \<Longrightarrow> buffer_ok kec b \<Longrightarrow> u256_ok (buffer_avm_hash kec b)"
proof -
  assume k: "\<forall>bs. length (kec bs) = 32" and b: "buffer_ok kec b"
  obtain k where "wf_spine kec k (root b)" using b by (rule buffer_okE)
  then show ?thesis
    using k by (cases k; cases "root b") (auto simp: buffer_avm_hash_def internal_new_def from_bytes_ok)
qed

lemma value_avm_hash_ok:
  "\<forall>bs. length (kec bs) = 32 \<Longrightarrow> value_ok kec v \<Longrightarrow> value_avm_hash kec v = Some h \<Longrightarrow> u256_ok h"
proof (induction v arbitrary: h)
  case (TupleV vs)
  have "u256_ok (foldl (uint256_avm_hash2 kec) a hs)" if "u256_ok a" for a and hs :: "nat list"
    using that TupleV.prems(1) by (induction hs arbitrary: a) (auto simp: avm_hash2_ok)
  with TupleV.prems show ?case by (auto simp: uint256_zero_def split: option.splits)
qed (auto simp: uint256_avm_hash_def from_bytes_ok buffer_avm_hash_ok value_avm_hash2_ok label_avm_hash_def
    split: label.splits)

lemma digits32_ok: "length ds \<le> 8 \<Longrightarrow> \<forall>d \<in> set ds. d < 2 ^ 32 \<Longrightarrow> u256_ok (uint256_from_u32_digits ds)"
proof -
  assume a: "length ds \<le> 8" "\<forall>d \<in> set ds. d < 2 ^ 32"
  have "le_value (2 ^ 32) ds < (2 ^ 32) ^ length ds" using a(2) by (rule le_value_less)
  also have "\<dots> \<le> (2 ^ 32) ^ 8" using a(1) by (intro power_increasing) auto
  finally show ?thesis
    by (simp add: uint256_from_u32_digits_def biguint_new_def u256_ok_def u256_modulus_def)
qed

lemma u32_digits_lengths:
  assumes "u256_ok x" "u256_ok y"
  shows "\<exists>ds. uint256_to_u32_digits_be x = Some ds \<and> length ds = 8"
    and "\<exists>ds. uint256_to_u32_digits_be_2 x y = Some ds \<and> length ds = 16"
proof -
  have l: "length (biguint_to_u32_digits z) \<le> 8" if "u256_ok z" for z
    using that by (auto simp: biguint_to_u32_digits_def u256_ok_def u256_modulus_def intro: length_le_digits_le)
  show "\<exists>ds. uint256_to_u32_digits_be x = Some ds \<and> length ds = 8"
    using l [OF assms(1)] by (simp add: uint256_to_u32_digits_be_def Let_def)
  show "\<exists>ds. uint256_to_u32_digits_be_2 x y = Some ds \<and> length ds = 16"
    using l [OF assms(1)] l [OF assms(2)] by (simp add: uint256_to_u32_digits_be_2_def Let_def)
qed

lemma sha256_compression_ok:
  assumes "ext_ok ext" "u256_ok a" "u256_ok b" "u256_ok c"
  shows "\<exists>r. sha256_compression (sha256_digest_block ext) a b c = Some r \<and> u256_ok r"
proof -
  obtain d e where d: "uint256_to_u32_digits_be a = Some d" "length d = 8"
    "uint256_to_u32_digits_be_2 b c = Some e" "length e = 16"
    using u32_digits_lengths assms(2-4) by metis
  moreover have "length (sha256_digest_block ext d e) = 8" "\<forall>w \<in> set (sha256_digest_block ext d e). w < 2 ^ 32"
    using assms(1) d(2,4) by (simp_all add: ext_ok_def)
  ultimately show ?thesis by (simp add: sha256_compression_def digits32_ok)
qed

lemma ripemd160_compression_ok:
  assumes "u256_ok a"
  shows "\<exists>r. ripemd160_compression a b c = Some r \<and> u256_ok r"
proof -
  obtain ds where "uint256_to_u32_digits_be a = Some ds"
    using u32_digits_lengths(1) [OF assms assms] by blast
  moreover have "unat (w :: u32) < 2 ^ 32" for w using unsigned_less [of w, where ?'a = nat] by simp
  ultimately show ?thesis by (simp add: ripemd160_compression_def Let_def digits32_ok)
qed

lemma tuple_keccak_ok:
  assumes "ext_ok ext" "tuple_keccak (keccak_f1600 ext) t st = Inr r"
  shows "length r = 7 \<and> (\<forall>v \<in> set r. \<exists>i. v = IntV i \<and> u256_ok i)"
proof -
  obtain us where us: "length t = 7" "r = map IntV (keccak_pack (keccak_f1600 ext (keccak_lanes us)))" "length us = 7"
    using assms(2) by (auto simp: tuple_keccak_def collect_res_Inr_iff split: if_splits sum.splits
        dest: list_all2_lengthD)
  let ?ls = "keccak_f1600 ext (keccak_lanes us)"
  have "length (keccak_lanes us) = 25 \<and> (\<forall>l \<in> set (keccak_lanes us). l < 2 ^ 64)"
    using us(3) by (auto simp: keccak_lanes_eq lane_def)
  then have ls: "length ?ls = 25" "\<forall>l \<in> set ?ls. l < 2 ^ 64"
    using assms(1) unfolding ext_ok_def by blast+
  have "u256_ok (keccak_pack ?ls ! i)" if "i < 7" for i
  proof (cases "i = 6")
    case True
    with ls have "keccak_pack ?ls ! i < 2 ^ 64" by (simp add: keccak_pack_eq nth_append)
    then show ?thesis by (simp add: u256_ok_def u256_modulus_def)
  next
    case False
    with that show ?thesis by (simp add: keccak_pack_def nth_append uint256_add_eq)
  qed
  moreover have "length (keccak_pack ?ls) = 7" by (simp add: keccak_pack_def)
  ultimately show ?thesis by (auto simp: us(2) in_set_conv_nth)
qed

lemma ec_result_ok: "ext_ok ext \<Longrightarrow> ec_result (bn ext) p = (x, y) \<Longrightarrow> u256_ok x \<and> u256_ok y"
  by (fastforce simp: ec_result_def ext_ok_def from_bytes_ok uint256_zero_def split: option.splits prod.splits)

lemma do_ecadd_ok: "ext_ok ext \<Longrightarrow> do_ecadd (bn ext) a b c d = Inr (x, y) \<Longrightarrow> u256_ok x \<and> u256_ok y"
  by (auto simp: do_ecadd_def split: option.splits prod.splits dest: ec_result_ok)

lemma do_ecmul_ok: "ext_ok ext \<Longrightarrow> do_ecmul (bn ext) a b c = Inr (x, y) \<Longrightarrow> u256_ok x \<and> u256_ok y"
  by (auto simp: do_ecmul_def split: option.splits prod.splits dest: ec_result_ok)

lemma do_ecrecover_ok: "ext_ok ext \<Longrightarrow> u256_ok (do_ecrecover ext a b c d)"
  by (auto simp: do_ecrecover_def ext_ok_def uint256_zero_def from_bytes_ok split: option.splits)

lemma byte_of_ok: "u256_ok y \<Longrightarrow> u256_ok (byte_of x y)"
  by (auto simp: byte_of_def Let_def uint256_bitwise_and_def uint256_zero_def uint256_from_usize_def
      intro!: bitwise_closed(1) elim: u256_ok_mono) (simp add: u256_ok_def u256_modulus_def)

lemma sign_extend_ok:
  assumes "u256_ok y"
  shows "\<exists>r. sign_extend x y = Some r \<and> u256_ok r"
proof -
  have "u256_ok (2 ^ (8 * n + 7) * 2 - 1)" "2 ^ (8 * n + 7) < u256_modulus" "2 ^ (8 * n + 7) * 2 < u256_modulus"
    if "n < 31" for n :: nat
  proof -
    have "(2 :: nat) ^ (8 * n + 8) \<le> 2 ^ 248" using that by (intro power_increasing) auto
    then have "(2 :: nat) ^ (8 * n + 7) * 2 \<le> 2 ^ 248" by (simp add: power_add)
    then show "u256_ok (2 ^ (8 * n + 7) * 2 - 1)" "2 ^ (8 * n + 7) < u256_modulus" "2 ^ (8 * n + 7) * 2 < u256_modulus"
      by (auto simp: u256_ok_def u256_modulus_def)
  qed
  then show ?thesis
    using assms by (auto simp: sign_extend_def uint256_to_usize_def Let_def uint256_exp_eq uint256_mul_eq
        uint256_from_usize_def uint256_from_u64_def uint256_one_def uint256_sub_eq u256_ok_def [symmetric]
        uint256_bitwise_and_def uint256_bitwise_or_def bitwise_closed bitwise_neg_ok)
qed

lemma checked_results_ok:
  "uint256_div x y = Some r \<Longrightarrow> u256_ok x \<Longrightarrow> u256_ok r"
  "uint256_modulo x y = Some r \<Longrightarrow> u256_ok x \<Longrightarrow> u256_ok r"
  "uint256_add_mod x y z = Some r \<Longrightarrow> u256_ok z \<Longrightarrow> u256_ok r"
  "uint256_mul_mod x y z = Some r \<Longrightarrow> u256_ok z \<Longrightarrow> u256_ok r"
  "sign_extend x y = Some r \<Longrightarrow> u256_ok y \<Longrightarrow> u256_ok r"
  using sign_extend_ok [of y x]
  by (auto simp: uint256_div_def uint256_modulo_def uint256_add_mod_def uint256_mul_mod_def u256_ok_def
      split: if_splits intro: le_less_trans [OF div_le_dividend] le_less_trans [OF mod_less_eq_dividend]
        less_trans [OF mod_less_divisor])

lemma signed_results_ok:
  assumes "u256_ok x" "u256_ok y"
  shows "\<exists>r. uint256_unchecked_sub x y = Some r \<and> u256_ok r"
    and "\<exists>q. uint256_sdiv x y = Some q \<and> (\<forall>r. q = Some r \<longrightarrow> u256_ok r)"
    and "\<exists>q. uint256_smodulo x y = Some q \<and> (\<forall>r. q = Some r \<longrightarrow> u256_ok r)"
proof -
  show "\<exists>r. uint256_unchecked_sub x y = Some r \<and> u256_ok r" using unchecked_sub_word [OF assms] by metis
  show "\<exists>q. uint256_sdiv x y = Some q \<and> (\<forall>r. q = Some r \<longrightarrow> u256_ok r)"
    by (cases "y = 0", simp add: uint256_sdiv_def) (metis sdiv_word [OF assms] option.inject)
  show "\<exists>q. uint256_smodulo x y = Some q \<and> (\<forall>r. q = Some r \<longrightarrow> u256_ok r)"
    by (cases "y = 0", simp add: uint256_smodulo_def) (metis smodulo_word [OF assms] option.inject)
qed

lemma shift_op_ok:
  assumes "u256_ok y"
  shows "u256_ok (shift_op uint256_shift_left x y)" "u256_ok (shift_op uint256_shift_right x y)"
    "u256_ok (shift_op uint256_shift_arith x y)"
  using assms by (auto simp: shift_op_def uint256_zero_def uint256_shift_left_def uint256_trim_eq
      shift_right_ok shift_arith_word(2) split: option.splits)

lemma blake2bf_instruction_ok:
  assumes "buffer_ok kec b"
  shows "\<exists>r. blake2bf_instruction kec b = Some r \<and> buffer_ok kec r"
  using buf.load_contents unfolding blake2bf_instruction_eq [OF assms] by metis

text \<open>A value without labels has a hash and a type.\<close>

fun label_free :: "val \<Rightarrow> bool" where
  "label_free (TupleV vs) \<longleftrightarrow> list_all label_free vs"
| "label_free (LabelV _) \<longleftrightarrow> False"
| "label_free _ \<longleftrightarrow> True"

lemma label_free_hash: "label_free v \<Longrightarrow> value_avm_hash kec v \<noteq> None"
proof (induction v)
  case (TupleV vs)
  then have "\<exists>hs. collect_opt (value_avm_hash kec) vs = Some hs"
    unfolding collect_opt_Some_Ex by (auto simp: list_all_iff)
  then show ?case by auto
qed auto

lemma label_free_type: "label_free v \<Longrightarrow> value_type_insn_result v \<noteq> None"
  by (cases v) (auto simp: value_type_insn_result_def)

lemma blake2f_gas_ok:
  assumes "\<And>b. stack_contents_0 m = Some (BufferV b) \<Longrightarrow> buffer_ok kec b"
  shows "\<exists>g. gas_for_blake2f m = Some g \<and> g < usize_limit"
proof (cases "\<exists>b. stack_contents_0 m = Some (BufferV b)")
  case True
  then obtain b where b: "stack_contents_0 m = Some (BufferV b)" by blast
  obtain bs where "buffer_as_bytes b 4 = Some bs"
    unfolding buffer_as_bytes_def by (simp add: buf.collect_fetch [OF assms [OF b]])
  with b show ?thesis
    by (simp add: gas_for_blake2f_def Let_def usize_limit_def)
next
  case False
  then show ?thesis by (auto simp: gas_for_blake2f_def usize_limit_def split: option.split val.split)
qed

lemma pairing_gas_loop: "k + i \<le> max_pairing_size \<Longrightarrow> gas_for_pairing_loop k i v \<le> 1000 + max_pairing_size * 500000"
  by (induction k i v rule: gas_for_pairing_loop.induct) (auto split: val.split)

lemma pairing_gas_ok: "\<exists>g. gas_for_pairing m = Some g \<and> g < usize_limit"
  using pairing_gas_loop [of max_pairing_size 0]
  by (fastforce simp: gas_for_pairing_def max_pairing_size_def usize_limit_def split: option.split
      intro: le_less_trans)

text \<open>The opcodes whose handlers can panic on values and code in range: those that build or open code, check
  trace information, send or look into the inbox.\<close>

definition panicking_opcodes :: "avm_opcode set" where
  "panicking_opcodes = {PushInsn, PushInsnImm, OpenInsn, DebugPrint, Send, InboxPeek}"

section \<open>The contract\<close>

locale machine_contract =
  fixes ext :: externals
    and allowed :: "avm_opcode set"
    and p :: bool
    and vp :: "val \<Rightarrow> bool"
    and I :: "machine \<Rightarrow> bool"
    and J :: "machine \<Rightarrow> bool"
  assumes weaken: "I m \<Longrightarrow> J m"
    and vp_int: "vp (IntV i) = u256_ok i"
    and vp_tuple: "vp (TupleV vs) = (length vs < usize_limit \<and> (\<forall>v \<in> set vs. vp v))"
    and vp_codept: "vp (CodePointV c)"
    and vp_buffer: "vp (BufferV b) = buffer_ok (keccak256 ext) b"
    and vp_value_ok: "vp v \<Longrightarrow> value_ok (keccak256 ext) v"
    and vp_label: "p \<or> \<not> vp (LabelV l)"
    and stack_pop: "I m \<Longrightarrow> stack m = v # s \<Longrightarrow> vp v \<and> I (m\<lparr>stack := s\<rparr>)"
    and stack_push: "I m \<Longrightarrow> vp v \<Longrightarrow> I (m\<lparr>stack := v # stack m\<rparr>)"
    and aux_pop: "I m \<Longrightarrow> aux_stack m = v # s \<Longrightarrow> vp v \<and> I (m\<lparr>aux_stack := s\<rparr>)"
    and aux_push: "I m \<Longrightarrow> vp v \<Longrightarrow> I (m\<lparr>aux_stack := v # aux_stack m\<rparr>)"
    and pc_incr: "I m \<Longrightarrow> p \<or> (\<exists>pc pc'. state m = Running pc \<and> codept_incr pc = Some pc')"
    and set_state: "I m \<Longrightarrow> J (m\<lparr>state := st\<rparr>)"
    and registers: "I m \<Longrightarrow> vp (register m) \<and> vp (static_val m)"
    and set_register: "I m \<Longrightarrow> vp v \<Longrightarrow> I (m\<lparr>register := v\<rparr>)"
    and set_err: "ErrSet \<in> allowed \<Longrightarrow> I m \<Longrightarrow> I (m\<lparr>err_codepoint := cp\<rparr>)"
    and take_inbox: "I m \<Longrightarrow> get_from_inbox (runtime_env m) = (Some v, env) \<Longrightarrow>
        vp v \<and> I (m\<lparr>runtime_env := env\<rparr>)"
    and log_value: "I m \<Longrightarrow> vp v \<Longrightarrow> I (m\<lparr>runtime_env := push_log (runtime_env m) v\<rparr>)"
    and send_bytes: "I m \<Longrightarrow> push_send (runtime_env m) sz b = Some env \<Longrightarrow> I (m\<lparr>runtime_env := env\<rparr>)"
    and new_segment: "ErrCodePoint \<in> allowed \<Longrightarrow> I m \<Longrightarrow> I (m\<lparr>code := snd (create_segment (code m))\<rparr>)"
    and new_insn: "PushInsn \<in> allowed \<or> PushInsnImm \<in> allowed \<Longrightarrow> I m \<Longrightarrow> \<forall>v. imm = Some v \<longrightarrow> vp v \<Longrightarrow>
        push_insn (code m) op imm cp = Some (cp', segs) \<Longrightarrow> I (m\<lparr>code := segs\<rparr>)"
    and imm_ok: "I m \<Longrightarrow> get_insn (code m) cp = Some (Some insn) \<Longrightarrow> immediate insn = Some v \<Longrightarrow> vp v"
    and gas_ok: "I m \<Longrightarrow> u256_ok (arb_gas_remaining m)"
begin

lemmas vp_simps = vp_int vp_codept vp_buffer

lemma stack_empty: "I m \<Longrightarrow> stack m = [] \<Longrightarrow> I (m\<lparr>stack := []\<rparr>)"
  by (metis (full_types) machine.surjective machine.update_convs(1))

lemma aux_empty: "I m \<Longrightarrow> aux_stack m = [] \<Longrightarrow> I (m\<lparr>aux_stack := []\<rparr>)"
  by (metis (full_types) machine.surjective machine.update_convs(2))

lemma keeps_stack_pops:
  assumes "pops vp A f"
  shows "keeps p I A (on_stack f)"
  unfolding keeps_def
proof (intro allI impI)
  fix m assume m: "I m"
  show "case on_stack f m of Done a x \<Rightarrow> A a \<and> I x | Fail e x \<Rightarrow> I x | Panic \<Rightarrow> p"
  proof (cases "stack m")
    case Nil
    with assms m show ?thesis
      by (cases "f [] (state m)") (auto simp: on_stack_def pops_def stack_empty dest: spec [of _ "state m"])
  next
    case (Cons v s)
    have "vp v" "I (m\<lparr>stack := s\<rparr>)" using stack_pop [OF m Cons] by simp_all
    with pops_Cons [OF assms, of v s "state m"] Cons show ?thesis
      by (cases "f (v # s) (state m)") (auto simp: on_stack_def split: sum.splits)
  qed
qed

lemma keeps_aux_pops:
  assumes "pops vp A f"
  shows "keeps p I A (on_aux_stack f)"
  unfolding keeps_def
proof (intro allI impI)
  fix m assume m: "I m"
  show "case on_aux_stack f m of Done a x \<Rightarrow> A a \<and> I x | Fail e x \<Rightarrow> I x | Panic \<Rightarrow> p"
  proof (cases "aux_stack m")
    case Nil
    with assms m show ?thesis
      by (cases "f [] (state m)") (auto simp: on_aux_stack_def pops_def aux_empty dest: spec [of _ "state m"])
  next
    case (Cons v s)
    have "vp v" "I (m\<lparr>aux_stack := s\<rparr>)" using aux_pop [OF m Cons] by simp_all
    with pops_Cons [OF assms, of v s "state m"] Cons show ?thesis
      by (cases "f (v # s) (state m)") (auto simp: on_aux_stack_def split: sum.splits)
  qed
qed

lemma keeps_pops:
  "keeps p I vp pop" "keeps p I u256_ok pop_uint" "keeps p I (\<lambda>_. True) pop_usize"
  "keeps p I (\<lambda>_. True) pop_codepoint" "keeps p I (\<lambda>t. vp (TupleV t)) pop_tuple"
  "keeps p I (buffer_ok (keccak256 ext)) pop_buffer"
  "keeps p I vp (on_aux_stack value_stack_pop)"
  "keeps p I (\<lambda>t. vp (TupleV t)) (on_aux_stack value_stack_pop_tuple)"
  unfolding pop_def pop_uint_def pop_usize_def pop_codepoint_def pop_tuple_def pop_buffer_def
  using keeps_stack_pops [OF pops_all(1)] keeps_stack_pops [OF pops_all(2)] keeps_stack_pops [OF pops_all(3)]
    keeps_stack_pops [OF pops_all(4)] keeps_stack_pops [OF pops_all(5)] keeps_stack_pops [OF pops_all(6)]
    keeps_aux_pops [OF pops_all(1)] keeps_aux_pops [OF pops_all(5)]
  by (simp_all add: vp_int vp_buffer)

lemma keeps_push [keeps_intros]: "vp v \<Longrightarrow> keeps p I (\<lambda>_. True) (push v)"
  unfolding push_def by (rule keeps_modify) (simp add: value_stack_push_def stack_push)

lemma keeps_push_uint [keeps_intros]: "u256_ok v \<Longrightarrow> keeps p I (\<lambda>_. True) (push_uint v)"
  unfolding push_uint_def by (rule keeps_push) (simp add: vp_int)

lemma keeps_push_aux [keeps_intros]: "vp v \<Longrightarrow> keeps p I (\<lambda>_. True) (push_aux v)"
  unfolding push_aux_def by (rule keeps_modify) (simp add: value_stack_push_def aux_push)

lemma ends_incr: "ends p I J (then_c incr_pc (return_c b))"
  unfolding ends_def
proof (intro allI impI)
  fix m assume m: "I m"
  show "case then_c incr_pc (return_c b) m of Done a x \<Rightarrow> J x | Fail e x \<Rightarrow> J x | Panic \<Rightarrow> p"
    using pc_incr [OF m] set_state [OF m]
    by (auto simp: incr_pc_def outcome_simps split: machine_state.splits option.splits)
qed

lemma ends_next [keeps_intros]: "ends p I J next_insn"
  unfolding next_insn_def by (rule ends_incr)

lemmas bind_intro = ends_bind [where I = I and J = J and p = p, OF weaken]

lemmas bind_pops [keeps_intros] = keeps_pops [THEN bind_intro [rotated]]

lemma bind_unwrap [keeps_intros]:
  "p \<or> x \<noteq> None \<Longrightarrow> (\<And>a. x = Some a \<Longrightarrow> ends p I J (g a)) \<Longrightarrow> ends p I J (bind_c (unwrap_c x) g)"
  by (rule bind_intro [OF _ keeps_unwrap [where A = "\<lambda>a. x = Some a"]]) auto

lemmas then_intro [keeps_intros] = ends_then [where I = I and J = J and p = p, OF weaken]

lemmas throw_intro [keeps_intros] = ends_throw [where I = I and J = J and p = p, OF weaken]

lemma ends_push_next [keeps_intros]: "vp v \<Longrightarrow> ends p I J (push_next v)"
  unfolding push_next_def by (intro keeps_intros)

lemma ends_stateful:
  assumes "\<And>m. I m \<Longrightarrow> \<exists>d. c m = d m \<and> ends p I J d"
  shows "ends p I J c"
  unfolding ends_def
proof (intro allI impI)
  fix m assume m: "I m"
  with assms obtain d where "c m = d m" "ends p I J d" by blast
  with m show "case c m of Done a x \<Rightarrow> J x | Fail e x \<Rightarrow> J x | Panic \<Rightarrow> p" by (simp add: ends_def)
qed

lemma ends_updated:
  assumes "\<And>m. I m \<Longrightarrow> \<exists>d n. c m = d n \<and> I n \<and> ends p I J d"
  shows "ends p I J c"
  unfolding ends_def
proof (intro allI impI)
  fix m assume m: "I m"
  with assms obtain d n where "c m = d n" "I n" "ends p I J d" by blast
  then show "case c m of Done a x \<Rightarrow> J x | Fail e x \<Rightarrow> J x | Panic \<Rightarrow> p" by (simp add: ends_def)
qed

lemma ends_un_op [keeps_intros]: "(\<And>x. u256_ok x \<Longrightarrow> u256_ok (f x)) \<Longrightarrow> ends p I J (un_op f)"
  unfolding un_op_def by (intro keeps_intros) (simp add: vp_int)

lemma ends_bin_op [keeps_intros]:
  "(\<And>x y. u256_ok x \<Longrightarrow> u256_ok y \<Longrightarrow> u256_ok (f x y)) \<Longrightarrow> ends p I J (bin_op f)"
  unfolding bin_op_def by (intro keeps_intros) (simp add: vp_int)

lemma ends_push_or_throw [keeps_intros]: "(\<And>r. x = Some r \<Longrightarrow> u256_ok r) \<Longrightarrow> ends p I J (push_or_throw msg x)"
  unfolding push_or_throw_def by (cases x) (auto intro!: keeps_intros simp: vp_int)

lemma ends_bin_op_fail [keeps_intros]:
  "(\<And>x y r. u256_ok x \<Longrightarrow> u256_ok y \<Longrightarrow> f x y = Some r \<Longrightarrow> u256_ok r) \<Longrightarrow> ends p I J (bin_op_fail msg f)"
  unfolding bin_op_fail_def by (intro keeps_intros) blast

lemma ends_return [keeps_intros]: "ends p I J (return_c b)"
  by (simp add: ends_def return_c_def weaken)

lemma ends_goto [keeps_intros]: "ends p I J (then_c (modify_c (\<lambda>m. m\<lparr>state := st\<rparr>)) (return_c b))"
  by (simp add: ends_def outcome_simps set_state)

lemma control_ops:
  "ends p I J op_noop" "ends p I J op_panic" "ends p I J op_jump" "ends p I J op_cjump" "ends p I J op_rset"
  "ends p I J op_breakpoint" "ends p I J op_halt" "ends p I J op_sideload"
  unfolding op_noop_def op_panic_def op_jump_def op_cjump_def op_rset_def op_breakpoint_def
    op_halt_def op_sideload_def
  by (intro keeps_intros ends_if ends_incr keeps_modify set_register;
      simp add: value_none_def vp_tuple usize_limit_def)+

lemma errset_op: "ErrSet \<in> allowed \<Longrightarrow> ends p I J op_errset"
  unfolding op_errset_def by (intro keeps_intros keeps_modify set_err)

lemma reading_ops:
  "ends p I J op_pcpush" "ends p I J op_rpush" "ends p I J op_spush" "ends p I J op_errpush" "ends p I J op_pushgas"
  "ends p I J op_stackempty" "ends p I J op_auxstackempty"
proof -
  show "ends p I J op_pcpush"
  proof (rule ends_stateful)
    fix m assume "I m"
    show "\<exists>d. op_pcpush m = d m \<and> ends p I J d"
    proof (cases "get_pc m")
      case (Inl e)
      then show ?thesis
        by (intro exI [of _ "fail_c e"]) (simp add: op_pcpush_def fail_c_def ends_def weaken)
    next
      case (Inr pc)
      then show ?thesis
        by (intro exI [of _ "push_next (CodePointV pc)"]) (simp add: op_pcpush_def ends_push_next vp_codept)
    qed
  qed
  show "ends p I J op_rpush" "ends p I J op_spush" "ends p I J op_errpush" "ends p I J op_pushgas"
    "ends p I J op_stackempty" "ends p I J op_auxstackempty"
    unfolding op_rpush_def op_spush_def op_errpush_def op_pushgas_def op_stackempty_def op_auxstackempty_def
    by (rule ends_stateful, blast intro: ends_push_next registers [THEN conjunct1] registers [THEN conjunct2]
        vp_codept vp_int [THEN iffD2] gas_ok u256_ok_uint_of_bool)+
qed

lemma tuple_ops:
  "ends p I J op_tset" "ends p I J op_tget" "ends p I J op_tlen" "ends p I J op_pop" "ends p I J op_auxpush"
  "ends p I J op_auxpop" "ends p I J op_xset" "ends p I J op_dup0" "ends p I J op_dup1" "ends p I J op_dup2"
  "ends p I J op_swap1" "ends p I J op_swap2"
  unfolding op_tset_def op_tget_def op_tlen_def op_pop_def op_auxpush_def op_auxpop_def op_xset_def
    op_dup0_def op_dup1_def op_dup2_def op_swap1_def op_swap2_def
  by (intro keeps_intros ends_if; assumption?;
      auto simp: vp_tuple vp_int value_new_tuple_def uint256_from_usize_def u256_ok_usize
        dest!: set_update_subset_insert [THEN subsetD])+

lemma arith_ops:
  "ends p I J op_iszero" "ends p I J op_bitwiseneg" "ends p I J op_add" "ends p I J op_mul" "ends p I J op_div"
  "ends p I J op_mod" "ends p I J op_addmod" "ends p I J op_mulmod" "ends p I J op_exp" "ends p I J op_signextend"
  "ends p I J op_lessthan" "ends p I J op_greaterthan" "ends p I J op_slessthan" "ends p I J op_sgreaterthan"
  "ends p I J op_equal" "ends p I J op_bitwiseand" "ends p I J op_bitwiseor" "ends p I J op_bitwisexor"
  "ends p I J op_byte" "ends p I J op_shiftleft" "ends p I J op_shiftright" "ends p I J op_shiftarith"
  unfolding op_iszero_def op_bitwiseneg_def op_add_def op_mul_def op_div_def op_mod_def op_addmod_def op_mulmod_def
    op_exp_def op_signextend_def op_lessthan_def op_greaterthan_def op_slessthan_def op_sgreaterthan_def
    op_equal_def op_bitwiseand_def op_bitwiseor_def op_bitwisexor_def op_byte_def op_shiftleft_def
    op_shiftright_def op_shiftarith_def uint256_bitwise_and_def uint256_bitwise_or_def uint256_bitwise_xor_def
  by (intro keeps_intros;
      auto simp: vp_int bitwise_neg_ok uint256_add_eq uint256_mul_eq uint256_exp_eq bitwise_closed byte_of_ok
        shift_op_ok dest: checked_results_ok)+

lemma signed_ops: "ends p I J op_sub" "ends p I J op_sdiv" "ends p I J op_smod"
  unfolding op_sub_def op_sdiv_def op_smod_def
  by (intro keeps_intros; insert signed_results_ok; fastforce simp: vp_int)+

lemma vp_label_free: "vp v \<Longrightarrow> p \<or> label_free v"
  using vp_label by (induction v) (auto simp: vp_tuple list_all_iff)

lemma hash_ops:
  assumes libs: "ext_ok ext"
  shows "ends p I J (op_hash ext)" "ends p I J op_type" "ends p I J (op_ethhash2 ext)"
proof -
  have "\<forall>bs. length (keccak256 ext bs) = 32" using libs by (simp add: ext_ok_def)
  note ok = value_avm_hash_ok [OF this] avm_hash2_ok [OF this]
  show "ends p I J (op_hash ext)" unfolding op_hash_def
    by (intro keeps_intros) (auto simp: vp_int dest: vp_label_free label_free_hash ok(1) vp_value_ok)
  show "ends p I J op_type" unfolding op_type_def
    by (intro keeps_intros)
       (auto simp: vp_int uint256_from_usize_def value_type_insn_result_def u256_ok_def u256_modulus_def
         split: val.splits dest: vp_label_free label_free_type)
  show "ends p I J (op_ethhash2 ext)" unfolding op_ethhash2_def by (intro keeps_intros) (simp add: ok)
qed

lemma bind_total:
  "\<exists>r. x = Some r \<and> A r \<Longrightarrow> (\<And>a. A a \<Longrightarrow> ends p I J (g a)) \<Longrightarrow> ends p I J (bind_c (unwrap_c x) g)"
  by (rule bind_unwrap) auto

lemma compression_ops:
  assumes libs: "ext_ok ext"
  shows "ends p I J (op_sha256f ext)" "ends p I J op_ripemd160f" "ends p I J (op_blake2f ext)"
proof -
  show "ends p I J (op_sha256f ext)" unfolding op_sha256f_def
    by (intro bind_pops bind_total [OF sha256_compression_ok [OF libs]] ends_push_next; simp add: vp_int)
  show "ends p I J op_ripemd160f" unfolding op_ripemd160f_def
    by (intro bind_pops bind_total [OF ripemd160_compression_ok] ends_push_next; simp add: vp_int)
  show "ends p I J (op_blake2f ext)" unfolding op_blake2f_def
    by (intro bind_pops bind_total [OF blake2bf_instruction_ok] ends_push_next; simp add: vp_buffer)
qed

lemma keccakf_op:
  assumes libs: "ext_ok ext"
  shows "ends p I J (op_keccakf ext)"
  unfolding op_keccakf_def
proof (intro keeps_intros)
  fix t1 assume "vp (TupleV t1)"
  show "ends p I J (\<lambda>m. case tuple_keccak (keccak_f1600 ext) t1 (state m) of
      Inl e \<Rightarrow> Fail e m | Inr t2 \<Rightarrow> push_next (value_new_tuple t2) m)"
  proof (rule ends_stateful)
    fix m assume "I m"
    show "\<exists>d. (case tuple_keccak (keccak_f1600 ext) t1 (state m) of
        Inl e \<Rightarrow> Fail e m | Inr t2 \<Rightarrow> push_next (value_new_tuple t2) m) = d m \<and> ends p I J d"
    proof (cases "tuple_keccak (keccak_f1600 ext) t1 (state m)")
      case (Inl e)
      then show ?thesis by (intro exI [of _ "fail_c e"]) (simp add: fail_c_def ends_def weaken)
    next
      case (Inr t2)
      then have "vp (value_new_tuple t2)"
        using tuple_keccak_ok [OF libs Inr] by (auto simp: value_new_tuple_def vp_tuple vp_int usize_limit_def)
      with Inr show ?thesis by (intro exI [of _ "push_next (value_new_tuple t2)"]) (simp add: ends_push_next)
    qed
  qed
qed auto

lemma ends_push_point [keeps_intros]:
  "(\<And>x y. r = Inr (x, y) \<Longrightarrow> u256_ok x \<and> u256_ok y) \<Longrightarrow> ends p I J (push_point r)"
  unfolding push_point_def by (cases r) (auto intro!: keeps_intros simp: vp_int)

lemma curve_ops:
  assumes libs: "ext_ok ext"
  shows "ends p I J (op_ecrecover ext)" "ends p I J (op_ecadd ext)" "ends p I J (op_ecmul ext)" "ends p I J (op_ecpairing ext)"
  unfolding op_ecrecover_def op_ecadd_def op_ecmul_def op_ecpairing_def
  by (intro keeps_intros; auto simp: vp_int do_ecrecover_ok [OF libs] split: option.split
      dest: do_ecadd_ok [OF libs] do_ecmul_ok [OF libs] intro!: keeps_intros)+

lemma getbuffer_ops: "ends p I J op_getbuffer8" "ends p I J (get_buffer n)" if "n \<le> 32"
proof -
  have byte: "u256_ok (uint256_from_usize (unat (b :: byte)))" for b
  proof -
    have "unat b < usize_limit" unfolding usize_limit_def 
      by (rule less_le_trans [OF unsigned_less [where ?'a = nat]]) simp
    then show ?thesis by (simp add: uint256_from_usize_def u256_ok_usize)
  qed
  show "ends p I J op_getbuffer8" unfolding op_getbuffer8_def
    by (intro keeps_intros) (auto simp: vp_int byte buffer_read_bytes)
  have rd: "\<exists>bs. collect_opt (\<lambda>i. buffer_read_byte b (off + i)) [0..<n] = Some bs \<and> u256_ok (uint256_from_bytes bs)"
    if "buffer_ok (keccak256 ext) b" for b off
    using \<open>n \<le> 32\<close> by (subst collect_opt_map_Some [where g = "\<lambda>i. padded_nth (buffer_bytes b) (off + i)"])
      (auto simp: buf.fetch_contents [OF that] from_bytes_ok)
  show "ends p I J (get_buffer n)" unfolding get_buffer_def
    by (intro keeps_intros ends_if bind_total [OF rd]) (auto simp: vp_int)
qed

lemma setbuffer_ops: "ends p I J (op_newbuffer ext)" "ends p I J (op_setbuffer8 ext)" "ends p I J (set_buffer ext n)"
proof -
  have new: "\<exists>v. value_new_buffer (keccak256 ext) [] = Some v \<and> vp v"
    by (auto simp: value_new_buffer_def buffer_from_bytes_def vp_buffer buffer_empty_ok)
  show "ends p I J (op_newbuffer ext)" unfolding op_newbuffer_def
    by (intro bind_total [OF new] ends_push_next)
  have set1: "\<exists>b'. buffer_set_byte (keccak256 ext) b off v = Some b' \<and> buffer_ok (keccak256 ext) b'"
    if "buffer_ok (keccak256 ext) b" for b off v
    using buffer_set_bytes_store [OF that] by blast
  show "ends p I J (op_setbuffer8 ext)" unfolding op_setbuffer8_def
    by (intro bind_pops bind_total [OF set1] ends_push_next) (auto simp: vp_buffer)
  have setn: "\<exists>b'. write_loop (buffer_set_byte (keccak256 ext)) b off vs = Some b' \<and> buffer_ok (keccak256 ext) b'"
    if "buffer_ok (keccak256 ext) b" for b off vs
    using buf.write_loop_spec [OF that, of off vs] by blast
  show "ends p I J (set_buffer ext n)" unfolding set_buffer_def
    by (intro bind_pops ends_if throw_intro bind_total [OF setn] ends_push_next) (auto simp: vp_buffer)
qed

lemma xget_op: "ends p I J op_xget"
  unfolding op_xget_def
proof (intro bind_pops)
  fix slot_num
  show "ends p I J (\<lambda>m. case value_stack_top (aux_stack m) of
       None \<Rightarrow> throw ''aux stack underflow'' None m
     | Some aux_top \<Rightarrow> (case aux_top of
            TupleV v \<Rightarrow> (case get_at v slot_num of
                 Some x \<Rightarrow> push_next x m
               | None \<Rightarrow> throw ''tuple access out of bounds'' None m)
          | _ \<Rightarrow> throw ''expected tuple on aux stack'' (Some aux_top) m))" (is "ends p I J ?c")
  proof (rule ends_stateful)
    fix m assume m: "I m"
    show "\<exists>d. ?c m = d m \<and> ends p I J d"
    proof (cases "aux_stack m")
      case Nil
      then show ?thesis
        by (auto simp: value_stack_top_def value_stack_is_empty_def intro!: exI throw_intro)
    next
      case (Cons v s)
      have "vp v" using aux_pop [OF m Cons] by simp
      show ?thesis
      proof (cases "\<exists>t x. v = TupleV t \<and> get_at t slot_num = Some x")
        case True
        then obtain t x where "v = TupleV t" "get_at t slot_num = Some x" by blast
        moreover from this \<open>vp v\<close> have "vp x" by (auto simp: vp_tuple get_at_def split: if_splits)
        ultimately show ?thesis using Cons
          by (intro exI [of _ "push_next x"]) (simp add: value_stack_top_def value_stack_is_empty_def get_at_def ends_push_next)
      next
        case False
        with Cons have "\<exists>why w. ?c m = throw why w m"
          by (cases v) (auto simp: value_stack_top_def value_stack_is_empty_def split: option.split)
        then show ?thesis using throw_intro by auto
      qed
    qed
  qed
qed auto

lemma log_op: "ends p I J op_log"
  unfolding op_log_def by (intro keeps_intros keeps_modify log_value)

lemma segment_op:
  assumes "ErrCodePoint \<in> allowed"
  shows "ends p I J op_errcodepoint"
proof (rule endsI)
  fix m assume "I m"
  from ends_at [OF ends_push_next [OF vp_codept] new_segment [OF assms this]]
  show "outcome_in p J (op_errcodepoint m)" by (simp add: op_errcodepoint_def split_beta)
qed

lemma send_op:
  assumes "p"
  shows "ends p I J op_send"
  unfolding op_send_def
proof (intro bind_pops endsI)
  fix sz b m assume "I m"
  then show "outcome_in p J (case push_send (runtime_env m) sz b of
       None \<Rightarrow> Panic | Some env \<Rightarrow> next_insn (m\<lparr>runtime_env := env\<rparr>))"
    using ends_at [OF ends_next send_bytes] assms by (cases "push_send (runtime_env m) sz b") simp_all
qed auto

lemma ends_push_insn_op:
  assumes "p" "PushInsn \<in> allowed \<or> PushInsnImm \<in> allowed" "\<forall>v. imm = Some v \<longrightarrow> vp v"
  shows "ends p I J (push_insn_op op imm cp)"
proof (rule endsI)
  fix m assume "I m"
  then show "outcome_in p J (push_insn_op op imm cp m)"
    using ends_at [OF ends_push_next [OF vp_codept] new_insn] assms
    by (cases "push_insn (code m) op imm cp") (auto simp: push_insn_op_def)
qed

lemma push_insn_ops:
  "p \<Longrightarrow> PushInsn \<in> allowed \<Longrightarrow> ends p I J op_pushinsn"
  "p \<Longrightarrow> PushInsnImm \<in> allowed \<Longrightarrow> ends p I J op_pushinsnimm"
  unfolding op_pushinsn_def op_pushinsnimm_def
  by (intro bind_pops ends_push_insn_op; simp)+

lemma openinsn_op:
  assumes "p"
  shows "ends p I J op_openinsn"
  unfolding op_openinsn_def
proof (intro bind_pops endsI)
  fix cp m assume m: "I m"
  have num: "vp (IntV (uint256_from_usize (avm_opcode_to_number a)))" for a
    by (cases a) (simp_all add: vp_int uint256_from_usize_def u256_ok_def u256_modulus_def)
  show "outcome_in p J (case get_insn (code m) cp of
       Some (Some insn) \<Rightarrow>
         then_c (push (case immediate insn of Some v \<Rightarrow> value_new_tuple [v] | None \<Rightarrow> value_none))
           (push_next (IntV (uint256_from_usize (avm_opcode_to_number (opcode insn))))) m
     | _ \<Rightarrow> Panic)"
  proof (cases "\<exists>insn. get_insn (code m) cp = Some (Some insn)")
    case True
    then obtain insn where i: "get_insn (code m) cp = Some (Some insn)" by blast
    have "vp (case immediate insn of Some v \<Rightarrow> value_new_tuple [v] | None \<Rightarrow> value_none)"
      using imm_ok [OF m i]
      by (auto simp: value_new_tuple_def value_none_def vp_tuple usize_limit_def split: option.split)
    with i m num show ?thesis by (auto intro!: ends_at then_intro keeps_push ends_push_next)
  next
    case False
    with assms show ?thesis by (auto split: option.split)
  qed
qed auto

lemma debugprint_op: "p \<Longrightarrow> ends p I J op_debugprint"
  unfolding op_debugprint_def by (intro keeps_intros ends_if) (auto simp: ends_def panic_c_def)

text \<open>Every allowed instruction but the three that set the gas.\<close>

theorem exec_keeps:
  assumes "ext_ok ext" "op \<in> allowed" "op \<notin> {SetGas, Inbox, InboxPeek}" "p \<or> op \<notin> panicking_opcodes"
  shows "ends p I J (exec_opcode ext imm gas op)"
  using assms(2-4) control_ops errset_op reading_ops tuple_ops arith_ops signed_ops hash_ops [OF assms(1)]
    compression_ops [OF assms(1)] keccakf_op [OF assms(1)] curve_ops [OF assms(1)] getbuffer_ops setbuffer_ops
    xget_op log_op segment_op send_op push_insn_ops openinsn_op debugprint_op
  by (cases op) (auto simp: panicking_opcodes_def op_getbuffer64_def op_getbuffer256_def op_setbuffer64_def
      op_setbuffer256_def)

end

locale gas_contract = machine_contract +
  assumes every_op: "allowed = UNIV"
    and set_gas: "I m \<Longrightarrow> u256_ok g \<Longrightarrow> u256_ok t \<Longrightarrow> I (m\<lparr>arb_gas_remaining := g, total_gas_usage := t\<rparr>)"
    and total_ok: "I m \<Longrightarrow> u256_ok (total_gas_usage m)"
    and any_state: "J m \<Longrightarrow> J (m\<lparr>state := st\<rparr>)"
begin

lemma set_remaining: "I m \<Longrightarrow> u256_ok g \<Longrightarrow> I (m\<lparr>arb_gas_remaining := g\<rparr>)"
  using set_gas [of m g "total_gas_usage m"] total_ok by simp

lemma setgas_op: "ends p I J op_setgas"
  unfolding op_setgas_def by (intro keeps_intros keeps_modify set_remaining)

lemma inbox_op:
  assumes "u256_ok gas"
  shows "ends p I J (op_inbox imm gas)"
proof (rule endsI)
  fix m assume m: "I m"
  show "outcome_in p J (op_inbox imm gas m)"
  proof (cases "l1_inbox (runtime_env m)")
    case Nil
    have i: "I (m\<lparr>arb_gas_remaining := gas\<rparr>)" using m assms by (rule set_remaining)
    have "I (m\<lparr>arb_gas_remaining := gas, stack := snd (value_stack_pop (stack m) (state m))\<rparr>)"
      using stack_empty [OF i] stack_pop [OF i] by (cases "stack m") (simp_all add: value_stack_pop_def)
    with i Nil show ?thesis by (simp add: op_inbox_def get_from_inbox_def Let_def weaken)
  next
    case (Cons v vs)
    then have "get_from_inbox (runtime_env m) = (Some v, (runtime_env m)\<lparr>l1_inbox := vs\<rparr>)"
      by (simp add: get_from_inbox_def)
    with take_inbox [OF m this] show ?thesis by (auto simp: op_inbox_def intro: ends_at [OF ends_push_next])
  qed
qed

lemma inboxpeek_op:
  assumes "p" "u256_ok gas"
  shows "ends p I J (op_inboxpeek gas)"
  unfolding op_inboxpeek_def
proof (intro bind_pops endsI)
  fix block m assume b: "u256_ok block" and m: "I m"
  have "J (m\<lparr>arb_gas_remaining := gas, stack := value_stack_push_uint (stack m) block\<rparr>)"
    using stack_push [OF set_remaining [OF m assms(2)], of "IntV block"] b
    by (auto intro!: weaken simp: value_stack_push_uint_def value_stack_push_def vp_int)
  moreover have "outcome_in p J (push_next (IntV (uint_of_bool c)) m)" for c
    using ends_at [OF ends_push_next m] by (simp add: vp_int)
  ultimately show "outcome_in p J (case peek_at_inbox_head (runtime_env m) of
       Some (TupleV tup) \<Rightarrow>
         (case get_at tup 1 of
            None \<Rightarrow> Panic
          | Some (IntV msg_bn) \<Rightarrow> push_next (IntV (uint_of_bool (block = msg_bn))) m
          | Some _ \<Rightarrow> throw ''inbox contents not a tuple'' None m)
     | Some _ \<Rightarrow> throw ''blocknum not an integer'' None m
     | None \<Rightarrow> Done False (m\<lparr>arb_gas_remaining := gas, stack := value_stack_push_uint (stack m) block\<rparr>))"
    using assms(1) weaken [OF m] by (auto simp: throw_def split: option.split val.split)
qed auto

theorem exec_all:
  assumes "ext_ok ext" "op \<in> allowed" "u256_ok gas" "p \<or> op \<notin> panicking_opcodes"
  shows "ends p I J (exec_opcode ext imm gas op)"
proof (cases "op \<in> {SetGas, Inbox, InboxPeek}")
  case True
  with assms setgas_op inbox_op inboxpeek_op show ?thesis by (auto simp: panicking_opcodes_def)
next
  case False
  then show ?thesis by (rule exec_keeps [OF assms(1,2) _ assms(4)])
qed

lemma push_immediate_keeps: "I m \<Longrightarrow> get_insn (code m) cp = Some (Some insn) \<Longrightarrow> I (push_immediate insn m)"
  using stack_push imm_ok by (auto simp: push_immediate_def value_stack_push_def split: option.split)

lemma stack_all: "I m \<Longrightarrow> v \<in> set (stack m) \<Longrightarrow> vp v"
proof (induction "stack m" arbitrary: m)
  case (Cons w s)
  then have "stack m = w # s" by simp
  then have "vp w" "I (m\<lparr>stack := s\<rparr>)" using stack_pop [OF Cons.prems(1)] by simp_all
  with Cons.hyps(1) [of "m\<lparr>stack := s\<rparr>"] Cons.prems(2) \<open>stack m = w # s\<close> show ?case by auto
qed simp

lemma op_gas_ok: "I m \<Longrightarrow> \<exists>g. op_gas m op = Some g \<and> g < usize_limit"
proof -
  assume "I m"
  then have "buffer_ok (keccak256 ext) b" if "stack_contents_0 m = Some (BufferV b)" for b
    using that stack_all [of m "last (stack m)"] last_in_set [of "stack m"]
    by (cases "stack m = []") (simp_all add: stack_contents_0_def vp_buffer)
  then show ?thesis using blake2f_gas_ok pairing_gas_ok
    by (cases op) (auto simp: usize_limit_def)
qed

lemma step_ends:
  assumes "ext_ok ext" "I m" "p \<or> (\<exists>i. next_opcode m = Some i \<and> (\<forall>insn. i = Some insn \<longrightarrow> opcode insn \<notin> panicking_opcodes))"
  shows "outcome_in p J (run_one_dont_catch_errors ext m)"
proof (cases "\<exists>pc insn. state m = Running pc \<and> get_insn (code m) pc = Some (Some insn)")
  case True
  then obtain pc insn where i: "state m = Running pc" "get_insn (code m) pc = Some (Some insn)" by blast
  let ?m = "push_immediate insn m"
  have m: "I ?m" using push_immediate_keeps assms(2) i(2) by blast
  have same: "state ?m = Running pc" "get_insn (code ?m) pc = Some (Some insn)"
    using i by (simp_all add: push_immediate_def split: option.split)
  obtain g where g: "op_gas ?m (opcode insn) = Some g" "g < usize_limit" using op_gas_ok [OF m] by blast
  have "p \<or> opcode insn \<notin> panicking_opcodes" using assms(3) i by (auto simp: next_opcode_def)
  then have e: "ends p I J (exec_opcode ext (immediate insn \<noteq> None) (arb_gas_remaining ?m) (opcode insn))"
    by (intro exec_all [OF assms(1) _ gas_ok [OF m]]) (simp add: every_op)
  have "u256_ok (arb_gas_remaining ?m - g)" by (rule u256_ok_mono [OF gas_ok [OF m] diff_le_self])
  then have "I (?m\<lparr>arb_gas_remaining := arb_gas_remaining ?m - g, total_gas_usage := uint256_add (total_gas_usage ?m) g\<rparr>)"
    by (intro set_gas [OF m]) (simp_all add: uint256_add_eq)
  moreover have "u256_ok uint256_max_uint" by (simp add: uint256_max_uint_eq u256_ok_def u256_modulus_def)
  then have "J (?m\<lparr>arb_gas_remaining := uint256_max_uint\<rparr>)" by (intro weaken set_remaining [OF m])
  ultimately show ?thesis
    using i same g ends_at [OF e] gas_ok [OF m]
    by (auto simp: run_one_dont_catch_errors_def next_op_gas_def Let_def uint256_sub_eq throw_def uint256_from_u64_def)
next
  case False
  with assms weaken [OF assms(2)] show ?thesis
    by (auto simp: run_one_dont_catch_errors_def next_opcode_def throw_def split: machine_state.splits option.splits)
qed

lemma run_one_ends:
  assumes "ext_ok ext" "I m" "p \<or> (\<exists>i. next_opcode m = Some i \<and> (\<forall>insn. i = Some insn \<longrightarrow> opcode insn \<notin> panicking_opcodes))"
  shows "outcome_in p J (run_one ext m)"
  using step_ends [OF assms] any_state
  by (cases "run_one_dont_catch_errors ext m") (auto simp: run_one_def)

end

end
