(* ===== verification/Emulator_Safety.thy ===== *)
theory Emulator_Safety
  imports Machine_Contract
begin

text \<open>
  Interpretations of the machine contract and what they give for the steps and runs of the emulator: all
  values stay in range and the environment stays consistent, programs without the panicking opcodes never
  panic, ordinary instructions cost exactly their gas and leave code and error handler alone, and gas
  bounds the length of a run.
\<close>

section \<open>Machines in range\<close>

text \<open>Every value the machine holds satisfies \<open>vp\<close>, its gas counters are 256-bit integers and its
  environment is consistent.\<close>

definition machine_all :: "(val \<Rightarrow> bool) \<Rightarrow> machine \<Rightarrow> bool" where
  "machine_all vp m \<longleftrightarrow>
     list_all vp (stack m) \<and> list_all vp (aux_stack m) \<and> vp (register m) \<and> vp (static_val m)
     \<and> list_all vp (l1_inbox (runtime_env m)) \<and> env_ok (runtime_env m)
     \<and> list_all (list_all (\<lambda>insn. pred_option vp (immediate insn))) (code m)
     \<and> u256_ok (arb_gas_remaining m) \<and> u256_ok (total_gas_usage m)"

text \<open>Values in range, without labels where panics are not allowed.\<close>

definition val_in :: "bool \<Rightarrow> externals \<Rightarrow> val \<Rightarrow> bool" where
  "val_in p ext v \<longleftrightarrow> value_ok (keccak256 ext) v \<and> (p \<or> label_free v)"

lemma val_in_simps [simp]:
  "val_in p ext (IntV i) = u256_ok i"
  "val_in p ext (TupleV vs) = (length vs < usize_limit \<and> (\<forall>v \<in> set vs. val_in p ext v))"
  "val_in p ext (CodePointV c)"
  "val_in p ext (BufferV b) = buffer_ok (keccak256 ext) b"
  "val_in p ext (LabelV l) = p"
  by (auto simp: val_in_def list_all_iff)

definition can_advance :: "machine \<Rightarrow> bool" where
  "can_advance m \<longleftrightarrow> (case state m of Running pc \<Rightarrow> codept_incr pc \<noteq> None | _ \<Rightarrow> False)"

lemma all_inbox:
  assumes "machine_all vp m" "get_from_inbox (runtime_env m) = (Some v, env)"
  shows "vp v \<and> machine_all vp (m\<lparr>runtime_env := env\<rparr>)"
  using assms env_ok_taken [of "runtime_env m"]
  by (auto simp: machine_all_def get_from_inbox_def split: list.splits)

lemma all_log: "machine_all vp m \<Longrightarrow> machine_all vp (m\<lparr>runtime_env := push_log (runtime_env m) v\<rparr>)"
  by (simp add: machine_all_def env_ok_def Let_def push_log_def recorder_add_log_def)

lemma all_send:
  "machine_all vp m \<Longrightarrow> push_send (runtime_env m) sz b = Some env \<Longrightarrow> machine_all vp (m\<lparr>runtime_env := env\<rparr>)"
  by (auto simp: machine_all_def env_ok_def Let_def push_send_def recorder_add_send_def bind_eq_Some_conv)

lemma all_segment: "machine_all vp m \<Longrightarrow> machine_all vp (m\<lparr>code := snd (create_segment (code m))\<rparr>)"
  by (simp add: machine_all_def create_segment_def Let_def instruction_from_opcode_def)

lemma list_all_update: "list_all P xs \<Longrightarrow> P y \<Longrightarrow> list_all P (xs[n := y])"
  by (auto simp: list_all_iff dest: set_update_subset_insert [THEN subsetD])

lemma all_push_insn:
  assumes "machine_all vp m" "\<forall>v. imm = Some v \<longrightarrow> vp v" "push_insn (code m) op imm cp = Some (cp', segs)"
  shows "machine_all vp (m\<lparr>code := segs\<rparr>)"
proof -
  let ?ok = "list_all (\<lambda>insn. pred_option vp (immediate insn))"
  obtain n opc where "n < length (code m)"
    "segs = (code m)[n := code m ! n @ [Instruction opc imm debug_info_default]]"
    using assms(3) by (fastforce simp: push_insn_def Let_def not_le split: codept.splits if_splits option.splits)
  moreover have "list_all ?ok (code m)" using assms(1) by (simp add: machine_all_def)
  moreover from this have "?ok (code m ! n)" if "n < length (code m)" for n
    using that by (simp add: list_all_length)
  moreover have "pred_option vp imm" using assms(2) by (cases imm) auto
  ultimately have "list_all ?ok segs" by (simp add: list_all_update)
  with assms(1) show ?thesis by (simp add: machine_all_def)
qed

lemma all_imm:
  assumes "machine_all vp m" "get_insn (code m) cp = Some (Some insn)" "immediate insn = Some v"
  shows "vp v"
proof -
  obtain seg where "seg \<in> set (code m)" "insn \<in> set seg"
    using assms(2) nth_mem
    by (auto simp: get_insn_def get_at_def split: codept.splits if_splits) fastforce+
  with assms(1,3) show ?thesis by (fastforce simp: machine_all_def list_all_iff)
qed

lemma all_frame [simp]:
  "machine_all vp (m\<lparr>state := st\<rparr>) = machine_all vp m"
  "machine_all vp (m\<lparr>err_codepoint := cp\<rparr>) = machine_all vp m"
  by (simp_all add: machine_all_def)

lemma all_stack:
  "machine_all vp m \<Longrightarrow> stack m = v # s \<Longrightarrow> vp v \<and> machine_all vp (m\<lparr>stack := s\<rparr>)"
  "machine_all vp m \<Longrightarrow> vp v \<Longrightarrow> machine_all vp (m\<lparr>stack := v # stack m\<rparr>)"
  "machine_all vp m \<Longrightarrow> aux_stack m = v # s \<Longrightarrow> vp v \<and> machine_all vp (m\<lparr>aux_stack := s\<rparr>)"
  "machine_all vp m \<Longrightarrow> vp v \<Longrightarrow> machine_all vp (m\<lparr>aux_stack := v # aux_stack m\<rparr>)"
  "machine_all vp m \<Longrightarrow> vp v \<Longrightarrow> machine_all vp (m\<lparr>register := v\<rparr>)"
  "machine_all vp m \<Longrightarrow> vp (register m) \<and> vp (static_val m)"
  "machine_all vp m \<Longrightarrow> u256_ok (arb_gas_remaining m)"
  "machine_all vp m \<Longrightarrow> u256_ok (total_gas_usage m)"
  "machine_all vp m \<Longrightarrow> u256_ok g \<Longrightarrow> u256_ok t \<Longrightarrow>
     machine_all vp (m\<lparr>arb_gas_remaining := g, total_gas_usage := t\<rparr>)"
  by (simp_all add: machine_all_def)

lemmas all_laws = all_stack all_inbox all_log all_send all_segment all_push_insn all_imm

lemma advance_frame [simp]:
  "can_advance (m\<lparr>stack := s\<rparr>) = can_advance m" "can_advance (m\<lparr>aux_stack := s\<rparr>) = can_advance m"
  "can_advance (m\<lparr>register := v\<rparr>) = can_advance m" "can_advance (m\<lparr>err_codepoint := cp\<rparr>) = can_advance m"
  "can_advance (m\<lparr>runtime_env := e\<rparr>) = can_advance m" "can_advance (m\<lparr>code := c\<rparr>) = can_advance m"
  "can_advance (m\<lparr>arb_gas_remaining := g, total_gas_usage := t\<rparr>) = can_advance m"
  by (simp_all add: can_advance_def)

interpretation safe: gas_contract ext UNIV p "val_in p ext" "\<lambda>m. machine_all (val_in p ext) m \<and> (p \<or> can_advance m)"
    "machine_all (val_in p ext)"
  for ext p
proof unfold_locales
  show "machine_all (val_in p ext) m \<and> (p \<or> can_advance m) \<Longrightarrow>
      p \<or> (\<exists>pc pc'. state m = Running pc \<and> codept_incr pc = Some pc')" for m
    by (auto simp: can_advance_def split: machine_state.splits)
  show "val_in p ext v \<Longrightarrow> value_ok (keccak256 ext) v" for v by (simp add: val_in_def)
qed (auto dest: all_laws intro: all_laws)

section \<open>Ordinary instructions\<close>

text \<open>All but the instructions that set the gas, the error handler or the code.\<close>

definition ordinary_opcodes :: "avm_opcode set" where
  "ordinary_opcodes = - {SetGas, Inbox, InboxPeek, ErrSet, ErrCodePoint, PushInsn, PushInsnImm}"

text \<open>The parts of the machine that no ordinary instruction changes.\<close>

definition fixed_parts :: "machine \<Rightarrow> uint256 \<times> uint256 \<times> code_store \<times> val \<times> codept" where
  "fixed_parts m = (arb_gas_remaining m, total_gas_usage m, code m, static_val m, err_codepoint m)"

interpretation frame: machine_contract ext ordinary_opcodes True "val_in True ext"
    "\<lambda>m. machine_all (val_in True ext) m \<and> fixed_parts m = parts" "\<lambda>m. machine_all (val_in True ext) m \<and> fixed_parts m = parts"
  for ext parts
proof unfold_locales
  show "val_in True ext v \<Longrightarrow> value_ok (keccak256 ext) v" for v by (simp add: val_in_def)
qed (auto simp: ordinary_opcodes_def fixed_parts_def dest: all_laws intro: all_laws)

section \<open>Steps\<close>

lemma step_frame:
  assumes "ext_ok ext" "machine_all (val_in True ext) m" "opcode insn \<in> ordinary_opcodes"
    "state m = Running pc" "get_insn (code m) pc = Some (Some insn)" "op_gas (push_immediate insn m) (opcode insn) = Some g"
    "g \<le> arb_gas_remaining m"
  shows "outcome_in True (\<lambda>m'. machine_all (val_in True ext) m'
       \<and> fixed_parts m' = (arb_gas_remaining m - g, (total_gas_usage m + g) mod u256_modulus, code m,
           static_val m, err_codepoint m)) (run_one_dont_catch_errors ext m)"
proof -
  let ?m = "push_immediate insn m"
  let ?m' = "?m\<lparr>arb_gas_remaining := arb_gas_remaining m - g, total_gas_usage := (total_gas_usage m + g) mod u256_modulus\<rparr>"
  have same: "state ?m = Running pc" "code ?m = code m" "arb_gas_remaining ?m = arb_gas_remaining m"
      "total_gas_usage ?m = total_gas_usage m" "static_val ?m = static_val m" "err_codepoint ?m = err_codepoint m"
    using assms(4) by (simp_all add: push_immediate_def split: option.split)
  have all: "machine_all (val_in True ext) ?m"
    using safe.push_immediate_keeps [of True ext m] assms(2,5) by blast
  have ok: "u256_ok (arb_gas_remaining m)" using assms(2) by (rule all_stack)
  have "machine_all (val_in True ext) ?m'"
    by (intro all_stack(9) [OF all] u256_ok_mono [OF ok diff_le_self]) simp
  moreover have "fixed_parts ?m' = (arb_gas_remaining m - g, (total_gas_usage m + g) mod u256_modulus, code m,
           static_val m, err_codepoint m)"
    by (simp add: fixed_parts_def same)
  ultimately have "outcome_in True (\<lambda>m'. machine_all (val_in True ext) m'
       \<and> fixed_parts m' = (arb_gas_remaining m - g, (total_gas_usage m + g) mod u256_modulus, code m,
           static_val m, err_codepoint m))
      (exec_opcode ext (immediate insn \<noteq> None) (arb_gas_remaining m) (opcode insn) ?m')"
    using assms(3) by (intro ends_at [OF frame.exec_keeps [OF assms(1,3)]]) (auto simp: ordinary_opcodes_def)
  then show ?thesis
    using assms(4-7) ok
    by (simp add: run_one_dont_catch_errors_def same next_op_gas_def Let_def uint256_sub_eq uint256_add_eq
        uint256_from_u64_def)
qed

lemma val_in_True: "val_in True ext = value_ok (keccak256 ext)"
  by (auto simp: val_in_def)

lemma run_one_all:
  "ext_ok ext \<Longrightarrow> machine_all (val_in True ext) m \<Longrightarrow> outcome_in True (machine_all (val_in True ext)) (run_one ext m)"
  by (rule safe.run_one_ends) auto

lemmas run_loop_induct = run_loop.raw_induct [rotated 1, consumes 1, case_names step]

lemma run_loop_all:
  assumes "run_loop ext stop_pc m gas = Some r" "ext_ok ext" "machine_all (val_in True ext) m"
  shows "\<forall>used m'. r = Some (used, m') \<longrightarrow> machine_all (val_in True ext) m'"
  using assms
proof (induction rule: run_loop_induct)
  case (step loop ext stop_pc m gas r)
  note one = run_one_all [OF step(3,4)]
  show ?case
  proof (cases "\<exists>og m1. is_running (state m) \<and> next_op_gas m = Some og \<and> run_one ext m = Done False m1")
    case True
    then obtain m1 where m1: "run_one ext m = Done False m1" by blast
    with one have all: "machine_all (val_in True ext) m1" by simp
    have "machine_all (val_in True ext) (m1\<lparr>total_gas_usage := t\<rparr>)"
      if "uint256_sub (total_gas_usage m1) g = Some t" for g t
      using all that by (auto simp: machine_all_def uint256_sub_eq split: if_splits intro: u256_ok_mono)
    with m1 all step(2,4) show ?thesis
      by (auto simp: Let_def split: if_splits option.splits)
  next
    case False
    with step one show ?thesis
      by (auto simp: Let_def split: if_splits option.splits outcome.splits)
  qed
qed

section \<open>Termination\<close>

lemma op_gas_pos: "op_gas m op = Some g \<Longrightarrow> op \<noteq> Blake2f \<Longrightarrow> 0 < g"
proof -
  have "0 < gas_for_pairing_loop k i v" for k i v
    by (induction k i v rule: gas_for_pairing_loop.induct) (auto split: val.split)
  then show "op_gas m op = Some g \<Longrightarrow> op \<noteq> Blake2f \<Longrightarrow> 0 < g"
    by (cases op) (auto simp: gas_for_pairing_def split: option.splits)
qed

text \<open>Code in which every instruction is ordinary and costs gas: \<open>Blake2f\<close> is free for zero rounds.\<close>

definition metered_code :: "code_store \<Rightarrow> bool" where
  "metered_code segs \<longleftrightarrow> list_all (list_all (\<lambda>insn. opcode insn \<in> ordinary_opcodes - {Blake2f})) segs"

lemma metered_insn:
  assumes "metered_code segs" "get_insn segs pc = Some (Some insn)"
  shows "opcode insn \<in> ordinary_opcodes" "opcode insn \<noteq> Blake2f"
proof -
  obtain seg where "seg \<in> set segs" "insn \<in> set seg"
    using assms(2) nth_mem
    by (auto simp: get_insn_def get_at_def split: codept.splits if_splits) fastforce+
  with assms(1) show "opcode insn \<in> ordinary_opcodes" "opcode insn \<noteq> Blake2f"
    by (auto simp: metered_code_def list_all_iff)
qed

lemma metered_step:
  assumes "ext_ok ext" "machine_all (val_in True ext) m" "metered_code (code m)" "err_codepoint m = Null"
    "run_one ext m = Done b m'"
  shows "arb_gas_remaining m' < arb_gas_remaining m \<and> machine_all (val_in True ext) m' \<and> code m' = code m
     \<and> err_codepoint m' = Null"
proof (cases "\<exists>pc insn. state m = Running pc \<and> get_insn (code m) pc = Some (Some insn)")
  case True
  then obtain pc insn where i: "state m = Running pc" "get_insn (code m) pc = Some (Some insn)" by blast
  let ?m = "push_immediate insn m"
  have all: "machine_all (val_in True ext) ?m" using safe.push_immediate_keeps [of True ext m] assms(2) i(2) by blast
  then obtain g where g: "op_gas ?m (opcode insn) = Some g" using safe.op_gas_ok [of True ext ?m] by auto
  with metered_insn [OF assms(3) i(2)] have pos: "0 < g" using op_gas_pos by blast
  have same: "state ?m = Running pc" "code ?m = code m" "arb_gas_remaining ?m = arb_gas_remaining m"
      "err_codepoint ?m = Null"
    using i assms(4) by (simp_all add: push_immediate_def split: option.split)
  show ?thesis
  proof (cases "g \<le> arb_gas_remaining m")
    case True
    from step_frame [OF assms(1,2) metered_insn(1) [OF assms(3) i(2)] i g True] assms(4,5) pos True show ?thesis
      by (cases "run_one_dont_catch_errors ext m") (auto simp: run_one_def fixed_parts_def split: if_splits)
  next
    case False
    with all have "run_one ext m = Fail (execution_error_new ''Out of ArbGas'' (Running pc) None)
        (?m\<lparr>arb_gas_remaining := uint256_max_uint\<rparr>)"
      using i g same all_stack(7) [OF all]
      by (simp add: run_one_def run_one_dont_catch_errors_def next_op_gas_def Let_def uint256_sub_eq throw_def
          uint256_from_u64_def)
    with assms(5) show ?thesis by simp
  qed
next
  case False
  with assms(4,5) show ?thesis
    by (auto simp: run_one_def run_one_dont_catch_errors_def throw_def split: machine_state.splits option.splits)
qed

lemma metered_run_ends:
  assumes "ext_ok ext" "machine_all (val_in True ext) m" "metered_code (code m)" "err_codepoint m = Null"
  shows "\<exists>r. run_loop ext stop_pc m gas = Some r"
  using assms(2-)
proof (induction "arb_gas_remaining m" arbitrary: m gas rule: less_induct)
  case less
  have "\<exists>r. run_loop ext stop_pc m' gas' = Some r" if "run_one ext m = Done b m'" for m' b gas'
    using metered_step [OF assms(1) less.prems that] less.hyps less.prems(2) by simp
  then show ?case
    by (subst run_loop.simps) (auto simp: Let_def split: option.splits outcome.splits)
qed

section \<open>Concrete machines\<close>

text \<open>Library functions that meet the assumptions, an environment with an empty inbox and a machine about
  to run given code, for the witnesses below.\<close>

definition zero_externals :: externals where
  "zero_externals =
     \<lparr>keccak256 = \<lambda>_. replicate 32 0, keccak_f1600 = \<lambda>ls. ls, sha256_digest_block = \<lambda>a b. replicate 8 0,
      sig_recover = \<lambda>r s v h. None,
      bn = \<lparr>fq_from_slice = \<lambda>_. None, fr_from_slice = \<lambda>_. None, fq_is_zero = \<lambda>n. n = 0, fq2_new = \<lambda>a b. a,
            fq2_is_zero = \<lambda>n. n = 0, g1_zero = 0, g1_affine = \<lambda>x y. None, g1_add = \<lambda>a b. a, g1_mul = \<lambda>a b. a,
            g1_coords = \<lambda>_. None, g2_zero = 0, g2_affine = \<lambda>x y. None, bn_pairing = \<lambda>a b. 0, gt_one = 0,
            gt_mul = \<lambda>a b. a\<rparr>\<rparr>"

lemma zero_externals_ok: "ext_ok zero_externals"
  by (simp add: ext_ok_def zero_externals_def)

definition quiet_env :: runtime_env where
  "quiet_env =
     \<lparr>chain_id = 42161, l1_inbox = [], current_block_num = 0, current_timestamp = 0, logs = [], sends = [],
      next_inbox_seq_num = 0, caller_seq_nums = Map.empty, env_next_id = 0, recorder = recorder_new,
      compressor = compressor_new, charging_policy = None, num_wallets = 0, chain_init_message = []\<rparr>"

definition ready_machine :: "(avm_opcode \<times> val option) list \<Rightarrow> machine" where
  "ready_machine prog =
     start_at_zero (machine_new (map (\<lambda>(op, imm). Instruction op imm debug_info_default) prog) value_none quiet_env)"

lemma ready_machine_all:
  "vp value_none \<Longrightarrow> \<forall>(op, imm) \<in> set prog. pred_option vp imm \<Longrightarrow> machine_all vp (ready_machine prog)"
  by (auto simp: ready_machine_def start_at_zero_def machine_new_def machine_all_def value_stack_new_def
      code_store_new_def quiet_env_def env_ok_def recorder_new_def list_all_iff uint256_zero_def bitwise_neg_ok)

lemma ready_machine_fields:
  "state (ready_machine prog) = Running (CpInternal 0)" "err_codepoint (ready_machine prog) = Null"
  "code (ready_machine prog) = [map (\<lambda>(op, imm). Instruction op imm debug_info_default) prog]"
  by (simp_all add: ready_machine_def start_at_zero_def machine_new_def code_store_new_def)

text \<open>Symbolic execution of a ready machine.\<close>

lemmas ready_eval = ready_machine_def start_at_zero_def machine_new_def code_store_new_def value_stack_new_def
  is_running_def next_op_gas_def get_insn_def get_at_def run_one_def run_one_dont_catch_errors_def push_immediate_def
  value_stack_push_def op_noop_def op_halt_def next_insn_def incr_pc_def codept_incr_def outcome_simps
  uint256_sub_def biguint_checked_sub_def uint256_trim_eq uint256_add_eq uint256_from_u64_def uint256_zero_def
  uint256_bitwise_neg_def biguint_max_mask mask_eq_exp_minus_1 u256_modulus_def usize_add_def usize_limit_def

section \<open>Properties\<close>

text \<open>
  C1: A run of the emulator keeps every value of the machine in range.  If all integers on the stacks, in
  the register, in the static value, in the immediates of the code and in the inbox are below \<open>2 ^ 256\<close>,
  all tuples have at most \<open>2 ^ 64 - 1\<close> fields and all buffers are well formed, the same holds when the run
  stops, whatever instructions it executed, whether they failed or not; and the environment is consistent
  again: recorded messages, logs and sends agree with what happened.
\<close>

theorem run_keeps_values_in_range:
  assumes "ext_ok ext" "machine_all (value_ok (keccak256 ext)) m" "run ext stop_pc m = Some (Some (gas, m'))"
  shows "machine_all (value_ok (keccak256 ext)) m'"
  using run_loop_all [of ext stop_pc m 0] assms by (auto simp: run_def val_in_True)

theorem run_keeps_values_in_range_witness:
  "\<exists>gas m'. run zero_externals None (ready_machine [(Noop, Some (IntV 3)), (Halt, None)]) = Some (Some (gas, m'))
     \<and> stack m' = [IntV 3] \<and> machine_all (value_ok (keccak256 zero_externals)) m'"
proof -
  let ?m = "ready_machine [(Noop, Some (IntV 3)), (Halt, None)]"
  have "\<exists>gas m'. run zero_externals None ?m = Some (Some (gas, m')) \<and> stack m' = [IntV 3]"
    unfolding run_def
    by (subst run_loop.simps, simp add: ready_eval, subst run_loop.simps, simp add: ready_eval)
  moreover have "machine_all (value_ok (keccak256 zero_externals)) ?m"
    by (rule ready_machine_all) (auto simp: value_none_def usize_limit_def u256_ok_def u256_modulus_def)
  ultimately show ?thesis using run_keeps_values_in_range [OF zero_externals_ok] by blast
qed

text \<open>
  C2: No panic: on a machine with values in range and without unresolved labels, whose program counter can
  be advanced, a step that is not one of the six panicking opcodes (\<open>PushInsn\<close>, \<open>PushInsnImm\<close>, \<open>OpenInsn\<close>,
  \<open>DebugPrint\<close>, \<open>Send\<close>, \<open>InboxPeek\<close>) does not panic: it succeeds or returns an error, and the values stay in
  range and free of labels.
\<close>

theorem run_one_never_panics:
  assumes "ext_ok ext" "machine_all (\<lambda>v. value_ok (keccak256 ext) v \<and> label_free v) m" "code m \<noteq> []"
    "\<forall>pc. state m = Running pc \<longrightarrow> codept_incr pc \<noteq> None"
    "\<forall>insn. next_opcode m = Some (Some insn) \<longrightarrow> opcode insn \<notin> panicking_opcodes"
  shows "run_one ext m \<noteq> Panic
    \<and> (\<forall>b m'. run_one ext m = Done b m' \<longrightarrow> machine_all (\<lambda>v. value_ok (keccak256 ext) v \<and> label_free v) m')"
proof -
  have vp: "val_in False ext = (\<lambda>v. value_ok (keccak256 ext) v \<and> label_free v)" by (auto simp: val_in_def)
  have "outcome_in False (machine_all (val_in False ext)) (run_one ext m)"
  proof (cases "state m")
    case (Running pc)
    with assms(4) have "can_advance m" by (simp add: can_advance_def)
    moreover have "next_opcode m \<noteq> None"
      using Running assms(3,4)
      by (auto simp: next_opcode_def get_insn_def get_at_def codept_incr_def split: codept.splits)
    ultimately show ?thesis
      using assms(1,2,5) vp by (intro safe.run_one_ends) auto
  qed (use assms(2) vp in \<open>auto simp: run_one_def run_one_dont_catch_errors_def throw_def\<close>)
  then show ?thesis by (auto simp: vp split: outcome.splits)
qed

theorem run_one_never_panics_witness:
  "run_one zero_externals (ready_machine [(Hash, Some (TupleV [IntV 1]))]) \<noteq> Panic"
  by (intro run_one_never_panics [THEN conjunct1] zero_externals_ok ready_machine_all)
     (auto simp: ready_machine_fields next_opcode_def get_insn_def get_at_def panicking_opcodes_def
        codept_incr_def value_none_def usize_limit_def u256_ok_def u256_modulus_def)

text \<open>
  C4: Gas is charged exactly.  An ordinary instruction that costs \<open>g\<close> on a machine with at least \<open>g\<close> gas
  left reduces the gas by \<open>g\<close>, adds \<open>g\<close> to the total usage (modulo \<open>2 ^ 256\<close>) and leaves code, static
  value and error handler as they were, whether it then succeeds or fails; with less gas left it fails with
  \<open>Out of ArbGas\<close>, the gas is set to \<open>2 ^ 256 - 1\<close> and nothing is added to the usage.
\<close>

theorem step_charges_exact_gas:
  assumes "ext_ok ext" "machine_all (value_ok (keccak256 ext)) m" "state m = Running pc"
    "get_insn (code m) pc = Some (Some insn)" "opcode insn \<in> ordinary_opcodes"
    "op_gas (push_immediate insn m) (opcode insn) = Some g"
    "run_one_dont_catch_errors ext m = Done b m' \<or> run_one_dont_catch_errors ext m = Fail e m'"
  shows "(arb_gas_remaining m', total_gas_usage m', code m', static_val m', err_codepoint m') =
    (if g \<le> arb_gas_remaining m then arb_gas_remaining m - g else 2 ^ 256 - 1,
     if g \<le> arb_gas_remaining m then (total_gas_usage m + g) mod 2 ^ 256 else total_gas_usage m,
     code m, static_val m, err_codepoint m)"
proof (cases "g \<le> arb_gas_remaining m")
  case True
  with step_frame [OF assms(1) _ assms(5,3,4,6) True] assms(2,7) show ?thesis
    by (auto simp: val_in_True fixed_parts_def u256_modulus_def)
next
  case False
  let ?m = "push_immediate insn m"
  have same: "state ?m = Running pc" "code ?m = code m" "arb_gas_remaining ?m = arb_gas_remaining m"
    "total_gas_usage ?m = total_gas_usage m" "static_val ?m = static_val m" "err_codepoint ?m = err_codepoint m"
    using assms(3) by (simp_all add: push_immediate_def split: option.split)
  have "u256_ok (arb_gas_remaining m)" using assms(2) by (rule all_stack)
  with False assms(3,4,6) have "run_one_dont_catch_errors ext m =
      Fail (execution_error_new ''Out of ArbGas'' (Running pc) None) (?m\<lparr>arb_gas_remaining := uint256_max_uint\<rparr>)"
    by (simp add: run_one_dont_catch_errors_def same next_op_gas_def Let_def uint256_sub_eq throw_def uint256_from_u64_def)
  with assms(7) False same show ?thesis by (auto simp: uint256_max_uint_eq u256_modulus_def)
qed

theorem step_charges_exact_gas_witness:
  "\<exists>m'. run_one_dont_catch_errors zero_externals (ready_machine [(Noop, None)]) = Done True m'
     \<and> arb_gas_remaining m' = arb_gas_remaining (ready_machine [(Noop, None)]) - 1"
proof -
  let ?m = "ready_machine [(Noop, None)]"
  obtain m' where m': "run_one_dont_catch_errors zero_externals ?m = Done True m'" by (simp add: ready_eval)
  have all: "machine_all (value_ok (keccak256 zero_externals)) ?m"
    by (rule ready_machine_all) (auto simp: value_none_def usize_limit_def)
  have insn: "get_insn (code ?m) (CpInternal 0) = Some (Some (Instruction Noop None debug_info_default))"
    by (simp add: ready_machine_fields get_insn_def get_at_def)
  have "1 \<le> arb_gas_remaining ?m" by (simp add: ready_eval)
  with step_charges_exact_gas [OF zero_externals_ok all ready_machine_fields(1) insn, of 1 True m'] m' show ?thesis
    by (simp add: ordinary_opcodes_def)
qed

text \<open>
  C3: Gas bounds runs.  On a machine without an error handler, whose code has only ordinary instructions
  that cost gas, every run terminates, with or without a stop address and whatever gas is left: it ends in a
  result (or a panic), it never runs forever.
\<close>

theorem gas_bounds_runs:
  assumes "ext_ok ext" "machine_all (value_ok (keccak256 ext)) m" "metered_code (code m)" "err_codepoint m = Null"
  shows "\<exists>r. run ext stop_pc m = Some r"
  using metered_run_ends assms by (simp add: run_def val_in_True)

text \<open>The witness is a machine that jumps to itself.\<close>

theorem gas_bounds_runs_witness:
  "\<exists>r. run zero_externals None (ready_machine [(Jump, Some (CodePointV (CpInternal 0)))]) = Some r"
  by (intro gas_bounds_runs zero_externals_ok ready_machine_all)
     (auto simp: ready_machine_fields metered_code_def ordinary_opcodes_def value_none_def usize_limit_def)

text \<open>
  C5: While an error handler is set, no ordinary instruction stops the machine with an error: whatever the
  instruction does before it fails is kept and execution goes on at the handler; a step that does not fail
  is not affected by the handler.
\<close>

theorem errors_go_to_handler:
  assumes "ext_ok ext" "machine_all (value_ok (keccak256 ext)) m" "state m = Running pc"
    "get_insn (code m) pc = Some (Some insn)" "opcode insn \<in> ordinary_opcodes" "err_codepoint m \<noteq> Null"
  shows "run_one ext m = (case run_one_dont_catch_errors ext m of
       Done b m' \<Rightarrow> Done b m'
     | Fail e m' \<Rightarrow> Done True (m'\<lparr>state := Running (err_codepoint m)\<rparr>)
     | Panic \<Rightarrow> Panic)"
proof (cases "run_one_dont_catch_errors ext m")
  case (Fail e m')
  let ?m = "push_immediate insn m"
  have all: "machine_all (val_in True ext) ?m"
    using safe.push_immediate_keeps [of True ext m] assms(2,4) by (auto simp: val_in_True)
  then obtain g where g: "op_gas ?m (opcode insn) = Some g" using safe.op_gas_ok [of True ext ?m] by auto
  have "err_codepoint m' = err_codepoint m"
  proof (cases "g \<le> arb_gas_remaining m")
    case True
    with step_frame [OF assms(1) _ assms(5,3,4) g True] assms(2) Fail show ?thesis
      by (auto simp: val_in_True fixed_parts_def)
  next
    case False
    have "arb_gas_remaining ?m = arb_gas_remaining m" "err_codepoint ?m = err_codepoint m" "code ?m = code m" "state ?m = state m"
      by (simp_all add: push_immediate_def split: option.split)
    with False assms(3,4) g Fail all_stack(7) [OF all] show ?thesis
      by (auto simp: run_one_dont_catch_errors_def next_op_gas_def Let_def uint256_sub_eq throw_def uint256_from_u64_def)
  qed
  with Fail assms(6) show ?thesis by (simp add: run_one_def)
qed (simp_all add: run_one_def)

text \<open>The witness takes from an empty stack.\<close>

theorem errors_go_to_handler_witness:
  "\<exists>m'. run_one zero_externals ((ready_machine [(Pop, None), (Halt, None)])\<lparr>err_codepoint := CpInternal 1\<rparr>) = Done True m'
     \<and> state m' = Running (CpInternal 1)"
proof -
  let ?m = "(ready_machine [(Pop, None), (Halt, None)])\<lparr>err_codepoint := CpInternal 1\<rparr>"
  have "\<exists>e m'. run_one_dont_catch_errors zero_externals ?m = Fail e m'"
    by (simp add: ready_eval op_pop_def pop_def on_stack_def value_stack_pop_def)
  moreover have "machine_all (value_ok (keccak256 zero_externals)) ?m"
    by (simp add: ready_machine_all value_none_def usize_limit_def)
  ultimately show ?thesis
    using errors_go_to_handler [OF zero_externals_ok, of ?m "CpInternal 0" "Instruction Pop None debug_info_default"]
    by (auto simp: ready_machine_fields get_insn_def get_at_def ordinary_opcodes_def)
qed



end
