(* ===== verification/Code_Exec.thy ===== *)
theory Code_Exec
  imports Emulator
begin

text \<open>
  Execution of straight-line code as the emulator executes it, instruction by instruction and without
  accounting for gas.  The passes of the linker that rewrite instructions are judged by it.
\<close>

named_theorems exec_steps "effect of single instructions"

section \<open>Definitions\<close>

text \<open>Push the immediate, execute the opcode, go on while the machine is runnable.  Only instructions of the
  machine can be executed; a virtual opcode never reaches it.\<close>

fun exec_code :: "externals \<Rightarrow> opcode instruction list \<Rightarrow> bool exec" where
  "exec_code ext [] m = Done True m"
| "exec_code ext (i # cs) m =
     (case opcode i of
        AVM op \<Rightarrow>
          (case exec_opcode ext (immediate i \<noteq> None) (arb_gas_remaining m) op
                  (push_immediate (Instruction op (immediate i) (insn_debug_info i)) m) of
             Done b m1 \<Rightarrow> if b then exec_code ext cs m1 else Done False m1
           | Fail e m1 \<Rightarrow> Fail e m1
           | Panic \<Rightarrow> Panic)
      | _ \<Rightarrow> Panic)"

text \<open>A machine that runs at an address of the first segment with the given stacks.\<close>

definition cfg :: "machine \<Rightarrow> usize \<Rightarrow> val list \<Rightarrow> val list \<Rightarrow> machine" where
  "cfg m pc s a = m\<lparr>state := Running (CpInternal pc), stack := s, aux_stack := a\<rparr>"

section \<open>Lemmas\<close>

lemma exec_code_append:
  "exec_code ext (xs @ ys) m =
     (case exec_code ext xs m of
        Done b m1 \<Rightarrow> if b then exec_code ext ys m1 else Done False m1
      | Fail e m1 \<Rightarrow> Fail e m1
      | Panic \<Rightarrow> Panic)"
  by (induction xs arbitrary: m) (auto split: opcode.split outcome.split)

lemma exec_code_appendI:
  "exec_code ext xs m = Done True m1 \<Longrightarrow> exec_code ext ys m1 = r \<Longrightarrow> exec_code ext (xs @ ys) m = r"
  by (simp add: exec_code_append)

lemma cfg_fields [simp]:
  "stack (cfg m pc s a) = s" "aux_stack (cfg m pc s a) = a" "state (cfg m pc s a) = Running (CpInternal pc)"
  "register (cfg m pc s a) = register m" "arb_gas_remaining (cfg m pc s a) = arb_gas_remaining m"
  "code (cfg m pc s a) = code m" "static_val (cfg m pc s a) = static_val m"
  "err_codepoint (cfg m pc s a) = err_codepoint m" "runtime_env (cfg m pc s a) = runtime_env m"
  "(cfg m pc s a)\<lparr>stack := s'\<rparr> = cfg m pc s' a" "(cfg m pc s a)\<lparr>aux_stack := a'\<rparr> = cfg m pc s a'"
  "(cfg m pc s a)\<lparr>state := Running (CpInternal pc')\<rparr> = cfg m pc' s a"
  "(cfg m pc s a)\<lparr>register := v\<rparr> = cfg (m\<lparr>register := v\<rparr>) pc s a"
  by (simp_all add: cfg_def)

lemma cfg_same: "state m = Running (CpInternal pc) \<Longrightarrow> cfg m pc (stack m) (aux_stack m) = m"
  by (simp add: cfg_def)

text \<open>Pops and pushes on such a machine.\<close>

lemma cfg_effects:
  "pop (cfg m pc (v # s) a) = Done v (cfg m pc s a)"
  "pop_uint (cfg m pc (IntV i # s) a) = Done i (cfg m pc s a)"
  "i < usize_limit \<Longrightarrow> pop_usize (cfg m pc (IntV i # s) a) = Done i (cfg m pc s a)"
  "pop_tuple (cfg m pc (TupleV vs # s) a) = Done vs (cfg m pc s a)"
  "on_aux_stack value_stack_pop (cfg m pc s (v # a)) = Done v (cfg m pc s a)"
  "on_aux_stack value_stack_pop_tuple (cfg m pc s (TupleV vs # a)) = Done vs (cfg m pc s a)"
  "push v (cfg m pc s a) = Done () (cfg m pc (v # s) a)"
  "push_aux v (cfg m pc s a) = Done () (cfg m pc s (v # a))"
  "next_insn (cfg m pc s a) = Done True (cfg m (pc + 1) s a)"
  "push_next v (cfg m pc s a) = Done True (cfg m (pc + 1) (v # s) a)"
  by (simp_all add: pop_def pop_uint_def pop_usize_def pop_tuple_def on_stack_def on_aux_stack_def value_stack_pop_def value_stack_pop_uint_def
      value_stack_pop_usize_def value_stack_pop_tuple_def uint256_to_usize_def
      push_def push_aux_def next_insn_def incr_pc_def codept_incr_def push_next_def outcome_simps value_stack_push_def)

text \<open>An immediate is the same as a value that is already on the stack; only \<open>Inbox\<close> looks at it.\<close>

lemma exec_opcode_imm: "op \<noteq> Inbox \<Longrightarrow> exec_opcode ext b gas op = exec_opcode ext b' gas op"
  by (cases op) simp_all

lemma exec_imm [exec_steps]:
  assumes "op \<noteq> Inbox"
  shows "exec_code ext (Instruction (AVM op) (Some v) di # cs) (cfg m pc s a) =
    exec_code ext (Instruction (AVM op) None di # cs) (cfg m pc (v # s) a)"
  using exec_opcode_imm [OF assms, of ext True _ False] by (simp add: push_immediate_def value_stack_push_def)

lemma exec_bare:
  "exec_code ext (Instruction (AVM op) None di # cs) m =
     (case exec_opcode ext False (arb_gas_remaining m) op m of
        Done b m1 \<Rightarrow> if b then exec_code ext cs m1 else Done False m1
      | Fail e m1 \<Rightarrow> Fail e m1
      | Panic \<Rightarrow> Panic)"
  by (simp add: push_immediate_def)

declare exec_code.simps(2) [simp del]

lemma stack_steps [exec_steps]:
  "exec_code ext (Instruction (AVM Noop) None di # cs) (cfg m pc s a) = exec_code ext cs (cfg m (pc + 1) s a)"
  "exec_code ext (Instruction (AVM Pop) None di # cs) (cfg m pc (v # s) a) = exec_code ext cs (cfg m (pc + 1) s a)"
  "exec_code ext (Instruction (AVM Dup0) None di # cs) (cfg m pc (v # s) a) =
     exec_code ext cs (cfg m (pc + 1) (v # v # s) a)"
  "exec_code ext (Instruction (AVM Dup1) None di # cs) (cfg m pc (v # w # s) a) =
     exec_code ext cs (cfg m (pc + 1) (w # v # w # s) a)"
  "exec_code ext (Instruction (AVM Swap1) None di # cs) (cfg m pc (v # w # s) a) =
     exec_code ext cs (cfg m (pc + 1) (w # v # s) a)"
  "exec_code ext (Instruction (AVM Swap2) None di # cs) (cfg m pc (v # w # x # s) a) =
     exec_code ext cs (cfg m (pc + 1) (x # w # v # s) a)"
  "exec_code ext (Instruction (AVM AuxPush) None di # cs) (cfg m pc (v # s) a) =
     exec_code ext cs (cfg m (pc + 1) s (v # a))"
  "exec_code ext (Instruction (AVM AuxPop) None di # cs) (cfg m pc s (v # a)) =
     exec_code ext cs (cfg m (pc + 1) (v # s) a)"
  "exec_code ext (Instruction (AVM Rpush) None di # cs) (cfg m pc s a) =
     exec_code ext cs (cfg m (pc + 1) (register m # s) a)"
  "exec_code ext (Instruction (AVM Rset) None di # cs) (cfg m pc (v # s) a) =
     exec_code ext cs (cfg (m\<lparr>register := v\<rparr>) (pc + 1) s a)"
  by (simp_all add: exec_bare op_noop_def op_pop_def op_dup0_def op_dup1_def op_swap1_def op_swap2_def op_auxpush_def
      op_auxpop_def op_rpush_def op_rset_def cfg_effects bind_c_def then_c_def modify_c_def)

lemma tuple_steps [exec_steps]:
  assumes "k < length vs" "k < usize_limit"
  shows "exec_code ext (Instruction (AVM Tget) None di # cs) (cfg m pc (IntV k # TupleV vs # s) a) =
     exec_code ext cs (cfg m (pc + 1) (vs ! k # s) a)"
   "exec_code ext (Instruction (AVM Tset) None di # cs) (cfg m pc (IntV k # TupleV vs # v # s) a) =
     exec_code ext cs (cfg m (pc + 1) (TupleV (vs[k := v]) # s) a)"
   "exec_code ext (Instruction (AVM Xget) None di # cs) (cfg m pc (IntV k # s) (TupleV vs # a)) =
     exec_code ext cs (cfg m (pc + 1) (vs ! k # s) (TupleV vs # a))"
   "exec_code ext (Instruction (AVM Xset) None di # cs) (cfg m pc (IntV k # v # s) (TupleV vs # a)) =
     exec_code ext cs (cfg m (pc + 1) s (TupleV (vs[k := v]) # a))"
  using assms
  by (simp_all add: exec_bare op_tget_def op_tset_def op_xget_def op_xset_def cfg_effects bind_c_def then_c_def
      value_new_tuple_def value_stack_top_def value_stack_is_empty_def get_at_def)

lemma jump_step [exec_steps]:
  "exec_code ext [Instruction (AVM Jump) None di] (cfg m pc (CodePointV cp # s) a) =
     Done True (m\<lparr>state := Running cp, stack := s, aux_stack := a\<rparr>)"
  by (simp add: exec_bare op_jump_def pop_codepoint_def on_stack_def value_stack_pop_codepoint_def
      value_stack_pop_def outcome_simps cfg_def)

text \<open>The arithmetic of array access.\<close>

lemma arith_steps [exec_steps]:
  "y \<noteq> 0 \<Longrightarrow> exec_code ext (Instruction (AVM Div) None di # cs) (cfg m pc (IntV x # IntV y # s) a) =
     exec_code ext cs (cfg m (pc + 1) (IntV (x div y) # s) a)"
  "y \<noteq> 0 \<Longrightarrow> exec_code ext (Instruction (AVM Mod) None di # cs) (cfg m pc (IntV x # IntV y # s) a) =
     exec_code ext cs (cfg m (pc + 1) (IntV (x mod y) # s) a)"
  by (simp_all add: exec_bare op_div_def op_mod_def bin_op_fail_def push_or_throw_def uint256_div_def
      uint256_modulo_def cfg_effects bind_c_def)

end
