(* ===== verification/Tuple_Tree.thy ===== *)
theory Tuple_Tree
  imports Code_Exec
begin

text \<open>
  Nested tuples (\<open>src/link/xformcode.rs\<close>).  Wide tuples, local frames and the globals are laid out as trees
  of tuples with at most eight fields.  The theory models the shape of these trees, the values built from
  them, the code that reads and writes their leaves and the pass \<open>fix_tuple_size\<close> that expands the virtual
  instructions, and relates the generated code to its execution by the emulator.  Sizes are natural numbers:
  the source computes with \<open>usize\<close>, which agrees as long as eight times the size of a tuple fits in 64 bits.
\<close>

section \<open>Definitions\<close>

subsection \<open>Compile errors\<close>

record compile_error =
  title :: string
  description :: string
  locations :: "location list"
  is_warning :: bool

definition compile_error_new :: "string \<Rightarrow> string \<Rightarrow> location list \<Rightarrow> compile_error" where
  "compile_error_new t d ls = \<lparr>title = t, description = d, locations = ls, is_warning = False\<rparr>"

definition compile_error_new_warning :: "string \<Rightarrow> string \<Rightarrow> location list \<Rightarrow> compile_error" where
  "compile_error_new_warning t d ls = \<lparr>title = t, description = d, locations = ls, is_warning = True\<rparr>"

definition loc_list :: "debug_info \<Rightarrow> location list" where
  "loc_list di = (case location di of Some l \<Rightarrow> [l] | None \<Rightarrow> [])"

subsection \<open>Shapes\<close>

definition tuple_size :: usize where
  "tuple_size = 8"

datatype tuple_tree = Single | Tree usize "tuple_tree list"

text \<open>The first loop of \<open>TupleTree::new\<close>: a size of subtrees that leaves room to grow.  The loops are
  entered with a positive \<open>current_size\<close>; the test for zero only serves their totality.\<close>

function grow_size :: "usize \<Rightarrow> usize \<Rightarrow> usize" where
  "grow_size sz current_size =
     (if 0 < current_size \<and> current_size * (tuple_size * tuple_size) \<le> sz
      then grow_size sz (current_size * tuple_size)
      else current_size)"
  by auto
termination
  by (relation "measure (\<lambda>(sz, c). sz - c)") (auto simp: tuple_size_def)

text \<open>The second loop: the sizes of the subtrees from left to right.\<close>

function child_sizes :: "usize \<Rightarrow> usize \<Rightarrow> usize \<Rightarrow> usize list" where
  "child_sizes current_size remaining_size remaining_slots =
     (if remaining_size = 0 \<or> current_size = 0 then []
      else if current_size \<ge> remaining_size then [remaining_size]
      else if current_size * (1 + (remaining_slots - 1) * tuple_size) \<ge> remaining_size
      then current_size # child_sizes current_size (remaining_size - current_size) (remaining_slots - 1)
      else child_sizes (current_size * tuple_size) remaining_size remaining_slots)"
  by auto
termination
  by (relation "measures [\<lambda>(c, r, s). r, \<lambda>(c, r, s). r - c]") (auto simp: tuple_size_def)

declare grow_size.simps [simp del] child_sizes.simps [simp del]

text \<open>Subtrees are smaller than the tree, except for the one local.\<close>

lemma child_sizes_le: "s \<in> set (child_sizes c r k) \<Longrightarrow> s \<le> r"
proof (induction c r k rule: child_sizes.induct)
  case (1 c r k)
  then show ?case
    by (subst (asm) child_sizes.simps) (auto split: if_splits dest: le_trans)
qed

lemma child_sizes_less:
  "c < r \<Longrightarrow> 2 \<le> k \<Longrightarrow> s \<in> set (child_sizes c r k) \<Longrightarrow> s < r"
proof (induction c r k rule: child_sizes.induct)
  case (1 c r k)
  show ?case
  proof (cases "0 < c \<and> r \<le> c * (1 + (k - 1) * tuple_size)")
    case True
    with "1.prems"(1) have "child_sizes c r k = c # child_sizes c (r - c) (k - 1)"
      by (subst child_sizes.simps) auto
    with "1.prems" True child_sizes_le [of s c "r - c" "k - 1"] show ?thesis by auto
  next
    case False
    have "c * (tuple_size + 1) \<le> c * (1 + (k - 1) * tuple_size)"
      using "1.prems"(2) by (intro mult_le_mono2) (auto simp: tuple_size_def)
    with False have "0 < c \<Longrightarrow> c * tuple_size < r" by (simp add: algebra_simps)
    moreover have "child_sizes c r k = (if c = 0 then [] else child_sizes (c * tuple_size) r k)"
      using False "1.prems"(1) by (subst child_sizes.simps) auto
    ultimately show ?thesis
      using 1 False by (auto split: if_splits)
  qed
qed

lemma grow_size_less: "2 \<le> n \<Longrightarrow> 0 < c \<Longrightarrow> c < n \<Longrightarrow> grow_size n c < n"
  by (induction n c rule: grow_size.induct, subst grow_size.simps) (auto simp: tuple_size_def)

function tuple_tree_new :: "usize \<Rightarrow> bool \<Rightarrow> tuple_tree" where
  "tuple_tree_new sz is_local =
     (if sz = 1 \<and> \<not> is_local then Single
      else Tree sz (map (\<lambda>s. tuple_tree_new s False)
             (child_sizes (grow_size sz 1) sz tuple_size)))"
  by auto
termination
proof (relation "measure (\<lambda>(sz, is_local). 2 * sz + (if is_local then 1 else 0))")
  fix sz :: nat and is_local s
  assume a: "\<not> (sz = 1 \<and> \<not> is_local)" "s \<in> set (child_sizes (grow_size sz 1) sz tuple_size)"
  consider "sz = 0" | "sz = 1" | "2 \<le> sz" by linarith
  then show "((s, False), (sz, is_local)) \<in> measure (\<lambda>(sz, is_local). 2 * sz + (if is_local then 1 else 0))"
  proof cases
    case 1
    with a(2) show ?thesis by (simp add: child_sizes.simps)
  next
    case 2
    with a(1) child_sizes_le [OF a(2)] show ?thesis by auto
  next
    case 3
    then have "s < sz"
      using child_sizes_less [OF grow_size_less [of sz 1] _ a(2)] by (simp add: tuple_size_def)
    then show ?thesis by simp
  qed
qed auto

declare tuple_tree_new.simps [simp del]

fun make_empty :: "tuple_tree \<Rightarrow> val" where
  "make_empty Single = value_new_tuple []"
| "make_empty (Tree _ v) = value_new_tuple (map make_empty v)"

text \<open>\<open>None\<close>: there are fewer values than leaves, which panics.\<close>

fun make_value_2 :: "tuple_tree \<Rightarrow> val list \<Rightarrow> (val \<times> val list) option"
and make_values_2 :: "tuple_tree list \<Rightarrow> val list \<Rightarrow> (val list \<times> val list) option" where
  "make_value_2 Single vals = (case vals of [] \<Rightarrow> None | v # vs \<Rightarrow> Some (v, vs))"
| "make_value_2 (Tree _ subtrees) vals = map_option (\<lambda>(ret, vs). (value_new_tuple ret, vs)) (make_values_2 subtrees vals)"
| "make_values_2 [] vals = Some ([], vals)"
| "make_values_2 (t # ts) vals =
     (case make_value_2 t vals of
        None \<Rightarrow> None
      | Some (subval, new_vals) \<Rightarrow> map_option (\<lambda>(ret, vs). (subval # ret, vs)) (make_values_2 ts new_vals))"

definition make_value :: "tuple_tree \<Rightarrow> val list \<Rightarrow> val option" where
  "make_value t vals = map_option fst (make_value_2 t vals)"

fun tsize :: "tuple_tree \<Rightarrow> usize" where
  "tsize Single = 1"
| "tsize (Tree sz _) = sz"

definition make_uninitialized_tuple :: "usize \<Rightarrow> val" where
  "make_uninitialized_tuple sz = make_empty (tuple_tree_new sz False)"

definition value_from_field_list :: "val list \<Rightarrow> val option" where
  "value_from_field_list lis = make_value (tuple_tree_new (length lis) False) lis"

definition jump_table_to_value :: "codept list \<Rightarrow> val option" where
  "jump_table_to_value jump_table = make_value (tuple_tree_new (length jump_table) False) (map CodePointV jump_table)"

subsection \<open>Reading and writing leaves\<close>

text \<open>The code that is generated, or the error.  The helper walks over the subtrees with the number of the
  slot and the index relative to it.\<close>

fun read_code :: "tuple_tree \<Rightarrow> bool \<Rightarrow> usize \<Rightarrow> debug_info \<Rightarrow> compile_error + opcode instruction list"
and read_slots :: "tuple_tree list \<Rightarrow> usize \<Rightarrow> bool \<Rightarrow> usize \<Rightarrow> debug_info \<Rightarrow> compile_error + opcode instruction list" where
  "read_code Single is_local index di =
     Inr (if is_local
          then [instruction_from_opcode (AVM AuxPop) di, instruction_from_opcode (AVM Dup0) di,
                instruction_from_opcode (AVM AuxPush) di]
          else [])"
| "read_code (Tree _ v) is_local index di = read_slots v 0 is_local index di"
| "read_slots [] slot is_local index di =
     Inl (compile_error_new ''Compile error: TupleTree::read_code'' ''out-of-bounds read'' (loc_list di))"
| "read_slots (subtree # rest) slot is_local index di =
     (if index < tsize subtree
      then (case read_code subtree False index di of
              Inl e \<Rightarrow> Inl e
            | Inr cs \<Rightarrow>
                Inr (instruction_from_opcode_imm (if is_local then AVM Xget else AVM Tget)
                       (IntV (uint256_from_usize slot)) di # cs))
      else read_slots rest (slot + 1) is_local (index - tsize subtree) di)"

fun write_code :: "tuple_tree \<Rightarrow> bool \<Rightarrow> usize \<Rightarrow> debug_info \<Rightarrow> compile_error + opcode instruction list"
and write_slots :: "tuple_tree list \<Rightarrow> usize \<Rightarrow> bool \<Rightarrow> usize \<Rightarrow> debug_info \<Rightarrow> compile_error + opcode instruction list" where
  "write_code Single is_local index di = Inr [instruction_from_opcode (AVM Pop) di]"
| "write_code (Tree _ v) is_local index di = write_slots v 0 is_local index di"
| "write_slots [] slot is_local index di =
     Inl (compile_error_new ''Compile error: TupleTree::write_code'' ''out-of-bounds write'' (loc_list di))"
| "write_slots (subtree # rest) slot is_local index di =
     (if index < tsize subtree
      then let at_slot = (\<lambda>op. instruction_from_opcode_imm (AVM op) (IntV (uint256_from_usize slot)) di)
           in (case subtree of
                 Single \<Rightarrow> Inr [at_slot (if is_local then Xset else Tset)]
               | Tree _ _ \<Rightarrow>
                   (case write_code subtree False index di of
                      Inl e \<Rightarrow> Inl e
                    | Inr cs \<Rightarrow>
                        Inr ((if is_local then [at_slot Xget]
                              else [instruction_from_opcode (AVM Swap1) di, instruction_from_opcode (AVM Dup1) di,
                                    at_slot Tget])
                             @ cs
                             @ (if is_local then [at_slot Xset]
                                else [instruction_from_opcode (AVM Swap1) di, at_slot Tset]))))
      else write_slots rest (slot + 1) is_local (index - tsize subtree) di)"

subsection \<open>The pass\<close>

text \<open>The code that steps down one level of a fixed array of nested tuples.\<close>

definition array_step :: "debug_info \<Rightarrow> opcode instruction list" where
  "array_step di =
     (let imm = (\<lambda>op. instruction_from_opcode_imm (AVM op) (IntV (uint256_from_usize tuple_size)) di);
          bare = (\<lambda>op. instruction_from_opcode (AVM op) di)
      in [imm Dup1, bare Mod, bare Swap1, imm Swap1, bare Div, bare Swap2, bare Swap1, bare Tget, bare Swap1])"

function array_steps :: "usize \<Rightarrow> debug_info \<Rightarrow> opcode instruction list" where
  "array_steps remaining_size di =
     (if remaining_size > tuple_size
      then array_step di @ array_steps ((remaining_size + (tuple_size - 1)) div tuple_size) di
      else [])"
  by auto
termination
  by (relation "measure fst") (auto simp: tuple_size_def)

declare array_steps.simps [simp del]

text \<open>An instruction with the index of a leaf as its immediate.\<close>

definition with_index ::
    "opcode instruction \<Rightarrow> string \<Rightarrow> string \<Rightarrow> (usize \<Rightarrow> compile_error + 'a) \<Rightarrow> compile_error + 'a" where
  "with_index insn too_large missing f =
     (let err = (\<lambda>msg. compile_error_new ''Compile error: fix_tuple_size'' msg (loc_list (insn_debug_info insn)))
      in (case immediate insn of
            None \<Rightarrow> Inl (err missing)
          | Some index \<Rightarrow> (case value_to_usize index of None \<Rightarrow> Inl (err too_large) | Some iu \<Rightarrow> f iu)))"

text \<open>The code for one instruction and the shape of the locals after it.\<close>

definition fix_insn ::
    "tuple_tree \<Rightarrow> tuple_tree \<Rightarrow> opcode instruction \<Rightarrow> compile_error + opcode instruction list \<times> tuple_tree" where
  "fix_insn global_tree locals_tree insn =
     (let di = insn_debug_info insn;
          bare = (\<lambda>op. instruction_from_opcode (AVM op) di);
          keep = (\<lambda>r. map_sum id (\<lambda>cs. (cs, locals_tree)) r)
      in (case opcode insn of
            MakeFrame nargs ntotal return_address \<Rightarrow>
              let new_tree = tuple_tree_new ntotal True
              in (case collect_res (\<lambda>lnum. write_code new_tree True lnum di) [0..<nargs] of
                    Inl e \<Rightarrow> Inl e
                  | Inr codes \<Rightarrow>
                      Inr ((if return_address then [bare AuxPush] else [])
                           @ (case immediate insn of
                                Some imm \<Rightarrow> [instruction_from_opcode_imm (AVM Noop) imm di]
                              | None \<Rightarrow> [])
                           @ instruction_from_opcode_imm (AVM AuxPush) (make_empty new_tree) di # concat codes,
                           new_tree))
          | TupleGet n \<Rightarrow>
              keep (with_index insn ''index too large'' ''TupleGet without immediate arg''
                      (\<lambda>iu. read_code (tuple_tree_new n False) False iu di))
          | TupleSet n \<Rightarrow>
              keep (with_index insn ''TupleSet index too large'' ''TupleSet without immediate arg''
                      (\<lambda>iu. write_code (tuple_tree_new n False) False iu di))
          | SetLocal \<Rightarrow>
              keep (with_index insn ''index too large'' ''SetLocal without immediate arg''
                      (\<lambda>iu. write_code locals_tree True iu di))
          | GetLocal \<Rightarrow>
              keep (with_index insn ''index too large'' ''GetLocal without immediate arg''
                      (\<lambda>iu. read_code locals_tree True iu di))
          | SetGlobalVar idx \<Rightarrow>
              keep (map_sum id (\<lambda>cs. bare Rpush # cs @ [bare Rset]) (write_code global_tree False idx di))
          | GetGlobalVar idx \<Rightarrow>
              keep (map_sum id (\<lambda>cs. bare Rpush # cs) (read_code global_tree False idx di))
          | Return \<Rightarrow>
              keep (Inr [Instruction (AVM AuxPop) (immediate insn) di, bare Pop, bare AuxPop, bare Jump])
          | UncheckedFixedArrayGet n \<Rightarrow> keep (Inr (array_steps n di @ [bare Tget]))
          | _ \<Rightarrow> keep (Inr [insn])))"

fun fix_insns ::
    "tuple_tree \<Rightarrow> tuple_tree \<Rightarrow> opcode instruction list \<Rightarrow> compile_error + opcode instruction list" where
  "fix_insns global_tree locals_tree [] = Inr []"
| "fix_insns global_tree locals_tree (insn # rest) =
     (case fix_insn global_tree locals_tree insn of
        Inl e \<Rightarrow> Inl e
      | Inr (cs, locals_tree') \<Rightarrow> map_sum id ((@) cs) (fix_insns global_tree locals_tree' rest))"

definition fix_tuple_size :: "opcode instruction list \<Rightarrow> usize \<Rightarrow> compile_error + opcode instruction list" where
  "fix_tuple_size code_in num_globals =
     fix_insns (tuple_tree_new num_globals False) (tuple_tree_new 1 True) code_in"

section \<open>Shapes\<close>

text \<open>Sizes add up, and every tuple has at most eight fields, none of them empty.\<close>

fun tree_ok :: "tuple_tree \<Rightarrow> bool" where
  "tree_ok Single \<longleftrightarrow> True"
| "tree_ok (Tree n ts) \<longleftrightarrow>
     n = sum_list (map tsize ts) \<and> length ts \<le> tuple_size \<and> (\<forall>t \<in> set ts. 0 < tsize t \<and> tree_ok t)"

lemma child_sizes_sum: "0 < c \<Longrightarrow> sum_list (child_sizes c r k) = r"
  by (induction c r k rule: child_sizes.induct, subst child_sizes.simps) (auto simp: tuple_size_def)

lemma child_sizes_pos: "s \<in> set (child_sizes c r k) \<Longrightarrow> 0 < s"
  by (induction c r k rule: child_sizes.induct, subst (asm) (2) child_sizes.simps) (auto split: if_splits)

lemma child_sizes_length: "1 \<le> k \<Longrightarrow> length (child_sizes c r k) \<le> k"
proof (induction c r k rule: child_sizes.induct)
  case (1 c r k)
  consider "r = 0 \<or> c = 0 \<or> r \<le> c" | "0 < c" "c < r" "r \<le> c * (1 + (k - 1) * tuple_size)"
    | "0 < c" "c < r" "\<not> r \<le> c * (1 + (k - 1) * tuple_size)" by linarith
  then show ?case
  proof cases
    case 1
    then show ?thesis using "1.prems" by (subst child_sizes.simps) auto
  next
    case 2
    then have "child_sizes c r k = c # child_sizes c (r - c) (k - 1)" by (subst child_sizes.simps) auto
    moreover have "2 \<le> k"
    proof (rule ccontr)
      assume "\<not> 2 \<le> k"
      with "1.prems" have "k = 1" by simp
      with 2 show False by simp
    qed
    moreover from this have "length (child_sizes c (r - c) (k - 1)) \<le> k - 1" using "1.IH"(1) 2 by simp
    ultimately show ?thesis by simp
  next
    case 3
    then have "child_sizes c r k = child_sizes (c * tuple_size) r k" by (subst child_sizes.simps) auto
    with "1.IH"(2) 3 "1.prems" show ?thesis by auto
  qed
qed

lemma grow_size_pos: "0 < c \<Longrightarrow> 0 < grow_size n c"
  by (induction n c rule: grow_size.induct, subst grow_size.simps) (auto simp: tuple_size_def)

lemma tuple_tree_new_size [simp]: "tsize (tuple_tree_new n is_local) = n"
  by (subst tuple_tree_new.simps) auto

lemma tuple_tree_new_ok: "tree_ok (tuple_tree_new n is_local)"
proof (induction n is_local rule: tuple_tree_new.induct)
  case (1 n is_local)
  then show ?case
    using child_sizes_sum [OF grow_size_pos [of 1 n]] child_sizes_length [of tuple_size "grow_size n 1" n] child_sizes_pos
    by (subst tuple_tree_new.simps) (auto simp: comp_def tuple_size_def)
qed

section \<open>Values of a shape\<close>

fun fits :: "tuple_tree \<Rightarrow> val \<Rightarrow> bool"
and fits_all :: "tuple_tree list \<Rightarrow> val list \<Rightarrow> bool" where
  "fits Single v \<longleftrightarrow> True"
| "fits (Tree _ ts) v \<longleftrightarrow> (case v of TupleV vs \<Rightarrow> fits_all ts vs | _ \<Rightarrow> False)"
| "fits_all [] vs \<longleftrightarrow> vs = []"
| "fits_all (t # ts) vs \<longleftrightarrow> (case vs of [] \<Rightarrow> False | v # vs \<Rightarrow> fits t v \<and> fits_all ts vs)"

text \<open>The leaves of such a value from left to right.\<close>

fun leaves :: "tuple_tree \<Rightarrow> val \<Rightarrow> val list"
and leaves_all :: "tuple_tree list \<Rightarrow> val list \<Rightarrow> val list" where
  "leaves Single v = [v]"
| "leaves (Tree _ ts) v = (case v of TupleV vs \<Rightarrow> leaves_all ts vs | _ \<Rightarrow> [])"
| "leaves_all [] vs = []"
| "leaves_all (t # ts) vs = (case vs of [] \<Rightarrow> [] | v # vs \<Rightarrow> leaves t v @ leaves_all ts vs)"

lemma length_leaves:
  "tree_ok t \<Longrightarrow> fits t v \<Longrightarrow> length (leaves t v) = tsize t"
  "\<forall>t \<in> set ts. tree_ok t \<Longrightarrow> fits_all ts vs \<Longrightarrow> length (leaves_all ts vs) = sum_list (map tsize ts)"
  by (induction t v and ts vs rule: fits_fits_all.induct) (auto split: val.splits list.splits)

lemma fits_all_Cons [simp]: "fits_all (t # ts) vs \<longleftrightarrow> (\<exists>v vs'. vs = v # vs' \<and> fits t v \<and> fits_all ts vs')"
  by (cases vs) auto

declare fits_all.simps(2) [simp del]

lemma fits_all_length: "fits_all ts vs \<Longrightarrow> length vs = length ts"
  by (induction ts arbitrary: vs) (auto split: list.splits)

lemma make_value_2_spec:
  "tree_ok t \<Longrightarrow> tsize t \<le> length vals \<Longrightarrow>
     \<exists>v. make_value_2 t vals = Some (v, drop (tsize t) vals) \<and> fits t v \<and> leaves t v = take (tsize t) vals"
  "\<forall>t \<in> set ts. tree_ok t \<Longrightarrow> sum_list (map tsize ts) \<le> length vals \<Longrightarrow>
     \<exists>vs. make_values_2 ts vals = Some (vs, drop (sum_list (map tsize ts)) vals) \<and> fits_all ts vs
        \<and> leaves_all ts vs = take (sum_list (map tsize ts)) vals"
proof (induction t vals and ts vals rule: make_value_2_make_values_2.induct)
  case (1 vals)
  then show ?case by (cases vals) auto
next
  case (2 n ts vals)
  then show ?case by (auto simp: value_new_tuple_def)
next
  case (4 t ts vals)
  let ?k = "tsize t" and ?n = "sum_list (map tsize ts)"
  obtain v where v: "make_value_2 t vals = Some (v, drop ?k vals)" "fits t v" "leaves t v = take ?k vals"
    using 4 by auto
  obtain vs where vs: "make_values_2 ts (drop ?k vals) = Some (vs, drop ?n (drop ?k vals))" "fits_all ts vs"
    "leaves_all ts vs = take ?n (drop ?k vals)"
  proof -
    have "?n \<le> length (drop ?k vals)" using "4.prems"(2) by simp
    with "4.IH"(2) [OF v(1) refl] "4.prems"(1) that show thesis by auto
  qed
  have "take ?k vals @ take ?n (drop ?k vals) = take (?k + ?n) vals" by (simp add: take_add)
  with v vs show ?case by (auto simp: add.commute)
qed auto

lemma make_empty_fits: "fits t (make_empty t)"
proof (induction t)
  case (Tree n ts)
  then have "fits_all ts (map make_empty ts)" by (induction ts) auto
  then show ?case by (simp add: value_new_tuple_def)
qed simp

section \<open>Generated code\<close>

text \<open>The subtree that holds the leaf with a given index.\<close>

abbreviation tsizes :: "tuple_tree list \<Rightarrow> nat" where
  "tsizes ts \<equiv> sum_list (map tsize ts)"

lemma locate:
  assumes "i < tsizes ts"
  obtains ts1 t ts2 j where "ts = ts1 @ t # ts2" "i = tsizes ts1 + j" "j < tsize t"
  using assms
proof (induction ts arbitrary: i thesis)
  case (Cons t ts)
  show ?case
  proof (cases "i < tsize t")
    case True
    then show ?thesis using Cons.prems(1) [of "[]" t ts i] by simp
  next
    case False
    with Cons.prems(2) obtain ts1 u ts2 j where "ts = ts1 @ u # ts2" "i - tsize t = tsizes ts1 + j" "j < tsize u"
      by (auto intro: Cons.IH [of "i - tsize t"])
    with False show ?thesis using Cons.prems(1) [of "t # ts1" u ts2 j] by simp
  qed
qed simp

lemma fits_all_append:
  "fits_all (ts1 @ ts2) vs \<longleftrightarrow> (\<exists>vs1 vs2. vs = vs1 @ vs2 \<and> fits_all ts1 vs1 \<and> fits_all ts2 vs2)"
proof (induction ts1 arbitrary: vs)
  case (Cons t ts1)
  have "fits_all ((t # ts1) @ ts2) vs \<longleftrightarrow>
      (\<exists>v vs1 vs2. vs = v # vs1 @ vs2 \<and> fits t v \<and> fits_all ts1 vs1 \<and> fits_all ts2 vs2)"
    by (auto simp: Cons.IH)
  then show ?case by (auto simp: Cons_eq_append_conv) blast
qed auto

lemma leaves_all_append:
  "fits_all ts1 vs1 \<Longrightarrow> leaves_all (ts1 @ ts2) (vs1 @ vs2) = leaves_all ts1 vs1 @ leaves_all ts2 vs2"
  by (induction ts1 arbitrary: vs1) (auto split: list.splits)

lemma fits_middleE:
  assumes "fits_all (ts1 @ t # ts2) vs"
  obtains vs1 v vs2 where "vs = vs1 @ v # vs2" "fits_all ts1 vs1" "fits t v" "fits_all ts2 vs2" "length vs1 = length ts1"
  using assms that by (auto simp: fits_all_append fits_all_length)

lemma read_slots_eq:
  "j < tsize t \<Longrightarrow> read_slots (ts1 @ t # ts2) n is_local (tsizes ts1 + j) di =
     map_sum id (\<lambda>cs. Instruction (AVM (if is_local then Xget else Tget)) (Some (IntV (n + length ts1))) di # cs)
       (read_code t False j di)"
  by (induction ts1 arbitrary: n) (auto simp: instruction_from_opcode_imm_def uint256_from_usize_def split: sum.split)

lemma read_code_correct:
  "tree_ok t \<Longrightarrow> fits t v \<Longrightarrow> i < tsize t \<Longrightarrow>
   \<exists>cs. read_code t False i di = Inr cs \<and>
     (\<forall>m pc s a. exec_code ext cs (cfg m pc (v # s) a) = Done True (cfg m (pc + length cs) (leaves t v ! i # s) a))"
proof (induction t arbitrary: v i)
  case Single
  then show ?case by simp
next
  case (Tree n ts)
  then have "i < tsizes ts" by simp
  then obtain ts1 t ts2 j where l: "ts = ts1 @ t # ts2" "i = tsizes ts1 + j" "j < tsize t" by (rule locate)
  obtain vs where vs: "v = TupleV vs" "fits_all ts vs" using Tree.prems(2) by (auto split: val.splits)
  then obtain vs1 w vs2 where w: "vs = vs1 @ w # vs2" "fits_all ts1 vs1" "fits t w" "length vs1 = length ts1"
    using fits_middleE [of ts1 t ts2 vs] l(1) by metis
  have "length ts \<le> 8" "tree_ok t" using Tree.prems(1) by (auto simp: l tuple_size_def)
  then have small: "length ts1 < usize_limit" by (simp add: l usize_limit_def)
  have "\<forall>t \<in> set ts1. tree_ok t" using Tree.prems(1) by (auto simp: l)
  then have leaf: "leaves (Tree n ts) v ! i = leaves t w ! j"
    using l w vs length_leaves(2) [OF _ w(2)] length_leaves(1) [OF \<open>tree_ok t\<close> w(3)]
    by (simp add: leaves_all_append nth_append)
  obtain cs where cs: "read_code t False j di = Inr cs"
    "\<forall>m pc s a. exec_code ext cs (cfg m pc (w # s) a) = Done True (cfg m (pc + length cs) (leaves t w ! j # s) a)"
    using Tree.IH [OF _ \<open>tree_ok t\<close> w(3) l(3)] l(1) by auto
  with small w(1,4) vs leaf l show ?case
    by (simp add: read_slots_eq exec_steps nth_append)
qed

lemma write_slots_Single:
  "write_slots (ts1 @ Single # ts2) n is_local (tsizes ts1) di =
     Inr [Instruction (AVM (if is_local then Xset else Tset)) (Some (IntV (n + length ts1))) di]"
  by (induction ts1 arbitrary: n) (auto simp: Let_def instruction_from_opcode_imm_def uint256_from_usize_def)

lemma write_slots_Tree:
  "j < k \<Longrightarrow> write_slots (ts1 @ Tree k us # ts2) n is_local (tsizes ts1 + j) di =
     map_sum id (\<lambda>cs. (if is_local then [Instruction (AVM Xget) (Some (IntV (n + length ts1))) di]
                      else [Instruction (AVM Swap1) None di, Instruction (AVM Dup1) None di,
                            Instruction (AVM Tget) (Some (IntV (n + length ts1))) di])
                     @ cs
                     @ (if is_local then [Instruction (AVM Xset) (Some (IntV (n + length ts1))) di]
                        else [Instruction (AVM Swap1) None di, Instruction (AVM Tset) (Some (IntV (n + length ts1))) di]))
       (write_code (Tree k us) False j di)"
  by (induction ts1 arbitrary: n)
     (auto simp: Let_def instruction_from_opcode_imm_def instruction_from_opcode_def uint256_from_usize_def split: sum.split)

text \<open>Replacing a subtree replaces its leaves.\<close>

lemma middle_update:
  assumes "fits_all ts1 vs1" "fits_all ts2 vs2" "fits t w'" "\<forall>t \<in> set ts1. tree_ok t" "tree_ok t" "fits t w"
    "leaves t w' = (leaves t w)[j := x]" "j < tsize t"
  shows "fits_all (ts1 @ t # ts2) (vs1 @ w' # vs2)"
    "leaves_all (ts1 @ t # ts2) (vs1 @ w' # vs2) = (leaves_all (ts1 @ t # ts2) (vs1 @ w # vs2))[tsizes ts1 + j := x]"
proof -
  show "fits_all (ts1 @ t # ts2) (vs1 @ w' # vs2)" unfolding fits_all_append using assms by fastforce
  show "leaves_all (ts1 @ t # ts2) (vs1 @ w' # vs2) = (leaves_all (ts1 @ t # ts2) (vs1 @ w # vs2))[tsizes ts1 + j := x]"
    using assms length_leaves(2) [OF assms(4,1)] length_leaves(1) [OF assms(5,6)]
    by (simp add: leaves_all_append list_update_append)
qed

lemma write_code_correct:
  "tree_ok t \<Longrightarrow> fits t v \<Longrightarrow> i < tsize t \<Longrightarrow>
   \<exists>cs v'. write_code t False i di = Inr cs \<and> fits t v' \<and> leaves t v' = (leaves t v)[i := x] \<and>
     (\<forall>m pc s a. exec_code ext cs (cfg m pc (v # x # s) a) = Done True (cfg m (pc + length cs) (v' # s) a))"
proof (induction t arbitrary: v i)
  case Single
  then show ?case by (simp add: exec_steps instruction_from_opcode_def)
next
  case (Tree n ts)
  then have "i < tsizes ts" by simp
  then obtain ts1 t ts2 j where l: "ts = ts1 @ t # ts2" "i = tsizes ts1 + j" "j < tsize t" by (rule locate)
  obtain vs where vs: "v = TupleV vs" "fits_all ts vs" using Tree.prems(2) by (auto split: val.splits)
  then obtain vs1 w vs2 where w: "vs = vs1 @ w # vs2" "fits_all ts1 vs1" "fits t w" "fits_all ts2 vs2" "length vs1 = length ts1"
    using fits_middleE [of ts1 t ts2 vs] l(1) by metis
  have ok: "length ts \<le> 8" "tree_ok t" "\<forall>t \<in> set ts1. tree_ok t" using Tree.prems(1) by (auto simp: l tuple_size_def)
  then have small: "length ts1 < usize_limit" by (simp add: l usize_limit_def)
  obtain cs w' where cs: "write_code t False j di = Inr cs" "fits t w'" "leaves t w' = (leaves t w)[j := x]"
    "\<forall>m pc s a. exec_code ext cs (cfg m pc (w # x # s) a) = Done True (cfg m (pc + length cs) (w' # s) a)"
    using Tree.IH [OF _ ok(2) w(3) l(3)] l(1) by auto
  let ?v = "TupleV (vs1 @ w' # vs2)"
  have v': "fits (Tree n ts) ?v" "leaves (Tree n ts) ?v = (leaves (Tree n ts) v)[i := x]"
    using middle_update [OF w(2,4) cs(2) ok(3,2) w(3) cs(3) l(3)] by (simp_all add: l vs w)
  show ?case
  proof (cases t)
    case Single
    with cs l(3) have "j = 0" "w' = x" by simp_all
    with Single l small w(1,5) vs(1) v' show ?thesis
      by (intro exI [of _ "[Instruction (AVM Tset) (Some (IntV (length ts1))) di]"] exI [of _ ?v])
         (simp add: write_slots_Single exec_steps list_update_append)
  next
    case (Tree k us)
    with l(3) have "j < k" by simp
    with Tree cs l small w(1,5) vs(1) v' show ?thesis
      by (intro exI conjI)
         (assumption | rule v' | simp add: write_slots_Tree exec_code_append exec_steps nth_append list_update_append)+
  qed
qed

text \<open>Access to the frame on the auxiliary stack.\<close>

lemma read_local_correct:
  assumes "tree_ok (Tree n ts)" "fits (Tree n ts) v" "i < n"
  shows "\<exists>cs. read_code (Tree n ts) True i di = Inr cs \<and> (\<forall>m pc s a. exec_code ext cs (cfg m pc s (v # a)) =
      Done True (cfg m (pc + length cs) (leaves (Tree n ts) v ! i # s) (v # a)))"
proof -
  have "i < tsizes ts" using assms(1,3) by simp
  then obtain ts1 t ts2 j where l: "ts = ts1 @ t # ts2" "i = tsizes ts1 + j" "j < tsize t" by (rule locate)
  obtain cs where cs: "read_code (Tree n ts) False i di = Inr cs"
    "\<forall>m pc s a. exec_code ext cs (cfg m pc (v # s) a) = Done True (cfg m (pc + length cs) (leaves (Tree n ts) v ! i # s) a)"
    using read_code_correct [OF assms(1,2), of i di ext] assms(3) by auto
  then obtain cs' where cs': "cs = Instruction (AVM Tget) (Some (IntV (length ts1))) di # cs'"
      "read_code (Tree n ts) True i di = Inr (Instruction (AVM Xget) (Some (IntV (length ts1))) di # cs')"
    using l by (cases "read_code t False j di") (auto simp: read_slots_eq)
  obtain vs where vs: "v = TupleV vs" "length ts1 < length vs"
    using assms(2) l(1) fits_all_length [of ts] by (auto split: val.splits)
  have "length ts1 < usize_limit" using assms(1) by (simp add: l(1) tuple_size_def usize_limit_def)
  with cs(2) vs have "exec_code ext cs' (cfg m (Suc pc) (vs ! length ts1 # s) a) =
      Done True (cfg m (Suc pc + length cs') (leaves (Tree n ts) v ! i # s) a)" for m pc s a
    by (simp add: cs'(1) exec_steps)
  with cs'(2) vs \<open>length ts1 < usize_limit\<close> show ?thesis by (simp add: exec_steps)
qed

lemma write_local_correct:
  assumes "tree_ok (Tree n ts)" "fits (Tree n ts) v" "i < n"
  shows "\<exists>cs v'. write_code (Tree n ts) True i di = Inr cs \<and> fits (Tree n ts) v'
     \<and> leaves (Tree n ts) v' = (leaves (Tree n ts) v)[i := x]
     \<and> (\<forall>m pc s a. exec_code ext cs (cfg m pc (x # s) (v # a)) = Done True (cfg m (pc + length cs) s (v' # a)))"
proof -
  have "i < tsizes ts" using assms(1,3) by simp
  then obtain ts1 t ts2 j where l: "ts = ts1 @ t # ts2" "i = tsizes ts1 + j" "j < tsize t" by (rule locate)
  obtain vs where vs: "v = TupleV vs" "fits_all ts vs" using assms(2) by (auto split: val.splits)
  then obtain vs1 w vs2 where w: "vs = vs1 @ w # vs2" "fits_all ts1 vs1" "fits t w" "fits_all ts2 vs2" "length vs1 = length ts1"
    using fits_middleE [of ts1 t ts2 vs] l(1) by metis
  have ok: "length ts \<le> 8" "tree_ok t" "\<forall>t \<in> set ts1. tree_ok t" using assms(1) by (auto simp: l tuple_size_def)
  then have small: "length ts1 < usize_limit" by (simp add: l usize_limit_def)
  obtain cs w' where cs: "write_code t False j di = Inr cs" "fits t w'" "leaves t w' = (leaves t w)[j := x]"
    "\<forall>m pc s a. exec_code ext cs (cfg m pc (w # x # s) a) = Done True (cfg m (pc + length cs) (w' # s) a)"
    using write_code_correct [OF ok(2) w(3) l(3)] by blast
  let ?v = "TupleV (vs1 @ w' # vs2)"
  have v': "fits (Tree n ts) ?v" "leaves (Tree n ts) ?v = (leaves (Tree n ts) v)[i := x]"
    using middle_update [OF w(2,4) cs(2) ok(3,2) w(3) cs(3) l(3)] by (simp_all add: l vs w)
  show ?thesis
  proof (cases t)
    case Single
    with cs l(3) have "j = 0" "w' = x" by simp_all
    with Single l small w(1,5) vs(1) v' show ?thesis
      by (intro exI [of _ "[Instruction (AVM Xset) (Some (IntV (length ts1))) di]"] exI [of _ ?v])
         (simp add: write_slots_Single exec_steps list_update_append)
  next
    case (Tree k us)
    with l(3) have "j < k" by simp
    with Tree cs l small w(1,5) vs(1) v' show ?thesis
      by (intro exI conjI)
         (assumption | rule v' | simp add: write_slots_Tree exec_code_append exec_steps nth_append list_update_append)+
  qed
qed

lemma local_tree: obtains ts where "tuple_tree_new n True = Tree n ts" "tree_ok (Tree n ts)"
  using tuple_tree_new_ok [of n True] by (metis tuple_tree_new.simps)

lemma write_args:
  assumes "tree_ok (Tree n ts)"
  shows "fits (Tree n ts) v \<Longrightarrow> k + length xs \<le> n \<Longrightarrow>
   \<exists>codes v'. collect_res (\<lambda>l. write_code (Tree n ts) True l di) [k..<k + length xs] = Inr codes
     \<and> fits (Tree n ts) v'
     \<and> leaves (Tree n ts) v' = take k (leaves (Tree n ts) v) @ xs @ drop (k + length xs) (leaves (Tree n ts) v)
     \<and> (\<forall>m pc s a. exec_code ext (concat codes) (cfg m pc (xs @ s) (v # a)) =
          Done True (cfg m (pc + length (concat codes)) s (v' # a)))"
proof (induction xs arbitrary: k v)
  case Nil
  then show ?case by auto
next
  case (Cons x xs)
  have len: "length (leaves (Tree n ts) v) = n" using length_leaves(1) [OF assms Cons.prems(1)] by simp
  obtain cs v1 where c: "write_code (Tree n ts) True k di = Inr cs" "fits (Tree n ts) v1"
    "leaves (Tree n ts) v1 = (leaves (Tree n ts) v)[k := x]"
    "\<forall>m pc s a. exec_code ext cs (cfg m pc (x # s) (v # a)) = Done True (cfg m (pc + length cs) s (v1 # a))"
    using write_local_correct [OF assms Cons.prems(1), of k] Cons.prems(2) by force
  obtain codes v' where d: "collect_res (\<lambda>l. write_code (Tree n ts) True l di) [Suc k..<Suc k + length xs] = Inr codes"
    "fits (Tree n ts) v'"
    "leaves (Tree n ts) v' = take (Suc k) (leaves (Tree n ts) v1) @ xs @ drop (Suc k + length xs) (leaves (Tree n ts) v1)"
    "\<forall>m pc s a. exec_code ext (concat codes) (cfg m pc (xs @ s) (v1 # a)) =
        Done True (cfg m (pc + length (concat codes)) s (v' # a))"
    using Cons.IH [OF c(2), of "Suc k"] Cons.prems(2) by auto
  have "leaves (Tree n ts) v' = take k (leaves (Tree n ts) v) @ (x # xs) @ drop (k + length (x # xs)) (leaves (Tree n ts) v)"
    using d(3) c(3) len Cons.prems(2) by (simp add: take_Suc_conv_app_nth)
  moreover have "[k..<k + length (x # xs)] = k # [Suc k..<Suc k + length xs]"
    by (subst upt_conv_Cons) simp_all
  ultimately show ?case
    using c d by (intro exI [of _ "cs # codes"] exI [of _ v']) (simp add: exec_code_append add.assoc)
qed

lemma leaves_make_empty: "tree_ok t \<Longrightarrow> leaves t (make_empty t) = replicate (tsize t) value_none"
proof (induction t)
  case (Tree n ts)
  then have "\<forall>t \<in> set ts. leaves t (make_empty t) = replicate (tsize t) value_none" by simp
  then have "leaves_all ts (map make_empty ts) = replicate (tsizes ts) value_none"
    by (induction ts) (auto simp: replicate_add)
  with Tree.prems show ?case by (simp add: value_new_tuple_def)
qed (simp add: value_none_def value_new_tuple_def)

lemma enter_correct:
  assumes "length xs \<le> ntotal"
  shows "\<exists>enter v. fix_insn g t (Instruction (MakeFrame (length xs) ntotal True) None di) = Inr (enter, tuple_tree_new ntotal True)
      \<and> fits (tuple_tree_new ntotal True) v
      \<and> leaves (tuple_tree_new ntotal True) v = xs @ replicate (ntotal - length xs) value_none
      \<and> (\<forall>m pc r s a. exec_code ext enter (cfg m pc (r # xs @ s) a) =
          Done True (cfg m (pc + length enter) s (v # r # a)))"
proof -
  obtain ts where ts: "tuple_tree_new ntotal True = Tree ntotal ts" "tree_ok (Tree ntotal ts)" by (rule local_tree)
  obtain codes v where c: "collect_res (\<lambda>l. write_code (Tree ntotal ts) True l di) [0..<length xs] = Inr codes"
      "fits (Tree ntotal ts) v"
      "leaves (Tree ntotal ts) v = xs @ drop (length xs) (leaves (Tree ntotal ts) (make_empty (Tree ntotal ts)))"
      "\<forall>m pc s a. exec_code ext (concat codes) (cfg m pc (xs @ s) (make_empty (Tree ntotal ts) # a)) =
          Done True (cfg m (pc + length (concat codes)) s (v # a))"
    using write_args [OF ts(2) make_empty_fits, of 0 xs di ext] assms by auto
  then show ?thesis
    by (auto simp: fix_insn_def Let_def ts leaves_make_empty [OF ts(2)] exec_steps instruction_from_opcode_def
        instruction_from_opcode_imm_def simp del: make_empty.simps fits.simps leaves.simps)
qed

lemma local_access_correct:
  assumes "fits (tuple_tree_new n True) v" "i < n" "n < usize_limit"
  shows "\<exists>cs. fix_insn g (tuple_tree_new n True) (Instruction GetLocal (Some (IntV i)) di) = Inr (cs, tuple_tree_new n True)
      \<and> (\<forall>m pc s a. exec_code ext cs (cfg m pc s (v # a)) =
          Done True (cfg m (pc + length cs) (leaves (tuple_tree_new n True) v ! i # s) (v # a)))" (is ?read)
    and "\<exists>cs v'. fix_insn g (tuple_tree_new n True) (Instruction SetLocal (Some (IntV i)) di) = Inr (cs, tuple_tree_new n True)
      \<and> fits (tuple_tree_new n True) v' \<and> leaves (tuple_tree_new n True) v' = (leaves (tuple_tree_new n True) v)[i := x]
      \<and> (\<forall>m pc s a. exec_code ext cs (cfg m pc (x # s) (v # a)) = Done True (cfg m (pc + length cs) s (v' # a)))" (is ?wrt)
proof -
  obtain ts where ts: "tuple_tree_new n True = Tree n ts" "tree_ok (Tree n ts)" by (rule local_tree)
  have i: "value_to_usize (IntV i) = Some i" using assms(2,3) by (simp add: value_to_usize_def uint256_to_usize_def)
  show ?read
    using read_local_correct [OF ts(2) _ assms(2), of v di ext] assms(1)
    by (auto simp: fix_insn_def with_index_def Let_def ts i simp del: fits.simps leaves.simps read_code.simps)
  show ?wrt
    using write_local_correct [OF ts(2) _ assms(2), of v di x ext] assms(1)
    by (fastforce simp: fix_insn_def with_index_def Let_def ts i simp del: fits.simps leaves.simps write_code.simps)
qed

lemma return_correct:
  "\<exists>cs. fix_insn g t (Instruction Return None di) = Inr (cs, t)
     \<and> (\<forall>m pc s a. exec_code ext cs (cfg m pc s (v # CodePointV ret # a)) =
          Done True (m\<lparr>state := Running ret, stack := s, aux_stack := a\<rparr>))"
  by (simp add: fix_insn_def Let_def instruction_from_opcode_def exec_steps)

section \<open>Properties\<close>

text \<open>
  C24: Nested tuples behave as the wide tuple they stand for.  Laying out a list of fields never panics; no
  tuple of the result has more than eight fields, the limit of the machine, and its leaves are the fields in
  order.  The code for \<open>TupleGet\<close> leaves the field with the given index on the stack in place of the tuple, and
  the code for \<open>TupleSet\<close> leaves a tuple of the same shape in which exactly that field is replaced.
\<close>

theorem nested_tuples_refine_fields:
  assumes "length lis < usize_limit" "i < length lis"
  shows "\<exists>v rd wr w. value_from_field_list lis = Some v \<and> tree_ok (tuple_tree_new (length lis) False)
     \<and> fits (tuple_tree_new (length lis) False) v \<and> leaves (tuple_tree_new (length lis) False) v = lis
     \<and> fix_tuple_size [Instruction (TupleGet (length lis)) (Some (IntV i)) di] n = Inr rd
     \<and> exec_code ext rd (cfg m pc (v # s) a) = Done True (cfg m (pc + length rd) (lis ! i # s) a)
     \<and> fix_tuple_size [Instruction (TupleSet (length lis)) (Some (IntV i)) di] n = Inr wr
     \<and> exec_code ext wr (cfg m pc (v # x # s) a) = Done True (cfg m (pc + length wr) (w # s) a)
     \<and> fits (tuple_tree_new (length lis) False) w \<and> leaves (tuple_tree_new (length lis) False) w = lis[i := x]"
proof -
  let ?t = "tuple_tree_new (length lis) False"
  obtain v where v: "value_from_field_list lis = Some v" "fits ?t v" "leaves ?t v = lis"
    using make_value_2_spec(1) [OF tuple_tree_new_ok, of "length lis" False lis]
    by (auto simp: value_from_field_list_def make_value_def)
  have i: "value_to_usize (IntV i) = Some i" using assms by (simp add: value_to_usize_def uint256_to_usize_def)
  have "i < tsize ?t" using assms(2) by simp
  note rd = read_code_correct [OF tuple_tree_new_ok v(2) this, of di ext, unfolded v(3)]
    and wr = write_code_correct [OF tuple_tree_new_ok v(2) this, of di x ext, unfolded v(3)]
  have "\<exists>rd. fix_tuple_size [Instruction (TupleGet (length lis)) (Some (IntV i)) di] n = Inr rd
     \<and> exec_code ext rd (cfg m pc (v # s) a) = Done True (cfg m (pc + length rd) (lis ! i # s) a)"
    using rd by (auto simp: fix_tuple_size_def fix_insn_def with_index_def Let_def i)
  moreover have "\<exists>wr w. fix_tuple_size [Instruction (TupleSet (length lis)) (Some (IntV i)) di] n = Inr wr
     \<and> exec_code ext wr (cfg m pc (v # x # s) a) = Done True (cfg m (pc + length wr) (w # s) a)
     \<and> fits ?t w \<and> leaves ?t w = lis[i := x]"
    using wr by (auto simp: fix_tuple_size_def fix_insn_def with_index_def Let_def i)
  ultimately show ?thesis using v tuple_tree_new_ok by blast
qed

theorem nested_tuples_refine_fields_witness:
  "\<exists>v. value_from_field_list (map IntV [0..<100]) = Some v
     \<and> leaves (tuple_tree_new (length (map IntV [0..<100])) False) v = map IntV [0..<100]"
proof -
  have "length (map IntV [0..<100]) < usize_limit" "57 < length (map IntV [0..<100])" by (simp_all add: usize_limit_def)
  from nested_tuples_refine_fields [OF this, of debug_info_default 0] show ?thesis by blast
qed

text \<open>
  C23: Global variables are an array.  The code that the pass emits for reading global \<open>i\<close> leaves the \<open>i\<close>-th
  leaf of the register on the stack and changes nothing else; the code for writing takes the value off the
  stack and replaces exactly that leaf, keeping the shape of the register.
\<close>

theorem globals_refine_array:
  assumes "fits (tuple_tree_new n False) (register m)" "i < n"
  shows "(\<exists>cs. fix_tuple_size [Instruction (GetGlobalVar i) None di] n = Inr cs
       \<and> exec_code ext cs (cfg m pc s a) =
           Done True (cfg m (pc + length cs) (leaves (tuple_tree_new n False) (register m) ! i # s) a))
    \<and> (\<exists>cs v. fix_tuple_size [Instruction (SetGlobalVar i) None di] n = Inr cs
       \<and> exec_code ext cs (cfg m pc (x # s) a) = Done True (cfg (m\<lparr>register := v\<rparr>) (pc + length cs) s a)
       \<and> fits (tuple_tree_new n False) v
       \<and> leaves (tuple_tree_new n False) v = (leaves (tuple_tree_new n False) (register m))[i := x])"
    (is "?read \<and> ?wrt")
proof
  have "i < tsize (tuple_tree_new n False)" using assms(2) by simp
  note rd = read_code_correct [OF tuple_tree_new_ok assms(1) this, of di ext]
    and wr = write_code_correct [OF tuple_tree_new_ok assms(1) this, of di x ext]
  show ?read
    using rd by (auto simp: fix_tuple_size_def fix_insn_def Let_def instruction_from_opcode_def exec_steps)
  show ?wrt
    using wr by (auto simp: fix_tuple_size_def fix_insn_def Let_def instruction_from_opcode_def exec_steps exec_code_append)
qed

text \<open>The witness reads the last of 100 globals, all of them empty so far.\<close>

theorem globals_refine_array_witness:
  "\<exists>cs. fix_tuple_size [Instruction (GetGlobalVar 99) None debug_info_default] 100 = Inr cs \<and> cs \<noteq> []"
proof -
  let ?m = "\<lparr>stack = [], aux_stack = [], state = Stopped, code = [], static_val = value_none,
     register = make_uninitialized_tuple 100, err_codepoint = Null, arb_gas_remaining = 0,
     runtime_env = undefined, total_gas_usage = 0\<rparr>"
  have "fits (tuple_tree_new 100 False) (register ?m)"
    by (simp add: make_uninitialized_tuple_def make_empty_fits)
  from globals_refine_array [OF this, of 99 debug_info_default undefined 0 "[]" "[]" value_none] show ?thesis
    by (auto simp: cfg_def)
qed

text \<open>
  C25: Frames.  The code for entering a function with \<open>nargs\<close> arguments and \<open>ntotal\<close> locals takes the return
  address (where there is one) and the arguments off the stack and leaves a frame on the auxiliary stack whose
  first locals are the arguments, in order, and whose other locals are empty; reading and writing local \<open>i\<close> of a
  frame reads and replaces exactly its \<open>i\<close>-th leaf; returning drops the frame and continues at the return
  address with the stack as it is.
\<close>

theorem frames_hold_locals:
  assumes "length xs \<le> ntotal" "ntotal < usize_limit" "i < ntotal"
  defines "shape \<equiv> tuple_tree_new ntotal True"
  shows "\<exists>enter rd wr lv v.
      fix_insns g t (map (\<lambda>(op, imm). Instruction op imm di)
         [(MakeFrame (length xs) ntotal True, None), (SetLocal, Some (IntV i)), (GetLocal, Some (IntV i)), (Return, None)])
        = Inr (enter @ wr @ rd @ lv)
      \<and> fits shape v \<and> leaves shape v = xs @ replicate (ntotal - length xs) value_none
      \<and> exec_code ext enter (cfg m pc (CodePointV ret # xs @ s) a) =
          Done True (cfg m (pc + length enter) s (v # CodePointV ret # a))
      \<and> exec_code ext rd (cfg m pc s (v # a)) = Done True (cfg m (pc + length rd) (leaves shape v ! i # s) (v # a))
      \<and> (\<exists>v'. exec_code ext wr (cfg m pc (x # s) (v # a)) = Done True (cfg m (pc + length wr) s (v' # a))
           \<and> fits shape v' \<and> leaves shape v' = (leaves shape v)[i := x])
      \<and> exec_code ext lv (cfg m pc s (v # CodePointV ret # a)) =
          Done True (m\<lparr>state := Running ret, stack := s, aux_stack := a\<rparr>)"
proof -
  obtain enter v where e: "fix_insn g t (Instruction (MakeFrame (length xs) ntotal True) None di) = Inr (enter, shape)"
     "fits shape v" "leaves shape v = xs @ replicate (ntotal - length xs) value_none"
     "\<forall>m pc r s a. exec_code ext enter (cfg m pc (r # xs @ s) a) = Done True (cfg m (pc + length enter) s (v # r # a))"
    using enter_correct [OF assms(1)] unfolding shape_def by blast
  obtain rd where rd: "fix_insn g shape (Instruction GetLocal (Some (IntV i)) di) = Inr (rd, shape)"
     "\<forall>m pc s a. exec_code ext rd (cfg m pc s (v # a)) = Done True (cfg m (pc + length rd) (leaves shape v ! i # s) (v # a))"
    using local_access_correct(1) [OF e(2) [unfolded shape_def] assms(3,2)] unfolding shape_def by blast
  obtain wr v' where wr: "fix_insn g shape (Instruction SetLocal (Some (IntV i)) di) = Inr (wr, shape)"
     "fits shape v'" "leaves shape v' = (leaves shape v)[i := x]"
     "\<forall>m pc s a. exec_code ext wr (cfg m pc (x # s) (v # a)) = Done True (cfg m (pc + length wr) s (v' # a))"
    using local_access_correct(2) [OF e(2) [unfolded shape_def] assms(3,2)] unfolding shape_def by blast
  obtain lv where lv: "fix_insn g shape (Instruction Return None di) = Inr (lv, shape)"
     "\<forall>m pc s a. exec_code ext lv (cfg m pc s (v # CodePointV ret # a)) =
        Done True (m\<lparr>state := Running ret, stack := s, aux_stack := a\<rparr>)"
    using return_correct by blast
  from e rd wr lv show ?thesis
    by (intro exI [of _ enter] exI [of _ rd] exI [of _ wr] exI [of _ lv] exI [of _ v]) auto
qed

theorem frames_hold_locals_witness:
  "\<exists>v. fits (tuple_tree_new 20 True) v
     \<and> leaves (tuple_tree_new 20 True) v = [value_none, IntV 7] @ replicate (20 - length [value_none, IntV 7]) value_none"
proof -
  have "length [value_none, IntV 7] \<le> 20" "20 < usize_limit" "19 < (20 :: nat)" by (simp_all add: usize_limit_def)
  from frames_hold_locals [OF this, of Single Single debug_info_default] show ?thesis by blast
qed

end
