(* ===== verification/String_Table.thy ===== *)
theory String_Table
  imports Prelude
begin

text \<open>
  The string table of the compiler (\<open>src/stringtable.rs\<close>): names are interned to consecutive
  numbers.  The contract of an interner is the locale \<open>interner\<close>; its lemmas (ids are stable, two
  names get the same id exactly when they are equal, every id gives its name back) are proved once
  there and the table of the source is an interpretation of it.
\<close>

section \<open>Definitions\<close>

type_synonym string_id = usize

record string_table =
  next_id :: string_id
  table :: "string \<rightharpoonup> string_id"
  by_id :: "string list"

definition string_table_new :: string_table where
  "string_table_new = \<lparr>next_id = 0, table = Map.empty, by_id = []\<rparr>"

definition string_table_get :: "string_table \<Rightarrow> string \<Rightarrow> string_id \<times> string_table" where
  "string_table_get t name =
     (case table t name of
        Some i \<Rightarrow> (i, t)
      | None \<Rightarrow>
          let new_id = next_id t
          in (new_id, \<lparr>next_id = next_id t + 1, table = (table t)(name \<mapsto> new_id), by_id = by_id t @ [name]\<rparr>))"

definition string_table_get_if_exists :: "string_table \<Rightarrow> string \<Rightarrow> string_id option" where
  "string_table_get_if_exists t name = table t name"

text \<open>\<open>None\<close>: the index is out of bounds, which panics.\<close>

definition string_table_name_from_id :: "string_table \<Rightarrow> string_id \<Rightarrow> string option" where
  "string_table_name_from_id t i = get_at (by_id t) i"

text \<open>The two directions of the table agree.\<close>

definition string_table_ok :: "string_table \<Rightarrow> bool" where
  "string_table_ok t \<longleftrightarrow>
     next_id t = length (by_id t) \<and> distinct (by_id t)
     \<and> (\<forall>name i. table t name = Some i \<longleftrightarrow> i < length (by_id t) \<and> by_id t ! i = name)"

section \<open>Interning\<close>

locale interner =
  fixes intern :: "'t \<Rightarrow> 'n \<Rightarrow> nat \<times> 't"
    and lookup :: "'t \<Rightarrow> 'n \<Rightarrow> nat option"
    and name_of :: "'t \<Rightarrow> nat \<Rightarrow> 'n option"
    and invar :: "'t \<Rightarrow> bool"
  assumes lookup_name_of: "invar t \<Longrightarrow> (lookup t n = Some i) = (name_of t i = Some n)"
    and intern_invar: "invar t \<Longrightarrow> invar (snd (intern t n))"
    and intern_lookup: "invar t \<Longrightarrow> lookup (snd (intern t n)) n = Some (fst (intern t n))"
    and intern_keeps: "invar t \<Longrightarrow> lookup t m = Some i \<Longrightarrow> lookup (snd (intern t n)) m = Some i"
    and intern_only: "invar t \<Longrightarrow> m \<noteq> n \<Longrightarrow> lookup (snd (intern t n)) m = lookup t m"
begin

fun intern_all :: "'t \<Rightarrow> 'n list \<Rightarrow> nat list \<times> 't" where
  "intern_all t [] = ([], t)"
| "intern_all t (n # ns) =
     (let (i, t1) = intern t n; (is, t2) = intern_all t1 ns in (i # is, t2))"

lemma intern_all_invar: "invar t \<Longrightarrow> invar (snd (intern_all t ns))"
  by (induction ns arbitrary: t) (auto simp: split_def Let_def intern_invar)

lemma intern_all_keeps: "invar t \<Longrightarrow> lookup t m = Some i \<Longrightarrow> lookup (snd (intern_all t ns)) m = Some i"
  by (induction ns arbitrary: t) (auto simp: split_def Let_def intern_invar intern_keeps)

lemma intern_all_only:
  "invar t \<Longrightarrow> m \<notin> set ns \<Longrightarrow> lookup (snd (intern_all t ns)) m = lookup t m"
  by (induction ns arbitrary: t) (auto simp: split_def Let_def intern_invar intern_only)

lemma intern_all_lookup:
  "invar t \<Longrightarrow> map (lookup (snd (intern_all t ns))) ns = map Some (fst (intern_all t ns))"
  by (induction ns arbitrary: t)
     (auto simp: split_def Let_def intern_invar intern_lookup intro!: intern_all_keeps)

lemma intern_all_names:
  assumes "invar t"
  shows "map (name_of (snd (intern_all t ns))) (fst (intern_all t ns)) = map Some ns"
proof (rule nth_equalityI)
  let ?t = "snd (intern_all t ns)"
  have len: "length (fst (intern_all t ns)) = length ns"
    using arg_cong [OF intern_all_lookup [OF assms, of ns], of length] by simp
  then show "length (map (name_of ?t) (fst (intern_all t ns))) = length (map Some ns)" by simp
  fix k assume "k < length (map (name_of ?t) (fst (intern_all t ns)))"
  then have k: "k < length ns" by (simp add: len)
  then have "lookup ?t (ns ! k) = Some (fst (intern_all t ns) ! k)"
    using arg_cong [OF intern_all_lookup [OF assms, of ns], of "\<lambda>xs. xs ! k"] len by simp
  then show "map (name_of ?t) (fst (intern_all t ns)) ! k = map Some ns ! k"
    using k len lookup_name_of [OF intern_all_invar [OF assms]] by simp
qed

lemma intern_all_ids_eq_iff:
  assumes "invar t" "j < length ns" "k < length ns"
  shows "fst (intern_all t ns) ! j = fst (intern_all t ns) ! k \<longleftrightarrow> ns ! j = ns ! k"
proof -
  let ?t = "snd (intern_all t ns)"
  have len: "length (fst (intern_all t ns)) = length ns"
    using arg_cong [OF intern_all_lookup [OF assms(1), of ns], of length] by simp
  have 1: "lookup ?t (ns ! i) = Some (fst (intern_all t ns) ! i)" if "i < length ns" for i
    using arg_cong [OF intern_all_lookup [OF assms(1), of ns], of "\<lambda>xs. xs ! i"] len that by simp
  have 2: "name_of ?t (fst (intern_all t ns) ! i) = Some (ns ! i)" if "i < length ns" for i
    using arg_cong [OF intern_all_names [OF assms(1), of ns], of "\<lambda>xs. xs ! i"] len that by simp
  show ?thesis
    using 1 [OF assms(2)] 1 [OF assms(3)] 2 [OF assms(2)] 2 [OF assms(3)] by auto
qed

end

lemma string_table_new_ok [simp]: "string_table_ok string_table_new"
  by (simp add: string_table_ok_def string_table_new_def)

lemma string_table_mem: "string_table_ok t \<Longrightarrow> n \<in> set (by_id t) \<longleftrightarrow> (\<exists>i. table t n = Some i)"
  unfolding string_table_ok_def by (metis in_set_conv_nth)

lemma string_table_get_ok:
  assumes "string_table_ok t"
  shows "string_table_ok (snd (string_table_get t n))"
proof (cases "table t n")
  case None
  then have fresh: "n \<notin> set (by_id t)" by (simp add: string_table_mem [OF assms])
  show ?thesis
    using assms None fresh
    by (auto simp: string_table_ok_def string_table_get_def Let_def nth_append less_Suc_eq)
qed (simp add: assms string_table_get_def)

interpretation st: interner string_table_get string_table_get_if_exists string_table_name_from_id
  string_table_ok
proof unfold_locales
  fix t :: string_table and n :: string and i
  assume "string_table_ok t"
  then show "(string_table_get_if_exists t n = Some i) = (string_table_name_from_id t i = Some n)"
    by (auto simp: string_table_ok_def string_table_get_if_exists_def string_table_name_from_id_def get_at_def)
next
  fix t :: string_table and n :: string
  assume "string_table_ok t"
  then show "string_table_ok (snd (string_table_get t n))" by (rule string_table_get_ok)
qed (auto simp: string_table_get_if_exists_def string_table_get_def Let_def split: option.splits)

text \<open>
  C39: The string table interns.  Interning any sequence of names in the empty table gives ids that
  are equal exactly when the names are and give each name back; the table stays consistent in both
  directions.
\<close>

theorem string_table_interns:
  "string_table_ok (snd (st.intern_all string_table_new ns))
   \<and> map (string_table_name_from_id (snd (st.intern_all string_table_new ns)))
       (fst (st.intern_all string_table_new ns)) = map Some ns
   \<and> (\<forall>j < length ns. \<forall>k < length ns.
        (fst (st.intern_all string_table_new ns) ! j = fst (st.intern_all string_table_new ns) ! k)
        = (ns ! j = ns ! k))"
  by (simp add: st.intern_all_invar st.intern_all_names st.intern_all_ids_eq_iff)

theorem string_table_interns_witness:
  "fst (st.intern_all string_table_new [''a'', ''b'', ''a'']) ! 0 =
   fst (st.intern_all string_table_new [''a'', ''b'', ''a'']) ! 2"
  using string_table_interns [of "[''a'', ''b'', ''a'']"] by simp

text \<open>
  A name the table already holds keeps its id and leaves the table as it is; a new name gets the
  next free id, and no other name's id changes.
\<close>

theorem string_table_get_spec:
  assumes "string_table_ok t"
  shows "(n \<in> set (by_id t) \<longrightarrow> snd (string_table_get t n) = t
            \<and> string_table_get_if_exists t n = Some (fst (string_table_get t n)))
       \<and> (n \<notin> set (by_id t) \<longrightarrow> fst (string_table_get t n) = length (by_id t)
            \<and> by_id (snd (string_table_get t n)) = by_id t @ [n])
       \<and> (m \<noteq> n \<longrightarrow> string_table_get_if_exists (snd (string_table_get t n)) m
            = string_table_get_if_exists t m)"
proof -
  have "next_id t = length (by_id t)" using assms by (simp add: string_table_ok_def)
  then show ?thesis
    using string_table_mem [OF assms, of n] st.intern_only [OF assms, of m n]
    by (auto simp: string_table_get_def string_table_get_if_exists_def Let_def split: option.splits)
qed

theorem string_table_get_spec_witness:
  "fst (string_table_get string_table_new ''x'') = 0"
  using string_table_get_spec [OF string_table_new_ok, of "''x''" "''y''"]
  by (simp add: string_table_new_def)

end
