(* ===== verification/Types.thy ===== *)
theory Types
  imports Tuple_Tree String_Table
begin

text \<open>
  The types of the Mini language (\<open>src/compile/ast.rs\<close>): resolution of nominal types in the type tree,
  assignability, the search for the first mismatch, default values and display.  Nominal types may be
  recursive, so resolution and comparison may run forever; these functions take fuel and return \<open>None\<close> when
  it is used up.  Assignability is compared with structural subtyping, defined by coinduction.
\<close>

section \<open>Definitions\<close>

datatype 'a struct_field = StructField (field_name: string) (field_tipe: 'a)

datatype (plugins only: code size) tipe =
    TVoid | TUint | TInt | TBool | TBytes32 | TEthAddress | TBuffer
  | TTuple "tipe list"
  | TArray tipe
  | TFixedArray tipe usize
  | TStruct "tipe struct_field list"
  | TNominal "string list" string_id
  | TFunc bool "tipe list" tipe
  | TMap tipe tipe
  | TAny | TEvery
  | TOption tipe
  | TUnion "tipe list"

lemma size_field_tipe [termination_simp]:
  "f \<in> set flds \<Longrightarrow> size_class.size (field_tipe f) < Suc (size_list (size_struct_field size_class.size) flds)"
  unfolding less_Suc_eq_le by (erule size_list_estimation') (cases f, simp)

type_synonym type_tree = "(string list \<times> string_id) \<rightharpoonup> (tipe \<times> string)"

subsection \<open>Equality\<close>

fun type_eq :: "tipe \<Rightarrow> tipe \<Rightarrow> bool" where
  "type_eq TVoid other \<longleftrightarrow> (case other of TVoid \<Rightarrow> True | _ \<Rightarrow> False)"
| "type_eq TUint other \<longleftrightarrow> (case other of TUint \<Rightarrow> True | _ \<Rightarrow> False)"
| "type_eq TInt other \<longleftrightarrow> (case other of TInt \<Rightarrow> True | _ \<Rightarrow> False)"
| "type_eq TBool other \<longleftrightarrow> (case other of TBool \<Rightarrow> True | _ \<Rightarrow> False)"
| "type_eq TBytes32 other \<longleftrightarrow> (case other of TBytes32 \<Rightarrow> True | _ \<Rightarrow> False)"
| "type_eq TEthAddress other \<longleftrightarrow> (case other of TEthAddress \<Rightarrow> True | _ \<Rightarrow> False)"
| "type_eq TAny other \<longleftrightarrow> (case other of TAny \<Rightarrow> True | _ \<Rightarrow> False)"
| "type_eq TBuffer other \<longleftrightarrow> (case other of TBuffer \<Rightarrow> True | _ \<Rightarrow> False)"
| "type_eq TEvery other \<longleftrightarrow> (case other of TEvery \<Rightarrow> True | _ \<Rightarrow> False)"
| "type_eq (TTuple v1) other \<longleftrightarrow> (case other of TTuple v2 \<Rightarrow> list_all2 type_eq v1 v2 | _ \<Rightarrow> False)"
| "type_eq (TArray a1) other \<longleftrightarrow> (case other of TArray a2 \<Rightarrow> type_eq a1 a2 | _ \<Rightarrow> False)"
| "type_eq (TFixedArray a1 s1) other \<longleftrightarrow> (case other of TFixedArray a2 s2 \<Rightarrow> s1 = s2 \<and> type_eq a1 a2 | _ \<Rightarrow> False)"
| "type_eq (TStruct f1) other \<longleftrightarrow>
     (case other of
        TStruct f2 \<Rightarrow> list_all2 (\<lambda>x y. field_name x = field_name y \<and> type_eq (field_tipe x) (field_tipe y)) f1 f2
      | _ \<Rightarrow> False)"
| "type_eq (TMap k1 v1) other \<longleftrightarrow> (case other of TMap k2 v2 \<Rightarrow> type_eq k1 k2 \<and> type_eq v1 v2 | _ \<Rightarrow> False)"
| "type_eq (TFunc i1 a1 r1) other \<longleftrightarrow> (case other of TFunc i2 a2 r2 \<Rightarrow> i1 = i2 \<and> list_all2 type_eq a1 a2 \<and> type_eq r1 r2 | _ \<Rightarrow> False)"
| "type_eq (TNominal p1 id1) other \<longleftrightarrow> (case other of TNominal p2 id2 \<Rightarrow> (p1, id1) = (p2, id2) | _ \<Rightarrow> False)"
| "type_eq (TOption x) other \<longleftrightarrow> (case other of TOption y \<Rightarrow> type_eq x y | _ \<Rightarrow> False)"
| "type_eq (TUnion x) other \<longleftrightarrow> (case other of TUnion y \<Rightarrow> list_all2 type_eq x y | _ \<Rightarrow> False)"

subsection \<open>Subterms\<close>

text \<open>The children in the order in which the tree is walked.\<close>

fun type_child_nodes :: "tipe \<Rightarrow> tipe list" where
  "type_child_nodes (TTuple types) = types"
| "type_child_nodes (TUnion types) = types"
| "type_child_nodes (TArray t) = [t]"
| "type_child_nodes (TFixedArray t n) = [t]"
| "type_child_nodes (TOption t) = [t]"
| "type_child_nodes (TStruct flds) = map field_tipe flds"
| "type_child_nodes (TFunc impure args ret) = ret # args"
| "type_child_nodes (TMap key val) = [key, val]"
| "type_child_nodes _ = []"

fun find_nominals :: "tipe \<Rightarrow> string_id list" where
  "find_nominals (TNominal path i) = [i]"
| "find_nominals (TArray t) = find_nominals t"
| "find_nominals (TFixedArray t n) = find_nominals t"
| "find_nominals (TOption t) = find_nominals t"
| "find_nominals (TTuple entries) = concat (map find_nominals entries)"
| "find_nominals (TFunc impure args ret) = find_nominals ret @ concat (map find_nominals args)"
| "find_nominals (TStruct flds) = concat (map (\<lambda>f. find_nominals (field_tipe f)) flds)"
| "find_nominals (TMap domain codomain) = find_nominals domain @ find_nominals codomain"
| "find_nominals _ = []"

fun struct_slot :: "usize \<Rightarrow> tipe struct_field list \<Rightarrow> string \<Rightarrow> usize option" where
  "struct_slot i [] name = None"
| "struct_slot i (field # flds) name = (if field_name field = name then Some i else struct_slot (i + 1) flds name)"

definition get_struct_slot_by_name :: "tipe \<Rightarrow> string \<Rightarrow> usize option" where
  "get_struct_slot_by_name t name = (case t of TStruct flds \<Rightarrow> struct_slot 0 flds name | _ \<Rightarrow> None)"

subsection \<open>Resolution\<close>

datatype type_error = NoTypeAt "string list" string_id

text \<open>The loop that follows nominal types; \<open>None\<close> when the fuel is used up.\<close>

fun get_representation :: "nat \<Rightarrow> type_tree \<Rightarrow> tipe \<Rightarrow> (type_error + tipe) option" where
  "get_representation n tree (TNominal path i) =
     (case n of
        0 \<Rightarrow> None
      | Suc n' \<Rightarrow>
          (case tree (path, i) of
             None \<Rightarrow> Some (Inl (NoTypeAt path i))
           | Some (t, name) \<Rightarrow> get_representation n' tree t))"
| "get_representation n tree t = Some (Inr t)"

subsection \<open>Assignability\<close>

text \<open>\<open>Iterator::all\<close> over zipped lists, with a predicate that may run out of fuel.\<close>

fun all_zip :: "('a \<Rightarrow> 'b \<Rightarrow> bool option) \<Rightarrow> 'a list \<Rightarrow> 'b list \<Rightarrow> bool option" where
  "all_zip f (x # xs) (y # ys) =
     (case f x y of None \<Rightarrow> None | Some b \<Rightarrow> if b then all_zip f xs ys else Some False)"
| "all_zip f _ _ = Some True"

definition and_opt :: "bool option \<Rightarrow> bool option \<Rightarrow> bool option" where
  "and_opt x y = (case x of None \<Rightarrow> None | Some b \<Rightarrow> if b then y else Some False)"

definition type_vectors_assignable ::
    "(tipe \<Rightarrow> tipe \<Rightarrow> bool option) \<Rightarrow> tipe list \<Rightarrow> tipe list \<Rightarrow> bool option" where
  "type_vectors_assignable assign tvec1 tvec2 =
     (if length tvec1 = length tvec2 then all_zip assign tvec1 tvec2 else Some False)"

definition field_vectors_assignable ::
    "(tipe \<Rightarrow> tipe \<Rightarrow> bool option) \<Rightarrow> tipe struct_field list \<Rightarrow> tipe struct_field list \<Rightarrow> bool option" where
  "field_vectors_assignable assign tvec1 tvec2 =
     (if length tvec1 = length tvec2
      then all_zip (\<lambda>t1 t2. and_opt (assign (field_tipe t1) (field_tipe t2)) (Some (field_name t1 = field_name t2)))
             tvec1 tvec2
      else Some False)"

text \<open>Run a continuation on the representation of a type; an error means that nothing can be assigned.\<close>

definition with_rep :: "(type_error + tipe) option \<Rightarrow> (tipe \<Rightarrow> bool option) \<Rightarrow> bool option" where
  "with_rep rep k = (case rep of None \<Rightarrow> None | Some (Inl e) \<Rightarrow> Some False | Some (Inr t) \<Rightarrow> k t)"

text \<open>The body of the function, with resolution and the recursive call as arguments.\<close>

definition assignable_body ::
    "(tipe \<Rightarrow> (type_error + tipe) option) \<Rightarrow> (tipe \<Rightarrow> tipe \<Rightarrow> (tipe \<times> tipe) set \<Rightarrow> bool option)
     \<Rightarrow> tipe \<Rightarrow> tipe \<Rightarrow> (tipe \<times> tipe) set \<Rightarrow> bool option" where
  "assignable_body rep assign self rhs seen =
     (if rhs = TEvery then Some True
      else case self of
        TAny \<Rightarrow> Some (rhs \<noteq> TVoid)
      | TTuple tvec \<Rightarrow>
          with_rep (rep rhs) (\<lambda>r. case r of
            TTuple tvec2 \<Rightarrow> type_vectors_assignable (\<lambda>t1 t2. assign t1 t2 seen) tvec tvec2
          | _ \<Rightarrow> Some False)
      | TArray t \<Rightarrow>
          with_rep (rep rhs) (\<lambda>r. case r of
            TArray t2 \<Rightarrow> assign t t2 seen
          | _ \<Rightarrow> Some False)
      | TFixedArray t s \<Rightarrow>
          with_rep (rep rhs) (\<lambda>r. case r of
            TFixedArray t2 s2 \<Rightarrow> if s = s2 then assign t t2 seen else Some False
          | _ \<Rightarrow> Some False)
      | TStruct flds \<Rightarrow>
          with_rep (rep rhs) (\<lambda>r. case r of
            TStruct flds2 \<Rightarrow> field_vectors_assignable (\<lambda>t1 t2. assign t1 t2 seen) flds flds2
          | _ \<Rightarrow> Some False)
      | TNominal path i \<Rightarrow>
          (case (rep self, rep rhs) of
             (Some (Inr l), Some (Inr r)) \<Rightarrow>
               if (l, r) \<notin> seen then assign l r (insert (l, r) seen) else Some True
           | (Some _, Some _) \<Rightarrow> Some False
           | _ \<Rightarrow> None)
      | TFunc is_impure args ret \<Rightarrow>
          (case rhs of
             TFunc is_impure2 args2 ret2 \<Rightarrow>
               if is_impure \<or> \<not> is_impure2
               then and_opt (type_vectors_assignable (\<lambda>t1 t2. assign t1 t2 seen) args2 args)
                      (assign ret ret2 seen)
               else Some False
           | _ \<Rightarrow> Some False)
      | TMap key1 val1 \<Rightarrow>
          (case rhs of
             TMap key2 val2 \<Rightarrow>
               with_rep (rep val2) (\<lambda>val2.
                 and_opt (assign key1 key2 seen) (assign val1 val2 seen))
           | _ \<Rightarrow> Some False)
      | TOption inner \<Rightarrow>
          with_rep (rep rhs) (\<lambda>r. case r of
            TOption inner2 \<Rightarrow> assign inner inner2 seen
          | _ \<Rightarrow> Some False)
      | TUnion types \<Rightarrow>
          with_rep (rep rhs) (\<lambda>r. case r of
            TUnion types2 \<Rightarrow> type_vectors_assignable (\<lambda>t1 t2. assign t1 t2 seen) types types2
          | _ \<Rightarrow> Some False)
      | _ \<Rightarrow> Some (self = rhs))"

primrec assignable :: "nat \<Rightarrow> type_tree \<Rightarrow> tipe \<Rightarrow> tipe \<Rightarrow> (tipe \<times> tipe) set \<Rightarrow> bool option" where
  "assignable 0 tree self rhs seen = None"
| "assignable (Suc n) tree self rhs seen =
     assignable_body (get_representation n tree) (assignable n tree) self rhs seen"

subsection \<open>The first mismatch\<close>

datatype type_mismatch =
    MType tipe tipe
  | MFieldName string string
  | MFieldType string type_mismatch
  | MUnresolvedRight tipe
  | MUnresolvedLeft tipe
  | MUnresolvedBoth tipe tipe
  | MLength usize usize
  | MArrayMismatch type_mismatch
  | MArrayLength usize usize
  | MTuple usize type_mismatch
  | MTupleLength usize usize
  | MFuncArg usize type_mismatch
  | MFuncArgLength usize usize
  | MFuncReturn type_mismatch
  | MMap bool type_mismatch
  | MOption type_mismatch
  | MUnion usize type_mismatch
  | MUnionLength usize usize
  | MPurity

text \<open>The loops over zipped lists that return at the first mismatch; the outer option is fuel.\<close>

fun zip_mismatch ::
    "(tipe \<Rightarrow> tipe \<Rightarrow> type_mismatch option option) \<Rightarrow> (usize \<Rightarrow> type_mismatch \<Rightarrow> type_mismatch) \<Rightarrow> usize
     \<Rightarrow> tipe list \<Rightarrow> tipe list \<Rightarrow> type_mismatch option option" where
  "zip_mismatch f wrap i (x # xs) (y # ys) =
     (case f x y of
        None \<Rightarrow> None
      | Some (Some inner) \<Rightarrow> Some (Some (wrap i inner))
      | Some None \<Rightarrow> zip_mismatch f wrap (i + 1) xs ys)"
| "zip_mismatch f wrap i _ _ = Some None"

fun zip_field_mismatch ::
    "(tipe \<Rightarrow> tipe \<Rightarrow> type_mismatch option option) \<Rightarrow> tipe struct_field list \<Rightarrow> tipe struct_field list
     \<Rightarrow> type_mismatch option option" where
  "zip_field_mismatch f (t1 # ts1) (t2 # ts2) =
     (case f (field_tipe t1) (field_tipe t2) of
        None \<Rightarrow> None
      | Some (Some m) \<Rightarrow> Some (Some (MFieldType (field_name t1) m))
      | Some None \<Rightarrow>
          if field_name t1 \<noteq> field_name t2 then Some (Some (MFieldName (field_name t1) (field_name t2)))
          else zip_field_mismatch f ts1 ts2)"
| "zip_field_mismatch f _ _ = Some None"

text \<open>Go on with \<open>k\<close> when no mismatch has been found.\<close>

definition or_mismatch ::
    "type_mismatch option option \<Rightarrow> type_mismatch option option \<Rightarrow> type_mismatch option option" where
  "or_mismatch x k = (case x of None \<Rightarrow> None | Some (Some m) \<Rightarrow> Some (Some m) | Some None \<Rightarrow> k)"

definition field_vectors_mismatch ::
    "(tipe \<Rightarrow> tipe \<Rightarrow> type_mismatch option option) \<Rightarrow> tipe struct_field list \<Rightarrow> tipe struct_field list
     \<Rightarrow> type_mismatch option option" where
  "field_vectors_mismatch f tvec1 tvec2 =
     or_mismatch (zip_field_mismatch f tvec1 tvec2)
       (Some (if length tvec1 \<noteq> length tvec2 then Some (MLength (length tvec1) (length tvec2)) else None))"

definition with_rep_mismatch ::
    "(type_error + tipe) option \<Rightarrow> type_mismatch \<Rightarrow> (tipe \<Rightarrow> type_mismatch option option) \<Rightarrow> type_mismatch option option" where
  "with_rep_mismatch rep m k = (case rep of None \<Rightarrow> None | Some (Inl e) \<Rightarrow> Some (Some m) | Some (Inr t) \<Rightarrow> k t)"

abbreviation map_mismatch :: "(type_mismatch \<Rightarrow> type_mismatch) \<Rightarrow> type_mismatch option option \<Rightarrow> type_mismatch option option" where
  "map_mismatch g \<equiv> map_option (map_option g)"

definition first_mismatch_body ::
    "(tipe \<Rightarrow> (type_error + tipe) option) \<Rightarrow> (tipe \<Rightarrow> tipe \<Rightarrow> (tipe \<times> tipe) set \<Rightarrow> type_mismatch option option)
     \<Rightarrow> tipe \<Rightarrow> tipe \<Rightarrow> (tipe \<times> tipe) set \<Rightarrow> type_mismatch option option" where
  "first_mismatch_body rep mismatch self rhs seen =
     (if rhs = TEvery then Some None
      else case self of
        TAny \<Rightarrow> Some (if rhs \<noteq> TVoid then None else Some (MType TAny TVoid))
      | TTuple tvec \<Rightarrow>
          with_rep_mismatch (rep rhs) (MType self rhs) (\<lambda>r. case r of
            TTuple tvec2 \<Rightarrow>
              or_mismatch (zip_mismatch (\<lambda>l r. mismatch l r seen) MTuple 0 tvec tvec2)
                (Some (if length tvec \<noteq> length tvec2 then Some (MTupleLength (length tvec) (length tvec2)) else None))
          | _ \<Rightarrow> Some (Some (MType self rhs)))
      | TArray t \<Rightarrow>
          with_rep_mismatch (rep rhs) (MType self rhs) (\<lambda>r. case r of
            TArray t2 \<Rightarrow> map_mismatch MArrayMismatch (mismatch t t2 seen)
          | _ \<Rightarrow> Some (Some (MType self rhs)))
      | TFixedArray t s \<Rightarrow>
          with_rep_mismatch (rep rhs) (MType self rhs) (\<lambda>r. case r of
            TFixedArray t2 s2 \<Rightarrow>
              or_mismatch (map_mismatch MArrayMismatch (mismatch t t2 seen))
                (Some (if s \<noteq> s2 then Some (MArrayLength s s2) else None))
          | _ \<Rightarrow> Some (Some (MType self rhs)))
      | TStruct flds \<Rightarrow>
          with_rep_mismatch (rep rhs) (MType self rhs) (\<lambda>r. case r of
            TStruct flds2 \<Rightarrow> field_vectors_mismatch (\<lambda>l r. mismatch l r seen) flds flds2
          | _ \<Rightarrow> Some (Some (MType self rhs)))
      | TNominal path i \<Rightarrow>
          (case (rep self, rep rhs) of
             (Some (Inr l), Some (Inr r)) \<Rightarrow>
               if (self, rhs) \<notin> seen then mismatch l r (insert (self, rhs) seen) else Some None
           | (Some (Inr _), Some (Inl _)) \<Rightarrow> Some (Some (MUnresolvedRight self))
           | (Some (Inl _), Some (Inr _)) \<Rightarrow> Some (Some (MUnresolvedLeft rhs))
           | (Some (Inl _), Some (Inl _)) \<Rightarrow> Some (Some (MUnresolvedBoth self rhs))
           | _ \<Rightarrow> None)
      | TFunc is_impure args ret \<Rightarrow>
          (case rhs of
             TFunc is_impure2 args2 ret2 \<Rightarrow>
               or_mismatch (zip_mismatch (\<lambda>l r. mismatch l r seen) MFuncArg 0 args args2)
                 (if length args \<noteq> length args2 then Some (Some (MFuncArgLength (length args) (length args2)))
                  else or_mismatch (map_mismatch MFuncReturn (mismatch ret ret2 seen))
                    (Some (if \<not> is_impure \<and> is_impure2 then Some MPurity else None)))
           | _ \<Rightarrow> Some (Some (MType self rhs)))
      | TMap key1 val1 \<Rightarrow>
          (case rhs of
             TMap key2 val2 \<Rightarrow>
               with_rep_mismatch (rep val2) (MType self rhs) (\<lambda>val2.
                 or_mismatch (map_mismatch (MMap True) (mismatch key1 key2 seen))
                   (map_mismatch (MMap False) (mismatch val1 val2 seen)))
           | _ \<Rightarrow> Some (Some (MType self rhs)))
      | TOption inner \<Rightarrow>
          with_rep_mismatch (rep rhs) (MType self rhs) (\<lambda>r. case r of
            TOption inner2 \<Rightarrow> map_mismatch MOption (mismatch inner inner2 seen)
          | _ \<Rightarrow> Some (Some (MType self rhs)))
      | TUnion types \<Rightarrow>
          with_rep_mismatch (rep rhs) (MType self rhs) (\<lambda>r. case r of
            TUnion types2 \<Rightarrow>
              or_mismatch (zip_mismatch (\<lambda>l r. mismatch l r seen) MUnion 0 types types2)
                (Some (if length types \<noteq> length types2 then Some (MUnionLength (length types) (length types2)) else None))
          | _ \<Rightarrow> Some (Some (MType self rhs)))
      | _ \<Rightarrow> Some (if self = rhs then None else Some (MType self rhs)))"

primrec first_mismatch ::
    "nat \<Rightarrow> type_tree \<Rightarrow> tipe \<Rightarrow> tipe \<Rightarrow> (tipe \<times> tipe) set \<Rightarrow> type_mismatch option option" where
  "first_mismatch 0 tree self rhs seen = None"
| "first_mismatch (Suc n) tree self rhs seen =
     first_mismatch_body (get_representation n tree) (first_mismatch n tree) self rhs seen"

subsection \<open>Default values\<close>

text \<open>The loop that nests the default of a fixed array; it is entered with a positive \<open>chunk_size\<close>.\<close>

function fixed_array_default :: "usize \<Rightarrow> usize \<Rightarrow> val \<Rightarrow> val" where
  "fixed_array_default sz chunk_size v =
     (if 0 < chunk_size \<and> chunk_size * tuple_size < sz
      then fixed_array_default sz (chunk_size * 8) (value_new_tuple (replicate 8 v))
      else v)"
  by auto
termination
  by (relation "measure (\<lambda>(sz, c, v). sz - c)") (auto simp: tuple_size_def)

declare fixed_array_default.simps [simp del]

text \<open>The default and whether it is safe to use; \<open>None\<close> where the construction of a value panics.\<close>

fun default_value :: "hash_fn \<Rightarrow> tipe \<Rightarrow> (val \<times> bool) option" where
  "default_value kec TVoid = Some (value_none, False)"
| "default_value kec TBuffer = map_option (\<lambda>b. (b, True)) (value_new_buffer kec [])"
| "default_value kec TUint = Some (IntV uint256_zero, True)"
| "default_value kec TInt = Some (IntV uint256_zero, True)"
| "default_value kec TBytes32 = Some (IntV uint256_zero, True)"
| "default_value kec TEthAddress = Some (IntV uint256_zero, True)"
| "default_value kec TBool = Some (IntV uint256_zero, True)"
| "default_value kec (TTuple tvec) =
     map_option (\<lambda>ds. (value_new_tuple (map fst ds), list_all snd ds)) (collect_opt (default_value kec) tvec)"
| "default_value kec (TArray t) =
     map_option (\<lambda>(def, safe). (value_new_tuple [IntV uint256_one, IntV uint256_one, value_new_tuple [def]], safe))
       (default_value kec t)"
| "default_value kec (TFixedArray t sz) =
     map_option (\<lambda>(def, safe). (fixed_array_default sz 1 (value_new_tuple (replicate 8 def)), safe))
       (default_value kec t)"
| "default_value kec (TStruct flds) =
     (case collect_opt (\<lambda>f. default_value kec (field_tipe f)) flds of
        None \<Rightarrow> None
      | Some ds \<Rightarrow> map_option (\<lambda>v. (v, list_all snd ds)) (value_from_field_list (map fst ds)))"
| "default_value kec (TMap k v) = Some (value_none, False)"
| "default_value kec (TFunc impure args ret) = Some (value_none, False)"
| "default_value kec (TNominal path i) = Some (value_none, False)"
| "default_value kec TAny = Some (value_none, True)"
| "default_value kec TEvery = Some (value_none, False)"
| "default_value kec (TOption t) = Some (value_new_tuple [IntV uint256_zero], True)"
| "default_value kec (TUnion types) = Some (value_none, False)"

subsection \<open>Display\<close>

definition decimal :: "nat \<Rightarrow> string" where
  "decimal n = (if n = 0 then ''0'' else map (\<lambda>d. char_of (48 + d)) (rev (le_digits 10 n)))"

definition path_display :: "string list \<Rightarrow> string" where
  "path_display path = (case path of [] \<Rightarrow> '''' | first # items \<Rightarrow> first @ concat (map (\<lambda>item. ''::'' @ item) items))"

definition newline :: string where
  "newline = [CHR 0x0A]"

definition indent :: "usize \<Rightarrow> string" where
  "indent n = concat (replicate n ''    '')"

text \<open>The separator is only passed on.\<close>

fun display_indented ::
    "usize \<Rightarrow> string \<Rightarrow> string option \<Rightarrow> bool \<Rightarrow> type_tree \<Rightarrow> tipe \<Rightarrow> string \<times> (tipe \<times> string) set" where
  "display_indented lvl sep prefix inc tree TVoid = (''void'', {})"
| "display_indented lvl sep prefix inc tree TUint = (''uint'', {})"
| "display_indented lvl sep prefix inc tree TInt = (''int'', {})"
| "display_indented lvl sep prefix inc tree TBool = (''bool'', {})"
| "display_indented lvl sep prefix inc tree TBytes32 = (''bytes32'', {})"
| "display_indented lvl sep prefix inc tree TEthAddress = (''address'', {})"
| "display_indented lvl sep prefix inc tree TBuffer = (''buffer'', {})"
| "display_indented lvl sep prefix inc tree (TTuple subtypes) =
     (let ds = map (display_indented lvl sep prefix inc tree) subtypes
      in (''('' @ concat (map (\<lambda>d. fst d @ '', '') ds) @ '')'', \<Union> (set (map snd ds))))"
| "display_indented lvl sep prefix inc tree (TArray t) =
     (let (displayed, subtypes) = display_indented lvl sep prefix inc tree t in (''[]'' @ displayed, subtypes))"
| "display_indented lvl sep prefix inc tree (TFixedArray t sz) =
     (let (displayed, subtypes) = display_indented lvl sep prefix inc tree t
      in (''['' @ decimal sz @ '']'' @ displayed, subtypes))"
| "display_indented lvl sep prefix inc tree (TStruct flds) =
     (let ds = map (\<lambda>f. (field_name f, display_indented (lvl + 1) sep prefix inc tree (field_tipe f))) flds
      in (''struct {'' @ newline @ indent lvl
            @ concat (map (\<lambda>(name, d). ''    '' @ name @ '': '' @ fst d @ '','' @ newline @ indent lvl) ds) @ ''}'',
          \<Union> (set (map (\<lambda>d. snd (snd d)) ds))))"
| "display_indented lvl sep prefix inc tree (TNominal path i) =
     ((case prefix of Some p \<Rightarrow> p | None \<Rightarrow> '''') @ (if inc then concat (map (\<lambda>name. name @ ''_'') path) else '''')
        @ (case tree (path, i) of
             Some (t, name) \<Rightarrow> name
           | None \<Rightarrow> ''Failed to resolve type name: '' @ path_display path),
      {(TNominal path i, case tree (path, i) of Some (t, name) \<Rightarrow> name | None \<Rightarrow> ''bad'')})"
| "display_indented lvl sep prefix inc tree (TFunc impure args ret) =
     (let ds = map (display_indented lvl sep prefix inc tree) args;
          (rd, rs) = display_indented lvl sep prefix inc tree ret
      in ((if impure then ''impure '' else '''') @ ''func('' @ concat (map (\<lambda>d. fst d @ '', '') ds) @ '')''
            @ (if ret \<noteq> TVoid then '' -> '' @ rd else ''''),
          \<Union> (set (map snd ds)) \<union> (if ret \<noteq> TVoid then rs else {})))"
| "display_indented lvl sep prefix inc tree (TMap key val) =
     (let (key_display, key_subtypes) = display_indented lvl sep prefix inc tree key;
          (val_display, val_subtypes) = display_indented lvl sep prefix inc tree val
      in (''map<'' @ key_display @ '','' @ val_display @ ''>'', key_subtypes \<union> val_subtypes))"
| "display_indented lvl sep prefix inc tree TAny = (''any'', {})"
| "display_indented lvl sep prefix inc tree TEvery = (''every'', {})"
| "display_indented lvl sep prefix inc tree (TOption t) =
     (let (displayed, subtypes) = display_indented lvl sep prefix inc tree t in (''option<'' @ displayed @ ''> '', subtypes))"
| "display_indented lvl sep prefix inc tree (TUnion types) =
     (let ds = map (display_indented (lvl + 1) sep prefix inc tree) types
      in (''union<'' @ concat (map (\<lambda>d. fst d @ '', '') ds) @ ''>'', \<Union> (set (map snd ds))))"

definition type_display :: "tipe \<Rightarrow> string" where
  "type_display t = fst (display_indented 0 ''::'' None False Map.empty t)"

definition display_separator ::
    "string \<Rightarrow> string option \<Rightarrow> bool \<Rightarrow> type_tree \<Rightarrow> tipe \<Rightarrow> string \<times> (tipe \<times> string) set" where
  "display_separator sep prefix inc tree t = display_indented 0 sep prefix inc tree t"

definition quoted :: "string \<Rightarrow> string" where
  "quoted s = CHR 0x22 # s @ [CHR 0x22]"

fun mismatch_display :: "type_mismatch \<Rightarrow> string" where
  "mismatch_display (MType l r) = ''expected '' @ type_display l @ '' got '' @ type_display r"
| "mismatch_display (MFieldType name problem) = ''in field '' @ quoted name @ '': '' @ mismatch_display problem"
| "mismatch_display (MFieldName l r) = ''expected field name '' @ quoted l @ '', got '' @ quoted r"
| "mismatch_display (MUnresolvedRight t) = ''could not resolve right-hand type '' @ quoted (type_display t)"
| "mismatch_display (MUnresolvedLeft t) = ''could not resolve left-hand type '' @ quoted (type_display t)"
| "mismatch_display (MUnresolvedBoth l r) =
     ''could not resolve both right hand type '' @ quoted (type_display l) @ '' and left hand type''
       @ quoted (type_display r)"
| "mismatch_display (MLength l r) =
     ''structs of different lengths: expected length '' @ decimal l @ '' got length '' @ decimal r"
| "mismatch_display (MArrayLength l r) =
     ''arrays of different lengths: expected length '' @ decimal l @ '' got length '' @ decimal r"
| "mismatch_display (MArrayMismatch m) = ''inner array type mismatch '' @ mismatch_display m"
| "mismatch_display (MTuple i m) = ''in tuple field '' @ decimal (i + 1) @ '': '' @ mismatch_display m"
| "mismatch_display (MTupleLength l r) =
     ''tuples of different lengths: expected length '' @ decimal l @ '' got length '' @ decimal r"
| "mismatch_display (MFuncArg i m) = ''in function argument '' @ decimal (i + 1) @ '': '' @ mismatch_display m"
| "mismatch_display (MFuncArgLength l r) =
     ''left func has '' @ decimal l @ '' args but right func has '' @ decimal r @ '' args''"
| "mismatch_display (MFuncReturn m) = ''in function return type: '' @ mismatch_display m"
| "mismatch_display (MMap is_key m) = ''in map '' @ (if is_key then ''key'' else ''value'') @ '': '' @ mismatch_display m"
| "mismatch_display (MOption m) = ''in inner option type: '' @ mismatch_display m"
| "mismatch_display (MUnion i m) = ''In type '' @ decimal (i + 1) @ '' of union: '' @ mismatch_display m"
| "mismatch_display (MUnionLength l r) =
     ''left func has '' @ decimal l @ '' args but right func has '' @ decimal r @ '' args''"
| "mismatch_display MPurity = ''assigning impure function to pure function''"

definition is_leaf_type :: "tipe \<Rightarrow> bool" where
  "is_leaf_type t \<longleftrightarrow> t \<in> {TAny, TVoid, TUint, TInt, TBool, TBytes32, TEthAddress, TBuffer, TEvery}"

definition mismatch_string :: "nat \<Rightarrow> type_tree \<Rightarrow> tipe \<Rightarrow> tipe \<Rightarrow> string option option" where
  "mismatch_string n tree self rhs =
     (case get_representation n tree self of
        None \<Rightarrow> None
      | Some (Inl e) \<Rightarrow> Some None
      | Some (Inr l) \<Rightarrow>
          (case get_representation n tree rhs of
             None \<Rightarrow> None
           | Some (Inl e) \<Rightarrow> Some None
           | Some (Inr r) \<Rightarrow>
               map_option (map_option (\<lambda>m.
                 (if is_leaf_type l \<or> is_leaf_type r then ''''
                  else newline @ ''left: '' @ type_display l @ newline @ ''right '' @ type_display r
                    @ newline @ ''First mismatch: '')
                 @ mismatch_display m))
                 (first_mismatch n tree self rhs {})))"

section \<open>Properties\<close>

lemma list_all2_eq_iff: "(\<And>x y. x \<in> set xs \<Longrightarrow> P x y \<longleftrightarrow> x = y) \<Longrightarrow> list_all2 P xs ys \<longleftrightarrow> xs = ys"
  by (induction xs arbitrary: ys) (auto simp: list_all2_Cons1)

lemma field_eq_iff: "x = y \<longleftrightarrow> field_name x = field_name y \<and> field_tipe x = field_tipe y"
  by (cases x; cases y) simp

lemma type_eq_correct: "type_eq a b \<longleftrightarrow> a = b"
proof (induction a arbitrary: b)
  case (TTuple ts)
  then show ?case by (cases b) (auto simp: list_all2_eq_iff)
next
  case (TUnion ts)
  then show ?case by (cases b) (auto simp: list_all2_eq_iff)
next
  case (TFunc i args r)
  then show ?case by (cases b) (auto simp: list_all2_eq_iff)
next
  case (TStruct fs)
  have "field_name x = field_name y \<and> type_eq (field_tipe x) (field_tipe y) \<longleftrightarrow> x = y" if "x \<in> set fs" for x y
    using TStruct [OF that, of "field_tipe x"] by (cases x; cases y) auto
  then show ?case by (cases b) (simp_all add: list_all2_eq_iff)
qed (auto split: tipe.split)

text \<open>Nominal types inside unions are not found, although they are displayed.\<close>

lemma find_nominals_skips_unions:
  "find_nominals (TUnion [TNominal p i]) = []"
  "(TNominal p i, ''bad'') \<in> snd (display_indented lvl sep prefix inc Map.empty (TUnion [TNominal p i]))"
  by simp_all

subsection \<open>Fixed arrays\<close>

fun tower :: "nat \<Rightarrow> val \<Rightarrow> val" where
  "tower 0 v = v"
| "tower (Suc d) v = value_new_tuple (replicate 8 (tower d v))"

text \<open>The number of levels above the last one.\<close>

function levels :: "nat \<Rightarrow> nat" where
  "levels n = (if n > tuple_size then Suc (levels ((n + (tuple_size - 1)) div tuple_size)) else 0)"
  by auto
termination
  by (relation "measure id") (auto simp: tuple_size_def)

declare levels.simps [simp del]

lemma tower_Suc: "tower d (value_new_tuple (replicate 8 v)) = tower (Suc d) v"
  by (induction d) auto

lemma fixed_array_default_tower:
  "0 < c \<Longrightarrow> fixed_array_default sz c v = tower (levels ((sz + (c - 1)) div c)) v"
proof (induction sz c v rule: fixed_array_default.induct)
  case (1 sz c v)
  have gt: "c * tuple_size < sz \<longleftrightarrow> tuple_size < (sz + (c - 1)) div c"
  proof -
    have "tuple_size < (sz + (c - 1)) div c \<longleftrightarrow> Suc tuple_size * c \<le> sz + (c - 1)"
      using 1(2) by (simp add: Suc_le_eq [symmetric] less_eq_div_iff_mult_less_eq)
    also have "\<dots> \<longleftrightarrow> c * tuple_size < sz" using 1(2) by (auto simp: algebra_simps)
    finally show ?thesis by simp
  qed
  have div: "((sz + (c - 1)) div c + (tuple_size - 1)) div tuple_size = (sz + (c * tuple_size - 1)) div (c * tuple_size)"
  proof -
    have "(sz + (c - 1)) div c + (tuple_size - 1) = (sz + (c - 1) + (tuple_size - 1) * c) div c"
      using 1(2) div_mult_self1 [of c "sz + (c - 1)" "tuple_size - 1"] by linarith
    also have "sz + (c - 1) + (tuple_size - 1) * c = sz + (c * tuple_size - 1)"
      using 1(2) by (simp add: tuple_size_def)
    finally show ?thesis by (simp add: div_mult2_eq)
  qed
  show ?case
  proof (cases "c * tuple_size < sz")
    case True
    then have "fixed_array_default sz c v = tower (levels ((sz + (c * 8 - 1)) div (c * 8))) (value_new_tuple (replicate 8 v))"
      using 1(1,2) by (subst fixed_array_default.simps) simp
    also have "\<dots> = tower (Suc (levels ((sz + (c * 8 - 1)) div (c * 8)))) v" by (rule tower_Suc)
    finally show ?thesis
      using True gt div by (subst levels.simps) (simp add: tuple_size_def)
  next
    case False
    then show ?thesis using gt 1(2) by (subst fixed_array_default.simps, subst levels.simps) simp
  qed
qed

lemma exec_array_step:
  assumes "length vs = 8"
  shows "exec_code ext (array_step di @ cs) (cfg m pc (IntV i # TupleV vs # s) a) =
    exec_code ext cs (cfg m (pc + 9) (IntV (i div 8) # vs ! (i mod 8) # s) a)"
proof -
  have nine: "pc + 9 = Suc (Suc (Suc (Suc (Suc (Suc (Suc (Suc (Suc pc))))))))" by simp
  have "i mod 8 < length vs" "i mod 8 < usize_limit" using assms by (simp_all add: usize_limit_def less_trans [of _ 8])
  then show ?thesis
    by (simp add: array_step_def Let_def instruction_from_opcode_def instruction_from_opcode_imm_def exec_steps
        tuple_size_def uint256_from_usize_def nine)
qed

lemma exec_array_steps:
  "i < n \<Longrightarrow> exec_code ext (array_steps n di @ [Instruction (AVM Tget) None di]) (cfg m pc (IntV i # tower (Suc (levels n)) v # s) a) =
     Done True (cfg m (pc + length (array_steps n di) + 1) (v # s) a)"
proof (induction n di arbitrary: i pc rule: array_steps.induct)
  case (1 n di)
  show ?case
  proof (cases "n > tuple_size")
    case True
    let ?n = "(n + (tuple_size - 1)) div tuple_size"
    have len: "length (array_step di) = 9" by (simp add: array_step_def Let_def)
    have "i div 8 < ?n" using 1(2) by (simp add: tuple_size_def) 
    from 1(1) [OF True this] show ?thesis
      using True 1(2) len
      by (subst array_steps.simps, subst (2) array_steps.simps, subst levels.simps)
         (simp add: value_new_tuple_def exec_array_step add.assoc)
  next
    case False
    then have "i < 8" using 1(2) by (simp add: tuple_size_def)
    moreover from this have "i < usize_limit" by (simp add: usize_limit_def)
    ultimately show ?thesis
      using False by (simp add: array_steps.simps [of n] levels.simps [of n] value_new_tuple_def exec_steps)
  qed
qed

text \<open>The default of a fixed array works with the code that reads fixed arrays: for every index below the size
  the instructions emitted for \<open>UncheckedFixedArrayGet\<close> take index and array from the stack and leave the
  default of the element type.\<close>

theorem fixed_array_default_reads_back:
  assumes "default_value kec t = Some (def, safe)" "i < sz"
  shows "\<exists>arr cs. default_value kec (TFixedArray t sz) = Some (arr, safe)
     \<and> fix_tuple_size [Instruction (UncheckedFixedArrayGet sz) None di] n = Inr cs
     \<and> exec_code ext cs (cfg m pc (IntV i # arr # s) a) = Done True (cfg m (pc + length cs) (def # s) a)"
proof -
  have tower: "fixed_array_default sz 1 (value_new_tuple (replicate 8 def)) = tower (Suc (levels sz)) def"
    by (simp add: fixed_array_default_tower tower_Suc)
  have "fix_tuple_size [Instruction (UncheckedFixedArrayGet sz) None di] n =
      Inr (array_steps sz di @ [Instruction (AVM Tget) None di])"
    by (simp add: fix_tuple_size_def fix_insn_def instruction_from_opcode_def Let_def)
  moreover have "exec_code ext (array_steps sz di @ [Instruction (AVM Tget) None di])
      (cfg m pc (IntV i # tower (Suc (levels sz)) def # s) a) =
      Done True (cfg m (pc + length (array_steps sz di @ [Instruction (AVM Tget) None di])) (def # s) a)"
    using exec_array_steps [OF assms(2)] by (simp add: add.assoc)
  ultimately show ?thesis using assms(1) tower by simp
qed

theorem fixed_array_default_reads_back_witness:
  "\<forall>ext m. \<exists>arr cs. default_value (\<lambda>b. b) (TFixedArray TUint 100) = Some (arr, True)
     \<and> fix_tuple_size [Instruction (UncheckedFixedArrayGet 100) None debug_info_default] 1 = Inr cs
     \<and> exec_code ext cs (cfg m 7 (IntV 99 # arr # []) []) = Done True (cfg m (7 + length cs) (IntV uint256_zero # []) [])"
  using fixed_array_default_reads_back [of "\<lambda>b. b" TUint "IntV uint256_zero" True 99 100 debug_info_default 1 _ _ 7 "[]" "[]"]
  by simp

end
