(* ===== verification/Subtyping.thy ===== *)
theory Subtyping
  imports Types
begin

text \<open>
  Correctness of the comparison of types (\<open>Type::assignable\<close> and \<open>Type::first_mismatch\<close> in
  \<open>src/compile/ast.rs\<close>).  The specification is structural subtyping on the possibly infinite unfoldings of
  nominal types, the greatest relation closed under the rules; the implementation follows nominal types with a
  set of pairs already assumed.
\<close>

section \<open>Resolution\<close>

lemma get_representation_mono:
  "get_representation n tree t = Some x \<Longrightarrow> n \<le> k \<Longrightarrow> get_representation k tree t = Some x"
proof (induction n tree t arbitrary: k rule: get_representation.induct)
  case (1 n tree path i)
  then show ?case by (cases n; cases k) (auto split: option.splits)
qed simp_all

lemma get_representation_det:
  "get_representation n tree t = Some x \<Longrightarrow> get_representation k tree t = Some y \<Longrightarrow> x = y"
  using get_representation_mono [of n tree t x "max n k"] get_representation_mono [of k tree t y "max n k"] by simp

text \<open>The result of resolution, whatever the fuel.\<close>

definition resolves :: "type_tree \<Rightarrow> tipe \<Rightarrow> tipe \<Rightarrow> bool" where
  "resolves tree t u \<longleftrightarrow> (\<exists>n. get_representation n tree t = Some (Inr u))"

lemma resolvesI: "get_representation n tree t = Some (Inr u) \<Longrightarrow> resolves tree t u"
  unfolding resolves_def by blast

lemma resolves_det: "resolves tree t u \<Longrightarrow> resolves tree t v \<Longrightarrow> u = v"
  unfolding resolves_def using get_representation_det by blast

lemma resolves_get: "resolves tree t u \<Longrightarrow> get_representation n tree t = Some x \<Longrightarrow> x = Inr u"
  unfolding resolves_def using get_representation_det by blast

text \<open>The result is not nominal.\<close>

definition is_nominal :: "tipe \<Rightarrow> bool" where
  "is_nominal t \<longleftrightarrow> (case t of TNominal path i \<Rightarrow> True | _ \<Rightarrow> False)"

lemma get_representation_structural: "\<not> is_nominal t \<Longrightarrow> get_representation n tree t = Some (Inr t)"
  by (cases t) (auto simp: is_nominal_def)

lemma resolves_structural [simp]: "\<not> is_nominal t \<Longrightarrow> resolves tree t u \<longleftrightarrow> u = t"
  unfolding resolves_def by (auto simp: get_representation_structural)

lemma get_representation_result: "get_representation n tree t = Some (Inr u) \<Longrightarrow> \<not> is_nominal u"
  by (induction n arbitrary: t; case_tac t) (auto simp: is_nominal_def split: option.splits)

lemma resolves_result: "resolves tree t u \<Longrightarrow> \<not> is_nominal u"
  unfolding resolves_def using get_representation_result by blast

declare get_representation.simps(1) [simp del]

section \<open>Structural subtyping\<close>

definition base_types :: "tipe set" where
  "base_types = {TVoid, TUint, TInt, TBool, TBytes32, TEthAddress, TBuffer, TEvery}"

coinductive subtype :: "type_tree \<Rightarrow> tipe \<Rightarrow> tipe \<Rightarrow> bool" for tree where
  every: "subtype tree l TEvery"
| any: "r \<noteq> TVoid \<Longrightarrow> subtype tree TAny r"
| base: "l \<in> base_types \<Longrightarrow> subtype tree l l"
| tuple: "resolves tree r (TTuple ts2) \<Longrightarrow> list_all2 (subtype tree) ts ts2 \<Longrightarrow> subtype tree (TTuple ts) r"
| array: "resolves tree r (TArray t2) \<Longrightarrow> subtype tree t t2 \<Longrightarrow> subtype tree (TArray t) r"
| fixed_array: "resolves tree r (TFixedArray t2 s) \<Longrightarrow> subtype tree t t2 \<Longrightarrow> subtype tree (TFixedArray t s) r"
| struct: "resolves tree r (TStruct fs2) \<Longrightarrow>
    list_all2 (\<lambda>a b. field_name a = field_name b \<and> subtype tree (field_tipe a) (field_tipe b)) fs fs2 \<Longrightarrow>
    subtype tree (TStruct fs) r"
| nominal: "resolves tree (TNominal p i) l' \<Longrightarrow> resolves tree r r' \<Longrightarrow> subtype tree l' r' \<Longrightarrow>
    subtype tree (TNominal p i) r"
| func: "impure \<or> \<not> impure2 \<Longrightarrow> list_all2 (subtype tree) args2 args \<Longrightarrow> subtype tree ret ret2 \<Longrightarrow>
    subtype tree (TFunc impure args ret) (TFunc impure2 args2 ret2)"
| map: "resolves tree v2 v2' \<Longrightarrow> subtype tree k1 k2 \<Longrightarrow> subtype tree v1 v2' \<Longrightarrow> subtype tree (TMap k1 v1) (TMap k2 v2)"
| option: "resolves tree r (TOption t2) \<Longrightarrow> subtype tree t t2 \<Longrightarrow> subtype tree (TOption t) r"
| union: "resolves tree r (TUnion ts2) \<Longrightarrow> list_all2 (subtype tree) ts ts2 \<Longrightarrow> subtype tree (TUnion ts) r"

section \<open>Lists of comparisons\<close>

lemma all_zip_True: "length xs = length ys \<Longrightarrow> all_zip f xs ys = Some True \<longleftrightarrow> list_all2 (\<lambda>x y. f x y = Some True) xs ys"
  by (induction f xs ys rule: all_zip.induct) (auto split: option.split)

lemma all_zip_complete:
  "list_all2 (\<lambda>x y. \<forall>b. f x y = Some b \<longrightarrow> b) xs ys \<Longrightarrow> all_zip f xs ys = Some b \<Longrightarrow> b"
  by (induction f xs ys rule: all_zip.induct) (auto split: option.splits if_splits)

lemma and_opt_True [simp]: "and_opt x y = Some True \<longleftrightarrow> x = Some True \<and> y = Some True"
  by (auto simp: and_opt_def split: option.split)

lemma type_vectors_True [simp]:
  "type_vectors_assignable f xs ys = Some True \<longleftrightarrow> list_all2 (\<lambda>x y. f x y = Some True) xs ys"
  by (auto simp: type_vectors_assignable_def all_zip_True dest: list_all2_lengthD)

lemma field_vectors_True [simp]:
  "field_vectors_assignable f xs ys = Some True \<longleftrightarrow>
     list_all2 (\<lambda>x y. f (field_tipe x) (field_tipe y) = Some True \<and> field_name x = field_name y) xs ys"
  by (auto simp: field_vectors_assignable_def all_zip_True dest: list_all2_lengthD)

lemma with_rep_True: "with_rep rep k = Some True \<longleftrightarrow> (\<exists>t. rep = Some (Inr t) \<and> k t = Some True)"
  by (auto simp: with_rep_def split: option.split sum.split)

text \<open>Matches with a single constructor that succeed.\<close>

lemma case_type_Some:
  "b \<noteq> d \<Longrightarrow> (case t of TTuple x \<Rightarrow> f x | _ \<Rightarrow> Some d) = Some b \<longleftrightarrow> (\<exists>x. t = TTuple x \<and> f x = Some b)"
  "b \<noteq> d \<Longrightarrow> (case t of TArray x \<Rightarrow> g x | _ \<Rightarrow> Some d) = Some b \<longleftrightarrow> (\<exists>x. t = TArray x \<and> g x = Some b)"
  "b \<noteq> d \<Longrightarrow> (case t of TFixedArray x y \<Rightarrow> h x y | _ \<Rightarrow> Some d) = Some b \<longleftrightarrow> (\<exists>x y. t = TFixedArray x y \<and> h x y = Some b)"
  "b \<noteq> d \<Longrightarrow> (case t of TStruct x \<Rightarrow> k x | _ \<Rightarrow> Some d) = Some b \<longleftrightarrow> (\<exists>x. t = TStruct x \<and> k x = Some b)"
  "b \<noteq> d \<Longrightarrow> (case t of TFunc x y z \<Rightarrow> q x y z | _ \<Rightarrow> Some d) = Some b \<longleftrightarrow> (\<exists>x y z. t = TFunc x y z \<and> q x y z = Some b)"
  "b \<noteq> d \<Longrightarrow> (case t of TMap x y \<Rightarrow> w x y | _ \<Rightarrow> Some d) = Some b \<longleftrightarrow> (\<exists>x y. t = TMap x y \<and> w x y = Some b)"
  "b \<noteq> d \<Longrightarrow> (case t of TOption x \<Rightarrow> g x | _ \<Rightarrow> Some d) = Some b \<longleftrightarrow> (\<exists>x. t = TOption x \<and> g x = Some b)"
  "b \<noteq> d \<Longrightarrow> (case t of TUnion x \<Rightarrow> f x | _ \<Rightarrow> Some d) = Some b \<longleftrightarrow> (\<exists>x. t = TUnion x \<and> f x = Some b)"
  by (cases t; simp)+

section \<open>Soundness\<close>

text \<open>Every assumption made on the way was itself compared with success.\<close>

inductive valid_seen :: "type_tree \<Rightarrow> (tipe \<times> tipe) set \<Rightarrow> bool" for tree where
  empty: "valid_seen tree {}"
| insert: "valid_seen tree seen \<Longrightarrow> assignable n tree l r (insert (l, r) seen) = Some True \<Longrightarrow>
    valid_seen tree (insert (l, r) seen)"

definition accepted :: "type_tree \<Rightarrow> tipe \<Rightarrow> tipe \<Rightarrow> bool" where
  "accepted tree l r \<longleftrightarrow> (\<exists>n seen. valid_seen tree seen \<and> assignable n tree l r seen = Some True)"

lemma acceptedI: "valid_seen tree seen \<Longrightarrow> assignable n tree l r seen = Some True \<Longrightarrow> accepted tree l r"
  unfolding accepted_def by blast

lemma valid_seen_accepted: "valid_seen tree seen \<Longrightarrow> (l, r) \<in> seen \<Longrightarrow> accepted tree l r"
  by (induction rule: valid_seen.induct) (auto intro: acceptedI valid_seen.insert)

lemma accepted_list:
  "valid_seen tree seen \<Longrightarrow> list_all2 (\<lambda>x y. assignable n tree x y seen = Some True) xs ys \<Longrightarrow>
   list_all2 (\<lambda>x y. accepted tree x y \<or> subtype tree x y) xs ys"
  by (erule list_all2_mono) (blast intro: acceptedI)

lemma accepted_fields:
  "valid_seen tree seen \<Longrightarrow>
   list_all2 (\<lambda>x y. assignable n tree (field_tipe x) (field_tipe y) seen = Some True \<and> field_name x = field_name y) xs ys \<Longrightarrow>
   list_all2 (\<lambda>x y. field_name x = field_name y \<and>
     (accepted tree (field_tipe x) (field_tipe y) \<or> subtype tree (field_tipe x) (field_tipe y))) xs ys"
  by (erule list_all2_mono) (blast intro: acceptedI)

lemma accepted_subtype: "accepted tree l r \<Longrightarrow> subtype tree l r"
proof (coinduction arbitrary: l r rule: subtype.coinduct)
  case subtype
  then obtain n seen where v: "valid_seen tree seen" and a: "assignable n tree l r seen = Some True"
    unfolding accepted_def by blast
  then obtain n' where n: "n = Suc n'" by (cases n) auto
  note acc = acceptedI [OF v] accepted_list [OF v] accepted_fields [OF v]
  show ?case
  proof (cases "r = TEvery")
    case False
    show ?thesis
    proof (cases l)
      case (TNominal p i)
      with a n False obtain l' r' where rep: "get_representation n' tree (TNominal p i) = Some (Inr l')" "get_representation n' tree r = Some (Inr r')"
        and "(l', r') \<notin> seen \<Longrightarrow> assignable n' tree l' r' (insert (l', r') seen) = Some True"
        by (auto simp: assignable_body_def split: option.splits sum.splits if_splits)
      then have "accepted tree l' r'"
        using valid_seen_accepted [OF v] acceptedI valid_seen.insert [OF v] by blast
      with rep [THEN resolvesI] TNominal show ?thesis by auto
    next
      case (TMap k1 v1)
      with a n False obtain k2 v2 v2' where "r = TMap k2 v2" "get_representation n' tree v2 = Some (Inr v2')"
        "assignable n' tree k1 k2 seen = Some True" "assignable n' tree v1 v2' seen = Some True"
        by (auto simp: assignable_body_def with_rep_True case_type_Some)
      moreover from this have "resolves tree v2 v2'" "accepted tree k1 k2" "accepted tree v1 v2'"
        using acc(1) resolvesI by blast+
      ultimately show ?thesis using TMap by auto
    qed (use a n False acc in \<open>auto simp: assignable_body_def with_rep_True base_types_def case_type_Some split: if_splits intro: resolvesI\<close>)
  qed simp
qed

section \<open>Completeness\<close>

lemma type_vectors_complete:
  assumes "list_all2 (subtype tree) xs ys" "\<And>x y b. subtype tree x y \<Longrightarrow> f x y = Some b \<Longrightarrow> b"
    "type_vectors_assignable f xs ys = Some b"
  shows b
  using assms(3) all_zip_complete [OF list_all2_mono [OF assms(1)], of f] assms(2) list_all2_lengthD [OF assms(1)]
  by (auto simp: type_vectors_assignable_def)

lemma and_opt_complete: "(\<And>b. x = Some b \<Longrightarrow> b) \<Longrightarrow> (\<And>b. y = Some b \<Longrightarrow> b) \<Longrightarrow> and_opt x y = Some b \<Longrightarrow> b"
  by (auto simp: and_opt_def split: option.splits if_splits)

lemma field_vectors_complete:
  assumes "list_all2 (\<lambda>a b. field_name a = field_name b \<and> subtype tree (field_tipe a) (field_tipe b)) xs ys"
    "\<And>x y b. subtype tree x y \<Longrightarrow> f x y = Some b \<Longrightarrow> b" "field_vectors_assignable f xs ys = Some b"
  shows b
proof -
  have "list_all2 (\<lambda>x y. \<forall>b. and_opt (f (field_tipe x) (field_tipe y)) (Some (field_name x = field_name y)) = Some b \<longrightarrow> b) xs ys"
    using assms(1) by (rule list_all2_mono) (use assms(2) and_opt_complete in blast)
  then show ?thesis
    using assms(3) list_all2_lengthD [OF assms(1)] all_zip_complete by (auto simp: field_vectors_assignable_def)
qed

lemma with_rep_complete:
  assumes "resolves tree r u" "\<And>b. k u = Some b \<Longrightarrow> b" "with_rep (get_representation n tree r) k = Some b"
  shows b
  using assms(3,2) resolves_get [OF assms(1), of n] by (auto simp: with_rep_def split: option.splits sum.splits)

lemma subtype_accepted: "subtype tree l r \<Longrightarrow> assignable n tree l r seen = Some b \<Longrightarrow> b"
proof (induction n arbitrary: l r seen b)
  case (Suc n)
  have IH: "\<And>x y b. subtype tree x y \<Longrightarrow> assignable n tree x y seen = Some b \<Longrightarrow> b" for seen
    using Suc.IH by blast
  have vec: "list_all2 (subtype tree) xs ys \<Longrightarrow>
      type_vectors_assignable (\<lambda>t1 t2. assignable n tree t1 t2 seen) xs ys = Some b \<Longrightarrow> b" for xs ys b
    by (rule type_vectors_complete [OF _ IH])
  have fld: "list_all2 (\<lambda>a b. field_name a = field_name b \<and> subtype tree (field_tipe a) (field_tipe b)) xs ys \<Longrightarrow>
      field_vectors_assignable (\<lambda>t1 t2. assignable n tree t1 t2 seen) xs ys = Some b \<Longrightarrow> b" for xs ys b
    by (rule field_vectors_complete [OF _ IH])
  show ?case
  proof (cases "r = TEvery")
    case False
    with Suc.prems(1) show ?thesis
    proof (cases rule: subtype.cases)
      case (nominal p i l' r')
      then show ?thesis
        using Suc.prems(2) False resolves_get [of tree l l' n] resolves_get [of tree r r' n] IH [of l' r']
        by (cases "get_representation n tree l"; cases "get_representation n tree r")
           (auto simp: assignable_body_def split: if_splits)
    next
      case (func impure impure2 args2 args ret ret2)
      then show ?thesis
        using Suc.prems(2) IH vec [OF func(4)]
        by (auto simp: assignable_body_def elim!: and_opt_complete [rotated 2])
    next
      case (map v2 v2' k1 k2 v1)
      then show ?thesis
        using Suc.prems(2) IH by (auto simp: assignable_body_def elim!: with_rep_complete [rotated 2] and_opt_complete [rotated 2])
    qed (use False Suc.prems(2) IH in \<open>auto simp: assignable_body_def base_types_def elim!: with_rep_complete [rotated 2]
        dest: vec fld split: if_splits\<close>)
  qed (use Suc.prems(2) in \<open>simp add: assignable_body_def\<close>)
qed simp

section \<open>Termination without function types\<close>

lemma and_opt_None [simp]: "and_opt (Some b) (Some c) = Some (b \<and> c)"
  by (simp add: and_opt_def)

lemma all_zip_mono:
  "all_zip f xs ys = Some b \<Longrightarrow> (\<And>x y b. f x y = Some b \<Longrightarrow> g x y = Some b) \<Longrightarrow> all_zip g xs ys = Some b"
  by (induction f xs ys rule: all_zip.induct) (fastforce split: option.splits if_splits)+

lemma and_opt_mono:
  "and_opt x y = Some b \<Longrightarrow> (\<And>b. x = Some b \<Longrightarrow> x' = Some b) \<Longrightarrow> (\<And>b. y = Some b \<Longrightarrow> y' = Some b) \<Longrightarrow> and_opt x' y' = Some b"
  by (fastforce simp: and_opt_def split: option.splits if_splits)

lemma type_vectors_mono:
  "type_vectors_assignable f xs ys = Some b \<Longrightarrow> (\<And>x y b. f x y = Some b \<Longrightarrow> g x y = Some b) \<Longrightarrow>
   type_vectors_assignable g xs ys = Some b"
  unfolding type_vectors_assignable_def using all_zip_mono [of f xs ys b g] by (auto split: if_splits)

lemma field_vectors_mono:
  "field_vectors_assignable f xs ys = Some b \<Longrightarrow> (\<And>x y b. f x y = Some b \<Longrightarrow> g x y = Some b) \<Longrightarrow>
   field_vectors_assignable g xs ys = Some b"
  unfolding field_vectors_assignable_def
  by (auto split: if_splits elim!: all_zip_mono and_opt_mono)

lemma with_rep_mono:
  "with_rep x k = Some b \<Longrightarrow> (\<And>u. x = Some u \<Longrightarrow> x' = Some u) \<Longrightarrow> (\<And>u b. k u = Some b \<Longrightarrow> k' u = Some b) \<Longrightarrow>
   with_rep x' k' = Some b"
  by (force simp: with_rep_def split: option.splits sum.splits)

lemma assignable_body_mono:
  assumes "assignable_body rep f l r seen = Some b"
    and rep: "\<And>t x. rep t = Some x \<Longrightarrow> rep' t = Some x"
    and f: "\<And>x y s b. f x y s = Some b \<Longrightarrow> f' x y s = Some b"
  shows "assignable_body rep' f' l r seen = Some b"
proof (cases "r = TEvery")
  case False
  show ?thesis
  proof (cases l)
    case (TNominal p i)
    then show ?thesis
      using assms(1) False rep [of l] rep [of r] f
      by (cases "rep l"; cases "rep r") (auto simp: assignable_body_def split: sum.splits if_splits)
  next
    case (TMap k1 v1)
    then show ?thesis
      using assms(1) False by (cases r) (auto simp: assignable_body_def intro: rep f elim!: with_rep_mono and_opt_mono)
  next
    case (TFunc i args ret)
    then show ?thesis
      using assms(1) False
      by (cases r) (auto simp: assignable_body_def split: if_splits elim!: and_opt_mono type_vectors_mono intro: f)
  qed (use assms(1) False in \<open>auto simp: assignable_body_def elim!: with_rep_mono type_vectors_mono field_vectors_mono
      intro: rep f split: tipe.splits if_splits\<close>)
qed (use assms(1) in \<open>simp add: assignable_body_def\<close>)

lemma assignable_mono: "assignable n tree l r seen = Some b \<Longrightarrow> n \<le> k \<Longrightarrow> assignable k tree l r seen = Some b"
proof (induction n arbitrary: k l r seen b)
  case (Suc n)
  then obtain k' where k: "k = Suc k'" "n \<le> k'" by (cases k) auto
  show ?case
    using Suc.prems(1) unfolding k assignable.simps
    by (rule assignable_body_mono) (use k(2) Suc.IH get_representation_mono in blast)+
qed simp

text \<open>All types that occur in a type.\<close>

lemma size_mem: "u \<in> set ts \<Longrightarrow> size_class.size (u :: tipe) \<le> size_list size_class.size ts"
  by (erule size_list_estimation') simp

lemma size_child_nodes:
  assumes "u \<in> set (type_child_nodes t)"
  shows "size_class.size u < size_class.size t"
proof (cases t)
  case (TStruct flds)
  then obtain f where "f \<in> set flds" "u = field_tipe f" using assms by auto
  with TStruct size_field_tipe show ?thesis by simp
next
  case (TFunc impure args ret)
  with assms size_mem [of u args] show ?thesis by auto
qed (use assms in \<open>simp_all add: less_Suc_eq_le size_mem\<close>, use assms in auto)

function all_types :: "tipe \<Rightarrow> tipe list" where
  "all_types t = t # concat (map all_types (type_child_nodes t))"
  by auto
termination
  by (relation "measure size_class.size") (auto dest: size_child_nodes)

declare all_types.simps [simp del]

lemma all_types_self [simp]: "t \<in> set (all_types t)"
  by (subst all_types.simps) simp

lemma all_types_child: "u \<in> set (all_types t) \<Longrightarrow> v \<in> set (type_child_nodes u) \<Longrightarrow> v \<in> set (all_types t)"
proof (induction t rule: all_types.induct)
  case (1 t)
  then show ?case
  proof (cases "u = t")
    case True
    then show ?thesis using 1(3) by (subst all_types.simps) (auto intro: bexI [of _ v])
  next
    case False
    then obtain w where "w \<in> set (type_child_nodes t)" "u \<in> set (all_types w)"
      using 1(2) by (subst (asm) all_types.simps) auto
    then show ?thesis using 1(1,3) by (subst all_types.simps) auto
  qed
qed

text \<open>Results that no longer change once there is enough fuel.\<close>

definition settles :: "(nat \<Rightarrow> 'a option) \<Rightarrow> bool" where
  "settles f \<longleftrightarrow> (\<exists>x. eventually (\<lambda>n. f n = Some x) sequentially)"

lemma settlesI: "eventually (\<lambda>n. f n = Some x) sequentially \<Longrightarrow> settles f"
  unfolding settles_def by blast

lemma settles_const [simp]: "settles (\<lambda>n. Some x)"
  unfolding settles_def by simp

lemma settles_mono: "(\<And>n k x. f n = Some x \<Longrightarrow> n \<le> k \<Longrightarrow> f k = Some x) \<Longrightarrow> f n = Some x \<Longrightarrow> settles f"
  by (rule settlesI, rule eventually_sequentiallyI [of n]) blast

lemma settles_if [simp]: "settles (\<lambda>n. if b then f n else g n) \<longleftrightarrow> (if b then settles f else settles g)"
  by simp

lemma settles_case [intro]:
  "(\<And>x. t = TTuple x \<Longrightarrow> settles (\<lambda>n. f n x)) \<Longrightarrow> settles (\<lambda>n. case t of TTuple x \<Rightarrow> f n x | _ \<Rightarrow> Some a)"
  "(\<And>x. t = TArray x \<Longrightarrow> settles (\<lambda>n. g n x)) \<Longrightarrow> settles (\<lambda>n. case t of TArray x \<Rightarrow> g n x | _ \<Rightarrow> Some a)"
  "(\<And>x y. t = TFixedArray x y \<Longrightarrow> settles (\<lambda>n. h n x y)) \<Longrightarrow> settles (\<lambda>n. case t of TFixedArray x y \<Rightarrow> h n x y | _ \<Rightarrow> Some a)"
  "(\<And>x. t = TStruct x \<Longrightarrow> settles (\<lambda>n. k n x)) \<Longrightarrow> settles (\<lambda>n. case t of TStruct x \<Rightarrow> k n x | _ \<Rightarrow> Some a)"
  "(\<And>x. t = TOption x \<Longrightarrow> settles (\<lambda>n. g n x)) \<Longrightarrow> settles (\<lambda>n. case t of TOption x \<Rightarrow> g n x | _ \<Rightarrow> Some a)"
  "(\<And>x. t = TUnion x \<Longrightarrow> settles (\<lambda>n. f n x)) \<Longrightarrow> settles (\<lambda>n. case t of TUnion x \<Rightarrow> f n x | _ \<Rightarrow> Some a)"
  by (cases t; simp)+

lemma settles_Suc: "settles (\<lambda>n. f (Suc n)) \<Longrightarrow> settles f"
proof -
  assume "settles (\<lambda>n. f (Suc n))"
  then obtain x where "eventually (\<lambda>n. f (Suc n) = Some x) sequentially" unfolding settles_def by (elim exE)
  then have "eventually (\<lambda>n. f n = Some x) sequentially"
    by (rule eventually_sequentially_Suc [where P = "\<lambda>n. f n = Some x", THEN iffD1])
  then show ?thesis by (rule settlesI)
qed

lemma settles_and: "settles f \<Longrightarrow> settles g \<Longrightarrow> settles (\<lambda>n. and_opt (f n) (g n))"
proof (unfold settles_def, elim exE)
  fix x y assume "eventually (\<lambda>n. f n = Some x) sequentially" "eventually (\<lambda>n. g n = Some y) sequentially"
  then have "eventually (\<lambda>n. and_opt (f n) (g n) = Some (x \<and> y)) sequentially" by eventually_elim simp
  then show "\<exists>x. eventually (\<lambda>n. and_opt (f n) (g n) = Some x) sequentially" by blast
qed

lemma settles_all_zip:
  "(\<And>x y. x \<in> set xs \<Longrightarrow> y \<in> set ys \<Longrightarrow> settles (\<lambda>n. f n x y)) \<Longrightarrow> settles (\<lambda>n. all_zip (f n) xs ys)"
proof (induction xs arbitrary: ys)
  case (Cons x xs)
  show ?case
  proof (cases ys)
    case (Cons y ys')
    with Cons.IH [of ys'] Cons.prems have "settles (\<lambda>n. all_zip (f n) xs ys')" by simp
    moreover have "settles (\<lambda>n. f n x y)" using Cons.prems Cons by simp
    ultimately have "settles (\<lambda>n. and_opt (f n x y) (all_zip (f n) xs ys'))" by (intro settles_and)
    then show ?thesis using Cons by (simp add: and_opt_def)
  qed simp
qed simp

lemma settles_type_vectors:
  "(\<And>x y. x \<in> set xs \<Longrightarrow> y \<in> set ys \<Longrightarrow> settles (\<lambda>n. f n x y)) \<Longrightarrow> settles (\<lambda>n. type_vectors_assignable (f n) xs ys)"
  unfolding type_vectors_assignable_def using settles_all_zip [of xs ys f] by (cases "length xs = length ys") simp_all

lemma settles_field_vectors:
  "(\<And>x y. x \<in> set xs \<Longrightarrow> y \<in> set ys \<Longrightarrow> settles (\<lambda>n. f n (field_tipe x) (field_tipe y))) \<Longrightarrow>
   settles (\<lambda>n. field_vectors_assignable (f n) xs ys)"
  unfolding field_vectors_assignable_def
  by (cases "length xs = length ys") (simp_all add: settles_all_zip settles_and)

lemma settles_with_rep:
  assumes "settles f" "\<And>t. (\<exists>n. f n = Some (Inr t)) \<Longrightarrow> settles (\<lambda>n. k n t)"
  shows "settles (\<lambda>n. with_rep (f n) (k n))"
proof -
  obtain x where x: "eventually (\<lambda>n. f n = Some x) sequentially" using assms(1) unfolding settles_def by blast
  show ?thesis
  proof (cases x)
    case (Inl e)
    then show ?thesis using x by (intro settlesI) (auto elim!: eventually_mono simp: with_rep_def)
  next
    case (Inr t)
    have "\<exists>n. f n = Some (Inr t)" using x Inr by (auto simp: eventually_sequentially)
    then obtain b where "eventually (\<lambda>n. k n t = Some b) sequentially" using assms(2) unfolding settles_def by blast
    with x have "eventually (\<lambda>n. with_rep (f n) (k n) = Some b) sequentially"
      by eventually_elim (simp add: with_rep_def Inr)
    then show ?thesis by (rule settlesI)
  qed
qed

text \<open>The universe of a comparison: finitely many types, closed under children and under definitions.\<close>

definition universe :: "type_tree \<Rightarrow> tipe set \<Rightarrow> bool" where
  "universe tree U \<longleftrightarrow>
     finite U \<and> (\<forall>t \<in> U. set (type_child_nodes t) \<subseteq> U) \<and> (\<forall>k t name. tree k = Some (t, name) \<longrightarrow> t \<in> U)
     \<and> (\<forall>t \<in> U. settles (\<lambda>n. get_representation n tree t)) \<and> (\<forall>impure args ret. TFunc impure args ret \<notin> U)"

lemma universe_rep:
  "universe tree U \<Longrightarrow> t \<in> U \<Longrightarrow> get_representation n tree t = Some (Inr u) \<Longrightarrow> u \<in> U"
proof (induction n arbitrary: t)
  case (Suc n)
  have "\<And>k t name. tree k = Some (t, name) \<Longrightarrow> t \<in> U" using Suc.prems(1) unfolding universe_def by blast
  note def = this
  show ?case
  proof (cases "is_nominal t")
    case True
    then obtain p i a nm where "tree (p, i) = Some (a, nm)" "get_representation n tree a = Some (Inr u)"
      using Suc.prems(3) by (cases t) (auto simp: is_nominal_def get_representation.simps(1) split: option.splits)
    then show ?thesis using def Suc.IH Suc.prems(1) by blast
  next
    case False
    then show ?thesis using Suc.prems(2,3) by (simp add: get_representation_structural)
  qed
qed (case_tac t; simp add: get_representation.simps(1))

lemma settles_cong: "eventually (\<lambda>n. f n = g n) sequentially \<Longrightarrow> settles g \<Longrightarrow> settles f"
  unfolding settles_def by (elim exE, rule exI) (erule (1) eventually_elim2, simp)

lemma assignable_settles:
  assumes U: "universe tree U"
  shows "l \<in> U \<Longrightarrow> r \<in> U \<Longrightarrow> settles (\<lambda>n. assignable n tree l r seen)"
proof (induction "(seen, l)" arbitrary: seen l r
    rule: wf_induct [OF wf_measures [of "[\<lambda>(seen, l). card (U \<times> U - seen), \<lambda>(seen, l). size_class.size l]"]])
  case 1
  have fin: "finite (U \<times> U)" using U by (simp add: universe_def)
  have child: "settles (\<lambda>n. assignable n tree t1 t2 seen)" if "t1 \<in> set (type_child_nodes l)" "t2 \<in> U" for t1 t2
  proof -
    have "t1 \<in> U" using that(1) U \<open>l \<in> U\<close> by (auto simp: universe_def)
    then show ?thesis using that size_child_nodes [OF that(1)] 1(1) by simp
  qed
  have deep: "settles (\<lambda>n. assignable n tree l' r' (insert (l', r') seen))" if "(l', r') \<notin> seen" "l' \<in> U" "r' \<in> U" for l' r'
  proof -
    have "card (U \<times> U - insert (l', r') seen) < card (U \<times> U - seen)"
      using that fin by (intro psubset_card_mono) auto
    then show ?thesis using that 1(1) by simp
  qed
  have rep: "settles (\<lambda>n. get_representation n tree t)" if "t \<in> U" for t
    using U that by (simp add: universe_def)
  have kids: "x \<in> U" if "u \<in> U" "x \<in> set (type_child_nodes u)" for u x
    using U that by (auto simp: universe_def)
  have rkids: "set (type_child_nodes u) \<subseteq> U" if "get_representation n tree r = Some (Inr u)" for n u
    using kids universe_rep [OF U 1(3) that] by blast
  have "settles (\<lambda>n. assignable_body (get_representation n tree) (assignable n tree) l r seen)"
  proof (cases "r = TEvery")
    case False
    show ?thesis
    proof (cases l)
      case (TNominal p i)
      obtain x y where x: "eventually (\<lambda>n. get_representation n tree l = Some x) sequentially"
        and y: "eventually (\<lambda>n. get_representation n tree r = Some y) sequentially"
        using rep [OF 1(2)] rep [OF 1(3)] unfolding settles_def by blast
      let ?k = "\<lambda>n. case (x, y) of
          (Inr l', Inr r') \<Rightarrow> if (l', r') \<notin> seen then assignable n tree l' r' (insert (l', r') seen) else Some True
        | _ \<Rightarrow> Some False"
      have "x = Inr t \<Longrightarrow> t \<in> U" "y = Inr t \<Longrightarrow> t \<in> U" for t
        using x y universe_rep [OF U 1(2)] universe_rep [OF U 1(3)] by (auto simp: eventually_sequentially)
      then have "settles ?k" using deep by (cases x; cases y) auto
      moreover have "eventually (\<lambda>n. assignable_body (get_representation n tree) (assignable n tree) l r seen = ?k n) sequentially"
        using x y by eventually_elim (use TNominal False in \<open>auto simp: assignable_body_def split: sum.split\<close>)
      ultimately show ?thesis by (rule settles_cong [rotated])
    next
      case (TMap k1 v1)
      show ?thesis
      proof (cases "\<exists>k2 v2. r = TMap k2 v2")
        case True
        then obtain k2 v2 where r: "r = TMap k2 v2" by blast
        then have "k2 \<in> U" "v2 \<in> U" using kids [OF 1(3)] by simp_all
        then have "settles (\<lambda>n. with_rep (get_representation n tree v2)
            (\<lambda>v2. and_opt (assignable n tree k1 k2 seen) (assignable n tree v1 v2 seen)))"
          using TMap universe_rep [OF U] by (intro settles_with_rep settles_and rep child) auto
        then show ?thesis using TMap r by (simp add: assignable_body_def)
      qed (use False TMap in \<open>cases r; simp add: assignable_body_def\<close>)
    next
      case (TFunc impure args ret)
      then show ?thesis using 1(2) U by (auto simp: universe_def)
    qed (use False in \<open>auto simp: assignable_body_def intro!: settles_with_rep settles_case rep 1(3) settles_type_vectors
        settles_field_vectors child dest!: rkids\<close>)
  qed (simp add: assignable_body_def)
  then show ?case by (intro settles_Suc [of "\<lambda>n. assignable n tree l r seen"]) simp
qed

definition func_free :: "tipe \<Rightarrow> bool" where
  "func_free t \<longleftrightarrow> list_all (\<lambda>u. case u of TFunc impure args ret \<Rightarrow> False | _ \<Rightarrow> True) (all_types t)"

text \<open>A finite type tree without function types, in which every chain of nominal types ends.\<close>

definition type_tree_ok :: "type_tree \<Rightarrow> bool" where
  "type_tree_ok tree \<longleftrightarrow>
     finite (dom tree) \<and> (\<forall>k t name. tree k = Some (t, name) \<longrightarrow> func_free t)
     \<and> (\<forall>t. \<exists>n x. get_representation n tree t = Some x)"

lemma func_free_universe:
  assumes "type_tree_ok tree" "func_free l" "func_free r"
  shows "universe tree (\<Union> (set ` all_types ` ({l, r} \<union> fst ` ran tree)))"
  unfolding universe_def
proof (intro conjI ballI allI impI)
  have "finite (ran tree)" using assms(1) by (simp add: type_tree_ok_def finite_ran)
  then show "finite (\<Union> (set ` all_types ` ({l, r} \<union> fst ` ran tree)))" by simp
  have ff: "func_free t" if "t \<in> {l, r} \<union> fst ` ran tree" for t
  proof (cases "t \<in> fst ` ran tree")
    case True
    then obtain k name where "tree k = Some (t, name)" unfolding ran_def by force
    then show ?thesis using assms(1) unfolding type_tree_ok_def by blast
  qed (use that assms in auto)
  fix impure args ret
  show "TFunc impure args ret \<notin> \<Union> (set ` all_types ` ({l, r} \<union> fst ` ran tree))"
  proof
    assume "TFunc impure args ret \<in> \<Union> (set ` all_types ` ({l, r} \<union> fst ` ran tree))"
    then obtain t where t: "t \<in> {l, r} \<union> fst ` ran tree" "TFunc impure args ret \<in> set (all_types t)" by blast
    from ff [OF t(1)] have "case TFunc impure args ret of TFunc impure args ret \<Rightarrow> False | _ \<Rightarrow> True"
      unfolding func_free_def list_all_iff using t(2) by (rule bspec)
    then show False by simp
  qed
next
  fix t assume "t \<in> \<Union> (set ` all_types ` ({l, r} \<union> fst ` ran tree))"
  then show "set (type_child_nodes t) \<subseteq> \<Union> (set ` all_types ` ({l, r} \<union> fst ` ran tree))"
    using all_types_child by blast
  obtain n x where "get_representation n tree t = Some x" using assms(1) unfolding type_tree_ok_def by blast
  then show "settles (\<lambda>n. get_representation n tree t)"
    using settles_mono [of "\<lambda>n. get_representation n tree t"] get_representation_mono by blast
next
  fix k t name assume "tree k = Some (t, name)"
  then have "t \<in> fst ` ran tree" by (metis ranI fst_conv imageI)
  then show "t \<in> \<Union> (set ` all_types ` ({l, r} \<union> fst ` ran tree))" using all_types_self by blast
qed

section \<open>The first mismatch\<close>

lemma or_mismatch_None [simp]: "or_mismatch x k = Some None \<longleftrightarrow> x = Some None \<and> k = Some None"
  by (auto simp: or_mismatch_def split: option.split)

lemma or_mismatch_Some: "or_mismatch x k = Some (Some e) \<longleftrightarrow> x = Some (Some e) \<or> x = Some None \<and> k = Some (Some e)"
  by (auto simp: or_mismatch_def split: option.splits)

lemma zip_mismatch_None:
  "length xs = length ys \<Longrightarrow> zip_mismatch f wrap i xs ys = Some None \<longleftrightarrow> list_all2 (\<lambda>x y. f x y = Some None) xs ys"
  by (induction f wrap i xs ys rule: zip_mismatch.induct) (auto split: option.split)

lemma zip_mismatch_complete:
  "list_all2 (\<lambda>x y. \<forall>e. f x y \<noteq> Some (Some e)) xs ys \<Longrightarrow> zip_mismatch f wrap i xs ys \<noteq> Some (Some e)"
  by (induction f wrap i xs ys rule: zip_mismatch.induct) (auto split: option.splits)

lemma zip_field_mismatch_None:
  "length xs = length ys \<Longrightarrow> zip_field_mismatch f xs ys = Some None \<longleftrightarrow>
     list_all2 (\<lambda>x y. f (field_tipe x) (field_tipe y) = Some None \<and> field_name x = field_name y) xs ys"
  by (induction f xs ys rule: zip_field_mismatch.induct) (auto split: option.split)

lemma field_mismatch_None:
  "field_vectors_mismatch f xs ys = Some None \<longleftrightarrow>
     list_all2 (\<lambda>x y. f (field_tipe x) (field_tipe y) = Some None \<and> field_name x = field_name y) xs ys"
  using zip_field_mismatch_None [of xs ys f] by (auto simp: field_vectors_mismatch_def dest: list_all2_lengthD)

lemma with_rep_mismatch_None:
  "with_rep_mismatch rep m k = Some None \<longleftrightarrow> (\<exists>t. rep = Some (Inr t) \<and> k t = Some None)"
  by (auto simp: with_rep_mismatch_def split: option.split sum.split)

text \<open>The tree and the type on the left have no function types.\<close>

lemma func_free_children: "func_free t \<Longrightarrow> u \<in> set (type_child_nodes t) \<Longrightarrow> func_free u"
proof -
  assume t: "func_free t" and u: "u \<in> set (type_child_nodes t)"
  have "set (all_types u) \<subseteq> set (all_types t)" using u by (subst (2) all_types.simps) auto
  with t show ?thesis unfolding func_free_def list_all_iff by blast
qed

definition func_free_tree :: "type_tree \<Rightarrow> bool" where
  "func_free_tree tree \<longleftrightarrow> (\<forall>k t name. tree k = Some (t, name) \<longrightarrow> func_free t)"

lemma func_free_rep:
  "func_free_tree tree \<Longrightarrow> func_free t \<Longrightarrow> get_representation n tree t = Some (Inr u) \<Longrightarrow> func_free u"
proof (induction n arbitrary: t)
  case (Suc n)
  show ?case
  proof (cases "is_nominal t")
    case True
    then obtain p i a nm where "tree (p, i) = Some (a, nm)" "get_representation n tree a = Some (Inr u)"
      using Suc.prems(3) by (cases t) (auto simp: is_nominal_def get_representation.simps(1) split: option.splits)
    then show ?thesis using Suc.IH Suc.prems(1) unfolding func_free_tree_def by blast
  qed (use Suc.prems in \<open>simp add: get_representation_structural\<close>)
qed (case_tac t; simp add: get_representation.simps(1))

lemma func_free_not_func [simp]: "\<not> func_free (TFunc impure args ret)"
  by (simp add: func_free_def list_all_iff bexI [of _ "TFunc impure args ret"])

inductive matched_seen :: "type_tree \<Rightarrow> (tipe \<times> tipe) set \<Rightarrow> bool" for tree where
  empty: "matched_seen tree {}"
| insert: "matched_seen tree seen \<Longrightarrow> resolves tree l l' \<Longrightarrow> resolves tree r r' \<Longrightarrow>
    first_mismatch n tree l' r' (insert (l, r) seen) = Some None \<Longrightarrow> matched_seen tree (insert (l, r) seen)"

definition matched :: "type_tree \<Rightarrow> tipe \<Rightarrow> tipe \<Rightarrow> bool" where
  "matched tree l r \<longleftrightarrow> func_free l \<and> (\<exists>n seen. matched_seen tree seen \<and> first_mismatch n tree l r seen = Some None)"

lemma matchedI: "func_free l \<Longrightarrow> matched_seen tree seen \<Longrightarrow> first_mismatch n tree l r seen = Some None \<Longrightarrow> matched tree l r"
  unfolding matched_def by blast

lemma matched_seen_matched:
  "matched_seen tree seen \<Longrightarrow> (l, r) \<in> seen \<Longrightarrow> resolves tree l l' \<Longrightarrow> resolves tree r r' \<Longrightarrow> func_free l' \<Longrightarrow> matched tree l' r'"
proof (induction rule: matched_seen.induct)
  case (insert seen a a' b b' n)
  show ?case
  proof (cases "(l, r) = (a, b)")
    case True
    then have "l' = a'" "r' = b'" using insert.prems insert.hyps resolves_det by blast+
    then show ?thesis using insert.hyps insert.prems(4) matched_seen.insert matchedI by blast
  qed (use insert in blast)
qed simp

lemma case_type_mismatch:
  "(case t of TTuple x \<Rightarrow> f x | _ \<Rightarrow> Some (Some m)) = Some None \<longleftrightarrow> (\<exists>x. t = TTuple x \<and> f x = Some None)"
  "(case t of TArray x \<Rightarrow> g x | _ \<Rightarrow> Some (Some m)) = Some None \<longleftrightarrow> (\<exists>x. t = TArray x \<and> g x = Some None)"
  "(case t of TFixedArray x y \<Rightarrow> h x y | _ \<Rightarrow> Some (Some m)) = Some None \<longleftrightarrow> (\<exists>x y. t = TFixedArray x y \<and> h x y = Some None)"
  "(case t of TStruct x \<Rightarrow> k x | _ \<Rightarrow> Some (Some m)) = Some None \<longleftrightarrow> (\<exists>x. t = TStruct x \<and> k x = Some None)"
  "(case t of TMap x y \<Rightarrow> w x y | _ \<Rightarrow> Some (Some m)) = Some None \<longleftrightarrow> (\<exists>x y. t = TMap x y \<and> w x y = Some None)"
  "(case t of TOption x \<Rightarrow> g x | _ \<Rightarrow> Some (Some m)) = Some None \<longleftrightarrow> (\<exists>x. t = TOption x \<and> g x = Some None)"
  "(case t of TUnion x \<Rightarrow> f x | _ \<Rightarrow> Some (Some m)) = Some None \<longleftrightarrow> (\<exists>x. t = TUnion x \<and> f x = Some None)"
  by (simp_all add: case_type_Some)

lemma matched_subtype:
  assumes tree: "func_free_tree tree"
  shows "matched tree l r \<Longrightarrow> subtype tree l r"
proof (coinduction arbitrary: l r rule: subtype.coinduct)
  case subtype
  then obtain n seen where v: "matched_seen tree seen" and a: "first_mismatch n tree l r seen = Some None" and ff: "func_free l"
    unfolding matched_def by blast
  then obtain n' where n: "n = Suc n'" by (cases n) auto
  note kids = func_free_children [OF ff]
  note m = a [unfolded n first_mismatch.simps first_mismatch_body_def]
  have mat: "matched tree x y" if "x \<in> set (type_child_nodes l)" "first_mismatch n' tree x y seen = Some None" for x y
    using matchedI [OF kids v] that by blast
  have lists: "list_all2 (\<lambda>x y. matched tree x y \<or> subtype tree x y) xs ys"
    if "zip_mismatch (\<lambda>l r. first_mismatch n' tree l r seen) wrap 0 xs ys = Some None" "length xs = length ys"
      "set xs \<subseteq> set (type_child_nodes l)" for xs ys wrap
    by (rule list.rel_mono_strong [OF zip_mismatch_None [OF that(2), THEN iffD1, OF that(1)]]) (use that mat in auto)
  show ?case
  proof (cases "r = TEvery")
    case False
    show ?thesis
    proof (cases l)
      case (TNominal p i)
      with m False obtain l' r' where rep: "get_representation n' tree l = Some (Inr l')" "get_representation n' tree r = Some (Inr r')"
        and new: "(l, r) \<notin> seen \<Longrightarrow> first_mismatch n' tree l' r' (insert (l, r) seen) = Some None"
        by (auto split: option.splits sum.splits if_splits)
      note res = rep [THEN resolvesI]
      have l': "func_free l'" by (rule func_free_rep [OF tree ff rep(1)])
      have "matched tree l' r'"
        using new matched_seen.insert [OF v res] matchedI [OF l'] matched_seen_matched [OF v _ res l'] by blast
      with res TNominal show ?thesis by auto
    next
      case (TStruct flds)
      with m False obtain flds2 where "get_representation n' tree r = Some (Inr (TStruct flds2))"
        and l2: "list_all2 (\<lambda>x y. first_mismatch n' tree (field_tipe x) (field_tipe y) seen = Some None \<and> field_name x = field_name y) flds flds2"
        by (auto simp: with_rep_mismatch_None field_mismatch_None case_type_mismatch)
      moreover have "list_all2 (\<lambda>a b. field_name a = field_name b \<and>
          (matched tree (field_tipe a) (field_tipe b) \<or> subtype tree (field_tipe a) (field_tipe b))) flds flds2"
        using l2 by (rule list.rel_mono_strong) (use mat TStruct in auto)
      ultimately show ?thesis using TStruct resolvesI by auto
    next
      case (TMap k1 v1)
      with m False obtain k2 v2 v2' where "r = TMap k2 v2" "get_representation n' tree v2 = Some (Inr v2')"
        "first_mismatch n' tree k1 k2 seen = Some None" "first_mismatch n' tree v1 v2' seen = Some None"
        by (auto simp: with_rep_mismatch_None case_type_mismatch)
      moreover from this have "resolves tree v2 v2'" "matched tree k1 k2" "matched tree v1 v2'"
        using mat TMap resolvesI by auto
      ultimately show ?thesis using TMap by auto
    next
      case (TFunc impure args ret)
      then show ?thesis using ff by simp
    qed (use m False mat lists in \<open>auto simp: with_rep_mismatch_None case_type_mismatch base_types_def
        split: if_splits intro: resolvesI\<close>)
  qed simp
qed

lemma zip_field_mismatch_complete:
  "list_all2 (\<lambda>x y. (\<forall>e. f (field_tipe x) (field_tipe y) \<noteq> Some (Some e)) \<and> field_name x = field_name y) xs ys \<Longrightarrow>
   zip_field_mismatch f xs ys \<noteq> Some (Some e)"
  by (induction f xs ys rule: zip_field_mismatch.induct) (auto split: option.splits)

lemma with_rep_mismatch_at:
  "with_rep_mismatch (get_representation n tree r) m k = Some (Some e) \<Longrightarrow> resolves tree r u \<Longrightarrow> k u = Some (Some e)"
  using resolves_get [of tree r u n] by (auto simp: with_rep_mismatch_def split: option.splits sum.splits)

lemma subtype_matched:
  assumes tree: "func_free_tree tree"
  shows "subtype tree l r \<Longrightarrow> func_free l \<Longrightarrow> first_mismatch n tree l r seen \<noteq> Some (Some e)"
proof (induction n arbitrary: l r seen e)
  case (Suc n)
  have IH: "first_mismatch n tree x y seen \<noteq> Some (Some e)" if "x \<in> set (type_child_nodes l)" "subtype tree x y" for x y e
    using Suc.IH func_free_children [OF Suc.prems(2)] that by blast
  have vec: "zip_mismatch (\<lambda>l r. first_mismatch n tree l r seen) wrap 0 xs ys \<noteq> Some (Some e)"
    if "list_all2 (subtype tree) xs ys" "set xs \<subseteq> set (type_child_nodes l)" for xs ys e wrap
    by (rule zip_mismatch_complete, rule list.rel_mono_strong [OF that(1)]) (use that(2) IH in blast)
  have "first_mismatch_body (get_representation n tree) (first_mismatch n tree) l r seen \<noteq> Some (Some e)"
  proof (cases "r = TEvery")
    case False
    with Suc.prems(1) show ?thesis
    proof (cases rule: subtype.cases)
      case (nominal p i l' r')
      then have "first_mismatch n tree l' r' s \<noteq> Some (Some e)" for s
        using Suc.IH func_free_rep [OF tree Suc.prems(2)] unfolding resolves_def by blast
      then show ?thesis
        using nominal False resolves_get [of tree l l' n] resolves_get [of tree r r' n]
        by (cases "get_representation n tree l"; cases "get_representation n tree r")
           (auto simp: first_mismatch_body_def split: if_splits)
    next
      case (struct fs2 fs)
      have "zip_field_mismatch (\<lambda>l r. first_mismatch n tree l r seen) fs fs2 \<noteq> Some (Some e)"
        by (rule zip_field_mismatch_complete, rule list.rel_mono_strong [OF struct(3)]) (use struct(1) IH in auto)
      then have "field_vectors_mismatch (\<lambda>l r. first_mismatch n tree l r seen) fs fs2 \<noteq> Some (Some e)"
        using list_all2_lengthD [OF struct(3)] by (simp add: field_vectors_mismatch_def or_mismatch_Some)
      then show ?thesis
        using struct False by (auto simp: first_mismatch_body_def dest!: with_rep_mismatch_at)
    next
      case (func impure impure2 args2 args ret ret2)
      then show ?thesis using Suc.prems(2) by simp
    qed (use False vec IH in \<open>auto simp: first_mismatch_body_def base_types_def or_mismatch_Some
        dest: list_all2_lengthD dest!: with_rep_mismatch_at split: if_splits\<close>)
  qed (simp add: first_mismatch_body_def)
  then show ?case by simp
qed simp

section \<open>Properties of assignability\<close>

text \<open>C28: Whenever \<open>assignable\<close> returns, whatever the fuel, its answer is structural subtyping: the assumptions
  that it collects to cut off recursive nominal types neither make it accept a type that is not a subtype nor
  reject one that is.\<close>

theorem assignable_iff_subtype:
  assumes "assignable n tree l r {} = Some b"
  shows "b \<longleftrightarrow> subtype tree l r"
  using assms subtype_accepted [of tree l r n "{}" b] accepted_subtype [OF acceptedI [OF valid_seen.empty, of n tree l r]]
  by (cases b) auto


text \<open>The witnesses use the recursive type of lists of numbers: it is assignable to its own unfolding.\<close>

definition list_tree :: type_tree where
  "list_tree = [([''m''], 0) \<mapsto>
     (TStruct [StructField ''val'' TUint, StructField ''next'' (TOption (TNominal [''m''] 0))], ''list'')]"

lemma list_tree_ok: "type_tree_ok list_tree"
  unfolding type_tree_ok_def
proof (intro conjI allI impI)
  show "finite (dom list_tree)" by (simp add: list_tree_def)
  fix t show "\<exists>n x. get_representation n list_tree t = Some x"
    by (cases "is_nominal t"; cases t; intro exI [of _ 1])
       (auto simp: is_nominal_def list_tree_def get_representation.simps(1))
next
  fix k t name assume "list_tree k = Some (t, name)"
  then show "func_free t"
    by (auto simp: list_tree_def func_free_def all_types.simps split: if_splits)
qed

theorem assignable_iff_subtype_witness:
  "subtype list_tree (TOption (TStruct [StructField ''val'' TUint, StructField ''next'' (TOption (TNominal [''m''] 0))]))
     (TOption (TNominal [''m''] 0))"
proof -
  have "assignable 9 list_tree
      (TOption (TStruct [StructField ''val'' TUint, StructField ''next'' (TOption (TNominal [''m''] 0))]))
      (TOption (TNominal [''m''] 0)) {} = Some True"
    by (simp add: eval_nat_numeral assignable_body_def list_tree_def get_representation.simps(1) with_rep_def
        field_vectors_assignable_def and_opt_def)
  from assignable_iff_subtype [OF this] show ?thesis by simp
qed


text \<open>C3: With function types the comparison need not terminate: argument types are compared the other way round,
  so the type on the left is taken from the right in turns and no assumption is ever recorded.  For the recursive types
  \<open>M = (func((func(M),)),)\<close> and \<open>N = (func((func(N),)),)\<close> no fuel is enough to decide whether
  \<open>M\<close> can be assigned to \<open>(func(N),)\<close>.\<close>

definition func_tuple :: "tipe \<Rightarrow> tipe" where
  "func_tuple t = TTuple [TFunc False [t] TVoid]"

definition func_tree :: type_tree where
  "func_tree = [([''m''], 0) \<mapsto> (func_tuple (func_tuple (TNominal [''m''] 0)), ''M''),
     ([''m''], 1) \<mapsto> (func_tuple (func_tuple (TNominal [''m''] 1)), ''N'')]"

lemma func_tuple_step:
  assumes "get_representation n func_tree r = Some (Inr (func_tuple u)) \<or> get_representation n func_tree r = None"
    and "\<And>k. k < n \<Longrightarrow> assignable k func_tree u t {} = None" "r \<noteq> TEvery"
  shows "assignable (Suc n) func_tree (func_tuple t) r {} = None"
proof (cases n)
  case 0
  then show ?thesis using assms by (auto simp: assignable_body_def func_tuple_def with_rep_def type_vectors_assignable_def)
next
  case (Suc k)
  then have "assignable k func_tree u t {} = None" using assms(2) by simp
  then show ?thesis
    using assms(1,3) Suc
    by (auto simp: assignable_body_def func_tuple_def with_rep_def type_vectors_assignable_def and_opt_def)
qed

theorem assignable_may_diverge:
  "\<forall>n. assignable n func_tree (func_tuple (TNominal [''m''] 1)) (TNominal [''m''] 0) {} = None"
proof -
  let ?M = "TNominal [''m''] 0" and ?N = "TNominal [''m''] 1"
  have rep: "get_representation n func_tree ?M = Some (Inr (func_tuple (func_tuple ?M))) \<or> get_representation n func_tree ?M = None"
    "get_representation n func_tree ?N = Some (Inr (func_tuple (func_tuple ?N))) \<or> get_representation n func_tree ?N = None" for n
    by (cases n; simp add: get_representation.simps(1) func_tree_def func_tuple_def)+
  have "assignable n func_tree (func_tuple ?N) ?M {} = None \<and> assignable n func_tree (func_tuple ?M) ?N {} = None" for n
  proof (induction n rule: less_induct)
    case (less n)
    show ?case
    proof (cases n)
      case (Suc k)
      then have "assignable j func_tree (func_tuple ?N) ?M {} = None" "assignable j func_tree (func_tuple ?M) ?N {} = None" if "j < k" for j
        using less that by auto
      then show ?thesis
        unfolding Suc using func_tuple_step [OF rep(1), of k ?N] func_tuple_step [OF rep(2), of k ?M] by blast
    qed simp
  qed
  then show ?thesis by blast
qed



text \<open>For function types the two disagree: arguments are compared contravariantly by \<open>assignable\<close> but
  covariantly by \<open>first_mismatch\<close>.  A function that takes numbers is rejected where a function that takes
  anything is expected, and no mismatch is reported.\<close>

theorem first_mismatch_misses_arguments:
  "assignable (3 + n) tree (TFunc False [TAny] TVoid) (TFunc False [TUint] TVoid) {} = Some False
   \<and> mismatch_string (3 + n) tree (TFunc False [TAny] TVoid) (TFunc False [TUint] TVoid) = Some None"
  by (simp add: eval_nat_numeral assignable_body_def first_mismatch_body_def mismatch_string_def
      type_vectors_assignable_def and_opt_def or_mismatch_def)

end
