(* ===== verification/Checked_Syntax.thy ===== *)
theory Checked_Syntax
  imports Types
begin

text \<open>
  The syntax tree after type checking (\<open>src/compile/typecheck.rs\<close>, with the operators, patterns and functions
  of \<open>src/compile/ast.rs\<close>): expressions, statements and code blocks carry their types and debugging
  information.  The type of an expression, its children and its purity are functions of the tree.
\<close>

section \<open>Definitions\<close>

subsection \<open>Operators\<close>

datatype (plugins only: code size) unary_op =
    UMinus | UBitwiseNeg | UNot | UHash | ULen | UToUint | UToInt | UToBytes32 | UToAddress

datatype (plugins only: code size) binary_op =
    BPlus | BMinus | BTimes | BDiv | BMod | BSdiv | BSmod | BLessThan | BGreaterThan | BLessEq | BGreaterEq
  | BSLessThan | BSGreaterThan | BSLessEq | BSGreaterEq | BEqual | BNotEqual | BBitwiseAnd | BBitwiseOr
  | BBitwiseXor | BShiftLeft | BShiftRight | BLogicalAnd | BLogicalOr | BHash | BGetBuffer8 | BGetBuffer64
  | BGetBuffer256

datatype (plugins only: code size) trinary_op = TSetBuffer8 | TSetBuffer64 | TSetBuffer256

subsection \<open>Patterns, fields and functions\<close>

datatype 'a match_pattern = MatchPattern (pat_kind: "'a match_pattern_kind") (pat_debug_info: debug_info) (pat_cached: 'a)
and 'a match_pattern_kind = PBind string_id | PAssign string_id | PTuple "'a match_pattern list"

text \<open>The names in a pattern, from left to right, with whether they are assigned rather than bound.\<close>

fun collect_identifiers :: "'a match_pattern \<Rightarrow> (string_id \<times> bool \<times> debug_info) list" where
  "collect_identifiers (MatchPattern (PBind i) di _) = [(i, False, di)]"
| "collect_identifiers (MatchPattern (PAssign i) di _) = [(i, True, di)]"
| "collect_identifiers (MatchPattern (PTuple pats) di _) = concat (map collect_identifiers pats)"

datatype 'a field_initializer = FieldInitializer (init_name: string) (init_value: 'a)

record func_arg =
  arg_name :: string_id
  arg_tipe :: tipe
  arg_debug_info :: debug_info

datatype func_decl_kind = Public | Private

record properties_list =
  pure :: bool

record 'stat func =
  func_name :: string_id
  func_args :: "func_arg list"
  func_ret_type :: tipe
  func_code :: "'stat list"
  func_tipe :: tipe
  func_kind :: func_decl_kind
  func_debug_info :: debug_info
  func_properties :: properties_list

definition debug_info_from :: "location option \<Rightarrow> debug_info" where
  "debug_info_from loc = \<lparr>location = loc, attributes = attributes_default\<rparr>"

subsection \<open>Expressions and statements\<close>

datatype (plugins only: code size) tc_expr = TcExpr (expr_kind: tc_expr_kind) (expr_debug_info: debug_info)
and tc_expr_kind =
    ENewBuffer
  | EUnaryOp unary_op tc_expr tipe
  | EBinary binary_op tc_expr tc_expr tipe
  | ETrinary trinary_op tc_expr tc_expr tc_expr tipe
  | EShortcutOr tc_expr tc_expr
  | EShortcutAnd tc_expr tc_expr
  | ELocalVariableRef string_id tipe
  | EGlobalVariableRef usize tipe
  | EVariant tc_expr
  | EFuncRef usize tipe
  | ETupleRef tc_expr uint256 tipe
  | EDotRef tc_expr string_id usize tipe
  | EConst val tipe
  | EFunctionCall tc_expr "tc_expr list" tipe properties_list
  | ECodeBlock tc_code_block
  | EStructInitializer "tc_expr field_initializer list" tipe
  | EArrayRef tc_expr tc_expr tipe
  | EFixedArrayRef tc_expr tc_expr usize tipe
  | EMapRef tc_expr tc_expr tipe
  | ETuple "tc_expr list" tipe
  | ENewArray tc_expr tipe tipe
  | ENewFixedArray usize "tc_expr option" tipe
  | ENewMap tipe
  | EArrayMod tc_expr tc_expr tc_expr tipe
  | EFixedArrayMod tc_expr tc_expr tc_expr usize tipe
  | EMapMod tc_expr tc_expr tc_expr tipe
  | EStructMod tc_expr usize tc_expr tipe
  | ECast tc_expr tipe
  | EAsm tipe "opcode instruction list" "tc_expr list"
  | EError
  | EGetGas
  | ESetGas tc_expr
  | ETry tc_expr tipe
  | EIf tc_expr tc_code_block "tc_code_block option" tipe
  | EIfLet string_id tc_expr tc_code_block "tc_code_block option" tipe
  | ELoop "tc_statement list"
and tc_statement = TcStatement (stat_kind: tc_statement_kind) (stat_debug_info: debug_info)
and tc_statement_kind =
    SNoop
  | SReturnVoid
  | SReturn tc_expr
  | SBreak "tc_expr option" string
  | SExpression tc_expr
  | SLet "tipe match_pattern" tc_expr
  | SAssignLocal string_id tc_expr
  | SAssignGlobal usize tc_expr
  | SWhile tc_expr "tc_statement list"
  | SAsm "opcode instruction list" "tc_expr list"
  | SDebugPrint tc_expr
  | SAssert tc_expr
and tc_code_block =
  TcCodeBlock (block_body: "tc_statement list") (block_ret_expr: "tc_expr option") (block_scope: "string option")

type_synonym tc_func = "tc_statement func"

subsection \<open>The type of an expression\<close>

primrec expr_get_type :: "tc_expr \<Rightarrow> tipe"
  and kind_get_type :: "tc_expr_kind \<Rightarrow> tipe"
  and block_get_type :: "tc_code_block \<Rightarrow> tipe" where
  "expr_get_type (TcExpr k di) = kind_get_type k"
| "kind_get_type ENewBuffer = TBuffer"
| "kind_get_type EError = TEvery"
| "kind_get_type EGetGas = TUint"
| "kind_get_type (ESetGas e) = TVoid"
| "kind_get_type (EUnaryOp op e t) = t"
| "kind_get_type (EBinary op e1 e2 t) = t"
| "kind_get_type (ETrinary op e1 e2 e3 t) = t"
| "kind_get_type (EShortcutOr e1 e2) = TBool"
| "kind_get_type (EShortcutAnd e1 e2) = TBool"
| "kind_get_type (ELocalVariableRef name t) = t"
| "kind_get_type (EGlobalVariableRef idx t) = t"
| "kind_get_type (EFuncRef name t) = t"
| "kind_get_type (ETupleRef e idx t) = t"
| "kind_get_type (EVariant e) = TOption (expr_get_type e)"
| "kind_get_type (EDotRef e slot sz t) = t"
| "kind_get_type (EConst v t) = t"
| "kind_get_type (EFunctionCall f args t props) = t"
| "kind_get_type (ECodeBlock b) = block_get_type b"
| "kind_get_type (EStructInitializer inits t) = t"
| "kind_get_type (EArrayRef e1 e2 t) = t"
| "kind_get_type (EFixedArrayRef e1 e2 sz t) = t"
| "kind_get_type (EMapRef e1 e2 t) = t"
| "kind_get_type (ETuple es t) = t"
| "kind_get_type (ENewArray e base t) = t"
| "kind_get_type (ENewFixedArray sz oe t) = t"
| "kind_get_type (ENewMap t) = t"
| "kind_get_type (EArrayMod e1 e2 e3 t) = t"
| "kind_get_type (EFixedArrayMod e1 e2 e3 sz t) = t"
| "kind_get_type (EMapMod e1 e2 e3 t) = t"
| "kind_get_type (EStructMod e1 idx e2 t) = t"
| "kind_get_type (ECast e t) = t"
| "kind_get_type (EAsm t insns args) = t"
| "kind_get_type (ETry e t) = t"
| "kind_get_type (EIf c b ob t) = t"
| "kind_get_type (EIfLet name e b ob t) = t"
| "kind_get_type (ELoop stats) = TEvery"
| "block_get_type (TcCodeBlock body r sc) = (case map_option expr_get_type r of Some t \<Rightarrow> t | None \<Rightarrow> TVoid)"

end
