(* ===== verification/Strip_Labels.thy ===== *)
theory Strip_Labels
  imports Tuple_Tree String_Table
begin

text \<open>
  Labels after linking (\<open>src/link/striplabels.rs\<close>): \<open>fix_nonforward_labels\<close> replaces references to labels
  that lie behind by reads of the jump table, which is kept in the last global; \<open>strip_labels\<close> removes the
  labels from the code and replaces the remaining references by code points.
\<close>

section \<open>Definitions\<close>

record imported_func =
  imp_name_id :: string_id
  imp_slot_num :: usize
  imp_name :: string

text \<open>Errors of the passes after linking, with what their messages print.\<close>

datatype link_error =
    TupleError compile_error
  | DuplicateLabel usize "location list"
  | UndefinedLabel label "opcode instruction"
  | MissingJumpTarget label
  | VirtualOpcode opcode "location list"

subsection \<open>Stripping\<close>

definition import_labels :: "imported_func list \<Rightarrow> (label \<rightharpoonup> codept)" where
  "import_labels imported_funcs =
     foldl (\<lambda>label_map f. label_map(External (imp_slot_num f) \<mapsto> CpExternal (imp_slot_num f),
                                    Func (imp_name_id f) \<mapsto> CpExternal (imp_slot_num f)))
       Map.empty imported_funcs"

fun place_labels :: "(label \<rightharpoonup> codept) \<Rightarrow> usize \<Rightarrow> opcode instruction list \<Rightarrow> link_error + (label \<rightharpoonup> codept)" where
  "place_labels label_map after_count [] = Inr label_map"
| "place_labels label_map after_count (insn # rest) =
     (case instruction_get_label insn of
        Some l \<Rightarrow>
          (case label_map l of
             Some (CpInternal x) \<Rightarrow> Inl (DuplicateLabel x (loc_list (insn_debug_info insn)))
           | _ \<Rightarrow> place_labels (label_map(l \<mapsto> CpInternal after_count)) after_count rest)
      | None \<Rightarrow> place_labels label_map (after_count + 1) rest)"

definition is_label :: "opcode instruction \<Rightarrow> bool" where
  "is_label insn \<longleftrightarrow> instruction_get_label insn \<noteq> None"

definition resolve_insn :: "(label \<rightharpoonup> codept) \<Rightarrow> opcode instruction \<Rightarrow> link_error + opcode instruction" where
  "resolve_insn label_map insn =
     (case instruction_replace_labels label_map insn of
        Inl l \<Rightarrow> Inl (UndefinedLabel l insn)
      | Inr i \<Rightarrow> Inr i)"

definition resolve_jump :: "(label \<rightharpoonup> codept) \<Rightarrow> label \<Rightarrow> link_error + codept" where
  "resolve_jump label_map l = (case label_map l of Some cp \<Rightarrow> Inr cp | None \<Rightarrow> Inl (MissingJumpTarget l))"

definition strip_labels ::
    "opcode instruction list \<Rightarrow> label list \<Rightarrow> imported_func list \<Rightarrow> link_error + opcode instruction list \<times> codept list" where
  "strip_labels code_in jump_table imported_funcs =
     (case place_labels (import_labels imported_funcs) 0 code_in of
        Inl e \<Rightarrow> Inl e
      | Inr label_map \<Rightarrow>
          (case collect_res (resolve_insn label_map) (filter (\<lambda>insn. \<not> is_label insn) code_in) of
             Inl e \<Rightarrow> Inl e
           | Inr code_out \<Rightarrow>
               (case collect_res (resolve_jump label_map) jump_table of
                  Inl e \<Rightarrow> Inl e
                | Inr jump_table_out \<Rightarrow> Inr (code_out, jump_table_out))))"

subsection \<open>References backwards\<close>

text \<open>The first loop.  Its state is the set of labels passed so far, the jump table and the index of the
  labels in it.\<close>

fun use_jump_table ::
    "label set \<Rightarrow> usize \<Rightarrow> label set \<Rightarrow> label list \<Rightarrow> (label \<rightharpoonup> usize) \<Rightarrow> opcode instruction list
     \<Rightarrow> opcode instruction list \<times> label list" where
  "use_jump_table imported g seen jump_table index [] = ([], jump_table)"
| "use_jump_table imported g seen jump_table index (insn # rest) =
     (let seen' = (case opcode insn of LabelOp l \<Rightarrow> insert l seen | _ \<Rightarrow> seen);
          di = insn_debug_info insn
      in (case immediate insn of
            Some (LabelV l) \<Rightarrow>
              if l \<in> seen \<or> l \<in> imported
              then (case index l of
                      Some idx \<Rightarrow>
                        (let (out, jt) = use_jump_table imported g seen' jump_table index rest
                         in (instruction_from_opcode (GetGlobalVar g) di # instruction_from_opcode (PushExternal idx) di
                             # instruction_from_opcode (opcode insn) di # out, jt))
                    | None \<Rightarrow>
                        (let idx = length jump_table;
                             (out, jt) = use_jump_table imported g seen' (jump_table @ [l]) (index(l \<mapsto> idx)) rest
                         in (instruction_from_opcode (GetGlobalVar g) di # instruction_from_opcode (PushExternal idx) di
                             # instruction_from_opcode (opcode insn) di # out, jt)))
              else (let (out, jt) = use_jump_table imported g seen' jump_table index rest in (insn # out, jt))
          | _ \<Rightarrow> (let (out, jt) = use_jump_table imported g seen' jump_table index rest in (insn # out, jt))))"

text \<open>The second loop: \<open>PushExternal\<close> becomes a read of the jump table, whose length is known now.\<close>

definition expand_external :: "usize \<Rightarrow> opcode instruction \<Rightarrow> opcode instruction list" where
  "expand_external len insn =
     (case opcode insn of
        PushExternal idx \<Rightarrow>
          (case immediate insn of
             Some v \<Rightarrow> [instruction_from_opcode_imm (AVM Noop) v (insn_debug_info insn)]
           | None \<Rightarrow> [])
          @ [instruction_from_opcode_imm (TupleGet len) (IntV (uint256_from_usize idx)) (insn_debug_info insn)]
      | _ \<Rightarrow> [insn])"

definition fix_nonforward_labels ::
    "opcode instruction list \<Rightarrow> imported_func list \<Rightarrow> usize \<Rightarrow> opcode instruction list \<times> label list" where
  "fix_nonforward_labels code_in imported_funcs jump_table_index_in_globals =
     (let (code_out, jump_table) =
            use_jump_table (set (map (\<lambda>f. External (imp_slot_num f)) imported_funcs)) jump_table_index_in_globals
              {} [] Map.empty code_in
      in (concat (map (expand_external (length jump_table)) code_out), jump_table))"

section \<open>Stripping\<close>

text \<open>The labels defined in code, and the number of instructions before a label.\<close>

fun defined_labels :: "opcode instruction list \<Rightarrow> label list" where
  "defined_labels [] = []"
| "defined_labels (i # cs) = (case instruction_get_label i of Some l \<Rightarrow> l # defined_labels cs | None \<Rightarrow> defined_labels cs)"

fun label_pos :: "opcode instruction list \<Rightarrow> label \<Rightarrow> nat option" where
  "label_pos [] l = None"
| "label_pos (i # cs) l =
     (if instruction_get_label i = Some l then Some 0
      else map_option (\<lambda>n. if is_label i then n else Suc n) (label_pos cs l))"

text \<open>Where a label points: into the code, or to an imported function.\<close>

definition label_target :: "imported_func list \<Rightarrow> opcode instruction list \<Rightarrow> label \<Rightarrow> codept option" where
  "label_target imps cs l =
     (case label_pos cs l of Some n \<Rightarrow> Some (CpInternal n) | None \<Rightarrow> import_labels imps l)"

lemma label_pos_None_iff: "label_pos cs l = None \<longleftrightarrow> l \<notin> set (defined_labels cs)"
  by (induction cs) (auto split: option.split)

lemma defined_labels_append: "defined_labels (xs @ ys) = defined_labels xs @ defined_labels ys"
  by (induction xs) (auto split: option.split)

lemma label_pos_index:
  "label_pos cs l = Some n \<Longrightarrow>
   \<exists>pre i post. cs = pre @ i # post \<and> instruction_get_label i = Some l \<and> n = length (filter (\<lambda>i. \<not> is_label i) pre)"
proof (induction cs arbitrary: n)
  case (Cons i cs)
  show ?case
  proof (cases "instruction_get_label i = Some l")
    case True
    with Cons.prems show ?thesis by (intro exI [of _ "[]"]) auto
  next
    case False
    with Cons.prems obtain n' where n': "label_pos cs l = Some n'" "n = (if is_label i then n' else Suc n')" by auto
    then obtain pre j post where "cs = pre @ j # post" "instruction_get_label j = Some l"
      "n' = length (filter (\<lambda>i. \<not> is_label i) pre)" using Cons.IH by blast
    with n'(2) show ?thesis by (intro exI [of _ "i # pre"]) auto
  qed
qed simp

lemma place_labels_eq:
  "place_labels mp n cs = Inr mp' \<longleftrightarrow>
     distinct (defined_labels cs) \<and> (\<forall>l \<in> set (defined_labels cs). \<forall>x. mp l \<noteq> Some (CpInternal x))
     \<and> mp' = (\<lambda>l. case label_pos cs l of Some k \<Rightarrow> Some (CpInternal (n + k)) | None \<Rightarrow> mp l)"
proof (induction cs arbitrary: mp n)
  case (Cons i cs)
  show ?case
  proof (cases "instruction_get_label i")
    case None
    then have "\<not> is_label i" by (simp add: is_label_def)
    with None Cons.IH [of mp "n + 1"] show ?thesis by (auto intro!: ext split: option.split)
  next
    case (Some l)
    then have "is_label i" by (simp add: is_label_def)
    have "place_labels mp n (i # cs) = Inr mp' \<longleftrightarrow>
        (\<forall>x. mp l \<noteq> Some (CpInternal x)) \<and> place_labels (mp(l \<mapsto> CpInternal n)) n cs = Inr mp'"
      using Some by (auto split: option.split codept.split)
    moreover have "place_labels (mp(l \<mapsto> CpInternal n)) n cs = Inr mp' \<longleftrightarrow>
        distinct (defined_labels (i # cs)) \<and> (\<forall>k \<in> set (defined_labels cs). \<forall>x. mp k \<noteq> Some (CpInternal x))
        \<and> mp' = (\<lambda>k. case label_pos cs k of Some j \<Rightarrow> Some (CpInternal (n + j)) | None \<Rightarrow> (mp(l \<mapsto> CpInternal n)) k)"
      unfolding Cons.IH using Some by auto
    moreover have "distinct (defined_labels (i # cs)) \<Longrightarrow>
        (\<lambda>k. case label_pos cs k of Some j \<Rightarrow> Some (CpInternal (n + j)) | None \<Rightarrow> (mp(l \<mapsto> CpInternal n)) k) =
        (\<lambda>k. case label_pos (i # cs) k of Some j \<Rightarrow> Some (CpInternal (n + j)) | None \<Rightarrow> mp k)"
      using Some \<open>is_label i\<close> label_pos_None_iff [of cs l] by (intro ext) (auto split: option.split)
    ultimately show ?thesis using Some by auto
  qed
qed auto

lemma import_labels_external: "import_labels imps l = Some cp \<Longrightarrow> \<exists>n. cp = CpExternal n"
proof -
  have "foldl (\<lambda>mp f. mp(External (imp_slot_num f) \<mapsto> CpExternal (imp_slot_num f),
      Func (imp_name_id f) \<mapsto> CpExternal (imp_slot_num f))) mp imps l = Some cp \<Longrightarrow>
      (\<And>l cp. mp l = Some cp \<Longrightarrow> \<exists>n. cp = CpExternal n) \<Longrightarrow> \<exists>n. cp = CpExternal n" for mp
    by (induction imps arbitrary: mp) (fastforce split: if_splits)+
  then show "import_labels imps l = Some cp \<Longrightarrow> \<exists>n. cp = CpExternal n" unfolding import_labels_def by auto
qed

lemma place_imports_eq:
  "place_labels (import_labels imps) 0 cs = Inr mp \<longleftrightarrow> distinct (defined_labels cs) \<and> mp = label_target imps cs"
proof -
  have "import_labels imps l \<noteq> Some (CpInternal x)" for l x using import_labels_external [of imps l] by auto
  then show ?thesis by (simp add: place_labels_eq label_target_def [abs_def] cong: option.case_cong)
qed

lemma resolve_insn_Inr: "resolve_insn mp i = Inr j \<longleftrightarrow> instruction_replace_labels mp i = Inr j"
  by (simp add: resolve_insn_def split: sum.split)

lemma resolve_jump_Inr: "resolve_jump mp l = Inr cp \<longleftrightarrow> mp l = Some cp"
  by (auto simp: resolve_jump_def split: option.split)

lemma strip_labels_eq:
  "strip_labels cs jt imps = Inr (out, jt') \<longleftrightarrow>
     distinct (defined_labels cs)
     \<and> list_all2 (\<lambda>i j. instruction_replace_labels (label_target imps cs) i = Inr j) (filter (\<lambda>i. \<not> is_label i) cs) out
     \<and> list_all2 (\<lambda>l cp. label_target imps cs l = Some cp) jt jt'"
proof (cases "place_labels (import_labels imps) 0 cs")
  case (Inl e)
  then have "\<not> distinct (defined_labels cs)"
    using place_imports_eq [of imps cs "label_target imps cs"] by auto
  with Inl show ?thesis by (simp add: strip_labels_def)
next
  case (Inr mp)
  then have mp: "distinct (defined_labels cs)" "mp = label_target imps cs" by (simp_all add: place_imports_eq)
  have "strip_labels cs jt imps = Inr (out, jt') \<longleftrightarrow>
      collect_res (resolve_insn mp) (filter (\<lambda>i. \<not> is_label i) cs) = Inr out \<and> collect_res (resolve_jump mp) jt = Inr jt'"
    using Inr by (simp add: strip_labels_def split: sum.split)
  with mp show ?thesis by (simp add: collect_res_Inr_iff resolve_insn_Inr resolve_jump_Inr)
qed

lemma replace_labels_Ex:
  "(\<exists>j. instruction_replace_labels mp i = Inr j) \<longleftrightarrow> (\<forall>v. immediate i = Some v \<longrightarrow> set (value_labels v) \<subseteq> dom mp)"
proof (cases "immediate i")
  case (Some v)
  have "find (\<lambda>l. mp l = None) (value_labels v) = None \<longleftrightarrow> set (value_labels v) \<subseteq> dom mp"
    by (auto simp: find_None_iff dom_def)
  with Some show ?thesis
    by (cases "find (\<lambda>l. mp l = None) (value_labels v)") (simp_all add: instruction_replace_labels_def value_replace_labels_eq)
qed (simp add: instruction_replace_labels_def)

text \<open>
  C26: Stripping resolves every label to the instruction that follows it.  When it succeeds, the output is the
  instructions of the input that are not labels, in order, with the labels in their immediates replaced by
  code points; the code point of a label is the index, in the output, of the next instruction after it, and
  the jump table lists the code points of its labels.
\<close>

theorem labels_point_to_their_code:
  assumes "strip_labels cs jt imps = Inr (out, jt')"
  shows "list_all2 (\<lambda>i j. instruction_replace_labels (label_target imps cs) i = Inr j) (filter (\<lambda>i. \<not> is_label i) cs) out
    \<and> list_all2 (\<lambda>l cp. label_target imps cs l = Some cp) jt jt'
    \<and> (\<forall>pre l imm di i post. cs = pre @ Instruction (LabelOp l) imm di # i # post \<and> \<not> is_label i \<longrightarrow>
         (\<exists>n < length out. label_target imps cs l = Some (CpInternal n)
            \<and> instruction_replace_labels (label_target imps cs) i = Inr (out ! n)))"
proof (intro conjI allI impI)
  note ok = assms [unfolded strip_labels_eq]
  show "list_all2 (\<lambda>i j. instruction_replace_labels (label_target imps cs) i = Inr j) (filter (\<lambda>i. \<not> is_label i) cs) out"
    "list_all2 (\<lambda>l cp. label_target imps cs l = Some cp) jt jt'" using ok by auto
  fix pre l imm di i post
  assume cs: "cs = pre @ Instruction (LabelOp l) imm di # i # post \<and> \<not> is_label i"
  let ?n = "length (filter (\<lambda>i. \<not> is_label i) pre)"
  have "distinct (defined_labels cs)" using ok by simp
  then have "label_pos cs l = Some ?n"
    using cs [THEN conjunct1]
  proof (induction pre arbitrary: cs)
    case (Cons j pre)
    then have "instruction_get_label j \<noteq> Some l"
      by (auto simp: instruction_get_label_def defined_labels_append split: option.splits)
    with Cons show ?case by (auto simp: is_label_def split: option.splits)
  qed (simp add: instruction_get_label_def)
  moreover have "filter (\<lambda>i. \<not> is_label i) cs = filter (\<lambda>i. \<not> is_label i) pre @ i # filter (\<lambda>i. \<not> is_label i) post"
    using cs by (simp add: is_label_def instruction_get_label_def)
  then have "?n < length out \<and> instruction_replace_labels (label_target imps cs) i = Inr (out ! ?n)"
    using ok by (auto simp: list_all2_conv_all_nth nth_append dest: spec [of _ ?n])
  ultimately show "\<exists>n < length out. label_target imps cs l = Some (CpInternal n)
      \<and> instruction_replace_labels (label_target imps cs) i = Inr (out ! n)"
    by (auto simp: label_target_def)
qed

theorem labels_point_to_their_code_witness:
  "\<exists>out. strip_labels [Instruction (LabelOp (Anon 0)) None debug_info_default,
       Instruction (AVM Jump) (Some (LabelV (Anon 0))) debug_info_default] [] [] = Inr (out, [])
     \<and> label_target [] [Instruction (LabelOp (Anon 0)) None debug_info_default,
         Instruction (AVM Jump) (Some (LabelV (Anon 0))) debug_info_default] (Anon 0) = Some (CpInternal 0)"
proof -
  let ?cs = "[Instruction (LabelOp (Anon 0)) None debug_info_default, Instruction (AVM Jump) (Some (LabelV (Anon 0))) debug_info_default]"
  have "strip_labels ?cs [] [] = Inr ([Instruction (AVM Jump) (Some (CodePointV (CpInternal 0))) debug_info_default], [])"
    by code_simp
  from labels_point_to_their_code [OF this] this show ?thesis
    by (auto simp: is_label_def instruction_get_label_def dest: spec [of _ "[]"])
qed

lemma strip_labels_Ex:
  "(\<exists>r. strip_labels cs jt imps = Inr r) \<longleftrightarrow>
     distinct (defined_labels cs)
     \<and> (\<forall>i \<in> set cs. \<forall>v. \<not> is_label i \<and> immediate i = Some v \<longrightarrow> set (value_labels v) \<subseteq> dom (label_target imps cs))
     \<and> set jt \<subseteq> dom (label_target imps cs)"
proof -
  have "(\<exists>r. strip_labels cs jt imps = Inr r) \<longleftrightarrow> distinct (defined_labels cs)
     \<and> (\<exists>out. list_all2 (\<lambda>i j. instruction_replace_labels (label_target imps cs) i = Inr j) (filter (\<lambda>i. \<not> is_label i) cs) out)
     \<and> (\<exists>jt'. list_all2 (\<lambda>l cp. label_target imps cs l = Some cp) jt jt')"
    by (auto simp: strip_labels_eq)
  also have "(\<exists>out. list_all2 (\<lambda>i j. instruction_replace_labels (label_target imps cs) i = Inr j) (filter (\<lambda>i. \<not> is_label i) cs) out)
      \<longleftrightarrow> (\<forall>i \<in> set cs. \<forall>v. \<not> is_label i \<and> immediate i = Some v \<longrightarrow> set (value_labels v) \<subseteq> dom (label_target imps cs))"
    unfolding collect_res_Inr_iff [symmetric] collect_res_Inr_Ex replace_labels_Ex by auto
  also have "(\<exists>jt'. list_all2 (\<lambda>l cp. label_target imps cs l = Some cp) jt jt') \<longleftrightarrow> set jt \<subseteq> dom (label_target imps cs)"
    unfolding collect_opt_Some_iff [symmetric] collect_opt_Some_Ex by (auto simp: dom_def)
  finally show ?thesis .
qed

text \<open>
  Stripping succeeds exactly when no label is defined twice and every label in an immediate or in the
  jump table is defined in the code or imported; labels nested in tuples count too.
\<close>

theorem strip_labels_succeeds_iff:
  "(\<exists>r. strip_labels cs jt imps = Inr r) \<longleftrightarrow>
     distinct (defined_labels cs)
     \<and> (\<forall>i \<in> set cs. \<forall>v. \<not> is_label i \<and> immediate i = Some v \<longrightarrow> set (value_labels v) \<subseteq> dom (label_target imps cs))
     \<and> set jt \<subseteq> dom (label_target imps cs)"
  by (rule strip_labels_Ex)

text \<open>A jump to a label that follows is resolved; without the label, stripping fails.\<close>

theorem strip_labels_succeeds_iff_witness:
  "(\<exists>r. strip_labels [Instruction (AVM Jump) (Some (LabelV (Anon 0))) debug_info_default,
       Instruction (LabelOp (Anon 0)) None debug_info_default] [Anon 0] [] = Inr r)
   \<and> \<not> (\<exists>r. strip_labels [Instruction (AVM Jump) (Some (LabelV (Anon 0))) debug_info_default] [Anon 0] [] = Inr r)"
  unfolding strip_labels_succeeds_iff
  by (simp add: label_target_def import_labels_def is_label_def instruction_get_label_def dom_def)

section \<open>References backwards\<close>

text \<open>The reference definition works in one pass once the jump table is known.\<close>

definition index_of :: "'a list \<Rightarrow> 'a \<Rightarrow> nat" where
  "index_of xs x = length (takeWhile (\<lambda>y. y \<noteq> x) xs)"

definition back_ref :: "label set \<Rightarrow> label set \<Rightarrow> opcode instruction \<Rightarrow> label option" where
  "back_ref imported seen insn =
     (case immediate insn of
        Some (LabelV l) \<Rightarrow> if l \<in> seen \<or> l \<in> imported then Some l else None
      | _ \<Rightarrow> None)"

definition pass_label :: "opcode instruction \<Rightarrow> label set \<Rightarrow> label set" where
  "pass_label insn seen = (case instruction_get_label insn of Some l \<Rightarrow> insert l seen | None \<Rightarrow> seen)"

fun back_refs :: "label set \<Rightarrow> label set \<Rightarrow> opcode instruction list \<Rightarrow> label list" where
  "back_refs imported seen [] = []"
| "back_refs imported seen (insn # rest) =
     (case back_ref imported seen insn of Some l \<Rightarrow> [l] | None \<Rightarrow> []) @ back_refs imported (pass_label insn seen) rest"

fun nonforward_ref ::
    "label list \<Rightarrow> label set \<Rightarrow> usize \<Rightarrow> label set \<Rightarrow> opcode instruction list \<Rightarrow> opcode instruction list" where
  "nonforward_ref jt imported g seen [] = []"
| "nonforward_ref jt imported g seen (insn # rest) =
     (case back_ref imported seen insn of
        Some l \<Rightarrow>
          [Instruction (GetGlobalVar g) None (insn_debug_info insn),
           Instruction (TupleGet (length jt)) (Some (IntV (index_of jt l))) (insn_debug_info insn)]
          @ expand_external (length jt) (Instruction (opcode insn) None (insn_debug_info insn))
      | None \<Rightarrow> expand_external (length jt) insn)
     @ nonforward_ref jt imported g (pass_label insn seen) rest"

lemma index_of_append: "x \<in> set xs \<Longrightarrow> index_of (xs @ ys) x = index_of xs x"
  by (simp add: index_of_def takeWhile_append1)

lemma index_of_last: "x \<notin> set xs \<Longrightarrow> index_of (xs @ [x]) x = length xs"
  by (auto simp: index_of_def takeWhile_append)

lemma nth_index_of: "x \<in> set xs \<Longrightarrow> index_of xs x < length xs \<and> xs ! index_of xs x = x"
  by (induction xs) (auto simp: index_of_def)

text \<open>The table of indexes that the first loop keeps.\<close>

definition index_map :: "label list \<Rightarrow> label \<Rightarrow> usize option" where
  "index_map jt l = (if l \<in> set jt then Some (index_of jt l) else None)"

lemma index_map_extend: "l \<notin> set jt \<Longrightarrow> (index_map jt)(l \<mapsto> length jt) = index_map (jt @ [l])"
  by (auto simp: index_map_def fun_eq_iff index_of_append index_of_last)

lemma expand_external_simps:
  "expand_external n (Instruction (GetGlobalVar g) imm di) = [Instruction (GetGlobalVar g) imm di]"
  "expand_external n (Instruction (PushExternal k) None di) = [Instruction (TupleGet n) (Some (IntV k)) di]"
  by (simp_all add: expand_external_def instruction_from_opcode_imm_def uint256_from_usize_def)

lemma use_jump_table_eq:
  assumes "distinct jt" "use_jump_table imported g seen jt (index_map jt) cs = (out, jt')"
  shows "\<exists>more. jt' = jt @ more \<and> distinct jt' \<and> set jt' = set jt \<union> set (back_refs imported seen cs)
    \<and> (\<forall>rest. concat (map (expand_external (length (jt' @ rest))) out) = nonforward_ref (jt' @ rest) imported g seen cs)"
  using assms
proof (induction cs arbitrary: jt seen out)
  case (Cons insn cs)
  let ?seen = "pass_label insn seen" and ?di = "insn_debug_info insn"
  have seen: "(case opcode insn of LabelOp l \<Rightarrow> insert l seen | _ \<Rightarrow> seen) = ?seen"
    by (simp add: pass_label_def instruction_get_label_def split: opcode.split)
  show ?case
  proof (cases "back_ref imported seen insn")
    case None
    then obtain out' where o: "use_jump_table imported g ?seen jt (index_map jt) cs = (out', jt')" "out = insn # out'"
      using Cons.prems(2)
      by (auto simp: back_ref_def seen Let_def split: option.splits val.splits if_splits prod.splits)
    from Cons.IH [OF Cons.prems(1) o(1)] None show ?thesis by (auto simp: o(2))
  next
    case (Some l)
    then have imm: "immediate insn = Some (LabelV l)" "l \<in> seen \<or> l \<in> imported"
      by (auto simp: back_ref_def split: option.splits val.splits if_splits)
    define jt1 where "jt1 = (if l \<in> set jt then jt else jt @ [l])"
    have d: "distinct jt1" using Cons.prems(1) by (simp add: jt1_def)
    obtain out' where o: "use_jump_table imported g ?seen jt1 (index_map jt1) cs = (out', jt')"
      "out = instruction_from_opcode (GetGlobalVar g) ?di # instruction_from_opcode (PushExternal (index_of jt1 l)) ?di
          # instruction_from_opcode (opcode insn) ?di # out'"
    proof (cases "l \<in> set jt")
      case True
      then show thesis using that Cons.prems(2) imm
        by (auto simp: jt1_def seen Let_def index_map_def [of jt l] split: prod.splits)
    next
      case False
      then show thesis using that Cons.prems(2) imm
        by (auto simp: jt1_def seen Let_def index_map_def [of jt l] index_map_extend index_of_last split: prod.splits)
    qed
    obtain more where m: "jt' = jt1 @ more" "distinct jt'" "set jt' = set jt1 \<union> set (back_refs imported ?seen cs)"
      "\<forall>rest. concat (map (expand_external (length (jt' @ rest))) out') = nonforward_ref (jt' @ rest) imported g ?seen cs"
      using Cons.IH [OF d o(1)] by blast
    have "l \<in> set jt1" by (simp add: jt1_def)
    then have "index_of (jt' @ rest) l = index_of jt1 l" for rest using m(1) by (simp add: index_of_append)
    with m Some show ?thesis
      by (auto simp: o(2) jt1_def instruction_from_opcode_def expand_external_simps split: if_splits)
  qed
qed auto

lemma fix_nonforward_eq:
  assumes "fix_nonforward_labels cs imps g = (out, jt)"
  defines "imported \<equiv> set (map (\<lambda>f. External (imp_slot_num f)) imps)"
  shows "distinct jt \<and> set jt = set (back_refs imported {} cs) \<and> out = nonforward_ref jt imported g {} cs"
proof -
  obtain out' where o: "use_jump_table imported g {} [] (index_map []) cs = (out', jt)"
    "out = concat (map (expand_external (length jt)) out')"
    using assms(1) by (auto simp: fix_nonforward_labels_def imported_def index_map_def [abs_def] split: prod.splits)
  from use_jump_table_eq [OF _ o(1)] show ?thesis by (auto simp: o(2) dest: spec [of _ "[]"])
qed

text \<open>
  C27: References backwards go through the jump table.  The jump table has no duplicates and contains exactly
  the labels that some immediate refers to after they were passed, or that are imported; the two passes over
  the code give what one pass gives that knows the table: each such reference becomes a read of the last
  global followed by a read of the field with the index of its label, all other instructions are kept.
\<close>

theorem fix_nonforward_labels_eq_reference:
  assumes "fix_nonforward_labels cs imps g = (out, jt)"
  defines "imported \<equiv> set (map (\<lambda>f. External (imp_slot_num f)) imps)"
  shows "distinct jt \<and> set jt = set (back_refs imported {} cs) \<and> out = nonforward_ref jt imported g {} cs"
  unfolding imported_def by (rule fix_nonforward_eq [OF assms(1)])

theorem fix_nonforward_labels_eq_reference_witness:
  "\<exists>out. fix_nonforward_labels [Instruction (LabelOp (Anon 3)) None debug_info_default,
       Instruction (AVM Jump) (Some (LabelV (Anon 3))) debug_info_default] [] 5 = (out, [Anon 3])
     \<and> set [Anon 3] = set (back_refs {} {} [Instruction (LabelOp (Anon 3)) None debug_info_default,
         Instruction (AVM Jump) (Some (LabelV (Anon 3))) debug_info_default])"
proof -
  let ?cs = "[Instruction (LabelOp (Anon 3)) None debug_info_default, Instruction (AVM Jump) (Some (LabelV (Anon 3))) debug_info_default]"
  obtain out where "fix_nonforward_labels ?cs [] 5 = (out, [Anon 3])"
    by (simp add: fix_nonforward_labels_def Let_def)
  with fix_nonforward_labels_eq_reference [OF this] show ?thesis by auto
qed

end
