(* ===== verification/Codegen.thy ===== *)
theory Codegen
  imports Checked_Syntax Strip_Labels
begin

text \<open>
  The code generator (\<open>src/compile/codegen.rs\<close>).  A generator is a computation on the code emitted so
  far, the label generator, the scopes that \<open>break\<close> can leave and the warnings; it may fail or panic.  Every arm
  of the two large matches of the source, over expressions and over statements, is a definition of its own that is
  given the generators of its parts; the recursive functions at the end only dispatch.
\<close>

section \<open>Definitions\<close>

subsection \<open>State and environment\<close>

record codegen_error =
  cg_reason :: string
  cg_location :: "location option"

type_synonym scope = "string \<times> label \<times> tipe option"

record cg_state =
  cg_code :: "opcode instruction list"
  cg_label_gen :: label_generator
  cg_scopes :: "scope list"
  cg_warnings :: "compile_error list"

type_synonym 'a gen = "(codegen_error, cg_state, 'a) comp"

record cg_env =
  num_locals :: usize
  locals :: "string_id \<rightharpoonup> usize"
  prepushed_vals :: usize
  strings :: string_table
  import_func_map :: "string_id \<rightharpoonup> label"
  global_var_map :: "string_id \<rightharpoonup> usize"
  release_build :: bool
  env_hash :: hash_fn

type_synonym expr_gen = "cg_env \<Rightarrow> usize gen"
type_synonym stat_gen = "cg_env \<Rightarrow> (usize \<times> (string_id \<rightharpoonup> usize)) gen"

definition new_codegen_error :: "string \<Rightarrow> location option \<Rightarrow> codegen_error" where
  "new_codegen_error reason loc = \<lparr>cg_reason = reason, cg_location = loc\<rparr>"

definition codegen_fail :: "string \<Rightarrow> location option \<Rightarrow> 'a gen" where
  "codegen_fail reason loc = fail_c (new_codegen_error reason loc)"

text \<open>Instructions pushed to the code, a fresh label, and the scopes as a stack that grows to the right.\<close>

definition emit :: "opcode instruction list \<Rightarrow> unit gen" where
  "emit is = modify_c (\<lambda>s. s\<lparr>cg_code := cg_code s @ is\<rparr>)"

definition fresh_label :: "label gen" where
  "fresh_label s =
     (let (l, lg) = label_generator_next (cg_label_gen s) in Done l (s\<lparr>cg_label_gen := lg\<rparr>))"

definition push_scope :: "scope \<Rightarrow> unit gen" where
  "push_scope sc = modify_c (\<lambda>s. s\<lparr>cg_scopes := cg_scopes s @ [sc]\<rparr>)"

definition pop_scope :: "unit gen" where
  "pop_scope = modify_c (\<lambda>s. s\<lparr>cg_scopes := butlast (cg_scopes s)\<rparr>)"

definition warn :: "compile_error \<Rightarrow> unit gen" where
  "warn w = modify_c (\<lambda>s. s\<lparr>cg_warnings := cg_warnings s @ [w]\<rparr>)"

definition more_pushed :: "usize \<Rightarrow> cg_env \<Rightarrow> cg_env" where
  "more_pushed n env = env\<lparr>prepushed_vals := prepushed_vals env + n\<rparr>"

abbreviation insn :: "avm_opcode \<Rightarrow> debug_info \<Rightarrow> opcode instruction" where
  "insn op di \<equiv> instruction_from_opcode (AVM op) di"

abbreviation insn_imm :: "avm_opcode \<Rightarrow> val \<Rightarrow> debug_info \<Rightarrow> opcode instruction" where
  "insn_imm op v di \<equiv> instruction_from_opcode_imm (AVM op) v di"

abbreviation label_insn :: "label \<Rightarrow> debug_info \<Rightarrow> opcode instruction" where
  "label_insn l di \<equiv> instruction_from_opcode (LabelOp l) di"

abbreviation index_imm :: "opcode \<Rightarrow> usize \<Rightarrow> debug_info \<Rightarrow> opcode instruction" where
  "index_imm op i di \<equiv> instruction_from_opcode_imm op (IntV (uint256_from_usize i)) di"

text \<open>Finish an expression: emit code and give the number of locals.\<close>

definition finish :: "opcode instruction list \<Rightarrow> 'a \<Rightarrow> 'a gen" where
  "finish is r = then_c (emit is) (return_c r)"

subsection \<open>Leaves\<close>

definition cg_new_buffer :: "debug_info \<Rightarrow> expr_gen" where
  "cg_new_buffer di env = finish [Instruction (AVM NewBuffer) None di] (num_locals env)"

definition cg_error :: "debug_info \<Rightarrow> expr_gen" where
  "cg_error di env = finish [insn Error di] (num_locals env)"

definition cg_get_gas :: "debug_info \<Rightarrow> expr_gen" where
  "cg_get_gas di env = finish [insn PushGas di] (num_locals env)"

definition cg_local_variable_ref :: "string_id \<Rightarrow> debug_info \<Rightarrow> expr_gen" where
  "cg_local_variable_ref name di env =
     (case locals env name of
        Some n \<Rightarrow> finish [index_imm GetLocal n di] (num_locals env)
      | None \<Rightarrow> codegen_fail ''tried to access non-existent local variable'' (location di))"

definition cg_global_variable_ref :: "usize \<Rightarrow> debug_info \<Rightarrow> expr_gen" where
  "cg_global_variable_ref idx di env = finish [instruction_from_opcode (GetGlobalVar idx) di] (num_locals env)"

definition cg_func_ref :: "string_id \<Rightarrow> debug_info \<Rightarrow> expr_gen" where
  "cg_func_ref name di env =
     (let the_label = (case import_func_map env name of Some l \<Rightarrow> l | None \<Rightarrow> Func name)
      in finish [insn_imm Noop (LabelV the_label) di] (num_locals env))"

definition cg_const :: "val \<Rightarrow> debug_info \<Rightarrow> expr_gen" where
  "cg_const v di env = finish [insn_imm Noop v di] (num_locals env)"

subsection \<open>Operators\<close>

definition cg_set_gas :: "expr_gen \<Rightarrow> debug_info \<Rightarrow> expr_gen" where
  "cg_set_gas e di env = bind_c (e env) (\<lambda>n. finish [insn SetGas di] (max (num_locals env) n))"

text \<open>The instruction of a unary operator, if it has one; \<open>None\<close> when computing the mask of addresses underflows.\<close>

definition unary_opcode :: "unary_op \<Rightarrow> (opcode option \<times> val option) option" where
  "unary_opcode op =
     (case op of
        UMinus \<Rightarrow> Some (Some UnaryMinus, None)
      | UBitwiseNeg \<Rightarrow> Some (Some (AVM BitwiseNeg), None)
      | UNot \<Rightarrow> Some (Some (AVM IsZero), None)
      | UHash \<Rightarrow> Some (Some (AVM Hash), None)
      | UToUint \<Rightarrow> Some (None, None)
      | UToInt \<Rightarrow> Some (None, None)
      | UToBytes32 \<Rightarrow> Some (None, None)
      | UToAddress \<Rightarrow>
          map_option (\<lambda>mask. (Some (AVM BitwiseAnd), Some (IntV mask)))
            (uint256_sub (uint256_exp (uint256_from_usize 2) (uint256_from_usize 160)) uint256_one)
      | ULen \<Rightarrow> Some (Some (TupleGet 3), Some (IntV uint256_zero)))"

definition cg_unary_op :: "unary_op \<Rightarrow> expr_gen \<Rightarrow> debug_info \<Rightarrow> expr_gen" where
  "cg_unary_op op e di env =
     bind_c (e env) (\<lambda>n.
       case unary_opcode op of
         None \<Rightarrow> codegen_fail ''Underflow on subtraction'' (location di)
       | Some (maybe_opcode, maybe_imm) \<Rightarrow>
           finish (case maybe_opcode of Some opc \<Rightarrow> [Instruction opc maybe_imm di] | None \<Rightarrow> [])
             (max (num_locals env) n))"

definition cg_variant :: "expr_gen \<Rightarrow> debug_info \<Rightarrow> expr_gen" where
  "cg_variant inner di env =
     bind_c (inner env) (\<lambda>n.
       finish [insn_imm Noop (value_new_tuple [IntV (uint256_from_usize 1), value_none]) di,
               insn_imm Tset (IntV (uint256_from_u64 1)) di]
         (max (num_locals env) n))"

primrec binary_opcode :: "binary_op \<Rightarrow> opcode" where
  "binary_opcode BGetBuffer8 = AVM GetBuffer8"
| "binary_opcode BGetBuffer64 = AVM GetBuffer64"
| "binary_opcode BGetBuffer256 = AVM GetBuffer256"
| "binary_opcode BPlus = AVM Add"
| "binary_opcode BMinus = AVM Sub"
| "binary_opcode BTimes = AVM Mul"
| "binary_opcode BDiv = AVM Div"
| "binary_opcode BMod = AVM Mod"
| "binary_opcode BSdiv = AVM Sdiv"
| "binary_opcode BSmod = AVM Smod"
| "binary_opcode BLessThan = AVM LessThan"
| "binary_opcode BGreaterThan = AVM GreaterThan"
| "binary_opcode BLessEq = AVM GreaterThan"
| "binary_opcode BGreaterEq = AVM LessThan"
| "binary_opcode BSLessThan = AVM SLessThan"
| "binary_opcode BSGreaterThan = AVM SGreaterThan"
| "binary_opcode BSLessEq = AVM SGreaterThan"
| "binary_opcode BSGreaterEq = AVM SLessThan"
| "binary_opcode BEqual = AVM Equal"
| "binary_opcode BNotEqual = AVM Equal"
| "binary_opcode BBitwiseAnd = AVM BitwiseAnd"
| "binary_opcode BBitwiseOr = AVM BitwiseOr"
| "binary_opcode BShiftLeft = AVM ShiftLeft"
| "binary_opcode BShiftRight = AVM ShiftRight"
| "binary_opcode BBitwiseXor = AVM BitwiseXor"
| "binary_opcode BLogicalAnd = LogicalAnd"
| "binary_opcode BLogicalOr = LogicalOr"
| "binary_opcode BHash = AVM EthHash2"

definition negated :: "binary_op \<Rightarrow> bool" where
  "negated op \<longleftrightarrow> op \<in> {BNotEqual, BLessEq, BGreaterEq, BSLessEq, BSGreaterEq}"

definition cg_binary :: "binary_op \<Rightarrow> expr_gen \<Rightarrow> expr_gen \<Rightarrow> debug_info \<Rightarrow> expr_gen" where
  "cg_binary op e1 e2 di env =
     bind_c (e2 env) (\<lambda>left_locals.
     bind_c (e1 (more_pushed 1 env)) (\<lambda>right_locals.
       finish (instruction_from_opcode (binary_opcode op) di # (if negated op then [insn IsZero di] else []))
         (max (num_locals env) (max left_locals right_locals))))"

definition trinary_opcode :: "trinary_op \<Rightarrow> opcode" where
  "trinary_opcode op =
     (case op of TSetBuffer8 \<Rightarrow> AVM SetBuffer8 | TSetBuffer64 \<Rightarrow> AVM SetBuffer64 | TSetBuffer256 \<Rightarrow> AVM SetBuffer256)"

definition cg_trinary :: "trinary_op \<Rightarrow> expr_gen \<Rightarrow> expr_gen \<Rightarrow> expr_gen \<Rightarrow> debug_info \<Rightarrow> expr_gen" where
  "cg_trinary op e1 e2 e3 di env =
     bind_c (e3 env) (\<lambda>locals3.
     bind_c (e2 (more_pushed 1 env)) (\<lambda>locals2.
     bind_c (e1 (more_pushed 2 env)) (\<lambda>locals1.
       finish [instruction_from_opcode (trinary_opcode op) di]
         (max (num_locals env) (max locals1 (max locals2 locals3))))))"

definition cg_shortcut_or :: "expr_gen \<Rightarrow> expr_gen \<Rightarrow> debug_info \<Rightarrow> expr_gen" where
  "cg_shortcut_or e1 e2 di env =
     bind_c (e1 env) (\<lambda>left_locals.
     bind_c fresh_label (\<lambda>lab.
     then_c (emit [insn Dup0 di, insn_imm Cjump (LabelV lab) di, insn Pop di])
     (bind_c (e2 env) (\<lambda>right_locals.
       finish [label_insn lab di] (max (num_locals env) (max left_locals right_locals))))))"

definition cg_shortcut_and :: "expr_gen \<Rightarrow> expr_gen \<Rightarrow> debug_info \<Rightarrow> expr_gen" where
  "cg_shortcut_and e1 e2 di env =
     bind_c (e1 env) (\<lambda>left_locals.
     bind_c fresh_label (\<lambda>lab.
     then_c (emit [insn Dup0 di, insn IsZero di, insn_imm Cjump (LabelV lab) di, insn Pop di])
     (bind_c (e2 env) (\<lambda>right_locals.
       finish [label_insn lab di] (max (num_locals env) (max left_locals right_locals))))))"

subsection \<open>Tuples and structs\<close>

definition cg_tuple_ref :: "tipe \<Rightarrow> expr_gen \<Rightarrow> uint256 \<Rightarrow> debug_info \<Rightarrow> expr_gen" where
  "cg_tuple_ref tce_type e idx di env =
     (case tce_type of
        TTuple flds \<Rightarrow>
          bind_c (e env) (\<lambda>n.
            finish [instruction_from_opcode_imm (TupleGet (length flds)) (IntV idx) di] (max (num_locals env) n))
      | _ \<Rightarrow>
          codegen_fail (''type-checking bug: tuple lookup in non-tuple type '' @ quoted (type_display tce_type))
            (location di))"

definition cg_dot_ref :: "expr_gen \<Rightarrow> usize \<Rightarrow> usize \<Rightarrow> debug_info \<Rightarrow> expr_gen" where
  "cg_dot_ref e slot_num s_size di env =
     bind_c (e env) (\<lambda>n. finish [index_imm (TupleGet s_size) slot_num di] (max (num_locals env) n))"

text \<open>The loops over arguments, from the last to the first; each runs with one more value on the stack.\<close>

fun cg_pushes :: "expr_gen list \<Rightarrow> expr_gen" where
  "cg_pushes [] env = return_c 0"
| "cg_pushes (e # es) env =
     bind_c (e env) (\<lambda>n. bind_c (cg_pushes es (more_pushed 1 env)) (\<lambda>m. return_c (max n m)))"

definition cg_struct_initializer :: "expr_gen list \<Rightarrow> debug_info \<Rightarrow> expr_gen" where
  "cg_struct_initializer inits di env =
     bind_c (cg_pushes (rev inits) env) (\<lambda>struct_locals.
       finish (insn_imm Noop (make_empty (tuple_tree_new (length inits) False)) di
               # map (\<lambda>i. index_imm (TupleSet (length inits)) i di) [0..<length inits])
         (max (num_locals env) struct_locals))"

definition cg_tuple :: "expr_gen list \<Rightarrow> debug_info \<Rightarrow> expr_gen" where
  "cg_tuple flds di env =
     bind_c (cg_pushes (rev flds) env) (\<lambda>tuple_locals.
       finish (insn_imm Noop (value_new_tuple (replicate (length flds) value_none)) di
               # map (\<lambda>i. index_imm (TupleSet (length flds)) i di) [0..<length flds])
         (max (num_locals env) tuple_locals))"

definition cg_struct_mod :: "expr_gen \<Rightarrow> usize \<Rightarrow> expr_gen \<Rightarrow> tipe \<Rightarrow> debug_info \<Rightarrow> expr_gen" where
  "cg_struct_mod struc index val t di env =
     bind_c (val env) (\<lambda>val_locals.
     bind_c (struc (more_pushed 1 env)) (\<lambda>struc_locals.
       case t of
         TStruct v \<Rightarrow>
           finish [index_imm (TupleSet (length v)) index di] (max (num_locals env) (max val_locals struc_locals))
       | _ \<Rightarrow> panic_c))"

subsection \<open>Calls\<close>

definition cg_function_call :: "expr_gen \<Rightarrow> expr_gen list \<Rightarrow> tipe \<Rightarrow> debug_info \<Rightarrow> expr_gen" where
  "cg_function_call fexpr args func_type di env =
     bind_c fresh_label (\<lambda>ret_label.
     bind_c (cg_pushes (rev args) env) (\<lambda>args_locals.
     then_c (emit (if func_type \<noteq> TEvery then [insn_imm Noop (LabelV ret_label) di] else []))
     (bind_c (fexpr (more_pushed (length args + 1) env)) (\<lambda>fexpr_locals.
       finish [insn Jump di, label_insn ret_label di] (max (num_locals env) (max fexpr_locals args_locals))))))"

text \<open>A call of a function of the library; its name must have been interned.\<close>

definition cg_builtin_call :: "string \<Rightarrow> expr_gen list \<Rightarrow> tipe \<Rightarrow> location option \<Rightarrow> expr_gen" where
  "cg_builtin_call name args call_type loc env =
     (case string_table_get_if_exists (strings env) name of
        None \<Rightarrow> panic_c
      | Some i \<Rightarrow> cg_function_call (cg_func_ref i (debug_info_from loc)) args call_type (debug_info_from loc) env)"

definition cg_array_ref :: "expr_gen \<Rightarrow> expr_gen \<Rightarrow> tipe \<Rightarrow> debug_info \<Rightarrow> expr_gen" where
  "cg_array_ref e1 e2 t di =
     cg_builtin_call ''builtin_arrayGet'' [e1, e2] (TFunc False [TArray TAny, TUint] t) (location di)"

definition cg_map_ref :: "expr_gen \<Rightarrow> expr_gen \<Rightarrow> debug_info \<Rightarrow> expr_gen" where
  "cg_map_ref e1 e2 di =
     cg_builtin_call ''builtin_kvsGet'' [e1, e2] (TFunc False [TAny, TAny] (TOption TAny)) (location di)"

definition cg_new_array :: "expr_gen \<Rightarrow> tipe \<Rightarrow> tipe \<Rightarrow> debug_info \<Rightarrow> expr_gen" where
  "cg_new_array sz_expr base_type array_type di env =
     (case default_value (env_hash env) base_type of
        None \<Rightarrow> panic_c
      | Some (default_val, is_safe) \<Rightarrow>
          cg_builtin_call ''builtin_arrayNew'' [sz_expr, cg_const default_val (debug_info_from (location di))]
            (TFunc False [TUint, TAny] array_type) (location di) env)"

definition cg_new_map :: "debug_info \<Rightarrow> expr_gen" where
  "cg_new_map di = cg_builtin_call ''builtin_kvsNew'' [] (TFunc False [] TAny) (location di)"

definition cg_array_mod :: "expr_gen \<Rightarrow> expr_gen \<Rightarrow> expr_gen \<Rightarrow> tipe \<Rightarrow> tipe \<Rightarrow> tipe \<Rightarrow> debug_info \<Rightarrow> expr_gen" where
  "cg_array_mod arr index val t1 t2 t3 di =
     cg_builtin_call ''builtin_arraySet'' [arr, index, val] (TFunc False [t1, t2, t3] t1) (location di)"

definition cg_map_mod :: "expr_gen \<Rightarrow> expr_gen \<Rightarrow> expr_gen \<Rightarrow> tipe \<Rightarrow> tipe \<Rightarrow> tipe \<Rightarrow> debug_info \<Rightarrow> expr_gen" where
  "cg_map_mod m key val t1 t2 t3 di =
     cg_builtin_call ''builtin_kvsSet'' [m, key, val] (TFunc False [t1, t2, t3] t1) (location di)"

subsection \<open>Fixed arrays\<close>

text \<open>The code that stops with an error when the index on the stack is out of bounds.\<close>

definition bounds_check :: "usize \<Rightarrow> label \<Rightarrow> debug_info \<Rightarrow> opcode instruction list" where
  "bounds_check sz cont di =
     [insn Dup0 di, index_imm (AVM GreaterThan) sz di, insn_imm Cjump (LabelV cont) di, insn Error di, label_insn cont di]"

definition cg_bounds_check :: "usize \<Rightarrow> debug_info \<Rightarrow> unit gen" where
  "cg_bounds_check sz di =
     (if sz \<noteq> 8 then bind_c fresh_label (\<lambda>cont_label. emit (bounds_check sz cont_label di)) else return_c ())"

definition cg_fixed_array_ref :: "expr_gen \<Rightarrow> expr_gen \<Rightarrow> usize \<Rightarrow> debug_info \<Rightarrow> expr_gen" where
  "cg_fixed_array_ref e1 e2 sz di env =
     bind_c (e1 env) (\<lambda>exp1_locals.
     bind_c (e2 (more_pushed 1 env)) (\<lambda>exp2_locals.
     then_c (cg_bounds_check sz di)
       (finish [instruction_from_opcode (UncheckedFixedArrayGet sz) di]
         (max (num_locals env) (max exp1_locals exp2_locals)))))"

text \<open>Eight copies of the value on the stack become a tuple.\<close>

definition eight_copies :: "debug_info \<Rightarrow> opcode instruction list" where
  "eight_copies di =
     replicate 7 (insn Dup0 di) @ insn_imm Noop (value_new_tuple (replicate 8 (value_new_tuple []))) di
       # map (\<lambda>i. index_imm (AVM Tset) i di) [0..<8]"

text \<open>The loop that nests the array; it is entered with \<open>tuple_sz\<close> equal to 8.\<close>

function nest_copies :: "usize \<Rightarrow> usize \<Rightarrow> debug_info \<Rightarrow> opcode instruction list" where
  "nest_copies tuple_sz sz di =
     (if 0 < tuple_sz \<and> tuple_sz < sz then eight_copies di @ nest_copies (tuple_sz * 8) sz di else [])"
  by auto
termination
  by (relation "measure (\<lambda>(tuple_sz, sz, di). sz - tuple_sz)") auto

declare nest_copies.simps [simp del]

definition cg_new_fixed_array :: "usize \<Rightarrow> expr_gen option \<Rightarrow> debug_info \<Rightarrow> expr_gen" where
  "cg_new_fixed_array sz bo_expr di env =
     bind_c
       (case bo_expr of
          Some e \<Rightarrow> bind_c (e env) (\<lambda>some_locals. finish (eight_copies di) some_locals)
        | None \<Rightarrow> finish [insn_imm Noop (value_new_tuple (replicate 8 (value_new_tuple []))) di] 0)
       (\<lambda>expr_locals. finish (nest_copies 8 sz di) (max (num_locals env) expr_locals))"

text \<open>The code that replaces an element in nested tuples: \<open>codegen_fixed_array_mod_2\<close>.\<close>

definition descend_code :: "debug_info \<Rightarrow> opcode instruction list" where
  "descend_code di =
     [index_imm (AVM Dup2) tuple_size di, insn AuxPush di, insn Dup1 di, insn Mod di, insn Dup0 di, insn AuxPush di,
      insn Swap1 di, index_imm (AVM Swap1) tuple_size di, insn Div di, insn Swap2 di, insn Swap1 di, insn Tget di,
      insn Swap1 di]"

definition ascend_code :: "debug_info \<Rightarrow> opcode instruction list" where
  "ascend_code di = [insn AuxPop di, insn AuxPop di, insn Swap1 di, insn Tset di]"

function fixed_array_mod_2 :: "usize \<Rightarrow> debug_info \<Rightarrow> opcode instruction list" where
  "fixed_array_mod_2 sz di =
     (if sz \<le> 8 then [insn Tset di]
      else descend_code di @ fixed_array_mod_2 ((sz + (tuple_size - 1)) div tuple_size) di @ ascend_code di)"
  by auto
termination
  by (relation "measure fst") (auto simp: tuple_size_def)

declare fixed_array_mod_2.simps [simp del]

definition cg_fixed_array_mod :: "expr_gen \<Rightarrow> expr_gen \<Rightarrow> expr_gen \<Rightarrow> usize \<Rightarrow> debug_info \<Rightarrow> expr_gen" where
  "cg_fixed_array_mod arr_expr idx_expr val_expr sz di env =
     bind_c (val_expr env) (\<lambda>val_locals.
     bind_c (arr_expr (more_pushed 1 env)) (\<lambda>arr_locals.
     bind_c (idx_expr (more_pushed 2 env)) (\<lambda>idx_locals.
     then_c (cg_bounds_check sz di)
       (finish (fixed_array_mod_2 sz di)
         (max (num_locals env) (max val_locals (max arr_locals idx_locals)))))))"

subsection \<open>Control flow\<close>

definition cg_asm :: "opcode instruction list \<Rightarrow> expr_gen list \<Rightarrow> expr_gen" where
  "cg_asm insns args env =
     bind_c (cg_pushes (rev args) env) (\<lambda>args_locals. finish insns (max (num_locals env) args_locals))"

text \<open>Remove the values below the result before returning early.\<close>

definition clear_prepushed :: "usize \<Rightarrow> debug_info \<Rightarrow> opcode instruction list" where
  "clear_prepushed n di =
     (if n > 0 then insn AuxPush di # replicate n (insn Pop di) @ [insn AuxPop di] else [])"

definition cg_try :: "expr_gen \<Rightarrow> debug_info \<Rightarrow> expr_gen" where
  "cg_try e di env =
     bind_c (e env) (\<lambda>n.
     bind_c fresh_label (\<lambda>extract.
       finish ([insn Dup0 di, insn_imm Tget (IntV uint256_zero) di, insn_imm Cjump (LabelV extract) di]
               @ clear_prepushed (prepushed_vals env) di
               @ [instruction_from_opcode Return di, label_insn extract di, insn_imm Tget (IntV uint256_one) di])
         (max (num_locals env) n)))"

definition cg_code_block :: "stat_gen \<Rightarrow> expr_gen option \<Rightarrow> string option \<Rightarrow> debug_info \<Rightarrow> expr_gen" where
  "cg_code_block body ret_expr sc di env =
     bind_c fresh_label (\<lambda>bottom_label.
     then_c (push_scope (case sc of Some name \<Rightarrow> name | None \<Rightarrow> ''_'', bottom_label, None))
     (bind_c (body env) (\<lambda>(nl, block_locals).
       case ret_expr of
         Some e \<Rightarrow>
           bind_c (e (env\<lparr>num_locals := nl, locals := locals env ++ block_locals\<rparr>)) (\<lambda>exp_locals.
           then_c (emit [label_insn bottom_label di])
           (then_c pop_scope (return_c (max (num_locals env) (max exp_locals nl)))))
       | None \<Rightarrow> finish [label_insn bottom_label di] (max (num_locals env) nl))))"

definition cg_if :: "expr_gen \<Rightarrow> expr_gen \<Rightarrow> expr_gen option \<Rightarrow> debug_info \<Rightarrow> expr_gen" where
  "cg_if cond block else_block di env =
     bind_c (cond env) (\<lambda>cond_locals.
     bind_c fresh_label (\<lambda>after_label.
     bind_c fresh_label (\<lambda>end_label.
     then_c (emit [insn IsZero di, insn_imm Cjump (LabelV after_label) di])
     (bind_c (block env) (\<lambda>block_locals.
     then_c (emit ((if else_block \<noteq> None then [insn_imm Jump (LabelV end_label) di] else [])
                   @ [label_insn after_label di]))
     (bind_c (case else_block of Some e \<Rightarrow> e env | None \<Rightarrow> return_c 0) (\<lambda>else_locals.
       finish [label_insn end_label di] (max cond_locals (max block_locals else_locals)))))))))"

definition cg_if_let :: "string_id \<Rightarrow> expr_gen \<Rightarrow> expr_gen \<Rightarrow> expr_gen option \<Rightarrow> debug_info \<Rightarrow> expr_gen" where
  "cg_if_let name e block else_block di env =
     bind_c fresh_label (\<lambda>after_label.
     bind_c (e env) (\<lambda>exp_locals.
     then_c (emit [insn Dup0 di, insn_imm Tget (IntV (uint256_from_usize 0)) di, insn IsZero di,
                   insn_imm Cjump (LabelV after_label) di, insn_imm Tget (IntV (uint256_from_usize 1)) di,
                   index_imm SetLocal (num_locals env) di])
     (bind_c (block (env\<lparr>num_locals := num_locals env + 1, locals := (locals env)(name \<mapsto> num_locals env)\<rparr>))
       (\<lambda>block_locals.
     bind_c fresh_label (\<lambda>outside_label.
     then_c (emit [insn_imm Jump (LabelV outside_label) di, label_insn after_label di, insn Pop di])
     (bind_c (case else_block of Some b \<Rightarrow> b env | None \<Rightarrow> return_c 0) (\<lambda>else_locals.
       finish [label_insn outside_label di] (max (max block_locals exp_locals) else_locals))))))))"

definition cg_loop :: "stat_gen \<Rightarrow> debug_info \<Rightarrow> expr_gen" where
  "cg_loop body di env =
     bind_c fresh_label (\<lambda>top_label.
     bind_c fresh_label (\<lambda>bottom_label.
     then_c (push_scope (''_'', bottom_label, Some (TTuple [])))
     (then_c (emit [insn_imm Noop (LabelV top_label) di, index_imm SetLocal (num_locals env) di, label_insn top_label di])
     (bind_c (body (env\<lparr>num_locals := num_locals env + 1\<rparr>)) (\<lambda>(nl, bindings).
     then_c pop_scope
       (finish [index_imm GetLocal (num_locals env) di, insn Jump di, label_insn bottom_label di]
         (max (num_locals env + 1) nl)))))))"

subsection \<open>Statements\<close>

fun cg_statements :: "stat_gen list \<Rightarrow> (string_id \<rightharpoonup> usize) \<Rightarrow> stat_gen" where
  "cg_statements [] bindings env = return_c (num_locals env, bindings)"
| "cg_statements (stat # stats) bindings env =
     bind_c (stat (env\<lparr>locals := locals env ++ bindings\<rparr>)) (\<lambda>(statement_locals, statement_bindings).
       cg_statements stats (bindings ++ statement_bindings)
         (env\<lparr>num_locals := max statement_locals (num_locals env)\<rparr>))"

definition cg_return_void :: "debug_info \<Rightarrow> stat_gen" where
  "cg_return_void di env = finish [instruction_from_opcode Return di] (0, Map.empty)"

definition cg_return :: "expr_gen \<Rightarrow> debug_info \<Rightarrow> stat_gen" where
  "cg_return e di env =
     bind_c (e env) (\<lambda>n.
       finish (clear_prepushed (prepushed_vals env) di @ [instruction_from_opcode Return di]) (n, Map.empty))"

text \<open>The innermost scope with a name, and setting its type if it has none yet.\<close>

definition find_scope :: "string \<Rightarrow> scope list \<Rightarrow> scope option" where
  "find_scope name scs = find (\<lambda>(s, _, _). name = s) (rev scs)"

fun set_first_type :: "string \<Rightarrow> tipe \<Rightarrow> scope list \<Rightarrow> scope list" where
  "set_first_type name t [] = []"
| "set_first_type name t ((s, l, ot) # scs) =
     (if name = s then (s, l, case ot of Some t' \<Rightarrow> Some t' | None \<Rightarrow> Some t) # scs
      else (s, l, ot) # set_first_type name t scs)"

definition set_scope_type :: "string \<Rightarrow> tipe \<Rightarrow> scope list \<Rightarrow> scope list" where
  "set_scope_type name t scs = rev (set_first_type name t (rev scs))"

text \<open>The expression of a \<open>break\<close> is generated with a copy of the scopes, which is dropped.\<close>

definition cg_break :: "(expr_gen \<times> tipe) option \<Rightarrow> string \<Rightarrow> debug_info \<Rightarrow> stat_gen" where
  "cg_break oexpr scope_id di env s =
     (case find_scope scope_id (cg_scopes s) of
        None \<Rightarrow> codegen_fail (''could not find scope '' @ scope_id) (location di) s
      | Some (scope_name, lab, t) \<Rightarrow>
          bind_c (case oexpr of Some (e, tipe) \<Rightarrow> e env | None \<Rightarrow> return_c (prepushed_vals env)) (\<lambda>n.
          then_c (modify_c (\<lambda>s'. s'\<lparr>cg_scopes :=
            set_scope_type scope_id (case oexpr of Some (e, tipe) \<Rightarrow> tipe | None \<Rightarrow> TTuple []) (cg_scopes s)\<rparr>))
          (finish [insn_imm Jump (LabelV lab) di] (n, Map.empty))) s)"

text \<open>The text that the standard library prints for a value of type \<open>Type\<close>.\<close>

definition comma_sep :: "string list \<Rightarrow> string" where
  "comma_sep xs = (case xs of [] \<Rightarrow> '''' | y # ys \<Rightarrow> y @ concat (map (\<lambda>z. '', '' @ z) ys))"

fun type_debug :: "tipe \<Rightarrow> string" where
  "type_debug TVoid = ''Void''"
| "type_debug TUint = ''Uint''"
| "type_debug TInt = ''Int''"
| "type_debug TBool = ''Bool''"
| "type_debug TBytes32 = ''Bytes32''"
| "type_debug TEthAddress = ''EthAddress''"
| "type_debug TBuffer = ''Buffer''"
| "type_debug (TTuple ts) = ''Tuple(['' @ comma_sep (map type_debug ts) @ ''])''"
| "type_debug (TArray t) = ''Array('' @ type_debug t @ '')''"
| "type_debug (TFixedArray t n) = ''FixedArray('' @ type_debug t @ '', '' @ decimal n @ '')''"
| "type_debug (TStruct flds) =
     ''Struct(['' @ comma_sep (map (\<lambda>f. ''StructField { name: '' @ quoted (field_name f) @ '', tipe: ''
       @ type_debug (field_tipe f) @ '' }'') flds) @ ''])''"
| "type_debug (TNominal path i) = ''Nominal(['' @ comma_sep (map quoted path) @ ''], '' @ decimal i @ '')''"
| "type_debug (TFunc impure args ret) =
     ''Func('' @ (if impure then ''true'' else ''false'') @ '', ['' @ comma_sep (map type_debug args) @ ''], ''
       @ type_debug ret @ '')''"
| "type_debug (TMap k v) = ''Map('' @ type_debug k @ '', '' @ type_debug v @ '')''"
| "type_debug TAny = ''Any''"
| "type_debug TEvery = ''Every''"
| "type_debug (TOption t) = ''Option('' @ type_debug t @ '')''"
| "type_debug (TUnion ts) = ''Union(['' @ comma_sep (map type_debug ts) @ ''])''"

definition cg_expression :: "expr_gen \<Rightarrow> tipe \<Rightarrow> debug_info \<Rightarrow> stat_gen" where
  "cg_expression e t di env =
     bind_c (e env) (\<lambda>n.
     then_c
       (if t = TVoid \<or> t = TEvery then return_c ()
        else then_c (emit [insn Pop di])
          (if t \<noteq> TTuple []
           then warn (compile_error_new_warning ''Compile warning''
                  (''expression statement returns value of type '' @ type_debug t @ '', which is discarded'') (loc_list di))
           else return_c ()))
       (return_c (n, Map.empty)))"

text \<open>
  Binding and assigning the parts of a tuple: the number of new locals, their slots and the names assigned.  The source
  keeps the names in a hash set; with several duplicates in one pattern, its order decides which one is reported.
\<close>

fun note_assignments :: "string_id list \<Rightarrow> debug_info \<Rightarrow> cg_env \<Rightarrow> string_id list \<Rightarrow> string_id list gen" where
  "note_assignments seen di env [] = return_c seen"
| "note_assignments seen di env (name # names) =
     (if name \<in> set seen
      then (case string_table_name_from_id (strings env) name of
              None \<Rightarrow> panic_c
            | Some n \<Rightarrow> codegen_fail (''assigned to variable '' @ n @ '' in mixed let multiple times'') (location di))
      else note_assignments (seen @ [name]) di env names)"

fun cg_tuple_pattern ::
    "'a match_pattern \<Rightarrow> usize \<Rightarrow> debug_info \<Rightarrow> cg_env \<Rightarrow> (usize \<times> (string_id \<rightharpoonup> usize) \<times> string_id list) gen"
and cg_sub_patterns ::
    "'a match_pattern list \<Rightarrow> usize \<Rightarrow> usize \<Rightarrow> usize \<Rightarrow> usize \<Rightarrow> (string_id \<rightharpoonup> usize) \<Rightarrow> string_id list
     \<Rightarrow> debug_info \<Rightarrow> cg_env \<Rightarrow> (usize \<times> (string_id \<rightharpoonup> usize) \<times> string_id list) gen" where
  "cg_tuple_pattern (MatchPattern (PBind name) pdi c) base di env =
     finish [index_imm SetLocal base di] (1, [name \<mapsto> base], [])"
| "cg_tuple_pattern (MatchPattern (PAssign name) pdi c) base di env =
     (case locals env name of
        Some slot \<Rightarrow> finish [index_imm SetLocal slot di] (0, Map.empty, [name])
      | None \<Rightarrow>
          (case global_var_map env name of
             None \<Rightarrow> codegen_fail ''assigned to non-existent variable in mixed let'' (location di)
           | Some idx \<Rightarrow> finish [instruction_from_opcode (SetGlobalVar idx) di] (0, Map.empty, [name])))"
| "cg_tuple_pattern (MatchPattern (PTuple sub_pats) pdi c) base di env =
     cg_sub_patterns sub_pats 0 (length sub_pats) base 0 Map.empty [] di env"
| "cg_sub_patterns [] i pat_size base num_bindings bindings assignments di env =
     return_c (num_bindings, bindings, assignments)"
| "cg_sub_patterns (pat # pats) i pat_size base num_bindings bindings assignments di env =
     then_c (emit ((if i < pat_size - 1 then [insn Dup0 di] else []) @ [index_imm (TupleGet pat_size) i di]))
     (bind_c (cg_tuple_pattern pat (base + num_bindings) di env) (\<lambda>(num_new_bindings, new_bindings, new_assignments).
      bind_c (note_assignments assignments di env new_assignments) (\<lambda>assignments'.
        cg_sub_patterns pats (i + 1) pat_size base (num_bindings + num_new_bindings) (bindings ++ new_bindings)
          assignments' di env)))"

definition cg_let :: "'a match_pattern \<Rightarrow> expr_gen \<Rightarrow> debug_info \<Rightarrow> stat_gen" where
  "cg_let pat e di env =
     bind_c (e env) (\<lambda>exp_locals.
     bind_c (cg_tuple_pattern pat (num_locals env) di env) (\<lambda>(new_locals, bindings, assignments).
       return_c (max (num_locals env + new_locals) exp_locals, bindings)))"

definition cg_assign_local :: "string_id \<Rightarrow> expr_gen \<Rightarrow> debug_info \<Rightarrow> stat_gen" where
  "cg_assign_local name e di env =
     (case locals env name of
        None \<Rightarrow> codegen_fail ''assigned to non-existent variable'' (location di)
      | Some slot_num \<Rightarrow> bind_c (e env) (\<lambda>n. finish [index_imm SetLocal slot_num di] (n, Map.empty)))"

definition cg_assign_global :: "usize \<Rightarrow> expr_gen \<Rightarrow> debug_info \<Rightarrow> stat_gen" where
  "cg_assign_global idx e di env =
     bind_c (e env) (\<lambda>n. finish [instruction_from_opcode (SetGlobalVar idx) di] (n, Map.empty))"

definition cg_while :: "expr_gen \<Rightarrow> stat_gen \<Rightarrow> debug_info \<Rightarrow> stat_gen" where
  "cg_while cond body di env =
     bind_c fresh_label (\<lambda>top_label.
     bind_c fresh_label (\<lambda>cond_label.
     then_c (emit [insn_imm Noop (LabelV top_label) di, index_imm SetLocal (num_locals env) di,
                   insn_imm Jump (LabelV cond_label) di, label_insn top_label di])
     (bind_c (body (env\<lparr>num_locals := num_locals env + 1\<rparr>)) (\<lambda>(nl, bindings).
     then_c (emit [label_insn cond_label di])
     (bind_c (cond (env\<lparr>num_locals := nl\<rparr>)) (\<lambda>cond_locals.
       finish [index_imm GetLocal (num_locals env) di, insn Cjump di] (max cond_locals nl, Map.empty)))))))"

definition cg_asm_statement :: "opcode instruction list \<Rightarrow> expr_gen list \<Rightarrow> stat_gen" where
  "cg_asm_statement insns args env =
     bind_c (cg_pushes (rev args) env) (\<lambda>exp_locals. finish insns (exp_locals, Map.empty))"

definition cg_debug_print :: "expr_gen \<Rightarrow> debug_info \<Rightarrow> stat_gen" where
  "cg_debug_print e di env = bind_c (e env) (\<lambda>n. finish [insn DebugPrint di] (n, Map.empty))"

definition cg_assert :: "expr_gen \<Rightarrow> debug_info \<Rightarrow> stat_gen" where
  "cg_assert e di env =
     (if release_build env then return_c (0, Map.empty)
      else bind_c
        (cg_builtin_call ''builtin_assert'' [e] (TFunc False [TTuple [TBool, TAny]] TVoid) (location di) env)
        (\<lambda>n. return_c (n, Map.empty)))"

subsection \<open>The recursion\<close>

primrec codegen_expr :: "tc_expr \<Rightarrow> expr_gen"
  and codegen_kind :: "tc_expr_kind \<Rightarrow> debug_info \<Rightarrow> expr_gen"
  and codegen_statement :: "tc_statement \<Rightarrow> stat_gen"
  and codegen_statement_kind :: "tc_statement_kind \<Rightarrow> debug_info \<Rightarrow> stat_gen"
  and codegen_block :: "tc_code_block \<Rightarrow> debug_info \<Rightarrow> expr_gen" where
  "codegen_expr (TcExpr k di) = codegen_kind k di"
| "codegen_kind ENewBuffer = cg_new_buffer"
| "codegen_kind EError = cg_error"
| "codegen_kind EGetGas = cg_get_gas"
| "codegen_kind (ESetGas e) = cg_set_gas (codegen_expr e)"
| "codegen_kind (EUnaryOp op e t) = cg_unary_op op (codegen_expr e)"
| "codegen_kind (EVariant e) = cg_variant (codegen_expr e)"
| "codegen_kind (EBinary op e1 e2 t) = cg_binary op (codegen_expr e1) (codegen_expr e2)"
| "codegen_kind (ETrinary op e1 e2 e3 t) = cg_trinary op (codegen_expr e1) (codegen_expr e2) (codegen_expr e3)"
| "codegen_kind (EShortcutOr e1 e2) = cg_shortcut_or (codegen_expr e1) (codegen_expr e2)"
| "codegen_kind (EShortcutAnd e1 e2) = cg_shortcut_and (codegen_expr e1) (codegen_expr e2)"
| "codegen_kind (ELocalVariableRef name t) = cg_local_variable_ref name"
| "codegen_kind (EGlobalVariableRef idx t) = cg_global_variable_ref idx"
| "codegen_kind (EFuncRef name t) = cg_func_ref name"
| "codegen_kind (ETupleRef e idx t) = cg_tuple_ref (expr_get_type e) (codegen_expr e) idx"
| "codegen_kind (EDotRef e slot_num s_size t) = cg_dot_ref (codegen_expr e) slot_num s_size"
| "codegen_kind (EConst v t) = cg_const v"
| "codegen_kind (EFunctionCall f args t props) = cg_function_call (codegen_expr f) (map codegen_expr args) t"
| "codegen_kind (ECodeBlock b) = codegen_block b"
| "codegen_kind (EStructInitializer inits t) =
     cg_struct_initializer (map init_value (map (map_field_initializer codegen_expr) inits))"
| "codegen_kind (ETuple es t) = cg_tuple (map codegen_expr es)"
| "codegen_kind (EArrayRef e1 e2 t) = cg_array_ref (codegen_expr e1) (codegen_expr e2) t"
| "codegen_kind (EFixedArrayRef e1 e2 sz t) = cg_fixed_array_ref (codegen_expr e1) (codegen_expr e2) sz"
| "codegen_kind (EMapRef e1 e2 t) = cg_map_ref (codegen_expr e1) (codegen_expr e2)"
| "codegen_kind (ENewArray e base t) = cg_new_array (codegen_expr e) base t"
| "codegen_kind (ENewFixedArray sz oe t) = cg_new_fixed_array sz (map_option codegen_expr oe)"
| "codegen_kind (ENewMap t) = cg_new_map"
| "codegen_kind (EArrayMod e1 e2 e3 t) =
     cg_array_mod (codegen_expr e1) (codegen_expr e2) (codegen_expr e3)
       (expr_get_type e1) (expr_get_type e2) (expr_get_type e3)"
| "codegen_kind (EFixedArrayMod e1 e2 e3 sz t) =
     cg_fixed_array_mod (codegen_expr e1) (codegen_expr e2) (codegen_expr e3) sz"
| "codegen_kind (EMapMod e1 e2 e3 t) =
     cg_map_mod (codegen_expr e1) (codegen_expr e2) (codegen_expr e3)
       (expr_get_type e1) (expr_get_type e2) (expr_get_type e3)"
| "codegen_kind (EStructMod e1 idx e2 t) = cg_struct_mod (codegen_expr e1) idx (codegen_expr e2) t"
| "codegen_kind (ECast e t) = (\<lambda>di. codegen_expr e)"
| "codegen_kind (EAsm t insns args) = (\<lambda>di. cg_asm insns (map codegen_expr args))"
| "codegen_kind (ETry e t) = cg_try (codegen_expr e)"
| "codegen_kind (EIf c b ob t) =
     (\<lambda>di. cg_if (codegen_expr c) (codegen_block b di) (map_option (\<lambda>g. g di) (map_option codegen_block ob)) di)"
| "codegen_kind (EIfLet name e b ob t) =
     (\<lambda>di. cg_if_let name (codegen_expr e) (codegen_block b di) (map_option (\<lambda>g. g di) (map_option codegen_block ob)) di)"
| "codegen_kind (ELoop stats) = cg_loop (cg_statements (map codegen_statement stats) Map.empty)"
| "codegen_statement (TcStatement k di) = codegen_statement_kind k di"
| "codegen_statement_kind SNoop = (\<lambda>di env. return_c (0, Map.empty))"
| "codegen_statement_kind SReturnVoid = cg_return_void"
| "codegen_statement_kind (SReturn e) = cg_return (codegen_expr e)"
| "codegen_statement_kind (SBreak oe scope_id) =
     (case map_option (\<lambda>e. (codegen_expr e, e)) oe of
        None \<Rightarrow> cg_break None scope_id
      | Some (g, e) \<Rightarrow> cg_break (Some (g, expr_get_type e)) scope_id)"
| "codegen_statement_kind (SExpression e) = cg_expression (codegen_expr e) (expr_get_type e)"
| "codegen_statement_kind (SLet pat e) = cg_let pat (codegen_expr e)"
| "codegen_statement_kind (SAssignLocal name e) = cg_assign_local name (codegen_expr e)"
| "codegen_statement_kind (SAssignGlobal idx e) = cg_assign_global idx (codegen_expr e)"
| "codegen_statement_kind (SWhile c stats) =
     cg_while (codegen_expr c) (cg_statements (map codegen_statement stats) Map.empty)"
| "codegen_statement_kind (SAsm insns args) = (\<lambda>di. cg_asm_statement insns (map codegen_expr args))"
| "codegen_statement_kind (SDebugPrint e) = cg_debug_print (codegen_expr e)"
| "codegen_statement_kind (SAssert e) = cg_assert (codegen_expr e)"
| "codegen_block (TcCodeBlock body r sc) =
     cg_code_block (cg_statements (map codegen_statement body) Map.empty) (map_option codegen_expr r) sc"

subsection \<open>Functions and modules\<close>

definition with_return_void :: "tc_func \<Rightarrow> tc_func" where
  "with_return_void f =
     (if func_ret_type f = TVoid \<and> (func_code f = [] \<or> stat_kind (last (func_code f)) \<noteq> SReturnVoid)
      then f\<lparr>func_code := func_code f @
        [TcStatement SReturnVoid (debug_info_default\<lparr>attributes :=
           attributes_default\<lparr>codegen_print := codegen_print (attributes (func_debug_info f))\<rparr>\<rparr>)]\<rparr>
      else f)"

text \<open>The slots of the arguments; a later argument with the same name wins.\<close>

definition arg_slots :: "func_arg list \<Rightarrow> (string_id \<rightharpoonup> usize)" where
  "arg_slots args = map_of (rev (zip (map arg_name args) [0..<length args]))"

text \<open>The code of a function, which has a vector of its own and no scopes at first.\<close>

definition mavm_codegen_func :: "tc_func \<Rightarrow> cg_env \<Rightarrow> opcode instruction list gen" where
  "mavm_codegen_func func0 env s =
     (let func = with_return_void func0;
          di = func_debug_info func;
          num_args = length (func_args func)
      in case cg_statements (map codegen_statement (func_code func)) Map.empty
                (env\<lparr>num_locals := num_args, locals := arg_slots (func_args func), prepushed_vals := 0\<rparr>)
                (s\<lparr>cg_code := [label_insn (Func (func_name func)) di, insn Noop di], cg_scopes := []\<rparr>) of
           Panic \<Rightarrow> Panic
         | Fail e s' \<Rightarrow> Fail e s'
         | Done (max_num_locals, slot_map) s' \<Rightarrow>
             (case func_tipe func of
                TFunc impure arg_types ret \<Rightarrow>
                  Done ((cg_code s')[1 := instruction_from_opcode (MakeFrame num_args max_num_locals (ret \<noteq> TEvery)) di]) s'
              | t \<Rightarrow>
                  codegen_fail (''type checking bug: function with non function type '' @ quoted (type_display t))
                    (location di) s'))"

text \<open>A map in the order of its keys, as an association list.\<close>

fun btree_insert :: "'k::linorder \<Rightarrow> 'v \<Rightarrow> ('k \<times> 'v) list \<Rightarrow> ('k \<times> 'v) list" where
  "btree_insert k v [] = [(k, v)]"
| "btree_insert k v ((k', v') # kvs) =
     (if k < k' then (k, v) # (k', v') # kvs
      else if k = k' then (k, v) # kvs
      else (k', v') # btree_insert k v kvs)"

fun codegen_funcs ::
    "tc_func list \<Rightarrow> cg_env \<Rightarrow> (string_id \<times> opcode instruction list) list
     \<Rightarrow> (string_id \<times> opcode instruction list) list gen" where
  "codegen_funcs [] env funcs_code = return_c funcs_code"
| "codegen_funcs (f # fs) env funcs_code =
     bind_c (mavm_codegen_func f env) (\<lambda>function_code.
       codegen_funcs fs env (btree_insert (func_name f) function_code funcs_code))"

definition import_map :: "imported_func list \<Rightarrow> (string_id \<rightharpoonup> label)" where
  "import_map imports = foldl (\<lambda>m f. m(imp_name_id f \<mapsto> External (imp_slot_num f))) Map.empty imports"

definition global_map :: "string_id list \<Rightarrow> (string_id \<rightharpoonup> usize)" where
  "global_map names = map_of (rev (zip names [0..<length names]))"

text \<open>The functions come in the order of their ids, the globals as the ids of their names; the other result is the
  list of warnings.\<close>

definition mavm_codegen ::
    "hash_fn \<Rightarrow> tc_func list \<Rightarrow> string_table \<Rightarrow> imported_func list \<Rightarrow> string_id list \<Rightarrow> bool
     \<Rightarrow> (codegen_error, compile_error list, opcode instruction list) outcome" where
  "mavm_codegen kec funcs string_tab imports global_vars release =
     (case codegen_funcs funcs
             \<lparr>num_locals = 0, locals = Map.empty, prepushed_vals = 0, strings = string_tab,
              import_func_map = import_map imports, global_var_map = global_map global_vars,
              release_build = release, env_hash = kec\<rparr>
             []
             \<lparr>cg_code = [], cg_label_gen = label_generator_new, cg_scopes = [], cg_warnings = []\<rparr> of
        Done funcs_code s \<Rightarrow> Done (concat (map snd funcs_code)) (cg_warnings s)
      | Fail e s \<Rightarrow> Fail e (cg_warnings s)
      | Panic \<Rightarrow> Panic)"

end
