(* ===== verification/Fixed_Array.thy ===== *)
theory Fixed_Array
  imports Codegen
begin

text \<open>
  Fixed arrays: the code that the generator emits for making an array and for replacing an element
  (\<open>codegen_fixed_array_mod\<close> of \<open>src/compile/codegen.rs\<close>) and the code that the linker emits for reading one
  implement arrays as towers of tuples with eight fields.
\<close>

section \<open>Arrays as an interface\<close>

text \<open>Reading after writing.  \<open>ok\<close> is the invariant of a representation of arrays of a given length.\<close>

locale array_laws =
  fixes ok :: "nat \<Rightarrow> 'a \<Rightarrow> bool"
    and get :: "nat \<Rightarrow> nat \<Rightarrow> 'a \<Rightarrow> 'e"
    and upd :: "nat \<Rightarrow> nat \<Rightarrow> 'e \<Rightarrow> 'a \<Rightarrow> 'a"
  assumes ok_upd: "ok n v \<Longrightarrow> i < n \<Longrightarrow> ok n (upd n i x v)"
    and get_upd: "ok n v \<Longrightarrow> i < n \<Longrightarrow> j < n \<Longrightarrow> get n j (upd n i x v) = (if j = i then x else get n j v)"
begin

text \<open>The elements as a list; updates of the representation are updates of the list.\<close>

definition contents :: "nat \<Rightarrow> 'a \<Rightarrow> 'e list" where
  "contents n v = map (\<lambda>i. get n i v) [0..<n]"

lemma length_contents [simp]: "length (contents n v) = n"
  by (simp add: contents_def)

lemma contents_upd: "ok n v \<Longrightarrow> i < n \<Longrightarrow> contents n (upd n i x v) = (contents n v)[i := x]"
  by (rule nth_equalityI) (auto simp: contents_def get_upd nth_list_update)

lemma contents_upds:
  "ok n v \<Longrightarrow> \<forall>(i, x) \<in> set ixs. i < n \<Longrightarrow>
   ok n (fold (\<lambda>(i, x). upd n i x) ixs v)
   \<and> contents n (fold (\<lambda>(i, x). upd n i x) ixs v) = fold (\<lambda>(i, x) xs. xs[i := x]) ixs (contents n v)"
  by (induction ixs arbitrary: v) (auto simp: ok_upd contents_upd)

end

section \<open>Towers of tuples\<close>

text \<open>The next lower size, the shape, and access to an element; the lowest bits of the index select the field at the top.\<close>

abbreviation (input) below :: "nat \<Rightarrow> nat" where
  "below n \<equiv> (n + (tuple_size - 1)) div tuple_size"

function is_array :: "nat \<Rightarrow> val \<Rightarrow> bool" where
  "is_array n v \<longleftrightarrow>
     (case v of
        TupleV vs \<Rightarrow> length vs = 8 \<and> (if n > tuple_size then list_all (is_array (below n)) vs else True)
      | _ \<Rightarrow> False)"
  by auto
termination
  by (relation "measure fst") (auto simp: tuple_size_def)

function fetch :: "nat \<Rightarrow> nat \<Rightarrow> val \<Rightarrow> val" where
  "fetch n i v =
     (case v of
        TupleV vs \<Rightarrow> if n > tuple_size then fetch (below n) (i div 8) (vs ! (i mod 8)) else vs ! i
      | _ \<Rightarrow> v)"
  by auto
termination
  by (relation "measure fst") (auto simp: tuple_size_def)

function store :: "nat \<Rightarrow> nat \<Rightarrow> val \<Rightarrow> val \<Rightarrow> val" where
  "store n i x v =
     (case v of
        TupleV vs \<Rightarrow>
          if n > tuple_size then TupleV (vs[i mod 8 := store (below n) (i div 8) x (vs ! (i mod 8))]) else TupleV (vs[i := x])
      | _ \<Rightarrow> v)"
  by auto
termination
  by (relation "measure fst") (auto simp: tuple_size_def)

declare is_array.simps [simp del] fetch.simps [simp del] store.simps [simp del]

lemma is_arrayE:
  assumes "is_array n v"
  obtains vs where "v = TupleV vs" "length vs = 8" "n > tuple_size \<longrightarrow> (\<forall>w \<in> set vs. is_array (below n) w)"
  using assms by (subst (asm) is_array.simps) (auto simp: list_all_iff split: val.splits if_splits)

lemma index_div_below: "i < n \<Longrightarrow> i div 8 < below n"
  by (simp add: tuple_size_def)

lemma is_array_store: "is_array n v \<Longrightarrow> i < n \<Longrightarrow> is_array n (store n i x v)"
proof (induction n i x v rule: store.induct)
  case (1 n i x v)
  from 1(2) obtain vs where vs: "v = TupleV vs" "length vs = 8" "n > tuple_size \<longrightarrow> (\<forall>w \<in> set vs. is_array (below n) w)"
    by (rule is_arrayE)
  show ?case
  proof (cases "n > tuple_size")
    case True
    have "is_array (below n) (store (below n) (i div 8) x (vs ! (i mod 8)))"
      using 1(1) [OF vs(1) True] vs(2,3) True index_div_below [OF 1(3)] by simp
    then show ?thesis
      using vs True by (subst store.simps, subst is_array.simps) (auto simp: list_all_iff dest!: set_update_subset_insert [THEN subsetD])
  next
    case False
    then show ?thesis using vs by (subst store.simps, subst is_array.simps) simp
  qed
qed

lemma fetch_store:
  "is_array n v \<Longrightarrow> i < n \<Longrightarrow> j < n \<Longrightarrow> fetch n j (store n i x v) = (if j = i then x else fetch n j v)"
proof (induction n i x v arbitrary: j rule: store.induct)
  case (1 n i x v)
  from 1(2) obtain vs where vs: "v = TupleV vs" "length vs = 8" "n > tuple_size \<longrightarrow> (\<forall>w \<in> set vs. is_array (below n) w)"
    by (rule is_arrayE)
  show ?case
  proof (cases "n > tuple_size")
    case True
    have IH: "fetch (below n) (j div 8) (store (below n) (i div 8) x (vs ! (i mod 8))) =
        (if j div 8 = i div 8 then x else fetch (below n) (j div 8) (vs ! (i mod 8)))"
      using 1(1) [OF vs(1) True] vs(2,3) True index_div_below [OF 1(3)] index_div_below [OF 1(4)] by simp
    have "j = i \<longleftrightarrow> j mod 8 = i mod 8 \<and> j div 8 = i div 8" by (metis div_mult_mod_eq)
    with IH show ?thesis
      using vs(1,2) True
      by (cases "j mod 8 = i mod 8") (simp_all add: store.simps [of n] fetch.simps [of n] nth_list_update)
  next
    case False
    then show ?thesis using vs 1(3,4) by (simp add: store.simps [of n] fetch.simps [of n] nth_list_update tuple_size_def)
  qed
qed

interpretation towers: array_laws is_array fetch store
  by unfold_locales (simp_all add: is_array_store fetch_store)

section \<open>The generated code\<close>

lemma exec_fetch:
  "is_array n v \<Longrightarrow> i < n \<Longrightarrow>
   exec_code ext (array_steps n di @ [Instruction (AVM Tget) None di]) (cfg m pc (IntV i # v # s) a) =
     Done True (cfg m (pc + length (array_steps n di) + 1) (fetch n i v # s) a)"
proof (induction n di arbitrary: i pc v rule: array_steps.induct)
  case (1 n di)
  from 1(2) obtain vs where vs: "v = TupleV vs" "length vs = 8" "n > tuple_size \<longrightarrow> (\<forall>w \<in> set vs. is_array (below n) w)"
    by (rule is_arrayE)
  show ?case
  proof (cases "n > tuple_size")
    case True
    have len: "length (array_step di) = 9" by (simp add: array_step_def Let_def)
    have "is_array (below n) (vs ! (i mod 8))" using vs(2,3) True by simp
    from 1(1) [OF True this index_div_below [OF 1(3)]] show ?thesis
      using True vs(1,2) len
      by (subst array_steps.simps, subst (2) array_steps.simps, subst fetch.simps) (simp add: exec_array_step add.assoc)
  next
    case False
    then have "i < 8" using 1(3) by (simp add: tuple_size_def)
    moreover from this have "i < usize_limit" by (simp add: usize_limit_def)
    ultimately show ?thesis
      using False vs by (simp add: array_steps.simps [of n] fetch.simps [of n] exec_steps)
  qed
qed

lemma dup2_step [exec_steps]:
  "exec_code ext (Instruction (AVM Dup2) None di # cs) (cfg m pc (v # w # x # s) a) =
     exec_code ext cs (cfg m (pc + 1) (x # v # w # x # s) a)"
  by (simp add: exec_bare op_dup2_def cfg_effects bind_c_def then_c_def)

lemma exec_descend:
  assumes "length vs = 8"
  shows "exec_code ext (descend_code di @ cs) (cfg m pc (IntV i # TupleV vs # x # s) a) =
    exec_code ext cs (cfg m (pc + length (descend_code di)) (IntV (i div 8) # vs ! (i mod 8) # x # s) (IntV (i mod 8) # TupleV vs # a))"
proof -
  have "i mod 8 < length vs" "i mod 8 < usize_limit" using assms by (simp_all add: usize_limit_def less_trans [of _ 8])
  then show ?thesis
    by (simp add: descend_code_def instruction_from_opcode_def instruction_from_opcode_imm_def exec_steps
        tuple_size_def uint256_from_usize_def)
qed

lemma exec_ascend:
  assumes "length vs = 8" "k < 8"
  shows "exec_code ext (ascend_code di) (cfg m pc (w # s) (IntV k # TupleV vs # a)) =
    Done True (cfg m (pc + length (ascend_code di)) (TupleV (vs[k := w]) # s) a)"
proof -
  have "k < usize_limit" using assms(2) by (simp add: usize_limit_def)
  with assms show ?thesis by (simp add: ascend_code_def instruction_from_opcode_def exec_steps)
qed

lemma exec_store:
  "is_array n v \<Longrightarrow> i < n \<Longrightarrow>
   exec_code ext (fixed_array_mod_2 n di) (cfg m pc (IntV i # v # x # s) a) =
     Done True (cfg m (pc + length (fixed_array_mod_2 n di)) (store n i x v # s) a)"
proof (induction n di arbitrary: i pc v a rule: fixed_array_mod_2.induct)
  case (1 n di)
  from 1(2) obtain vs where vs: "v = TupleV vs" "length vs = 8" "n > tuple_size \<longrightarrow> (\<forall>w \<in> set vs. is_array (below n) w)"
    by (rule is_arrayE)
  show ?case
  proof (cases "n \<le> 8")
    case False
    then have n: "n > tuple_size" by (simp add: tuple_size_def)
    have "is_array (below n) (vs ! (i mod 8))" using vs(2,3) n by simp
    note IH = 1(1) [OF False this index_div_below [OF 1(3)]]
    have "exec_code ext (fixed_array_mod_2 (below n) di @ ascend_code di)
        (cfg m p (IntV (i div 8) # vs ! (i mod 8) # x # s) (IntV (i mod 8) # TupleV vs # a)) =
      Done True (cfg m (p + length (fixed_array_mod_2 (below n) di) + length (ascend_code di)) (store n i x v # s) a)" for p
      using n vs(1,2) by (simp add: exec_code_append IH exec_ascend store.simps [of n] del: One_nat_def)
    then show ?thesis
      using False vs(1,2) by (simp add: fixed_array_mod_2.simps [of n] exec_descend add.assoc)
  next
    case True
    then have "i < 8" "i < usize_limit" using 1(3) by (simp_all add: usize_limit_def)
    then show ?thesis
      using True vs by (simp add: fixed_array_mod_2.simps [of n] store.simps [of n] tuple_size_def instruction_from_opcode_def exec_steps)
  qed
qed


text \<open>New arrays: the loop builds what the default of an array type builds.\<close>

lemma exec_replicate_dup:
  "exec_code ext (replicate k (Instruction (AVM Dup0) None di) @ cs) (cfg m pc (v # s) a) =
     exec_code ext cs (cfg m (pc + k) (replicate k v @ v # s) a)"
  by (induction k arbitrary: pc s) (simp_all add: exec_steps replicate_app_Cons_same)

lemma exec_tset_fill:
  "k + length ys = length vs \<Longrightarrow> length vs < usize_limit \<Longrightarrow>
   exec_code ext (map (\<lambda>i. Instruction (AVM Tset) (Some (IntV i)) di) [k..<length vs] @ cs) (cfg m pc (TupleV vs # ys @ s) a) =
     exec_code ext cs (cfg m (pc + length ys) (TupleV (take k vs @ ys) # s) a)"
proof (induction ys arbitrary: k vs pc)
  case (Cons y ys)
  then have k: "k < length vs" "k < usize_limit" "[k..<length vs] = k # [Suc k..<length vs]" by (simp_all add: upt_conv_Cons)
  with Cons.IH [of "Suc k" "vs[k := y]" "Suc pc"] Cons.prems show ?case
    by (simp add: exec_steps take_Suc_conv_app_nth)
qed simp

lemma exec_eight_copies:
  "exec_code ext (eight_copies di @ cs) (cfg m pc (v # s) a) =
     exec_code ext cs (cfg m (pc + length (eight_copies di)) (value_new_tuple (replicate 8 v) # s) a)"
proof -
  have copies: "replicate 7 v @ v # s = replicate 8 v @ s" by (simp add: numeral_eq_Suc)
  have "exec_code ext (map (\<lambda>i. Instruction (AVM Tset) (Some (IntV i)) di) [0..<8] @ cs)
      (cfg m (pc + 8) (TupleV (replicate 8 (TupleV [])) # replicate 8 v @ s) a) =
    exec_code ext cs (cfg m (16 + pc) (TupleV (replicate 8 v) # s) a)"
    using exec_tset_fill [of 0 "replicate 8 v" "replicate 8 (TupleV [])" ext di cs m "pc + 8" s a]
    by (simp add: usize_limit_def add.commute)
  then show ?thesis
    by (simp add: eight_copies_def instruction_from_opcode_def instruction_from_opcode_imm_def uint256_from_usize_def
        value_new_tuple_def exec_replicate_dup copies exec_steps add.assoc add.commute [of pc])
qed

lemma exec_nest_copies:
  "0 < c \<Longrightarrow> exec_code ext (nest_copies (c * 8) n di) (cfg m pc (v # s) a) =
     Done True (cfg m (pc + length (nest_copies (c * 8) n di)) (fixed_array_default n c v # s) a)"
proof (induction n c v arbitrary: pc rule: fixed_array_default.induct)
  case (1 n c v)
  show ?case
  proof (cases "c * 8 < n")
    case True
    with 1 show ?thesis
      by (subst nest_copies.simps, subst (2) nest_copies.simps, subst fixed_array_default.simps)
         (simp add: exec_eight_copies tuple_size_def add.assoc)
  next
    case False
    then show ?thesis by (subst nest_copies.simps, subst (2) nest_copies.simps, subst fixed_array_default.simps) (simp add: tuple_size_def)
  qed
qed

lemma is_array_tower: "is_array n (tower (Suc (levels n)) v)"
proof (induction n rule: levels.induct)
  case (1 n)
  then show ?case
    by (subst levels.simps, subst is_array.simps) (auto simp: value_new_tuple_def list_all_iff)
qed

lemma fetch_tower: "i < n \<Longrightarrow> fetch n i (tower (Suc (levels n)) v) = v"
proof (induction n arbitrary: i rule: levels.induct)
  case (1 n)
  then show ?case
    using index_div_below [of i n]
    by (subst levels.simps, subst fetch.simps) (auto simp: value_new_tuple_def tuple_size_def)
qed


section \<open>Properties\<close>

text \<open>
  C17: Fixed arrays are arrays.  On a tower of the right shape, the code for replacing element \<open>i\<close> leaves a tower of that
  shape; reading element \<open>j\<close> of it, with the code that the linker emits for it, gives the new value for \<open>j = i\<close> and the old
  element otherwise.  The old array is not changed, and nothing else of the machine is.
\<close>

theorem fixed_array_read_after_update:
  assumes "is_array n arr" "i < n" "j < n"
  shows "\<exists>arr' cs. exec_code ext (fixed_array_mod_2 n di) (cfg m pc (IntV i # arr # x # s) a) =
      Done True (cfg m (pc + length (fixed_array_mod_2 n di)) (arr' # s) a)
    \<and> is_array n arr'
    \<and> fix_tuple_size [Instruction (UncheckedFixedArrayGet n) None di] g = Inr cs
    \<and> exec_code ext cs (cfg m pc (IntV j # arr # s) a) = Done True (cfg m (pc + length cs) (fetch n j arr # s) a)
    \<and> exec_code ext cs (cfg m pc (IntV j # arr' # s) a) =
        Done True (cfg m (pc + length cs) ((if j = i then x else fetch n j arr) # s) a)"
proof -
  let ?cs = "array_steps n di @ [Instruction (AVM Tget) None di]"
  have "fix_tuple_size [Instruction (UncheckedFixedArrayGet n) None di] g = Inr ?cs"
    by (simp add: fix_tuple_size_def fix_insn_def instruction_from_opcode_def Let_def)
  with exec_store [OF assms(1,2)] towers.ok_upd [OF assms(1,2)] towers.get_upd [OF assms]
    exec_fetch [OF assms(1,3)] exec_fetch [OF towers.ok_upd [OF assms(1,2)] assms(3)]
  show ?thesis by (intro exI [of _ "store n i x arr"] exI [of _ ?cs]) (simp add: add.assoc)
qed

text \<open>An array of 100 elements, three levels deep at the top index.\<close>

theorem fixed_array_read_after_update_witness:
  "\<forall>ext m. \<exists>arr'. exec_code ext (fixed_array_mod_2 100 debug_info_default)
       (cfg m 0 [IntV 99, tower (Suc (levels 100)) value_none, IntV 7] []) =
     Done True (cfg m (length (fixed_array_mod_2 100 debug_info_default)) [arr'] []) \<and> is_array 100 arr'"
proof (intro allI)
  fix ext m
  have "is_array 100 (tower (Suc (levels 100)) value_none)" "99 < (100 :: nat)" by (rule is_array_tower, simp)
  from fixed_array_read_after_update [OF this this(2), of ext debug_info_default m 0 "IntV 7" "[]" "[]" 0]
  show "\<exists>arr'. exec_code ext (fixed_array_mod_2 100 debug_info_default)
       (cfg m 0 [IntV 99, tower (Suc (levels 100)) value_none, IntV 7] []) =
     Done True (cfg m (length (fixed_array_mod_2 100 debug_info_default)) [arr'] []) \<and> is_array 100 arr'"
    by auto
qed

text \<open>
  New fixed arrays.  The code for a fixed array with an initial value takes the value off the stack and leaves the
  same tower that the default of an array type has; it has the shape of an array of the given size and holds the value
  at every index.
\<close>

theorem new_fixed_array_is_filled:
  "\<exists>arr. exec_code ext (eight_copies di @ nest_copies 8 n di) (cfg m pc (x # s) a) =
      Done True (cfg m (pc + length (eight_copies di @ nest_copies 8 n di)) (arr # s) a)
    \<and> arr = fixed_array_default n 1 (value_new_tuple (replicate 8 x))
    \<and> is_array n arr \<and> towers.contents n arr = replicate n x"
proof -
  let ?arr = "fixed_array_default n 1 (value_new_tuple (replicate 8 x))"
  have tower: "?arr = tower (Suc (levels n)) x" by (simp add: fixed_array_default_tower tower_Suc)
  have "towers.contents n ?arr = replicate n x"
    unfolding tower by (rule nth_equalityI) (simp_all add: towers.contents_def fetch_tower del: tower.simps)
  with exec_nest_copies [of 1 ext n di m _ "value_new_tuple (replicate 8 x)" s a] is_array_tower [of n x] show ?thesis
    unfolding tower [symmetric] by (intro exI [of _ ?arr]) (simp add: exec_eight_copies add.assoc)
qed

end
