(* ===== verification/Codegen_Sem.thy ===== *)
theory Codegen_Sem
  imports Fixed_Array
begin

text \<open>
  What generated code computes.  The reference is an evaluator of expressions and of straight-line statements over the
  values of variables; the code of the generator, with its virtual instructions expanded by the linker, is
  executed by the emulator.
\<close>

section \<open>Reference semantics\<close>

subsection \<open>Operators\<close>

definition bool_val :: "bool \<Rightarrow> uint256 option" where
  "bool_val b = Some (if b then 1 else 0)"

text \<open>Operators on two numbers; \<open>None\<close> for a division by zero.  Shifts take the number of places first.\<close>

definition word_op :: "hash_fn \<Rightarrow> binary_op \<Rightarrow> uint256 \<Rightarrow> uint256 \<Rightarrow> uint256 option" where
  "word_op kec op x y =
     (case op of
        BPlus \<Rightarrow> Some (uint256_add x y)
      | BMinus \<Rightarrow> uint256_unchecked_sub x y
      | BTimes \<Rightarrow> Some (uint256_mul x y)
      | BDiv \<Rightarrow> uint256_div x y
      | BMod \<Rightarrow> uint256_modulo x y
      | BSdiv \<Rightarrow> Option.bind (uint256_sdiv x y) id
      | BSmod \<Rightarrow> Option.bind (uint256_smodulo x y) id
      | BLessThan \<Rightarrow> bool_val (x < y)
      | BGreaterThan \<Rightarrow> bool_val (y < x)
      | BLessEq \<Rightarrow> bool_val (x \<le> y)
      | BGreaterEq \<Rightarrow> bool_val (y \<le> x)
      | BSLessThan \<Rightarrow> bool_val (uint256_s_less_than x y)
      | BSGreaterThan \<Rightarrow> bool_val (uint256_s_less_than y x)
      | BSLessEq \<Rightarrow> bool_val (\<not> uint256_s_less_than y x)
      | BSGreaterEq \<Rightarrow> bool_val (\<not> uint256_s_less_than x y)
      | BBitwiseAnd \<Rightarrow> Some (uint256_bitwise_and x y)
      | BBitwiseOr \<Rightarrow> Some (uint256_bitwise_or x y)
      | BBitwiseXor \<Rightarrow> Some (uint256_bitwise_xor x y)
      | BShiftLeft \<Rightarrow> Some (case uint256_to_usize x of Some n \<Rightarrow> uint256_shift_left y n | None \<Rightarrow> 0)
      | BShiftRight \<Rightarrow> Some (case uint256_to_usize x of Some n \<Rightarrow> uint256_shift_right y n | None \<Rightarrow> 0)
      | BHash \<Rightarrow> Some (uint256_avm_hash2 kec x y)
      | _ \<Rightarrow> None)"

text \<open>Reads of a buffer: \<open>n\<close> bytes as a number, the first one the most significant.\<close>

definition buffer_word :: "nat \<Rightarrow> usize \<Rightarrow> buffer \<Rightarrow> uint256 option" where
  "buffer_word n off b =
     (if off + (n - 1) < usize_limit
      then map_option uint256_from_bytes (collect_opt (\<lambda>i. buffer_read_byte b (off + i)) [0..<n])
      else None)"

definition binary_val :: "hash_fn \<Rightarrow> binary_op \<Rightarrow> val \<Rightarrow> val \<Rightarrow> val option" where
  "binary_val kec op v1 v2 =
     (case op of
        BEqual \<Rightarrow> map_option IntV (bool_val (v1 = v2))
      | BNotEqual \<Rightarrow> map_option IntV (bool_val (v1 \<noteq> v2))
      | _ \<Rightarrow>
          (case (v1, v2) of
             (IntV x, IntV y) \<Rightarrow> map_option IntV (word_op kec op x y)
           | (IntV x, BufferV b) \<Rightarrow>
               if x < usize_limit
               then map_option IntV
                 (case op of
                    BGetBuffer8 \<Rightarrow> buffer_word 1 x b
                  | BGetBuffer64 \<Rightarrow> buffer_word 8 x b
                  | BGetBuffer256 \<Rightarrow> buffer_word 32 x b
                  | _ \<Rightarrow> None)
               else None
           | _ \<Rightarrow> None))"

text \<open>The fields of a tuple that is laid out as nested tuples.\<close>

definition field_of :: "nat \<Rightarrow> nat \<Rightarrow> val \<Rightarrow> val option" where
  "field_of n i v =
     (if fits (tuple_tree_new n False) v \<and> i < n \<and> n < usize_limit then Some (leaves (tuple_tree_new n False) v ! i) else None)"

definition set_field :: "nat \<Rightarrow> nat \<Rightarrow> val \<Rightarrow> val \<Rightarrow> val option" where
  "set_field n i x v =
     (if fits (tuple_tree_new n False) v \<and> i < n \<and> n < usize_limit
      then value_from_field_list ((leaves (tuple_tree_new n False) v)[i := x]) else None)"

text \<open>Negation of numbers that are not constant has no instruction.  Addresses are the lowest 160 bits.\<close>

definition unary_val :: "hash_fn \<Rightarrow> unary_op \<Rightarrow> val \<Rightarrow> val option" where
  "unary_val kec op v =
     (case op of
        UMinus \<Rightarrow> None
      | UBitwiseNeg \<Rightarrow> (case v of IntV x \<Rightarrow> Some (IntV (uint256_bitwise_neg x)) | _ \<Rightarrow> None)
      | UNot \<Rightarrow> (case v of IntV x \<Rightarrow> map_option IntV (bool_val (x = 0)) | _ \<Rightarrow> None)
      | UHash \<Rightarrow> map_option IntV (value_avm_hash kec v)
      | ULen \<Rightarrow> field_of 3 0 v
      | UToUint \<Rightarrow> Some v
      | UToInt \<Rightarrow> Some v
      | UToBytes32 \<Rightarrow> Some v
      | UToAddress \<Rightarrow> (case v of IntV x \<Rightarrow> Some (IntV (uint256_bitwise_and (2 ^ 160 - 1) x)) | _ \<Rightarrow> None))"

subsection \<open>Expressions\<close>

text \<open>
  The value of an expression, given the values of locals and globals; \<open>None\<close> for errors and for expressions with control
  flow.  Tuples are laid out as nested tuples; a tuple expression may have at most eight fields.
\<close>

primrec eval_expr :: "hash_fn \<Rightarrow> (string_id \<rightharpoonup> val) \<Rightarrow> val list \<Rightarrow> tc_expr \<Rightarrow> val option"
  and eval_kind :: "hash_fn \<Rightarrow> (string_id \<rightharpoonup> val) \<Rightarrow> val list \<Rightarrow> tc_expr_kind \<Rightarrow> val option" where
  "eval_expr kec lv gv (TcExpr k di) = eval_kind kec lv gv k"
| "eval_kind kec lv gv ENewBuffer = value_new_buffer kec []"
| "eval_kind kec lv gv EError = None"
| "eval_kind kec lv gv EGetGas = None"
| "eval_kind kec lv gv (ESetGas e) = None"
| "eval_kind kec lv gv (EUnaryOp op e t) = Option.bind (eval_expr kec lv gv e) (unary_val kec op)"
| "eval_kind kec lv gv (EVariant e) = map_option (\<lambda>v. TupleV [IntV 1, v]) (eval_expr kec lv gv e)"
| "eval_kind kec lv gv (EBinary op e1 e2 t) =
     Option.bind (eval_expr kec lv gv e1) (\<lambda>v1. Option.bind (eval_expr kec lv gv e2) (binary_val kec op v1))"
| "eval_kind kec lv gv (ETrinary op e1 e2 e3 t) = None"
| "eval_kind kec lv gv (EShortcutOr e1 e2) = None"
| "eval_kind kec lv gv (EShortcutAnd e1 e2) = None"
| "eval_kind kec lv gv (ELocalVariableRef name t) = lv name"
| "eval_kind kec lv gv (EGlobalVariableRef idx t) = get_at gv idx"
| "eval_kind kec lv gv (EFuncRef name t) = None"
| "eval_kind kec lv gv (ETupleRef e idx t) =
     (case expr_get_type e of
        TTuple ts \<Rightarrow> Option.bind (eval_expr kec lv gv e) (field_of (length ts) idx)
      | _ \<Rightarrow> None)"
| "eval_kind kec lv gv (EDotRef e slot sz t) = Option.bind (eval_expr kec lv gv e) (field_of sz slot)"
| "eval_kind kec lv gv (EConst v t) = Some v"
| "eval_kind kec lv gv (EFunctionCall f args t props) = None"
| "eval_kind kec lv gv (ECodeBlock b) = None"
| "eval_kind kec lv gv (EStructInitializer inits t) =
     (if length inits < usize_limit
      then Option.bind (collect_opt id (map init_value (map (map_field_initializer (eval_expr kec lv gv)) inits)))
        value_from_field_list
      else None)"
| "eval_kind kec lv gv (ETuple es t) =
     (if length es \<le> tuple_size
      then Option.bind (collect_opt id (map (eval_expr kec lv gv) es)) value_from_field_list else None)"
| "eval_kind kec lv gv (EArrayRef e1 e2 t) = None"
| "eval_kind kec lv gv (EFixedArrayRef e1 e2 sz t) = None"
| "eval_kind kec lv gv (EMapRef e1 e2 t) = None"
| "eval_kind kec lv gv (ENewArray e base t) = None"
| "eval_kind kec lv gv (ENewFixedArray sz oe t) =
     (case map_option (eval_expr kec lv gv) oe of
        Some ov \<Rightarrow> map_option (\<lambda>v. fixed_array_default sz 1 (value_new_tuple (replicate 8 v))) ov
      | None \<Rightarrow> None)"
| "eval_kind kec lv gv (ENewMap t) = None"
| "eval_kind kec lv gv (EArrayMod e1 e2 e3 t) = None"
| "eval_kind kec lv gv (EFixedArrayMod e1 e2 e3 sz t) = None"
| "eval_kind kec lv gv (EMapMod e1 e2 e3 t) = None"
| "eval_kind kec lv gv (EStructMod e1 idx e2 t) =
     (case t of
        TStruct flds \<Rightarrow>
          Option.bind (eval_expr kec lv gv e2) (\<lambda>x.
            Option.bind (eval_expr kec lv gv e1) (set_field (length flds) idx x))
      | _ \<Rightarrow> None)"
| "eval_kind kec lv gv (ECast e t) = eval_expr kec lv gv e"
| "eval_kind kec lv gv (EAsm t insns args) = None"
| "eval_kind kec lv gv (ETry e t) = None"
| "eval_kind kec lv gv (EIf c b ob t) = None"
| "eval_kind kec lv gv (EIfLet name e b ob t) = None"
| "eval_kind kec lv gv (ELoop stats) = None"


section \<open>Single instructions\<close>

lemmas code_insns = instruction_from_opcode_def instruction_from_opcode_imm_def uint256_from_usize_def uint256_from_u64_def

lemma pop_buffer_cfg: "pop_buffer (cfg m pc (BufferV b # s) a) = Done b (cfg m pc s a)"
  by (simp add: pop_buffer_def on_stack_def value_stack_pop_buffer_def value_stack_pop_def)

lemmas effects = cfg_effects pop_buffer_cfg exec_bare bind_c_def then_c_def unwrap_c_def push_or_throw_def
  un_op_def bin_op_def bin_op_fail_def uint_of_bool_def uint256_from_usize_def uint256_zero_def

lemma exec_word_op:
  assumes "word_op (keccak256 ext) op x y = Some r"
  shows "exec_code ext (instruction_from_opcode (binary_opcode op) di # (if negated op then [insn IsZero di] else []))
      (cfg m pc (IntV x # IntV y # s) a) = Done True (cfg m (pc + (if negated op then 2 else 1)) (IntV r # s) a)"
  using assms
  by (cases op)
     (auto simp: word_op_def bool_val_def negated_def code_insns effects shift_op_def op_add_def op_sub_def op_mul_def
       op_div_def op_mod_def op_sdiv_def op_smod_def op_lessthan_def op_greaterthan_def op_slessthan_def op_sgreaterthan_def
       op_iszero_def op_bitwiseand_def op_bitwiseor_def op_bitwisexor_def op_shiftleft_def op_shiftright_def op_ethhash2_def
       bind_eq_Some_conv split: option.splits if_splits)


lemma buffer_word_1: "off < usize_limit \<Longrightarrow> buffer_word (Suc 0) off b = map_option unat (buffer_read_byte b off)"
  by (simp add: buffer_word_def uint256_from_bytes_def be_value_def option.map_comp comp_def split: option.split)

lemma usize_no_wrap: "off + n < usize_limit \<Longrightarrow> \<not> usize_add off n < off"
  by (simp add: usize_add_def)

lemma exec_get_buffer:
  assumes "x < usize_limit" "buffer_word n x b = Some r"
  shows "get_buffer n (cfg m pc (IntV x # BufferV b # s) a) = Done True (cfg m (pc + 1) (IntV r # s) a)"
  using assms usize_no_wrap [of x "n - 1"]
  by (auto simp: buffer_word_def get_buffer_def effects split: if_splits)

lemma exec_buffer_op:
  assumes "x < usize_limit" "op \<in> {BGetBuffer8, BGetBuffer64, BGetBuffer256}"
    "(case op of BGetBuffer8 \<Rightarrow> buffer_word 1 x b | BGetBuffer64 \<Rightarrow> buffer_word 8 x b | _ \<Rightarrow> buffer_word 32 x b) = Some r"
  shows "exec_code ext [instruction_from_opcode (binary_opcode op) di] (cfg m pc (IntV x # BufferV b # s) a) =
      Done True (cfg m (pc + 1) (IntV r # s) a)"
proof (cases "op = BGetBuffer8")
  case True
  then show ?thesis
    using assms by (auto simp: buffer_word_1 code_insns effects op_getbuffer8_def)
next
  case False
  then show ?thesis
    using assms exec_get_buffer [OF assms(1)]
    by (auto simp: code_insns exec_bare op_getbuffer64_def op_getbuffer256_def)
qed

lemma exec_equal:
  "exec_code ext [instruction_from_opcode (AVM Equal) di] (cfg m pc (v1 # v2 # s) a) =
     Done True (cfg m (pc + 1) (IntV (if v1 = v2 then 1 else 0) # s) a)"
  by (simp add: code_insns effects op_equal_def)

text \<open>The code of a binary operator on the values of its operands.\<close>

lemma exec_binary:
  assumes "binary_val (keccak256 ext) op v1 v2 = Some v"
  shows "exec_code ext (instruction_from_opcode (binary_opcode op) di # (if negated op then [insn IsZero di] else []))
      (cfg m pc (v1 # v2 # s) a) = Done True (cfg m (pc + (if negated op then 2 else 1)) (v # s) a)"
proof (cases "op \<in> {BEqual, BNotEqual}")
  case True
  then show ?thesis
    using assms by (auto simp: binary_val_def bool_val_def negated_def code_insns effects op_equal_def op_iszero_def)
next
  case False
  with assms consider x y r where "v1 = IntV x" "v2 = IntV y" "word_op (keccak256 ext) op x y = Some r" "v = IntV r"
    | x b r where "v1 = IntV x" "v2 = BufferV b" "x < usize_limit" "op \<in> {BGetBuffer8, BGetBuffer64, BGetBuffer256}" "v = IntV r"
        "(case op of BGetBuffer8 \<Rightarrow> buffer_word 1 x b | BGetBuffer64 \<Rightarrow> buffer_word 8 x b | _ \<Rightarrow> buffer_word 32 x b) = Some r"
    by (cases op; cases v1; cases v2) (auto simp: binary_val_def split: if_splits)
  then show ?thesis
  proof cases
    case 1
    then show ?thesis by (simp add: exec_word_op)
  next
    case 2
    then show ?thesis using exec_buffer_op [OF 2(3,4,6), of ext di m pc s a] by (auto simp: negated_def)
  qed
qed

lemma address_mask: "uint256_sub (uint256_exp (uint256_from_usize 2) (uint256_from_usize 160)) uint256_one = Some (2 ^ 160 - 1)"
  by (simp add: uint256_exp_eq uint256_from_usize_def uint256_one_def uint256_sub_eq u256_ok_def u256_modulus_def)


section \<open>Sequences of instructions\<close>

text \<open>
  Code without frames, expanded for a given number of globals and of locals, takes the machine from one operand stack to
  another, with the frame on top of the auxiliary stack, and changes nothing else.
\<close>

definition runs ::
    "externals \<Rightarrow> nat \<Rightarrow> nat \<Rightarrow> machine \<Rightarrow> val \<Rightarrow> opcode instruction list \<Rightarrow> val list \<Rightarrow> val list \<Rightarrow> bool" where
  "runs ext gs nt m fr cs st st' \<longleftrightarrow>
     (\<exists>out. (\<forall>rest. fix_insns (tuple_tree_new gs False) (tuple_tree_new nt True) (cs @ rest) =
              map_sum id ((@) out) (fix_insns (tuple_tree_new gs False) (tuple_tree_new nt True) rest))
      \<and> (\<forall>pc a. exec_code ext out (cfg m pc st (fr # a)) = Done True (cfg m (pc + length out) st' (fr # a))))"

lemma map_sum_nil [simp]: "map_sum id ((@) []) r = r"
  by (cases r) simp_all

lemma runs_nil [simp]: "runs ext gs nt m fr [] st st"
  by (auto simp: runs_def intro!: exI [of _ "[]"])

lemma runs_append: "runs ext gs nt m fr cs st st1 \<Longrightarrow> runs ext gs nt m fr ds st1 st2 \<Longrightarrow> runs ext gs nt m fr (cs @ ds) st st2"
  unfolding runs_def
proof (elim exE conjE)
  fix o1 o2
  let ?f = "fix_insns (tuple_tree_new gs False) (tuple_tree_new nt True)"
  assume 1: "\<forall>rest. ?f (cs @ rest) = map_sum id ((@) o1) (?f rest)"
    "\<forall>pc a. exec_code ext o1 (cfg m pc st (fr # a)) = Done True (cfg m (pc + length o1) st1 (fr # a))"
    and 2: "\<forall>rest. ?f (ds @ rest) = map_sum id ((@) o2) (?f rest)"
    "\<forall>pc a. exec_code ext o2 (cfg m pc st1 (fr # a)) = Done True (cfg m (pc + length o2) st2 (fr # a))"
  have "?f ((cs @ ds) @ rest) = map_sum id ((@) (o1 @ o2)) (?f rest)" for rest
    by (cases "?f rest") (simp_all add: 1(1) 2(1))
  moreover have "exec_code ext (o1 @ o2) (cfg m pc st (fr # a)) = Done True (cfg m (pc + length (o1 @ o2)) st2 (fr # a))" for pc a
    by (simp add: exec_code_append 1(2) 2(2) add.assoc)
  ultimately show "\<exists>out. (\<forall>rest. ?f ((cs @ ds) @ rest) = map_sum id ((@) out) (?f rest))
      \<and> (\<forall>pc a. exec_code ext out (cfg m pc st (fr # a)) = Done True (cfg m (pc + length out) st2 (fr # a)))"
    by blast
qed

lemma runs_expanded:
  assumes "fix_insn (tuple_tree_new gs False) (tuple_tree_new nt True) i = Inr (out, tuple_tree_new nt True)"
    "\<And>pc a. exec_code ext out (cfg m pc st (fr # a)) = Done True (cfg m (pc + length out) st' (fr # a))"
  shows "runs ext gs nt m fr [i] st st'"
  using assms by (auto simp: runs_def split: sum.split intro!: exI [of _ out])

lemma runs_avm:
  assumes "\<And>pc a. exec_code ext cs (cfg m pc st (fr # a)) = Done True (cfg m (pc + length cs) st' (fr # a))"
    "list_all (\<lambda>i. \<exists>op. opcode i = AVM op) cs"
  shows "runs ext gs nt m fr cs st st'"
proof -
  have "fix_insns g t (cs @ rest) = map_sum id ((@) cs) (fix_insns g t rest)" for g t rest
    using assms(2) by (induction cs; cases "fix_insns g t rest") (auto simp: fix_insn_def Let_def)
  with assms(1) show ?thesis unfolding runs_def by blast
qed

lemma runs_push: "runs ext gs nt m fr [insn_imm Noop v di] st (v # st)"
  by (rule runs_avm) (simp_all add: code_insns exec_steps)

lemma runs_local:
  assumes "fits (tuple_tree_new nt True) fr" "k < nt" "nt < usize_limit"
  shows "runs ext gs nt m fr [index_imm GetLocal k di] st (leaves (tuple_tree_new nt True) fr ! k # st)"
  using local_access_correct(1) [OF assms, of "tuple_tree_new gs False" di ext] by (auto simp: code_insns intro: runs_expanded)

lemma runs_global:
  assumes "fits (tuple_tree_new gs False) (register m)" "k < gs"
  shows "runs ext gs nt m fr [instruction_from_opcode (GetGlobalVar k) di] st (leaves (tuple_tree_new gs False) (register m) ! k # st)"
proof -
  obtain cs where "read_code (tuple_tree_new gs False) False k di = Inr cs"
    "\<forall>m pc s a. exec_code ext cs (cfg m pc (register m' # s) a) =
       Done True (cfg m (pc + length cs) (leaves (tuple_tree_new gs False) (register m') ! k # s) a)" if "m' = m" for m'
    using read_code_correct [OF tuple_tree_new_ok assms(1), of k di ext] assms(2) by auto
  then show ?thesis
    by (intro runs_expanded [where out = "insn Rpush di # cs"]) (simp_all add: fix_insn_def Let_def code_insns exec_steps)
qed

lemma runs_get_field:
  assumes "field_of n i v = Some x"
  shows "runs ext gs nt m fr [index_imm (TupleGet n) i di] (v # st) (x # st)"
proof -
  have v: "fits (tuple_tree_new n False) v" "i < n" "n < usize_limit" "x = leaves (tuple_tree_new n False) v ! i"
    using assms by (auto simp: field_of_def split: if_splits)
  then obtain cs where "read_code (tuple_tree_new n False) False i di = Inr cs"
    "\<forall>m pc s a. exec_code ext cs (cfg m pc (v # s) a) = Done True (cfg m (pc + length cs) (x # s) a)"
    using read_code_correct [OF tuple_tree_new_ok v(1), of i di ext] by auto
  with v show ?thesis
    by (intro runs_expanded [where out = cs])
       (simp_all add: fix_insn_def Let_def code_insns with_index_def value_to_usize_def uint256_to_usize_def)
qed

text \<open>A nested tuple is determined by its leaves.\<close>

lemma leaves_inj:
  "tree_ok t \<Longrightarrow> fits t v \<Longrightarrow> fits t w \<Longrightarrow> leaves t v = leaves t w \<Longrightarrow> v = w"
proof (induction t arbitrary: v w)
  case (Tree n ts)
  obtain vs ws where vs: "v = TupleV vs" "w = TupleV ws" "fits_all ts vs" "fits_all ts ws"
    using Tree.prems(2,3) by (auto split: val.splits)
  have "\<forall>t \<in> set ts'. tree_ok t \<Longrightarrow> set ts' \<subseteq> set ts \<Longrightarrow> fits_all ts' vs \<Longrightarrow> fits_all ts' ws \<Longrightarrow>
      leaves_all ts' vs = leaves_all ts' ws \<Longrightarrow> vs = ws" for ts' vs ws
  proof (induction ts' arbitrary: vs ws)
    case (Cons t ts')
    then obtain v vs' w ws' where s: "vs = v # vs'" "ws = w # ws'" "fits t v" "fits t w" "fits_all ts' vs'" "fits_all ts' ws'" by auto
    have "length (leaves t v) = length (leaves t w)"
      using length_leaves(1) Cons.prems(1) s(3,4) by (metis list.set_intros(1))
    with Cons.prems(5) s have "leaves t v = leaves t w" "leaves_all ts' vs' = leaves_all ts' ws'" by simp_all
    moreover from this(1) have "v = w" using Tree.IH [of t v w] Cons.prems(1,2) s(3,4) by simp
    ultimately show ?case using Cons.IH [of vs' ws'] Cons.prems(1,2) s by simp
  qed auto
  from this [of ts vs ws] Tree.prems vs show ?case by simp
qed simp

lemma runs_set_field:
  assumes "set_field n i x v = Some w"
  shows "runs ext gs nt m fr [index_imm (TupleSet n) i di] (v # x # st) (w # st)"
proof -
  let ?t = "tuple_tree_new n False"
  have v: "fits ?t v" "i < n" "n < usize_limit" "value_from_field_list ((leaves ?t v)[i := x]) = Some w"
    using assms by (auto simp: set_field_def split: if_splits)
  have len: "length ((leaves ?t v)[i := x]) = n" using length_leaves(1) [OF tuple_tree_new_ok v(1)] by simp
  obtain w' where w': "make_value_2 ?t ((leaves ?t v)[i := x]) = Some (w', [])" "fits ?t w'" "leaves ?t w' = (leaves ?t v)[i := x]"
    using make_value_2_spec(1) [OF tuple_tree_new_ok, of n False "(leaves ?t v)[i := x]"] len by auto
  with v(4) len have "w' = w" by (simp add: value_from_field_list_def make_value_def)
  obtain cs w'' where cs: "write_code ?t False i di = Inr cs" "fits ?t w''" "leaves ?t w'' = (leaves ?t v)[i := x]"
    "\<forall>m pc s a. exec_code ext cs (cfg m pc (v # x # s) a) = Done True (cfg m (pc + length cs) (w'' # s) a)"
    using write_code_correct [OF tuple_tree_new_ok v(1), of i di x ext] v(2) by auto
  have "w'' = w" using leaves_inj [OF tuple_tree_new_ok cs(2) w'(2)] cs(3) w'(3) \<open>w' = w\<close> by simp
  with cs v show ?thesis
    by (intro runs_expanded [where out = cs])
       (simp_all add: fix_insn_def Let_def code_insns with_index_def value_to_usize_def uint256_to_usize_def)
qed


section \<open>Expressions\<close>

lemma finish_eq: "finish cs r s = Done r (s\<lparr>cg_code := cg_code s @ cs\<rparr>)"
  by (simp add: finish_def then_c_def bind_c_def emit_def modify_c_def return_c_def)

text \<open>The variables are where the code looks for them: locals in the frame, globals in the register.\<close>

definition vars_ok :: "nat \<Rightarrow> nat \<Rightarrow> machine \<Rightarrow> val \<Rightarrow> (string_id \<rightharpoonup> val) \<Rightarrow> val list \<Rightarrow> (string_id \<rightharpoonup> usize) \<Rightarrow> bool" where
  "vars_ok gs nt m fr lv gv slots \<longleftrightarrow>
     fits (tuple_tree_new nt True) fr \<and> nt < usize_limit
     \<and> fits (tuple_tree_new gs False) (register m) \<and> gv = leaves (tuple_tree_new gs False) (register m)
     \<and> (\<forall>name v. lv name = Some v \<longrightarrow> (\<exists>k. slots name = Some k \<and> k < nt \<and> leaves (tuple_tree_new nt True) fr ! k = v))"

lemma vars_ok_globals: "vars_ok gs nt m fr lv gv slots \<Longrightarrow> length gv = gs"
  using length_leaves(1) [OF tuple_tree_new_ok, of gs False] by (simp add: vars_ok_def)

text \<open>A generator succeeds in all environments with the given slots and appends code that pushes a value.\<close>

definition pushes ::
    "externals \<Rightarrow> nat \<Rightarrow> nat \<Rightarrow> machine \<Rightarrow> val \<Rightarrow> (string_id \<rightharpoonup> usize) \<Rightarrow> expr_gen \<Rightarrow> val \<Rightarrow> bool" where
  "pushes ext gs nt m fr slots e v \<longleftrightarrow>
     (\<forall>env s. locals env = slots \<longrightarrow>
        (\<exists>n s' cs. e env s = Done n s' \<and> cg_code s' = cg_code s @ cs \<and> (\<forall>st. runs ext gs nt m fr cs st (v # st))))"

lemma pushesI:
  assumes "\<And>(env :: cg_env) s. locals env = slots \<Longrightarrow>
    \<exists>n s' cs. e env s = Done n s' \<and> cg_code s' = cg_code s @ cs \<and> (\<forall>st. runs ext gs nt m fr cs st (v # st))"
  shows "pushes ext gs nt m fr slots e v"
  using assms by (auto simp: pushes_def)

lemma pushesE:
  assumes "pushes ext gs nt m fr slots e v" "locals env = slots"
  obtains n s' cs where "e env s = Done n s'" "cg_code s' = cg_code s @ cs" "\<And>st. runs ext gs nt m fr cs st (v # st)"
  using assms unfolding pushes_def by blast

lemma locals_more_pushed [simp]: "locals (more_pushed k env) = locals env"
  by (simp add: more_pushed_def)

lemma pushes_leaf: "(\<And>st. runs ext gs nt m fr cs st (v # st)) \<Longrightarrow> pushes ext gs nt m fr slots (\<lambda>env. finish cs (f env)) v"
  by (rule pushesI) (auto simp: finish_eq)

lemma pushes_after1:
  assumes "pushes ext gs nt m fr slots e v" "\<And>st. runs ext gs nt m fr cs (v # st) (w # st)"
  shows "pushes ext gs nt m fr slots (\<lambda>env. bind_c (e env) (\<lambda>n. finish cs (f env n))) w"
proof (rule pushesI)
  fix env :: cg_env and s :: cg_state
  assume "locals env = slots"
  from pushesE [OF assms(1) this, of s] obtain n s1 ds where
    "e env s = Done n s1" "cg_code s1 = cg_code s @ ds" "\<And>st. runs ext gs nt m fr ds st (v # st)" by blast
  then show "\<exists>n s' cs'. bind_c (e env) (\<lambda>n. finish cs (f env n)) s = Done n s' \<and> cg_code s' = cg_code s @ cs'
      \<and> (\<forall>st. runs ext gs nt m fr cs' st (w # st))"
    by (auto simp: bind_c_def finish_eq intro!: runs_append [OF _ assms(2)])
qed

lemma pushes_after2:
  assumes "pushes ext gs nt m fr slots e1 v1" "pushes ext gs nt m fr slots e2 v2"
    "\<And>st. runs ext gs nt m fr cs (v2 # v1 # st) (w # st)"
  shows "pushes ext gs nt m fr slots (\<lambda>env. bind_c (e1 env) (\<lambda>n1. bind_c (e2 (more_pushed 1 env)) (\<lambda>n2. finish cs (f env n1 n2)))) w"
proof (rule pushesI)
  fix env :: cg_env and s :: cg_state
  assume env: "locals env = slots"
  from pushesE [OF assms(1) this, of s] obtain n1 s1 c1 where
    1: "e1 env s = Done n1 s1" "cg_code s1 = cg_code s @ c1" "\<And>st. runs ext gs nt m fr c1 st (v1 # st)" by blast
  from env have "locals (more_pushed 1 env) = slots" by simp
  from pushesE [OF assms(2) this, of s1] obtain n2 s2 c2 where
    2: "e2 (more_pushed 1 env) s1 = Done n2 s2" "cg_code s2 = cg_code s1 @ c2" "\<And>st. runs ext gs nt m fr c2 st (v2 # st)" by blast
  from 1 2 show "\<exists>n s' cs'. bind_c (e1 env) (\<lambda>n1. bind_c (e2 (more_pushed 1 env)) (\<lambda>n2. finish cs (f env n1 n2))) s = Done n s'
      \<and> cg_code s' = cg_code s @ cs' \<and> (\<forall>st. runs ext gs nt m fr cs' st (w # st))"
    by (auto simp: bind_c_def finish_eq intro!: runs_append [OF _ runs_append [OF _ assms(3)]])
qed

text \<open>Arguments, the last one first.\<close>

lemma cg_pushes_run:
  assumes "list_all2 (pushes ext gs nt m fr slots) es vs" "locals env = slots"
  obtains n s' cs where "cg_pushes es env s = Done n s'" "cg_code s' = cg_code s @ cs" "\<And>st. runs ext gs nt m fr cs st (rev vs @ st)"
proof -
  have "\<exists>n s' cs. cg_pushes es env s = Done n s' \<and> cg_code s' = cg_code s @ cs \<and> (\<forall>st. runs ext gs nt m fr cs st (rev vs @ st))"
    using assms
  proof (induction es env arbitrary: vs s rule: cg_pushes.induct)
    case (2 e es env)
    from "2.prems"(1) obtain v vs' where vs: "vs = v # vs'" "pushes ext gs nt m fr slots e v" "list_all2 (pushes ext gs nt m fr slots) es vs'"
      by (auto simp: list_all2_Cons1)
    from pushesE [OF vs(2) "2.prems"(2), of s] obtain n1 s1 c1 where
      1: "e env s = Done n1 s1" "cg_code s1 = cg_code s @ c1" "\<And>st. runs ext gs nt m fr c1 st (v # st)" by blast
    from "2.IH" [OF vs(3), of s1] "2.prems"(2) obtain n2 s2 c2 where
      2: "cg_pushes es (more_pushed 1 env) s1 = Done n2 s2" "cg_code s2 = cg_code s1 @ c2" "\<forall>st. runs ext gs nt m fr c2 st (rev vs' @ st)"
      by auto
    have "runs ext gs nt m fr (c1 @ c2) st (rev vs @ st)" for st
      using runs_append [OF 1(3) 2(3) [rule_format, of "v # st"]] by (simp add: vs(1))
    with 1 2 show ?case by (auto simp: bind_c_def return_c_def)
  qed (auto simp: return_c_def)
  with that show thesis by blast
qed

text \<open>Filling a new tuple field by field.\<close>

lemma runs_fill:
  assumes "fits (tuple_tree_new n False) v" "i + length xs = n" "n < usize_limit"
  shows "\<exists>w. runs ext gs nt m fr (map (\<lambda>i. index_imm (TupleSet n) i di) [i..<n]) (v # xs @ st) (w # st)
    \<and> fits (tuple_tree_new n False) w \<and> leaves (tuple_tree_new n False) w = take i (leaves (tuple_tree_new n False) v) @ xs"
  using assms(1,2)
proof (induction xs arbitrary: i v)
  case Nil
  then show ?case using length_leaves(1) [OF tuple_tree_new_ok Nil(1)] by (intro exI [of _ v]) simp
next
  case (Cons x xs)
  let ?t = "tuple_tree_new n False"
  have len: "length (leaves ?t v) = n" using length_leaves(1) [OF tuple_tree_new_ok Cons.prems(1)] by simp
  have i: "i < n" using Cons.prems(2) by simp
  obtain w1 where w1: "value_from_field_list ((leaves ?t v)[i := x]) = Some w1" "fits ?t w1" "leaves ?t w1 = (leaves ?t v)[i := x]"
    using make_value_2_spec(1) [OF tuple_tree_new_ok, of n False "(leaves ?t v)[i := x]"] len
    by (auto simp: value_from_field_list_def make_value_def)
  have "set_field n i x v = Some w1" using w1 i assms(3) Cons.prems(1) by (simp add: set_field_def)
  note first = runs_set_field [OF this, of ext gs nt m fr di "xs @ st"]
  obtain w where w: "runs ext gs nt m fr (map (\<lambda>i. index_imm (TupleSet n) i di) [Suc i..<n]) (w1 # xs @ st) (w # st)"
    "fits ?t w" "leaves ?t w = take (Suc i) (leaves ?t w1) @ xs"
    using Cons.IH [OF w1(2), of "Suc i"] Cons.prems(2) by auto
  have "[i..<n] = i # [Suc i..<n]" using i by (rule upt_conv_Cons)
  with runs_append [OF first w(1)] w(2,3) w1(3) len i show ?case
    by (intro exI [of _ w]) (simp add: take_Suc_conv_app_nth)
qed

lemma collect_opt_id: "collect_opt id (map f es) = Some vs \<longleftrightarrow> list_all2 (\<lambda>e v. f e = Some v) es vs"
  by (simp add: collect_opt_Some_iff list_all2_map1)

lemma pushes_fields:
  assumes "list_all2 (pushes ext gs nt m fr slots) es vs" "value_from_field_list vs = Some w" "length es < usize_limit"
    "fits (tuple_tree_new (length es) False) ev"
  shows "pushes ext gs nt m fr slots (\<lambda>env. bind_c (cg_pushes (rev es) env) (\<lambda>k.
      finish (insn_imm Noop ev di # map (\<lambda>i. index_imm (TupleSet (length es)) i di) [0..<length es]) (f env k))) w"
proof (rule pushesI)
  fix env :: cg_env and s :: cg_state
  let ?n = "length es" and ?fill = "map (\<lambda>i. index_imm (TupleSet (length es)) i di) [0..<length es]"
  assume env: "locals env = slots"
  have len: "length vs = ?n" using assms(1) by (simp add: list_all2_lengthD)
  from assms(1) have "list_all2 (pushes ext gs nt m fr slots) (rev es) (rev vs)" by simp
  from cg_pushes_run [OF this env, of s] obtain k s1 c1 where
    c1: "cg_pushes (rev es) env s = Done k s1" "cg_code s1 = cg_code s @ c1" "\<And>st. runs ext gs nt m fr c1 st (vs @ st)" by auto
  have "runs ext gs nt m fr ?fill (ev # vs @ st) (w # st)" for st
  proof -
    from runs_fill [OF assms(4), of 0 vs ext gs nt m fr di st] len assms(3) obtain w' where
      w': "runs ext gs nt m fr ?fill (ev # vs @ st) (w' # st)" "fits (tuple_tree_new ?n False) w'"
        "leaves (tuple_tree_new ?n False) w' = vs" by auto
    obtain w'' where "make_value_2 (tuple_tree_new ?n False) vs = Some (w'', [])" "fits (tuple_tree_new ?n False) w''"
      "leaves (tuple_tree_new ?n False) w'' = vs"
      using make_value_2_spec(1) [OF tuple_tree_new_ok, of ?n False vs] len by auto
    with assms(2) len leaves_inj [OF tuple_tree_new_ok w'(2)] w'(3) have "w' = w"
      by (auto simp: value_from_field_list_def make_value_def)
    with w'(1) show ?thesis by simp
  qed
  with runs_push [of ext gs nt m fr ev di] have "runs ext gs nt m fr (insn_imm Noop ev di # ?fill) (vs @ st) (w # st)" for st
    using runs_append [of ext gs nt m fr "[insn_imm Noop ev di]" "vs @ st" "ev # vs @ st" ?fill "w # st"] by simp
  with c1 show "\<exists>n s' cs. bind_c (cg_pushes (rev es) env) (\<lambda>k. finish (insn_imm Noop ev di # ?fill) (f env k)) s = Done n s'
      \<and> cg_code s' = cg_code s @ cs \<and> (\<forall>st. runs ext gs nt m fr cs st (w # st))"
    by (auto simp: bind_c_def finish_eq intro!: runs_append)
qed

subsection \<open>The arms of the generator\<close>

lemma pushes_unary:
  assumes "pushes ext gs nt m fr slots e v" "unary_val (keccak256 ext) op v = Some w"
  shows "pushes ext gs nt m fr slots (cg_unary_op op e di) w"
proof -
  have "\<exists>cs. (\<forall>env. cg_unary_op op e di env = bind_c (e env) (\<lambda>n. finish cs (max (num_locals env) n)))
      \<and> (\<forall>st. runs ext gs nt m fr cs (v # st) (w # st))"
  proof (cases op)
    case ULen
    then show ?thesis
      using assms(2) runs_get_field [of 3 0 v w ext gs nt m fr di]
      by (intro exI [of _ "[index_imm (TupleGet 3) 0 di]"])
         (simp add: cg_unary_op_def fun_eq_iff unary_opcode_def unary_val_def instruction_from_opcode_imm_def uint256_from_usize_def
           uint256_zero_def)
  next
    case UToAddress
    with assms(2) obtain x where x: "v = IntV x" "w = IntV (uint256_bitwise_and (2 ^ 160 - 1) x)"
      by (auto simp: unary_val_def split: val.splits)
    have "runs ext gs nt m fr [insn_imm BitwiseAnd (IntV (2 ^ 160 - 1)) di] (v # st) (w # st)" for st
      by (rule runs_avm) (simp_all add: x code_insns exec_imm effects op_bitwiseand_def)
    then show ?thesis
      using UToAddress
      by (intro exI [of _ "[insn_imm BitwiseAnd (IntV (2 ^ 160 - 1)) di]"])
         (simp add: cg_unary_op_def fun_eq_iff unary_opcode_def address_mask instruction_from_opcode_imm_def)
  next
    case UHash
    have "runs ext gs nt m fr [insn Hash di] (v # st) (w # st)" for st
      using assms(2) UHash
      by (intro runs_avm) (auto simp: unary_val_def code_insns effects op_hash_def)
    with UHash show ?thesis
      by (intro exI [of _ "[insn Hash di]"])
         (simp add: cg_unary_op_def fun_eq_iff unary_opcode_def instruction_from_opcode_def)
  next
    case UBitwiseNeg
    have "runs ext gs nt m fr [insn BitwiseNeg di] (v # st) (w # st)" for st
      using assms(2) UBitwiseNeg
      by (intro runs_avm) (auto simp: unary_val_def code_insns effects op_bitwiseneg_def split: val.splits)
    with UBitwiseNeg show ?thesis
      by (intro exI [of _ "[insn BitwiseNeg di]"])
         (simp add: cg_unary_op_def fun_eq_iff unary_opcode_def instruction_from_opcode_def)
  next
    case UNot
    have "runs ext gs nt m fr [insn IsZero di] (v # st) (w # st)" for st
      using assms(2) UNot
      by (intro runs_avm) (auto simp: unary_val_def bool_val_def code_insns effects op_iszero_def split: val.splits)
    with UNot show ?thesis
      by (intro exI [of _ "[insn IsZero di]"])
         (simp add: cg_unary_op_def fun_eq_iff unary_opcode_def instruction_from_opcode_def)
  qed (use assms(2) in \<open>auto simp: cg_unary_op_def fun_eq_iff unary_opcode_def unary_val_def intro!: exI [of _ "[]"]\<close>)
  then obtain cs where "cg_unary_op op e di = (\<lambda>env. bind_c (e env) (\<lambda>n. finish cs (max (num_locals env) n)))"
    "\<And>st. runs ext gs nt m fr cs (v # st) (w # st)" by (auto simp: fun_eq_iff)
  with pushes_after1 [OF assms(1)] show ?thesis by simp
qed

lemma pushes_binary:
  assumes "pushes ext gs nt m fr slots e1 v1" "pushes ext gs nt m fr slots e2 v2" "binary_val (keccak256 ext) op v1 v2 = Some w"
  shows "pushes ext gs nt m fr slots (cg_binary op e1 e2 di) w"
proof -
  have "\<exists>opc. opcode (instruction_from_opcode (binary_opcode op) di) = AVM opc" "opcode (insn IsZero di) = AVM IsZero"
    using assms(3) by (cases op; cases v1; cases v2) (auto simp: binary_val_def word_op_def instruction_from_opcode_def split: if_splits)
  then have "runs ext gs nt m fr (instruction_from_opcode (binary_opcode op) di # (if negated op then [insn IsZero di] else []))
      (v1 # v2 # st) (w # st)" for st
    by (intro runs_avm) (auto simp: exec_binary [OF assms(3)])
  from pushes_after2 [OF assms(2,1) this] show ?thesis unfolding cg_binary_def [abs_def] by simp
qed

lemma pushes_variant:
  assumes "pushes ext gs nt m fr slots e v"
  shows "pushes ext gs nt m fr slots (cg_variant e di) (TupleV [IntV 1, v])"
proof -
  have "runs ext gs nt m fr [insn_imm Noop (value_new_tuple [IntV (uint256_from_usize 1), value_none]) di,
      insn_imm Tset (IntV (uint256_from_u64 1)) di] (v # st) (TupleV [IntV 1, v] # st)" for st
    by (rule runs_avm) (simp_all add: code_insns exec_steps value_new_tuple_def usize_limit_def)
  from pushes_after1 [OF assms this] show ?thesis unfolding cg_variant_def [abs_def] by simp
qed

lemma pushes_new_fixed_array:
  assumes "pushes ext gs nt m fr slots e v"
  shows "pushes ext gs nt m fr slots (cg_new_fixed_array sz (Some e) di) (fixed_array_default sz 1 (value_new_tuple (replicate 8 v)))"
proof -
  have avm: "list_all (\<lambda>i. \<exists>op. opcode i = AVM op) (eight_copies di)"
    by (auto simp: eight_copies_def code_insns list_all_iff)
  then have avm2: "list_all (\<lambda>i. \<exists>op. opcode i = AVM op) (nest_copies c sz di)" for c
    by (induction c sz di rule: nest_copies.induct) (subst nest_copies.simps, simp)
  have "runs ext gs nt m fr (eight_copies di) (v # st) (value_new_tuple (replicate 8 v) # st)" for st
    using exec_eight_copies [where cs = "[]"] avm by (intro runs_avm) auto
  from pushes_after1 [OF assms this, of "\<lambda>env n. n"]
  have "pushes ext gs nt m fr slots (\<lambda>env. bind_c (e env) (\<lambda>n. finish (eight_copies di) n)) (value_new_tuple (replicate 8 v))" by simp
  moreover have "runs ext gs nt m fr (nest_copies 8 sz di) (w # st) (fixed_array_default sz 1 w # st)" for w st
    using exec_nest_copies [of 1 ext sz di] avm2 by (intro runs_avm) auto
  ultimately show ?thesis
    using pushes_after1 unfolding cg_new_fixed_array_def [abs_def] by simp
qed

lemma pushes_struct_mod:
  assumes "pushes ext gs nt m fr slots e1 v" "pushes ext gs nt m fr slots e2 x" "set_field (length flds) idx x v = Some w"
  shows "pushes ext gs nt m fr slots (cg_struct_mod e1 idx e2 (TStruct flds) di) w"
  using pushes_after2 [OF assms(2,1) runs_set_field [OF assms(3)]] unfolding cg_struct_mod_def [abs_def] by simp

lemma fits_flat: "n \<le> tuple_size \<Longrightarrow> fits (tuple_tree_new n False) (value_new_tuple (replicate n value_none))"
proof -
  assume "n \<le> tuple_size"
  then have "n \<in> set [0..<9]" by (auto simp: tuple_size_def)
  moreover have "list_all (\<lambda>n. fits (tuple_tree_new n False) (value_new_tuple (replicate n value_none))) [0..<9]"
    by code_simp
  ultimately show ?thesis by (simp only: list_all_iff)
qed

lemma pushes_struct_initializer:
  assumes "list_all2 (pushes ext gs nt m fr slots) es vs" "value_from_field_list vs = Some w" "length es < usize_limit"
  shows "pushes ext gs nt m fr slots (cg_struct_initializer es di) w"
  using pushes_fields [OF assms make_empty_fits] unfolding cg_struct_initializer_def [abs_def] by simp

lemma pushes_tuple:
  assumes "list_all2 (pushes ext gs nt m fr slots) es vs" "value_from_field_list vs = Some w" "length es \<le> tuple_size"
  shows "pushes ext gs nt m fr slots (cg_tuple es di) w"
proof -
  have "length es < usize_limit" using assms(3) by (simp add: tuple_size_def usize_limit_def)
  from pushes_fields [OF assms(1,2) this fits_flat [OF assms(3)]] show ?thesis unfolding cg_tuple_def [abs_def] by simp
qed

lemma pushes_new_buffer:
  "value_new_buffer (keccak256 ext) [] = Some v \<Longrightarrow> pushes ext gs nt m fr slots (cg_new_buffer di) v"
  unfolding cg_new_buffer_def [abs_def]
  by (intro pushes_leaf runs_avm) (auto simp: effects op_newbuffer_def value_new_buffer_def push_next_def)

lemma pushes_local:
  assumes "vars_ok gs nt m fr lv gv slots" "lv name = Some v"
  shows "pushes ext gs nt m fr slots (cg_local_variable_ref name di) v"
proof -
  obtain k where k: "slots name = Some k" "k < nt" "leaves (tuple_tree_new nt True) fr ! k = v"
    "fits (tuple_tree_new nt True) fr" "nt < usize_limit"
    using assms by (auto simp: vars_ok_def)
  have "runs ext gs nt m fr [index_imm GetLocal k di] st (v # st)" for st
    using runs_local [OF k(4,2,5)] k(3) by simp
  then show ?thesis by (intro pushesI) (auto simp: cg_local_variable_ref_def k(1) finish_eq)
qed

lemma pushes_global:
  assumes "vars_ok gs nt m fr lv gv slots" "get_at gv idx = Some v"
  shows "pushes ext gs nt m fr slots (cg_global_variable_ref idx di) v"
proof -
  have "idx < gs" "leaves (tuple_tree_new gs False) (register m) ! idx = v" "fits (tuple_tree_new gs False) (register m)"
    using assms vars_ok_globals [OF assms(1)] by (auto simp: vars_ok_def get_at_def split: if_splits)
  then have "runs ext gs nt m fr [instruction_from_opcode (GetGlobalVar idx) di] st (v # st)" for st
    using runs_global [of gs m idx] by simp
  from pushes_leaf [OF this] show ?thesis unfolding cg_global_variable_ref_def [abs_def] by simp
qed

subsection \<open>All expressions\<close>

lemma codegen_pushes:
  fixes e :: tc_expr and k :: tc_expr_kind and st :: tc_statement and sk :: tc_statement_kind and bl :: tc_code_block
  assumes "vars_ok gs nt m fr lv gv slots"
  shows "\<forall>v. eval_expr (keccak256 ext) lv gv e = Some v \<longrightarrow> pushes ext gs nt m fr slots (codegen_expr e) v"
    and "\<forall>di v. eval_kind (keccak256 ext) lv gv k = Some v \<longrightarrow> pushes ext gs nt m fr slots (codegen_kind k di) v"
    and True and True and True
proof (induction e and k and st and sk and bl)
  case (ETupleRef e idx t)
  then show ?case
    using pushes_after1 [OF _ runs_get_field] by (auto simp: cg_tuple_ref_def [abs_def] bind_eq_Some_conv uint256_from_usize_def split: tipe.splits)
next
  case (EDotRef e slot sz t)
  then show ?case
    using pushes_after1 [OF _ runs_get_field] by (auto simp: cg_dot_ref_def [abs_def] bind_eq_Some_conv)
next
  case (EConst v t)
  then show ?case using pushes_leaf [OF runs_push] by (auto simp: cg_const_def [abs_def])
next
  case (EStructInitializer inits t)
  then show ?case
    by (auto simp: bind_eq_Some_conv collect_opt_id list_all2_conv_all_nth field_initializer.map_sel
        intro!: pushes_struct_initializer split: if_splits)
       (metis field_initializer.set_sel nth_mem)
next
  case (ETuple es t)
  then show ?case
    by (auto simp: bind_eq_Some_conv collect_opt_id list_all2_conv_all_nth intro!: pushes_tuple split: if_splits)
next
  case (EStructMod e1 idx e2 t)
  then show ?case by (auto simp: bind_eq_Some_conv intro: pushes_struct_mod split: tipe.splits)
next
  case (ENewFixedArray sz oe t)
  then show ?case by (cases oe) (auto intro: pushes_new_fixed_array simp del: One_nat_def)
qed (auto simp: bind_eq_Some_conv intro: pushes_unary pushes_binary pushes_variant pushes_new_buffer pushes_local [OF assms]
    pushes_global [OF assms] simp del: One_nat_def)

section \<open>Properties\<close>

text \<open>
  C15: Expressions compute their values.  For an expression without control flow that has a value under the reference semantics,
  with its variables where the environment of the generator says they are, generation succeeds; the
  code it appends, expanded by the linker, ends normally from every state of the machine, pushes exactly that value and changes
  neither the rest of the operand stack, nor the auxiliary stack with the frame, nor the globals.
\<close>

theorem generated_expression_computes_value:
  assumes "vars_ok gs nt m fr lv gv (locals env)" "eval_expr (keccak256 ext) lv gv e = Some v"
  shows "\<exists>n s' cs out. codegen_expr e env s = Done n s' \<and> cg_code s' = cg_code s @ cs
    \<and> fix_insns (tuple_tree_new gs False) (tuple_tree_new nt True) cs = Inr out
    \<and> (\<forall>pc st a. exec_code ext out (cfg m pc st (fr # a)) = Done True (cfg m (pc + length out) (v # st) (fr # a)))"
proof -
  from codegen_pushes(1) [OF assms(1)] assms(2) have "pushes ext gs nt m fr (locals env) (codegen_expr e) v" by blast
  from pushesE [OF this refl, of s] obtain n s' cs where
    cs: "codegen_expr e env s = Done n s'" "cg_code s' = cg_code s @ cs" "\<And>st. runs ext gs nt m fr cs st (v # st)" by blast
  have "\<exists>out. fix_insns (tuple_tree_new gs False) (tuple_tree_new nt True) cs = Inr out
      \<and> (\<forall>pc a. exec_code ext out (cfg m pc st (fr # a)) = Done True (cfg m (pc + length out) (v # st) (fr # a)))" for st
    using cs(3) [of st] unfolding runs_def by (metis append_Nil2 fix_insns.simps(1) map_sum.simps(2))
  with cs(1,2) show ?thesis by (metis sum.inject(2))
qed

text \<open>\<open>(x + 3, [x]).0 * 2\<close> with \<open>x = 4\<close> in slot 1 of a frame with two slots.\<close>

definition demo_env :: cg_env where
  "demo_env = \<lparr>num_locals = 2, locals = [7 \<mapsto> 1], prepushed_vals = 0, strings = string_table_new,
     import_func_map = Map.empty, global_var_map = Map.empty, release_build = False, env_hash = \<lambda>_. []\<rparr>"

definition demo_expr :: tc_expr where
  "demo_expr =
     (let ex = (\<lambda>k. TcExpr k debug_info_default);
          x = ex (ELocalVariableRef 7 TUint);
          pair = ex (ETuple [ex (EBinary BPlus x (ex (EConst (IntV 3) TUint)) TUint), ex (EVariant x)] (TTuple [TUint, TOption TUint]))
      in ex (EBinary BTimes (ex (ETupleRef pair 0 TUint)) (ex (EConst (IntV 2) TUint)) TUint))"

theorem generated_expression_computes_value_witness:
  "\<forall>ext m s. \<exists>n s' cs out. codegen_expr demo_expr demo_env s = Done n s' \<and> cg_code s' = cg_code s @ cs
    \<and> fix_insns (tuple_tree_new 1 False) (tuple_tree_new 2 True) cs = Inr out
    \<and> exec_code ext out (cfg m 0 [] [TupleV [IntV 0, IntV 4]]) = Done True (cfg m (length out) [IntV 14] [TupleV [IntV 0, IntV 4]])"
proof (intro allI)
  fix ext :: externals and m :: machine and s :: cg_state
  let ?fr = "TupleV [IntV 0, IntV 4]"
  have tree: "tuple_tree_new 2 False = Tree 2 [Single, Single]" "tuple_tree_new 2 True = Tree 2 [Single, Single]"
    "tuple_tree_new 1 False = Single" by code_simp+
  have vars: "vars_ok 1 2 m ?fr [7 \<mapsto> IntV 4] [register m] (locals demo_env)"
    by (auto simp: vars_ok_def tree demo_env_def usize_limit_def simp del: One_nat_def)
  have val14: "eval_expr (keccak256 ext) [7 \<mapsto> IntV 4] [register m] demo_expr = Some (IntV 14)"
    by (simp add: demo_expr_def Let_def tree binary_val_def word_op_def field_of_def value_from_field_list_def make_value_def value_new_tuple_def
        u256_modulus_def uint256_add_eq uint256_mul_eq tuple_size_def usize_limit_def numeral_2_eq_2 [symmetric])
  from generated_expression_computes_value [OF vars val14, of s] show "\<exists>n s' cs out. codegen_expr demo_expr demo_env s = Done n s'
    \<and> cg_code s' = cg_code s @ cs \<and> fix_insns (tuple_tree_new 1 False) (tuple_tree_new 2 True) cs = Inr out
    \<and> exec_code ext out (cfg m 0 [] [?fr]) = Done True (cfg m (length out) [IntV 14] [?fr])"
    by (metis add_0)
qed

text \<open>
  A tuple literal with nine fields: \<open>cg_tuple\<close> starts from a flat tuple, while the instructions that fill it expect nested
  tuples.  The first seven of them succeed; the one for field 7 looks for the nested tuple with fields 7 and 8, finds an
  empty one, and stops the machine with an error.
\<close>

lemma tuple_of_nine_fails:
  assumes "length vs = 9" "vs ! 7 = value_none"
  shows "\<exists>out e m'. fix_insns g t [index_imm (TupleSet 9) 7 di] = Inr out
    \<and> exec_code ext out (cfg m pc (TupleV vs # x # s) a) = Fail e m'"
proof -
  have tree: "tuple_tree_new 9 False = Tree 9 [Single, Single, Single, Single, Single, Single, Single, Tree 2 [Single, Single]]"
    by code_simp
  have tset: "exec_code ext (Instruction (AVM Tset) None di # cs) (cfg m pc (IntV 0 # TupleV [] # w # s) a) =
      Fail (execution_error_new ''index out of bounds in Tset'' (state (cfg m pc s a)) None) (cfg m pc s a)" for cs pc w s
    by (simp add: exec_bare op_tset_def cfg_effects bind_c_def throw_def usize_limit_def)
  have "vs ! Suc (Suc (Suc (Suc (Suc (Suc (Suc 0)))))) = TupleV []"
    using assms(2) by (simp add: numeral_eq_Suc value_none_def value_new_tuple_def)
  then show ?thesis
    using assms
    by (simp add: fix_insn_def code_insns with_index_def value_to_usize_def uint256_to_usize_def usize_limit_def tree exec_steps
        value_none_def value_new_tuple_def tset)
qed

end
