(* ===== verification/Source_Syntax.thy ===== *)
theory Source_Syntax
  imports Checked_Syntax
begin

text \<open>
  The syntax tree before type checking (\<open>src/compile/ast.rs\<close>): constants, expressions, statements, code blocks and
  declarations of functions.  Constructors have the names of the source with a prefix for their type.
\<close>

section \<open>Definitions\<close>

subsection \<open>Constants\<close>

datatype mini_constant = CUint uint256 | CInt uint256 | CBool bool | COption option_const | CNull
and option_const = OSome mini_constant | ONone tipe

text \<open>The type of a constant and the value it stands for.\<close>

primrec constant_type_of :: "mini_constant \<Rightarrow> tipe" and option_const_type_of :: "option_const \<Rightarrow> tipe" where
  "constant_type_of (CUint n) = TUint"
| "constant_type_of (CInt n) = TInt"
| "constant_type_of (CBool b) = TBool"
| "constant_type_of (COption o') = option_const_type_of o'"
| "constant_type_of CNull = TVoid"
| "option_const_type_of (OSome c) = TOption (constant_type_of c)"
| "option_const_type_of (ONone t) = TOption t"

primrec constant_value :: "mini_constant \<Rightarrow> val" and option_const_value :: "option_const \<Rightarrow> val" where
  "constant_value (CUint n) = IntV n"
| "constant_value (CInt n) = IntV n"
| "constant_value (CBool b) = IntV (uint256_from_bool b)"
| "constant_value (COption o') = option_const_value o'"
| "constant_value CNull = value_none"
| "option_const_value (OSome c) = value_new_tuple [IntV uint256_one, constant_value c]"
| "option_const_value (ONone t) = value_new_tuple [IntV uint256_zero]"

subsection \<open>Expressions and statements\<close>

datatype (plugins only: code size) expr = Expr (src_kind: expr_kind) (src_debug_info: debug_info)
and expr_kind =
    XUnaryOp unary_op expr
  | XBinary binary_op expr expr
  | XTrinary trinary_op expr expr expr
  | XShortcutOr expr expr
  | XShortcutAnd expr expr
  | XVariableRef string_id
  | XTupleRef expr uint256
  | XDotRef expr string
  | XConstant mini_constant
  | XOptionInitializer expr
  | XFunctionCall expr "expr list"
  | XCodeBlock code_block
  | XArrayOrMapRef expr expr
  | XStructInitializer "expr field_initializer list"
  | XTuple "expr list"
  | XNewArray expr tipe
  | XNewFixedArray usize "expr option"
  | XNewMap tipe tipe
  | XNewUnion "tipe list" expr
  | XArrayOrMapMod expr expr expr
  | XStructMod expr string expr
  | XUnsafeCast expr tipe
  | XAsm tipe "opcode instruction list" "expr list"
  | XError
  | XGetGas
  | XSetGas expr
  | XTry expr
  | XIf expr code_block "code_block option"
  | XIfLet string_id expr code_block "code_block option"
  | XLoop "statement list"
  | XUnionCast expr tipe
  | XNewBuffer
and statement = Statement (src_stat: statement_kind) (src_stat_info: debug_info)
and statement_kind =
    YNoop
  | YReturnVoid
  | YReturn expr
  | YBreak "expr option" "string option"
  | YExpression expr
  | YLet "unit match_pattern" expr
  | YAssign string_id expr
  | YWhile expr "statement list"
  | YAsm "opcode instruction list" "expr list"
  | YDebugPrint expr
  | YAssert expr
and code_block = CodeBlock (src_body: "statement list") (src_ret_expr: "expr option")

type_synonym source_func = "statement func"

text \<open>Constructors of the parser.\<close>

definition func_new ::
    "string_id \<Rightarrow> bool \<Rightarrow> func_arg list \<Rightarrow> tipe \<Rightarrow> statement list \<Rightarrow> bool \<Rightarrow> debug_info \<Rightarrow> source_func" where
  "func_new name is_impure args ret_type stats exported di =
     \<lparr>func_name = name, func_args = args, func_ret_type = ret_type, func_code = stats,
      func_tipe = TFunc is_impure (map arg_tipe args) ret_type, func_kind = (if exported then Public else Private),
      func_debug_info = di, func_properties = \<lparr>pure = \<not> is_impure\<rparr>\<rparr>"

definition expr_new_unary :: "unary_op \<Rightarrow> expr \<Rightarrow> location option \<Rightarrow> expr" where
  "expr_new_unary op e loc = Expr (XUnaryOp op e) (debug_info_from loc)"

definition expr_new_binary :: "binary_op \<Rightarrow> expr \<Rightarrow> expr \<Rightarrow> location option \<Rightarrow> expr" where
  "expr_new_binary op e1 e2 loc = Expr (XBinary op e1 e2) (debug_info_from loc)"

definition expr_new_trinary :: "trinary_op \<Rightarrow> expr \<Rightarrow> expr \<Rightarrow> expr \<Rightarrow> location option \<Rightarrow> expr" where
  "expr_new_trinary op e1 e2 e3 loc = Expr (XTrinary op e1 e2 e3) (debug_info_from loc)"

end
