(* ===== verification/Typecheck_Ops.thy ===== *)
theory Typecheck_Ops
  imports Codegen Source_Syntax
begin

text \<open>
  Type checking of operators with constant folding (\<open>typecheck_unary_op\<close>, \<open>typecheck_binary_op\<close>,
  \<open>typecheck_trinary_op\<close> and \<open>typecheck_binary_op_const\<close> of \<open>src/compile/typecheck.rs\<close>).  A check is a
  computation on the scopes that \<open>break\<close> can leave; it fails with a compile error or panics.
\<close>

section \<open>Definitions\<close>

subsection \<open>Checks\<close>

type_synonym tc_scopes = "(string \<times> tipe option) list"

type_synonym 'a check = "(compile_error, tc_scopes, 'a) comp"

definition compile_error_new_type_error :: "string \<Rightarrow> location list \<Rightarrow> compile_error" where
  "compile_error_new_type_error desc locs = compile_error_new ''Typecheck Error'' desc locs"

definition type_fail :: "string \<Rightarrow> location option \<Rightarrow> 'a check" where
  "type_fail desc loc = fail_c (compile_error_new_type_error desc (case loc of Some l \<Rightarrow> [l] | None \<Rightarrow> []))"

text \<open>
  The tables that all functions of the checker share.  \<open>te_types\<close> holds the local variables (and the named types),
  \<open>te_undef\<close> the names that must not be defined again.  Following nominal types and comparing types take fuel;
  running out of it stands for not returning, like a panic.  Hashing and the parser of hexadecimal numbers are code
  of other crates.
\<close>

record tc_env =
  te_types :: "string_id \<rightharpoonup> tipe"
  te_globals :: "string_id \<rightharpoonup> tipe \<times> usize"
  te_funcs :: "string_id \<rightharpoonup> tipe"
  te_return :: tipe
  te_tree :: type_tree
  te_undef :: "string_id \<rightharpoonup> location option"
  te_fuel :: nat
  te_hash :: hash_fn
  te_parse_hex :: "string \<Rightarrow> nat option"

definition represent :: "tc_env \<Rightarrow> tipe \<Rightarrow> tipe check" where
  "represent env t =
     (case get_representation (te_fuel env) (te_tree env) t of
        None \<Rightarrow> panic_c
      | Some (Inl (NoTypeAt path i)) \<Rightarrow>
          fail_c (compile_error_new_type_error
            (''No type at ['' @ comma_sep (map quoted path) @ ''], '' @ decimal i) [])
      | Some (Inr u) \<Rightarrow> return_c u)"

definition assignable_c :: "tc_env \<Rightarrow> tipe \<Rightarrow> tipe \<Rightarrow> bool check" where
  "assignable_c env self rhs =
     (case assignable (te_fuel env) (te_tree env) self rhs {} of None \<Rightarrow> panic_c | Some b \<Rightarrow> return_c b)"

text \<open>A constant integer with its type.\<close>

definition int_const :: "tc_expr \<Rightarrow> (uint256 \<times> tipe) option" where
  "int_const e = (case expr_kind e of EConst (IntV ui) t \<Rightarrow> Some (ui, t) | _ \<Rightarrow> None)"

subsection \<open>Unary operators\<close>

definition bad_operand :: "string \<Rightarrow> tipe \<Rightarrow> location option \<Rightarrow> 'a check" where
  "bad_operand what t loc = type_fail (''invalid operand type '' @ quoted (type_display t) @ '' for '' @ what) loc"

definition check_minus :: "tc_expr \<Rightarrow> tipe \<Rightarrow> location option \<Rightarrow> tc_expr_kind check" where
  "check_minus sub tc_type loc =
     (case tc_type of
        TInt \<Rightarrow>
          (case int_const sub of
             Some (ui, _) \<Rightarrow>
               (case uint256_unary_minus ui of None \<Rightarrow> panic_c | Some r \<Rightarrow> return_c (EConst (IntV r) TInt))
           | None \<Rightarrow> return_c (EUnaryOp UMinus sub TInt))
      | other \<Rightarrow> bad_operand ''unary minus'' other loc)"

definition check_bitwise_neg :: "tc_expr \<Rightarrow> tipe \<Rightarrow> location option \<Rightarrow> tc_expr_kind check" where
  "check_bitwise_neg sub tc_type loc =
     (if tc_type \<in> {TUint, TInt, TBytes32}
      then (case int_const sub of
              Some (ui, _) \<Rightarrow> return_c (EConst (IntV (uint256_bitwise_neg ui)) tc_type)
            | None \<Rightarrow> return_c (EUnaryOp UBitwiseNeg sub tc_type))
      else bad_operand ''bitwise negation'' tc_type loc)"

text \<open>The subtraction wraps around in release mode.\<close>

definition check_not :: "tc_expr \<Rightarrow> tipe \<Rightarrow> location option \<Rightarrow> tc_expr_kind check" where
  "check_not sub tc_type loc =
     (case tc_type of
        TBool \<Rightarrow>
          (case int_const sub of
             Some (ui, _) \<Rightarrow>
               (case uint256_to_usize ui of
                  None \<Rightarrow> panic_c
                | Some b \<Rightarrow> return_c (EConst (IntV (uint256_from_usize ((usize_limit + 1 - b) mod usize_limit))) TBool))
           | None \<Rightarrow> return_c (EUnaryOp UNot sub TBool))
      | other \<Rightarrow> bad_operand ''logical negation'' other loc)"

definition check_hash :: "tc_env \<Rightarrow> tc_expr \<Rightarrow> tc_expr_kind check" where
  "check_hash env sub =
     (case int_const sub of
        Some (ui, _) \<Rightarrow> return_c (EConst (IntV (uint256_avm_hash (te_hash env) ui)) TBytes32)
      | None \<Rightarrow> return_c (EUnaryOp UHash sub TBytes32))"

definition check_len :: "tc_expr \<Rightarrow> tipe \<Rightarrow> location option \<Rightarrow> tc_expr_kind check" where
  "check_len sub tc_type loc =
     (case tc_type of
        TTuple tv \<Rightarrow> return_c (EConst (IntV (uint256_from_usize (length tv))) TUint)
      | TFixedArray _ sz \<Rightarrow> return_c (EConst (IntV (uint256_from_usize sz)) TUint)
      | TArray _ \<Rightarrow> return_c (EUnaryOp ULen sub TUint)
      | other \<Rightarrow> bad_operand ''len'' other loc)"

definition is_word_type :: "tipe \<Rightarrow> bool" where
  "is_word_type t \<longleftrightarrow> t \<in> {TUint, TInt, TBytes32, TEthAddress, TBool}"

text \<open>The conversions to \<open>uint\<close>, \<open>int\<close> and \<open>bytes32\<close>, which differ in the operator, the type and the message.\<close>

definition check_convert ::
    "unary_op \<Rightarrow> tipe \<Rightarrow> string \<Rightarrow> tc_expr \<Rightarrow> tipe \<Rightarrow> location option \<Rightarrow> tc_expr_kind check" where
  "check_convert op target what sub tc_type loc =
     (case int_const sub of
        Some (v, _) \<Rightarrow> return_c (EConst (IntV v) target)
      | None \<Rightarrow>
          if is_word_type tc_type then return_c (EUnaryOp op sub target) else bad_operand what tc_type loc)"

definition address_modulus_hex :: string where
  "address_modulus_hex = ''1__0000_0000__0000_0000__0000_0000__0000_0000__0000_0000''"

definition check_to_address :: "tc_env \<Rightarrow> tc_expr \<Rightarrow> tipe \<Rightarrow> location option \<Rightarrow> tc_expr_kind check" where
  "check_to_address env sub tc_type loc =
     (case int_const sub of
        Some (v, _) \<Rightarrow>
          (case Option.bind (uint256_from_string_hex (te_parse_hex env) address_modulus_hex) (uint256_modulo v) of
             None \<Rightarrow> panic_c
           | Some r \<Rightarrow> return_c (EConst (IntV r) TEthAddress))
      | None \<Rightarrow>
          if is_word_type tc_type then return_c (EUnaryOp UToAddress sub TEthAddress)
          else bad_operand ''address cast'' tc_type loc)"

definition typecheck_unary_op :: "tc_env \<Rightarrow> unary_op \<Rightarrow> tc_expr \<Rightarrow> location option \<Rightarrow> tc_expr_kind check" where
  "typecheck_unary_op env op sub loc =
     bind_c (represent env (expr_get_type sub)) (\<lambda>tc_type.
       case op of
         UMinus \<Rightarrow> check_minus sub tc_type loc
       | UBitwiseNeg \<Rightarrow> check_bitwise_neg sub tc_type loc
       | UNot \<Rightarrow> check_not sub tc_type loc
       | UHash \<Rightarrow> check_hash env sub
       | ULen \<Rightarrow> check_len sub tc_type loc
       | UToUint \<Rightarrow> check_convert UToUint TUint ''uint()'' sub tc_type loc
       | UToInt \<Rightarrow> check_convert UToInt TInt ''int()'' sub tc_type loc
       | UToBytes32 \<Rightarrow> check_convert UToBytes32 TBytes32 ''bytes32()'' sub tc_type loc
       | UToAddress \<Rightarrow> check_to_address env sub tc_type loc)"

subsection \<open>Binary operators on constants\<close>

definition bad_args :: "string \<Rightarrow> tipe \<Rightarrow> tipe \<Rightarrow> location option \<Rightarrow> 'a check" where
  "bad_args what t1 t2 loc =
     type_fail (''invalid argument types to '' @ what @ '': '' @ quoted (type_display t1) @ '' and ''
       @ quoted (type_display t2)) loc"

definition const_arith :: "binary_op \<Rightarrow> uint256 \<Rightarrow> tipe \<Rightarrow> uint256 \<Rightarrow> tipe \<Rightarrow> location option \<Rightarrow> tc_expr_kind check" where
  "const_arith op v1 t1 v2 t2 loc =
     (if (t1, t2) \<in> {(TUint, TUint), (TInt, TInt)}
      then (case op of
              BPlus \<Rightarrow> return_c (EConst (IntV (uint256_add v1 v2)) t1)
            | BMinus \<Rightarrow>
                (case uint256_sub v1 v2 of
                   Some v \<Rightarrow> return_c (EConst (IntV v) t1)
                 | None \<Rightarrow> type_fail ''underflow on substraction'' loc)
            | BTimes \<Rightarrow> return_c (EConst (IntV (uint256_mul v1 v2)) t1)
            | _ \<Rightarrow> panic_c)
      else bad_args ''binary op'' t1 t2 loc)"

text \<open>Division and remainder, with the operations for unsigned and for signed numbers, which may panic.\<close>

definition const_div ::
    "(uint256 \<Rightarrow> uint256 \<Rightarrow> uint256 option) \<Rightarrow> (uint256 \<Rightarrow> uint256 \<Rightarrow> uint256 option option) \<Rightarrow> string
     \<Rightarrow> uint256 \<Rightarrow> tipe \<Rightarrow> uint256 \<Rightarrow> tipe \<Rightarrow> location option \<Rightarrow> tc_expr_kind check" where
  "const_div uop sop what v1 t1 v2 t2 loc =
     (let result = (\<lambda>ov. case ov of
            Some v \<Rightarrow> return_c (EConst (IntV v) t1)
          | None \<Rightarrow> type_fail ''divide by constant zero'' loc)
      in (case (t1, t2) of
            (TUint, TUint) \<Rightarrow> result (uop v1 v2)
          | (TInt, TInt) \<Rightarrow> (case sop v1 v2 of None \<Rightarrow> panic_c | Some ov \<Rightarrow> result ov)
          | _ \<Rightarrow> bad_args what t1 t2 loc))"

definition const_compare ::
    "bool \<Rightarrow> bool \<Rightarrow> string \<Rightarrow> tipe \<Rightarrow> tipe \<Rightarrow> location option \<Rightarrow> tc_expr_kind check" where
  "const_compare unsigned_result signed_result what t1 t2 loc =
     (case (t1, t2) of
        (TUint, TUint) \<Rightarrow> return_c (EConst (IntV (uint256_from_bool unsigned_result)) TBool)
      | (TInt, TInt) \<Rightarrow> return_c (EConst (IntV (uint256_from_bool signed_result)) TBool)
      | _ \<Rightarrow> bad_args what t1 t2 loc)"

text \<open>The arm for equality, bit operations and hashing; all of them get the type of booleans.\<close>

definition const_same ::
    "tc_env \<Rightarrow> binary_op \<Rightarrow> uint256 \<Rightarrow> tipe \<Rightarrow> uint256 \<Rightarrow> tipe \<Rightarrow> location option \<Rightarrow> tc_expr_kind check" where
  "const_same env op v1 t1 v2 t2 loc =
     (if t1 = t2
      then (case op of
              BEqual \<Rightarrow> return_c (EConst (IntV (uint256_from_bool (v1 = v2))) TBool)
            | BNotEqual \<Rightarrow> return_c (EConst (IntV (uint256_from_bool (v1 \<noteq> v2))) TBool)
            | BBitwiseAnd \<Rightarrow> return_c (EConst (IntV (uint256_bitwise_and v1 v2)) TBool)
            | BBitwiseOr \<Rightarrow> return_c (EConst (IntV (uint256_bitwise_or v1 v2)) TBool)
            | BBitwiseXor \<Rightarrow> return_c (EConst (IntV (uint256_bitwise_xor v1 v2)) TBool)
            | BHash \<Rightarrow>
                if t1 = TBytes32 then return_c (EConst (IntV (value_avm_hash2 (te_hash env) v1 v2)) TBool)
                else bad_args ''binary op'' t1 t2 loc
            | _ \<Rightarrow> panic_c)
      else bad_args ''binary op'' t1 t2 loc)"

definition const_logical :: "bool \<Rightarrow> string \<Rightarrow> tipe \<Rightarrow> tipe \<Rightarrow> location option \<Rightarrow> tc_expr_kind check" where
  "const_logical result what t1 t2 loc =
     (if t1 = TBool \<and> t2 = TBool then return_c (EConst (IntV (uint256_from_bool result)) TBool)
      else bad_args what t1 t2 loc)"

text \<open>The second operand is shifted by the first; both messages speak of a shift to the left.\<close>

definition const_shift ::
    "(uint256 \<Rightarrow> usize \<Rightarrow> uint256) \<Rightarrow> uint256 \<Rightarrow> tipe \<Rightarrow> uint256 \<Rightarrow> tipe \<Rightarrow> location option \<Rightarrow> tc_expr_kind check" where
  "const_shift f v1 t1 v2 t2 loc =
     (let bad = type_fail (''Attempt to shift a '' @ type_display t2 @ '' by a '' @ type_display t1
            @ '', must shift an integer type by a uint'') loc
      in if t1 = TUint
         then (if t2 \<in> {TUint, TInt, TBytes32}
               then (case uint256_to_usize v1 of
                       None \<Rightarrow>
                         type_fail (''Attempt to shift '' @ decimal v2 @ '' left by '' @ decimal v1 @ '', causing overflow'') loc
                     | Some x \<Rightarrow> return_c (EConst (IntV (f v2 x)) t1))
               else bad)
         else bad)"

definition typecheck_binary_op_const ::
    "tc_env \<Rightarrow> binary_op \<Rightarrow> uint256 \<Rightarrow> tipe \<Rightarrow> uint256 \<Rightarrow> tipe \<Rightarrow> location option \<Rightarrow> tc_expr_kind check" where
  "typecheck_binary_op_const env op v1 t1 v2 t2 loc =
     (if op \<in> {BPlus, BMinus, BTimes} then const_arith op v1 t1 v2 t2 loc
      else if op = BDiv then const_div uint256_div uint256_sdiv ''divide'' v1 t1 v2 t2 loc
      else if op = BMod then const_div uint256_modulo uint256_smodulo ''mod'' v1 t1 v2 t2 loc
      else if op = BLessThan then const_compare (v1 < v2) (uint256_s_less_than v1 v2) ''<'' t1 t2 loc
      else if op = BGreaterThan then const_compare (v1 > v2) (uint256_s_less_than v2 v1) ''>'' t1 t2 loc
      else if op = BLessEq then const_compare (v1 \<le> v2) (\<not> uint256_s_less_than v2 v1) ''<='' t1 t2 loc
      else if op = BGreaterEq then const_compare (v1 \<ge> v2) (\<not> uint256_s_less_than v1 v2) ''>='' t1 t2 loc
      else if op \<in> {BEqual, BNotEqual, BBitwiseAnd, BBitwiseOr, BBitwiseXor, BHash}
        then const_same env op v1 t1 v2 t2 loc
      else if op = BLogicalAnd
        then const_logical (\<not> uint256_is_zero v1 \<and> \<not> uint256_is_zero v2) ''logical and'' t1 t2 loc
      else if op = BLogicalOr
        then const_logical (\<not> uint256_is_zero v1 \<or> \<not> uint256_is_zero v2) ''logical or'' t1 t2 loc
      else if op = BShiftLeft then const_shift uint256_shift_left v1 t1 v2 t2 loc
      else if op = BShiftRight then const_shift uint256_shift_right v1 t1 v2 t2 loc
      else panic_c)"


subsection \<open>Binary operators\<close>

text \<open>The operator that gives the same result with its operands exchanged.\<close>

definition exchanged :: "binary_op \<Rightarrow> binary_op option" where
  "exchanged op =
     (case op of
        BPlus \<Rightarrow> Some BPlus | BTimes \<Rightarrow> Some BTimes | BEqual \<Rightarrow> Some BEqual | BNotEqual \<Rightarrow> Some BNotEqual
      | BBitwiseAnd \<Rightarrow> Some BBitwiseAnd | BBitwiseOr \<Rightarrow> Some BBitwiseOr | BBitwiseXor \<Rightarrow> Some BBitwiseXor
      | BLessThan \<Rightarrow> Some BGreaterThan | BGreaterThan \<Rightarrow> Some BLessThan
      | BLessEq \<Rightarrow> Some BGreaterEq | BGreaterEq \<Rightarrow> Some BLessEq
      | _ \<Rightarrow> None)"

text \<open>The operators for two unsigned and for two signed numbers and the type of the result.\<close>

definition numeric_op ::
    "binary_op \<Rightarrow> tipe \<Rightarrow> binary_op \<Rightarrow> tipe \<Rightarrow> string \<Rightarrow> tc_expr \<Rightarrow> tipe \<Rightarrow> tc_expr \<Rightarrow> tipe \<Rightarrow> location option \<Rightarrow> tc_expr_kind check" where
  "numeric_op unsigned_op unsigned_type signed_op signed_type what e1 t1 e2 t2 loc =
     (case (t1, t2) of
        (TUint, TUint) \<Rightarrow> return_c (EBinary unsigned_op e1 e2 unsigned_type)
      | (TInt, TInt) \<Rightarrow> return_c (EBinary signed_op e1 e2 signed_type)
      | _ \<Rightarrow> bad_args what t1 t2 loc)"

definition buffer_op :: "binary_op \<Rightarrow> string \<Rightarrow> tc_expr \<Rightarrow> tipe \<Rightarrow> tc_expr \<Rightarrow> tipe \<Rightarrow> location option \<Rightarrow> tc_expr_kind check" where
  "buffer_op op what e1 t1 e2 t2 loc =
     (if t1 = TUint \<and> t2 = TBuffer then return_c (EBinary op e1 e2 TUint) else bad_args what t1 t2 loc)"

definition equality_op :: "binary_op \<Rightarrow> tc_expr \<Rightarrow> tipe \<Rightarrow> tc_expr \<Rightarrow> tipe \<Rightarrow> location option \<Rightarrow> tc_expr_kind check" where
  "equality_op op e1 t1 e2 t2 loc =
     (if t1 \<noteq> TVoid \<and> t2 \<noteq> TVoid \<and> (t1 = TAny \<or> t2 = TAny \<or> t1 = t2)
      then return_c (EBinary op e1 e2 TBool)
      else bad_args ''equality comparison'' t1 t2 loc)"

definition bitwise_op :: "binary_op \<Rightarrow> tc_expr \<Rightarrow> tipe \<Rightarrow> tc_expr \<Rightarrow> tipe \<Rightarrow> location option \<Rightarrow> tc_expr_kind check" where
  "bitwise_op op e1 t1 e2 t2 loc =
     (if t1 = t2 \<and> t1 \<in> {TUint, TInt, TBytes32} then return_c (EBinary op e1 e2 t1)
      else bad_args ''binary bitwise operator'' t1 t2 loc)"

text \<open>The operators on two operands of one type, which is also the type of the result.\<close>

definition uniform_op ::
    "tipe \<Rightarrow> string \<Rightarrow> binary_op \<Rightarrow> tc_expr \<Rightarrow> tipe \<Rightarrow> tc_expr \<Rightarrow> tipe \<Rightarrow> location option \<Rightarrow> tc_expr_kind check" where
  "uniform_op t what op e1 t1 e2 t2 loc =
     (if t1 = t \<and> t2 = t then return_c (EBinary op e1 e2 t) else bad_args what t1 t2 loc)"

definition check_operands ::
    "binary_op \<Rightarrow> tc_expr \<Rightarrow> tipe \<Rightarrow> tc_expr \<Rightarrow> tipe \<Rightarrow> location option \<Rightarrow> tc_expr_kind check" where
  "check_operands op e1 t1 e2 t2 loc =
     (case op of
        BPlus \<Rightarrow> numeric_op op TUint op TInt ''binary op'' e1 t1 e2 t2 loc
      | BMinus \<Rightarrow> numeric_op op TUint op TInt ''binary op'' e1 t1 e2 t2 loc
      | BTimes \<Rightarrow> numeric_op op TUint op TInt ''binary op'' e1 t1 e2 t2 loc
      | BDiv \<Rightarrow> numeric_op op TUint BSdiv TInt ''divide'' e1 t1 e2 t2 loc
      | BGetBuffer8 \<Rightarrow> buffer_op op ''getbuffer8'' e1 t1 e2 t2 loc
      | BGetBuffer64 \<Rightarrow> buffer_op op ''getbuffer64'' e1 t1 e2 t2 loc
      | BGetBuffer256 \<Rightarrow> buffer_op op ''getbuffer256'' e1 t1 e2 t2 loc
      | BMod \<Rightarrow> numeric_op op TUint BSmod TInt ''mod'' e1 t1 e2 t2 loc
      | BLessThan \<Rightarrow> numeric_op op TBool BSLessThan TBool ''<'' e1 t1 e2 t2 loc
      | BGreaterThan \<Rightarrow> numeric_op op TBool BSGreaterThan TBool ''>'' e1 t1 e2 t2 loc
      | BLessEq \<Rightarrow> numeric_op op TBool BSLessEq TBool ''<='' e1 t1 e2 t2 loc
      | BGreaterEq \<Rightarrow> numeric_op op TBool BSGreaterEq TBool ''>='' e1 t1 e2 t2 loc
      | BEqual \<Rightarrow> equality_op op e1 t1 e2 t2 loc
      | BNotEqual \<Rightarrow> equality_op op e1 t1 e2 t2 loc
      | BBitwiseAnd \<Rightarrow> bitwise_op op e1 t1 e2 t2 loc
      | BBitwiseOr \<Rightarrow> bitwise_op op e1 t1 e2 t2 loc
      | BBitwiseXor \<Rightarrow> bitwise_op op e1 t1 e2 t2 loc
      | BShiftLeft \<Rightarrow> bitwise_op op e1 t1 e2 t2 loc
      | BShiftRight \<Rightarrow> bitwise_op op e1 t1 e2 t2 loc
      | BLogicalAnd \<Rightarrow> uniform_op TBool ''binary logical operator'' op e1 t1 e2 t2 loc
      | BLogicalOr \<Rightarrow> uniform_op TBool ''binary logical operator'' op e1 t1 e2 t2 loc
      | BHash \<Rightarrow> uniform_op TBytes32 ''binary hash operator'' op e1 t1 e2 t2 loc
      | _ \<Rightarrow> panic_c)"

definition typecheck_operands ::
    "tc_env \<Rightarrow> binary_op \<Rightarrow> tc_expr \<Rightarrow> tc_expr \<Rightarrow> location option \<Rightarrow> tc_expr_kind check" where
  "typecheck_operands env op e1 e2 loc =
     bind_c (represent env (expr_get_type e1)) (\<lambda>t1.
     bind_c (represent env (expr_get_type e2)) (\<lambda>t2.
       check_operands op e1 t1 e2 t2 loc))"

text \<open>Two constants are folded, except for reads of buffers; a constant second operand is exchanged with the first, where
  that is possible, so that it becomes an immediate.\<close>

definition typecheck_binary_op ::
    "tc_env \<Rightarrow> binary_op \<Rightarrow> tc_expr \<Rightarrow> tc_expr \<Rightarrow> location option \<Rightarrow> tc_expr_kind check" where
  "typecheck_binary_op env op e1 e2 loc =
     (case int_const e2 of
        None \<Rightarrow> typecheck_operands env op e1 e2 loc
      | Some (v2, t2) \<Rightarrow>
          (case int_const e1 of
             Some (v1, t1) \<Rightarrow>
               if op \<in> {BGetBuffer256, BGetBuffer64, BGetBuffer8} then typecheck_operands env op e1 e2 loc
               else typecheck_binary_op_const env op v1 t1 v2 t2 loc
           | None \<Rightarrow>
               (case exchanged op of
                  Some op' \<Rightarrow> typecheck_operands env op' e2 e1 loc
                | None \<Rightarrow> typecheck_operands env op e1 e2 loc)))"

subsection \<open>Operators on buffers\<close>

definition typecheck_trinary_op ::
    "tc_env \<Rightarrow> trinary_op \<Rightarrow> tc_expr \<Rightarrow> tc_expr \<Rightarrow> tc_expr \<Rightarrow> location option \<Rightarrow> tc_expr_kind check" where
  "typecheck_trinary_op env op e1 e2 e3 loc =
     bind_c (represent env (expr_get_type e1)) (\<lambda>t1.
     bind_c (represent env (expr_get_type e2)) (\<lambda>t2.
     bind_c (represent env (expr_get_type e3)) (\<lambda>t3.
       if t1 = TUint \<and> t2 = TUint \<and> t3 = TBuffer then return_c (ETrinary op e1 e2 e3 TBuffer)
       else type_fail (''invalid argument types to 3-ary op: '' @ quoted (type_display t1) @ '', ''
              @ quoted (type_display t2) @ '' and '' @ quoted (type_display t3)) loc)))"

section \<open>Successful checks\<close>

text \<open>When the checks of two operands succeed.\<close>

lemmas check_results = bad_args_def type_fail_def return_c_def fail_c_def panic_c_def

lemma numeric_op_Done:
  "numeric_op uop ut sop st what e1 t1 e2 t2 loc s = Done k s' \<Longrightarrow>
   (t1 = TUint \<and> t2 = TUint \<and> k = EBinary uop e1 e2 ut) \<or> (t1 = TInt \<and> t2 = TInt \<and> k = EBinary sop e1 e2 st)"
  by (cases t1; cases t2) (auto simp: numeric_op_def check_results)

lemma const_div_Done:
  "const_div uop sop what v1 t1 v2 t2 loc s = Done k s' \<Longrightarrow>
   \<exists>v. k = EConst (IntV v) t1 \<and> (t1 = TUint \<and> t2 = TUint \<and> uop v1 v2 = Some v \<or> t1 = TInt \<and> t2 = TInt \<and> sop v1 v2 = Some (Some v))"
  by (cases t1; cases t2) (auto simp: const_div_def check_results split: option.splits)

lemma const_compare_Done:
  "const_compare ub sb what t1 t2 loc s = Done k s' \<Longrightarrow>
   (t1 = TUint \<and> t2 = TUint \<and> k = EConst (IntV (uint256_from_bool ub)) TBool)
   \<or> (t1 = TInt \<and> t2 = TInt \<and> k = EConst (IntV (uint256_from_bool sb)) TBool)"
  by (cases t1; cases t2) (auto simp: const_compare_def check_results)

end
