(* ===== verification/Folding.thy ===== *)
theory Folding
  imports Codegen_Sem Typecheck_Ops
begin

text \<open>
  Constant folding and the exchange of operands by the type checker, against the reference semantics of expressions.
\<close>

section \<open>Folding of two constants\<close>

lemma represent_basic [simp]: "t \<in> {TUint, TInt, TBool, TBytes32} \<Longrightarrow> represent env t = return_c t"
  by (auto simp: represent_def)

lemma sub_unchecked: "uint256_sub x y = Some r \<Longrightarrow> uint256_unchecked_sub x y = Some r"
  by (auto simp: uint256_unchecked_sub_def uint256_sub_def biguint_checked_sub_def split: if_splits)

lemma int_constE: "int_const e = Some (v, t) \<Longrightarrow> eval_expr kec lv gv e = Some (IntV v) \<and> expr_get_type e = t"
  by (cases e) (auto simp: int_const_def split: tc_expr_kind.splits val.splits)

lemmas const_defs = typecheck_binary_op_const_def const_arith_def const_same_def const_logical_def const_shift_def

lemmas operand_defs = check_operands_def buffer_op_def equality_op_def bitwise_op_def uniform_op_def

lemmas value_defs = binary_val_def word_op_def bool_val_def uint256_from_bool_def uint256_zero_def uint256_one_def

lemma folded_value:
  assumes "typecheck_binary_op_const env op v1 t1 v2 t2 loc s = Done k1 s1" "te_hash env = kec"
    "check_operands op e1 t1' e2 t2' loc s = Done (EBinary op' e1' e2' t') s2"
    "t1 \<in> {TUint, TInt} \<longrightarrow> t1' = t1" "t2 \<in> {TUint, TInt} \<longrightarrow> t2' = t2"
    "binary_val kec op' (IntV v1) (IntV v2) = Some v"
  shows "\<exists>t. k1 = EConst v t \<and> (op \<notin> {BBitwiseAnd, BBitwiseOr, BBitwiseXor, BHash} \<longrightarrow> t = t')"
proof (cases "op \<in> {BPlus, BMinus, BTimes, BDiv, BMod, BLessThan, BGreaterThan, BLessEq, BGreaterEq}")
  case True
  then show ?thesis
    using assms
    by (auto simp: const_defs operand_defs check_results value_defs sub_unchecked dest!: numeric_op_Done const_div_Done const_compare_Done
      split: option.splits if_splits)
next
  case False
  then show ?thesis
    using assms
    by (cases op) (auto simp: const_defs operand_defs check_results value_defs value_avm_hash2_def uint256_avm_hash2_def Let_def
      split: option.splits if_splits)
qed

section \<open>Exchange of operands\<close>

lemma bitwise_commute:
  "uint256_bitwise_and x y = uint256_bitwise_and y x" "uint256_bitwise_or x y = uint256_bitwise_or y x"
  "uint256_bitwise_xor x y = uint256_bitwise_xor y x" "uint256_add x y = uint256_add y x" "uint256_mul x y = uint256_mul y x"
  by (simp_all add: uint256_bitwise_and_def uint256_bitwise_or_def uint256_bitwise_xor_def uint256_add_def uint256_mul_def
      and.commute or.commute xor.commute add.commute mult.commute)

definition mirrored :: "(binary_op \<times> binary_op) set" where
  "mirrored = {(BPlus, BPlus), (BTimes, BTimes), (BEqual, BEqual), (BNotEqual, BNotEqual), (BBitwiseAnd, BBitwiseAnd),
     (BBitwiseOr, BBitwiseOr), (BBitwiseXor, BBitwiseXor), (BLessThan, BGreaterThan), (BGreaterThan, BLessThan), (BLessEq, BGreaterEq),
     (BGreaterEq, BLessEq), (BSLessThan, BSGreaterThan), (BSGreaterThan, BSLessThan), (BSLessEq, BSGreaterEq), (BSGreaterEq, BSLessEq)}"

lemma mirrored_ops [simp]:
  "(BPlus, BPlus) \<in> mirrored" "(BTimes, BTimes) \<in> mirrored" "(BEqual, BEqual) \<in> mirrored" "(BNotEqual, BNotEqual) \<in> mirrored"
  "(BBitwiseAnd, BBitwiseAnd) \<in> mirrored" "(BBitwiseOr, BBitwiseOr) \<in> mirrored" "(BBitwiseXor, BBitwiseXor) \<in> mirrored"
  "(BLessThan, BGreaterThan) \<in> mirrored" "(BGreaterThan, BLessThan) \<in> mirrored" "(BLessEq, BGreaterEq) \<in> mirrored"
  "(BGreaterEq, BLessEq) \<in> mirrored" "(BSLessThan, BSGreaterThan) \<in> mirrored" "(BSGreaterThan, BSLessThan) \<in> mirrored"
  "(BSLessEq, BSGreaterEq) \<in> mirrored" "(BSGreaterEq, BSLessEq) \<in> mirrored"
  by (simp_all add: mirrored_def)

lemma binary_val_words:
  "op \<notin> {BEqual, BNotEqual, BGetBuffer8, BGetBuffer64, BGetBuffer256} \<Longrightarrow>
   binary_val kec op v1 v2 =
     (case v1 of IntV x \<Rightarrow> (case v2 of IntV y \<Rightarrow> map_option IntV (word_op kec op x y) | _ \<Rightarrow> None) | _ \<Rightarrow> None)"
  by (cases op; cases v1; cases v2) (simp_all add: binary_val_def)

lemma word_op_mirrored: "(op1, op2) \<in> mirrored \<Longrightarrow> word_op kec op2 y x = word_op kec op1 x y"
  by (auto simp: mirrored_def word_op_def bitwise_commute)

lemma binary_val_mirrored:
  assumes "(op1, op2) \<in> mirrored"
  shows "binary_val kec op2 v2 v1 = binary_val kec op1 v1 v2"
proof (cases "op1 \<in> {BEqual, BNotEqual}")
  case True
  with assms show ?thesis by (auto simp: mirrored_def binary_val_def eq_commute [of v1])
next
  case False
  with assms have "op1 \<notin> {BEqual, BNotEqual, BGetBuffer8, BGetBuffer64, BGetBuffer256}"
    "op2 \<notin> {BEqual, BNotEqual, BGetBuffer8, BGetBuffer64, BGetBuffer256}" by (auto simp: mirrored_def)
  then show ?thesis
    by (cases v1; cases v2) (simp_all only: binary_val_words word_op_mirrored [OF assms] val.case)
qed

lemma check_operands_exchanged:
  assumes "check_operands op e1 t1 e2 t2 loc s = Done k s1" "exchanged op = Some opx"
  shows "\<exists>op1 op2 t. k = EBinary op1 e1 e2 t \<and> s1 = s \<and> check_operands opx e2 t2 e1 t1 loc s = Done (EBinary op2 e2 e1 t) s
    \<and> (op1, op2) \<in> mirrored"
proof -
  have numeric: "\<exists>op1 op2 t. k = EBinary op1 e1 e2 t \<and> s1 = s \<and> numeric_op uop' ut sop' st what' e2 t2 e1 t1 loc s = Done (EBinary op2 e2 e1 t) s
      \<and> (op1, op2) \<in> mirrored"
    if "numeric_op uop ut sop st what e1 t1 e2 t2 loc s = Done k s1" "(uop, uop') \<in> mirrored" "(sop, sop') \<in> mirrored"
    for uop uop' sop sop' ut st what what'
    using numeric_op_Done [OF that(1)] that by (auto simp: numeric_op_def check_results)
  show ?thesis
    using assms
    by (cases op)
       (auto simp: exchanged_def check_operands_def equality_op_def bitwise_op_def check_results
         intro!: numeric mirrored_ops split: if_splits)
qed


section \<open>Properties\<close>

lemma check_operands_kind: "check_operands op e1 t1 e2 t2 loc s = Done k s' \<Longrightarrow> \<exists>op' t. k = EBinary op' e1 e2 t"
  by (cases op) (auto simp: operand_defs check_results dest: numeric_op_Done split: if_splits)

lemma represent_word: "represent env t s = Done t' s' \<Longrightarrow> s' = s \<and> (t \<in> {TUint, TInt} \<longrightarrow> t' = t)"
  by (auto simp: represent_def check_results split: option.splits sum.splits type_error.splits)

text \<open>
  C16: Folding and exchanging operands are sound.  The type checker folds operators on two constants and exchanges the operands
  of an operator with a constant on the right.  If the operator with its operands as written passes the check and has a value, then
  what the type checker produces instead has the same value; it also has the same type, except for bit operations and hashes of
  two constants, which folding types as booleans.
\<close>

theorem folding_preserves_values:
  assumes "typecheck_operands env op e1 e2 loc s = Done k s1" "eval_kind kec lv gv k = Some v" "te_hash env = kec"
    "typecheck_binary_op env op e1 e2 loc s = Done k' s2"
  shows "eval_kind kec lv gv k' = Some v
    \<and> (op \<notin> {BBitwiseAnd, BBitwiseOr, BBitwiseXor, BHash} \<or> int_const e1 = None \<or> int_const e2 = None
        \<longrightarrow> kind_get_type k' = kind_get_type k)"
proof -
  from assms(1) obtain t1 t2 where t: "represent env (expr_get_type e1) s = Done t1 s" "represent env (expr_get_type e2) s = Done t2 s"
    "check_operands op e1 t1 e2 t2 loc s = Done k s1"
    by (auto simp: typecheck_operands_def bind_c_Done_iff dest: represent_word)
  obtain op1 t where k: "k = EBinary op1 e1 e2 t" using check_operands_kind [OF t(3)] by blast
  consider (same) "k' = k" | (fold) v1 c1 v2 c2 where "int_const e1 = Some (v1, c1)" "int_const e2 = Some (v2, c2)"
      "typecheck_binary_op_const env op v1 c1 v2 c2 loc s = Done k' s2"
    | (exchange) opx where "exchanged op = Some opx" "typecheck_operands env opx e2 e1 loc s = Done k' s2" "int_const e1 = None"
    using assms(1,4) by (auto simp: typecheck_binary_op_def split: option.splits if_splits)
  then show ?thesis
  proof cases
    case same
    with assms(2) show ?thesis by simp
  next
    case fold
    have "binary_val kec op1 (IntV v1) (IntV v2) = Some v"
      using assms(2) int_constE [OF fold(1)] int_constE [OF fold(2)] by (simp add: k)
    from folded_value [OF fold(3) assms(3) t(3) [unfolded k] _ _ this] t(1,2) int_constE [OF fold(1)] int_constE [OF fold(2)]
    obtain t' where "k' = EConst v t'" "op \<notin> {BBitwiseAnd, BBitwiseOr, BBitwiseXor, BHash} \<longrightarrow> t' = t" using represent_word by metis
    then show ?thesis using fold(1,2) by (auto simp: k)
  next
    case exchange
    from check_operands_exchanged [OF t(3) exchange(1)] obtain op2 where
      k': "check_operands opx e2 t2 e1 t1 loc s = Done (EBinary op2 e2 e1 t) s" "(op1, op2) \<in> mirrored" by (auto simp: k)
    have "k' = EBinary op2 e2 e1 t"
      using exchange(2) t(1,2) k'(1) by (simp add: typecheck_operands_def bind_c_def)
    with assms(2) k'(2) show ?thesis by (auto simp: k bind_eq_Some_conv binary_val_mirrored)
  qed
qed

text \<open>\<open>x < 3\<close> becomes \<open>3 > x\<close>; with \<open>x = 2\<close> both are true.\<close>

definition demo_tc_env :: tc_env where
  "demo_tc_env = \<lparr>te_types = Map.empty, te_globals = Map.empty, te_funcs = Map.empty, te_return = TVoid, te_tree = Map.empty,
     te_undef = Map.empty, te_fuel = 1, te_hash = \<lambda>_. [], te_parse_hex = \<lambda>_. None\<rparr>"

theorem folding_preserves_values_witness:
  "let x = TcExpr (ELocalVariableRef 7 TUint) debug_info_default; c = TcExpr (EConst (IntV 3) TUint) debug_info_default
   in typecheck_binary_op demo_tc_env BLessThan x c None [] = Done (EBinary BGreaterThan c x TBool) []
      \<and> eval_kind (\<lambda>_. []) [7 \<mapsto> IntV 2] [] (EBinary BGreaterThan c x TBool) = Some (IntV 1)"
proof -
  let ?x = "TcExpr (ELocalVariableRef 7 TUint) debug_info_default" and ?c = "TcExpr (EConst (IntV 3) TUint) debug_info_default"
  have 1: "typecheck_operands demo_tc_env BLessThan ?x ?c None [] = Done (EBinary BLessThan ?x ?c TBool) []"
    by (simp add: typecheck_operands_def bind_c_def return_c_def check_operands_def numeric_op_def)
  have 2: "typecheck_binary_op demo_tc_env BLessThan ?x ?c None [] = Done (EBinary BGreaterThan ?c ?x TBool) []"
    by (simp add: typecheck_binary_op_def int_const_def exchanged_def typecheck_operands_def bind_c_def return_c_def check_operands_def
        numeric_op_def)
  have "eval_kind (\<lambda>_. []) [7 \<mapsto> IntV 2] [] (EBinary BLessThan ?x ?c TBool) = Some (IntV 1)"
    by (simp add: binary_val_def word_op_def bool_val_def)
  from folding_preserves_values [OF 1 this _ 2] 2 show ?thesis by (simp add: demo_tc_env_def Let_def)
qed

text \<open>
  Bit operations on two constants get the type of booleans.  So \<open>!(6 & 3)\<close>, which is ill-typed for variables, is accepted, and its
  value is \<open>2 ^ 64 - 1\<close>, because negation of a constant subtracts it from one in 64 bits.
\<close>

lemma not_of_folded_bits:
  "\<exists>k. typecheck_binary_op env BBitwiseAnd (TcExpr (EConst (IntV 6) TUint) di) (TcExpr (EConst (IntV 3) TUint) di) loc s = Done k s
    \<and> typecheck_unary_op env UNot (TcExpr k di) loc s = Done (EConst (IntV (2 ^ 64 - 1)) TBool) s"
  by (simp add: typecheck_binary_op_def int_const_def typecheck_binary_op_const_def const_same_def check_results uint256_bitwise_and_def
      typecheck_unary_op_def bind_c_def check_not_def uint256_to_usize_def uint256_from_usize_def usize_limit_def)

end
