(* ===== verification/Peephole.thy ===== *)
theory Peephole
  imports Code_Exec
begin

text \<open>
  The peephole optimiser (\<open>src/link/optimize.rs\<close>).  Its output stack \<open>code_out\<close> is modelled with the last
  instruction first.  The optimiser is judged by executing straight-line code on the emulator.
\<close>

section \<open>Definitions\<close>

text \<open>The filter drops \<open>Noop\<close> without and \<open>Pop\<close> with an immediate.\<close>

definition is_useless :: "opcode instruction \<Rightarrow> bool" where
  "is_useless insn \<longleftrightarrow>
     opcode insn = AVM Noop \<and> immediate insn = None \<or> opcode insn = AVM Pop \<and> immediate insn \<noteq> None"

definition useless_opcodes_layer :: "opcode instruction list \<Rightarrow> opcode instruction list" where
  "useless_opcodes_layer cs = filter (\<lambda>insn. \<not> is_useless insn) cs"

text \<open>A \<open>Noop\<close> with the immediate if there is one, else nothing.\<close>

definition noop_imm :: "val option \<Rightarrow> debug_info \<Rightarrow> opcode instruction list" where
  "noop_imm imm di = (case imm of Some v \<Rightarrow> [Instruction (AVM Noop) (Some v) di] | None \<Rightarrow> [])"

text \<open>One turn of the inner loop on the last two instructions; \<open>None\<close> when it is done.\<close>

fun reduce_top :: "opcode instruction list \<Rightarrow> opcode instruction list option" where
  "reduce_top (Instruction (AVM op1) imm1 loc1 # Instruction op2 imm2 loc2 # rest) =
     (if op1 = Pop \<and> imm1 = None then
        if op2 = AVM Dup0 \<and> imm2 = None then Some rest else None
      else if op1 = AuxPush \<and> imm1 = None then
        if op2 = AVM AuxPop then Some (noop_imm imm2 loc2 @ rest)
        else if op2 = AVM Noop \<and> imm2 \<noteq> None then Some (Instruction (AVM AuxPush) imm2 loc1 # rest)
        else None
      else if op1 = AuxPop \<and> imm1 \<noteq> None then
        if op2 = AVM AuxPush \<and> imm2 = None then Some (Instruction (AVM Swap1) imm1 loc1 # rest) else None
      else if op1 = AuxPop then
        if op2 = AVM AuxPush then Some (noop_imm imm2 loc2 @ rest)
        else if op2 = AVM Noop \<and> imm2 \<noteq> None then Some (Instruction (AVM AuxPop) imm2 loc1 # rest)
        else None
      else if op1 = IsZero \<and> imm1 = None then
        if op2 = AVM IsZero then Some (noop_imm imm2 loc2 @ rest) else None
      else if imm1 = None then
        if op2 = AVM Noop \<and> imm2 \<noteq> None then Some (Instruction (AVM op1) imm2 loc1 # rest) else None
      else None)"
| "reduce_top _ = None"

lemma reduce_top_shorter: "reduce_top cs = Some cs' \<Longrightarrow> length cs' < length cs"
  by (induction cs rule: reduce_top.induct) (auto simp: noop_imm_def split: if_splits option.splits)

function reduce_loop :: "opcode instruction list \<Rightarrow> opcode instruction list" where
  "reduce_loop cs = (case reduce_top cs of None \<Rightarrow> cs | Some cs' \<Rightarrow> reduce_loop cs')"
  by auto
termination
  by (relation "measure length") (auto dest: reduce_top_shorter)

declare reduce_loop.simps [simp del]

definition peephole :: "opcode instruction list \<Rightarrow> opcode instruction list" where
  "peephole code_in = rev (foldl (\<lambda>code_out insn. reduce_loop (insn # code_out)) [] (useless_opcodes_layer code_in))"

section \<open>Independence of the address\<close>

declare One_nat_def [simp del]

named_theorems linear_intros "rules for computations that do not depend on their address"

definition at :: "usize \<Rightarrow> machine \<Rightarrow> machine" where
  "at pc m = m\<lparr>state := Running (CpInternal pc)\<rparr>"

text \<open>Where \<open>c\<close> succeeds, it succeeds at every address with the same result and the same effect, moves on by
  \<open>n\<close> instructions and returns a result that satisfies \<open>A\<close>.\<close>

definition linear :: "nat \<Rightarrow> ('a \<Rightarrow> bool) \<Rightarrow> 'a exec \<Rightarrow> bool" where
  "linear n A c \<longleftrightarrow>
     (\<forall>m pc a m1. c (at pc m) = Done a m1 \<longrightarrow>
        A a \<and> state m1 = Running (CpInternal (pc + n)) \<and> (\<forall>pc'. c (at pc' m) = Done a (at (pc' + n) m1)))"

abbreviation straight :: "bool exec \<Rightarrow> bool" where
  "straight \<equiv> linear 1 (\<lambda>b. b)"

lemma at_simps [simp]:
  "stack (at pc m) = stack m" "aux_stack (at pc m) = aux_stack m" "code (at pc m) = code m"
  "static_val (at pc m) = static_val m" "register (at pc m) = register m" "err_codepoint (at pc m) = err_codepoint m"
  "arb_gas_remaining (at pc m) = arb_gas_remaining m" "runtime_env (at pc m) = runtime_env m"
  "state (at pc m) = Running (CpInternal pc)" "at pc (at pc' m) = at pc m"
  "(at pc m)\<lparr>stack := s\<rparr> = at pc (m\<lparr>stack := s\<rparr>)" "(at pc m)\<lparr>aux_stack := s\<rparr> = at pc (m\<lparr>aux_stack := s\<rparr>)"
  "(at pc m)\<lparr>code := c\<rparr> = at pc (m\<lparr>code := c\<rparr>)" "(at pc m)\<lparr>register := v\<rparr> = at pc (m\<lparr>register := v\<rparr>)"
  "(at pc m)\<lparr>err_codepoint := cp\<rparr> = at pc (m\<lparr>err_codepoint := cp\<rparr>)"
  "(at pc m)\<lparr>arb_gas_remaining := g\<rparr> = at pc (m\<lparr>arb_gas_remaining := g\<rparr>)"
  "(at pc m)\<lparr>runtime_env := e\<rparr> = at pc (m\<lparr>runtime_env := e\<rparr>)"
  "(at pc m)\<lparr>state := Running (CpInternal pc')\<rparr> = at pc' m"
  by (simp_all add: at_def)

lemma at_same: "state m = Running (CpInternal pc) \<Longrightarrow> at pc m = m"
  by (simp add: at_def)

lemma linearI:
  assumes "\<And>m pc a m1. c (at pc m) = Done a m1 \<Longrightarrow> A a \<and> state m1 = Running (CpInternal (pc + n)) \<and> (\<forall>pc'. c (at pc' m) = Done a (at (pc' + n) m1))"
  shows "linear n A c"
  using assms unfolding linear_def by blast

lemma linear_seq:
  assumes "linear k A f" "\<And>a. A a \<Longrightarrow> linear n B (g a)"
  shows "linear (k + n) B (bind_c f g)"
proof (rule linearI)
  fix m pc b m2 assume "bind_c f g (at pc m) = Done b m2"
  then obtain a m1 where f: "f (at pc m) = Done a m1" and g: "g a m1 = Done b m2"
    by (auto simp: bind_c_def split: outcome.splits)
  from assms(1) f have a: "A a" "state m1 = Running (CpInternal (pc + k))" "\<forall>pc'. f (at pc' m) = Done a (at (pc' + k) m1)"
    unfolding linear_def by blast+
  from g at_same [OF a(2)] have "g a (at (pc + k) m1) = Done b m2" by simp
  with assms(2) [OF a(1)] have "B b \<and> state m2 = Running (CpInternal (pc + k + n)) \<and> (\<forall>pc'. g a (at pc' m1) = Done b (at (pc' + n) m2))"
    unfolding linear_def by blast
  with a(3) show "B b \<and> state m2 = Running (CpInternal (pc + (k + n))) \<and> (\<forall>pc'. bind_c f g (at pc' m) = Done b (at (pc' + (k + n)) m2))"
    by (simp add: bind_c_def add.assoc)
qed

lemmas linear_bind = linear_seq [where k = 0, simplified]

lemma linear_then: "linear 0 (\<lambda>_. True) f \<Longrightarrow> linear n B g \<Longrightarrow> linear n B (then_c f g)"
  unfolding then_c_def by (rule linear_bind)

text \<open>Pops look at the machine state only to build an error.\<close>

definition pop_stable :: "(value_stack \<Rightarrow> machine_state \<Rightarrow> (execution_error + 'a) \<times> value_stack) \<Rightarrow> bool" where
  "pop_stable f \<longleftrightarrow> (\<forall>s st st' a s1. f s st = (Inr a, s1) \<longrightarrow> f s st' = (Inr a, s1))"

lemma linear_on_stack: "pop_stable f \<Longrightarrow> linear 0 (\<lambda>_. True) (on_stack f)"
proof (rule linearI)
  fix m pc a m1 assume f: "pop_stable f" and c: "on_stack f (at pc m) = Done a m1"
  then obtain s where s: "f (stack m) (Running (CpInternal pc)) = (Inr a, s)" "m1 = at pc (m\<lparr>stack := s\<rparr>)"
    by (auto simp: on_stack_def split: prod.splits sum.splits)
  then have "f (stack m) st = (Inr a, s)" for st using f unfolding pop_stable_def by blast
  with s(2) show "True \<and> state m1 = Running (CpInternal (pc + 0)) \<and> (\<forall>pc'. on_stack f (at pc' m) = Done a (at (pc' + 0) m1))"
    by (simp add: on_stack_def)
qed

lemma linear_on_aux_stack: "pop_stable f \<Longrightarrow> linear 0 (\<lambda>_. True) (on_aux_stack f)"
proof (rule linearI)
  fix m pc a m1 assume f: "pop_stable f" and c: "on_aux_stack f (at pc m) = Done a m1"
  then obtain s where s: "f (aux_stack m) (Running (CpInternal pc)) = (Inr a, s)" "m1 = at pc (m\<lparr>aux_stack := s\<rparr>)"
    by (auto simp: on_aux_stack_def split: prod.splits sum.splits)
  then have "f (aux_stack m) st = (Inr a, s)" for st using f unfolding pop_stable_def by blast
  with s(2) show "True \<and> state m1 = Running (CpInternal (pc + 0)) \<and> (\<forall>pc'. on_aux_stack f (at pc' m) = Done a (at (pc' + 0) m1))"
    by (simp add: on_aux_stack_def)
qed

lemma pops_stable:
  "pop_stable value_stack_pop" "pop_stable value_stack_pop_uint" "pop_stable value_stack_pop_usize"
  "pop_stable value_stack_pop_codepoint" "pop_stable value_stack_pop_tuple" "pop_stable value_stack_pop_buffer"
  by (auto simp: pop_stable_def value_stack_pop_def value_stack_pop_uint_def value_stack_pop_usize_def
      value_stack_pop_codepoint_def value_stack_pop_tuple_def value_stack_pop_buffer_def
      split: list.splits val.splits option.splits)

lemma linear_pops:
  "linear 0 (\<lambda>_. True) pop" "linear 0 (\<lambda>_. True) pop_uint" "linear 0 (\<lambda>_. True) pop_usize"
  "linear 0 (\<lambda>_. True) pop_codepoint" "linear 0 (\<lambda>_. True) pop_tuple" "linear 0 (\<lambda>_. True) pop_buffer"
  "linear 0 (\<lambda>_. True) (on_aux_stack value_stack_pop)" "linear 0 (\<lambda>_. True) (on_aux_stack value_stack_pop_tuple)"
  unfolding pop_def pop_uint_def pop_usize_def pop_codepoint_def pop_tuple_def pop_buffer_def
  by (intro linear_on_stack linear_on_aux_stack pops_stable)+

lemmas linear_bind_pops [linear_intros] = linear_pops [THEN linear_bind]

lemma linear_unwrap [linear_intros]:
  "(\<And>a. x = Some a \<Longrightarrow> linear n B (g a)) \<Longrightarrow> linear n B (bind_c (unwrap_c x) g)"
  by (rule linear_bind [where A = "\<lambda>a. x = Some a"])
     (auto simp: linear_def unwrap_c_def return_c_def panic_c_def split: option.splits)

lemma linear_modify [linear_intros]:
  "(\<And>pc m. f (at pc m) = at pc (f m)) \<Longrightarrow> linear n B g \<Longrightarrow> linear n B (then_c (modify_c f) g)"
  by (rule linear_then) (auto simp: linear_def modify_c_def)

lemma linear_push [linear_intros]:
  "linear n B g \<Longrightarrow> linear n B (then_c (push v) g)" "linear n B g \<Longrightarrow> linear n B (then_c (push_uint i) g)"
  "linear n B g \<Longrightarrow> linear n B (then_c (push_aux v) g)"
  unfolding push_uint_def push_def push_aux_def by (rule linear_modify; simp)+

lemma linear_throw [linear_intros]: "linear n A (throw why v)"
  by (simp add: linear_def throw_def)

lemma linear_next [linear_intros]: "straight next_insn"
  by (auto simp: linear_def next_insn_def incr_pc_def codept_incr_def outcome_simps)

lemma linear_push_next [linear_intros]: "straight (push_next v)"
  unfolding push_next_def by (intro linear_intros)

lemma linear_if [linear_intros]: "(b \<Longrightarrow> linear n A f) \<Longrightarrow> (\<not> b \<Longrightarrow> linear n A g) \<Longrightarrow> linear n A (if b then f else g)"
  by simp

lemma linear_option [linear_intros]:
  "(x = None \<Longrightarrow> linear n A f) \<Longrightarrow> (\<And>a. x = Some a \<Longrightarrow> linear n A (g a)) \<Longrightarrow>
   linear n A (case x of None \<Rightarrow> f | Some a \<Rightarrow> g a)"
  by (cases x) auto

text \<open>Handlers that look at the machine before they choose what to do.\<close>

lemma linear_stateful:
  assumes "\<And>m pc a m1. c (at pc m) = Done a m1 \<Longrightarrow>
    \<exists>d n'. linear n A d \<and> c (at pc m) = d (at pc n') \<and> (\<forall>pc'. c (at pc' m) = d (at pc' n'))"
  shows "linear n A c"
proof (rule linearI)
  fix m pc a m1 assume c: "c (at pc m) = Done a m1"
  then obtain d n' where d: "linear n A d" "c (at pc m) = d (at pc n')" "\<forall>pc'. c (at pc' m) = d (at pc' n')"
    using assms by blast
  with c show "A a \<and> state m1 = Running (CpInternal (pc + n)) \<and> (\<forall>pc'. c (at pc' m) = Done a (at (pc' + n) m1))"
    unfolding linear_def by metis
qed

text \<open>Opcodes that neither transfer control nor block nor look at the program counter.\<close>

definition straight_opcodes :: "avm_opcode set" where
  "straight_opcodes = - {PCpush, Jump, Cjump, Halt, Breakpoint, Inbox, InboxPeek}"

lemma linear_shapes [linear_intros]:
  "straight (un_op f)" "straight (bin_op h)" "straight (push_or_throw msg x)"
  "straight (bin_op_fail msg k)"
  unfolding un_op_def bin_op_def push_or_throw_def bin_op_fail_def by (intro linear_intros)+

lemma linear_push_point [linear_intros]: "straight (push_point r)"
proof (cases r)
  case (Inr z)
  then show ?thesis by (cases z) (simp only: push_point_def sum.case prod.case, intro linear_intros)
qed (simp add: push_point_def linear_throw)

lemma linear_stack_ops:
  "straight op_noop" "straight op_panic" "straight op_rset" "straight op_errset"
  "straight op_setgas" "straight op_sideload" "straight op_tset" "straight op_tget"
  "straight op_tlen" "straight op_pop" "straight op_auxpush" "straight op_auxpop"
  "straight op_xset" "straight op_dup0" "straight op_dup1" "straight op_dup2"
  "straight op_swap1" "straight op_swap2" "straight op_log"
  unfolding op_noop_def op_panic_def op_rset_def op_errset_def op_setgas_def op_sideload_def op_tset_def op_tget_def
    op_tlen_def op_pop_def op_auxpush_def op_auxpop_def op_xset_def op_dup0_def op_dup1_def op_dup2_def op_swap1_def
    op_swap2_def op_log_def
  by (intro linear_intros; simp)+

lemma linear_arith_ops:
  "straight op_iszero" "straight op_bitwiseneg" "straight (op_hash ext)" "straight op_add"
  "straight op_sub" "straight op_mul" "straight op_div" "straight op_mod"
  "straight op_sdiv" "straight op_smod" "straight op_addmod" "straight op_mulmod"
  "straight op_exp" "straight op_signextend" "straight op_lessthan" "straight op_greaterthan"
  "straight op_slessthan" "straight op_sgreaterthan" "straight op_equal" "straight op_type"
  "straight op_bitwiseand" "straight op_bitwiseor" "straight op_bitwisexor" "straight op_byte"
  "straight op_shiftleft" "straight op_shiftright" "straight op_shiftarith"
  unfolding op_iszero_def op_bitwiseneg_def op_hash_def op_add_def op_sub_def op_mul_def op_div_def op_mod_def op_sdiv_def
    op_smod_def op_addmod_def op_mulmod_def op_exp_def op_signextend_def op_lessthan_def op_greaterthan_def op_slessthan_def
    op_sgreaterthan_def op_equal_def op_type_def op_bitwiseand_def op_bitwiseor_def op_bitwisexor_def op_byte_def
    op_shiftleft_def op_shiftright_def op_shiftarith_def
  by (intro linear_intros)+

lemma linear_other_ops:
  "straight (op_ethhash2 ext)" "straight (op_sha256f ext)" "straight op_ripemd160f"
  "straight (op_blake2f ext)" "straight (op_ecrecover ext)" "straight (op_ecadd ext)"
  "straight (op_ecmul ext)" "straight (op_ecpairing ext)" "straight (op_newbuffer ext)"
  "straight op_getbuffer8" "straight (get_buffer k)" "straight (op_setbuffer8 ext)"
  "straight (set_buffer ext k)"
  unfolding op_ethhash2_def op_sha256f_def op_ripemd160f_def op_blake2f_def op_ecrecover_def op_ecadd_def op_ecmul_def
    op_ecpairing_def op_newbuffer_def op_getbuffer8_def get_buffer_def op_setbuffer8_def set_buffer_def
  by (intro linear_intros)+

lemma linear_debugprint: "straight op_debugprint"
  unfolding op_debugprint_def by (intro linear_intros) (simp add: linear_def panic_c_def)

text \<open>Handlers of the form \<open>c m = d (f m)\<close> with a choice that does not depend on the address.\<close>

lemma linear_reading:
  assumes "\<And>m. linear n A (d m)" "\<And>pc m. c (at pc m) = d m (at pc (f m))"
  shows "linear n A c"
  by (rule linear_stateful) (use assms in blast)

lemma linear_reading_ops:
  "straight op_rpush" "straight op_spush" "straight op_errpush" "straight op_pushgas"
  "straight op_stackempty" "straight op_auxstackempty" "straight op_errcodepoint"
proof -
  show "straight op_rpush"
    by (rule linear_reading [where d = "\<lambda>m. push_next (register m)" and f = id]) (intro linear_intros, simp add: op_rpush_def)
  show "straight op_spush"
    by (rule linear_reading [where d = "\<lambda>m. push_next (static_val m)" and f = id]) (intro linear_intros, simp add: op_spush_def)
  show "straight op_errpush"
    by (rule linear_reading [where d = "\<lambda>m. push_next (CodePointV (err_codepoint m))" and f = id])
       (intro linear_intros, simp add: op_errpush_def)
  show "straight op_pushgas"
    by (rule linear_reading [where d = "\<lambda>m. push_next (IntV (arb_gas_remaining m))" and f = id])
       (intro linear_intros, simp add: op_pushgas_def)
  show "straight op_stackempty"
    by (rule linear_reading [where d = "\<lambda>m. push_next (IntV (uint_of_bool (value_stack_is_empty (stack m))))" and f = id])
       (intro linear_intros, simp add: op_stackempty_def)
  show "straight op_auxstackempty"
    by (rule linear_reading [where d = "\<lambda>m. push_next (IntV (uint_of_bool (value_stack_is_empty (aux_stack m))))" and f = id])
       (intro linear_intros, simp add: op_auxstackempty_def)
  show "straight op_errcodepoint"
    by (rule linear_reading [where d = "\<lambda>m. push_next (CodePointV (fst (create_segment (code m))))"
          and f = "\<lambda>m. m\<lparr>code := snd (create_segment (code m))\<rparr>"])
       (intro linear_intros, simp add: op_errcodepoint_def split_beta)
qed

lemma linear_xget: "straight op_xget"
  unfolding op_xget_def
proof (intro linear_intros)
  fix slot_num
  let ?d = "\<lambda>m. case value_stack_top (aux_stack m) of
       None \<Rightarrow> throw ''aux stack underflow'' None
     | Some aux_top \<Rightarrow>
         (case aux_top of
            TupleV v \<Rightarrow>
              (case get_at v slot_num of
                 Some x \<Rightarrow> push_next x
               | None \<Rightarrow> throw ''tuple access out of bounds'' None)
          | _ \<Rightarrow> throw ''expected tuple on aux stack'' (Some aux_top))"
  have "straight (?d m)" for m
    by (intro linear_option linear_throw) (auto intro!: linear_intros split: val.split)
  then show "straight (\<lambda>m. case value_stack_top (aux_stack m) of
       None \<Rightarrow> throw ''aux stack underflow'' None m
     | Some aux_top \<Rightarrow>
         (case aux_top of
            TupleV v \<Rightarrow>
              (case get_at v slot_num of
                 Some x \<Rightarrow> push_next x m
               | None \<Rightarrow> throw ''tuple access out of bounds'' None m)
          | _ \<Rightarrow> throw ''expected tuple on aux stack'' (Some aux_top) m))"
    by (rule linear_reading [where d = ?d and f = id]) (simp split: option.split val.split)
qed

lemma linear_keccakf: "straight (op_keccakf ext)"
  unfolding op_keccakf_def
proof (intro linear_intros)
  fix t1
  have ints: "collect_res (\<lambda>x. case x of IntV ui \<Rightarrow> Inr ui | _ \<Rightarrow> Inl e) vs = Inr us \<Longrightarrow>
      collect_res (\<lambda>x. case x of IntV ui \<Rightarrow> Inr ui | _ \<Rightarrow> Inl e') vs = Inr us" for e e' :: execution_error and vs us
    by (induction vs arbitrary: us) (auto split: sum.splits val.splits)
  have stable: "tuple_keccak f t1 st = Inr t2 \<Longrightarrow> tuple_keccak f t1 st' = Inr t2" for f st st' t2
  proof -
    let ?c = "\<lambda>st. collect_res (\<lambda>x. case x of IntV ui \<Rightarrow> Inr ui
        | _ \<Rightarrow> Inl (execution_error_new ''invalid operand for keccakf'' st None)) t1"
    assume "tuple_keccak f t1 st = Inr t2"
    then obtain us where "length t1 = 7" "?c st = Inr us" "t2 = map IntV (keccak_pack (f (keccak_lanes us)))"
      by (auto simp: tuple_keccak_def split: if_splits sum.splits)
    then show ?thesis by (simp add: tuple_keccak_def ints [of _ _ us])
  qed
  show "straight (\<lambda>m. case tuple_keccak (keccak_f1600 ext) t1 (state m) of
      Inl e \<Rightarrow> Fail e m | Inr t2 \<Rightarrow> push_next (value_new_tuple t2) m)"
  proof (rule linear_stateful)
    fix m pc a m1
    assume "(case tuple_keccak (keccak_f1600 ext) t1 (state (at pc m)) of
        Inl e \<Rightarrow> Fail e (at pc m) | Inr t2 \<Rightarrow> push_next (value_new_tuple t2) (at pc m)) = Done a m1"
    then obtain t2 where "tuple_keccak (keccak_f1600 ext) t1 (Running (CpInternal pc)) = Inr t2"
      by (auto split: sum.splits)
    then have "tuple_keccak (keccak_f1600 ext) t1 (Running (CpInternal pc')) = Inr t2" for pc' by (rule stable)
    then show "\<exists>d n'. straight d \<and>
      (case tuple_keccak (keccak_f1600 ext) t1 (state (at pc m)) of
        Inl e \<Rightarrow> Fail e (at pc m) | Inr t2 \<Rightarrow> push_next (value_new_tuple t2) (at pc m)) = d (at pc n') \<and>
      (\<forall>pc'. (case tuple_keccak (keccak_f1600 ext) t1 (state (at pc' m)) of
        Inl e \<Rightarrow> Fail e (at pc' m) | Inr t2 \<Rightarrow> push_next (value_new_tuple t2) (at pc' m)) = d (at pc' n'))"
      by (intro exI [of _ "push_next (value_new_tuple t2)"] exI [of _ m] conjI linear_intros) simp_all
  qed
qed

lemma linear_send: "straight op_send"
  unfolding op_send_def
proof (intro linear_intros)
  fix sz b
  show "straight (\<lambda>m. case push_send (runtime_env m) sz b of
       None \<Rightarrow> Panic | Some env \<Rightarrow> next_insn (m\<lparr>runtime_env := env\<rparr>))"
    by (rule linear_reading [where
          d = "\<lambda>m. case push_send (runtime_env m) sz b of None \<Rightarrow> panic_c | Some env \<Rightarrow> next_insn"
          and f = "\<lambda>m. case push_send (runtime_env m) sz b of None \<Rightarrow> m | Some env \<Rightarrow> m\<lparr>runtime_env := env\<rparr>"])
       (auto simp: panic_c_def linear_def [of _ _ panic_c] intro!: linear_intros split: option.split)
qed

lemma linear_panic [linear_intros]: "linear n A panic_c"
  by (simp add: linear_def panic_c_def)

lemma linear_push_insn_op [linear_intros]: "straight (push_insn_op op imm cp)"
  by (rule linear_reading [where
        d = "\<lambda>m. case push_insn (code m) op imm cp of None \<Rightarrow> panic_c | Some (new_cp, segs) \<Rightarrow> push_next (CodePointV new_cp)"
        and f = "\<lambda>m. case push_insn (code m) op imm cp of None \<Rightarrow> m | Some (new_cp, segs) \<Rightarrow> m\<lparr>code := segs\<rparr>"])
     (auto simp: panic_c_def push_insn_op_def intro!: linear_intros split: option.split)

lemma linear_insn_ops: "straight op_pushinsn" "straight op_pushinsnimm"
  unfolding op_pushinsn_def op_pushinsnimm_def by (intro linear_intros)+

lemma linear_openinsn: "straight op_openinsn"
  unfolding op_openinsn_def
proof (intro linear_intros)
  fix cp
  let ?d = "\<lambda>m. case get_insn (code m) cp of
       Some (Some insn) \<Rightarrow>
         then_c (push (case immediate insn of Some v \<Rightarrow> value_new_tuple [v] | None \<Rightarrow> value_none))
           (push_next (IntV (uint256_from_usize (avm_opcode_to_number (opcode insn)))))
     | _ \<Rightarrow> panic_c"
  show "straight (\<lambda>m. case get_insn (code m) cp of
       Some (Some insn) \<Rightarrow>
         then_c (push (case immediate insn of Some v \<Rightarrow> value_new_tuple [v] | None \<Rightarrow> value_none))
           (push_next (IntV (uint256_from_usize (avm_opcode_to_number (opcode insn))))) m
     | _ \<Rightarrow> Panic)"
    by (rule linear_reading [where d = ?d and f = id])
       (auto simp: panic_c_def intro!: linear_intros split: option.split)
qed

lemma exec_opcode_straight:
  assumes "op \<in> straight_opcodes"
  shows "straight (exec_opcode ext imm gas op)"
  using assms
  by (cases op) (simp_all add: straight_opcodes_def linear_stack_ops linear_arith_ops linear_other_ops linear_debugprint
      linear_reading_ops linear_xget linear_keccakf linear_send linear_insn_ops linear_openinsn
      op_getbuffer64_def op_getbuffer256_def op_setbuffer64_def op_setbuffer256_def)

section \<open>Soundness\<close>

declare One_nat_def [simp]

text \<open>Instructions of the machine in blocks of straight-line code.\<close>

definition straight_insn :: "opcode instruction \<Rightarrow> bool" where
  "straight_insn i \<longleftrightarrow> (case opcode i of AVM op \<Rightarrow> op \<in> straight_opcodes | _ \<Rightarrow> False)"

lemma exec_single:
  "opcode i = AVM op \<Longrightarrow> exec_code ext [i] m =
     exec_opcode ext (immediate i \<noteq> None) (arb_gas_remaining m) op (push_immediate (Instruction op (immediate i) (insn_debug_info i)) m)"
  by (simp add: exec_code.simps(2) split: outcome.split)

lemma linear_insn: "straight_insn i \<Longrightarrow> straight (exec_code ext [i])"
proof (rule linear_reading [where
      d = "\<lambda>m. case opcode i of AVM op \<Rightarrow> exec_opcode ext (immediate i \<noteq> None) (arb_gas_remaining m) op | _ \<Rightarrow> panic_c"
      and f = "\<lambda>m. case immediate i of Some v \<Rightarrow> m\<lparr>stack := v # stack m\<rparr> | None \<Rightarrow> m"])
  fix m :: machine and pc
  assume i: "straight_insn i"
  then obtain op where op: "opcode i = AVM op" "op \<in> straight_opcodes"
    by (auto simp: straight_insn_def split: opcode.splits)
  show "straight (case opcode i of AVM op \<Rightarrow> exec_opcode ext (immediate i \<noteq> None) (arb_gas_remaining m) op | _ \<Rightarrow> panic_c)"
    unfolding op(1) opcode.case by (rule exec_opcode_straight [OF op(2)])
  show "exec_code ext [i] (at pc m) =
    (case opcode i of AVM op \<Rightarrow> exec_opcode ext (immediate i \<noteq> None) (arb_gas_remaining m) op | _ \<Rightarrow> panic_c)
      (at pc (case immediate i of Some v \<Rightarrow> m\<lparr>stack := v # stack m\<rparr> | None \<Rightarrow> m))"
    using op(1) by (simp add: exec_single push_immediate_def value_stack_push_def split: option.split)
qed

lemma exec_cons: "exec_code ext (i # cs) = bind_c (exec_code ext [i]) (\<lambda>b. if b then exec_code ext cs else return_c False)"
  using exec_code_append [of ext "[i]" cs] by (auto simp: fun_eq_iff bind_c_def return_c_def split: outcome.split)

lemma linear_code: "list_all straight_insn cs \<Longrightarrow> linear (length cs) (\<lambda>b. b) (exec_code ext cs)"
proof (induction cs)
  case Nil
  show ?case by (auto simp: linear_def at_same)
next
  case (Cons i cs)
  then have "linear (1 + length cs) (\<lambda>b. b) (exec_code ext (i # cs))"
    by (subst exec_cons) (intro linear_seq [OF linear_insn]; simp)
  then show ?case by simp
qed

text \<open>\<open>cs'\<close> does whatever \<open>cs\<close> does when \<open>cs\<close> succeeds.\<close>

definition implements :: "externals \<Rightarrow> opcode instruction list \<Rightarrow> opcode instruction list \<Rightarrow> bool" where
  "implements ext cs cs' \<longleftrightarrow>
     (\<forall>pc m m1. exec_code ext cs (at pc m) = Done True m1 \<longrightarrow>
        exec_code ext cs' (at pc m) = Done True (at (pc + length cs') m1))"

lemma implements_refl: "list_all straight_insn cs \<Longrightarrow> implements ext cs cs"
  using linear_code [of cs ext] unfolding linear_def implements_def by blast

lemma implements_trans: "implements ext cs cs' \<Longrightarrow> implements ext cs' cs'' \<Longrightarrow> implements ext cs cs''"
  unfolding implements_def by (metis at_simps(10))

lemma implements_append:
  assumes "list_all straight_insn xs" "list_all straight_insn ys" "implements ext xs xs'" "implements ext ys ys'"
  shows "implements ext (xs @ ys) (xs' @ ys')"
  unfolding implements_def
proof (intro allI impI)
  fix pc m m2 assume "exec_code ext (xs @ ys) (at pc m) = Done True m2"
  then obtain m1 where x: "exec_code ext xs (at pc m) = Done True m1" and y: "exec_code ext ys m1 = Done True m2"
    by (auto simp: exec_code_append split: outcome.splits if_splits)
  have s: "state m1 = Running (CpInternal (pc + length xs))"
    using x linear_code [OF assms(1)] unfolding linear_def by blast
  have "exec_code ext ys (at (pc + length xs) m1) = Done True m2" using y at_same [OF s] by simp
  then have "exec_code ext ys (at (pc + length xs') m1) = Done True (at (pc + length xs' + length ys) m2)"
    using linear_code [OF assms(2)] unfolding linear_def by blast
  then have "exec_code ext ys' (at (pc + length xs') m1) = Done True (at (pc + length xs' + length ys') m2)"
    using assms(4) unfolding implements_def by fastforce
  moreover have "exec_code ext xs' (at pc m) = Done True (at (pc + length xs') m1)"
    using x assms(3) unfolding implements_def by blast
  ultimately show "exec_code ext (xs' @ ys') (at pc m) = Done True (at (pc + length (xs' @ ys')) m2)"
    by (simp add: exec_code_append add.assoc)
qed

lemma at_cfg: "at pc m = cfg m pc (stack m) (aux_stack m)"
  by (simp add: at_def cfg_def)

lemma at_of_cfg [simp]: "at pc (cfg m pc' s a) = cfg m pc s a"
  by (simp add: at_def cfg_def)

lemma implementsI:
  assumes "\<And>m pc s a m1. exec_code ext cs (cfg m pc s a) = Done True m1 \<Longrightarrow>
    exec_code ext cs' (cfg m pc s a) = Done True (at (pc + length cs') m1)"
  shows "implements ext cs cs'"
  using assms unfolding implements_def at_cfg by blast

lemma underflows [exec_steps]:
  "exec_code ext (Instruction (AVM Pop) None di # cs) (cfg m pc [] a) \<noteq> Done b m1"
  "exec_code ext (Instruction (AVM Dup0) None di # cs) (cfg m pc [] a) \<noteq> Done b m1"
  "exec_code ext (Instruction (AVM AuxPush) None di # cs) (cfg m pc [] a) \<noteq> Done b m1"
  "exec_code ext (Instruction (AVM AuxPop) None di # cs) (cfg m pc s []) \<noteq> Done b m1"
  by (simp_all add: exec_bare op_pop_def op_dup0_def op_auxpush_def op_auxpop_def pop_def on_stack_def on_aux_stack_def
      value_stack_pop_def bind_c_def)

text \<open>The rewrites of the optimiser.\<close>

lemma drop_dup_pop: "implements ext [Instruction (AVM Dup0) None d1, Instruction (AVM Pop) None d2] []"
  by (rule implementsI, case_tac s) (auto simp: exec_steps)

lemma drop_useless: "is_useless i \<Longrightarrow> implements ext [i] []"
  by (cases i, rule implementsI) (auto simp: is_useless_def exec_steps)

lemma drop_auxpop_auxpush:
  "implements ext [Instruction (AVM AuxPop) imm d1, Instruction (AVM AuxPush) None d2] (noop_imm imm d1)"
  by (rule implementsI, case_tac a) (auto simp: exec_steps noop_imm_def split: option.split)

lemma drop_auxpush_auxpop:
  "implements ext [Instruction (AVM AuxPush) imm d1, Instruction (AVM AuxPop) None d2] (noop_imm imm d1)"
  by (rule implementsI, case_tac s) (auto simp: exec_steps noop_imm_def split: option.split)

lemma swap_auxpush_auxpop:
  "implements ext [Instruction (AVM AuxPush) None d1, Instruction (AVM AuxPop) (Some v) d2] [Instruction (AVM Swap1) (Some v) d2]"
  by (rule implementsI, case_tac s) (auto simp: exec_steps)

lemma merge_noop:
  assumes "op \<in> straight_opcodes"
  shows "implements ext [Instruction (AVM Noop) (Some v) d1, Instruction (AVM op) None d2] [Instruction (AVM op) (Some v) d2]"
proof (rule implementsI)
  fix m pc s a m1
  have "op \<noteq> Inbox" using assms by (auto simp: straight_opcodes_def)
  then have imm: "exec_code ext [Instruction (AVM op) (Some v) d2] (cfg m pc s a) =
      exec_code ext [Instruction (AVM op) None d2] (cfg m pc (v # s) a)" by (rule exec_imm)
  assume "exec_code ext [Instruction (AVM Noop) (Some v) d1, Instruction (AVM op) None d2] (cfg m pc s a) = Done True m1"
  then have "exec_code ext [Instruction (AVM op) None d2] (at (pc + 1) (cfg m pc (v # s) a)) = Done True m1"
    by (simp add: exec_steps)
  moreover have "straight_insn (Instruction (AVM op) None d2)" using assms by (simp add: straight_insn_def)
  ultimately have "exec_code ext [Instruction (AVM op) None d2] (at pc (cfg m pc (v # s) a)) = Done True (at (pc + 1) m1)"
    using linear_insn [of "Instruction (AVM op) None d2" ext] unfolding linear_def by blast
  then show "exec_code ext [Instruction (AVM op) (Some v) d2] (cfg m pc s a) =
      Done True (at (pc + length [Instruction (AVM op) (Some v) d2]) m1)"
    by (simp add: imm)
qed

text \<open>Blocks of straight-line code without \<open>IsZero\<close>, whose pairs are removed without regard to the operand.\<close>

definition block_insn :: "opcode instruction \<Rightarrow> bool" where
  "block_insn i \<longleftrightarrow> straight_insn i \<and> opcode i \<noteq> AVM IsZero"

lemma block_straight: "list_all block_insn cs \<Longrightarrow> list_all straight_insn cs"
  by (simp add: block_insn_def list_all_iff)

lemma noop_imm_block: "list_all block_insn (noop_imm imm di)" "rev (noop_imm imm di) = noop_imm imm di"
  by (simp_all add: noop_imm_def block_insn_def straight_insn_def straight_opcodes_def split: option.split)

text \<open>The pairs of instructions that the optimiser replaces, and by what.\<close>

inductive replaces :: "opcode instruction \<Rightarrow> opcode instruction \<Rightarrow> opcode instruction list \<Rightarrow> bool" where
  dup_pop: "replaces (Instruction (AVM Dup0) None d1) (Instruction (AVM Pop) None d2) []"
| auxpop_auxpush: "replaces (Instruction (AVM AuxPop) imm d1) (Instruction (AVM AuxPush) None d2) (noop_imm imm d1)"
| auxpush_auxpop: "replaces (Instruction (AVM AuxPush) imm d1) (Instruction (AVM AuxPop) None d2) (noop_imm imm d1)"
| auxpush_auxpop_imm:
    "replaces (Instruction (AVM AuxPush) None d1) (Instruction (AVM AuxPop) (Some v) d2) [Instruction (AVM Swap1) (Some v) d2]"
| noop: "op \<notin> {Pop, IsZero} \<Longrightarrow>
    replaces (Instruction (AVM Noop) (Some v) d1) (Instruction (AVM op) None d2) [Instruction (AVM op) (Some v) d2]"
| iszero_iszero: "replaces (Instruction (AVM IsZero) imm d1) (Instruction (AVM IsZero) None d2) (noop_imm imm d1)"

inductive_cases replaces_elim: "replaces x y ys"

lemma reduce_top_replaces:
  "reduce_top cs = Some cs' \<longleftrightarrow> (\<exists>x y rest ys. cs = y # x # rest \<and> cs' = ys @ rest \<and> replaces x y ys)"
  (is "?l \<longleftrightarrow> ?r")
proof
  assume ?l
  then obtain op1 imm1 d1 op2 imm2 d2 rest where cs: "cs = Instruction (AVM op1) imm1 d1 # Instruction op2 imm2 d2 # rest"
    by (cases cs rule: reduce_top.cases) auto
  have "\<exists>ys. cs' = ys @ rest \<and> replaces (Instruction op2 imm2 d2) (Instruction (AVM op1) imm1 d1) ys"
    using \<open>?l\<close> unfolding cs reduce_top.simps
    by (auto split: if_splits intro: replaces.intros exI [of _ "[]"] exI [of _ "[_]"])
  with cs show ?r by blast
next
  assume ?r
  then show ?l by (auto elim!: replaces_elim)
qed

lemma replaces_implements:
  "replaces x y ys \<Longrightarrow> block_insn x \<Longrightarrow> block_insn y \<Longrightarrow> implements ext [x, y] ys \<and> list_all block_insn ys \<and> rev ys = ys"
  by (erule replaces_elim)
     (simp_all add: drop_dup_pop drop_auxpop_auxpush drop_auxpush_auxpop swap_auxpush_auxpop merge_noop noop_imm_block,
      simp_all add: block_insn_def straight_insn_def straight_opcodes_def merge_noop)

lemma reduce_loop_sound:
  "list_all block_insn cs \<Longrightarrow> list_all block_insn (reduce_loop cs) \<and> implements ext (rev cs) (rev (reduce_loop cs))"
proof (induction cs rule: reduce_loop.induct)
  case (1 cs)
  show ?case
  proof (cases "reduce_top cs")
    case None
    then show ?thesis using 1(2) implements_refl block_straight by (simp add: reduce_loop.simps [of cs] list_all_rev)
  next
    case (Some cs')
    then obtain y x rest ys where r: "cs = y # x # rest" "cs' = ys @ rest" and "replaces x y ys"
      by (auto simp: reduce_top_replaces)
    moreover from this have ys: "implements ext [x, y] ys" "list_all block_insn ys" "rev ys = ys"
      using replaces_implements [of x y ys ext] 1(2) by simp_all
    ultimately have "implements ext (rev rest @ [x, y]) (rev rest @ ys)"
      using 1(2) by (intro implements_append implements_refl block_straight) auto
    moreover have "list_all block_insn cs'" using r ys 1(2) by simp
    ultimately show ?thesis
      using 1(1) [OF Some] r ys(3) by (auto simp: reduce_loop.simps [of "y # x # rest"] Some [unfolded r] intro: implements_trans)
  qed
qed

lemma peephole_snoc: "peephole (cs @ [i]) = (if is_useless i then peephole cs else rev (reduce_loop (i # rev (peephole cs))))"
  by (simp add: peephole_def useless_opcodes_layer_def)

lemma peephole_sound:
  "list_all block_insn cs \<Longrightarrow> list_all block_insn (peephole cs) \<and> implements ext cs (peephole cs)"
proof (induction cs rule: rev_induct)
  case Nil
  show ?case by (simp add: peephole_def useless_opcodes_layer_def reduce_loop.simps implements_refl)
next
  case (snoc i cs)
  then have IH: "list_all block_insn (peephole cs)" "implements ext cs (peephole cs)" and i: "block_insn i" "list_all block_insn cs"
    by simp_all
  have app: "implements ext (cs @ [i]) (peephole cs @ ys)" if "implements ext [i] ys" for ys
    using that i IH(2) by (intro implements_append block_straight) auto
  show ?case
  proof (cases "is_useless i")
    case True
    then show ?thesis using IH(1) app [OF drop_useless] by (simp add: peephole_snoc)
  next
    case False
    have "implements ext [i] [i]" using i by (intro implements_refl block_straight) simp
    then have "implements ext (cs @ [i]) (peephole cs @ [i])" by (rule app)
    moreover have "list_all block_insn (i # rev (peephole cs))" using IH(1) i by simp
    ultimately show ?thesis
      using reduce_loop_sound [of "i # rev (peephole cs)" ext] False
      by (auto simp: peephole_snoc intro: implements_trans)
  qed
qed

text \<open>Instructions that are not of the machine, labels above all, separate the blocks.\<close>

definition is_avm :: "opcode instruction \<Rightarrow> bool" where
  "is_avm i \<longleftrightarrow> (case opcode i of AVM _ \<Rightarrow> True | _ \<Rightarrow> False)"

lemma replaces_avm: "replaces x y ys \<Longrightarrow> is_avm x \<and> is_avm y"
  by (auto simp: is_avm_def elim: replaces_elim)

lemma reduce_top_two: "reduce_top (y # x # rest) = map_option (\<lambda>ys. ys @ rest) (reduce_top [y, x])"
  by (cases "[y, x]" rule: reduce_top.cases) auto

text \<open>Instructions that are replaced together with no other.\<close>

definition barrier :: "opcode instruction \<Rightarrow> bool" where
  "barrier b \<longleftrightarrow> (\<forall>x ys. \<not> replaces x b ys \<and> \<not> replaces b x ys)"

lemma not_avm_barrier: "\<not> is_avm b \<Longrightarrow> barrier b"
  unfolding barrier_def using replaces_avm by blast

lemma rset_barrier: "barrier (Instruction (AVM Rset) (Some v) di)"
  by (auto simp: barrier_def elim: replaces_elim)

lemma reduce_top_barrier:
  assumes "barrier b"
  shows "reduce_top (cs @ b # rest) = map_option (\<lambda>cs'. cs' @ b # rest) (reduce_top cs)"
proof (cases cs rule: remdups_adj.cases)
  case 1
  have "reduce_top (b # rest) \<noteq> Some cs'" for cs' using assms unfolding reduce_top_replaces barrier_def by auto
  then have "reduce_top (b # rest) = None" by (cases "reduce_top (b # rest)") auto
  with 1 show ?thesis by simp
next
  case (2 y)
  have "reduce_top (y # b # rest) \<noteq> Some cs'" for cs' using assms unfolding reduce_top_replaces barrier_def by auto
  then have "reduce_top (y # b # rest) = None" by (cases "reduce_top (y # b # rest)") auto
  with 2 show ?thesis by simp
next
  case (3 y x ys)
  then show ?thesis
    using reduce_top_two [of y x "ys @ b # rest"] reduce_top_two [of y x ys] by (simp add: option.map_comp comp_def)
qed

lemma reduce_loop_barrier: "barrier b \<Longrightarrow> reduce_loop (cs @ b # rest) = reduce_loop cs @ b # rest"
proof (induction cs rule: reduce_loop.induct)
  case (1 cs)
  then show ?case
    by (cases "reduce_top cs") (simp_all add: reduce_loop.simps [of cs] reduce_loop.simps [of "cs @ _"] reduce_top_barrier)
qed

text \<open>What follows a barrier is optimised on its own.\<close>

lemma peephole_after_barrier:
  assumes "barrier b" "peephole xs = zs @ [b]"
  shows "peephole (xs @ ys) = peephole xs @ peephole ys"
proof (induction ys rule: rev_induct)
  case Nil
  show ?case by (simp add: peephole_def [of "[]"] useless_opcodes_layer_def)
next
  case (snoc i ys)
  have "reduce_loop (i # rev (peephole ys) @ b # rev zs) = reduce_loop (i # rev (peephole ys)) @ b # rev zs"
    using reduce_loop_barrier [OF assms(1), of "i # rev (peephole ys)"] by simp
  with snoc show ?case
    using peephole_snoc [of "xs @ ys" i] peephole_snoc [of ys i] by (simp add: assms(2))
qed

lemma peephole_barrier:
  assumes "\<not> is_avm b"
  shows "peephole (xs @ b # ys) = peephole xs @ b # peephole ys"
proof -
  have "\<not> is_useless b" using assms by (auto simp: is_useless_def is_avm_def)
  moreover have "reduce_loop (b # rev (peephole xs)) = b # rev (peephole xs)"
    using reduce_loop_barrier [OF not_avm_barrier [OF assms], of "[]"] by (simp add: reduce_loop.simps [of "[]"])
  ultimately have "peephole (xs @ [b]) = peephole xs @ [b]" using peephole_snoc [of xs b] by simp
  from peephole_after_barrier [OF not_avm_barrier [OF assms] this, of ys] this show ?thesis by simp
qed

text \<open>A jump takes a pushed value over as its immediate and ends the block.\<close>

lemma reduce_loop_jump:
  assumes "j = Instruction (AVM Jump) None di"
  shows "reduce_loop (j # out) = j # out \<or>
    (\<exists>v d rest. out = Instruction (AVM Noop) (Some v) d # rest \<and> reduce_loop (j # out) = Instruction (AVM Jump) (Some v) di # rest)"
proof (cases "reduce_top (j # out)")
  case None
  then show ?thesis by (simp add: reduce_loop.simps [of "j # out"])
next
  case (Some cs')
  then obtain v d rest where out: "out = Instruction (AVM Noop) (Some v) d # rest" "cs' = Instruction (AVM Jump) (Some v) di # rest"
    by (auto simp: reduce_top_replaces assms elim: replaces_elim)
  moreover have "reduce_top cs' = None"
    using out(2) by (cases "reduce_top cs'") (auto simp: reduce_top_replaces elim: replaces_elim)
  ultimately have "reduce_loop (j # out) = Instruction (AVM Jump) (Some v) di # rest"
    using Some reduce_loop.simps [of "j # out"] reduce_loop.simps [of cs'] by simp
  with out show ?thesis by blast
qed

lemma exec_jump: "exec_code ext [Instruction (AVM Jump) None di] (at pc m) = exec_code ext [Instruction (AVM Jump) None di] (at pc' m)"
  if "exec_code ext [Instruction (AVM Jump) None di] (at pc m) = Done True m1"
  using that
  by (auto simp: exec_bare op_jump_def pop_codepoint_def on_stack_def value_stack_pop_codepoint_def bind_c_def
      value_stack_pop_def outcome_simps at_def split: list.splits val.splits)

section \<open>Properties\<close>





text \<open>Two \<open>IsZero\<close> in a row turn an integer into the boolean of being nonzero; the optimiser removes them, which
  leaves the integer itself.  The rewrite is sound only where the operand is zero or one.\<close>

theorem peephole_iszero_pair:
  "peephole [Instruction (AVM IsZero) None d1, Instruction (AVM IsZero) None d2] = []
   \<and> exec_code ext [Instruction (AVM IsZero) None d1, Instruction (AVM IsZero) None d2] (cfg m pc (IntV i # s) a) =
       Done True (cfg m (pc + 2) (IntV (if i = 0 then 0 else 1) # s) a)
   \<and> exec_code ext [] (cfg m pc (IntV i # s) a) = Done True (cfg m pc (IntV i # s) a)"
proof -
  have "reduce_loop [Instruction (AVM IsZero) None d2, Instruction (AVM IsZero) None d1] = []"
    by (simp add: reduce_loop.simps noop_imm_def)
  then have "peephole [Instruction (AVM IsZero) None d1, Instruction (AVM IsZero) None d2] = []"
    by (simp add: peephole_def useless_opcodes_layer_def is_useless_def reduce_loop.simps [of "[_]"])
  then show ?thesis
    by (simp add: exec_bare op_iszero_def cfg_effects bind_c_def then_c_def un_op_def
        uint_of_bool_def uint256_zero_def uint256_one_def uint256_from_usize_def)
qed

end
