(* ===== verification/Linker.thy ===== *)
theory Linker
  imports Strip_Labels Peephole Types
begin

text \<open>
  The linker (\<open>src/link/mod.rs\<close>) and the compiled programs it joins (\<open>CompiledProgram\<close> and
  \<open>SourceFileMap\<close> in \<open>src/compile/mod.rs\<close>): \<open>link\<close> relocates the programs so that their
  labels, imports and globals do not collide and resolves imports by name; \<open>postlink_compile\<close> chains the
  passes of the other theories and stores the jump table in the code that initialises the globals.
\<close>

section \<open>Definitions\<close>

subsection \<open>Imports and exports\<close>

definition imported_func_new :: "usize \<Rightarrow> string_id \<Rightarrow> string_table \<Rightarrow> imported_func option" where
  "imported_func_new slot name_id st =
     map_option (\<lambda>name. \<lparr>imp_name_id = name_id, imp_slot_num = slot, imp_name = name\<rparr>) (string_table_name_from_id st name_id)"

definition imported_func_relocate :: "imported_func \<Rightarrow> usize \<Rightarrow> usize \<Rightarrow> imported_func" where
  "imported_func_relocate f int_offset ext_offset = f\<lparr>imp_slot_num := imp_slot_num f + ext_offset\<rparr>"

record exported_func =
  exp_name :: string
  exp_label :: label
  exp_tipe :: tipe

definition exported_func_new :: "string_id \<Rightarrow> label \<Rightarrow> tipe \<Rightarrow> string_table \<Rightarrow> exported_func option" where
  "exported_func_new name_id l t st =
     map_option (\<lambda>name. \<lparr>exp_name = name, exp_label = l, exp_tipe = t\<rparr>) (string_table_name_from_id st name_id)"

definition exported_func_relocate :: "exported_func \<Rightarrow> usize \<Rightarrow> usize \<Rightarrow> usize \<Rightarrow> exported_func \<times> usize" where
  "exported_func_relocate f int_offset ext_offset func_offset =
     (let (relocated_label, new_func_offset) = label_relocate (exp_label f) int_offset ext_offset func_offset
      in (\<lparr>exp_name = exp_name f, exp_label = relocated_label, exp_tipe = exp_tipe f\<rparr>, new_func_offset))"

record import_decl =
  import_path :: "string list"
  import_name :: string
  import_id :: "string_id option"
  import_location :: "location option"

definition import_new :: "string list \<Rightarrow> string \<Rightarrow> string_id option \<Rightarrow> location option \<Rightarrow> import_decl" where
  "import_new path name i loc = \<lparr>import_path = path, import_name = name, import_id = i, import_location = loc\<rparr>"

definition import_new_builtin :: "string \<Rightarrow> string \<Rightarrow> import_decl" where
  "import_new_builtin virtual_file name =
     \<lparr>import_path = [''core'', virtual_file], import_name = name, import_id = None, import_location = None\<rparr>"

subsection \<open>Source files\<close>

record source_file_map =
  sfm_offsets :: "(usize \<times> string) list"
  sfm_end :: usize

definition source_file_map_new :: "usize \<Rightarrow> string \<Rightarrow> source_file_map" where
  "source_file_map_new sz first_filepath = \<lparr>sfm_offsets = [(0, first_filepath)], sfm_end = sz\<rparr>"

definition source_file_map_new_empty :: source_file_map where
  "source_file_map_new_empty = \<lparr>sfm_offsets = [], sfm_end = 0\<rparr>"

definition source_file_map_push :: "source_file_map \<Rightarrow> usize \<Rightarrow> string \<Rightarrow> source_file_map" where
  "source_file_map_push sfm sz filepath =
     sfm\<lparr>sfm_offsets := sfm_offsets sfm @ [(sfm_end sfm, filepath)], sfm_end := sfm_end sfm + sz\<rparr>"

text \<open>The loop over the offsets and the check after it; \<open>None\<close> is a panic.  Without offsets the bound of the
  loop wraps around and the first access is out of range.\<close>

fun source_file_lookup :: "(usize \<times> string) list \<Rightarrow> usize \<Rightarrow> usize \<Rightarrow> string option" where
  "source_file_lookup [] e off = None"
| "source_file_lookup [(o1, f1)] e off = (if off < e then Some f1 else None)"
| "source_file_lookup ((o1, f1) # (o2, f2) # rest) e off =
     (if off < o2 then Some f1 else source_file_lookup ((o2, f2) # rest) e off)"

definition source_file_map_get :: "source_file_map \<Rightarrow> usize \<Rightarrow> string option" where
  "source_file_map_get sfm off = source_file_lookup (sfm_offsets sfm) (sfm_end sfm) off"

record file_info =
  fi_name :: string
  fi_path :: string
  fi_contents :: "string list"

subsection \<open>Compiled programs\<close>

record global_var_decl =
  gv_name_id :: string_id
  gv_name :: string
  gv_tipe :: tipe
  gv_location :: "location option"

definition global_var_decl_new :: "string_id \<Rightarrow> string \<Rightarrow> tipe \<Rightarrow> location option \<Rightarrow> global_var_decl" where
  "global_var_decl_new name_id name t loc = \<lparr>gv_name_id = name_id, gv_name = name, gv_tipe = t, gv_location = loc\<rparr>"

record compiled_program =
  prog_code :: "opcode instruction list"
  prog_exported_funcs :: "exported_func list"
  prog_imported_funcs :: "imported_func list"
  prog_globals :: "global_var_decl list"
  prog_source_file_map :: "source_file_map option"
  prog_file_info_chart :: "u64 \<rightharpoonup> file_info"
  prog_type_tree :: type_tree

text \<open>The first component is the relocated program, the second the largest function offset; \<open>None\<close> is a panic.\<close>

definition compiled_program_relocate ::
    "compiled_program \<Rightarrow> usize \<Rightarrow> usize \<Rightarrow> usize \<Rightarrow> global_var_decl list \<Rightarrow> source_file_map option
     \<Rightarrow> (compiled_program \<times> usize) option" where
  "compiled_program_relocate p int_offset ext_offset func_offset globals_offset sfm =
     (case collect_opt (\<lambda>insn. instruction_relocate insn int_offset ext_offset func_offset (length globals_offset))
             (prog_code p) of
        None \<Rightarrow> None
      | Some insns \<Rightarrow>
          (let max_func_offset = foldl (\<lambda>m r. if m < snd r then snd r else m) func_offset insns;
               exps = map (\<lambda>f. exported_func_relocate f int_offset ext_offset func_offset) (prog_exported_funcs p);
               max_func_offset = foldl (\<lambda>m r. if m < snd r then snd r else m) max_func_offset exps
           in Some (\<lparr>prog_code = map fst insns, prog_exported_funcs = map fst exps,
                     prog_imported_funcs = map (\<lambda>f. imported_func_relocate f int_offset ext_offset) (prog_imported_funcs p),
                     prog_globals = globals_offset @ prog_globals p, prog_source_file_map = sfm,
                     prog_file_info_chart = prog_file_info_chart p, prog_type_tree = prog_type_tree p\<rparr>,
                   max_func_offset)))"

subsection \<open>Linking\<close>

text \<open>The first loop: where the code and the imports of each program start.\<close>

fun link_offsets :: "usize \<Rightarrow> usize \<Rightarrow> compiled_program list \<Rightarrow> (usize \<times> usize) list" where
  "link_offsets insns_so_far imports_so_far [] = []"
| "link_offsets insns_so_far imports_so_far (p # ps) =
     (insns_so_far, imports_so_far) #
     link_offsets (insns_so_far + length (prog_code p)) (imports_so_far + length (prog_imported_funcs p)) ps"

text \<open>Its other result, the merged map of source files.\<close>

fun merge_source_files :: "source_file_map \<Rightarrow> compiled_program list \<Rightarrow> source_file_map option" where
  "merge_source_files sfm [] = Some sfm"
| "merge_source_files sfm (p # ps) =
     (case (case prog_source_file_map p of Some s \<Rightarrow> source_file_map_get s 0 | None \<Rightarrow> Some '''') of
        None \<Rightarrow> None
      | Some path \<Rightarrow> merge_source_files (source_file_map_push sfm (length (prog_code p)) path) ps)"

text \<open>The second loop: each program is relocated behind its predecessors.  The result has the globals of all.\<close>

fun relocate_all ::
    "usize \<Rightarrow> global_var_decl list \<Rightarrow> (compiled_program \<times> usize \<times> usize) list
     \<Rightarrow> (compiled_program list \<times> global_var_decl list) option" where
  "relocate_all func_offset global_num_limit [] = Some ([], global_num_limit)"
| "relocate_all func_offset global_num_limit ((p, int_offset, ext_offset) # ps) =
     (case compiled_program_relocate p int_offset ext_offset func_offset global_num_limit (prog_source_file_map p) of
        None \<Rightarrow> None
      | Some (q, new_func_offset) \<Rightarrow>
          map_option (\<lambda>(qs, g). (q # qs, g)) (relocate_all (new_func_offset + 1) (prog_globals q) ps))"

definition prologue :: "bool \<Rightarrow> usize \<Rightarrow> opcode instruction list" where
  "prologue test_mode num_globals =
     (let imm = (\<lambda>op v. instruction_from_opcode_imm (AVM op) v debug_info_default);
          bare = (\<lambda>op. instruction_from_opcode (AVM op) debug_info_default)
      in if test_mode
         then [imm Noop value_none, imm Noop (make_uninitialized_tuple num_globals), bare Rset]
         else [bare Rpush, imm Noop value_none, imm Rset (make_uninitialized_tuple num_globals)])"

definition exports_map :: "exported_func list \<Rightarrow> (string \<rightharpoonup> label)" where
  "exports_map exps = foldl (\<lambda>m e. m(exp_name e \<mapsto> exp_label e)) Map.empty exps"

text \<open>The third loop over the imports: the translation of labels and the warnings.\<close>

fun resolve_imports :: "(string \<rightharpoonup> label) \<Rightarrow> imported_func list \<Rightarrow> (label \<rightharpoonup> label) \<Rightarrow> (label \<rightharpoonup> label) \<times> compile_error list" where
  "resolve_imports ex [] xlate = (xlate, [])"
| "resolve_imports ex (imp # imps) xlate =
     (case ex (imp_name imp) of
        Some l \<Rightarrow> resolve_imports ex imps (xlate(External (imp_slot_num imp) \<mapsto> l))
      | None \<Rightarrow>
          (let (x, ws) = resolve_imports ex imps xlate
           in (x, compile_error_new_warning ''Compile warning''
                    (''Failed to resolve import '' @ quoted (imp_name imp)) [] # ws)))"

text \<open>The hash of a file name is that of the standard library.\<close>

definition builtin_file :: "string \<Rightarrow> file_info" where
  "builtin_file name = \<lparr>fi_name = name, fi_path = name, fi_contents = []\<rparr>"

definition link :: "(string \<Rightarrow> u64) \<Rightarrow> compiled_program list \<Rightarrow> bool \<Rightarrow> (compiled_program \<times> compile_error list) option" where
  "link file_hash progs test_mode =
     (if progs = [] then None
      else case merge_source_files source_file_map_new_empty progs of
        None \<Rightarrow> None
      | Some merged_source_file_map \<Rightarrow>
          (case relocate_all 0 [] (zip progs (link_offsets 3 0 progs)) of
             None \<Rightarrow> None
           | Some (relocated_progs, global_num_limit) \<Rightarrow>
               (let all_globals = global_num_limit @ [global_var_decl_new (usize_limit - 1) ''_jump_table'' TAny None];
                    linked_code = prologue test_mode (length all_globals) @ concat (map prog_code relocated_progs);
                    linked_exports = concat (map prog_exported_funcs relocated_progs);
                    linked_imports = concat (map prog_imported_funcs relocated_progs);
                    (label_xlate_map, warnings) = resolve_imports (exports_map linked_exports) linked_imports Map.empty
                in Some (\<lparr>prog_code = map (instruction_xlate_labels label_xlate_map) linked_code,
                          prog_exported_funcs = linked_exports, prog_imported_funcs = linked_imports,
                          prog_globals = all_globals, prog_source_file_map = Some merged_source_file_map,
                          prog_file_info_chart = [file_hash ''builtin/array.mini'' \<mapsto> builtin_file ''builtin/array.mini'',
                            file_hash ''builtin/kvs.mini'' \<mapsto> builtin_file ''builtin/kvs.mini''],
                          prog_type_tree = prog_type_tree (hd progs)\<rparr>,
                        warnings))))"

subsection \<open>Compilation after linking\<close>

definition hardcode_jump_table_into_register ::
    "opcode instruction list \<Rightarrow> val \<Rightarrow> bool \<Rightarrow> opcode instruction list option" where
  "hardcode_jump_table_into_register cs jump_table test_mode =
     (let off = if test_mode then 1 else 2
      in case get_at cs off of
           None \<Rightarrow> None
         | Some insn \<Rightarrow>
             (case immediate insn of
                None \<Rightarrow> None
              | Some old_imm \<Rightarrow>
                  map_option (\<lambda>v. cs[off := instruction_from_opcode_imm (opcode insn) v (insn_debug_info insn)])
                    (value_replace_last_none old_imm jump_table)))"

definition to_avm :: "opcode instruction \<Rightarrow> link_error + avm_opcode instruction" where
  "to_avm insn =
     (case opcode insn of
        AVM inner \<Rightarrow> Inr (Instruction inner (immediate insn) (insn_debug_info insn))
      | _ \<Rightarrow> Inl (VirtualOpcode (opcode insn) (loc_list (insn_debug_info insn))))"

definition comma_list :: "string list \<Rightarrow> string" where
  "comma_list input =
     (if input = [] then '''' else concat (map (\<lambda>object. object @ '', '') (butlast input)) @ last input)"

definition type_key :: "string list \<times> usize \<Rightarrow> string" where
  "type_key k = comma_list (fst k) @ '', '' @ decimal (snd k)"

text \<open>The entries of a hash map are visited in an order that is not specified: the list stands for any of them.\<close>

definition from_type_tree :: "((string list \<times> usize) \<times> (tipe \<times> string)) list \<Rightarrow> (string \<rightharpoonup> tipe \<times> string)" where
  "from_type_tree entries = foldl (\<lambda>inner (k, t). inner(type_key k \<mapsto> t)) Map.empty entries"

record linked_program =
  arbos_version :: u64
  linked_code :: "avm_opcode instruction list"
  linked_static_val :: val
  linked_globals :: "global_var_decl list"
  linked_file_info_chart :: "u64 \<rightharpoonup> file_info"
  linked_type_tree :: "string \<rightharpoonup> tipe \<times> string"

text \<open>The passes in order.  The version is read from a file; \<open>None\<close> is a panic, also where that file has none.
  The entries are those of the type tree of the program.\<close>

definition postlink_compile ::
    "u64 option \<Rightarrow> ((string list \<times> usize) \<times> (tipe \<times> string)) list \<Rightarrow> compiled_program \<Rightarrow> (u64 \<rightharpoonup> file_info) \<Rightarrow> bool
     \<Rightarrow> (link_error + linked_program) option" where
  "postlink_compile version entries p chart test_mode =
     (let num = length (prog_globals p);
          (code_2, jump_table) =
            fix_nonforward_labels (prog_code p) (prog_imported_funcs p) (if num = 0 then usize_limit - 1 else num - 1)
      in case fix_tuple_size code_2 num of
           Inl e \<Rightarrow> Some (Inl (TupleError e))
         | Inr code_3 \<Rightarrow>
             (case strip_labels (peephole code_3) jump_table (prog_imported_funcs p) of
                Inl e \<Rightarrow> Some (Inl e)
              | Inr (code_5, jump_table_final) \<Rightarrow>
                  (case jump_table_to_value jump_table_final of
                     None \<Rightarrow> None
                   | Some jump_table_value \<Rightarrow>
                       (case hardcode_jump_table_into_register code_5 jump_table_value test_mode of
                          None \<Rightarrow> None
                        | Some code_6 \<Rightarrow>
                            (case collect_res to_avm code_6 of
                               Inl e \<Rightarrow> Some (Inl e)
                             | Inr code_final \<Rightarrow>
                                 map_option (\<lambda>v. Inr \<lparr>arbos_version = v, linked_code = code_final,
                                   linked_static_val = value_none, linked_globals = prog_globals p,
                                   linked_file_info_chart = chart ++ prog_file_info_chart p,
                                   linked_type_tree = from_type_tree entries\<rparr>) version)))))"

section \<open>The code before the programs\<close>

text \<open>The jump table goes into the last leaf of an empty tuple.\<close>

lemma replace_last_empty:
  "tree_ok t \<Longrightarrow> 0 < tsize t \<Longrightarrow>
   \<exists>v. value_replace_last_none (make_empty t) jt = Some v \<and> fits t v \<and> leaves t v = replicate (tsize t - 1) value_none @ [jt]"
proof (induction t)
  case Single
  show ?case by (simp add: value_new_tuple_def)
next
  case (Tree n ts)
  then have "ts \<noteq> []" by auto
  then obtain us u where ts: "ts = us @ [u]" by (metis append_butlast_last_id)
  with Tree.prems have u: "tree_ok u" "0 < tsize u" and us: "tree_ok (Tree (sum_list (map tsize us)) us)" by auto
  from Tree.IH [of u] u ts obtain v where v: "value_replace_last_none (make_empty u) jt = Some v" "fits u v"
    "leaves u v = replicate (tsize u - 1) value_none @ [jt]" by auto
  have e: "fits_all us (map make_empty us)" "leaves_all us (map make_empty us) = replicate (sum_list (map tsize us)) value_none"
    using make_empty_fits [of "Tree 0 us"] leaves_make_empty [OF us] by (simp_all add: value_new_tuple_def)
  have "value_replace_last_none (make_empty (Tree n ts)) jt = Some (TupleV (map make_empty us @ [v]))"
    using v(1) by (simp add: ts value_new_tuple_def nth_append list_update_append)
  moreover have "fits (Tree n ts) (TupleV (map make_empty us @ [v]))"
    unfolding ts fits.simps val.case fits_all_append using e(1) v(2) by auto
  moreover have "leaves (Tree n ts) (TupleV (map make_empty us @ [v])) = replicate (tsize (Tree n ts) - 1) value_none @ [jt]"
    using e v(3) u(2) Tree.prems by (simp add: ts leaves_all_append replicate_add [symmetric] flip: append_assoc)
  ultimately show ?case by blast
qed

text \<open>Instructions of the machine without labels go through the passes unchanged.\<close>

definition plain :: "opcode instruction \<Rightarrow> bool" where
  "plain i \<longleftrightarrow> is_avm i \<and> (\<forall>v. immediate i = Some v \<longrightarrow> value_labels v = [])"

lemma value_resolve_no_labels: "value_labels v = [] \<Longrightarrow> value_resolve f v = v"
  by (induction v) (auto simp: map_idI)

lemma value_xlate_no_labels: "value_labels v = [] \<Longrightarrow> value_xlate_labels x v = v"
  by (induction v) (auto simp: map_idI)

lemma plain_xlate: "plain i \<Longrightarrow> instruction_xlate_labels x i = i"
  by (cases i) (auto simp: plain_def instruction_xlate_labels_def instruction_from_opcode_imm_def value_xlate_no_labels
      split: option.split)

lemma plain_replace: "plain i \<Longrightarrow> instruction_replace_labels x i = Inr i"
  by (cases i) (auto simp: plain_def instruction_replace_labels_def instruction_from_opcode_imm_def value_replace_labels_eq
      value_resolve_no_labels split: option.split)

lemma plain_not_label: "plain i \<Longrightarrow> \<not> is_label i"
  by (auto simp: plain_def is_avm_def is_label_def instruction_get_label_def split: opcode.splits)

lemma plain_use_jump_table:
  assumes "list_all plain pre"
  shows "use_jump_table imported g seen jt index (pre @ cs) = apfst ((@) pre) (use_jump_table imported g seen jt index cs)"
  using assms
proof (induction pre)
  case (Cons i pre)
  then obtain op where "opcode i = AVM op" by (auto simp: plain_def is_avm_def split: opcode.splits)
  moreover have "immediate i \<noteq> Some (LabelV l)" for l using Cons.prems by (auto simp: plain_def)
  ultimately show ?case
    using Cons by (auto simp: Let_def apfst_def map_prod_def split: prod.splits option.split val.splits)
qed (simp add: apfst_def map_prod_def)

lemma plain_fix_nonforward:
  assumes "list_all plain pre"
  shows "fix_nonforward_labels (pre @ cs) imps g = apfst ((@) pre) (fix_nonforward_labels cs imps g)"
proof -
  have "concat (map (expand_external n) pre) = pre" for n
    using assms by (induction pre) (auto simp: expand_external_def plain_def is_avm_def split: opcode.splits)
  then show ?thesis
    using plain_use_jump_table [OF assms] by (simp add: fix_nonforward_labels_def split: prod.split)
qed

lemma plain_fix_insns:
  "list_all plain pre \<Longrightarrow> fix_insns gt lt (pre @ cs) = map_sum id ((@) pre) (fix_insns gt lt cs)"
proof (induction pre)
  case (Cons i pre)
  then have "fix_insn gt lt i = Inr ([i], lt)"
    by (auto simp: plain_def is_avm_def fix_insn_def Let_def split: opcode.splits)
  with Cons show ?case by (simp add: sum.map_comp comp_def)
qed (cases "fix_insns gt lt cs"; simp)

lemma plain_fix_tuple_size:
  "list_all plain pre \<Longrightarrow> fix_tuple_size (pre @ cs) n = map_sum id ((@) pre) (fix_tuple_size cs n)"
  by (simp add: fix_tuple_size_def plain_fix_insns)

lemma plain_strip_labels:
  assumes "list_all plain pre" "strip_labels (pre @ cs) jt imps = Inr (out, jt')"
  shows "\<exists>rest. out = pre @ rest"
proof -
  have f: "filter (\<lambda>i. \<not> is_label i) pre = pre" using assms(1) plain_not_label by (auto simp: list_all_iff filter_id_conv)
  then obtain out1 rest where out: "out = out1 @ rest"
    "list_all2 (\<lambda>i j. instruction_replace_labels (label_target imps (pre @ cs)) i = Inr j) pre out1"
    using assms(2) by (auto simp: strip_labels_eq list_all2_append1)
  have "list_all2 (\<lambda>i j. instruction_replace_labels mp i = Inr j) xs ys \<Longrightarrow> list_all plain xs \<Longrightarrow> ys = xs" for mp xs ys
    by (induction xs arbitrary: ys) (auto simp: list_all2_Cons1 plain_replace)
  from this [OF out(2) assms(1)] out(1) show ?thesis by blast
qed

text \<open>The initialisation code after the optimiser.\<close>

lemma make_empty_no_labels: "value_labels (make_empty t) = []"
  by (induction t) (auto simp: value_new_tuple_def)

lemma prologue_plain: "list_all plain (prologue test_mode n)"
  by (simp add: prologue_def Let_def plain_def is_avm_def instruction_from_opcode_imm_def instruction_from_opcode_def
      make_uninitialized_tuple_def make_empty_no_labels value_none_def)

definition short_prologue :: "bool \<Rightarrow> val \<Rightarrow> opcode instruction list" where
  "short_prologue test_mode v =
     (let imm = (\<lambda>op v. Instruction (AVM op) (Some v) debug_info_default)
      in (if test_mode then [] else [Instruction (AVM Rpush) None debug_info_default]) @ [imm Noop value_none, imm Rset v])"

lemma peephole_prologue:
  "peephole (prologue test_mode n @ cs) = short_prologue test_mode (make_uninitialized_tuple n) @ peephole cs"
proof -
  have "peephole (prologue test_mode n) = short_prologue test_mode (make_uninitialized_tuple n)"
    by (simp add: peephole_def useless_opcodes_layer_def is_useless_def prologue_def short_prologue_def Let_def
        instruction_from_opcode_imm_def instruction_from_opcode_def reduce_loop.simps)
  moreover have "\<exists>zs. short_prologue test_mode v = zs @ [Instruction (AVM Rset) (Some v) debug_info_default]" for v
    by (simp add: short_prologue_def Let_def)
  ultimately show ?thesis using peephole_after_barrier [OF rset_barrier] by metis
qed

lemma link_parts:
  assumes "link file_hash progs test_mode = Some (p, ws)"
  obtains qs g x where "relocate_all 0 [] (zip progs (link_offsets 3 0 progs)) = Some (qs, g)"
    "resolve_imports (exports_map (concat (map prog_exported_funcs qs))) (concat (map prog_imported_funcs qs)) Map.empty = (x, ws)"
    "prog_code p = map (instruction_xlate_labels x) (prologue test_mode (Suc (length g)) @ concat (map prog_code qs))"
    "prog_exported_funcs p = concat (map prog_exported_funcs qs)" "prog_imported_funcs p = concat (map prog_imported_funcs qs)"
    "prog_globals p = g @ [global_var_decl_new (usize_limit - 1) ''_jump_table'' TAny None]"
proof -
  obtain sfm qs g where r: "progs \<noteq> []" "merge_source_files source_file_map_new_empty progs = Some sfm"
    "relocate_all 0 [] (zip progs (link_offsets 3 0 progs)) = Some (qs, g)"
    using assms by (auto simp: link_def Let_def split: if_splits option.splits)
  obtain x ws' where x: "resolve_imports (exports_map (concat (map prog_exported_funcs qs))) (concat (map prog_imported_funcs qs)) Map.empty = (x, ws')"
    by fastforce
  from assms show ?thesis by (intro that [OF r(3), of x]) (auto simp: link_def r x)
qed

lemma link_shape:
  assumes "link file_hash progs test_mode = Some (p, ws)"
  obtains cs where "prog_code p = prologue test_mode (length (prog_globals p)) @ cs" "prog_globals p \<noteq> []"
proof (rule link_parts [OF assms])
  fix qs g x
  assume "prog_code p = map (instruction_xlate_labels x) (prologue test_mode (Suc (length g)) @ concat (map prog_code qs))"
    "prog_globals p = g @ [global_var_decl_new (usize_limit - 1) ''_jump_table'' TAny None]"
  moreover have "map (instruction_xlate_labels x) (prologue test_mode n) = prologue test_mode n" for n
    using prologue_plain [of test_mode n] by (auto simp: list_all_iff plain_xlate intro!: map_idI)
  ultimately show thesis using that by simp
qed

lemma short_prologue_plain: "value_labels v = [] \<Longrightarrow> list_all plain (short_prologue test_mode v)"
  by (simp add: short_prologue_def Let_def plain_def is_avm_def value_none_def)

lemma hardcode_prologue:
  "hardcode_jump_table_into_register (short_prologue test_mode v @ cs) jt test_mode =
     map_option (\<lambda>w. short_prologue test_mode w @ cs) (value_replace_last_none v jt)"
  by (simp add: hardcode_jump_table_into_register_def short_prologue_def Let_def get_at_def instruction_from_opcode_imm_def)

text \<open>Instructions of the machine as instructions that may be virtual.\<close>

definition as_opcode :: "avm_opcode instruction \<Rightarrow> opcode instruction" where
  "as_opcode i = Instruction (AVM (opcode i)) (immediate i) (insn_debug_info i)"

lemma collect_to_avm: "collect_res to_avm cs = Inr out \<Longrightarrow> map as_opcode out = cs"
proof -
  have "to_avm i = Inr j \<Longrightarrow> as_opcode j = i" for i j
    by (cases i) (auto simp: to_avm_def as_opcode_def split: opcode.splits)
  then show "collect_res to_avm cs = Inr out \<Longrightarrow> map as_opcode out = cs"
    by (induction cs arbitrary: out) (auto split: sum.splits)
qed

lemma postlink_shape:
  assumes "prog_code p = prologue test_mode (length (prog_globals p)) @ cs" "prog_globals p \<noteq> []"
    and "postlink_compile version entries p chart test_mode = Some (Inr lp)"
  obtains reg jt rest where "map as_opcode (linked_code lp) = short_prologue test_mode reg @ rest"
    "value_replace_last_none (make_uninitialized_tuple (length (prog_globals p))) jt = Some reg"
    "linked_globals lp = prog_globals p"
proof -
  let ?n = "length (prog_globals p)"
  obtain cs2 jt where cs2: "fix_nonforward_labels cs (prog_imported_funcs p) (?n - Suc 0) = (cs2, jt)"
    by (cases "fix_nonforward_labels cs (prog_imported_funcs p) (?n - Suc 0)")
  have f2: "fix_nonforward_labels (prog_code p) (prog_imported_funcs p) (?n - Suc 0) = (prologue test_mode ?n @ cs2, jt)"
    using plain_fix_nonforward [OF prologue_plain] cs2 by (simp add: assms(1))
  obtain cs3 where f3: "fix_tuple_size (prologue test_mode ?n @ cs2) ?n = Inr (prologue test_mode ?n @ cs3)"
    using assms(2,3) plain_fix_tuple_size [OF prologue_plain, of test_mode ?n cs2 ?n]
    by (cases "fix_tuple_size cs2 ?n") (auto simp: postlink_compile_def f2)
  let ?g = "make_uninitialized_tuple ?n"
  obtain code5 jtf jtv code6 where s: "strip_labels (short_prologue test_mode ?g @ peephole cs3) jt (prog_imported_funcs p) = Inr (code5, jtf)"
    and h: "hardcode_jump_table_into_register code5 jtv test_mode = Some code6"
    and c: "collect_res to_avm code6 = Inr (linked_code lp)" and g: "linked_globals lp = prog_globals p"
    using assms(2,3) by (auto simp: postlink_compile_def f2 f3 peephole_prologue split: sum.splits option.splits prod.splits)
  have "list_all plain (short_prologue test_mode ?g)"
    by (rule short_prologue_plain) (simp add: make_uninitialized_tuple_def make_empty_no_labels)
  then obtain rest where "code5 = short_prologue test_mode ?g @ rest" using plain_strip_labels [OF _ s] by blast
  with h obtain reg where "value_replace_last_none ?g jtv = Some reg" "code6 = short_prologue test_mode reg @ rest"
    by (auto simp: hardcode_prologue)
  with that [of reg rest jtv] g collect_to_avm [OF c] show ?thesis by simp
qed

section \<open>Labels of linked programs\<close>

text \<open>A program defines each of its labels once, only labels of functions and generated ones, and the generated ones are
  numbered below the length of its code.\<close>

definition labels_ok :: "compiled_program \<Rightarrow> bool" where
  "labels_ok p \<longleftrightarrow> distinct (defined_labels (prog_code p))
     \<and> (\<forall>l \<in> set (defined_labels (prog_code p)). case l of Func sid \<Rightarrow> True | Anon n \<Rightarrow> n < length (prog_code p) | _ \<Rightarrow> False)"

lemma defined_labels_eq: "defined_labels cs = List.map_filter instruction_get_label cs"
  by (induction cs) (auto simp: List.map_filter_simps split: option.split)

lemma label_relocate_inj: "fst (label_relocate l i e f) = fst (label_relocate l' i e f) \<longleftrightarrow> l = l'"
  by (auto simp: label_relocate_def split: label.splits)

lemma instruction_relocate_label:
  assumes "instruction_relocate i io eo fo go = Some (j, m)"
  shows "instruction_get_label j = map_option (\<lambda>l. fst (label_relocate l io eo fo)) (instruction_get_label i)
     \<and> (\<forall>sid. instruction_get_label i = Some (Func sid) \<longrightarrow> sid + fo \<le> m)"
  using assms
  by (auto simp: instruction_relocate_def instruction_get_label_def opcode_relocate_def label_relocate_def Let_def
      split: option.splits opcode.splits)

lemma relocate_labels:
  "collect_opt (\<lambda>i. instruction_relocate i io eo fo go) cs = Some rs \<Longrightarrow>
   defined_labels (map fst rs) = map (\<lambda>l. fst (label_relocate l io eo fo)) (defined_labels cs)
   \<and> (\<forall>sid. Func sid \<in> set (defined_labels cs) \<longrightarrow> (\<exists>r \<in> set rs. sid + fo \<le> snd r))"
proof (induction cs arbitrary: rs)
  case (Cons i cs)
  then obtain j m rs' where r: "instruction_relocate i io eo fo go = Some (j, m)"
    "collect_opt (\<lambda>i. instruction_relocate i io eo fo go) cs = Some rs'" "rs = (j, m) # rs'"
    by (auto split: option.splits)
  show ?case
    using Cons.IH [OF r(2)] instruction_relocate_label [OF r(1)] r(3)
    by (cases "instruction_get_label i") auto
qed simp

lemma foldl_max_le: "a \<le> b \<Longrightarrow> a \<le> foldl (\<lambda>m r. if m < snd r then snd r else m) (b :: nat) rs"
  by (induction rs arbitrary: b) auto

lemma foldl_max_mem: "r \<in> set rs \<Longrightarrow> snd r \<le> foldl (\<lambda>m r. if m < snd r then snd r else m) (a :: nat) rs"
  by (induction rs arbitrary: a) (auto simp: foldl_max_le)

text \<open>Where the labels of a relocated program lie.\<close>

definition labels_from :: "usize \<Rightarrow> usize \<Rightarrow> label list \<Rightarrow> bool" where
  "labels_from fo io ls \<longleftrightarrow> (\<forall>l \<in> set ls. case l of Func k \<Rightarrow> fo \<le> k | Anon n \<Rightarrow> io \<le> n | _ \<Rightarrow> False)"

lemma relocate_program_labels:
  assumes "compiled_program_relocate p io eo fo g sfm = Some (q, nfo)" "labels_ok p"
  shows "distinct (defined_labels (prog_code q)) \<and> labels_from fo io (defined_labels (prog_code q))
     \<and> (\<forall>l \<in> set (defined_labels (prog_code q)). case l of Func k \<Rightarrow> k \<le> nfo | Anon n \<Rightarrow> n < io + length (prog_code p) | _ \<Rightarrow> False)
     \<and> fo \<le> nfo \<and> prog_globals q = g @ prog_globals p"
proof -
  obtain rs where rs: "collect_opt (\<lambda>insn. instruction_relocate insn io eo fo (length g)) (prog_code p) = Some rs"
    and q: "prog_code q = map fst rs" "prog_globals q = g @ prog_globals p"
    and nfo: "nfo = foldl (\<lambda>m r. if m < snd r then snd r else m) (foldl (\<lambda>m r. if m < snd r then snd r else m) fo rs)
      (map (\<lambda>f. exported_func_relocate f io eo fo) (prog_exported_funcs p))"
    using assms(1) by (auto simp: compiled_program_relocate_def Let_def split: option.splits)
  note lab = relocate_labels [OF rs]
  have le: "sid + fo \<le> nfo" if "Func sid \<in> set (defined_labels (prog_code p))" for sid
  proof -
    obtain r where r: "r \<in> set rs" "sid + fo \<le> snd r" using lab \<open>Func sid \<in> _\<close> by blast
    then have "sid + fo \<le> foldl (\<lambda>m r. if m < snd r then snd r else m) fo rs" using foldl_max_mem le_trans by blast
    then show ?thesis unfolding nfo by (rule foldl_max_le)
  qed
  have "fo \<le> nfo" unfolding nfo by (intro foldl_max_le order_refl)
  moreover have "distinct (defined_labels (prog_code q))"
    using assms(2) lab by (auto simp: q labels_ok_def distinct_map inj_on_def label_relocate_inj)
  moreover have "case l of Func k \<Rightarrow> fo \<le> k \<and> k \<le> nfo | Anon n \<Rightarrow> io \<le> n \<and> n < io + length (prog_code p) | _ \<Rightarrow> False"
    if l: "l \<in> set (defined_labels (prog_code q))" for l
  proof -
    obtain l0 where "l0 \<in> set (defined_labels (prog_code p))" "l = fst (label_relocate l0 io eo fo)"
      using l lab by (auto simp: q)
    then show ?thesis using assms(2) le by (cases l0 rule: label.exhaust) (force simp: labels_ok_def label_relocate_def)+
  qed
  ultimately show ?thesis
    unfolding labels_from_def using q(2) by (fastforce split: label.splits)
qed

lemma relocate_all_labels:
  "relocate_all fo g (zip ps (link_offsets io eo ps)) = Some (qs, g') \<Longrightarrow> \<forall>p \<in> set ps. labels_ok p \<Longrightarrow>
   distinct (defined_labels (concat (map prog_code qs))) \<and> labels_from fo io (defined_labels (concat (map prog_code qs)))"
proof (induction ps arbitrary: fo g io eo qs)
  case (Cons p ps)
  obtain q nfo qs' where q: "compiled_program_relocate p io eo fo g (prog_source_file_map p) = Some (q, nfo)"
    and r: "relocate_all (nfo + 1) (prog_globals q) (zip ps (link_offsets (io + length (prog_code p)) (eo + length (prog_imported_funcs p)) ps)) = Some (qs', g')"
    and qs: "qs = q # qs'"
    using Cons.prems(1) by (auto split: option.splits)
  let ?l = "defined_labels (prog_code q)" and ?r = "defined_labels (concat (map prog_code qs'))"
  have rest: "distinct ?r" "labels_from (nfo + 1) (io + length (prog_code p)) ?r"
    using Cons.IH [OF r] Cons.prems(2) by simp_all
  have first: "distinct ?l" "labels_from fo io ?l" "fo \<le> nfo"
    "\<forall>l \<in> set ?l. case l of Func k \<Rightarrow> k \<le> nfo | Anon n \<Rightarrow> n < io + length (prog_code p) | _ \<Rightarrow> False"
    using relocate_program_labels [OF q] Cons.prems(2) by simp_all
  have "set ?l \<inter> set ?r = {}"
    using first(4) rest(2) unfolding labels_from_def by (fastforce split: label.splits)
  moreover have "labels_from fo io ?r"
    using rest(2) first(3) unfolding labels_from_def by (fastforce split: label.splits)
  ultimately show ?case
    using first(1,2) rest(1) by (auto simp: qs defined_labels_append labels_from_def)
qed (simp add: labels_from_def)

lemma link_labels_distinct:
  assumes "link file_hash progs test_mode = Some (p, ws)" "\<forall>p \<in> set progs. labels_ok p"
  shows "distinct (defined_labels (prog_code p))"
proof (rule link_parts [OF assms(1)])
  fix qs g x
  assume r: "relocate_all 0 [] (zip progs (link_offsets 3 0 progs)) = Some (qs, g)"
    and p: "prog_code p = map (instruction_xlate_labels x) (prologue test_mode (Suc (length g)) @ concat (map prog_code qs))"
  have "instruction_get_label (instruction_xlate_labels x i) = instruction_get_label i" for i
    by (simp add: instruction_xlate_labels_def instruction_get_label_def instruction_from_opcode_imm_def split: option.split)
  then have "defined_labels (map (instruction_xlate_labels x) cs) = defined_labels cs" for cs
    by (induction cs) (simp_all split: option.split)
  moreover have "defined_labels (prologue test_mode n) = []" for n
    by (simp add: prologue_def Let_def instruction_get_label_def instruction_from_opcode_def instruction_from_opcode_imm_def)
  ultimately show ?thesis
    using relocate_all_labels [OF r assms(2)] by (simp add: p defined_labels_append)
qed

text \<open>The passes after linking keep the labels that are defined.\<close>

lemma defined_labels_avm: "list_all is_avm cs \<Longrightarrow> defined_labels cs = []"
  by (induction cs) (auto simp: is_avm_def instruction_get_label_def split: opcode.splits)

lemma is_avm_AVM [simp]: "is_avm (Instruction (AVM op) imm di)"
  by (simp add: is_avm_def)

lemma use_jump_table_labels:
  "use_jump_table imported g seen jt index cs = (out, jt') \<Longrightarrow> defined_labels out = defined_labels cs"
proof (induction cs arbitrary: seen jt index out)
  case (Cons i cs)
  have get: "instruction_get_label (instruction_from_opcode (opcode i) di) = instruction_get_label i"
    "instruction_get_label (instruction_from_opcode (GetGlobalVar g) di) = None"
    "instruction_get_label (instruction_from_opcode (PushExternal n) di) = None" for di n
    by (simp_all add: instruction_get_label_def instruction_from_opcode_def)
  from Cons show ?case
    by (auto simp: Let_def get split: option.splits prod.splits val.splits if_splits)
qed simp

lemma expand_external_labels: "defined_labels (concat (map (expand_external n) cs)) = defined_labels cs"
  by (induction cs)
     (auto simp: expand_external_def instruction_get_label_def instruction_from_opcode_imm_def defined_labels_append
       split: option.splits opcode.splits)

lemma fix_nonforward_labels_defined: "defined_labels (fst (fix_nonforward_labels cs imps g)) = defined_labels cs"
  using use_jump_table_labels by (auto simp: fix_nonforward_labels_def expand_external_labels split: prod.split)

lemma read_code_avm:
  "read_code t b i di = Inr cs \<Longrightarrow> list_all is_avm cs"
  "read_slots ts slot b i di = Inr cs \<Longrightarrow> list_all is_avm cs"
  by (induction t b i di and ts slot b i di arbitrary: cs and cs rule: read_code_read_slots.induct)
     (auto simp: is_avm_def instruction_from_opcode_def instruction_from_opcode_imm_def Let_def split: if_splits sum.splits)

lemma write_code_avm:
  "write_code t b i di = Inr cs \<Longrightarrow> list_all is_avm cs"
  "write_slots ts slot b i di = Inr cs \<Longrightarrow> list_all is_avm cs"
  by (induction t b i di and ts slot b i di arbitrary: cs and cs rule: write_code_write_slots.induct)
     (auto simp: is_avm_def instruction_from_opcode_def instruction_from_opcode_imm_def Let_def split: if_splits sum.splits tuple_tree.splits)

lemma array_steps_avm: "list_all is_avm (array_steps n di)"
proof (induction n di rule: array_steps.induct)
  case (1 n di)
  then show ?case
    by (subst array_steps.simps)
       (simp add: array_step_def Let_def instruction_from_opcode_def instruction_from_opcode_imm_def)
qed

lemma collect_write_avm: "collect_res (\<lambda>n. write_code t b n di) ns = Inr codes \<Longrightarrow> list_all is_avm (concat codes)"
  by (induction ns arbitrary: codes) (auto split: sum.splits dest: write_code_avm(1))

lemma with_index_Inr: "with_index insn x y f = Inr r \<Longrightarrow> \<exists>i. f i = Inr r"
  by (auto simp: with_index_def Let_def split: option.splits)

lemma map_sum_Inr: "map_sum id f r = Inr y \<longleftrightarrow> (\<exists>x. r = Inr x \<and> f x = y)"
  by (cases r) auto

lemma fix_insn_labels:
  assumes "fix_insn gt lt i = Inr (cs, lt')"
  shows "defined_labels cs = defined_labels [i]"
proof (cases "opcode i")
  case (LabelOp l)
  then show ?thesis using assms by (auto simp: fix_insn_def Let_def)
next
  case (AVM op)
  then show ?thesis using assms by (auto simp: fix_insn_def Let_def)
qed (use assms in \<open>auto simp: fix_insn_def Let_def map_sum_Inr instruction_get_label_def instruction_from_opcode_def
      instruction_from_opcode_imm_def defined_labels_append defined_labels_avm [OF array_steps_avm]
      dest!: with_index_Inr collect_write_avm [THEN defined_labels_avm] read_code_avm(1) [THEN defined_labels_avm]
        write_code_avm(1) [THEN defined_labels_avm]
      split: sum.splits option.splits\<close>)

lemma fix_insns_labels: "fix_insns gt lt cs = Inr out \<Longrightarrow> defined_labels out = defined_labels cs"
proof (induction gt lt cs arbitrary: out rule: fix_insns.induct)
  case (2 gt lt i cs)
  then obtain c lt' o' where o: "fix_insn gt lt i = Inr (c, lt')" "fix_insns gt lt' cs = Inr o'" "out = c @ o'"
    by (auto simp: map_sum_Inr split: sum.splits)
  then show ?case using 2 fix_insn_labels [OF o(1)] by (auto simp: defined_labels_append split: option.splits)
qed simp

lemma reduce_loop_avm: "list_all is_avm cs \<Longrightarrow> list_all is_avm (reduce_loop cs)"
proof (induction cs rule: reduce_loop.induct)
  case (1 cs)
  have "replaces x y ys \<Longrightarrow> list_all is_avm ys" for x y ys
    by (erule replaces_elim) (auto simp: noop_imm_def split: option.splits)
  then have "reduce_top cs = Some cs' \<Longrightarrow> list_all is_avm cs'" for cs'
    using 1(2) by (auto simp: reduce_top_replaces)
  with 1 show ?case by (subst reduce_loop.simps) (auto split: option.split)
qed

lemma peephole_avm: "list_all is_avm cs \<Longrightarrow> list_all is_avm (peephole cs)"
proof (induction cs rule: rev_induct)
  case (snoc i cs)
  then show ?case using reduce_loop_avm [of "i # rev (peephole cs)"] by (simp add: peephole_snoc)
qed (simp add: peephole_def useless_opcodes_layer_def)

lemma peephole_labels: "defined_labels (peephole cs) = defined_labels cs"
proof (induction cs rule: length_induct)
  case (1 cs)
  show ?case
  proof (cases "list_all is_avm cs")
    case True
    then show ?thesis using peephole_avm by (simp add: defined_labels_avm)
  next
    case False
    then obtain xs b ys where cs: "cs = xs @ b # ys" "\<not> is_avm b" by (auto simp: list_all_iff in_set_conv_decomp)
    then have "defined_labels (peephole xs) = defined_labels xs" "defined_labels (peephole ys) = defined_labels ys"
      using 1 by simp_all
    then show ?thesis using cs by (simp add: peephole_barrier defined_labels_append split: option.split)
  qed
qed

lemma postlink_no_duplicates:
  assumes "distinct (defined_labels (prog_code p))"
  shows "postlink_compile version entries p chart test_mode \<noteq> Some (Inl (DuplicateLabel x ls))"
proof
  assume "postlink_compile version entries p chart test_mode = Some (Inl (DuplicateLabel x ls))"
  moreover obtain cs2 jt where cs2: "fix_nonforward_labels (prog_code p) (prog_imported_funcs p)
      (if length (prog_globals p) = 0 then usize_limit - 1 else length (prog_globals p) - 1) = (cs2, jt)" by fastforce
  ultimately obtain cs3 where cs3: "fix_tuple_size cs2 (length (prog_globals p)) = Inr cs3"
    and err: "strip_labels (peephole cs3) jt (prog_imported_funcs p) = Inl (DuplicateLabel x ls)"
    by (auto simp: postlink_compile_def Let_def to_avm_def dest!: collect_res_Inl split: sum.splits option.splits prod.splits opcode.splits)
  have "distinct (defined_labels (peephole cs3))"
    using assms fix_nonforward_labels_defined [of "prog_code p" "prog_imported_funcs p"] cs2 cs3
    by (metis peephole_labels fix_insns_labels fix_tuple_size_def fst_conv)
  then have "place_labels (import_labels (prog_imported_funcs p)) 0 (peephole cs3) =
      Inr (label_target (prog_imported_funcs p) (peephole cs3))" by (simp add: place_imports_eq)
  with err show False
    by (auto simp: strip_labels_def resolve_insn_def resolve_jump_def dest!: collect_res_Inl split: sum.splits option.splits)
qed

section \<open>Imports\<close>

lemma exports_map_eq: "exports_map exps = map_of (rev (map (\<lambda>e. (exp_name e, exp_label e)) exps))"
  by (induction exps rule: rev_induct) (auto simp: exports_map_def)

definition import_warning :: "imported_func \<Rightarrow> compile_error" where
  "import_warning imp =
     compile_error_new_warning ''Compile warning'' (''Failed to resolve import '' @ quoted (imp_name imp)) []"

lemma resolve_imports_spec:
  "resolve_imports ex imps x0 = (x, ws) \<Longrightarrow> distinct (map imp_slot_num imps) \<Longrightarrow>
   ws = map import_warning (filter (\<lambda>i. ex (imp_name i) = None) imps)
   \<and> (\<forall>i \<in> set imps. ex (imp_name i) \<noteq> None \<longrightarrow> x (External (imp_slot_num i)) = ex (imp_name i))
   \<and> (\<forall>l. (\<forall>i \<in> set imps. ex (imp_name i) = None \<or> l \<noteq> External (imp_slot_num i)) \<longrightarrow> x l = x0 l)"
proof (induction ex imps x0 arbitrary: ws rule: resolve_imports.induct)
  case (2 ex imp imps x0)
  show ?case
  proof (cases "ex (imp_name imp)")
    case None
    then obtain ws' where "resolve_imports ex imps x0 = (x, ws')" "ws = import_warning imp # ws'"
      using 2(3) by (auto simp: import_warning_def split: prod.splits)
    then show ?thesis using 2(1) [OF None] 2(4) None by auto
  next
    case (Some l)
    have "External (imp_slot_num imp) \<noteq> External (imp_slot_num i)" if "i \<in> set imps" for i
      using 2(4) that by auto
    moreover have r: "resolve_imports ex imps (x0(External (imp_slot_num imp) \<mapsto> l)) = (x, ws)"
      and d: "distinct (map imp_slot_num imps)" using 2(3,4) Some by simp_all
    note IH = 2(2) [OF Some r d]
    have "x (External (imp_slot_num imp)) = Some l" using IH calculation by auto
    ultimately show ?thesis using IH Some by auto
  qed
qed simp

text \<open>The imports of a program are numbered consecutively.\<close>

definition slots_ok :: "compiled_program \<Rightarrow> bool" where
  "slots_ok p \<longleftrightarrow> map imp_slot_num (prog_imported_funcs p) = [0..<length (prog_imported_funcs p)]"

lemma relocate_all_slots:
  "relocate_all fo g (zip ps (link_offsets io eo ps)) = Some (qs, g') \<Longrightarrow> \<forall>p \<in> set ps. slots_ok p \<Longrightarrow>
   map imp_slot_num (concat (map prog_imported_funcs qs)) = [eo..<eo + length (concat (map prog_imported_funcs qs))]"
proof (induction ps arbitrary: fo g io eo qs)
  case (Cons p ps)
  obtain q nfo qs' where q: "compiled_program_relocate p io eo fo g (prog_source_file_map p) = Some (q, nfo)"
    and r: "relocate_all (nfo + 1) (prog_globals q) (zip ps (link_offsets (io + length (prog_code p)) (eo + length (prog_imported_funcs p)) ps)) = Some (qs', g')"
    and qs: "qs = q # qs'"
    using Cons.prems(1) by (auto split: option.splits)
  have "prog_imported_funcs q = map (\<lambda>f. imported_func_relocate f io eo) (prog_imported_funcs p)"
    using q by (auto simp: compiled_program_relocate_def Let_def split: option.splits)
  then have "map imp_slot_num (prog_imported_funcs q) = map (\<lambda>n. n + eo) (map imp_slot_num (prog_imported_funcs p))"
    and len: "length (prog_imported_funcs q) = length (prog_imported_funcs p)"
    by (simp_all add: imported_func_relocate_def comp_def)
  then have "map imp_slot_num (prog_imported_funcs q) = [eo..<eo + length (prog_imported_funcs q)]"
    using Cons.prems(2) by (simp add: slots_ok_def map_add_upt add.commute del: map_map)
  then show ?case
    using Cons.IH [OF r] Cons.prems(2) len
      upt_add_eq_append [of eo "eo + length (prog_imported_funcs p)" "length (concat (map prog_imported_funcs qs'))"]
    by (simp add: qs add.assoc)
qed simp

section \<open>Properties\<close>


text \<open>C19: Linking never makes labels collide.  If every program defines each of its labels once and numbers its
  generated labels below the length of its code, then no label is defined twice in the linked code, and compilation of
  the result never stops with a duplicate label.\<close>

theorem linked_labels_are_unique:
  assumes "link file_hash progs test_mode = Some (p, ws)" "\<forall>p \<in> set progs. labels_ok p"
  shows "distinct (defined_labels (prog_code p))
     \<and> postlink_compile version entries p chart test_mode \<noteq> Some (Inl (DuplicateLabel x ls))"
  using link_labels_distinct [OF assms] postlink_no_duplicates by blast


text \<open>The witnesses link a main program that jumps to an imported function with the library that exports it.\<close>

definition demo_main :: compiled_program where
  "demo_main =
     \<lparr>prog_code = [Instruction (AVM Jump) (Some (LabelV (External 0))) debug_info_default],
      prog_exported_funcs = [], prog_imported_funcs = [\<lparr>imp_name_id = 5, imp_slot_num = 0, imp_name = ''f''\<rparr>],
      prog_globals = [], prog_source_file_map = None, prog_file_info_chart = Map.empty, prog_type_tree = Map.empty\<rparr>"

definition demo_lib :: compiled_program where
  "demo_lib =
     \<lparr>prog_code = [Instruction (LabelOp (Func 0)) None debug_info_default, Instruction (AVM Halt) None debug_info_default],
      prog_exported_funcs = [\<lparr>exp_name = ''f'', exp_label = Func 0, exp_tipe = TFunc False [] TVoid\<rparr>],
      prog_imported_funcs = [], prog_globals = [], prog_source_file_map = None, prog_file_info_chart = Map.empty,
      prog_type_tree = Map.empty\<rparr>"

lemma demo_link: "\<exists>p. link (\<lambda>s. length s) [demo_main, demo_lib] False = Some (p, [])
    \<and> prog_code p = prologue False 1 @ [Instruction (AVM Jump) (Some (LabelV (Func 1))) debug_info_default,
        Instruction (LabelOp (Func 1)) None debug_info_default, Instruction (AVM Halt) None debug_info_default]
    \<and> prog_imported_funcs p = prog_imported_funcs demo_main \<and> length (prog_globals p) = 1"
proof -
  have "map (instruction_xlate_labels x) (prologue False n) = prologue False n" for x n
    using prologue_plain [of False n] by (auto simp: list_all_iff plain_xlate intro!: map_idI)
  then show ?thesis
    by (simp add: link_def demo_main_def demo_lib_def source_file_map_push_def source_file_map_new_empty_def
        compiled_program_relocate_def instruction_relocate_def opcode_relocate_def label_relocate_def exported_func_relocate_def
        imported_func_relocate_def exports_map_def instruction_xlate_labels_def instruction_from_opcode_imm_def)
qed

theorem linked_labels_are_unique_witness:
  "\<exists>p. link (\<lambda>s. length s) [demo_main, demo_lib] False = Some (p, []) \<and> distinct (defined_labels (prog_code p))"
proof -
  obtain p where p: "link (\<lambda>s. length s) [demo_main, demo_lib] False = Some (p, [])" using demo_link by blast
  have "\<forall>p \<in> set [demo_main, demo_lib]. labels_ok p"
    by (simp add: labels_ok_def demo_main_def demo_lib_def instruction_get_label_def)
  from linked_labels_are_unique [OF p this] p show ?thesis by blast
qed



end
