(* ===== verification/Typecheck.thy ===== *)
theory Typecheck
  imports Typecheck_Ops Linker
begin

text \<open>
  The type checker (\<open>src/compile/typecheck.rs\<close>): expressions, statements, code blocks, functions and the declarations of
  a module.  As in the code generator, every arm of the two large matches is a definition of its own that is given the
  checkers of its parts, and the recursive functions only dispatch.
\<close>

section \<open>Definitions\<close>

subsection \<open>Checkers\<close>

type_synonym 'a checker = "tc_env \<Rightarrow> 'a check"

type_synonym expr_check = "tc_expr checker"
type_synonym kind_check = "tc_expr_kind checker"
type_synonym stat_check = "(tc_statement_kind \<times> (string_id \<times> tipe) list) checker"

definition type_error_at :: "string \<Rightarrow> location option list \<Rightarrow> compile_error" where
  "type_error_at desc locs = compile_error_new_type_error desc (concat (map (\<lambda>l. case l of Some p \<Rightarrow> [p] | None \<Rightarrow> []) locs))"

text \<open>The description of a mismatch, with a text for the case that there is none, or a panic.\<close>

definition mismatch_or :: "tc_env \<Rightarrow> tipe \<Rightarrow> tipe \<Rightarrow> string \<Rightarrow> string check" where
  "mismatch_or env self rhs other =
     (case mismatch_string (te_fuel env) (te_tree env) self rhs of
        None \<Rightarrow> panic_c
      | Some om \<Rightarrow> return_c (case om of Some m \<Rightarrow> m | None \<Rightarrow> other))"

definition expect_mismatch :: "tc_env \<Rightarrow> tipe \<Rightarrow> tipe \<Rightarrow> string check" where
  "expect_mismatch env self rhs =
     (case mismatch_string (te_fuel env) (te_tree env) self rhs of Some (Some m) \<Rightarrow> return_c m | _ \<Rightarrow> panic_c)"

definition bind_types :: "(string_id \<times> tipe) list \<Rightarrow> tc_env \<Rightarrow> tc_env" where
  "bind_types bs env = env\<lparr>te_types := foldl (\<lambda>m (i, t). m(i \<mapsto> t)) (te_types env) bs\<rparr>"

primrec check_all :: "'a checker list \<Rightarrow> 'a list checker" where
  "check_all [] env = return_c []"
| "check_all (c # cs) env = bind_c (c env) (\<lambda>x. bind_c (check_all cs env) (\<lambda>xs. return_c (x # xs)))"

definition check_opt :: "'a checker option \<Rightarrow> 'a option checker" where
  "check_opt oc env = (case oc of None \<Rightarrow> return_c None | Some c \<Rightarrow> bind_c (c env) (\<lambda>x. return_c (Some x)))"

subsection \<open>Expressions\<close>

definition tc_unary :: "unary_op \<Rightarrow> expr_check \<Rightarrow> debug_info \<Rightarrow> kind_check" where
  "tc_unary op e di env = bind_c (e env) (\<lambda>sub. typecheck_unary_op env op sub (location di))"

definition tc_binary :: "binary_op \<Rightarrow> expr_check \<Rightarrow> expr_check \<Rightarrow> debug_info \<Rightarrow> kind_check" where
  "tc_binary op e1 e2 di env =
     bind_c (e1 env) (\<lambda>sub1. bind_c (e2 env) (\<lambda>sub2. typecheck_binary_op env op sub1 sub2 (location di)))"

definition tc_trinary :: "trinary_op \<Rightarrow> expr_check \<Rightarrow> expr_check \<Rightarrow> expr_check \<Rightarrow> debug_info \<Rightarrow> kind_check" where
  "tc_trinary op e1 e2 e3 di env =
     bind_c (e1 env) (\<lambda>sub1. bind_c (e2 env) (\<lambda>sub2. bind_c (e3 env) (\<lambda>sub3.
       typecheck_trinary_op env op sub1 sub2 sub3 (location di))))"

definition bad_logical :: "string \<Rightarrow> tc_expr \<Rightarrow> tc_expr \<Rightarrow> debug_info \<Rightarrow> 'a check" where
  "bad_logical what sub1 sub2 di =
     type_fail (''operands to logical '' @ what @ '' must be boolean, got '' @ quoted (type_display (expr_get_type sub1)) @ '' and ''
       @ quoted (type_display (expr_get_type sub2))) (location di)"

definition tc_shortcut_or :: "expr_check \<Rightarrow> expr_check \<Rightarrow> debug_info \<Rightarrow> kind_check" where
  "tc_shortcut_or e1 e2 di env =
     bind_c (e1 env) (\<lambda>sub1. bind_c (e2 env) (\<lambda>sub2.
       if (expr_get_type sub1, expr_get_type sub2) \<noteq> (TBool, TBool) then bad_logical ''or'' sub1 sub2 di
       else return_c (EShortcutOr sub1 sub2)))"

definition tc_shortcut_and :: "expr_check \<Rightarrow> expr_check \<Rightarrow> debug_info \<Rightarrow> kind_check" where
  "tc_shortcut_and e1 e2 di env =
     bind_c (e1 env) (\<lambda>sub1. bind_c (e2 env) (\<lambda>sub2.
       if (expr_get_type sub1, expr_get_type sub2) \<noteq> (TBool, TBool) then bad_logical ''and'' sub1 sub2 di
       else return_c (EShortcutAnd sub1 sub2)))"

definition tc_option_initializer :: "expr_check \<Rightarrow> debug_info \<Rightarrow> kind_check" where
  "tc_option_initializer e di env = bind_c (e env) (\<lambda>inner. return_c (EVariant inner))"

text \<open>Functions hide locals, and locals hide globals.\<close>

definition tc_variable_ref :: "string_id \<Rightarrow> debug_info \<Rightarrow> kind_check" where
  "tc_variable_ref name di env =
     (case te_funcs env name of
        Some t \<Rightarrow> return_c (EFuncRef name t)
      | None \<Rightarrow>
          (case te_types env name of
             Some t \<Rightarrow> return_c (ELocalVariableRef name t)
           | None \<Rightarrow>
               (case te_globals env name of
                  Some (t, idx) \<Rightarrow> return_c (EGlobalVariableRef idx t)
                | None \<Rightarrow> type_fail ''reference to unrecognized identifier'' (location di))))"

definition tc_tuple_ref :: "expr_check \<Rightarrow> uint256 \<Rightarrow> debug_info \<Rightarrow> kind_check" where
  "tc_tuple_ref e idx di env =
     bind_c (e env) (\<lambda>sub.
     bind_c (unwrap_c (uint256_to_usize idx)) (\<lambda>uidx.
       case expr_get_type sub of
         TTuple tv \<Rightarrow>
           if uidx < length tv then return_c (ETupleRef sub idx (tv ! uidx))
           else type_fail ''tuple field access to non-existent field'' (location di)
       | t \<Rightarrow> type_fail (''tuple field access to non-tuple value of type '' @ quoted (type_display t)) (location di)))"

text \<open>The slot is that of the first field with the name.\<close>

definition tc_dot_ref :: "expr_check \<Rightarrow> string \<Rightarrow> debug_info \<Rightarrow> kind_check" where
  "tc_dot_ref e name di env =
     bind_c (e env) (\<lambda>sub.
     bind_c (represent env (expr_get_type sub)) (\<lambda>rep.
       case rep of
         TStruct v \<Rightarrow>
           (case find (\<lambda>sf. field_name sf = name) v of
              Some sf \<Rightarrow>
                (case get_struct_slot_by_name rep name of
                   Some slot_num \<Rightarrow> return_c (EDotRef sub slot_num (length v) (field_tipe sf))
                 | None \<Rightarrow> type_fail ''Could not find name of struct field'' (location di))
            | None \<Rightarrow> type_fail ''reference to non-existent struct field'' (location di))
       | _ \<Rightarrow>
           type_fail (''struct field access to non-struct value of type '' @ quoted (type_display (expr_get_type sub))) (location di)))"

definition tc_constant :: "mini_constant \<Rightarrow> debug_info \<Rightarrow> kind_check" where
  "tc_constant c di env =
     return_c (case c of
         CUint n \<Rightarrow> EConst (IntV n) TUint
       | CInt n \<Rightarrow> EConst (IntV n) TInt
       | CBool b \<Rightarrow> EConst (IntV (uint256_from_bool b)) TBool
       | COption oc \<Rightarrow> EConst (option_const_value oc) (option_const_type_of oc)
       | CNull \<Rightarrow> EConst value_none TAny)"

fun tc_call_args :: "expr_check list \<Rightarrow> tipe list \<Rightarrow> debug_info \<Rightarrow> tc_expr list checker" where
  "tc_call_args (a # args) (t # ts) di env =
     bind_c (a env) (\<lambda>arg.
     bind_c (represent env (expr_get_type arg)) (\<lambda>rep.
     bind_c (assignable_c env t rep) (\<lambda>ok.
       if ok then bind_c (tc_call_args args ts di env) (\<lambda>rest. return_c (arg # rest))
       else bind_c (mismatch_or env t (expr_get_type arg) ''Compiler could not identify a specific mismatch'') (\<lambda>m.
              type_fail (''wrong argument type in function call, '' @ m) (location di)))))"
| "tc_call_args _ _ di env = return_c []"

definition tc_function_call :: "expr_check \<Rightarrow> expr_check list \<Rightarrow> debug_info \<Rightarrow> kind_check" where
  "tc_function_call fexpr args di env =
     bind_c (fexpr env) (\<lambda>f.
     bind_c (represent env (expr_get_type f)) (\<lambda>rep.
       case rep of
         TFunc impure arg_types ret_type \<Rightarrow>
           if length args = length arg_types
           then bind_c (tc_call_args args arg_types di env) (\<lambda>tc_args.
                  return_c (EFunctionCall f tc_args ret_type \<lparr>pure = \<not> impure\<rparr>))
           else type_fail ''wrong number of args passed to function'' (location di)
       | _ \<Rightarrow> type_fail (''function call to non-function value of type '' @ quoted (type_display rep)) (location di)))"

subsection \<open>Arrays and maps\<close>

definition tc_array_or_map_ref :: "expr_check \<Rightarrow> expr_check \<Rightarrow> debug_info \<Rightarrow> kind_check" where
  "tc_array_or_map_ref array index di env =
     bind_c (array env) (\<lambda>arr. bind_c (index env) (\<lambda>idx.
     bind_c (represent env (expr_get_type arr)) (\<lambda>rep.
       let it = expr_get_type idx
       in case rep of
         TArray t \<Rightarrow>
           if it = TUint then return_c (EArrayRef arr idx t)
           else type_fail (''array index must be Uint, found '' @ quoted (type_display it)) (location di)
       | TFixedArray t sz \<Rightarrow>
           if it = TUint then return_c (EFixedArrayRef arr idx sz t)
           else type_fail (''fixedarray index must be uint, found '' @ quoted (type_display it)) (location di)
       | TMap kt vt \<Rightarrow>
           if it = kt then return_c (EMapRef arr idx (TOption vt))
           else bind_c (expect_mismatch env kt it) (\<lambda>m. type_fail (''invalid key value in map lookup, '' @ m) (location di))
       | _ \<Rightarrow> type_fail (''fixedarray lookup in non-array type '' @ quoted (type_display rep)) (location di))))"

text \<open>The size of a new array may have any type.\<close>

definition tc_new_array :: "expr_check \<Rightarrow> tipe \<Rightarrow> debug_info \<Rightarrow> kind_check" where
  "tc_new_array sz_expr t di env =
     bind_c (sz_expr env) (\<lambda>sz. bind_c (represent env t) (\<lambda>rep. return_c (ENewArray sz rep (TArray t))))"

definition tc_new_fixed_array :: "usize \<Rightarrow> expr_check option \<Rightarrow> debug_info \<Rightarrow> kind_check" where
  "tc_new_fixed_array sz maybe_expr di env =
     (case maybe_expr of
        Some e \<Rightarrow> bind_c (e env) (\<lambda>x. return_c (ENewFixedArray sz (Some x) (TFixedArray (expr_get_type x) sz)))
      | None \<Rightarrow> return_c (ENewFixedArray sz None (TFixedArray TAny sz)))"

definition tc_new_map :: "tipe \<Rightarrow> tipe \<Rightarrow> debug_info \<Rightarrow> kind_check" where
  "tc_new_map key_type value_type di env = return_c (ENewMap (TMap key_type value_type))"

definition array_mod_index :: "tc_expr \<Rightarrow> debug_info \<Rightarrow> tc_expr_kind \<Rightarrow> tc_expr_kind check" where
  "array_mod_index idx di result =
     (if expr_get_type idx \<noteq> TUint
      then type_fail (''array modifier requires uint index, found '' @ quoted (type_display (expr_get_type idx))) (location di)
      else return_c result)"

text \<open>The type of the new element of a fixed array is not compared with the type of the array.\<close>

definition tc_array_or_map_mod :: "expr_check \<Rightarrow> expr_check \<Rightarrow> expr_check \<Rightarrow> debug_info \<Rightarrow> kind_check" where
  "tc_array_or_map_mod array index value_expr di env =
     bind_c (array env) (\<lambda>arr. bind_c (index env) (\<lambda>idx. bind_c (value_expr env) (\<lambda>v.
     bind_c (represent env (expr_get_type arr)) (\<lambda>rep.
       let vt = expr_get_type v; it = expr_get_type idx
       in case rep of
         TArray t \<Rightarrow>
           bind_c (assignable_c env t vt) (\<lambda>ok.
             if ok then array_mod_index idx di (EArrayMod arr idx v (TArray t))
             else bind_c (expect_mismatch env t vt) (\<lambda>m. type_fail (''mismatched types in array modifier, '' @ m) (location di)))
       | TFixedArray t sz \<Rightarrow> array_mod_index idx di (EFixedArrayMod arr idx v sz (TFixedArray t sz))
       | TMap kt et \<Rightarrow>
           if it = kt
           then bind_c (assignable_c env et vt) (\<lambda>ok.
                  if ok then return_c (EMapMod arr idx v (TMap kt et))
                  else bind_c (expect_mismatch env et vt) (\<lambda>m.
                         type_fail (''invalid value type for map modifier, '' @ m) (location di)))
           else bind_c (expect_mismatch env kt it) (\<lambda>m. type_fail (''invalid key type for map modifier, '' @ m) (location di))
       | other \<Rightarrow>
           type_fail (''[] modifier must operate on array or block, found '' @ quoted (type_display other)) (location di)))))"

subsection \<open>Tuples, structs and unions\<close>

fun any_assignable :: "tipe list \<Rightarrow> tipe \<Rightarrow> bool checker" where
  "any_assignable [] t env = return_c False"
| "any_assignable (u # us) t env =
     bind_c (assignable_c env u t) (\<lambda>ok. if ok then return_c True else any_assignable us t env)"

definition tc_new_union :: "tipe list \<Rightarrow> expr_check \<Rightarrow> debug_info \<Rightarrow> kind_check" where
  "tc_new_union types e di env =
     bind_c (e env) (\<lambda>x.
     bind_c (any_assignable types (expr_get_type x) env) (\<lambda>ok.
       if ok then return_c (ECast x (TUnion types))
       else type_fail (''Type '' @ type_display (expr_get_type x) @ '' is not a member of type union: ''
              @ type_display (TUnion types)) (location di)))"

definition tc_union_cast :: "expr_check \<Rightarrow> tipe \<Rightarrow> debug_info \<Rightarrow> kind_check" where
  "tc_union_cast e t di env =
     bind_c (e env) (\<lambda>x.
     bind_c (represent env (expr_get_type x)) (\<lambda>rep.
       case rep of
         TUnion types \<Rightarrow>
           if t \<in> set types then return_c (ECast x t)
           else type_fail (''Type '' @ type_display t @ '' is not a member of '' @ type_display (expr_get_type x)) (location di)
       | _ \<Rightarrow> type_fail (''Tried to unioncast from non-union type '' @ quoted (type_display (expr_get_type x))) (location di)))"

definition tc_struct_initializer :: "expr_check field_initializer list \<Rightarrow> debug_info \<Rightarrow> kind_check" where
  "tc_struct_initializer fieldvec di env =
     bind_c (check_all (map init_value fieldvec) env) (\<lambda>es.
       let labels = map init_name fieldvec
       in return_c (EStructInitializer (map2 FieldInitializer labels es) (TStruct (map2 StructField labels (map expr_get_type es)))))"

definition tc_tuple :: "expr_check list \<Rightarrow> debug_info \<Rightarrow> kind_check" where
  "tc_tuple flds di env = bind_c (check_all flds env) (\<lambda>es. return_c (ETuple es (TTuple (map expr_get_type es))))"

definition tc_struct_mod :: "expr_check \<Rightarrow> string \<Rightarrow> expr_check \<Rightarrow> debug_info \<Rightarrow> kind_check" where
  "tc_struct_mod struc name value_expr di env =
     bind_c (struc env) (\<lambda>s. bind_c (value_expr env) (\<lambda>v.
     bind_c (represent env (expr_get_type s)) (\<lambda>tcs_type.
       case tcs_type of
         TStruct flds \<Rightarrow>
           (case get_struct_slot_by_name tcs_type name of
              Some index \<Rightarrow>
                bind_c (unwrap_c (get_at flds index)) (\<lambda>field.
                bind_c (assignable_c env (field_tipe field) (expr_get_type v)) (\<lambda>ok.
                  if ok then return_c (EStructMod s index v tcs_type)
                  else bind_c (expect_mismatch env (field_tipe field) (expr_get_type v)) (\<lambda>m.
                         type_fail (''incorrect value type in struct modifier, '' @ m) (location di))))
            | None \<Rightarrow> type_fail ''struct modifier must use valid field name'' (location di))
       | _ \<Rightarrow> type_fail (''struct modifier must operate on a struct, found '' @ quoted (type_display tcs_type)) (location di))))"

definition tc_unsafe_cast :: "expr_check \<Rightarrow> tipe \<Rightarrow> debug_info \<Rightarrow> kind_check" where
  "tc_unsafe_cast e t di env = bind_c (e env) (\<lambda>x. return_c (ECast x t))"

subsection \<open>Control flow\<close>

definition tc_asm :: "tipe \<Rightarrow> opcode instruction list \<Rightarrow> expr_check list \<Rightarrow> debug_info \<Rightarrow> kind_check" where
  "tc_asm ret_type insns args di env =
     (if ret_type = TVoid then type_fail ''asm expression cannot return void'' (location di)
      else bind_c (check_all args env) (\<lambda>es. return_c (EAsm ret_type insns es)))"

definition tc_try :: "expr_check \<Rightarrow> debug_info \<Rightarrow> kind_check" where
  "tc_try inner di env =
     (let body = bind_c (inner env) (\<lambda>res.
            bind_c (represent env (expr_get_type res)) (\<lambda>rep.
              case rep of
                TOption t \<Rightarrow> return_c (ETry res t)
              | other \<Rightarrow> type_fail (''Try expression requires option type, found '' @ quoted (type_display other)) (location di)))
      in case te_return env of
           TOption _ \<Rightarrow> body
         | TAny \<Rightarrow> body
         | ret \<Rightarrow>
             type_fail (''Can only use '' @ quoted ''?'' @ '' operator in functions that can return option, found ''
               @ quoted (type_display ret)) (location di))"

definition tc_set_gas :: "expr_check \<Rightarrow> debug_info \<Rightarrow> kind_check" where
  "tc_set_gas e di env =
     bind_c (e env) (\<lambda>x.
       if expr_get_type x \<noteq> TUint
       then type_fail (''SetGas(_) requires a uint, found a '' @ type_display (expr_get_type x)) (location di)
       else return_c (ESetGas x))"

text \<open>The type of a conditional: the branch type to which the other one can be assigned.\<close>

definition branch_type :: "tipe \<Rightarrow> tipe \<Rightarrow> debug_info \<Rightarrow> tipe checker" where
  "branch_type block_type else_type di env =
     bind_c (assignable_c env block_type else_type) (\<lambda>ok1.
       if ok1 then return_c block_type
       else bind_c (assignable_c env else_type block_type) (\<lambda>ok2.
         if ok2 then return_c else_type
         else type_fail (''Mismatch of if and else types found: '' @ quoted (type_display block_type) @ '' and ''
                @ quoted (type_display else_type)) (location di)))"

definition opt_block_type :: "tc_code_block option \<Rightarrow> tipe" where
  "opt_block_type ob = (case ob of Some b \<Rightarrow> block_get_type b | None \<Rightarrow> TVoid)"

definition tc_if :: "expr_check \<Rightarrow> tc_code_block checker \<Rightarrow> tc_code_block checker option \<Rightarrow> debug_info \<Rightarrow> kind_check" where
  "tc_if cond block else_block di env =
     bind_c (cond env) (\<lambda>c. bind_c (block env) (\<lambda>b. bind_c (check_opt else_block env) (\<lambda>ob.
       if expr_get_type c \<noteq> TBool
       then type_fail (''Condition of if expression must be bool: found '' @ quoted (type_display (expr_get_type c))) (location di)
       else bind_c (branch_type (block_get_type b) (opt_block_type ob) di env) (\<lambda>t. return_c (EIf c b ob t)))))"

definition tc_if_let ::
    "string_id \<Rightarrow> expr_check \<Rightarrow> tc_code_block checker \<Rightarrow> tc_code_block checker option \<Rightarrow> debug_info \<Rightarrow> kind_check" where
  "tc_if_let l r if_block else_block di env =
     bind_c (r env) (\<lambda>x.
       case expr_get_type x of
         TOption t \<Rightarrow>
           bind_c (if_block (bind_types [(l, t)] env)) (\<lambda>b. bind_c (check_opt else_block env) (\<lambda>ob.
           bind_c (branch_type (block_get_type b) (opt_block_type ob) di env) (\<lambda>bt. return_c (EIfLet l x b ob bt))))
       | unexpected \<Rightarrow> type_fail (''Expected option type got: '' @ quoted (type_display unexpected)) (location di))"

subsection \<open>Statements\<close>

definition tc_return_void :: "debug_info \<Rightarrow> stat_check" where
  "tc_return_void di env =
     bind_c (assignable_c env TVoid (te_return env)) (\<lambda>ok.
       if ok then return_c (SReturnVoid, [])
       else type_fail (''Tried to return without type in function that returns '' @ type_display (te_return env)) (location di))"

definition tc_return :: "expr_check \<Rightarrow> debug_info \<Rightarrow> stat_check" where
  "tc_return e di env =
     bind_c (e env) (\<lambda>x.
     bind_c (assignable_c env (te_return env) (expr_get_type x)) (\<lambda>ok.
       if ok then return_c (SReturn x, [])
       else bind_c (mismatch_or env (te_return env) (expr_get_type x) ''failed to resolve type name'') (\<lambda>m.
              type_fail (''return statement has wrong type, '' @ m) (location di))))"

definition get_scopes :: "tc_scopes check" where
  "get_scopes scs = Done scs scs"

text \<open>
  The expression is checked twice.  The last scope with the name is the one that is left; where it has a type already,
  the type of the expression has to be equal to it.
\<close>

definition tc_break :: "expr_check option \<Rightarrow> string option \<Rightarrow> debug_info \<Rightarrow> stat_check" where
  "tc_break oe scope_name di env =
     (let key = (case scope_name of Some n \<Rightarrow> n | None \<Rightarrow> ''_'')
      in bind_c (check_opt oe env) (\<lambda>te.
         bind_c get_scopes (\<lambda>scs.
           case find (\<lambda>(n, _). n = key) (rev scs) of
             None \<Rightarrow> type_fail ''No valid scope to break from'' (location di)
           | Some (_, scope_type) \<Rightarrow>
               let bt = (case te of Some x \<Rightarrow> expr_get_type x | None \<Rightarrow> TTuple []);
                   finish_break = bind_c (check_opt oe env) (\<lambda>te'. return_c (SBreak te' key, []))
               in (case scope_type of
                     None \<Rightarrow> finish_break
                   | Some t \<Rightarrow>
                       if t = bt then finish_break
                       else bind_c (expect_mismatch env bt t) (\<lambda>m.
                              type_fail (''mismatched types in break statement '' @ m) (location di))))))"

definition tc_expression :: "expr_check \<Rightarrow> debug_info \<Rightarrow> stat_check" where
  "tc_expression e di env = bind_c (e env) (\<lambda>x. return_c (SExpression x, []))"

text \<open>The parts of a tuple pattern, in order; an assigned variable is not looked up.\<close>

fun tc_sub_patterns ::
    "tipe list \<Rightarrow> unit match_pattern list \<Rightarrow> location option \<Rightarrow> (tipe match_pattern list \<times> (string_id \<times> tipe) list) check" where
  "tc_sub_patterns (t # ts) (MatchPattern k di _ # pats) loc =
     (if t = TVoid then type_fail ''attempted to assign void in tuple binding'' loc
      else case k of
        PBind name \<Rightarrow>
          bind_c (tc_sub_patterns ts pats loc) (\<lambda>(ps, bs). return_c (MatchPattern (PBind name) di t # ps, (name, t) # bs))
      | PAssign name \<Rightarrow>
          bind_c (tc_sub_patterns ts pats loc) (\<lambda>(ps, bs). return_c (MatchPattern (PAssign name) di t # ps, bs))
      | PTuple _ \<Rightarrow> type_fail ''nested pattern not yet supported in let'' loc)"
| "tc_sub_patterns _ _ loc = return_c ([], [])"

definition typecheck_patvec ::
    "tipe \<Rightarrow> unit match_pattern list \<Rightarrow> location option \<Rightarrow> (tipe match_pattern list \<times> (string_id \<times> tipe) list) check" where
  "typecheck_patvec rhs_type patterns loc =
     (case rhs_type of
        TTuple tvec \<Rightarrow>
          if length tvec = length patterns then tc_sub_patterns tvec patterns loc
          else type_fail ''tuple-match let must receive tuple of equal size'' loc
      | _ \<Rightarrow> type_fail (''tuple-match let must receive tuple value, found '' @ quoted (type_display rhs_type)) loc)"

fun check_definable :: "string_id list \<Rightarrow> debug_info \<Rightarrow> unit checker" where
  "check_definable [] di env = return_c ()"
| "check_definable (i # ids) di env =
     (case te_undef env i of
        Some loc \<Rightarrow> fail_c (type_error_at ''Variable has the same name as a top-level symbol'' [loc, location di])
      | None \<Rightarrow> check_definable ids di env)"

definition tc_let :: "unit match_pattern \<Rightarrow> expr_check \<Rightarrow> debug_info \<Rightarrow> stat_check" where
  "tc_let pat e di env =
     bind_c (e env) (\<lambda>x.
       let t = expr_get_type x
       in if t = TVoid then type_fail ''Assignment of void value to local variable'' (location di)
          else bind_c
            (case pat_kind pat of
               PBind name \<Rightarrow> return_c (SLet (MatchPattern (PBind name) (pat_debug_info pat) t) x, [(name, t)])
             | PAssign _ \<Rightarrow> panic_c
             | PTuple pats \<Rightarrow>
                 bind_c (typecheck_patvec t pats (location di)) (\<lambda>(tc_pats, bindings).
                   return_c (SLet (MatchPattern (PTuple tc_pats) (pat_debug_info pat) t) x, bindings)))
            (\<lambda>result. then_c (check_definable (map fst (collect_identifiers pat)) di env) (return_c result)))"

definition tc_assign :: "string_id \<Rightarrow> expr_check \<Rightarrow> debug_info \<Rightarrow> stat_check" where
  "tc_assign name e di env =
     bind_c (e env) (\<lambda>x.
       let assign = (\<lambda>var_type result.
             bind_c (assignable_c env var_type (expr_get_type x)) (\<lambda>ok.
               if ok then return_c (result, [])
               else bind_c (expect_mismatch env var_type (expr_get_type x)) (\<lambda>m.
                      type_fail (''mismatched types in assignment statement '' @ m) (location di))))
       in (case te_types env name of
             Some var_type \<Rightarrow> assign var_type (SAssignLocal name x)
           | None \<Rightarrow>
               (case te_globals env name of
                  Some (var_type, idx) \<Rightarrow> assign var_type (SAssignGlobal idx x)
                | None \<Rightarrow> type_fail ''assignment to non-existent variable'' (location di))))"

text \<open>Statements one after the other; the bindings of a statement are visible to the ones after it.  The second result
  is the environment at the end.\<close>

primrec tc_statements :: "(tc_statement \<times> (string_id \<times> tipe) list) checker list \<Rightarrow> (tc_statement list \<times> tc_env) checker" where
  "tc_statements [] env = return_c ([], env)"
| "tc_statements (c # cs) env =
     bind_c (c env) (\<lambda>(st, bindings).
     bind_c (tc_statements cs (bind_types bindings env)) (\<lambda>(sts, env'). return_c (st # sts, env')))"

definition tc_sequence :: "(tc_statement \<times> (string_id \<times> tipe) list) checker list \<Rightarrow> tc_statement list checker" where
  "tc_sequence cs env = bind_c (tc_statements cs env) (\<lambda>(sts, env'). return_c sts)"

definition tc_while :: "expr_check \<Rightarrow> (tc_statement \<times> (string_id \<times> tipe) list) checker list \<Rightarrow> debug_info \<Rightarrow> stat_check" where
  "tc_while cond body di env =
     bind_c (cond env) (\<lambda>c.
       if expr_get_type c = TBool then bind_c (tc_sequence body env) (\<lambda>sts. return_c (SWhile c sts, []))
       else type_fail (''while condition must be bool, found '' @ type_display (expr_get_type c)) (location di))"

definition tc_asm_statement :: "opcode instruction list \<Rightarrow> expr_check list \<Rightarrow> debug_info \<Rightarrow> stat_check" where
  "tc_asm_statement insns args di env = bind_c (check_all args env) (\<lambda>es. return_c (SAsm insns es, []))"

definition tc_debug_print :: "expr_check \<Rightarrow> debug_info \<Rightarrow> stat_check" where
  "tc_debug_print e di env = bind_c (e env) (\<lambda>x. return_c (SDebugPrint x, []))"

definition tc_assert :: "expr_check \<Rightarrow> debug_info \<Rightarrow> stat_check" where
  "tc_assert e di env =
     bind_c (e env) (\<lambda>x.
       case expr_get_type x of
         TTuple [TBool, _] \<Rightarrow> return_c (SAssert x, [])
       | t \<Rightarrow> type_fail (''assert condition must be of type (bool, any), found '' @ type_display t) (location di))"

text \<open>A block opens a scope, which stays open.\<close>

definition tc_codeblock ::
    "(tc_statement \<times> (string_id \<times> tipe) list) checker list \<Rightarrow> expr_check option \<Rightarrow> tc_code_block checker" where
  "tc_codeblock stats ret_expr env =
     then_c (modify_c (\<lambda>scs. scs @ [(''_'', None)]))
     (bind_c (tc_statements stats env) (\<lambda>(body, inner).
      bind_c (check_opt ret_expr inner) (\<lambda>r. return_c (TcCodeBlock body r None))))"

subsection \<open>The recursion\<close>

primrec typecheck_expr :: "expr \<Rightarrow> expr_check"
  and typecheck_kind :: "expr_kind \<Rightarrow> debug_info \<Rightarrow> kind_check"
  and typecheck_statement :: "statement \<Rightarrow> (tc_statement \<times> (string_id \<times> tipe) list) checker"
  and typecheck_statement_kind :: "statement_kind \<Rightarrow> debug_info \<Rightarrow> stat_check"
  and typecheck_codeblock :: "code_block \<Rightarrow> tc_code_block checker" where
  "typecheck_expr (Expr k di) = (\<lambda>env. bind_c (typecheck_kind k di env) (\<lambda>k'. return_c (TcExpr k' di)))"
| "typecheck_kind XNewBuffer = (\<lambda>di env. return_c ENewBuffer)"
| "typecheck_kind XError = (\<lambda>di env. return_c EError)"
| "typecheck_kind (XUnaryOp op e) = tc_unary op (typecheck_expr e)"
| "typecheck_kind (XBinary op e1 e2) = tc_binary op (typecheck_expr e1) (typecheck_expr e2)"
| "typecheck_kind (XTrinary op e1 e2 e3) = tc_trinary op (typecheck_expr e1) (typecheck_expr e2) (typecheck_expr e3)"
| "typecheck_kind (XShortcutOr e1 e2) = tc_shortcut_or (typecheck_expr e1) (typecheck_expr e2)"
| "typecheck_kind (XShortcutAnd e1 e2) = tc_shortcut_and (typecheck_expr e1) (typecheck_expr e2)"
| "typecheck_kind (XOptionInitializer e) = tc_option_initializer (typecheck_expr e)"
| "typecheck_kind (XVariableRef name) = tc_variable_ref name"
| "typecheck_kind (XTupleRef e idx) = tc_tuple_ref (typecheck_expr e) idx"
| "typecheck_kind (XDotRef e name) = tc_dot_ref (typecheck_expr e) name"
| "typecheck_kind (XConstant c) = tc_constant c"
| "typecheck_kind (XFunctionCall f args) = tc_function_call (typecheck_expr f) (map typecheck_expr args)"
| "typecheck_kind (XCodeBlock b) = (\<lambda>di env. bind_c (typecheck_codeblock b env) (\<lambda>b'. return_c (ECodeBlock b')))"
| "typecheck_kind (XArrayOrMapRef e1 e2) = tc_array_or_map_ref (typecheck_expr e1) (typecheck_expr e2)"
| "typecheck_kind (XNewArray e t) = tc_new_array (typecheck_expr e) t"
| "typecheck_kind (XNewFixedArray sz oe) = tc_new_fixed_array sz (map_option typecheck_expr oe)"
| "typecheck_kind (XNewMap kt vt) = tc_new_map kt vt"
| "typecheck_kind (XNewUnion ts e) = tc_new_union ts (typecheck_expr e)"
| "typecheck_kind (XStructInitializer flds) = tc_struct_initializer (map (map_field_initializer typecheck_expr) flds)"
| "typecheck_kind (XTuple es) = tc_tuple (map typecheck_expr es)"
| "typecheck_kind (XArrayOrMapMod e1 e2 e3) = tc_array_or_map_mod (typecheck_expr e1) (typecheck_expr e2) (typecheck_expr e3)"
| "typecheck_kind (XStructMod e1 name e2) = tc_struct_mod (typecheck_expr e1) name (typecheck_expr e2)"
| "typecheck_kind (XUnsafeCast e t) = tc_unsafe_cast (typecheck_expr e) t"
| "typecheck_kind (XAsm t insns args) = tc_asm t insns (map typecheck_expr args)"
| "typecheck_kind (XTry e) = tc_try (typecheck_expr e)"
| "typecheck_kind XGetGas = (\<lambda>di env. return_c EGetGas)"
| "typecheck_kind (XSetGas e) = tc_set_gas (typecheck_expr e)"
| "typecheck_kind (XIf c b ob) = tc_if (typecheck_expr c) (typecheck_codeblock b) (map_option typecheck_codeblock ob)"
| "typecheck_kind (XIfLet l e b ob) = tc_if_let l (typecheck_expr e) (typecheck_codeblock b) (map_option typecheck_codeblock ob)"
| "typecheck_kind (XLoop stats) = (\<lambda>di env. bind_c (tc_sequence (map typecheck_statement stats) env) (\<lambda>sts. return_c (ELoop sts)))"
| "typecheck_kind (XUnionCast e t) = tc_union_cast (typecheck_expr e) t"
| "typecheck_statement (Statement k di) =
     (\<lambda>env. bind_c (typecheck_statement_kind k di env) (\<lambda>(st, binds). return_c (TcStatement st di, binds)))"
| "typecheck_statement_kind YNoop = (\<lambda>di env. return_c (SNoop, []))"
| "typecheck_statement_kind YReturnVoid = tc_return_void"
| "typecheck_statement_kind (YReturn e) = tc_return (typecheck_expr e)"
| "typecheck_statement_kind (YBreak oe sc) = tc_break (map_option typecheck_expr oe) sc"
| "typecheck_statement_kind (YExpression e) = tc_expression (typecheck_expr e)"
| "typecheck_statement_kind (YLet pat e) = tc_let pat (typecheck_expr e)"
| "typecheck_statement_kind (YAssign name e) = tc_assign name (typecheck_expr e)"
| "typecheck_statement_kind (YWhile c stats) = tc_while (typecheck_expr c) (map typecheck_statement stats)"
| "typecheck_statement_kind (YAsm insns args) = tc_asm_statement insns (map typecheck_expr args)"
| "typecheck_statement_kind (YDebugPrint e) = tc_debug_print (typecheck_expr e)"
| "typecheck_statement_kind (YAssert e) = tc_assert (typecheck_expr e)"
| "typecheck_codeblock (CodeBlock body r) = tc_codeblock (map typecheck_statement body) (map_option typecheck_expr r)"

subsection \<open>Functions\<close>

text \<open>Functions are checked one after the other; the state is the table of names that must not be defined again.\<close>

type_synonym undefinable = "string_id \<rightharpoonup> location option"

type_synonym 'a top_check = "(compile_error, undefinable, 'a) comp"

definition highlighted :: "string \<Rightarrow> string" where
  "highlighted s = CHR 0x1B # ''[31;1m'' @ s @ CHR 0x1B # ''[0;0m''"

text \<open>An error about a function, which panics for an unknown name.\<close>

definition func_error :: "string_table \<Rightarrow> string_id \<Rightarrow> (string \<Rightarrow> string) \<Rightarrow> location option list \<Rightarrow> 'a top_check" where
  "func_error st name desc locs =
     bind_c (unwrap_c (string_table_name_from_id st name)) (\<lambda>n. fail_c (type_error_at (desc (highlighted n)) locs))"

definition check_last_statement :: "string_table \<Rightarrow> source_func \<Rightarrow> unit top_check" where
  "check_last_statement st fd =
     (if func_ret_type fd = TVoid then return_c ()
      else if func_code fd = [] then
        func_error st (func_name fd) (\<lambda>n. ''Func '' @ n @ '' never returns'') [location (func_debug_info fd)]
      else case src_stat (last (func_code fd)) of
        YReturn _ \<Rightarrow> return_c ()
      | _ \<Rightarrow>
          func_error st (func_name fd) (\<lambda>n. ''Func '' @ n @ '''s last statement is not a return'')
            [location (func_debug_info fd), location (src_stat_info (last (func_code fd)))])"

definition define_func :: "string_table \<Rightarrow> source_func \<Rightarrow> unit top_check" where
  "define_func st fd undef =
     (case undef (func_name fd) of
        Some loc \<Rightarrow>
          func_error st (func_name fd) (\<lambda>n. ''Func '' @ n @ '' has the same name as another top-level symbol'')
            [loc, location (func_debug_info fd)] undef
      | None \<Rightarrow> Done () (undef(func_name fd \<mapsto> location (func_debug_info fd))))"

fun check_func_args :: "string_table \<Rightarrow> source_func \<Rightarrow> tc_env \<Rightarrow> func_arg list \<Rightarrow> unit top_check" where
  "check_func_args st fd env [] undef = Done () undef"
| "check_func_args st fd env (arg # args) undef =
     (case get_representation (te_fuel env) (te_tree env) (arg_tipe arg) of
        None \<Rightarrow> Panic
      | Some (Inl _) \<Rightarrow>
          func_error st (arg_name arg) (\<lambda>n. ''Unknown type for function argument '' @ n) [location (arg_debug_info arg)] undef
      | Some (Inr _) \<Rightarrow>
          (case undef (arg_name arg) of
             Some loc \<Rightarrow>
               bind_c (unwrap_c (string_table_name_from_id st (func_name fd))) (\<lambda>f.
                 func_error st (arg_name arg)
                   (\<lambda>n. ''Func '' @ highlighted f @ '''s argument '' @ n @ '' has the same name as a top-level symbol'')
                   [loc, location (arg_debug_info arg)]) undef
           | None \<Rightarrow> check_func_args st fd env args undef))"

text \<open>The environment of the body: the arguments are the first local variables.\<close>

definition func_env :: "tc_env \<Rightarrow> source_func \<Rightarrow> undefinable \<Rightarrow> tc_env" where
  "func_env env fd undef =
     bind_types (map (\<lambda>a. (arg_name a, arg_tipe a)) (func_args fd)) (env\<lparr>te_return := func_ret_type fd, te_undef := undef\<rparr>)"

definition typecheck_function :: "tc_env \<Rightarrow> string_table \<Rightarrow> source_func \<Rightarrow> tc_func top_check" where
  "typecheck_function env st fd =
     then_c (check_last_statement st fd)
     (then_c (define_func st fd)
     (then_c (check_func_args st fd env (func_args fd))
     (\<lambda>undef.
        case tc_sequence (map typecheck_statement (func_code fd)) (func_env env fd undef) [] of
          Done tc_stats scs \<Rightarrow>
            Done \<lparr>func_name = func_name fd, func_args = func_args fd, func_ret_type = func_ret_type fd, func_code = tc_stats,
                  func_tipe = func_tipe fd, func_kind = func_kind fd, func_debug_info = func_debug_info fd,
                  func_properties = func_properties fd\<rparr> undef
        | Fail e scs \<Rightarrow> Fail e undef
        | Panic \<Rightarrow> Panic)))"

subsection \<open>Modules\<close>

text \<open>Declarations at the top level.\<close>

datatype top_level_decl =
    TopUse import_decl | TopFunc source_func | TopType string_id tipe | TopVar global_var_decl | TopConst

definition builtin_func_decls :: "import_decl list" where
  "builtin_func_decls =
     [import_new_builtin ''array'' ''builtin_arrayNew'', import_new_builtin ''array'' ''builtin_arrayGet'',
      import_new_builtin ''array'' ''builtin_arraySet'', import_new_builtin ''kvs'' ''builtin_kvsNew'',
      import_new_builtin ''kvs'' ''builtin_kvsGet'', import_new_builtin ''kvs'' ''builtin_kvsSet'']"

record sorted_decls =
  sd_imports :: "import_decl list"
  sd_funcs :: "(string_id \<times> source_func) list"
  sd_named_types :: "(string_id \<times> tipe) list"
  sd_global_vars :: "global_var_decl list"
  sd_func_table :: "string_id \<rightharpoonup> tipe"

primrec sort_decl :: "top_level_decl \<Rightarrow> sorted_decls \<Rightarrow> sorted_decls" where
  "sort_decl (TopUse ud) sd = sd\<lparr>sd_imports := sd_imports sd @ [ud]\<rparr>"
| "sort_decl (TopFunc fd) sd =
     sd\<lparr>sd_funcs := btree_insert (func_name fd) fd (sd_funcs sd), sd_func_table := (sd_func_table sd)(func_name fd \<mapsto> func_tipe fd)\<rparr>"
| "sort_decl (TopType name t) sd = sd\<lparr>sd_named_types := btree_insert name t (sd_named_types sd)\<rparr>"
| "sort_decl (TopVar vd) sd = sd\<lparr>sd_global_vars := sd_global_vars sd @ [vd]\<rparr>"
| "sort_decl TopConst sd = sd"

definition sort_top_level_decls :: "top_level_decl list \<Rightarrow> string list \<Rightarrow> bool \<Rightarrow> sorted_decls" where
  "sort_top_level_decls decls file_path builtins =
     fold sort_decl decls
       \<lparr>sd_imports = (if builtins then filter (\<lambda>imp. import_path imp \<noteq> file_path) builtin_func_decls else []),
        sd_funcs = [], sd_named_types = [], sd_global_vars = [], sd_func_table = Map.empty\<rparr>"

text \<open>The global with the fixed location changes places with the first one.\<close>

definition fixed_global_first :: "global_var_decl list \<Rightarrow> global_var_decl list" where
  "fixed_global_first gvs =
     (case find (\<lambda>i. gv_name (gvs ! i) = ''__fixedLocationGlobal'') [0..<length gvs] of
        Some i \<Rightarrow> gvs[0 := gvs ! i, i := gvs ! 0]
      | None \<Rightarrow> gvs)"

definition globals_table :: "global_var_decl list \<Rightarrow> (string_id \<rightharpoonup> tipe \<times> usize)" where
  "globals_table gvs = map_of (rev (map (\<lambda>i. (gv_name_id (gvs ! i), (gv_tipe (gvs ! i), i))) [0..<length gvs]))"

fun undefinable_imports :: "string_table \<Rightarrow> import_decl list \<Rightarrow> undefinable \<Rightarrow> undefinable option" where
  "undefinable_imports st [] undef = Some undef"
| "undefinable_imports st (imp # imps) undef =
     (case string_table_get_if_exists st (import_name imp) of
        None \<Rightarrow> None
      | Some i \<Rightarrow> undefinable_imports st imps (undef(i \<mapsto> import_location imp)))"

text \<open>The functions in the order of their ids; the public ones are exported.\<close>

fun typecheck_funcs ::
    "tc_env \<Rightarrow> string_table \<Rightarrow> (string_id \<times> source_func) list \<Rightarrow> exported_func list \<Rightarrow> (string_id \<times> tc_func) list
     \<Rightarrow> (exported_func list \<times> (string_id \<times> tc_func) list) top_check" where
  "typecheck_funcs env st [] exported checked = return_c (exported, checked)"
| "typecheck_funcs env st ((i, fd) # fds) exported checked =
     bind_c (typecheck_function env st fd) (\<lambda>f.
       case func_kind fd of
         Public \<Rightarrow>
           bind_c (unwrap_c (exported_func_new (func_name f) (Func (func_name f)) (func_tipe f) st)) (\<lambda>ex.
             typecheck_funcs env st fds (exported @ [ex]) (btree_insert i f checked))
       | Private \<Rightarrow> typecheck_funcs env st fds exported (btree_insert i f checked))"

definition typecheck_top_level_decls ::
    "tc_env \<Rightarrow> (string_id \<times> source_func) list \<Rightarrow> (string_id \<rightharpoonup> tipe) \<Rightarrow> global_var_decl list \<Rightarrow> import_decl list \<Rightarrow> string_table
     \<Rightarrow> (string_id \<rightharpoonup> tipe) \<Rightarrow> (string_id \<times> tc_func) list
     \<Rightarrow> (compile_error, undefinable, exported_func list \<times> global_var_decl list \<times> (string_id \<times> tc_func) list) outcome" where
  "typecheck_top_level_decls env fds named_types global_vars imps st func_map checked =
     (let gvs = fixed_global_first global_vars;
          env' = env\<lparr>te_types := named_types, te_globals := globals_table gvs, te_funcs := func_map\<rparr>
      in case undefinable_imports st imps Map.empty of
           None \<Rightarrow> Panic
         | Some undef \<Rightarrow>
             bind_c (typecheck_funcs env' st fds [] checked)
               (\<lambda>(exported, checked'). return_c (exported, gvs, checked')) undef)"

end
