(* ===== verification/Syntax_Nodes.thy ===== *)
theory Syntax_Nodes
  imports Typecheck
begin

text \<open>
  Walks over the checked syntax tree (\<open>src/compile/typecheck.rs\<close>): the children of a node, purity, attributes that are
  passed down, and the functions and imports that are used.  A node of the source is a mutable reference; here reading walks
  use the list of children, and walks that change the tree use \<open>map_children\<close>, which replaces every child by its image.
  The walk of the children of a \<open>break\<close> starts at the children of its expression and leaves the expression itself out.
\<close>

section \<open>Definitions\<close>

subsection \<open>Children\<close>

datatype tc_node =
    NStatement tc_statement | NExpression tc_expr | NStructField "tc_expr field_initializer" | NType tipe

definition block_child_nodes :: "tc_code_block \<Rightarrow> tc_node list" where
  "block_child_nodes b =
     map NStatement (block_body b) @ (case block_ret_expr b of Some e \<Rightarrow> [NExpression e] | None \<Rightarrow> [])"

fun expr_child_nodes :: "tc_expr_kind \<Rightarrow> tc_node list" where
  "expr_child_nodes (EUnaryOp op e t) = [NExpression e]"
| "expr_child_nodes (EVariant e) = [NExpression e]"
| "expr_child_nodes (ESetGas e) = [NExpression e]"
| "expr_child_nodes (ETupleRef e idx t) = [NExpression e]"
| "expr_child_nodes (EDotRef e slot sz t) = [NExpression e]"
| "expr_child_nodes (ENewArray e base t) = [NExpression e]"
| "expr_child_nodes (ECast e t) = [NExpression e]"
| "expr_child_nodes (ETry e t) = [NExpression e]"
| "expr_child_nodes (ETrinary op e1 e2 e3 t) = [NExpression e1, NExpression e2, NExpression e3]"
| "expr_child_nodes (EBinary op e1 e2 t) = [NExpression e1, NExpression e2]"
| "expr_child_nodes (EShortcutOr e1 e2) = [NExpression e1, NExpression e2]"
| "expr_child_nodes (EShortcutAnd e1 e2) = [NExpression e1, NExpression e2]"
| "expr_child_nodes (EArrayRef e1 e2 t) = [NExpression e1, NExpression e2]"
| "expr_child_nodes (EFixedArrayRef e1 e2 sz t) = [NExpression e1, NExpression e2]"
| "expr_child_nodes (EMapRef e1 e2 t) = [NExpression e1, NExpression e2]"
| "expr_child_nodes (EStructMod e1 idx e2 t) = [NExpression e1, NExpression e2]"
| "expr_child_nodes (EFunctionCall f args t props) = NExpression f # map NExpression args"
| "expr_child_nodes (ECodeBlock b) = block_child_nodes b"
| "expr_child_nodes (EStructInitializer inits t) = map NStructField inits"
| "expr_child_nodes (ETuple es t) = map NExpression es"
| "expr_child_nodes (EAsm t insns args) = map NExpression args"
| "expr_child_nodes (ENewFixedArray sz oe t) = (case oe of Some e \<Rightarrow> [NExpression e] | None \<Rightarrow> [])"
| "expr_child_nodes (EArrayMod e1 e2 e3 t) = [NExpression e1, NExpression e2, NExpression e3]"
| "expr_child_nodes (EFixedArrayMod e1 e2 e3 sz t) = [NExpression e1, NExpression e2, NExpression e3]"
| "expr_child_nodes (EMapMod e1 e2 e3 t) = [NExpression e1, NExpression e2, NExpression e3]"
| "expr_child_nodes (EIf c b ob t) =
     NExpression c # block_child_nodes b @ (case ob of Some b' \<Rightarrow> block_child_nodes b' | None \<Rightarrow> [])"
| "expr_child_nodes (EIfLet name e b ob t) =
     NExpression e # block_child_nodes b @ (case ob of Some b' \<Rightarrow> block_child_nodes b' | None \<Rightarrow> [])"
| "expr_child_nodes (ELoop stats) = map NStatement stats"
| "expr_child_nodes _ = []"

fun stat_child_nodes :: "tc_statement_kind \<Rightarrow> tc_node list" where
  "stat_child_nodes SNoop = []"
| "stat_child_nodes SReturnVoid = []"
| "stat_child_nodes (SReturn e) = [NExpression e]"
| "stat_child_nodes (SExpression e) = [NExpression e]"
| "stat_child_nodes (SLet pat e) = [NExpression e]"
| "stat_child_nodes (SAssignLocal name e) = [NExpression e]"
| "stat_child_nodes (SAssignGlobal idx e) = [NExpression e]"
| "stat_child_nodes (SAssert e) = [NExpression e]"
| "stat_child_nodes (SDebugPrint e) = [NExpression e]"
| "stat_child_nodes (SWhile c stats) = NExpression c # map NStatement stats"
| "stat_child_nodes (SAsm insns args) = map NExpression args"
| "stat_child_nodes (SBreak oe sc) = (case oe of Some e \<Rightarrow> expr_child_nodes (expr_kind e) | None \<Rightarrow> [])"

fun child_nodes :: "tc_node \<Rightarrow> tc_node list" where
  "child_nodes (NStatement s) = stat_child_nodes (stat_kind s)"
| "child_nodes (NExpression e) = expr_child_nodes (expr_kind e)"
| "child_nodes (NStructField fi) = [NExpression (init_value fi)]"
| "child_nodes (NType t) = map NType (type_child_nodes t)"

definition func_child_nodes :: "tc_func \<Rightarrow> tc_node list" where
  "func_child_nodes f = map NStatement (func_code f)"

text \<open>A measure for walks: children are smaller than their node.\<close>

fun node_size :: "tc_node \<Rightarrow> nat" where
  "node_size (NStatement s) = size_class.size s"
| "node_size (NExpression e) = size_class.size e"
| "node_size (NStructField fi) = Suc (size_class.size (init_value fi))"
| "node_size (NType t) = Suc (size_class.size t)"

lemma type_child_size: "t' \<in> set (type_child_nodes t) \<Longrightarrow> size_class.size t' < size_class.size t"
  by (cases t rule: type_child_nodes.cases) (auto simp: less_Suc_eq_le size_list_estimation' termination_simp dest: size_field_tipe)

lemma block_child_size: "n \<in> set (block_child_nodes b) \<Longrightarrow> node_size n < size_class.size b"
  by (cases b) (auto simp: block_child_nodes_def less_Suc_eq_le size_list_estimation' trans_le_add1 split: option.splits)

lemma field_size: "Suc (size_class.size (init_value fi)) \<le> size_field_initializer size_class.size fi"
  by (cases fi) simp

lemma expr_child_size: "n \<in> set (expr_child_nodes k) \<Longrightarrow> node_size n < size_class.size k"
  by (cases k) (auto simp: less_Suc_eq_le size_list_estimation' [where f = "size_field_initializer size_class.size", OF _ field_size]
      size_list_estimation' trans_le_add1 split: option.splits dest!: block_child_size)

lemma stat_child_size: "n \<in> set (stat_child_nodes k) \<Longrightarrow> node_size n < size_class.size k"
proof (cases k)
  case (SBreak oe sc)
  assume "n \<in> set (stat_child_nodes k)"
  then obtain e where "oe = Some e" "n \<in> set (expr_child_nodes (expr_kind e))" by (auto simp: SBreak split: option.splits)
  then show ?thesis using expr_child_size [of n "expr_kind e"] by (cases e) (simp add: SBreak)
qed (auto simp: less_Suc_eq_le size_list_estimation' trans_le_add1)

lemma expr_kind_size: "size_class.size (expr_kind e) < size_class.size e" "size_class.size (stat_kind s) < size_class.size s"
  by (cases e, simp, cases s, simp)

lemma child_size [termination_simp]: "n \<in> set (child_nodes m) \<Longrightarrow> node_size n < node_size m"
  by (cases m) (auto dest: expr_child_size stat_child_size type_child_size intro: less_trans expr_kind_size)

subsection \<open>Purity\<close>

text \<open>A conjunction over a list that stops at the first false operand; a panic is \<open>None\<close>.\<close>

fun all_pure :: "bool option list \<Rightarrow> bool option" where
  "all_pure [] = Some True"
| "all_pure (p # ps) = (case p of None \<Rightarrow> None | Some False \<Rightarrow> Some False | Some True \<Rightarrow> all_pure ps)"

function is_pure :: "tc_node \<Rightarrow> bool option" where
  "is_pure n =
     (let children = (\<lambda>ok. if ok then all_pure (map is_pure (child_nodes n)) else Some False)
      in case n of
           NStatement s \<Rightarrow>
             (case stat_kind s of
                SAssignGlobal _ _ \<Rightarrow> Some False
              | SAsm insns _ \<Rightarrow> children (list_all instruction_is_pure insns)
              | _ \<Rightarrow> children True)
         | NExpression e \<Rightarrow>
             (case expr_kind e of
                EFuncRef _ t \<Rightarrow> (case t of TFunc impure _ _ \<Rightarrow> Some (\<not> impure) | _ \<Rightarrow> None)
              | EAsm _ insns _ \<Rightarrow> children (list_all instruction_is_pure insns)
              | EGlobalVariableRef _ _ \<Rightarrow> Some False
              | EGetGas \<Rightarrow> Some False
              | ESetGas _ \<Rightarrow> Some False
              | _ \<Rightarrow> children True)
         | NStructField fi \<Rightarrow> children True
         | NType _ \<Rightarrow> Some True)"
  by auto
termination
  by (relation "measure node_size") (auto intro: child_size)

declare is_pure.simps [simp del]

definition func_is_pure :: "tc_func \<Rightarrow> bool option" where
  "func_is_pure f = all_pure (map is_pure (func_child_nodes f))"

subsection \<open>Functions and imports in use\<close>

text \<open>The functions that a list of nodes refers to.  The source collects a hash set; the list is one order of it.\<close>

definition funcs_here :: "tc_node \<Rightarrow> string_id list" where
  "funcs_here n = (case n of NExpression e \<Rightarrow> (case expr_kind e of EFuncRef i _ \<Rightarrow> [i] | _ \<Rightarrow> []) | _ \<Rightarrow> [])"

function node_funcs_used :: "tc_node \<Rightarrow> string_id list" where
  "node_funcs_used n = List.union (funcs_here n) (fold List.union (map node_funcs_used (child_nodes n)) [])"
  by auto
termination
  by (relation "measure node_size") (auto intro: child_size)

definition determine_funcs_used :: "tc_node list \<Rightarrow> string_id list" where
  "determine_funcs_used ns = fold List.union (map node_funcs_used ns) []"

text \<open>The imports that a node uses are removed: nominal types of casts, constants and new arrays, and functions.\<close>

definition imports_here :: "tc_node \<Rightarrow> string_id list" where
  "imports_here n =
     (case n of
        NExpression e \<Rightarrow>
          (case expr_kind e of
             ECast _ t \<Rightarrow> find_nominals t
           | EConst _ t \<Rightarrow> find_nominals t
           | ENewArray _ _ t \<Rightarrow> find_nominals t
           | EFuncRef i _ \<Rightarrow> [i]
           | _ \<Rightarrow> [])
      | _ \<Rightarrow> [])"

definition remove_ids :: "string_id list \<Rightarrow> (string_id \<times> 'a) list \<Rightarrow> (string_id \<times> 'a) list" where
  "remove_ids ids m = filter (\<lambda>(i, _). i \<notin> set ids) m"

function node_imports :: "tc_node \<Rightarrow> (string_id \<times> import_decl) list \<Rightarrow> (string_id \<times> import_decl) list" where
  "node_imports n imps = fold node_imports (child_nodes n) (remove_ids (imports_here n) imps)"
  by auto
termination
  by (relation "measure (node_size \<circ> fst)") (auto intro: child_size)

definition flowcheck_imports :: "tc_node list \<Rightarrow> (string_id \<times> import_decl) list \<Rightarrow> (string_id \<times> import_decl) list" where
  "flowcheck_imports ns imps = fold node_imports ns imps"

declare node_funcs_used.simps [simp del] node_imports.simps [simp del]

text \<open>Equations by the form of the node, so that evaluation stops at unknown nodes.\<close>

lemmas node_funcs_used_code [code] =
  node_funcs_used.simps [of "NStatement s" for s] node_funcs_used.simps [of "NExpression e" for e]
  node_funcs_used.simps [of "NStructField fi" for fi] node_funcs_used.simps [of "NType t" for t]

lemmas node_imports_code [code] =
  node_imports.simps [of "NStatement s" for s] node_imports.simps [of "NExpression e" for e]
  node_imports.simps [of "NStructField fi" for fi] node_imports.simps [of "NType t" for t]

subsection \<open>Changing a tree\<close>

definition map_block_children :: "(tc_statement \<Rightarrow> tc_statement) \<Rightarrow> (tc_expr \<Rightarrow> tc_expr) \<Rightarrow> tc_code_block \<Rightarrow> tc_code_block" where
  "map_block_children f g b = TcCodeBlock (map f (block_body b)) (map_option g (block_ret_expr b)) (block_scope b)"

text \<open>A field is changed by changing its value.\<close>

fun map_expr_children :: "(tc_statement \<Rightarrow> tc_statement) \<Rightarrow> (tc_expr \<Rightarrow> tc_expr) \<Rightarrow> tc_expr_kind \<Rightarrow> tc_expr_kind" where
  "map_expr_children f g (EUnaryOp op e t) = EUnaryOp op (g e) t"
| "map_expr_children f g (EVariant e) = EVariant (g e)"
| "map_expr_children f g (ESetGas e) = ESetGas (g e)"
| "map_expr_children f g (ETupleRef e idx t) = ETupleRef (g e) idx t"
| "map_expr_children f g (EDotRef e slot sz t) = EDotRef (g e) slot sz t"
| "map_expr_children f g (ENewArray e base t) = ENewArray (g e) base t"
| "map_expr_children f g (ECast e t) = ECast (g e) t"
| "map_expr_children f g (ETry e t) = ETry (g e) t"
| "map_expr_children f g (ETrinary op e1 e2 e3 t) = ETrinary op (g e1) (g e2) (g e3) t"
| "map_expr_children f g (EBinary op e1 e2 t) = EBinary op (g e1) (g e2) t"
| "map_expr_children f g (EShortcutOr e1 e2) = EShortcutOr (g e1) (g e2)"
| "map_expr_children f g (EShortcutAnd e1 e2) = EShortcutAnd (g e1) (g e2)"
| "map_expr_children f g (EArrayRef e1 e2 t) = EArrayRef (g e1) (g e2) t"
| "map_expr_children f g (EFixedArrayRef e1 e2 sz t) = EFixedArrayRef (g e1) (g e2) sz t"
| "map_expr_children f g (EMapRef e1 e2 t) = EMapRef (g e1) (g e2) t"
| "map_expr_children f g (EStructMod e1 idx e2 t) = EStructMod (g e1) idx (g e2) t"
| "map_expr_children f g (EFunctionCall e args t props) = EFunctionCall (g e) (map g args) t props"
| "map_expr_children f g (ECodeBlock b) = ECodeBlock (map_block_children f g b)"
| "map_expr_children f g (EStructInitializer inits t) = EStructInitializer (map (map_field_initializer g) inits) t"
| "map_expr_children f g (ETuple es t) = ETuple (map g es) t"
| "map_expr_children f g (EAsm t insns args) = EAsm t insns (map g args)"
| "map_expr_children f g (ENewFixedArray sz oe t) = ENewFixedArray sz (map_option g oe) t"
| "map_expr_children f g (EArrayMod e1 e2 e3 t) = EArrayMod (g e1) (g e2) (g e3) t"
| "map_expr_children f g (EFixedArrayMod e1 e2 e3 sz t) = EFixedArrayMod (g e1) (g e2) (g e3) sz t"
| "map_expr_children f g (EMapMod e1 e2 e3 t) = EMapMod (g e1) (g e2) (g e3) t"
| "map_expr_children f g (EIf c b ob t) = EIf (g c) (map_block_children f g b) (map_option (map_block_children f g) ob) t"
| "map_expr_children f g (EIfLet name e b ob t) =
     EIfLet name (g e) (map_block_children f g b) (map_option (map_block_children f g) ob) t"
| "map_expr_children f g (ELoop stats) = ELoop (map f stats)"
| "map_expr_children f g k = k"

definition map_subexprs :: "(tc_statement \<Rightarrow> tc_statement) \<Rightarrow> (tc_expr \<Rightarrow> tc_expr) \<Rightarrow> tc_expr \<Rightarrow> tc_expr" where
  "map_subexprs f g e = TcExpr (map_expr_children f g (expr_kind e)) (expr_debug_info e)"

fun map_stat_children :: "(tc_statement \<Rightarrow> tc_statement) \<Rightarrow> (tc_expr \<Rightarrow> tc_expr) \<Rightarrow> tc_statement_kind \<Rightarrow> tc_statement_kind" where
  "map_stat_children f g SNoop = SNoop"
| "map_stat_children f g SReturnVoid = SReturnVoid"
| "map_stat_children f g (SReturn e) = SReturn (g e)"
| "map_stat_children f g (SExpression e) = SExpression (g e)"
| "map_stat_children f g (SLet pat e) = SLet pat (g e)"
| "map_stat_children f g (SAssignLocal name e) = SAssignLocal name (g e)"
| "map_stat_children f g (SAssignGlobal idx e) = SAssignGlobal idx (g e)"
| "map_stat_children f g (SAssert e) = SAssert (g e)"
| "map_stat_children f g (SDebugPrint e) = SDebugPrint (g e)"
| "map_stat_children f g (SWhile c stats) = SWhile (g c) (map f stats)"
| "map_stat_children f g (SAsm insns args) = SAsm insns (map g args)"
| "map_stat_children f g (SBreak oe sc) = SBreak (map_option (map_subexprs f g) oe) sc"

text \<open>The subexpressions and substatements that are changed, for recursion through these maps.\<close>

definition parts :: "tc_node list \<Rightarrow> tc_node set" where
  "parts ns = set ns \<union> {NExpression (init_value fi) |fi. NStructField fi \<in> set ns}"

lemma map_block_children_cong:
  assumes "\<And>s. NStatement s \<in> set (block_child_nodes b) \<Longrightarrow> f s = f' s" "\<And>e. NExpression e \<in> set (block_child_nodes b) \<Longrightarrow> g e = g' e"
  shows "map_block_children f g b = map_block_children f' g' b"
  using assms by (cases "block_ret_expr b") (auto simp: map_block_children_def block_child_nodes_def)

lemma set_field_initializer: "set_field_initializer fi = {init_value fi}"
  by (cases fi) simp

lemma map_expr_children_cong [fundef_cong]:
  assumes "k = k'" "\<And>s. NStatement s \<in> parts (expr_child_nodes k') \<Longrightarrow> f s = f' s"
    "\<And>e. NExpression e \<in> parts (expr_child_nodes k') \<Longrightarrow> g e = g' e"
  shows "map_expr_children f g k = map_expr_children f' g' k'"
  using assms
  by (cases k') (auto simp: parts_def image_iff set_field_initializer intro!: map_block_children_cong field_initializer.map_cong
      option.map_cong split: option.splits, blast)

lemma map_stat_children_cong [fundef_cong]:
  assumes "k = k'" "\<And>s. NStatement s \<in> parts (stat_child_nodes k') \<Longrightarrow> f s = f' s"
    "\<And>e. NExpression e \<in> parts (stat_child_nodes k') \<Longrightarrow> g e = g' e"
  shows "map_stat_children f g k = map_stat_children f' g' k'"
proof (cases k')
  case (SBreak oe sc)
  show ?thesis
  proof (cases oe)
    case (Some e)
    with assms SBreak have "map_expr_children f g (expr_kind e) = map_expr_children f' g' (expr_kind e)"
      by (intro map_expr_children_cong) simp_all
    with Some SBreak assms(1) show ?thesis by (simp add: map_subexprs_def)
  qed (simp add: SBreak assms(1))
qed (use assms in \<open>auto simp: parts_def image_iff\<close>)

lemma part_size:
  "n \<in> parts (expr_child_nodes k) \<Longrightarrow> node_size n < size_class.size k" "n \<in> parts (stat_child_nodes k') \<Longrightarrow> node_size n < size_class.size k'"
  by (auto simp: parts_def dest!: expr_child_size stat_child_size)

subsection \<open>Attributes\<close>

definition print_from :: "bool \<Rightarrow> debug_info \<Rightarrow> debug_info" where
  "print_from pr di = di\<lparr>attributes := (attributes di)\<lparr>codegen_print := codegen_print (attributes di) \<or> pr\<rparr>\<rparr>"

definition print_asm :: "bool \<Rightarrow> tc_statement_kind \<Rightarrow> tc_statement_kind" where
  "print_asm pr k =
     (case k of
        SAsm insns args \<Rightarrow>
          SAsm (map (\<lambda>i. Instruction (opcode i) (immediate i)
                        ((insn_debug_info i)\<lparr>attributes := (attributes (insn_debug_info i))\<lparr>codegen_print := pr\<rparr>\<rparr>)) insns) args
      | _ \<Rightarrow> k)"

text \<open>Only the flag for printing is passed down.\<close>

function propagate_stat :: "bool \<Rightarrow> tc_statement \<Rightarrow> tc_statement"
  and propagate_expr :: "bool \<Rightarrow> tc_expr \<Rightarrow> tc_expr" where
  "propagate_stat pr (TcStatement k di) =
     (let di' = print_from pr di; pr' = codegen_print (attributes di')
      in TcStatement (print_asm pr' (map_stat_children (propagate_stat pr') (propagate_expr pr') k)) di')"
| "propagate_expr pr (TcExpr k di) =
     (let di' = print_from pr di; pr' = codegen_print (attributes di')
      in TcExpr (map_expr_children (propagate_stat pr') (propagate_expr pr') k) di')"
  by pat_completeness auto
termination
  by (relation "measure (\<lambda>x. case x of Inl (pr, s) \<Rightarrow> node_size (NStatement s) | Inr (pr, e) \<Rightarrow> node_size (NExpression e))")
    (auto dest!: part_size)

definition propagate_attributes :: "tc_func \<Rightarrow> tc_func" where
  "propagate_attributes f = f\<lparr>func_code := map (propagate_stat (codegen_print (attributes (func_debug_info f)))) (func_code f)\<rparr>"

section \<open>What walks find\<close>

text \<open>A condition on a node and all nodes that a walk reaches from it.\<close>

function everywhere :: "(tc_node \<Rightarrow> bool) \<Rightarrow> tc_node \<Rightarrow> bool" where
  "everywhere P n \<longleftrightarrow> P n \<and> list_all (everywhere P) (child_nodes n)"
  by auto
termination
  by (relation "measure (node_size \<circ> snd)") (auto intro: child_size)

declare everywhere.simps [simp del]

lemma node_induct [case_names node]: "(\<And>n. (\<And>m. m \<in> set (child_nodes n) \<Longrightarrow> P m) \<Longrightarrow> P n) \<Longrightarrow> P n"
  by (induction n rule: measure_induct_rule [of node_size]) (blast dest: child_size)

lemma set_fold_union: "set (fold List.union xss ys) = set ys \<union> (\<Union>xs \<in> set xss. set xs)"
  by (induction xss arbitrary: ys) auto

lemma set_node_funcs_used: "i \<in> set (node_funcs_used n) \<longleftrightarrow> \<not> everywhere (\<lambda>m. i \<notin> set (funcs_here m)) n"
proof (induction n rule: node_induct)
  case (node n)
  then show ?case by (auto simp: node_funcs_used.simps [of n] everywhere.simps [of _ n] set_fold_union list_all_iff)
qed

lemma set_determine_funcs_used:
  "i \<in> set (determine_funcs_used ns) \<longleftrightarrow> \<not> list_all (everywhere (\<lambda>m. i \<notin> set (funcs_here m))) ns"
  by (simp add: determine_funcs_used_def set_fold_union set_node_funcs_used list_all_iff)

lemma fold_filter_keys:
  assumes "\<And>n imps. n \<in> set ns \<Longrightarrow> f n imps = filter (\<lambda>(i, _). P i n) imps"
  shows "fold f ns imps = filter (\<lambda>(i, _). list_all (P i) ns) imps"
  using assms
proof (induction ns arbitrary: imps)
  case (Cons n ns)
  then show ?case by (auto simp: case_prod_beta intro: filter_cong)
qed simp

lemma node_imports_eq: "node_imports n imps = filter (\<lambda>(i, _). everywhere (\<lambda>m. i \<notin> set (imports_here m)) n) imps"
proof (induction n arbitrary: imps rule: node_induct)
  case (node n)
  then show ?case
    by (simp add: node_imports.simps [of n] fold_filter_keys [OF node] remove_ids_def everywhere.simps [of _ n] case_prod_beta conj_commute)
qed

text \<open>Exactly the imports that no node uses are left.\<close>

lemma flowcheck_imports_eq:
  "flowcheck_imports ns imps = filter (\<lambda>(i, _). list_all (everywhere (\<lambda>m. i \<notin> set (imports_here m))) ns) imps"
  unfolding flowcheck_imports_def by (rule fold_filter_keys [OF node_imports_eq])

subsection \<open>Purity\<close>

text \<open>What makes a node itself impure.\<close>

definition locally_pure :: "tc_node \<Rightarrow> bool" where
  "locally_pure n =
     (case n of
        NStatement s \<Rightarrow> (case stat_kind s of SAssignGlobal _ _ \<Rightarrow> False | SAsm insns _ \<Rightarrow> list_all instruction_is_pure insns | _ \<Rightarrow> True)
      | NExpression e \<Rightarrow>
          (case expr_kind e of
             EFuncRef _ (TFunc impure _ _) \<Rightarrow> \<not> impure
           | EAsm _ insns _ \<Rightarrow> list_all instruction_is_pure insns
           | EGlobalVariableRef _ _ \<Rightarrow> False
           | EGetGas \<Rightarrow> False
           | ESetGas _ \<Rightarrow> False
           | _ \<Rightarrow> True)
      | _ \<Rightarrow> True)"

definition func_ref_typed :: "tc_node \<Rightarrow> bool" where
  "func_ref_typed n =
     (case n of
        NExpression e \<Rightarrow> (case expr_kind e of EFuncRef _ t \<Rightarrow> (case t of TFunc _ _ _ \<Rightarrow> True | _ \<Rightarrow> False) | _ \<Rightarrow> True)
      | _ \<Rightarrow> True)"

lemma all_pure_map: "(\<And>n. n \<in> set ns \<Longrightarrow> f n = Some (P n)) \<Longrightarrow> all_pure (map f ns) = Some (list_all P ns)"
  by (induction ns) (auto split: bool.splits)

lemma is_pure_step:
  "is_pure n =
     (if \<not> func_ref_typed n then None else if locally_pure n then all_pure (map is_pure (child_nodes n)) else Some False)"
proof (cases n)
  case (NStatement s)
  then show ?thesis
    by (cases "stat_kind s") (simp_all add: is_pure.simps [of "NStatement s"] func_ref_typed_def locally_pure_def)
next
  case (NExpression e)
  then show ?thesis
    by (cases "expr_kind e") (simp_all add: is_pure.simps [of "NExpression e"] func_ref_typed_def locally_pure_def split: tipe.splits)
next
  case (NType t)
  have pure: "is_pure (NType u) = Some True" for u by (simp add: is_pure.simps)
  then have "all_pure (map is_pure (child_nodes n)) = Some (list_all (\<lambda>_. True) (child_nodes n))"
    by (intro all_pure_map) (auto simp: NType)
  then show ?thesis by (simp add: NType pure func_ref_typed_def locally_pure_def list_all_iff)
qed (simp add: is_pure.simps [of "NStructField _"] func_ref_typed_def locally_pure_def)

lemma is_pure_eq: "everywhere func_ref_typed n \<Longrightarrow> is_pure n = Some (everywhere locally_pure n)"
proof (induction n rule: node_induct)
  case (node n)
  then have "all_pure (map is_pure (child_nodes n)) = Some (list_all (everywhere locally_pure) (child_nodes n))"
    by (intro all_pure_map) (simp add: everywhere.simps [of _ n] list_all_iff)
  with node(2) show ?case by (simp add: is_pure_step everywhere.simps [of _ n])
qed


definition pure_example :: tc_func where
  "pure_example = \<lparr>func_name = 1, func_args = [], func_ret_type = TVoid,
     func_code = [TcStatement (SAssignLocal 2 (TcExpr (EFunctionCall (TcExpr (EFuncRef 3 (TFunc True [] TUint)) debug_info_default) []
       TUint \<lparr>pure = False\<rparr>) debug_info_default)) debug_info_default],
     func_tipe = TFunc False [] TVoid, func_kind = Private, func_debug_info = debug_info_default, func_properties = \<lparr>pure = True\<rparr>\<rparr>"


text \<open>The expression of a \<open>break\<close> is not visited: a global that is read there, or a function that is mentioned there, goes unnoticed.\<close>

lemma break_hides_its_expression:
  "is_pure (NStatement (TcStatement (SBreak (Some (TcExpr (EGlobalVariableRef 0 t) di)) sc) di)) = Some True"
  "determine_funcs_used [NStatement (TcStatement (SBreak (Some (TcExpr (EFuncRef 7 t) di)) sc) di)] = []"
  by (simp_all add: is_pure.simps determine_funcs_used_def node_funcs_used.simps funcs_here_def List.union_def)

end
