(* ===== verification/Inlining.thy ===== *)
theory Inlining
  imports Syntax_Nodes
begin

text \<open>
  Inlining of function calls (\<open>inline\<close> and \<open>strip_returns\<close> of \<open>src/compile/typecheck.rs\<close>, and \<open>TypeCheckedModule::inline\<close>
  of \<open>src/compile/mod.rs\<close>).  A call of a function of the module becomes a code block that binds the arguments and holds the
  code of the function, in which returns below the top level have become breaks out of the block.
  The walk of the source applies a function to every child and then walks the children of the result; it carries the inlining mode
  of the enclosing statement and the functions that have been opened on the way, so that recursive functions are opened once.
\<close>

section \<open>Definitions\<close>

datatype inlining_heuristic = InlineAll | InlineNone

definition inlining_heuristic_from_str :: "string \<Rightarrow> string + inlining_heuristic" where
  "inlining_heuristic_from_str s =
     (if s = ''all'' then Inr InlineAll
      else if s = ''none'' then Inr InlineNone
      else Inl (''Unrecognized inlining heuristic: '' @ quoted s))"

definition inlining_mode_and :: "inlining_mode \<Rightarrow> inlining_mode \<Rightarrow> inlining_mode" where
  "inlining_mode_and self other = (if self = AutoInline then other else self)"

subsection \<open>Returns become breaks\<close>

text \<open>The replacement of a \<open>?\<close> inside of an inlined function: leave the block with the empty option, or take its contents.\<close>

definition stripped_try :: "tc_expr \<Rightarrow> tipe \<Rightarrow> tc_expr_kind" where
  "stripped_try inner t =
     (let di = expr_debug_info inner;
          tget = (\<lambda>i. Instruction (AVM Tget) (Some (IntV i)) di)
      in ECodeBlock (TcCodeBlock []
           (Some (TcExpr
             (EIf (TcExpr (EAsm TBool [Instruction (AVM Dup0) None di, tget uint256_zero] [inner]) di)
                (TcCodeBlock [] (Some (TcExpr (EAsm t [tget uint256_one] []) di)) None)
                (Some (TcCodeBlock
                   [TcStatement (SBreak (Some (TcExpr (EAsm (TOption t) [] []) di)) ''_inline'') di]
                   (Some (TcExpr EError di)) None))
                t) di)) None))"

definition return_to_break :: "tc_statement_kind \<Rightarrow> tc_statement_kind" where
  "return_to_break k =
     (case k of SReturn e \<Rightarrow> SBreak (Some e) ''_inline'' | SReturnVoid \<Rightarrow> SBreak None ''_inline'' | _ \<Rightarrow> k)"

lemma return_to_break_size:
  assumes "n \<in> parts (stat_child_nodes (return_to_break k))"
  shows "node_size n < Suc (size_class.size k)"
proof (cases k)
  case (SReturn e)
  with assms have "n \<in> parts (expr_child_nodes (expr_kind e))" by (simp add: return_to_break_def)
  with SReturn show ?thesis using part_size(1) [of n "expr_kind e"] expr_kind_size(1) [of e] by simp
qed (use assms part_size(2) [of n k] in \<open>simp_all add: return_to_break_def parts_def less_SucI\<close>)

fun try_parts :: "tc_expr_kind \<Rightarrow> (tc_expr \<times> tipe) option" where
  "try_parts (ETry e t) = Some (e, t)"
| "try_parts k = None"

lemma try_parts_Some [simp]: "try_parts k = Some (e, t) \<longleftrightarrow> k = ETry e t"
  by (cases k rule: try_parts.cases) auto

function strip_stat :: "tc_statement \<Rightarrow> tc_statement"
  and strip_expr :: "tc_expr \<Rightarrow> tc_expr" where
  "strip_stat (TcStatement k di) = TcStatement (map_stat_children strip_stat strip_expr (return_to_break k)) di"
| "strip_expr (TcExpr k di) =
     TcExpr (case try_parts k of
         Some (inner, t) \<Rightarrow> stripped_try (strip_expr inner) t
       | None \<Rightarrow> map_expr_children strip_stat strip_expr k) di"
  by pat_completeness auto
termination
  by (relation "measure (\<lambda>x. case x of Inl s \<Rightarrow> node_size (NStatement s) | Inr e \<Rightarrow> node_size (NExpression e))")
    (auto dest!: part_size(1) return_to_break_size)

text \<open>The walk starts below its root: the root itself stays as it is.\<close>

definition strip_below_expr :: "tc_expr \<Rightarrow> tc_expr" where
  "strip_below_expr = map_subexprs strip_stat strip_expr"

definition strip_below_stat :: "tc_statement \<Rightarrow> tc_statement" where
  "strip_below_stat s = TcStatement (map_stat_children strip_stat strip_expr (stat_kind s)) (stat_debug_info s)"

subsection \<open>Calls become blocks\<close>

definition bind_args :: "tc_func \<Rightarrow> tc_expr list \<Rightarrow> tc_statement list" where
  "bind_args f args =
     (if func_args f = [] then []
      else let t = TTuple (map arg_tipe (func_args f))
           in [TcStatement (SLet
                 (MatchPattern (PTuple (map (\<lambda>a. MatchPattern (PBind (arg_name a)) (arg_debug_info a) (arg_tipe a)) (func_args f)))
                    (func_debug_info f) t)
                 (TcExpr (ETuple (map strip_below_expr args) t) debug_info_default))
               debug_info_default])"

definition inlined_block :: "tc_func \<Rightarrow> tc_expr list \<Rightarrow> tc_code_block" where
  "inlined_block f args =
     (let cs = bind_args f args @ func_code f;
          (body, result) =
            (if cs = [] then ([], None)
             else case stat_kind (last cs) of
                    SReturn e \<Rightarrow> (butlast cs, Some (strip_below_expr e))
                  | _ \<Rightarrow> (cs, None))
      in TcCodeBlock (map strip_below_stat body) result (Some ''_inline''))"

text \<open>What is done to an expression: the new expression, the functions opened, and whether the walk goes on below it.\<close>

definition inline_call ::
    "tc_func list \<Rightarrow> inlining_heuristic \<Rightarrow> inlining_mode \<Rightarrow> string_id list \<Rightarrow> tc_expr \<Rightarrow> tc_expr \<times> string_id list \<times> bool" where
  "inline_call funcs heuristic mode opened e =
     (case expr_kind e of
        EFunctionCall callee args _ _ \<Rightarrow>
          (case expr_kind callee of
             EFuncRef i _ \<Rightarrow>
               (case find (\<lambda>f. func_name f = i) funcs of
                  Some f \<Rightarrow>
                    let mode' = inlining_mode_and mode (inline_mode (attributes (func_debug_info f)))
                    in if (case heuristic of InlineAll \<Rightarrow> mode' = NeverInline | InlineNone \<Rightarrow> mode' \<noteq> AlwaysInline)
                       then (e, opened, False)
                       else if func_name f \<in> set opened then (e, opened, False)
                       else (TcExpr (ECodeBlock (inlined_block f args)) (expr_debug_info e), opened @ [func_name f], True)
                | None \<Rightarrow> (e, opened, True))
           | _ \<Rightarrow> (e, opened, True))
      | _ \<Rightarrow> (e, opened, True))"

definition unopened :: "tc_func list \<Rightarrow> string_id list \<Rightarrow> nat" where
  "unopened funcs opened = card (func_name ` set funcs - set opened)"

lemma inline_call_cases:
  assumes "inline_call funcs heuristic mode opened e = (e', opened', below)"
  obtains (kept) "e' = e" "opened' = opened"
  | (opened) f callee args t props i t' where
      "expr_kind e = EFunctionCall callee args t props" "expr_kind callee = EFuncRef i t'" "f \<in> set funcs" "func_name f = i"
      "i \<notin> set opened" "e' = TcExpr (ECodeBlock (inlined_block f args)) (expr_debug_info e)" "opened' = opened @ [i]"
proof (cases "\<exists>callee args t props i t' f. expr_kind e = EFunctionCall callee args t props \<and> expr_kind callee = EFuncRef i t'
    \<and> find (\<lambda>f. func_name f = i) funcs = Some f")
  case True
  then obtain callee args t props i t' f where
    e: "expr_kind e = EFunctionCall callee args t props" "expr_kind callee = EFuncRef i t'" "find (\<lambda>f. func_name f = i) funcs = Some f"
    by blast
  then have f: "f \<in> set funcs" "func_name f = i" by (auto simp: find_Some_iff)
  from assms e have "e' = e \<and> opened' = opened \<or> i \<notin> set opened \<and> opened' = opened @ [i]
      \<and> e' = TcExpr (ECodeBlock (inlined_block f args)) (expr_debug_info e)"
    by (simp add: inline_call_def Let_def f split: if_splits)
  with e f kept opened show thesis by blast
next
  case False
  with assms have "e' = e" "opened' = opened"
    by (auto simp: inline_call_def split: tc_expr_kind.splits option.splits)
  then show thesis by (rule kept)
qed

lemma inline_call_measure:
  assumes "inline_call funcs heuristic mode opened e = (e', opened', below)"
  shows "unopened funcs opened' < unopened funcs opened \<or> unopened funcs opened' = unopened funcs opened \<and> e' = e"
  using assms
proof (cases rule: inline_call_cases)
  case (opened f callee args t props i t')
  then have "func_name ` set funcs - set opened' \<subset> func_name ` set funcs - set opened" by auto
  then show ?thesis by (simp add: unopened_def psubset_card_mono)
qed simp

function inline_stat :: "tc_func list \<Rightarrow> inlining_heuristic \<Rightarrow> inlining_mode \<Rightarrow> string_id list \<Rightarrow> tc_statement \<Rightarrow> tc_statement"
  and inline_expr :: "tc_func list \<Rightarrow> inlining_heuristic \<Rightarrow> inlining_mode \<Rightarrow> string_id list \<Rightarrow> tc_expr \<Rightarrow> tc_expr" where
  "inline_stat funcs heuristic mode opened (TcStatement k di) =
     (let mode' = inline_mode (attributes di)
      in TcStatement (map_stat_children (inline_stat funcs heuristic mode' opened) (inline_expr funcs heuristic mode' opened) k) di)"
| "inline_expr funcs heuristic mode opened e =
     (case inline_call funcs heuristic mode opened e of
        (e', opened', below) \<Rightarrow>
          if below
          then TcExpr (map_expr_children (inline_stat funcs heuristic mode opened') (inline_expr funcs heuristic mode opened')
                 (expr_kind e')) (expr_debug_info e')
          else e')"
  by pat_completeness auto
termination
proof (relation "inv_image (less_than <*lex*> less_than) (\<lambda>x. case x of
    Inl (funcs, heuristic, mode, opened, s) \<Rightarrow> (unopened funcs opened, node_size (NStatement s))
  | Inr (funcs, heuristic, mode, opened, e) \<Rightarrow> (unopened funcs opened, node_size (NExpression e)))", goal_cases)
  case (4 funcs heuristic mode opened e)
  then show ?case by (auto dest!: part_size inline_call_measure [OF sym] intro: less_trans expr_kind_size)
next
  case (5 funcs heuristic mode opened e)
  then show ?case by (auto dest!: part_size inline_call_measure [OF sym] intro: less_trans expr_kind_size)
qed (auto dest!: part_size)

definition func_inline :: "tc_func list \<Rightarrow> inlining_heuristic \<Rightarrow> tc_func \<Rightarrow> tc_func" where
  "func_inline funcs heuristic f = f\<lparr>func_code := map (inline_stat funcs heuristic AutoInline []) (func_code f)\<rparr>"

text \<open>All functions of a module; the code that is inserted is that of the functions before inlining.\<close>

definition module_inline :: "inlining_heuristic \<Rightarrow> (string_id \<times> tc_func) list \<Rightarrow> (string_id \<times> tc_func) list" where
  "module_inline heuristic checked = map (\<lambda>(i, f). (i, func_inline (map snd checked) heuristic f)) checked"

end
