(* ===== verification/Codegen_Wf.thy ===== *)
theory Codegen_Wf
  imports Codegen Linker "HOL-Library.Sublist"
begin

text \<open>
  What the code generator guarantees of its output, independent of what the code computes: labels are defined at most
  once and every label that is referred to is defined or names a function, slots of locals stay below the size of the
  frame, indices of tuples and globals are in range.  These are the conditions under which the passes of
  the linker succeed.
\<close>

section \<open>Definitions\<close>

subsection \<open>Well-formed code\<close>

text \<open>The immediate of an instruction is an index below a bound.\<close>

definition index_below :: "nat \<Rightarrow> opcode instruction \<Rightarrow> bool" where
  "index_below b i \<longleftrightarrow> (case immediate i of Some (IntV k) \<Rightarrow> k < b | _ \<Rightarrow> False)"

definition insn_labels :: "'op instruction \<Rightarrow> label set" where
  "insn_labels i = (case immediate i of Some v \<Rightarrow> set (value_labels v) | None \<Rightarrow> {})"

text \<open>Conditions on one instruction, given the labels it may refer to, the number of globals and the number of locals.\<close>

definition wf_insn :: "label set \<Rightarrow> nat \<Rightarrow> nat \<Rightarrow> opcode instruction \<Rightarrow> bool" where
  "wf_insn ls gs b i \<longleftrightarrow> insn_labels i \<subseteq> ls \<and>
     (case opcode i of
        GetLocal \<Rightarrow> index_below b i
      | SetLocal \<Rightarrow> index_below b i
      | TupleGet n \<Rightarrow> index_below n i
      | TupleSet n \<Rightarrow> index_below n i
      | GetGlobalVar k \<Rightarrow> k < gs
      | SetGlobalVar k \<Rightarrow> k < gs
      | MakeFrame _ _ _ \<Rightarrow> False
      | PushExternal _ \<Rightarrow> False
      | ArrayGet \<Rightarrow> False
      | Len \<Rightarrow> False
      | _ \<Rightarrow> True)"

text \<open>The parameters of a module: the labels of functions that may be referred to, the number of globals, the labels of
  imported functions and the table of strings.\<close>

record cg_module =
  known :: "label set"
  globals_count :: nat
  md_imports :: "string_id \<rightharpoonup> label"
  names :: string_table

definition func_label :: "cg_module \<Rightarrow> string_id \<Rightarrow> label" where
  "func_label md name = (case md_imports md name of Some l \<Rightarrow> l | None \<Rightarrow> Func name)"

definition builtin_known :: "cg_module \<Rightarrow> string \<Rightarrow> bool" where
  "builtin_known md name \<longleftrightarrow>
     (case string_table_get_if_exists (names md) name of Some i \<Rightarrow> func_label md i \<in> known md | None \<Rightarrow> False)"

text \<open>Code given verbatim neither defines nor uses labels and has no frames.\<close>

definition wf_asm :: "cg_module \<Rightarrow> opcode instruction list \<Rightarrow> bool" where
  "wf_asm md is \<longleftrightarrow> (\<forall>i \<in> set is. wf_insn {} (globals_count md) 0 i \<and> instruction_get_label i = None)"

subsection \<open>Well-formed syntax\<close>

text \<open>The invariants of the tree that type checking establishes: indices into tuples, structs and globals are in range.\<close>

primrec wf_expr :: "cg_module \<Rightarrow> tc_expr \<Rightarrow> bool"
  and wf_kind :: "cg_module \<Rightarrow> tc_expr_kind \<Rightarrow> bool"
  and wf_statement :: "cg_module \<Rightarrow> tc_statement \<Rightarrow> bool"
  and wf_statement_kind :: "cg_module \<Rightarrow> tc_statement_kind \<Rightarrow> bool"
  and wf_block :: "cg_module \<Rightarrow> tc_code_block \<Rightarrow> bool" where
  "wf_expr md (TcExpr k di) \<longleftrightarrow> wf_kind md k"
| "wf_kind md ENewBuffer \<longleftrightarrow> True"
| "wf_kind md EError \<longleftrightarrow> True"
| "wf_kind md EGetGas \<longleftrightarrow> True"
| "wf_kind md (ESetGas e) \<longleftrightarrow> wf_expr md e"
| "wf_kind md (EUnaryOp op e t) \<longleftrightarrow> wf_expr md e"
| "wf_kind md (EVariant e) \<longleftrightarrow> wf_expr md e"
| "wf_kind md (EBinary op e1 e2 t) \<longleftrightarrow> wf_expr md e1 \<and> wf_expr md e2"
| "wf_kind md (ETrinary op e1 e2 e3 t) \<longleftrightarrow> wf_expr md e1 \<and> wf_expr md e2 \<and> wf_expr md e3"
| "wf_kind md (EShortcutOr e1 e2) \<longleftrightarrow> wf_expr md e1 \<and> wf_expr md e2"
| "wf_kind md (EShortcutAnd e1 e2) \<longleftrightarrow> wf_expr md e1 \<and> wf_expr md e2"
| "wf_kind md (ELocalVariableRef name t) \<longleftrightarrow> True"
| "wf_kind md (EGlobalVariableRef idx t) \<longleftrightarrow> idx < globals_count md"
| "wf_kind md (EFuncRef name t) \<longleftrightarrow> func_label md name \<in> known md"
| "wf_kind md (ETupleRef e idx t) \<longleftrightarrow>
     wf_expr md e \<and> (case expr_get_type e of TTuple ts \<Rightarrow> idx < length ts | _ \<Rightarrow> False)"
| "wf_kind md (EDotRef e slot sz t) \<longleftrightarrow> wf_expr md e \<and> slot < sz"
| "wf_kind md (EConst v t) \<longleftrightarrow> value_labels v = []"
| "wf_kind md (EFunctionCall f args t props) \<longleftrightarrow> wf_expr md f \<and> list_all id (map (wf_expr md) args)"
| "wf_kind md (ECodeBlock b) \<longleftrightarrow> wf_block md b"
| "wf_kind md (EStructInitializer inits t) \<longleftrightarrow>
     list_all id (map init_value (map (map_field_initializer (wf_expr md)) inits))"
| "wf_kind md (ETuple es t) \<longleftrightarrow> list_all id (map (wf_expr md) es)"
| "wf_kind md (EArrayRef e1 e2 t) \<longleftrightarrow> wf_expr md e1 \<and> wf_expr md e2 \<and> builtin_known md ''builtin_arrayGet''"
| "wf_kind md (EFixedArrayRef e1 e2 sz t) \<longleftrightarrow> wf_expr md e1 \<and> wf_expr md e2"
| "wf_kind md (EMapRef e1 e2 t) \<longleftrightarrow> wf_expr md e1 \<and> wf_expr md e2 \<and> builtin_known md ''builtin_kvsGet''"
| "wf_kind md (ENewArray e base t) \<longleftrightarrow> wf_expr md e \<and> builtin_known md ''builtin_arrayNew''"
| "wf_kind md (ENewFixedArray sz oe t) \<longleftrightarrow> (case map_option (wf_expr md) oe of Some b \<Rightarrow> b | None \<Rightarrow> True)"
| "wf_kind md (ENewMap t) \<longleftrightarrow> builtin_known md ''builtin_kvsNew''"
| "wf_kind md (EArrayMod e1 e2 e3 t) \<longleftrightarrow>
     wf_expr md e1 \<and> wf_expr md e2 \<and> wf_expr md e3 \<and> builtin_known md ''builtin_arraySet''"
| "wf_kind md (EFixedArrayMod e1 e2 e3 sz t) \<longleftrightarrow> wf_expr md e1 \<and> wf_expr md e2 \<and> wf_expr md e3"
| "wf_kind md (EMapMod e1 e2 e3 t) \<longleftrightarrow>
     wf_expr md e1 \<and> wf_expr md e2 \<and> wf_expr md e3 \<and> builtin_known md ''builtin_kvsSet''"
| "wf_kind md (EStructMod e1 idx e2 t) \<longleftrightarrow>
     wf_expr md e1 \<and> wf_expr md e2 \<and> (case t of TStruct v \<Rightarrow> idx < length v | _ \<Rightarrow> False)"
| "wf_kind md (ECast e t) \<longleftrightarrow> wf_expr md e"
| "wf_kind md (EAsm t insns args) \<longleftrightarrow> wf_asm md insns \<and> list_all id (map (wf_expr md) args)"
| "wf_kind md (ETry e t) \<longleftrightarrow> wf_expr md e"
| "wf_kind md (EIf c b ob t) \<longleftrightarrow>
     wf_expr md c \<and> wf_block md b \<and> (case map_option (wf_block md) ob of Some b \<Rightarrow> b | None \<Rightarrow> True)"
| "wf_kind md (EIfLet name e b ob t) \<longleftrightarrow>
     wf_expr md e \<and> wf_block md b \<and> (case map_option (wf_block md) ob of Some b \<Rightarrow> b | None \<Rightarrow> True)"
| "wf_kind md (ELoop stats) \<longleftrightarrow> list_all id (map (wf_statement md) stats)"
| "wf_statement md (TcStatement k di) \<longleftrightarrow> wf_statement_kind md k"
| "wf_statement_kind md SNoop \<longleftrightarrow> True"
| "wf_statement_kind md SReturnVoid \<longleftrightarrow> True"
| "wf_statement_kind md (SReturn e) \<longleftrightarrow> wf_expr md e"
| "wf_statement_kind md (SBreak oe sc) \<longleftrightarrow> (case map_option (wf_expr md) oe of Some b \<Rightarrow> b | None \<Rightarrow> True)"
| "wf_statement_kind md (SExpression e) \<longleftrightarrow> wf_expr md e"
| "wf_statement_kind md (SLet pat e) \<longleftrightarrow> wf_expr md e"
| "wf_statement_kind md (SAssignLocal name e) \<longleftrightarrow> wf_expr md e"
| "wf_statement_kind md (SAssignGlobal idx e) \<longleftrightarrow> wf_expr md e \<and> idx < globals_count md"
| "wf_statement_kind md (SWhile c stats) \<longleftrightarrow> wf_expr md c \<and> list_all id (map (wf_statement md) stats)"
| "wf_statement_kind md (SAsm insns args) \<longleftrightarrow> wf_asm md insns \<and> list_all id (map (wf_expr md) args)"
| "wf_statement_kind md (SDebugPrint e) \<longleftrightarrow> wf_expr md e"
| "wf_statement_kind md (SAssert e) \<longleftrightarrow> wf_expr md e \<and> builtin_known md ''builtin_assert''"
| "wf_block md (TcCodeBlock body r sc) \<longleftrightarrow>
     list_all id (map (wf_statement md) body) \<and> (case map_option (wf_expr md) r of Some b \<Rightarrow> b | None \<Rightarrow> True)"

section \<open>The invariant of generation\<close>

definition next_number :: "cg_state \<Rightarrow> nat" where
  "next_number s = next_label (cg_label_gen s)"

definition scope_labels :: "cg_state \<Rightarrow> label set" where
  "scope_labels s = (\<lambda>sc. fst (snd sc)) ` set (cg_scopes s)"

text \<open>
  The ghost state: how the function starts (the first number that belongs to it, its name, its first instructions), the
  labels that have been made but not yet placed, labels known to be placed, and a bound on the slots of locals.
\<close>

record cg_start =
  first_number :: nat
  start_name :: string_id
  start_code :: "opcode instruction list"

text \<open>Numbers of labels of a function.\<close>

definition numbered :: "nat \<Rightarrow> nat \<Rightarrow> label set" where
  "numbered lo hi = Anon ` {lo..<hi}"

definition cg_inv :: "cg_module \<Rightarrow> cg_start \<Rightarrow> label set \<Rightarrow> label set \<Rightarrow> nat \<Rightarrow> cg_state \<Rightarrow> bool" where
  "cg_inv md lo pending placed b s \<longleftrightarrow>
     distinct (defined_labels (cg_code s))
     \<and> set (defined_labels (cg_code s)) \<inter> pending = {}
     \<and> set (defined_labels (cg_code s)) \<subseteq> {Func (start_name lo)} \<union> numbered (first_number lo) (next_number s)
     \<and> pending \<subseteq> numbered (first_number lo) (next_number s)
     \<and> first_number lo \<le> next_number s
     \<and> prefix (start_code lo) (cg_code s)
     \<and> placed \<subseteq> set (defined_labels (cg_code s))
     \<and> scope_labels s \<subseteq> set (defined_labels (cg_code s)) \<union> pending
     \<and> (\<forall>i \<in> set (cg_code s).
           wf_insn (known md \<union> set (defined_labels (cg_code s)) \<union> pending) (globals_count md) b i)"

text \<open>One instruction more.\<close>

definition put :: "opcode instruction \<Rightarrow> cg_state \<Rightarrow> cg_state" where
  "put i s = s\<lparr>cg_code := cg_code s @ [i]\<rparr>"

lemma put_fields [simp]:
  "cg_code (put i s) = cg_code s @ [i]" "cg_label_gen (put i s) = cg_label_gen s" "cg_scopes (put i s) = cg_scopes s"
  "next_number (put i s) = next_number s" "scope_labels (put i s) = scope_labels s"
  by (simp_all add: put_def next_number_def scope_labels_def)

lemma emit_put: "emit cs s = Done () (fold put cs s)"
proof (induction cs arbitrary: s)
  case (Cons i cs)
  from Cons [of "put i s"] show ?case by (simp add: emit_def modify_c_def put_def)
qed (simp add: emit_def modify_c_def)

lemma finish_Done [simp]: "finish cs r s = Done a s' \<longleftrightarrow> a = r \<and> s' = fold put cs s"
  by (auto simp: finish_def then_c_def bind_c_def emit_put return_c_def)

lemma defined_labels_snoc:
  "defined_labels (cs @ [i]) = defined_labels cs @ (case instruction_get_label i of Some l \<Rightarrow> [l] | None \<Rightarrow> [])"
  by (induction cs) (auto split: option.splits)

lemma wf_insn_mono: "wf_insn ls gs b i \<Longrightarrow> ls \<subseteq> ls' \<Longrightarrow> b \<le> b' \<Longrightarrow> wf_insn ls' gs b' i"
  by (auto simp: wf_insn_def index_below_def split: opcode.splits option.splits val.splits)

lemma cg_inv_put:
  assumes "cg_inv md lo P K b s" "instruction_get_label i = None" "wf_insn (known md \<union> K \<union> P) (globals_count md) b i"
  shows "cg_inv md lo P K b (put i s)"
  using assms by (auto simp: cg_inv_def defined_labels_snoc intro: wf_insn_mono)

lemma cg_inv_place:
  assumes "cg_inv md lo (insert l P) K b s" "l \<notin> P"
  shows "cg_inv md lo P K b (put (label_insn l di) s)"
proof -
  have g: "instruction_get_label (label_insn l di) = Some l"
    by (simp add: instruction_get_label_def instruction_from_opcode_def)
  have "wf_insn ls gs b (label_insn l di)" for ls gs
    by (simp add: wf_insn_def insn_labels_def instruction_from_opcode_def)
  with assms g show ?thesis
    unfolding cg_inv_def by (auto simp: defined_labels_snoc elim!: wf_insn_mono)
qed

lemma cg_inv_fresh:
  assumes "cg_inv md lo P K b s" "fresh_label s = Done l s'"
  shows "cg_inv md lo (insert l P) K b s'" "l \<notin> P"
proof -
  have eqs: "l = Anon (next_number s)" "next_number s' = next_number s + 1" "cg_code s' = cg_code s" "scope_labels s' = scope_labels s"
    using assms(2)
    by (auto simp: fresh_label_def label_generator_next_def next_number_def scope_labels_def)
  have "Anon (next_number s) \<notin> numbered (first_number lo) (next_number s)"
    "first_number lo \<le> next_number s \<Longrightarrow> Anon (next_number s) \<in> numbered (first_number lo) (next_number s + 1)"
    "numbered (first_number lo) (next_number s) \<subseteq> numbered (first_number lo) (next_number s + 1)"
    by (auto simp: numbered_def)
  with assms(1) eqs show "cg_inv md lo (insert l P) K b s'" "l \<notin> P"
    unfolding cg_inv_def by (auto elim!: wf_insn_mono)
qed

declare One_nat_def [simp del]

lemma wf_insn_simps [simp]:
  "wf_insn ls gs b (Instruction (AVM op) None di)"
  "wf_insn ls gs b (Instruction (AVM op) (Some v) di) \<longleftrightarrow> set (value_labels v) \<subseteq> ls"
  "wf_insn ls gs b (Instruction GetLocal (Some (IntV k)) di) \<longleftrightarrow> k < b"
  "wf_insn ls gs b (Instruction SetLocal (Some (IntV k)) di) \<longleftrightarrow> k < b"
  "wf_insn ls gs b (Instruction (TupleGet n) (Some (IntV k)) di) \<longleftrightarrow> k < n"
  "wf_insn ls gs b (Instruction (TupleSet n) (Some (IntV k)) di) \<longleftrightarrow> k < n"
  "wf_insn ls gs b (Instruction (GetGlobalVar g) None di) \<longleftrightarrow> g < gs"
  "wf_insn ls gs b (Instruction (SetGlobalVar g) None di) \<longleftrightarrow> g < gs"
  "wf_insn ls gs b (Instruction Return None di)" "wf_insn ls gs b (Instruction UnaryMinus None di)"
  "wf_insn ls gs b (Instruction LogicalAnd None di)" "wf_insn ls gs b (Instruction LogicalOr None di)"
  "wf_insn ls gs b (Instruction (UncheckedFixedArrayGet n) None di)"
  by (simp_all add: wf_insn_def insn_labels_def index_below_def)

lemma get_label_simps [simp]:
  "instruction_get_label (Instruction opc imm di) = (case opc of LabelOp l \<Rightarrow> Some l | _ \<Rightarrow> None)"
  by (simp add: instruction_get_label_def)

lemmas cg_insn_defs = instruction_from_opcode_def instruction_from_opcode_imm_def uint256_from_usize_def uint256_from_u64_def

lemma cg_inv_place':
  assumes "cg_inv md lo (insert l P) K b s" "l \<notin> P"
  shows "cg_inv md lo P K b (put (Instruction (LabelOp l) None di) s)"
  using cg_inv_place [OF assms, of di] by (simp add: cg_insn_defs)

text \<open>Generators of expressions and of statements that keep the invariant, for a bound that is at least their result.\<close>

definition cg_env_ok :: "cg_module \<Rightarrow> cg_env \<Rightarrow> bool" where
  "cg_env_ok md env \<longleftrightarrow>
     (\<forall>x \<in> ran (locals env). x < num_locals env) \<and> (\<forall>x \<in> ran (global_var_map env). x < globals_count md)
     \<and> import_func_map env = md_imports md \<and> strings env = names md"

definition keeps :: "cg_module \<Rightarrow> expr_gen \<Rightarrow> bool" where
  "keeps md e \<longleftrightarrow>
     (\<forall>env s n s'. cg_env_ok md env \<longrightarrow> e env s = Done n s' \<longrightarrow>
        num_locals env \<le> n \<and> (\<forall>lo P K b. n \<le> b \<longrightarrow> cg_inv md lo P K b s \<longrightarrow> cg_inv md lo P K b s'))"

definition keeps_stat :: "cg_module \<Rightarrow> stat_gen \<Rightarrow> bool" where
  "keeps_stat md g \<longleftrightarrow>
     (\<forall>env s n bs s'. cg_env_ok md env \<longrightarrow> g env s = Done (n, bs) s' \<longrightarrow>
        (\<forall>x \<in> ran bs. x < n)
        \<and> (\<forall>lo P K b. n \<le> b \<longrightarrow> num_locals env \<le> b \<longrightarrow> cg_inv md lo P K b s \<longrightarrow> cg_inv md lo P K b s'))"

lemma keepsI:
  assumes "\<And>env s n s'. cg_env_ok md env \<Longrightarrow> e env s = Done n s' \<Longrightarrow> num_locals env \<le> n"
    and "\<And>env s n s' lo P K b. cg_env_ok md env \<Longrightarrow> e env s = Done n s' \<Longrightarrow> n \<le> b \<Longrightarrow> cg_inv md lo P K b s \<Longrightarrow>
      cg_inv md lo P K b s'"
  shows "keeps md e"
  using assms by (auto simp: keeps_def)

lemma keeps_le: "keeps md e \<Longrightarrow> e env s = Done n s' \<Longrightarrow> cg_env_ok md env \<Longrightarrow> num_locals env \<le> n"
  by (auto simp: keeps_def)

lemma keeps_inv:
  "keeps md e \<Longrightarrow> e env s = Done n s' \<Longrightarrow> cg_env_ok md env \<Longrightarrow> n \<le> b \<Longrightarrow> cg_inv md lo P K b s \<Longrightarrow> cg_inv md lo P K b s'"
  by (auto simp: keeps_def)

lemma cg_env_ok_more_pushed [simp]: "cg_env_ok md (more_pushed k env) = cg_env_ok md env" "num_locals (more_pushed k env) = num_locals env"
  by (simp_all add: cg_env_ok_def more_pushed_def)

lemmas cg_Done = bind_c_Done_iff then_c_Done_iff emit_put

lemma cg_inv_loc: "locals env name = Some k \<Longrightarrow> cg_env_ok md env \<Longrightarrow> num_locals env \<le> b \<Longrightarrow> k < b"
  by (force simp: cg_env_ok_def dest: ranI)

text \<open>Code that defines no labels.\<close>

definition plain_code :: "cg_module \<Rightarrow> label set \<Rightarrow> nat \<Rightarrow> opcode instruction list \<Rightarrow> bool" where
  "plain_code md ls b cs \<longleftrightarrow>
     (\<forall>i \<in> set cs. instruction_get_label i = None \<and> wf_insn (known md \<union> ls) (globals_count md) b i)"

lemma plain_code_simps [simp]:
  "plain_code md ls b []"
  "plain_code md ls b (i # cs) \<longleftrightarrow>
     instruction_get_label i = None \<and> wf_insn (known md \<union> ls) (globals_count md) b i \<and> plain_code md ls b cs"
  "plain_code md ls b (cs @ cs') \<longleftrightarrow> plain_code md ls b cs \<and> plain_code md ls b cs'"
  "plain_code md ls b (replicate n i) \<longleftrightarrow> n = 0 \<or> plain_code md ls b [i]"
  by (auto simp: plain_code_def)

lemma plain_code_mono: "plain_code md ls b cs \<Longrightarrow> ls \<subseteq> ls' \<Longrightarrow> b \<le> b' \<Longrightarrow> plain_code md ls' b' cs"
  unfolding plain_code_def by (meson sup.mono subset_refl wf_insn_mono)

lemma cg_inv_puts:
  assumes "plain_code md (K \<union> P) b cs" "cg_inv md lo P K b s"
  shows "cg_inv md lo P K b (fold put cs s)"
  using assms
proof (induction cs arbitrary: s)
  case (Cons i cs)
  from Cons.prems have "cg_inv md lo P K b (put i s)" by (intro cg_inv_put) (auto simp: Un_assoc)
  with Cons show ?case by simp
qed simp

lemma cg_inv_puts': "plain_code md {} 0 cs \<Longrightarrow> cg_inv md lo P K b s \<Longrightarrow> cg_inv md lo P K b (fold put cs s)"
  by (auto intro: cg_inv_puts plain_code_mono)

lemma keeps_leaf:
  assumes "plain_code md {} 0 cs"
  shows "keeps md (\<lambda>env. finish cs (num_locals env))"
  by (intro keepsI) (auto intro: cg_inv_puts' [OF assms])

declare get_label_simps [simp del]

lemma get_label_plain [simp]:
  "\<forall>l. opc \<noteq> LabelOp l \<Longrightarrow> instruction_get_label (Instruction opc imm di) = None"
  by (cases opc) (simp_all add: get_label_simps)

lemma keeps_leaves:
  "keeps md (cg_new_buffer di)" "keeps md (cg_error di)" "keeps md (cg_get_gas di)"
  "idx < globals_count md \<Longrightarrow> keeps md (cg_global_variable_ref idx di)"
  "value_labels v = [] \<Longrightarrow> keeps md (cg_const v di)"
  unfolding cg_new_buffer_def [abs_def] cg_error_def [abs_def] cg_get_gas_def [abs_def]
    cg_global_variable_ref_def [abs_def] cg_const_def [abs_def]
  by (rule keeps_leaf; simp add: cg_insn_defs)+

lemma keeps_local: "keeps md (cg_local_variable_ref name di)"
  by (rule keepsI)
     (auto simp: cg_local_variable_ref_def cg_insn_defs codegen_fail_def fail_c_def cg_inv_loc intro!: cg_inv_put
       split: option.splits)

lemma keeps_func_ref: "func_label md name \<in> known md \<Longrightarrow> keeps md (cg_func_ref name di)"
  by (rule keepsI)
     (auto simp: cg_func_ref_def Let_def cg_insn_defs cg_env_ok_def func_label_def intro!: cg_inv_put split: option.splits)

subsection \<open>Code after its operands\<close>

lemma keeps_after1:
  assumes "keeps md e" "plain_code md {} 0 cs"
  shows "keeps md (\<lambda>env. bind_c (e env) (\<lambda>n. finish cs (max (num_locals env) n)))"
  by (rule keepsI) (auto simp: cg_Done intro!: cg_inv_puts' [OF assms(2)] intro: keeps_inv [OF assms(1)])

lemma keeps_after2:
  assumes "keeps md e1" "keeps md e2" "plain_code md {} 0 cs"
  shows "keeps md (\<lambda>env. bind_c (e1 env) (\<lambda>n1. bind_c (e2 (more_pushed 1 env)) (\<lambda>n2.
    finish cs (max (num_locals env) (max n1 n2)))))"
  by (rule keepsI; clarsimp simp: cg_Done)
     (rule cg_inv_puts' [OF assms(3)], (erule assms(1,2) [THEN keeps_inv] | simp)+)

lemma keeps_after3:
  assumes "keeps md e1" "keeps md e2" "keeps md e3" "plain_code md {} 0 cs"
  shows "keeps md (\<lambda>env. bind_c (e1 env) (\<lambda>n1. bind_c (e2 (more_pushed 1 env)) (\<lambda>n2.
    bind_c (e3 (more_pushed 2 env)) (\<lambda>n3. finish cs (max (num_locals env) (max n3 (max n2 n1)))))))"
  by (rule keepsI; clarsimp simp: cg_Done)
     (rule cg_inv_puts' [OF assms(4)], (erule assms(1,2,3) [THEN keeps_inv] | simp)+)

lemma keeps_set_gas: "keeps md e \<Longrightarrow> keeps md (cg_set_gas e di)"
  unfolding cg_set_gas_def [abs_def] by (rule keeps_after1) (simp_all add: cg_insn_defs)

lemma keeps_variant: "keeps md e \<Longrightarrow> keeps md (cg_variant e di)"
  unfolding cg_variant_def [abs_def] by (rule keeps_after1) (simp_all add: cg_insn_defs value_new_tuple_def value_none_def)

lemma keeps_unary: "keeps md e \<Longrightarrow> keeps md (cg_unary_op op e di)"
proof (cases "unary_opcode op")
  case (Some r)
  assume "keeps md e"
  moreover obtain mo imm where "r = (mo, imm)" by fastforce
  moreover have "plain_code md {} 0 (case mo of Some opc \<Rightarrow> [Instruction opc imm di] | None \<Rightarrow> [])"
    using Some \<open>r = (mo, imm)\<close> by (cases op) (auto simp: unary_opcode_def uint256_zero_def)
  ultimately show ?thesis
    unfolding cg_unary_op_def [abs_def] Some by (simp add: keeps_after1)
qed (auto simp: keeps_def cg_unary_op_def cg_Done codegen_fail_def fail_c_def)

lemma wf_binary_opcode [simp]:
  "wf_insn ls gs b (Instruction (binary_opcode op) None di)" "binary_opcode op \<noteq> LabelOp l"
  by (cases op; simp)+

lemma keeps_binary: "keeps md e1 \<Longrightarrow> keeps md e2 \<Longrightarrow> keeps md (cg_binary op e1 e2 di)"
  unfolding cg_binary_def [abs_def] by (rule keeps_after2) (simp_all add: cg_insn_defs)

lemma keeps_trinary: "keeps md e1 \<Longrightarrow> keeps md e2 \<Longrightarrow> keeps md e3 \<Longrightarrow> keeps md (cg_trinary op e1 e2 e3 di)"
  unfolding cg_trinary_def [abs_def]
  by (rule keeps_after3) (simp_all add: cg_insn_defs trinary_opcode_def split: trinary_op.split)

lemma keeps_dot_ref: "keeps md e \<Longrightarrow> slot < sz \<Longrightarrow> keeps md (cg_dot_ref e slot sz di)"
  unfolding cg_dot_ref_def [abs_def] by (rule keeps_after1) (simp_all add: cg_insn_defs)

lemma keeps_tuple_ref:
  "keeps md e \<Longrightarrow> (case t of TTuple ts \<Rightarrow> idx < length ts | _ \<Rightarrow> False) \<Longrightarrow> keeps md (cg_tuple_ref t e idx di)"
  unfolding cg_tuple_ref_def [abs_def]
  by (cases t) (auto intro!: keeps_after1 simp: cg_insn_defs)

lemma keeps_struct_mod:
  "keeps md e1 \<Longrightarrow> keeps md e2 \<Longrightarrow> (case t of TStruct v \<Rightarrow> idx < length v | _ \<Rightarrow> False) \<Longrightarrow>
   keeps md (cg_struct_mod e1 idx e2 t di)"
  unfolding cg_struct_mod_def [abs_def]
  by (cases t) (auto intro!: keeps_after2 simp: cg_insn_defs)

subsection \<open>Arguments\<close>

lemma cg_pushes_inv:
  assumes "cg_pushes es env s = Done n s'" "\<And>e. e \<in> set es \<Longrightarrow> keeps md e" "cg_env_ok md env" "n \<le> b" "cg_inv md lo P K b s"
  shows "cg_inv md lo P K b s'"
  using assms
proof (induction es env arbitrary: s n rule: cg_pushes.induct)
  case (2 e es env)
  from "2.prems"(1) obtain n1 s1 n2 where run: "e env s = Done n1 s1"
    "cg_pushes es (more_pushed 1 env) s1 = Done n2 s'" "n = max n1 n2"
    by (auto simp: cg_Done return_c_def)
  have "cg_inv md lo P K b s1" by (rule keeps_inv [where e = e and env = env and s = s]) (use 2 run in auto)
  then show ?case by (intro "2.IH" [OF run(2)]) (use 2 run in auto)
qed (simp add: return_c_def)

lemma keeps_pushes:
  assumes "\<And>e. e \<in> set es \<Longrightarrow> keeps md e" "plain_code md {} 0 cs"
  shows "keeps md (\<lambda>env. bind_c (cg_pushes (rev es) env) (\<lambda>n. finish cs (max (num_locals env) n)))"
proof (rule keepsI; clarsimp simp: cg_Done)
  fix env s lo P K b n s'
  assume "cg_env_ok md env" "cg_inv md lo P K b s" "cg_pushes (rev es) env s = Done n s'" "num_locals env \<le> b" "n \<le> b"
  then show "cg_inv md lo P K b (fold put cs s')"
    by (intro cg_inv_puts' [OF assms(2)], elim cg_pushes_inv) (auto intro: assms(1))
qed

lemma keeps_struct_initializer: "(\<And>e. e \<in> set es \<Longrightarrow> keeps md e) \<Longrightarrow> keeps md (cg_struct_initializer es di)"
proof -
  have "value_labels (make_empty t) = []" for t
    by (induction t) (auto simp: value_none_def value_new_tuple_def)
  then show "(\<And>e. e \<in> set es \<Longrightarrow> keeps md e) \<Longrightarrow> ?thesis"
    unfolding cg_struct_initializer_def [abs_def]
    by (intro keeps_pushes) (auto simp: cg_insn_defs plain_code_def)
qed

lemma keeps_tuple: "(\<And>e. e \<in> set es \<Longrightarrow> keeps md e) \<Longrightarrow> keeps md (cg_tuple es di)"
  unfolding cg_tuple_def [abs_def]
  by (intro keeps_pushes) (auto simp: cg_insn_defs plain_code_def value_new_tuple_def value_none_def)

lemma keeps_asm: "(\<And>e. e \<in> set es \<Longrightarrow> keeps md e) \<Longrightarrow> wf_asm md insns \<Longrightarrow> keeps md (cg_asm insns es)"
  unfolding cg_asm_def [abs_def]
  by (intro keeps_pushes) (auto simp: plain_code_def wf_asm_def intro: wf_insn_mono)

subsection \<open>Code with labels\<close>

lemma keeps_shortcut:
  assumes e1: "keeps md e1" and e2: "keeps md e2" and pre: "plain_code md {} 0 pre"
  shows "keeps md (\<lambda>env.
     bind_c (e1 env) (\<lambda>left_locals.
     bind_c fresh_label (\<lambda>lab.
     then_c (emit (pre @ [insn_imm Cjump (LabelV lab) di, insn Pop di]))
     (bind_c (e2 env) (\<lambda>right_locals.
       finish [label_insn lab di] (max (num_locals env) (max left_locals right_locals)))))))"
proof (rule keepsI; clarsimp simp: cg_Done)
  fix env s lo P K b n1 s1 l s2 n2 s3
  assume env: "cg_env_ok md env" and inv: "cg_inv md lo P K b s" and b: "num_locals env \<le> b" "n1 \<le> b" "n2 \<le> b"
    and run: "e1 env s = Done n1 s1" "fresh_label s1 = Done l s2"
      "e2 env (put (insn Pop di) (put (insn_imm Cjump (LabelV l) di) (fold put pre s2))) = Done n2 s3"
  note f = cg_inv_fresh [OF keeps_inv [OF e1 run(1) env b(2) inv] run(2)]
  have "cg_inv md lo (insert l P) K b (put (insn Pop di) (put (insn_imm Cjump (LabelV l) di) (fold put pre s2)))"
    by (intro cg_inv_put cg_inv_puts' [OF pre f(1)]) (simp_all add: cg_insn_defs)
  from cg_inv_place [OF keeps_inv [OF e2 run(3) env b(3) this] f(2)]
  show "cg_inv md lo P K b (put (label_insn l di) s3)" .
qed

lemma keeps_shortcut_or: "keeps md e1 \<Longrightarrow> keeps md e2 \<Longrightarrow> keeps md (cg_shortcut_or e1 e2 di)"
  using keeps_shortcut [of md e1 e2 "[insn Dup0 di]" di] by (simp add: cg_shortcut_or_def [abs_def] cg_insn_defs)

lemma keeps_shortcut_and: "keeps md e1 \<Longrightarrow> keeps md e2 \<Longrightarrow> keeps md (cg_shortcut_and e1 e2 di)"
  using keeps_shortcut [of md e1 e2 "[insn Dup0 di, insn IsZero di]" di] by (simp add: cg_shortcut_and_def [abs_def] cg_insn_defs)

lemma keeps_function_call:
  assumes f: "keeps md f" and args: "\<And>e. e \<in> set args \<Longrightarrow> keeps md e"
  shows "keeps md (cg_function_call f args t di)"
  unfolding cg_function_call_def [abs_def]
proof (rule keepsI; clarsimp simp: cg_Done)
  fix env s lo P K b l s1 n1 s2 n2 s3
  let ?c = "if t \<noteq> TEvery then [insn_imm Noop (LabelV l) di] else []"
  assume env: "cg_env_ok md env" and inv: "cg_inv md lo P K b s" and b: "num_locals env \<le> b" "n2 \<le> b" "n1 \<le> b"
    and run: "fresh_label s = Done l s1" "cg_pushes (rev args) env s1 = Done n1 s2"
      "f (more_pushed (length args + 1) env) (fold put ?c s2) = Done n2 s3"
  note fr = cg_inv_fresh [OF inv run(1)]
  have "cg_inv md lo (insert l P) K b (fold put ?c s2)"
    by (rule cg_inv_puts, simp add: cg_insn_defs, rule cg_pushes_inv [OF run(2) _ env b(3) fr(1)]) (auto intro: args)
  with keeps_inv [OF f run(3) _ b(2)] env have "cg_inv md lo (insert l P) K b s3" by simp
  then show "cg_inv md lo P K b (put (label_insn l di) (put (insn Jump di) s3))"
    by (intro cg_inv_place fr(2) cg_inv_put) (simp_all add: cg_insn_defs)
qed

lemma keeps_builtin:
  assumes "builtin_known md name" "\<And>e. e \<in> set args \<Longrightarrow> keeps md e"
  shows "keeps md (cg_builtin_call name args t loc)"
proof -
  obtain i where i: "string_table_get_if_exists (names md) name = Some i" "func_label md i \<in> known md"
    using assms(1) by (auto simp: builtin_known_def split: option.splits)
  have "keeps md (cg_function_call (cg_func_ref i (debug_info_from loc)) args t (debug_info_from loc))"
    by (intro keeps_function_call keeps_func_ref i assms(2))
  then show ?thesis
    using i(1) by (auto simp: keeps_def cg_builtin_call_def cg_env_ok_def)
qed

lemma fixed_array_default_labels: "value_labels v = [] \<Longrightarrow> value_labels (fixed_array_default sz c v) = []"
proof (induction sz c v rule: fixed_array_default.induct)
  case (1 sz c v)
  then show ?case by (subst fixed_array_default.simps) (auto simp: value_new_tuple_def)
qed

lemma collect_default_labels:
  assumes "\<And>x v b. x \<in> set xs \<Longrightarrow> f x = Some (v, b) \<Longrightarrow> value_labels v = []" "collect_opt f xs = Some ds"
  shows "\<forall>d \<in> set ds. value_labels (fst d) = []"
  using assms(2) unfolding collect_opt_Some_iff list_all2_conv_all_nth in_set_conv_nth
  by (metis assms(1) in_set_conv_nth prod.collapse)

lemma make_value_labels:
  "make_value_2 t vs = Some (v, rest) \<Longrightarrow> \<forall>w \<in> set vs. value_labels w = [] \<Longrightarrow>
     value_labels v = [] \<and> (\<forall>w \<in> set rest. value_labels w = [])"
  "make_values_2 ts vs = Some (us, rest) \<Longrightarrow> \<forall>w \<in> set vs. value_labels w = [] \<Longrightarrow>
     (\<forall>u \<in> set us. value_labels u = []) \<and> (\<forall>w \<in> set rest. value_labels w = [])"
proof (induction t vs and ts vs arbitrary: v rest and us rest rule: make_value_2_make_values_2.induct)
  case (4 t ts vals)
  then show ?case by (fastforce split: option.splits prod.splits)
qed (auto simp: value_new_tuple_def split: list.splits)

lemma default_value_labels: "default_value kec t = Some (v, b) \<Longrightarrow> value_labels v = []"
proof (induction kec t arbitrary: v b rule: default_value.induct)
  case (8 kec tvec)
  then obtain ds where ds: "collect_opt (default_value kec) tvec = Some ds" "v = TupleV (map fst ds)"
    by (auto simp: value_new_tuple_def)
  from collect_default_labels [OF "8.IH" ds(1)] ds(2) show ?case by auto
next
  case (11 kec flds)
  then obtain ds rest where ds: "collect_opt (\<lambda>f. default_value kec (field_tipe f)) flds = Some ds"
    "make_value_2 (tuple_tree_new (length ds) False) (map fst ds) = Some (v, rest)"
    by (auto simp: value_from_field_list_def make_value_def split: option.splits)
  from make_value_labels(1) [OF ds(2)] collect_default_labels [OF "11.IH" ds(1)] show ?case by auto
qed (auto simp: value_none_def value_new_tuple_def value_new_buffer_def fixed_array_default_labels)

lemma keeps_new_array:
  assumes "builtin_known md ''builtin_arrayNew''" "keeps md e"
  shows "keeps md (cg_new_array e base t di)"
proof -
  have "value_labels d = [] \<Longrightarrow> keeps md (cg_builtin_call ''builtin_arrayNew'' [e, cg_const d (debug_info_from (location di))]
            (TFunc False [TUint, TAny] t) (location di))" for d
    using assms by (intro keeps_builtin) (auto intro: keeps_leaves)
  then show ?thesis
    unfolding keeps_def cg_new_array_def [abs_def]
    by (auto simp: panic_c_def split: option.splits dest: default_value_labels)
qed

lemma cg_bounds_check_inv:
  assumes "cg_bounds_check sz di s = Done u s'" "cg_inv md lo P K b s"
  shows "cg_inv md lo P K b s'"
proof (cases "sz = 8")
  case False
  with assms(1) obtain l s1 where run: "fresh_label s = Done l s1" "s' = fold put (bounds_check sz l di) s1"
    by (auto simp: cg_bounds_check_def cg_Done)
  note fr = cg_inv_fresh [OF assms(2) run(1)]
  show ?thesis
    unfolding run(2) bounds_check_def
    by (simp, intro cg_inv_place fr(2) cg_inv_put fr(1)) (simp_all add: cg_insn_defs)
qed (use assms in \<open>auto simp: cg_bounds_check_def return_c_def\<close>)

lemma keeps_fixed_array_ref:
  assumes "keeps md e1" "keeps md e2"
  shows "keeps md (cg_fixed_array_ref e1 e2 sz di)"
  unfolding cg_fixed_array_ref_def [abs_def]
  by (rule keepsI; clarsimp simp: cg_Done)
     (rule cg_inv_put, (erule cg_bounds_check_inv assms [THEN keeps_inv] | simp add: cg_insn_defs)+)

lemma plain_fixed_array_mod_2: "plain_code md ls b (fixed_array_mod_2 sz di)"
proof (induction sz di rule: fixed_array_mod_2.induct)
  case (1 sz di)
  then show ?case
    by (subst fixed_array_mod_2.simps) (auto simp: descend_code_def ascend_code_def cg_insn_defs)
qed

lemma keeps_fixed_array_mod:
  assumes "keeps md e1" "keeps md e2" "keeps md e3"
  shows "keeps md (cg_fixed_array_mod e1 e2 e3 sz di)"
  unfolding cg_fixed_array_mod_def [abs_def]
  by (rule keepsI; clarsimp simp: cg_Done)
     (rule cg_inv_puts' [OF plain_fixed_array_mod_2], (erule cg_bounds_check_inv assms [THEN keeps_inv] | simp)+)

lemma plain_eight_copies: "plain_code md ls b (eight_copies di)"
  by (auto simp: eight_copies_def plain_code_def cg_insn_defs value_new_tuple_def)

lemma plain_nest_copies: "plain_code md ls b (nest_copies t sz di)"
proof (induction t sz di rule: nest_copies.induct)
  case (1 t sz di)
  then show ?case by (subst nest_copies.simps) (auto simp: plain_eight_copies)
qed

lemma keeps_new_fixed_array:
  assumes "\<And>e. oe = Some e \<Longrightarrow> keeps md e"
  shows "keeps md (cg_new_fixed_array sz oe di)"
proof (cases oe)
  case None
  then show ?thesis
    unfolding cg_new_fixed_array_def [abs_def]
    by (intro keepsI) (auto simp: cg_Done cg_insn_defs value_new_tuple_def intro!: cg_inv_puts' plain_nest_copies cg_inv_put)
next
  case (Some e)
  show ?thesis
    unfolding cg_new_fixed_array_def [abs_def] Some
    by (rule keepsI; clarsimp simp: cg_Done)
       (intro cg_inv_puts' plain_nest_copies plain_eight_copies, (erule assms [OF Some, THEN keeps_inv] | simp)+)
qed

lemma keeps_try:
  assumes "keeps md e"
  shows "keeps md (cg_try e di)"
  unfolding cg_try_def [abs_def]
proof (rule keepsI; clarsimp simp: cg_Done)
  fix env :: cg_env and s lo P K b n1 s1 l s2
  let ?c = "clear_prepushed (prepushed_vals env) di"
  assume env: "cg_env_ok md env" and inv: "cg_inv md lo P K b s" and b: "num_locals env \<le> b" "n1 \<le> b"
    and run: "e env s = Done n1 s1" "fresh_label s1 = Done l s2"
  note f = cg_inv_fresh [OF keeps_inv [OF assms run(1) env b(2) inv] run(2)]
  have "plain_code md ls b' ?c" for ls b' by (auto simp: clear_prepushed_def cg_insn_defs)
  with f show "cg_inv md lo P K b
     (put (insn_imm Tget (IntV uint256_one) di) (put (label_insn l di) (put (instruction_from_opcode Return di)
       (fold put ?c (put (insn_imm Cjump (LabelV l) di) (put (insn_imm Tget (IntV uint256_zero) di) (put (insn Dup0 di) s2)))))))"
    by (intro cg_inv_put cg_inv_place cg_inv_puts') (simp_all add: cg_insn_defs)
qed

text \<open>Scopes may be entered with a label that is pending, and left at any time.\<close>

lemma cg_inv_scopes:
  assumes "cg_inv md lo P K b s" "\<forall>sc \<in> set scs. fst (snd sc) \<in> set (defined_labels (cg_code s)) \<union> P"
  shows "cg_inv md lo P K b (s\<lparr>cg_scopes := scs\<rparr>)"
proof -
  have "scope_labels (s\<lparr>cg_scopes := scs\<rparr>) \<subseteq> set (defined_labels (cg_code s)) \<union> P"
    unfolding scope_labels_def using assms(2) by (intro image_subsetI) simp
  with assms(1) show ?thesis by (simp add: cg_inv_def next_number_def)
qed

lemma cg_inv_scopesD: "cg_inv md lo P K b s \<Longrightarrow> sc \<in> set (cg_scopes s) \<Longrightarrow> fst (snd sc) \<in> set (defined_labels (cg_code s)) \<union> P"
  unfolding cg_inv_def scope_labels_def by blast

lemma cg_inv_push_scope:
  "push_scope (name, l, t) s = Done u s' \<Longrightarrow> cg_inv md lo P K b s \<Longrightarrow> l \<in> P \<Longrightarrow> cg_inv md lo P K b s'"
  by (clarsimp simp: push_scope_def modify_c_def, rule cg_inv_scopes, assumption) (auto dest: cg_inv_scopesD)

lemma cg_inv_pop_scope: "pop_scope s = Done u s' \<Longrightarrow> cg_inv md lo P K b s \<Longrightarrow> cg_inv md lo P K b s'"
  by (clarsimp simp: pop_scope_def modify_c_def, rule cg_inv_scopes, assumption)
     (blast dest: in_set_butlastD cg_inv_scopesD)

lemma keeps_statD:
  assumes "keeps_stat md g" "g env s = Done (n, bs) s'" "cg_env_ok md env"
  shows "n \<le> b \<Longrightarrow> num_locals env \<le> b \<Longrightarrow> cg_inv md lo P K b s \<Longrightarrow> cg_inv md lo P K b s'" "\<forall>x \<in> ran bs. x < n"
  using assms by (auto simp: keeps_stat_def)

text \<open>Sequences of statements do not make the number of locals smaller.\<close>

definition keeps_seq :: "cg_module \<Rightarrow> stat_gen \<Rightarrow> bool" where
  "keeps_seq md g \<longleftrightarrow>
     keeps_stat md g \<and> (\<forall>env s n bs s'. cg_env_ok md env \<longrightarrow> g env s = Done (n, bs) s' \<longrightarrow> num_locals env \<le> n)"

lemma cg_env_ok_upd:
  assumes "cg_env_ok md env" "num_locals env \<le> n" "\<forall>x \<in> ran bs. x < n"
  shows "cg_env_ok md (env\<lparr>num_locals := n, locals := locals env ++ bs\<rparr>)"
  using assms unfolding cg_env_ok_def by (fastforce simp: ran_def map_add_Some_iff)

lemma cg_statements_keeps:
  assumes "cg_statements gs bs0 env s = Done (n, bs) s'" "\<And>g. g \<in> set gs \<Longrightarrow> keeps_stat md g"
    "cg_env_ok md env" "\<forall>x \<in> ran bs0. x < num_locals env"
  shows "num_locals env \<le> n \<and> (\<forall>x \<in> ran bs. x < n)
    \<and> (\<forall>lo P K b. n \<le> b \<longrightarrow> cg_inv md lo P K b s \<longrightarrow> cg_inv md lo P K b s')"
  using assms
proof (induction gs bs0 env arbitrary: s rule: cg_statements.induct)
  case (2 g gs bs0 env)
  let ?env = "env\<lparr>locals := locals env ++ bs0\<rparr>"
  from "2.prems"(1) obtain n1 bs1 s1 where run: "g ?env s = Done (n1, bs1) s1"
    "cg_statements gs (bs0 ++ bs1) (env\<lparr>num_locals := max n1 (num_locals env)\<rparr>) s1 = Done (n, bs) s'"
    by (auto simp: cg_Done)
  have env: "cg_env_ok md ?env"
    using cg_env_ok_upd [OF "2.prems"(3) order.refl "2.prems"(4)] by simp
  note g = keeps_statD [OF "2.prems"(2) [OF list.set_intros(1)] run(1) env]
  have env': "cg_env_ok md (env\<lparr>num_locals := max n1 (num_locals env)\<rparr>)"
    using "2.prems"(3) unfolding cg_env_ok_def by (auto simp: less_max_iff_disj)
  have bs: "\<forall>x \<in> ran (bs0 ++ bs1). x < num_locals (env\<lparr>num_locals := max n1 (num_locals env)\<rparr>)"
    using "2.prems"(4) g(2) by (auto simp: ran_def map_add_Some_iff less_max_iff_disj)
  from "2.IH" [OF run(2) _ env' bs] "2.prems"(2) g(1) show ?case by auto
qed (auto simp: return_c_def)

lemma keeps_statements: "(\<And>g. g \<in> set gs \<Longrightarrow> keeps_stat md g) \<Longrightarrow> keeps_seq md (cg_statements gs Map.empty)"
proof -
  assume gs: "\<And>g. g \<in> set gs \<Longrightarrow> keeps_stat md g"
  show ?thesis
    unfolding keeps_seq_def keeps_stat_def using cg_statements_keeps [OF _ gs] by (metis empty_iff ran_empty)
qed

lemma keeps_code_block:
  assumes body: "keeps_seq md body" and ret: "\<And>e. r = Some e \<Longrightarrow> keeps md e"
  shows "keeps md (cg_code_block body r sc di)"
  unfolding cg_code_block_def [abs_def]
proof (rule keepsI)
  fix env s n s' lo P K b
  let ?name = "case sc of Some name \<Rightarrow> name | None \<Rightarrow> ''_''"
  assume env: "cg_env_ok md env" and inv: "cg_inv md lo P K b s" and nb: "n \<le> b"
    and "bind_c fresh_label (\<lambda>bottom_label.
     then_c (push_scope (?name, bottom_label, None))
     (bind_c (body env) (\<lambda>(nl, block_locals).
       case r of
         Some e \<Rightarrow>
           bind_c (e (env\<lparr>num_locals := nl, locals := locals env ++ block_locals\<rparr>)) (\<lambda>exp_locals.
           then_c (emit [label_insn bottom_label di])
           (then_c pop_scope (return_c (max (num_locals env) (max exp_locals nl)))))
       | None \<Rightarrow> finish [label_insn bottom_label di] (max (num_locals env) nl)))) s = Done n s'"
  then obtain l s1 s2 nl bs s3 where run: "fresh_label s = Done l s1" "push_scope (?name, l, None) s1 = Done () s2"
    "body env s2 = Done (nl, bs) s3"
    and rest: "(case r of
         Some e \<Rightarrow>
           bind_c (e (env\<lparr>num_locals := nl, locals := locals env ++ bs\<rparr>)) (\<lambda>exp_locals.
           then_c (emit [label_insn l di]) (then_c pop_scope (return_c (max (num_locals env) (max exp_locals nl)))))
       | None \<Rightarrow> finish [label_insn l di] (max (num_locals env) nl)) s3 = Done n s'"
    by (auto simp: cg_Done)
  note f = cg_inv_fresh [OF inv run(1)]
  have i2: "cg_inv md lo (insert l P) K b s2" by (rule cg_inv_push_scope [OF run(2) f(1)]) simp
  have nl: "num_locals env \<le> nl" using body run(3) env unfolding keeps_seq_def by blast
  note st = keeps_statD [OF conjunct1 [OF body [unfolded keeps_seq_def]] run(3) env]
  show "cg_inv md lo P K b s'"
  proof (cases r)
    case None
    with rest nb have "s' = put (label_insn l di) s3" "nl \<le> b" "num_locals env \<le> b" by auto
    with st(1) [OF _ _ i2] f(2) show ?thesis by (simp add: cg_inv_place)
  next
    case (Some e)
    with rest obtain ne s4 where e: "e (env\<lparr>num_locals := nl, locals := locals env ++ bs\<rparr>) s3 = Done ne s4"
      "pop_scope (put (label_insn l di) s4) = Done () s'" "n = max (num_locals env) (max ne nl)"
      by (auto simp: cg_Done return_c_def)
    have "cg_inv md lo (insert l P) K b s4"
      by (rule keeps_inv [OF ret [OF Some] e(1) cg_env_ok_upd [OF env nl st(2)]]) (use e(3) nb st(1) [OF _ _ i2] in auto)
    then show ?thesis by (intro cg_inv_pop_scope [OF e(2)] cg_inv_place f(2))
  qed
qed (auto simp: cg_Done return_c_def split: option.splits)

lemma keeps_option: "(\<And>e. oe = Some e \<Longrightarrow> keeps md e) \<Longrightarrow> cg_env_ok md env \<Longrightarrow>
    (case oe of Some e \<Rightarrow> e env | None \<Rightarrow> return_c 0) s = Done n s' \<Longrightarrow> n \<le> b \<Longrightarrow> cg_inv md lo P K b s \<Longrightarrow>
    cg_inv md lo P K b s'"
  by (cases oe) (auto simp: return_c_def elim: keeps_inv)

lemma keeps_if:
  assumes cond: "keeps md c" and block: "keeps md bl" and els: "\<And>e. oe = Some e \<Longrightarrow> keeps md e"
  shows "keeps md (cg_if c bl oe di)"
  unfolding cg_if_def [abs_def]
proof (rule keepsI; clarsimp simp: cg_Done)
  fix env s n1 s1
  show "cg_env_ok md env \<Longrightarrow> c env s = Done n1 s1 \<Longrightarrow> num_locals env \<le> max n1 m" for m
    using keeps_le [OF cond] by (simp add: le_max_iff_disj)
next
  fix env s lo P K b n1 s1 l1 s2 l2 s3 n2 s4 n3 s5
  let ?s4 = "put (label_insn l1 di) (fold put (if \<exists>y. oe = Some y then [insn_imm Jump (LabelV l2) di] else []) s4)"
  assume env: "cg_env_ok md env" and inv: "cg_inv md lo P K b s" and b: "n1 \<le> b" "n2 \<le> b" "n3 \<le> b"
    and run: "c env s = Done n1 s1" "fresh_label s1 = Done l1 s2" "fresh_label s2 = Done l2 s3"
      "bl env (put (insn_imm Cjump (LabelV l1) di) (put (insn IsZero di) s3)) = Done n2 s4"
      "(case oe of Some e \<Rightarrow> e env | None \<Rightarrow> return_c 0) ?s4 = Done n3 s5"
  note f1 = cg_inv_fresh [OF keeps_inv [OF cond run(1) env b(1) inv] run(2)]
  note f2 = cg_inv_fresh [OF f1(1) run(3)]
  have "cg_inv md lo (insert l2 (insert l1 P)) K b (put (insn_imm Cjump (LabelV l1) di) (put (insn IsZero di) s3))"
    by (intro cg_inv_put f2) (simp_all add: cg_insn_defs)
  from keeps_inv [OF block run(4) env b(2) this]
  have "cg_inv md lo (insert l1 (insert l2 P)) K b (fold put (if \<exists>y. oe = Some y then [insn_imm Jump (LabelV l2) di] else []) s4)"
    by (intro cg_inv_puts) (simp_all add: cg_insn_defs insert_commute)
  from cg_inv_place [OF this] f1(2) f2(2) have "cg_inv md lo (insert l2 P) K b ?s4" by auto
  from cg_inv_place [OF keeps_option [OF els env run(5) b(3) this]] f2(2)
  show "cg_inv md lo P K b (put (label_insn l2 di) s5)" by simp
qed

lemma keeps_if_let:
  assumes e: "keeps md e" and block: "keeps md bl" and els: "\<And>e. oe = Some e \<Longrightarrow> keeps md e"
  shows "keeps md (cg_if_let name e bl oe di)"
  unfolding cg_if_let_def [abs_def]
proof (rule keepsI; clarsimp simp: cg_Done)
  fix env s n1 s1
  show "cg_env_ok md env \<Longrightarrow> e env s = Done n1 s1 \<Longrightarrow> num_locals env \<le> max (max m n1) k" for m k
    using keeps_le [OF e] by (simp add: le_max_iff_disj)
next
  fix env :: cg_env and s lo P K b l1 s1 n1 s2 n2 s3 l2 s4 n3 s5
  let ?env = "env\<lparr>num_locals := num_locals env + 1, locals := (locals env)(name \<mapsto> num_locals env)\<rparr>"
  let ?cs = "[insn Dup0 di, insn_imm Tget (IntV (uint256_from_usize 0)) di, insn IsZero di,
       insn_imm Cjump (LabelV l1) di, insn_imm Tget (IntV (uint256_from_usize 1)) di, index_imm SetLocal (num_locals env) di]"
  assume env: "cg_env_ok md env" and inv: "cg_inv md lo P K b s" and b: "n2 \<le> b" "n1 \<le> b" "n3 \<le> b"
    and run: "fresh_label s = Done l1 s1" "e env s1 = Done n1 s2"
      "bl ?env (put (index_imm SetLocal (num_locals env) di) (put (insn_imm Tget (IntV (uint256_from_usize 1)) di)
         (put (insn_imm Cjump (LabelV l1) di) (put (insn IsZero di) (put (insn_imm Tget (IntV (uint256_from_usize 0)) di)
         (put (insn Dup0 di) s2)))))) = Done n2 s3"
      "fresh_label s3 = Done l2 s4"
      "(case oe of Some b \<Rightarrow> b env | None \<Rightarrow> return_c 0)
         (put (insn Pop di) (put (label_insn l1 di) (put (insn_imm Jump (LabelV l2) di) s4))) = Done n3 s5"
  have env': "cg_env_ok md ?env"
    using cg_env_ok_upd [OF env, of "num_locals env + 1" "[name \<mapsto> num_locals env]"] by simp
  have lt: "num_locals env < b" using keeps_le [OF block run(3) env'] b(1) by simp
  note f1 = cg_inv_fresh [OF inv run(1)]
  have "cg_inv md lo (insert l1 P) K b (fold put ?cs s2)"
    by (rule cg_inv_puts [OF _ keeps_inv [OF e run(2) env b(2) f1(1)]]) (simp add: cg_insn_defs lt)
  then have "cg_inv md lo (insert l1 P) K b s3" using keeps_inv [OF block run(3) env' b(1)] by simp
  note f2 = cg_inv_fresh [OF this run(4)]
  have "cg_inv md lo (insert l1 (insert l2 P)) K b (put (insn_imm Jump (LabelV l2) di) s4)"
    using f2(1) by (intro cg_inv_put) (simp_all add: cg_insn_defs insert_commute)
  from cg_inv_place [OF this] f1(2) f2(2)
  have "cg_inv md lo (insert l2 P) K b (put (label_insn l1 di) (put (insn_imm Jump (LabelV l2) di) s4))" by auto
  then have "cg_inv md lo (insert l2 P) K b (put (insn Pop di) (put (label_insn l1 di) (put (insn_imm Jump (LabelV l2) di) s4)))"
    by (rule cg_inv_put) (simp_all add: cg_insn_defs)
  from cg_inv_place [OF keeps_option [OF els env run(5) b(3) this]] f2(2)
  show "cg_inv md lo P K b (put (label_insn l2 di) s5)" by simp
qed

lemma keeps_loop:
  assumes body: "keeps_seq md body"
  shows "keeps md (cg_loop body di)"
  unfolding cg_loop_def [abs_def]
proof (rule keepsI; clarsimp simp: cg_Done le_max_iff_disj)
  fix env :: cg_env and s lo P K b l1 s1 l2 s2 s3 n bs s4 s5
  let ?env = "env\<lparr>num_locals := num_locals env + 1\<rparr>"
  let ?cs = "[insn_imm Noop (LabelV l1) di, index_imm SetLocal (num_locals env) di]"
  assume env: "cg_env_ok md env" and inv: "cg_inv md lo P K b s" and b: "num_locals env + 1 \<le> b" "n \<le> b"
    and run: "fresh_label s = Done l1 s1" "fresh_label s1 = Done l2 s2" "push_scope (''_'', l2, Some (TTuple [])) s2 = Done () s3"
      "body ?env (put (label_insn l1 di) (put (index_imm SetLocal (num_locals env) di) (put (insn_imm Noop (LabelV l1) di) s3)))
         = Done (n, bs) s4" "pop_scope s4 = Done () s5"
  note f1 = cg_inv_fresh [OF inv run(1)]
  note f2 = cg_inv_fresh [OF f1(1) run(2)]
  have env': "cg_env_ok md ?env" using env unfolding cg_env_ok_def by fastforce
  have "cg_inv md lo (insert l1 (insert l2 P)) K b (fold put ?cs s3)"
    using b(1) cg_inv_push_scope [OF run(3) f2(1)] by (intro cg_inv_puts) (auto simp: cg_insn_defs insert_commute)
  from cg_inv_place [OF this] f1(2) f2(2)
  have "cg_inv md lo (insert l2 P) K b (put (label_insn l1 di) (fold put ?cs s3))" by auto
  then have "cg_inv md lo (insert l2 P) K b s4"
    using keeps_statD(1) [OF conjunct1 [OF body [unfolded keeps_seq_def]] run(4) env' b(2)] b(1) by simp
  then have "cg_inv md lo (insert l2 P) K b s5" by (rule cg_inv_pop_scope [OF run(5)])
  with b(1) f2(2) show "cg_inv md lo P K b
      (put (label_insn l2 di) (put (insn Jump di) (put (index_imm GetLocal (num_locals env) di) s5)))"
    by (intro cg_inv_place cg_inv_put) (simp_all add: cg_insn_defs)
qed

subsection \<open>Statements\<close>

lemma keeps_statI:
  assumes "\<And>env s n bs s'. cg_env_ok md env \<Longrightarrow> g env s = Done (n, bs) s' \<Longrightarrow> \<forall>x \<in> ran bs. x < n"
    and "\<And>env s n bs s' lo P K b. cg_env_ok md env \<Longrightarrow> g env s = Done (n, bs) s' \<Longrightarrow> n \<le> b \<Longrightarrow> num_locals env \<le> b \<Longrightarrow>
      cg_inv md lo P K b s \<Longrightarrow> cg_inv md lo P K b s'"
  shows "keeps_stat md g"
  unfolding keeps_stat_def
  by (intro allI impI conjI) (rule assms(1), assumption+, rule assms(2), assumption+)

lemma keeps_simple_stat:
  assumes "keeps md e" "plain_code md {} 0 cs"
  shows "keeps_stat md (\<lambda>env. bind_c (e env) (\<lambda>n. finish cs (n, Map.empty)))"
  by (rule keeps_statI; clarsimp simp: cg_Done) (rule cg_inv_puts' [OF assms(2)], erule keeps_inv [OF assms(1)], simp_all)

lemma keeps_return_void: "keeps_stat md (cg_return_void di)"
  unfolding cg_return_void_def [abs_def]
  by (rule keeps_statI) (auto simp: cg_insn_defs intro!: cg_inv_put)

lemma keeps_return:
  assumes "keeps md e"
  shows "keeps_stat md (cg_return e di)"
  unfolding cg_return_def [abs_def]
proof (rule keeps_statI; clarsimp simp: cg_Done)
  fix env :: cg_env and s n s' lo P K b
  assume env: "cg_env_ok md env" and b: "n \<le> b" and inv: "cg_inv md lo P K b s" and run: "e env s = Done n s'"
  have "cg_inv md lo P K b s'" by (rule keeps_inv [OF assms run env b inv])
  moreover have "plain_code md {} 0 (clear_prepushed (prepushed_vals env) di)" by (auto simp: clear_prepushed_def cg_insn_defs)
  ultimately show "cg_inv md lo P K b (put (instruction_from_opcode Return di) (fold put (clear_prepushed (prepushed_vals env) di) s'))"
    by (intro cg_inv_put cg_inv_puts') (simp_all add: cg_insn_defs)
qed

lemma set_scope_type_labels: "sc \<in> set (set_scope_type name t scs) \<Longrightarrow> \<exists>sc' \<in> set scs. fst (snd sc) = fst (snd sc')"
proof -
  have "sc \<in> set (set_first_type name t xs) \<Longrightarrow> \<exists>sc' \<in> set xs. fst (snd sc) = fst (snd sc')" for xs
    by (induction name t xs rule: set_first_type.induct) (auto split: if_splits)
  then show "sc \<in> set (set_scope_type name t scs) \<Longrightarrow> ?thesis" by (fastforce simp: set_scope_type_def)
qed

lemma find_scope_mem: "find_scope name scs = Some sc \<Longrightarrow> sc \<in> set scs"
  by (auto simp: find_scope_def find_Some_iff) (metis nth_mem set_rev length_rev)

text \<open>The jump of a \<open>break\<close> leads to a label that is placed or pending when the statement is reached.\<close>

lemma keeps_break:
  assumes "\<And>e t. oe = Some (e, t) \<Longrightarrow> keeps md e"
  shows "keeps_stat md (cg_break oe scope_id di)"
proof (rule keeps_statI)
  fix env s n bs s' lo P K b
  assume env: "cg_env_ok md env" and nb: "n \<le> b" and inv: "cg_inv md lo P K b s" and "cg_break oe scope_id di env s = Done (n, bs) s'"
  then obtain name lab t s1 where sc: "find_scope scope_id (cg_scopes s) = Some (name, lab, t)"
    and run: "(case oe of Some (e, t) \<Rightarrow> e env | None \<Rightarrow> return_c (prepushed_vals env)) s = Done n s1"
    and s': "s' = put (insn_imm Jump (LabelV lab) di) (s1\<lparr>cg_scopes :=
            set_scope_type scope_id (case oe of Some (e, t) \<Rightarrow> t | None \<Rightarrow> TTuple []) (cg_scopes s)\<rparr>)"
    by (fastforce simp: cg_break_def cg_Done codegen_fail_def fail_c_def modify_c_def return_c_def split: option.splits prod.splits)
  let ?K = "set (defined_labels (cg_code s))"
  have "cg_inv md lo P ?K b s" using inv by (auto simp: cg_inv_def)
  then have inv1: "cg_inv md lo P ?K b s1"
    using run keeps_inv [OF assms _ env nb] by (cases oe) (auto simp: return_c_def)
  have labs: "fst (snd sc) \<in> ?K \<union> P" if "sc \<in> set (cg_scopes s)" for sc by (rule cg_inv_scopesD [OF inv that])
  have "\<forall>sc \<in> set (set_scope_type scope_id u (cg_scopes s)). fst (snd sc) \<in> ?K \<union> P" for u
    using labs set_scope_type_labels by metis
  moreover have "?K \<subseteq> set (defined_labels (cg_code s1))" using inv1 by (simp add: cg_inv_def)
  ultimately have "cg_inv md lo P ?K b (s1\<lparr>cg_scopes := set_scope_type scope_id u (cg_scopes s)\<rparr>)" for u
    by (intro cg_inv_scopes [OF inv1]) blast
  moreover have "lab \<in> ?K \<union> P" using labs [OF find_scope_mem [OF sc]] by simp
  ultimately have "cg_inv md lo P ?K b s'" unfolding s' by (intro cg_inv_put) (auto simp: cg_insn_defs)
  moreover have "K \<subseteq> ?K" using inv by (simp add: cg_inv_def)
  ultimately show "cg_inv md lo P K b s'" by (auto simp: cg_inv_def)
qed (auto simp: cg_break_def cg_Done codegen_fail_def fail_c_def modify_c_def split: option.splits)

lemma keeps_expression:
  assumes "keeps md e"
  shows "keeps_stat md (cg_expression e t di)"
proof (rule keeps_statI)
  fix env s n bs s' lo P K b
  let ?w = "compile_error_new_warning ''Compile warning''
    (''expression statement returns value of type '' @ type_debug t @ '', which is discarded'') (loc_list di)"
  let ?tail = "if t = TVoid \<or> t = TEvery then return_c ()
    else then_c (emit [insn Pop di]) (if t \<noteq> TTuple [] then warn ?w else return_c ())"
  assume env: "cg_env_ok md env" and nb: "n \<le> b" and inv: "cg_inv md lo P K b s" and "cg_expression e t di env s = Done (n, bs) s'"
  then obtain s1 where run: "e env s = Done n s1" and tail: "?tail s1 = Done () s'"
    unfolding cg_expression_def by (clarsimp simp: bind_c_Done_iff then_c_Done_iff return_c_def [of "(_, _)"])
  have "cg_inv md lo P K b (s2\<lparr>cg_warnings := ws\<rparr>) = cg_inv md lo P K b s2" for s2 ws
    by (simp add: cg_inv_def next_number_def scope_labels_def)
  moreover have "cg_inv md lo P K b (put (insn Pop di) s1)"
    using keeps_inv [OF assms run env nb inv] by (rule cg_inv_put) (simp_all add: cg_insn_defs)
  ultimately show "cg_inv md lo P K b s'"
    using tail keeps_inv [OF assms run env nb inv]
    by (cases "t = TVoid \<or> t = TEvery"; cases "t = TTuple []")
       (simp_all add: return_c_def then_c_def bind_c_def emit_put warn_def modify_c_def, metis+)
qed (auto simp: cg_expression_def cg_Done return_c_def)

lemma keeps_assign_local:
  assumes "keeps md e"
  shows "keeps_stat md (cg_assign_local name e di)"
  by (rule keeps_statI)
     (auto simp: cg_assign_local_def cg_Done codegen_fail_def fail_c_def cg_insn_defs split: option.splits
       intro!: cg_inv_put elim!: keeps_inv [OF assms] intro: cg_inv_loc)

lemma keeps_assign_global: "keeps md e \<Longrightarrow> idx < globals_count md \<Longrightarrow> keeps_stat md (cg_assign_global idx e di)"
  unfolding cg_assign_global_def [abs_def] by (rule keeps_simple_stat) (simp_all add: cg_insn_defs)

lemma keeps_debug_print: "keeps md e \<Longrightarrow> keeps_stat md (cg_debug_print e di)"
  unfolding cg_debug_print_def [abs_def] by (rule keeps_simple_stat) (simp_all add: cg_insn_defs)

lemma keeps_asm_statement:
  assumes "\<And>e. e \<in> set es \<Longrightarrow> keeps md e" "wf_asm md insns"
  shows "keeps_stat md (cg_asm_statement insns es)"
  unfolding cg_asm_statement_def [abs_def]
proof (rule keeps_statI; clarsimp simp: cg_Done)
  fix env s n lo P K b s'
  assume "cg_env_ok md env" "n \<le> b" "num_locals env \<le> b" "cg_inv md lo P K b s" "cg_pushes (rev es) env s = Done n s'"
  moreover have "plain_code md {} 0 insns" using assms(2) by (auto simp: plain_code_def wf_asm_def intro: wf_insn_mono)
  ultimately show "cg_inv md lo P K b (fold put insns s')"
    by (intro cg_inv_puts', simp, elim cg_pushes_inv) (auto intro: assms(1))
qed

lemma keeps_assert:
  assumes "builtin_known md ''builtin_assert''" "keeps md e"
  shows "keeps_stat md (cg_assert e di)"
proof -
  have call: "keeps md (cg_builtin_call ''builtin_assert'' [e] (TFunc False [TTuple [TBool, TAny]] TVoid) (location di))"
    by (rule keeps_builtin) (use assms in auto)
  show ?thesis
    by (rule keeps_statI) (auto simp: cg_assert_def cg_Done return_c_def split: if_splits elim!: keeps_inv [OF call])
qed

lemma keeps_while:
  assumes cond: "keeps md c" and body: "keeps_seq md body"
  shows "keeps_stat md (cg_while c body di)"
  unfolding cg_while_def [abs_def]
proof (rule keeps_statI; clarsimp simp: cg_Done)
  fix env :: cg_env and s lo P K b l1 s1 l2 s2 nl bs s3 n1 s4
  let ?env = "env\<lparr>num_locals := num_locals env + 1\<rparr>"
  let ?cs = "[insn_imm Noop (LabelV l1) di, index_imm SetLocal (num_locals env) di, insn_imm Jump (LabelV l2) di]"
  assume env: "cg_env_ok md env" and inv: "cg_inv md lo P K b s" and b: "num_locals env \<le> b" "n1 \<le> b" "nl \<le> b"
    and run: "fresh_label s = Done l1 s1" "fresh_label s1 = Done l2 s2"
      "body ?env (put (label_insn l1 di) (put (insn_imm Jump (LabelV l2) di) (put (index_imm SetLocal (num_locals env) di)
        (put (insn_imm Noop (LabelV l1) di) s2)))) = Done (nl, bs) s3"
      "c (env\<lparr>num_locals := nl\<rparr>) (put (label_insn l2 di) s3) = Done n1 s4"
  note f1 = cg_inv_fresh [OF inv run(1)]
  note f2 = cg_inv_fresh [OF f1(1) run(2)]
  have env': "cg_env_ok md ?env" using env unfolding cg_env_ok_def by fastforce
  have nl: "num_locals env + 1 \<le> nl"
    using body run(3) env' unfolding keeps_seq_def by fastforce
  have env2: "cg_env_ok md (env\<lparr>num_locals := nl\<rparr>)" using env nl unfolding cg_env_ok_def by fastforce
  have "cg_inv md lo (insert l1 (insert l2 P)) K b (fold put ?cs s2)"
    using b nl f2(1) by (intro cg_inv_puts) (auto simp: cg_insn_defs insert_commute)
  from cg_inv_place [OF this] f1(2) f2(2)
  have "cg_inv md lo (insert l2 P) K b (put (label_insn l1 di) (fold put ?cs s2))" by auto
  then have "cg_inv md lo (insert l2 P) K b s3"
    using keeps_statD(1) [OF conjunct1 [OF body [unfolded keeps_seq_def]] run(3) env' b(3)] b nl by simp
  from cg_inv_place [OF this] f2(2) have "cg_inv md lo P K b (put (label_insn l2 di) s3)" by simp
  from keeps_inv [OF cond run(4) env2 b(2) this] b nl
  show "cg_inv md lo P K b (put (insn Cjump di) (put (index_imm GetLocal (num_locals env) di) s4))"
    by (intro cg_inv_put) (simp_all add: cg_insn_defs)
qed

text \<open>Patterns: the new bindings lie between the first free slot and the number of new locals.\<close>

lemma note_assignments_same: "note_assignments seen di env xs s = Done r s' \<Longrightarrow> s' = s"
  by (induction seen di env xs arbitrary: s rule: note_assignments.induct)
     (auto simp: return_c_def codegen_fail_def fail_c_def panic_c_def split: if_splits option.splits)

lemma cg_tuple_pattern_keeps:
  fixes pat :: "'a match_pattern" and pats :: "'a match_pattern list"
  shows "cg_tuple_pattern pat base di env s = Done (k, bs, as) s' \<Longrightarrow> cg_env_ok md env \<Longrightarrow>
     (\<forall>x \<in> ran bs. x < base + k)
     \<and> (base + k \<le> b \<longrightarrow> num_locals env \<le> b \<longrightarrow> cg_inv md lo P K b s \<longrightarrow> cg_inv md lo P K b s')"
  "cg_sub_patterns pats i sz base k0 bs0 as0 di env s = Done (k, bs, as) s' \<Longrightarrow> cg_env_ok md env \<Longrightarrow>
     i + length pats = sz \<Longrightarrow> \<forall>x \<in> ran bs0. x < base + k0 \<Longrightarrow>
     k0 \<le> k \<and> (\<forall>x \<in> ran bs. x < base + k)
     \<and> (base + k \<le> b \<longrightarrow> num_locals env \<le> b \<longrightarrow> cg_inv md lo P K b s \<longrightarrow> cg_inv md lo P K b s')"
proof (induction pat base di env and pats i sz base k0 bs0 as0 di env arbitrary: s k bs as s' and s k bs as s'
    rule: cg_tuple_pattern_cg_sub_patterns.induct)
  case (1 name pdi c base di env)
  then show ?case by (auto simp: cg_insn_defs ran_def split: if_splits intro!: cg_inv_put)
next
  case (2 name pdi c base di env)
  then show ?case
    by (auto simp: cg_insn_defs codegen_fail_def fail_c_def intro!: cg_inv_put intro: cg_inv_loc split: option.splits)
       (auto simp: cg_env_ok_def dest: ranI)
next
  case (3 pats pdi c base di env)
  from "3.prems"(1) have "cg_sub_patterns pats 0 (length pats) base 0 Map.empty [] di env s = Done (k, bs, as) s'" by simp
  from "3.IH" [OF this "3.prems"(2)] show ?case by simp
next
  case (4 i sz base k0 bs0 as0 di env)
  then show ?case by (auto simp: return_c_def)
next
  case (5 pat pats i sz base k0 bs0 as0 di env)
  let ?cs = "(if i < sz - 1 then [insn Dup0 di] else []) @ [index_imm (TupleGet sz) i di]"
  from "5.prems"(1) obtain k1 bs1 as1 s1 as2 s2 where
    run: "cg_tuple_pattern pat (base + k0) di env (fold put ?cs s) = Done (k1, bs1, as1) s1"
      "note_assignments as0 di env as1 s1 = Done as2 s2"
      "cg_sub_patterns pats (i + 1) sz base (k0 + k1) (bs0 ++ bs1) as2 di env s2 = Done (k, bs, as) s'"
    by (auto simp: cg_Done)
  note pat = "5.IH"(1) [OF run(1) "5.prems"(2)]
  have s2: "s2 = s1" by (rule note_assignments_same [OF run(2)])
  have "\<forall>x \<in> ran (bs0 ++ bs1). x < base + (k0 + k1)"
    using "5.prems"(4) pat by (fastforce simp: ran_def map_add_Some_iff)
  note rest = "5.IH"(2) [OF run(3) "5.prems"(2) _ this]
  have "plain_code md (K \<union> P) b ?cs" using "5.prems"(3) by (auto simp: cg_insn_defs)
  note put = cg_inv_puts [OF this]
  from rest s2 "5.prems"(3) have bound: "k0 + k1 \<le> k" "\<forall>x \<in> ran bs. x < base + k" by simp_all
  have "cg_inv md lo P K b s'" if "base + k \<le> b" "num_locals env \<le> b" "cg_inv md lo P K b s"
    using pat put [OF that(3)] rest s2 "5.prems"(3) that bound by simp
  with bound show ?case by simp
qed

lemma keeps_let:
  assumes "keeps md e"
  shows "keeps_stat md (cg_let pat e di)"
proof (rule keeps_statI)
  fix env s n bs s'
  assume env: "cg_env_ok md env" and run: "cg_let pat e di env s = Done (n, bs) s'"
  then obtain n1 s1 k as where r: "e env s = Done n1 s1" "cg_tuple_pattern pat (num_locals env) di env s1 = Done (k, bs, as) s'"
    "n = max (num_locals env + k) n1"
    by (auto simp: cg_let_def cg_Done return_c_def)
  note p = cg_tuple_pattern_keeps(1) [OF r(2) env]
  then show "\<forall>x \<in> ran bs. x < n" using r(3) by (auto simp: less_max_iff_disj)
  show "cg_inv md lo P K b s'" if "n \<le> b" "num_locals env \<le> b" "cg_inv md lo P K b s" for lo P K b
    using p [of b lo P K] that keeps_inv [OF assms r(1) env _ that(3)] r(3) by auto
qed

lemma keeps_noop: "keeps_stat md (\<lambda>env. return_c (0, Map.empty))"
  by (simp add: keeps_stat_def return_c_def)

subsection \<open>All of the syntax\<close>

lemmas keeps_intros = keeps_leaves keeps_local keeps_func_ref keeps_set_gas keeps_variant keeps_unary keeps_binary
  keeps_trinary keeps_dot_ref keeps_tuple_ref keeps_struct_mod keeps_struct_initializer keeps_tuple keeps_asm
  keeps_shortcut_or keeps_shortcut_and keeps_function_call keeps_builtin keeps_new_array keeps_fixed_array_ref
  keeps_fixed_array_mod keeps_new_fixed_array keeps_try keeps_code_block keeps_if keeps_if_let keeps_loop
  keeps_return_void keeps_return keeps_break keeps_expression keeps_assign_local keeps_assign_global keeps_debug_print
  keeps_asm_statement keeps_assert keeps_while keeps_let keeps_statements keeps_noop

lemma codegen_keeps:
  "wf_expr md e \<longrightarrow> keeps md (codegen_expr e)"
  "wf_kind md k \<longrightarrow> (\<forall>di. keeps md (codegen_kind k di))"
  "wf_statement md st \<longrightarrow> keeps_stat md (codegen_statement st)"
  "wf_statement_kind md sk \<longrightarrow> (\<forall>di. keeps_stat md (codegen_statement_kind sk di))"
  "wf_block md bl \<longrightarrow> (\<forall>di. keeps md (codegen_block bl di))"
proof (induction e and k and st and sk and bl)
  case (EStructInitializer inits t)
  then show ?case
    by (auto simp: list_all_iff intro!: keeps_struct_initializer)
       (metis field_initializer.map_sel field_initializer.set_sel)
qed (auto simp: list_all_iff cg_array_ref_def cg_map_ref_def cg_new_map_def cg_array_mod_def cg_map_mod_def
    intro!: keeps_intros split: option.splits)

end
