(* ===== verification/Codegen_Module.thy ===== *)
theory Codegen_Module
  imports Codegen_Wf
begin

text \<open>
  The output of the code generator for functions and modules (\<open>mavm_codegen_func\<close>, \<open>mavm_codegen\<close> of
  \<open>src/compile/codegen.rs\<close>), and what the passes of the linker make of it.
\<close>

section \<open>Functions\<close>

definition wf_func :: "cg_module \<Rightarrow> tc_func \<Rightarrow> bool" where
  "wf_func md f \<longleftrightarrow> list_all (wf_statement md) (func_code f)"

text \<open>The code of a function: its label, its frame, and a body whose slots fit the frame.\<close>

definition func_code_ok :: "cg_module \<Rightarrow> nat \<Rightarrow> nat \<Rightarrow> string_id \<Rightarrow> opcode instruction list \<Rightarrow> bool" where
  "func_code_ok md lo hi name cs \<longleftrightarrow>
     (\<exists>di nargs n ret body.
        cs = label_insn (Func name) di # instruction_from_opcode (MakeFrame nargs n ret) di # body
        \<and> nargs \<le> n \<and> distinct (defined_labels cs) \<and> set (defined_labels cs) \<subseteq> insert (Func name) (numbered lo hi)
        \<and> (\<forall>i \<in> set body. wf_insn (known md \<union> set (defined_labels cs)) (globals_count md) n i))"

lemma with_return_void_parts:
  "func_args (with_return_void f) = func_args f" "func_name (with_return_void f) = func_name f"
  "func_tipe (with_return_void f) = func_tipe f"
  "wf_func md (with_return_void f) = wf_func md f"
  by (auto simp: with_return_void_def wf_func_def)

lemma arg_slots_bound: "x \<in> ran (arg_slots args) \<Longrightarrow> x < length args"
proof -
  assume "x \<in> ran (arg_slots args)"
  then obtain name where "map_of (rev (zip (map arg_name args) [0..<length args])) name = Some x"
    by (auto simp: arg_slots_def ran_def)
  then have "(name, x) \<in> set (zip (map arg_name args) [0..<length args])" by (auto dest: map_of_SomeD)
  then show ?thesis by (auto dest: set_zip_rightD)
qed

text \<open>The part of the environment that all functions of a module share.\<close>

definition cg_shared :: "cg_module \<Rightarrow> cg_env \<Rightarrow> bool" where
  "cg_shared md env \<longleftrightarrow>
     (\<forall>x \<in> ran (global_var_map env). x < globals_count md) \<and> import_func_map env = md_imports md \<and> strings env = names md"

lemma mavm_codegen_func_ok:
  assumes run: "mavm_codegen_func f env s = Done cs s'" and wf: "wf_func md f" and env: "cg_shared md env"
  shows "next_number s \<le> next_number s'" "func_code_ok md (next_number s) (next_number s') (func_name f) cs"
proof -
  let ?f = "with_return_void f"
  let ?di = "func_debug_info ?f"
  let ?env = "env\<lparr>num_locals := length (func_args f), locals := arg_slots (func_args f), prepushed_vals := 0\<rparr>"
  let ?pre = "[label_insn (Func (func_name f)) ?di, insn Noop ?di]"
  let ?start = "\<lparr>first_number = next_number s, start_name = func_name f, start_code = ?pre\<rparr>"
  let ?s0 = "s\<lparr>cg_code := ?pre, cg_scopes := []\<rparr>"
  from run obtain n bs ret where body:
      "cg_statements (map codegen_statement (func_code ?f)) Map.empty ?env ?s0 = Done (n, bs) s'"
    and cs: "cs = (cg_code s')[1 := instruction_from_opcode (MakeFrame (length (func_args f)) n ret) ?di]"
    by (auto simp: mavm_codegen_func_def Let_def with_return_void_parts codegen_fail_def fail_c_def
      split: outcome.splits tipe.splits)
  have ok: "cg_env_ok md ?env"
    using env arg_slots_bound by (auto simp: cg_env_ok_def cg_shared_def)
  have "wf_func md ?f" using wf by (simp add: with_return_void_parts)
  then have "keeps_seq md (cg_statements (map codegen_statement (func_code ?f)) Map.empty)"
    using codegen_keeps(3) by (intro keeps_statements) (auto simp: wf_func_def list_all_iff)
  then have le: "length (func_args f) \<le> n"
    and keep: "cg_inv md ?start {} {} n ?s0 \<Longrightarrow> cg_inv md ?start {} {} n s'"
    using body ok unfolding keeps_seq_def keeps_stat_def by fastforce+
  have "cg_inv md ?start {} {} n ?s0"
    by (simp add: cg_inv_def cg_insn_defs get_label_simps next_number_def scope_labels_def numbered_def wf_insn_def insn_labels_def)
  note inv = keep [OF this]
  then obtain rest where rest: "cg_code s' = ?pre @ rest" by (auto simp: cg_inv_def prefix_def)
  have cs': "cs = label_insn (Func (func_name f)) ?di # instruction_from_opcode (MakeFrame (length (func_args f)) n ret) ?di # rest"
    by (simp add: cs rest One_nat_def)
  then have labels: "defined_labels cs = defined_labels (cg_code s')"
    by (simp add: rest cg_insn_defs get_label_simps)
  show "next_number s \<le> next_number s'" using inv by (simp add: cg_inv_def)
  show "func_code_ok md (next_number s) (next_number s') (func_name f) cs"
    unfolding func_code_ok_def labels
    by (intro exI conjI, rule cs', rule le) (use inv in \<open>auto simp: cg_inv_def rest\<close>)
qed

section \<open>Modules\<close>

text \<open>Inserting into a map in the order of its keys.\<close>

lemma set_btree_insert:
  "sorted_wrt (<) (map fst kvs) \<Longrightarrow> set (btree_insert k v kvs) = insert (k, v) {kv \<in> set kvs. fst kv \<noteq> k}"
  by (induction k v kvs rule: btree_insert.induct) auto

lemma sorted_btree_insert: "sorted_wrt (<) (map fst kvs) \<Longrightarrow> sorted_wrt (<) (map fst (btree_insert k v kvs))"
  by (induction k v kvs rule: btree_insert.induct) (auto simp: set_btree_insert)

text \<open>Code of several functions, with all numbers of labels below a bound.\<close>

definition funcs_ok :: "cg_module \<Rightarrow> nat \<Rightarrow> (string_id \<times> opcode instruction list) list \<Rightarrow> bool" where
  "funcs_ok md hi fcs \<longleftrightarrow>
     sorted_wrt (<) (map fst fcs)
     \<and> (\<forall>(name, cs) \<in> set fcs. func_code_ok md 0 hi name cs)
     \<and> (\<forall>fc \<in> set fcs. \<forall>fc' \<in> set fcs. fst fc \<noteq> fst fc' \<longrightarrow>
          set (defined_labels (snd fc)) \<inter> set (defined_labels (snd fc')) = {})"

lemma func_code_ok_mono: "func_code_ok md lo hi name cs \<Longrightarrow> lo' \<le> lo \<Longrightarrow> hi \<le> hi' \<Longrightarrow> func_code_ok md lo' hi' name cs"
proof -
  assume "lo' \<le> lo" "hi \<le> hi'"
  then have "numbered lo hi \<subseteq> numbered lo' hi'" by (auto simp: numbered_def)
  then show "func_code_ok md lo hi name cs \<Longrightarrow> ?thesis" unfolding func_code_ok_def by blast
qed

lemma func_code_ok_labels: "func_code_ok md lo hi name cs \<Longrightarrow> set (defined_labels cs) \<subseteq> insert (Func name) (numbered lo hi)"
  by (auto simp: func_code_ok_def)

lemma funcs_ok_insert:
  assumes "funcs_ok md lo fcs" "func_code_ok md lo hi name cs" "lo \<le> hi"
  shows "funcs_ok md hi (btree_insert name cs fcs)"
proof -
  have sorted: "sorted_wrt (<) (map fst fcs)" using assms(1) by (simp add: funcs_ok_def)
  have old: "func_code_ok md 0 lo name' cs'" if "(name', cs') \<in> set fcs" for name' cs'
    using assms(1) that by (auto simp: funcs_ok_def)
  have "set (defined_labels cs') \<inter> set (defined_labels cs) = {}" if "(name', cs') \<in> set fcs" "name' \<noteq> name" for name' cs'
    using func_code_ok_labels [OF old [OF that(1)]] func_code_ok_labels [OF assms(2)] that(2)
    by (fastforce simp: numbered_def)
  with assms(1) show ?thesis
    using sorted_btree_insert [OF sorted] func_code_ok_mono [OF old] func_code_ok_mono [OF assms(2)] assms(3)
    unfolding funcs_ok_def set_btree_insert [OF sorted] by (simp add: Ball_def Int_commute) blast
qed

lemma codegen_funcs_ok:
  assumes "codegen_funcs fs env fcs s = Done fcs' s'" "\<forall>f \<in> set fs. wf_func md f" "cg_shared md env"
    "funcs_ok md (next_number s) fcs"
  shows "funcs_ok md (next_number s') fcs'" "fst ` set fcs' = fst ` set fcs \<union> func_name ` set fs"
proof -
  have "funcs_ok md (next_number s') fcs' \<and> fst ` set fcs' = fst ` set fcs \<union> func_name ` set fs"
    using assms
  proof (induction fs arbitrary: fcs s)
    case (Cons f fs)
    from Cons.prems(1) obtain cs s1 where run: "mavm_codegen_func f env s = Done cs s1"
      "codegen_funcs fs env (btree_insert (func_name f) cs fcs) s1 = Done fcs' s'"
      by (auto simp: cg_Done)
    note f = mavm_codegen_func_ok [OF run(1) _ Cons.prems(3)]
    have "funcs_ok md (next_number s1) (btree_insert (func_name f) cs fcs)"
      using f Cons.prems by (intro funcs_ok_insert) auto
    note IH = Cons.IH [OF run(2) _ Cons.prems(3) this]
    have "sorted_wrt (<) (map fst fcs)" using Cons.prems(4) by (simp add: funcs_ok_def)
    then have "fst ` set (btree_insert (func_name f) cs fcs) = insert (func_name f) (fst ` set fcs)"
      by (auto simp: set_btree_insert image_iff)
    with IH Cons.prems(2) show ?case by auto
  qed (simp add: return_c_def)
  then show "funcs_ok md (next_number s') fcs'" "fst ` set fcs' = fst ` set fcs \<union> func_name ` set fs" by simp_all
qed


section \<open>The passes of the linker\<close>

text \<open>The sizes in an instruction are machine words.\<close>

definition sizes_upto :: "nat \<Rightarrow> opcode instruction \<Rightarrow> bool" where
  "sizes_upto k i \<longleftrightarrow>
     (case opcode i of TupleGet n \<Rightarrow> n \<le> k | TupleSet n \<Rightarrow> n \<le> k | MakeFrame _ n _ \<Rightarrow> n \<le> k | _ \<Rightarrow> True)"

definition sizes_fit :: "opcode instruction \<Rightarrow> bool" where
  "sizes_fit = sizes_upto usize_limit"

text \<open>Code in which every instruction is well formed for the frame that was made last.\<close>

fun wf_code :: "label set \<Rightarrow> nat \<Rightarrow> nat \<Rightarrow> opcode instruction list \<Rightarrow> bool" where
  "wf_code ls gs b [] \<longleftrightarrow> True"
| "wf_code ls gs b (i # cs) \<longleftrightarrow>
     sizes_fit i \<and> insn_labels i \<subseteq> ls \<and>
     (case opcode i of
        MakeFrame nargs n ret \<Rightarrow> nargs \<le> n \<and> wf_code ls gs n cs
      | _ \<Rightarrow> wf_insn ls gs b i \<and> wf_code ls gs b cs)"

lemma wf_insn_no_frame: "wf_insn ls gs b i \<Longrightarrow> opcode i \<noteq> MakeFrame nargs n ret"
  by (auto simp: wf_insn_def)

lemma wf_code_body:
  assumes "\<forall>i \<in> set cs. wf_insn ls gs b i \<and> sizes_fit i" "\<forall>b. wf_code ls gs b cs'"
  shows "wf_code ls gs b (cs @ cs')"
  using assms
proof (induction cs)
  case (Cons i cs)
  then show ?case by (cases "opcode i") (auto simp: wf_insn_def)
qed simp

text \<open>The code of a module.\<close>

lemma defined_labels_concat: "set (defined_labels (concat css)) = (\<Union>cs \<in> set css. set (defined_labels cs))"
  by (induction css) (auto simp: defined_labels_append)

lemma wf_insn_func_code:
  assumes "func_code_ok md lo hi name cs" "\<forall>i \<in> set cs. sizes_fit i" "known md \<union> set (defined_labels cs) \<subseteq> ls"
    "\<forall>b. wf_code ls (globals_count md) b cs'"
  shows "wf_code ls (globals_count md) b (cs @ cs')"
proof -
  from assms(1) obtain di nargs n ret body where
    cs: "cs = label_insn (Func name) di # instruction_from_opcode (MakeFrame nargs n ret) di # body" "nargs \<le> n"
    and body: "\<forall>i \<in> set body. wf_insn (known md \<union> set (defined_labels cs)) (globals_count md) n i"
    unfolding func_code_ok_def by blast
  have "wf_code ls (globals_count md) n (body @ cs')"
    using body wf_insn_mono [OF _ assms(3)] assms(2,4) cs(1) by (intro wf_code_body) auto
  with cs(2) assms(2) show ?thesis
    by (simp add: cs(1) cg_insn_defs insn_labels_def wf_insn_def)
qed

lemma funcs_ok_code:
  assumes "funcs_ok md hi fcs" "\<forall>i \<in> set (concat (map snd fcs)). sizes_fit i"
    "known md \<union> set (defined_labels (concat (map snd fcs))) \<subseteq> ls"
  shows "distinct (defined_labels (concat (map snd fcs)))" "wf_code ls (globals_count md) b (concat (map snd fcs))"
proof -
  have "distinct (defined_labels (concat (map snd fcs))) \<and> (\<forall>b. wf_code ls (globals_count md) b (concat (map snd fcs)))"
    using assms
  proof (induction fcs)
    case (Cons fc fcs)
    obtain name cs where fc: "fc = (name, cs)" by fastforce
    have ok: "func_code_ok md 0 hi name cs" and rest: "funcs_ok md hi fcs"
      using Cons.prems(1) by (auto simp: funcs_ok_def fc)
    have "set (defined_labels cs) \<inter> set (defined_labels (snd fc')) = {}" if "fc' \<in> set fcs" for fc'
    proof -
      have "fst fc' \<noteq> name" using Cons.prems(1) that by (auto simp: funcs_ok_def fc)
      with Cons.prems(1) that show ?thesis by (auto simp: funcs_ok_def fc)
    qed
    then have "set (defined_labels cs) \<inter> set (defined_labels (concat (map snd fcs))) = {}"
      unfolding defined_labels_concat by auto
    moreover have "distinct (defined_labels cs)" using ok by (auto simp: func_code_ok_def)
    moreover have "distinct (defined_labels (concat (map snd fcs)))"
      "\<forall>b. wf_code ls (globals_count md) b (concat (map snd fcs))"
      using Cons.IH [OF rest] Cons.prems(2,3) by (auto simp: fc defined_labels_append)
    moreover have "wf_code ls (globals_count md) b (cs @ concat (map snd fcs))" for b
      using Cons.prems(2,3) by (intro wf_insn_func_code [OF ok]) (auto simp: fc defined_labels_append calculation)
    ultimately show ?case by (auto simp: fc defined_labels_append)
  qed simp
  then show "distinct (defined_labels (concat (map snd fcs)))" "wf_code ls (globals_count md) b (concat (map snd fcs))" by simp_all
qed


text \<open>References through the jump table keep code well formed when the table is one of the globals.\<close>

lemma wf_code_external: "wf_code ls gs b (i # cs) \<Longrightarrow> expand_external n i = [i]"
  by (auto simp: expand_external_def wf_insn_def split: opcode.splits)

lemma wf_code_bare:
  "wf_code ls gs b (i # cs) \<Longrightarrow> immediate i = Some (LabelV l) \<Longrightarrow>
   wf_code ls gs b (Instruction (opcode i) None di # cs') \<longleftrightarrow> wf_code ls gs b (i # cs')"
  by (cases "opcode i") (auto simp: wf_insn_def sizes_fit_def sizes_upto_def insn_labels_def index_below_def)

lemma wf_code_tail:
  "wf_code ls gs b (i # cs) \<Longrightarrow> \<exists>b'. wf_code ls gs b' cs \<and> (\<forall>cs'. wf_code ls gs b' cs' \<longrightarrow> wf_code ls gs b (i # cs'))"
  by (cases "opcode i") (auto simp: wf_insn_def)

lemma wf_code_more_globals: "wf_code ls gs b cs \<Longrightarrow> gs \<le> gs' \<Longrightarrow> wf_code ls gs' b cs"
proof (induction ls gs b cs rule: wf_code.induct)
  case (2 ls gs b i cs)
  then show ?case by (cases "opcode i") (auto simp: wf_insn_def)
qed simp

lemma wf_code_nonforward:
  assumes "g < gs" "length jt \<le> usize_limit" "set (back_refs imported seen cs) \<subseteq> set jt" "wf_code ls gs b cs"
  shows "wf_code ls gs b (nonforward_ref jt imported g seen cs)"
  using assms(3,4)
proof (induction cs arbitrary: seen b)
  case (Cons i cs)
  from wf_code_tail [OF Cons.prems(2)] obtain b' where b': "wf_code ls gs b' cs"
    "\<And>cs'. wf_code ls gs b' cs' \<Longrightarrow> wf_code ls gs b (i # cs')" by blast
  have "wf_code ls gs b' (nonforward_ref jt imported g (pass_label i seen) cs)"
    using Cons.prems(1) b'(1) by (intro Cons.IH) auto
  note tail = b'(2) [OF this]
  show ?case
  proof (cases "back_ref imported seen i")
    case None
    then show ?thesis using tail by (simp add: wf_code_external [OF Cons.prems(2)])
  next
    case (Some l)
    then have imm: "immediate i = Some (LabelV l)" by (auto simp: back_ref_def split: option.splits val.splits if_splits)
    let ?i = "Instruction (opcode i) None (insn_debug_info i)"
    have "wf_code ls gs b (?i # cs)" using Cons.prems(2) wf_code_bare [OF Cons.prems(2) imm] by simp
    then have "expand_external (length jt) ?i = [?i]" by (rule wf_code_external)
    moreover have "index_of jt l < length jt" using Cons.prems(1) Some nth_index_of [of l jt] by auto
    ultimately show ?thesis
      using tail assms(1,2) Some wf_code_bare [OF Cons.prems(2) imm, of "insn_debug_info i"]
      by (simp add: sizes_fit_def sizes_upto_def insn_labels_def)
  qed
qed simp

lemma back_refs_labels: "wf_code ls gs b cs \<Longrightarrow> set (back_refs imported seen cs) \<subseteq> ls"
proof (induction cs arbitrary: b seen)
  case (Cons i cs)
  from wf_code_tail [OF Cons.prems] obtain b' where "wf_code ls gs b' cs" by blast
  then have "set (back_refs imported (pass_label i seen) cs) \<subseteq> ls" by (rule Cons.IH)
  moreover have "set (case back_ref imported seen i of Some l \<Rightarrow> [l] | None \<Rightarrow> []) \<subseteq> insn_labels i"
    by (auto simp: back_ref_def insn_labels_def split: option.splits val.splits if_splits)
  moreover have "insn_labels i \<subseteq> ls" using Cons.prems by simp
  ultimately show ?case by simp
qed simp

text \<open>Code after the tuples have been resolved: instructions of the machine, labels, and three operators.\<close>

definition lowered :: "label set \<Rightarrow> opcode instruction \<Rightarrow> bool" where
  "lowered ls i \<longleftrightarrow> insn_labels i \<subseteq> ls \<and>
     (is_avm i \<or> is_label i \<or> opcode i \<in> {UnaryMinus, LogicalAnd, LogicalOr})"

text \<open>Code for reading and writing slots refers to no labels.\<close>

definition no_labels :: "opcode instruction \<Rightarrow> bool" where
  "no_labels i \<longleftrightarrow> is_avm i \<and> insn_labels i = {}"

lemma no_labels_simps [simp]:
  "no_labels (Instruction (AVM op) None di)" "no_labels (Instruction (AVM op) (Some (IntV k)) di)"
  by (simp_all add: no_labels_def insn_labels_def)

lemma lowered_AVM [simp]: "lowered ls (Instruction (AVM op) imm di) \<longleftrightarrow> (\<forall>v. imm = Some v \<longrightarrow> set (value_labels v) \<subseteq> ls)"
  by (auto simp: lowered_def insn_labels_def split: option.splits)

lemma no_labels_lowered: "no_labels i \<Longrightarrow> lowered ls i"
  by (simp add: no_labels_def lowered_def)

lemma read_code_labels:
  "read_code t b i di = Inr cs \<Longrightarrow> list_all no_labels cs"
  "read_slots ts slot b i di = Inr cs \<Longrightarrow> list_all no_labels cs"
  by (induction t b i di and ts slot b i di arbitrary: cs and cs rule: read_code_read_slots.induct)
     (auto simp: cg_insn_defs Let_def split: if_splits sum.splits)

lemma write_code_labels:
  "write_code t b i di = Inr cs \<Longrightarrow> list_all no_labels cs"
  "write_slots ts slot b i di = Inr cs \<Longrightarrow> list_all no_labels cs"
  by (induction t b i di and ts slot b i di arbitrary: cs and cs rule: write_code_write_slots.induct)
     (auto simp: cg_insn_defs Let_def split: if_splits sum.splits tuple_tree.splits)

lemma array_steps_labels: "list_all no_labels (array_steps n di)"
proof (induction n di rule: array_steps.induct)
  case (1 n di)
  then show ?case
    by (subst array_steps.simps) (simp add: array_step_def Let_def cg_insn_defs)
qed

lemma value_to_usize_small: "k < usize_limit \<Longrightarrow> value_to_usize (IntV k) = Some k"
  by (simp add: value_to_usize_def uint256_to_usize_def)

text \<open>Reading and writing slots in range succeeds.\<close>

lemma slots_in_range:
  assumes "i < n"
  shows "\<exists>cs. read_code (tuple_tree_new n False) False i di = Inr cs" "\<exists>cs. write_code (tuple_tree_new n False) False i di = Inr cs"
    "\<exists>cs. read_code (tuple_tree_new n True) True i di = Inr cs" "\<exists>cs. write_code (tuple_tree_new n True) True i di = Inr cs"
proof -
  obtain ts where ts: "tuple_tree_new n True = Tree n ts" "tree_ok (Tree n ts)" by (rule local_tree)
  show "\<exists>cs. read_code (tuple_tree_new n False) False i di = Inr cs" "\<exists>cs. write_code (tuple_tree_new n False) False i di = Inr cs"
    using read_code_correct [OF tuple_tree_new_ok make_empty_fits] write_code_correct [OF tuple_tree_new_ok make_empty_fits] assms
    by (metis tuple_tree_new_size)+
  show "\<exists>cs. read_code (tuple_tree_new n True) True i di = Inr cs" "\<exists>cs. write_code (tuple_tree_new n True) True i di = Inr cs"
    using read_local_correct [OF ts(2) make_empty_fits assms] write_local_correct [OF ts(2) make_empty_fits assms] ts(1) by metis+
qed

lemma index_belowE:
  assumes "index_below n i"
  obtains k where "immediate i = Some (IntV k)" "k < n"
  using assms by (auto simp: index_below_def split: option.splits val.splits)

lemma frame_code:
  assumes "nargs \<le> n"
  shows "\<exists>codes. collect_res (\<lambda>l. write_code (tuple_tree_new n True) True l di) [0..<nargs] = Inr codes \<and> list_all no_labels (concat codes)"
proof -
  have "\<exists>codes. collect_res (\<lambda>l. write_code (tuple_tree_new n True) True l di) ls = Inr codes \<and> list_all no_labels (concat codes)"
    if "\<forall>l \<in> set ls. l < n" for ls
    using that
  proof (induction ls)
    case (Cons l ls)
    then obtain c codes where "write_code (tuple_tree_new n True) True l di = Inr c"
      "collect_res (\<lambda>l. write_code (tuple_tree_new n True) True l di) ls = Inr codes" "list_all no_labels (concat codes)"
      using slots_in_range(4) [of l n di] by auto
    then show ?case using write_code_labels(1) by auto
  qed simp
  then show ?thesis using assms by auto
qed

lemma fix_insn_ok:
  assumes "wf_insn ls gs b i" "sizes_fit i" "b \<le> usize_limit"
  shows "\<exists>cs. fix_insn (tuple_tree_new gs False) (tuple_tree_new b True) i = Inr (cs, tuple_tree_new b True) \<and> list_all (lowered ls) cs"
proof -
  let ?di = "insn_debug_info i"
  have labels: "insn_labels i \<subseteq> ls" using assms(1) by (simp add: wf_insn_def)
  have low: "list_all no_labels cs \<Longrightarrow> list_all (lowered ls) cs" for cs by (auto simp: list_all_iff no_labels_lowered)
  have "\<exists>cs. with_index i x y (\<lambda>k. f k ?di) = Inr cs \<and> list_all (lowered ls) cs"
    if "index_below n i" "n \<le> usize_limit" "\<And>k. k < n \<Longrightarrow> \<exists>cs. f k ?di = Inr cs" "\<forall>k cs. f k ?di = Inr cs \<longrightarrow> list_all no_labels cs"
    for n f x y
  proof -
    from index_belowE [OF that(1)] obtain k where k: "immediate i = Some (IntV k)" "k < n" by blast
    with that(3) obtain cs where "f k ?di = Inr cs" by blast
    with k that(2,4) low show ?thesis by (simp add: with_index_def value_to_usize_small)
  qed
  note indexed = this
  show ?thesis
  proof (cases "opcode i")
    case GetLocal
    with assms(1) obtain cs where
      "with_index i ''index too large'' ''GetLocal without immediate arg'' (\<lambda>k. read_code (tuple_tree_new b True) True k ?di) = Inr cs"
      "list_all (lowered ls) cs"
      using indexed [of b "read_code (tuple_tree_new b True) True" "''index too large''" "''GetLocal without immediate arg''", OF _ assms(3) slots_in_range(3)] by (auto simp: wf_insn_def sizes_fit_def sizes_upto_def read_code_labels(1))
    with GetLocal show ?thesis by (simp add: fix_insn_def Let_def)
  next
    case SetLocal
    with assms(1) obtain cs where
      "with_index i ''index too large'' ''SetLocal without immediate arg'' (\<lambda>k. write_code (tuple_tree_new b True) True k ?di) = Inr cs"
      "list_all (lowered ls) cs"
      using indexed [of b "write_code (tuple_tree_new b True) True" "''index too large''" "''SetLocal without immediate arg''", OF _ assms(3) slots_in_range(4)] by (auto simp: wf_insn_def sizes_fit_def sizes_upto_def write_code_labels(1))
    with SetLocal show ?thesis by (simp add: fix_insn_def Let_def)
  next
    case (TupleGet n)
    with assms(1,2) obtain cs where
      "with_index i ''index too large'' ''TupleGet without immediate arg'' (\<lambda>k. read_code (tuple_tree_new n False) False k ?di) = Inr cs"
      "list_all (lowered ls) cs"
      using indexed [of n "read_code (tuple_tree_new n False) False" "''index too large''" "''TupleGet without immediate arg''", OF _ _ slots_in_range(1)] by (auto simp: wf_insn_def sizes_fit_def sizes_upto_def read_code_labels(1))
    with TupleGet show ?thesis by (simp add: fix_insn_def Let_def)
  next
    case (TupleSet n)
    with assms(1,2) obtain cs where
      "with_index i ''TupleSet index too large'' ''TupleSet without immediate arg'' (\<lambda>k. write_code (tuple_tree_new n False) False k ?di) = Inr cs"
      "list_all (lowered ls) cs"
      using indexed [of n "write_code (tuple_tree_new n False) False" "''TupleSet index too large''" "''TupleSet without immediate arg''", OF _ _ slots_in_range(2)] by (auto simp: wf_insn_def sizes_fit_def sizes_upto_def write_code_labels(1))
    with TupleSet show ?thesis by (simp add: fix_insn_def Let_def)
  next
    case (GetGlobalVar g)
    then obtain cs where "read_code (tuple_tree_new gs False) False g ?di = Inr cs"
      using assms(1) slots_in_range(1) [of g gs ?di] by (auto simp: wf_insn_def)
    with GetGlobalVar show ?thesis
      using low [of "insn Rpush ?di # cs"] read_code_labels(1) by (auto simp: fix_insn_def Let_def cg_insn_defs)
  next
    case (SetGlobalVar g)
    then obtain cs where "write_code (tuple_tree_new gs False) False g ?di = Inr cs"
      using assms(1) slots_in_range(2) [of g gs ?di] by (auto simp: wf_insn_def)
    with SetGlobalVar show ?thesis
      using low [of "insn Rpush ?di # cs @ [insn Rset ?di]"] write_code_labels(1) by (auto simp: fix_insn_def Let_def cg_insn_defs)
  next
    case (UncheckedFixedArrayGet n)
    then show ?thesis
      using low [of "array_steps n ?di @ [insn Tget ?di]"] array_steps_labels by (simp add: fix_insn_def Let_def cg_insn_defs)
  next
    case Return
    then show ?thesis
      using labels by (simp add: fix_insn_def Let_def cg_insn_defs lowered_def insn_labels_def)
  qed (use assms(1) labels in \<open>auto simp: fix_insn_def Let_def wf_insn_def lowered_def is_avm_def is_label_def instruction_get_label_def\<close>)
qed

lemma fix_insns_ok:
  "wf_code ls gs b cs \<Longrightarrow> b \<le> usize_limit \<Longrightarrow>
   \<exists>out. fix_insns (tuple_tree_new gs False) (tuple_tree_new b True) cs = Inr out \<and> list_all (lowered ls) out"
proof (induction cs arbitrary: b)
  case (Cons i cs)
  show ?case
  proof (cases "\<exists>nargs n ret. opcode i = MakeFrame nargs n ret")
    case True
    then obtain nargs n ret where op: "opcode i = MakeFrame nargs n ret" by blast
    with Cons.prems have n: "nargs \<le> n" "n \<le> usize_limit" "wf_code ls gs n cs" "insn_labels i \<subseteq> ls" by (simp_all add: sizes_fit_def sizes_upto_def)
    obtain codes where codes: "collect_res (\<lambda>l. write_code (tuple_tree_new n True) True l (insn_debug_info i)) [0..<nargs] = Inr codes"
      "list_all (lowered ls) (concat codes)"
      using frame_code [OF n(1), of "insn_debug_info i"] by (auto simp: list_all_iff no_labels_lowered)
    from Cons.IH [OF n(3,2)] codes n(4) show ?thesis
      by (auto simp: op fix_insn_def Let_def cg_insn_defs insn_labels_def [of i] make_empty_no_labels split: option.splits)
  next
    case False
    with Cons.prems have "wf_insn ls gs b i" "sizes_fit i" "wf_code ls gs b cs" by (auto split: opcode.splits)
    with fix_insn_ok [OF this(1,2) Cons.prems(2)] Cons.IH [OF this(3) Cons.prems(2)] show ?thesis by auto
  qed
qed simp

lemma reduce_loop_lowered: "list_all (lowered ls) cs \<Longrightarrow> list_all (lowered ls) (reduce_loop cs)"
proof (induction cs rule: reduce_loop.induct)
  case (1 cs)
  have "replaces x y ys \<Longrightarrow> lowered ls x \<Longrightarrow> lowered ls y \<Longrightarrow> list_all (lowered ls) ys" for x y ys
    by (erule replaces_elim) (auto simp: noop_imm_def split: option.splits)
  then have "reduce_top cs = Some cs' \<Longrightarrow> list_all (lowered ls) cs'" for cs'
    using 1(2) by (auto simp: reduce_top_replaces)
  with 1 show ?case by (subst reduce_loop.simps) (auto split: option.split)
qed

lemma peephole_lowered: "list_all (lowered ls) cs \<Longrightarrow> list_all (lowered ls) (peephole cs)"
proof (induction cs rule: rev_induct)
  case (snoc i cs)
  then show ?case using reduce_loop_lowered [of ls "i # rev (peephole cs)"] by (simp add: peephole_snoc)
qed (simp add: peephole_def useless_opcodes_layer_def)

section \<open>Whole modules\<close>

text \<open>The parameters of a module, as the driver gives them to the generator.\<close>

definition module_of :: "tc_func list \<Rightarrow> string_table \<Rightarrow> imported_func list \<Rightarrow> string_id list \<Rightarrow> cg_module" where
  "module_of funcs tab imps globals =
     \<lparr>known = (Func \<circ> func_name) ` set funcs \<union> (External \<circ> imp_slot_num) ` set imps,
      globals_count = length globals, md_imports = import_map imps, names = tab\<rparr>"

lemma foldl_dom:
  assumes "\<And>m x. insert (h x) (dom m) \<subseteq> dom (g m x)"
  shows "dom m \<union> h ` set xs \<subseteq> dom (foldl g m xs)"
proof (induction xs arbitrary: m)
  case (Cons x xs)
  from Cons.IH [of "g m x"] assms [of x m] have "insert (h x) (dom m) \<union> h ` set xs \<subseteq> dom (foldl g (g m x) xs)" by blast
  then show ?case by simp
qed simp

lemma import_labels_slots: "f \<in> set imps \<Longrightarrow> External (imp_slot_num f) \<in> dom (import_labels imps)"
  unfolding import_labels_def
  by (rule subsetD [OF foldl_dom [where h = "\<lambda>f. External (imp_slot_num f)"]]) auto

lemma mavm_codegen_ok:
  assumes "mavm_codegen kec funcs tab imps globals release = Done cs ws"
    "\<forall>f \<in> set funcs. wf_func (module_of funcs tab imps globals) f" "\<forall>i \<in> set cs. sizes_fit i"
  shows "distinct (defined_labels cs)" "wf_code (dom (label_target imps cs)) (length globals) b cs"
proof -
  let ?md = "module_of funcs tab imps globals"
  from assms(1) obtain fcs env s s' where run: "codegen_funcs funcs env [] s = Done fcs s'" and cs: "cs = concat (map snd fcs)"
    and env: "env = \<lparr>num_locals = 0, locals = Map.empty, prepushed_vals = 0, strings = tab, import_func_map = import_map imps,
        global_var_map = global_map globals, release_build = release, env_hash = kec\<rparr>"
    by (auto simp: mavm_codegen_def split: outcome.splits)
  have "x < length globals" if "x \<in> ran (global_map globals)" for x
    using that by (auto simp: global_map_def ran_def dest!: map_of_SomeD set_zip_rightD)
  then have "cg_shared ?md env" by (simp add: cg_shared_def env module_of_def)
  note ok = codegen_funcs_ok [OF run assms(2) this]
  have fcs: "funcs_ok ?md (next_number s') fcs" "fst ` set fcs = func_name ` set funcs" using ok by (simp_all add: funcs_ok_def)
  have "Func name \<in> set (defined_labels c)" if "(name, c) \<in> set fcs" for name c
    using fcs(1) that by (auto simp: funcs_ok_def func_code_ok_def cg_insn_defs get_label_simps)
  then have "Func (func_name f) \<in> set (defined_labels cs)" if "f \<in> set funcs" for f
    using that fcs(2) unfolding cs defined_labels_concat by (force simp: image_iff set_eq_iff)
  moreover have "l \<in> dom (label_target imps cs)" if "l \<in> set (defined_labels cs)" for l
    using that label_pos_None_iff [of cs l] by (auto simp: label_target_def split: option.splits)
  moreover have "External (imp_slot_num f) \<in> dom (label_target imps cs)" if "f \<in> set imps" for f
    using import_labels_slots [OF that] by (auto simp: label_target_def split: option.splits)
  ultimately have "known ?md \<union> set (defined_labels cs) \<subseteq> dom (label_target imps cs)" by (auto simp: module_of_def)
  with funcs_ok_code [OF fcs(1)] assms(3) show "distinct (defined_labels cs)" "wf_code (dom (label_target imps cs)) (length globals) b cs"
    by (simp_all add: cs module_of_def)
qed

lemma label_target_dom: "defined_labels cs = defined_labels cs' \<Longrightarrow> dom (label_target imps cs) = dom (label_target imps cs')"
proof -
  have "dom (label_target imps cs) = set (defined_labels cs) \<union> dom (import_labels imps)" for cs
    using label_pos_None_iff [of cs] by (auto simp: label_target_def dom_def split: option.splits)
  then show "defined_labels cs = defined_labels cs' \<Longrightarrow> ?thesis" by simp
qed

lemma stripped_opcodes:
  assumes "list_all (lowered ls) cs" "strip_labels cs jt imps = Inr (out, jt')" "collect_res to_avm out = Inl e"
  shows "\<exists>op locs. e = VirtualOpcode op locs \<and> op \<in> {UnaryMinus, LogicalAnd, LogicalOr}"
proof -
  from assms(3) obtain j where j: "j \<in> set out" "to_avm j = Inl e" by (auto dest: collect_res_Inl)
  from assms(2) j(1) obtain i where i: "i \<in> set cs" "\<not> is_label i" "instruction_replace_labels (label_target imps cs) i = Inr j"
  proof -
    let ?cs = "filter (\<lambda>i. \<not> is_label i) cs"
    have "list_all2 (\<lambda>i j. instruction_replace_labels (label_target imps cs) i = Inr j) ?cs out"
      using assms(2) by (simp add: strip_labels_eq)
    with j(1) obtain k where "k < length ?cs" "instruction_replace_labels (label_target imps cs) (?cs ! k) = Inr j"
      by (auto simp: list_all2_conv_all_nth in_set_conv_nth)
    moreover from this(1) have "?cs ! k \<in> set ?cs" by (rule nth_mem)
    ultimately show thesis using that by auto
  qed
  then have "opcode j = opcode i" by (auto simp: instruction_replace_labels_def cg_insn_defs split: option.splits sum.splits)
  moreover have "lowered ls i" using assms(1) i(1) by (simp add: list_all_iff)
  ultimately show ?thesis using i(2) j(2) by (auto simp: lowered_def to_avm_def is_avm_def split: opcode.splits)
qed

lemma generated_code_ok:
  assumes "mavm_codegen kec funcs tab imps globals release = Done cs ws"
    "\<forall>f \<in> set funcs. wf_func (module_of funcs tab imps globals) f" "\<forall>i \<in> set cs. sizes_fit i"
    "fix_nonforward_labels cs imps (length globals) = (cs2, jt)" "length jt \<le> usize_limit"
  shows "distinct (defined_labels cs) \<and>
    (\<exists>cs3 out jt'. fix_tuple_size cs2 (length globals + 1) = Inr cs3 \<and> strip_labels (peephole cs3) jt imps = Inr (out, jt')
       \<and> (\<forall>e. collect_res to_avm out = Inl e \<longrightarrow>
            (\<exists>op locs. e = VirtualOpcode op locs \<and> op \<in> {UnaryMinus, LogicalAnd, LogicalOr})))"
proof -
  let ?ls = "dom (label_target imps cs)"
  note ok = mavm_codegen_ok [OF assms(1-3)]
  note ref = fix_nonforward_eq [OF assms(4)]
  have wf: "wf_code ?ls (length globals + 1) 1 cs" by (rule wf_code_more_globals [OF ok(2)]) simp
  have "wf_code ?ls (length globals + 1) 1 cs2"
    using wf_code_nonforward [OF _ assms(5) _ wf] ref by simp
  from fix_insns_ok [OF this] obtain cs3 where cs3: "fix_tuple_size cs2 (length globals + 1) = Inr cs3" "list_all (lowered ?ls) cs3"
    by (auto simp: fix_tuple_size_def usize_limit_def)
  have "defined_labels cs2 = defined_labels cs"
    using fix_nonforward_labels_defined [of cs imps "length globals"] assms(4) by simp
  then have labels: "defined_labels (peephole cs3) = defined_labels cs"
    using cs3(1) fix_insns_labels by (simp add: peephole_labels fix_tuple_size_def)
  have low: "list_all (lowered ?ls) (peephole cs3)" by (rule peephole_lowered [OF cs3(2)])
  have "set (value_labels v) \<subseteq> ?ls" if "i \<in> set (peephole cs3)" "immediate i = Some v" for i v
  proof -
    from that(1) low have "insn_labels i \<subseteq> ?ls" by (simp add: list_all_iff lowered_def)
    with that(2) show ?thesis by (simp add: insn_labels_def)
  qed
  then have "\<exists>r. strip_labels (peephole cs3) jt imps = Inr r"
    unfolding strip_labels_Ex label_target_dom [OF labels] labels
    using ok(1) ref back_refs_labels [OF wf] by simp
  then obtain out jt' where "strip_labels (peephole cs3) jt imps = Inr (out, jt')" by auto
  with ok(1) cs3(1) stripped_opcodes [OF low this] show ?thesis by blast
qed

text \<open>
  C14: Generated code links.  The labels of a module are defined once.  Sending references backwards through the jump table,
  resolving tuples and frames, optimising and stripping the labels succeeds on the code of every well-formed module: no label
  is missing or defined twice, no slot of a frame, no field of a tuple and no global is out of range.  What remains are
  instructions of the machine and, where the source uses them, three operators that have no instruction.
\<close>

theorem generated_code_links:
  assumes "mavm_codegen kec funcs tab imps globals release = Done cs ws"
    "\<forall>f \<in> set funcs. wf_func (module_of funcs tab imps globals) f" "\<forall>i \<in> set cs. sizes_fit i"
    "fix_nonforward_labels cs imps (length globals) = (cs2, jt)" "length jt \<le> usize_limit"
  shows "distinct (defined_labels cs) \<and>
    (\<exists>cs3 out jt'. fix_tuple_size cs2 (length globals + 1) = Inr cs3 \<and> strip_labels (peephole cs3) jt imps = Inr (out, jt')
       \<and> (\<forall>e. collect_res to_avm out = Inl e \<longrightarrow>
            (\<exists>op locs. e = VirtualOpcode op locs \<and> op \<in> {UnaryMinus, LogicalAnd, LogicalOr})))"
  by (rule generated_code_ok [OF assms])

text \<open>A module with a global, an imported function and a function that calls it, loops and returns a disjunction.\<close>

abbreviation (input) demo_expr :: "tc_expr_kind \<Rightarrow> tc_expr" where
  "demo_expr k \<equiv> TcExpr k debug_info_default"

abbreviation (input) demo_stat :: "tc_statement_kind \<Rightarrow> tc_statement" where
  "demo_stat k \<equiv> TcStatement k debug_info_default"

definition demo_func :: tc_func where
  "demo_func = \<lparr>func_name = 5, func_args = [\<lparr>arg_name = 0, arg_tipe = TBool, arg_debug_info = debug_info_default\<rparr>],
     func_ret_type = TBool,
     func_code =
       [demo_stat (SLet (MatchPattern (PBind 1) debug_info_default TUint)
          (demo_expr (EFunctionCall (demo_expr (EFuncRef 9 (TFunc False [] TUint))) [] TUint \<lparr>pure = False\<rparr>))),
        demo_stat (SWhile (demo_expr (ELocalVariableRef 0 TBool))
          [demo_stat (SAssignGlobal 0 (demo_expr (EBinary BPlus (demo_expr (EGlobalVariableRef 0 TUint))
             (demo_expr (ELocalVariableRef 1 TUint)) TUint)))]),
        demo_stat (SReturn (demo_expr (EShortcutOr (demo_expr (ELocalVariableRef 0 TBool)) (demo_expr (EConst (IntV 1) TBool)))))],
     func_tipe = TFunc False [TBool] TBool, func_kind = Private, func_debug_info = debug_info_default,
     func_properties = \<lparr>pure = False\<rparr>\<rparr>"

definition demo_imports :: "imported_func list" where
  "demo_imports = [\<lparr>imp_name_id = 9, imp_slot_num = 2, imp_name = ''g''\<rparr>]"

lemma demo_codegen:
  "case mavm_codegen (\<lambda>bs. bs) [demo_func] string_table_new demo_imports [7] False of
     Done cs ws \<Rightarrow> ws = [] \<and> list_all (sizes_upto 10) cs \<and> length (snd (fix_nonforward_labels cs demo_imports 1)) \<le> 10
   | _ \<Rightarrow> False"
  by code_simp

lemma demo_wf: "wf_func (module_of [demo_func] string_table_new demo_imports [7]) demo_func"
  by (simp add: wf_func_def module_of_def demo_func_def demo_imports_def func_label_def import_map_def)

theorem generated_code_links_witness:
  "\<exists>cs cs2 jt cs3 out jt'. mavm_codegen (\<lambda>bs. bs) [demo_func] string_table_new demo_imports [7] False = Done cs []
     \<and> fix_nonforward_labels cs demo_imports 1 = (cs2, jt) \<and> fix_tuple_size cs2 2 = Inr cs3
     \<and> strip_labels (peephole cs3) jt demo_imports = Inr (out, jt')"
proof -
  have "sizes_upto 10 i \<Longrightarrow> sizes_fit i" for i
    by (auto simp: sizes_fit_def sizes_upto_def usize_limit_def split: opcode.splits)
  with demo_codegen obtain cs where cs: "mavm_codegen (\<lambda>bs. bs) [demo_func] string_table_new demo_imports [7] False = Done cs []"
    "\<forall>i \<in> set cs. sizes_fit i" "length (snd (fix_nonforward_labels cs demo_imports 1)) \<le> usize_limit"
    by (auto simp: list_all_iff usize_limit_def split: outcome.splits)
  obtain cs2 jt where "fix_nonforward_labels cs demo_imports 1 = (cs2, jt)" by fastforce
  with generated_code_links [OF cs(1) _ cs(2), of cs2 jt] cs demo_wf show ?thesis by (auto simp: numeral_2_eq_2 One_nat_def)
qed

text \<open>
  The three operators that remain are never lowered: negating a value that is not constant passes type checking and code
  generation, and then the program does not link.
\<close>

lemma unary_minus_does_not_link:
  "\<exists>out. fix_tuple_size [Instruction UnaryMinus None di] n = Inr out \<and> to_avm (hd out) = Inl (VirtualOpcode UnaryMinus (loc_list di))"
  "codegen_kind (EUnaryOp UMinus e t) di env s = bind_c (codegen_expr e env) (\<lambda>n. finish [Instruction UnaryMinus None di] (max (num_locals env) n)) s"
  by (simp_all add: fix_tuple_size_def fix_insn_def to_avm_def cg_unary_op_def unary_opcode_def)

text \<open>
  The scope of a code block without a result is not removed after the block.  In a loop whose body is an empty block
  followed by \<open>break\<close>, the jump leads to the end of the block, which lies before it, and not to the end of the loop.
\<close>

lemma break_after_block_jumps_back:
  "case codegen_kind (ELoop
       [demo_stat (SExpression (demo_expr (ECodeBlock (TcCodeBlock [] None None)))), demo_stat (SBreak None ''_'')])
       debug_info_default
       \<lparr>num_locals = 0, locals = Map.empty, prepushed_vals = 0, strings = string_table_new, import_func_map = Map.empty,
        global_var_map = Map.empty, release_build = False, env_hash = (\<lambda>bs. bs)\<rparr>
       \<lparr>cg_code = [], cg_label_gen = label_generator_new, cg_scopes = [], cg_warnings = []\<rparr> of
     Done n s \<Rightarrow> (let di = debug_info_default; l = next_label label_generator_new in
       cg_code s = [insn_imm Noop (LabelV (Anon l)) di, index_imm SetLocal 0 di, label_insn (Anon l) di,
         label_insn (Anon (l + 2)) di, insn_imm Jump (LabelV (Anon (l + 2))) di,
         index_imm GetLocal 0 di, insn Jump di, label_insn (Anon (l + 1)) di])
   | _ \<Rightarrow> False"
  by code_simp

end
