(* ===== verification/Typecheck_Wf.thy ===== *)
theory Typecheck_Wf
  imports Typecheck Codegen_Module "HOL-Library.Multiset"
begin

text \<open>
  What the type checker guarantees of its output: the conditions under which the code generator and the linker succeed.
\<close>

section \<open>Results of checks\<close>

text \<open>The result satisfies a condition whenever there is one.\<close>

definition gives :: "('a \<Rightarrow> bool) \<Rightarrow> ('e, 's, 'a) comp \<Rightarrow> bool" where
  "gives P c \<longleftrightarrow> (\<forall>s x s'. c s = Done x s' \<longrightarrow> P x)"

named_theorems gives_intros

lemma givesD: "gives P c \<Longrightarrow> c s = Done x s' \<Longrightarrow> P x"
  by (auto simp: gives_def)

lemma gives_return [gives_intros]: "P x \<Longrightarrow> gives P (return_c x)"
  by (simp add: gives_def return_c_def)

lemma gives_none [gives_intros]:
  "gives P (fail_c e)" "gives P panic_c" "gives P (type_fail d l)" "gives P (bad_operand w t l)" "gives P (bad_args w t1 t2 l)"
  "gives P (bad_logical w e1 e2 di)"
  by (simp_all add: gives_def fail_c_def panic_c_def type_fail_def bad_operand_def bad_args_def bad_logical_def)

lemma gives_any: "gives (\<lambda>_. True) c"
  by (simp add: gives_def)

lemma gives_bind: "gives Q c \<Longrightarrow> (\<And>x. Q x \<Longrightarrow> gives P (f x)) \<Longrightarrow> gives P (bind_c c f)"
  unfolding gives_def by (fastforce simp: bind_c_Done_iff)

lemma gives_bind_any: "(\<And>x. gives P (f x)) \<Longrightarrow> gives P (bind_c c f)"
  by (rule gives_bind [OF gives_any])

lemma gives_bind_fail: "gives P (bind_c c (\<lambda>m. type_fail (d m) l))"
  by (intro gives_bind_any gives_none)

lemma gives_then: "gives P c \<Longrightarrow> gives P (then_c d c)"
  unfolding then_c_def by (rule gives_bind_any)

lemma gives_unwrap: "(\<And>x. ox = Some x \<Longrightarrow> P x) \<Longrightarrow> gives P (unwrap_c ox)"
  by (cases ox) (auto simp: gives_def unwrap_c_def)

section \<open>Conditions on the source\<close>

text \<open>Assembly neither defines nor uses labels; assertions need the function of the library.\<close>

primrec src_expr_ok :: "cg_module \<Rightarrow> expr \<Rightarrow> bool"
  and src_kind_ok :: "cg_module \<Rightarrow> expr_kind \<Rightarrow> bool"
  and src_statement_ok :: "cg_module \<Rightarrow> statement \<Rightarrow> bool"
  and src_statement_kind_ok :: "cg_module \<Rightarrow> statement_kind \<Rightarrow> bool"
  and src_block_ok :: "cg_module \<Rightarrow> code_block \<Rightarrow> bool" where
  "src_expr_ok md (Expr k di) \<longleftrightarrow> src_kind_ok md k"
| "src_kind_ok md XNewBuffer \<longleftrightarrow> True"
| "src_kind_ok md XError \<longleftrightarrow> True"
| "src_kind_ok md (XUnaryOp op e) \<longleftrightarrow> src_expr_ok md e"
| "src_kind_ok md (XBinary op e1 e2) \<longleftrightarrow> src_expr_ok md e1 \<and> src_expr_ok md e2"
| "src_kind_ok md (XTrinary op e1 e2 e3) \<longleftrightarrow> src_expr_ok md e1 \<and> src_expr_ok md e2 \<and> src_expr_ok md e3"
| "src_kind_ok md (XShortcutOr e1 e2) \<longleftrightarrow> src_expr_ok md e1 \<and> src_expr_ok md e2"
| "src_kind_ok md (XShortcutAnd e1 e2) \<longleftrightarrow> src_expr_ok md e1 \<and> src_expr_ok md e2"
| "src_kind_ok md (XOptionInitializer e) \<longleftrightarrow> src_expr_ok md e"
| "src_kind_ok md (XVariableRef name) \<longleftrightarrow> True"
| "src_kind_ok md (XTupleRef e idx) \<longleftrightarrow> src_expr_ok md e"
| "src_kind_ok md (XDotRef e name) \<longleftrightarrow> src_expr_ok md e"
| "src_kind_ok md (XConstant c) \<longleftrightarrow> True"
| "src_kind_ok md (XFunctionCall f args) \<longleftrightarrow> src_expr_ok md f \<and> list_all id (map (src_expr_ok md) args)"
| "src_kind_ok md (XCodeBlock b) \<longleftrightarrow> src_block_ok md b"
| "src_kind_ok md (XArrayOrMapRef e1 e2) \<longleftrightarrow> src_expr_ok md e1 \<and> src_expr_ok md e2"
| "src_kind_ok md (XNewArray e t) \<longleftrightarrow> src_expr_ok md e"
| "src_kind_ok md (XNewFixedArray sz oe) \<longleftrightarrow> (case map_option (src_expr_ok md) oe of Some b \<Rightarrow> b | None \<Rightarrow> True)"
| "src_kind_ok md (XNewMap kt vt) \<longleftrightarrow> True"
| "src_kind_ok md (XNewUnion ts e) \<longleftrightarrow> src_expr_ok md e"
| "src_kind_ok md (XStructInitializer flds) \<longleftrightarrow> list_all id (map init_value (map (map_field_initializer (src_expr_ok md)) flds))"
| "src_kind_ok md (XTuple es) \<longleftrightarrow> list_all id (map (src_expr_ok md) es)"
| "src_kind_ok md (XArrayOrMapMod e1 e2 e3) \<longleftrightarrow> src_expr_ok md e1 \<and> src_expr_ok md e2 \<and> src_expr_ok md e3"
| "src_kind_ok md (XStructMod e1 name e2) \<longleftrightarrow> src_expr_ok md e1 \<and> src_expr_ok md e2"
| "src_kind_ok md (XUnsafeCast e t) \<longleftrightarrow> src_expr_ok md e"
| "src_kind_ok md (XAsm t insns args) \<longleftrightarrow> wf_asm md insns \<and> list_all id (map (src_expr_ok md) args)"
| "src_kind_ok md (XTry e) \<longleftrightarrow> src_expr_ok md e"
| "src_kind_ok md XGetGas \<longleftrightarrow> True"
| "src_kind_ok md (XSetGas e) \<longleftrightarrow> src_expr_ok md e"
| "src_kind_ok md (XIf c b ob) \<longleftrightarrow>
     src_expr_ok md c \<and> src_block_ok md b \<and> (case map_option (src_block_ok md) ob of Some b \<Rightarrow> b | None \<Rightarrow> True)"
| "src_kind_ok md (XIfLet l e b ob) \<longleftrightarrow>
     src_expr_ok md e \<and> src_block_ok md b \<and> (case map_option (src_block_ok md) ob of Some b \<Rightarrow> b | None \<Rightarrow> True)"
| "src_kind_ok md (XLoop stats) \<longleftrightarrow> list_all id (map (src_statement_ok md) stats)"
| "src_kind_ok md (XUnionCast e t) \<longleftrightarrow> src_expr_ok md e"
| "src_statement_ok md (Statement k di) \<longleftrightarrow> src_statement_kind_ok md k"
| "src_statement_kind_ok md YNoop \<longleftrightarrow> True"
| "src_statement_kind_ok md YReturnVoid \<longleftrightarrow> True"
| "src_statement_kind_ok md (YReturn e) \<longleftrightarrow> src_expr_ok md e"
| "src_statement_kind_ok md (YBreak oe sc) \<longleftrightarrow> (case map_option (src_expr_ok md) oe of Some b \<Rightarrow> b | None \<Rightarrow> True)"
| "src_statement_kind_ok md (YExpression e) \<longleftrightarrow> src_expr_ok md e"
| "src_statement_kind_ok md (YLet pat e) \<longleftrightarrow> src_expr_ok md e"
| "src_statement_kind_ok md (YAssign name e) \<longleftrightarrow> src_expr_ok md e"
| "src_statement_kind_ok md (YWhile c stats) \<longleftrightarrow> src_expr_ok md c \<and> list_all id (map (src_statement_ok md) stats)"
| "src_statement_kind_ok md (YAsm insns args) \<longleftrightarrow> wf_asm md insns \<and> list_all id (map (src_expr_ok md) args)"
| "src_statement_kind_ok md (YDebugPrint e) \<longleftrightarrow> src_expr_ok md e"
| "src_statement_kind_ok md (YAssert e) \<longleftrightarrow> src_expr_ok md e \<and> builtin_known md ''builtin_assert''"
| "src_block_ok md (CodeBlock body r) \<longleftrightarrow>
     list_all id (map (src_statement_ok md) body) \<and> (case map_option (src_expr_ok md) r of Some b \<Rightarrow> b | None \<Rightarrow> True)"

text \<open>The tables of the checker fit the module: functions and builtins have known labels, globals are numbered.\<close>

definition env_fits :: "cg_module \<Rightarrow> tc_env \<Rightarrow> bool" where
  "env_fits md env \<longleftrightarrow>
     (\<forall>name t. te_funcs env name = Some t \<longrightarrow> func_label md name \<in> known md)
     \<and> (\<forall>name t i. te_globals env name = Some (t, i) \<longrightarrow> i < globals_count md)
     \<and> (\<forall>imp \<in> set builtin_func_decls. builtin_known md (import_name imp))"

lemma env_fits_bind [simp]: "env_fits md (bind_types bs env) \<longleftrightarrow> env_fits md env"
  by (simp add: env_fits_def bind_types_def)

lemma env_fits_builtins:
  "env_fits md env \<Longrightarrow> builtin_known md ''builtin_arrayNew''" "env_fits md env \<Longrightarrow> builtin_known md ''builtin_arrayGet''"
  "env_fits md env \<Longrightarrow> builtin_known md ''builtin_arraySet''" "env_fits md env \<Longrightarrow> builtin_known md ''builtin_kvsNew''"
  "env_fits md env \<Longrightarrow> builtin_known md ''builtin_kvsGet''" "env_fits md env \<Longrightarrow> builtin_known md ''builtin_kvsSet''"
  by (simp_all add: env_fits_def builtin_func_decls_def import_new_builtin_def)

section \<open>Checkers with well-formed results\<close>

definition sound_expr :: "cg_module \<Rightarrow> expr_check \<Rightarrow> bool" where
  "sound_expr md c \<longleftrightarrow> (\<forall>env. env_fits md env \<longrightarrow> gives (wf_expr md) (c env))"

definition sound_kind :: "cg_module \<Rightarrow> kind_check \<Rightarrow> bool" where
  "sound_kind md c \<longleftrightarrow> (\<forall>env. env_fits md env \<longrightarrow> gives (wf_kind md) (c env))"

definition sound_statement :: "cg_module \<Rightarrow> (tc_statement \<times> (string_id \<times> tipe) list) checker \<Rightarrow> bool" where
  "sound_statement md c \<longleftrightarrow> (\<forall>env. env_fits md env \<longrightarrow> gives (\<lambda>(st, _). wf_statement md st) (c env))"

definition sound_statement_kind :: "cg_module \<Rightarrow> stat_check \<Rightarrow> bool" where
  "sound_statement_kind md c \<longleftrightarrow> (\<forall>env. env_fits md env \<longrightarrow> gives (\<lambda>(st, _). wf_statement_kind md st) (c env))"

definition sound_block :: "cg_module \<Rightarrow> tc_code_block checker \<Rightarrow> bool" where
  "sound_block md c \<longleftrightarrow> (\<forall>env. env_fits md env \<longrightarrow> gives (wf_block md) (c env))"

lemmas sound_defs = sound_expr_def sound_kind_def sound_statement_def sound_statement_kind_def sound_block_def

lemma sound_exprD: "sound_expr md c \<Longrightarrow> env_fits md env \<Longrightarrow> gives (wf_expr md) (c env)"
  by (simp add: sound_expr_def)

lemma bind_expr [gives_intros]:
  "sound_expr md c \<Longrightarrow> env_fits md env \<Longrightarrow> (\<And>e. wf_expr md e \<Longrightarrow> gives P (f e)) \<Longrightarrow> gives P (bind_c (c env) f)"
  by (rule gives_bind [OF sound_exprD])

lemma wf_exprI: "wf_expr md e \<longleftrightarrow> wf_kind md (expr_kind e)"
  by (cases e) simp

lemma int_const_wf: "int_const e = Some (v, t) \<Longrightarrow> wf_expr md e"
  by (cases e) (auto simp: int_const_def split: tc_expr_kind.splits val.splits)

lemma sound_unary: "sound_expr md e \<Longrightarrow> sound_kind md (tc_unary op e di)"
  unfolding sound_kind_def tc_unary_def typecheck_unary_op_def
  by (intro allI impI gives_intros, assumption+, rule gives_bind_any, cases op)
     (auto simp: check_minus_def check_bitwise_neg_def check_not_def check_hash_def check_len_def check_convert_def check_to_address_def
       intro!: gives_intros split: tipe.split option.split)

lemma folded_wf: "gives (wf_kind md) (typecheck_binary_op_const env op v1 t1 v2 t2 loc)"
  unfolding gives_def
proof (intro allI impI)
  fix s k s'
  assume "typecheck_binary_op_const env op v1 t1 v2 t2 loc s = Done k s'"
  then show "wf_kind md k"
    by (cases op)
       (auto simp: typecheck_binary_op_const_def const_arith_def const_same_def const_logical_def const_shift_def check_results Let_def
         dest!: const_div_Done const_compare_Done split: option.splits if_splits)
qed

lemma operands_wf:
  assumes "wf_expr md e1" "wf_expr md e2"
  shows "gives (wf_kind md) (typecheck_operands env op e1 e2 loc)"
  unfolding typecheck_operands_def gives_def
proof (intro allI impI)
  fix s k s'
  assume "bind_c (represent env (expr_get_type e1)) (\<lambda>t1. bind_c (represent env (expr_get_type e2)) (\<lambda>t2. check_operands op e1 t1 e2 t2 loc)) s = Done k s'"
  then show "wf_kind md k"
    using assms
    by (cases op)
       (auto simp: bind_c_Done_iff check_operands_def buffer_op_def equality_op_def bitwise_op_def uniform_op_def check_results
         dest!: numeric_op_Done split: if_splits)
qed

lemma sound_binary: "sound_expr md e1 \<Longrightarrow> sound_expr md e2 \<Longrightarrow> sound_kind md (tc_binary op e1 e2 di)"
  unfolding sound_kind_def tc_binary_def typecheck_binary_op_def
  by (auto intro!: gives_intros folded_wf operands_wf split: option.split)

lemma sound_trinary:
  "sound_expr md e1 \<Longrightarrow> sound_expr md e2 \<Longrightarrow> sound_expr md e3 \<Longrightarrow> sound_kind md (tc_trinary op e1 e2 e3 di)"
  unfolding sound_kind_def tc_trinary_def typecheck_trinary_op_def
  by (intro allI impI bind_expr gives_bind_any; assumption?) (auto intro!: gives_intros)

lemma sound_shortcut:
  "sound_expr md e1 \<Longrightarrow> sound_expr md e2 \<Longrightarrow> sound_kind md (tc_shortcut_or e1 e2 di)"
  "sound_expr md e1 \<Longrightarrow> sound_expr md e2 \<Longrightarrow> sound_kind md (tc_shortcut_and e1 e2 di)"
  unfolding sound_kind_def tc_shortcut_or_def tc_shortcut_and_def by (auto intro!: gives_intros)

lemma sound_option_initializer: "sound_expr md e \<Longrightarrow> sound_kind md (tc_option_initializer e di)"
  unfolding sound_kind_def tc_option_initializer_def by (auto intro!: gives_intros)

lemma sound_variable_ref: "sound_kind md (tc_variable_ref name di)"
  unfolding sound_kind_def tc_variable_ref_def
  by (auto intro!: gives_intros simp: env_fits_def split: option.split)

lemma sound_tuple_ref: "sound_expr md e \<Longrightarrow> sound_kind md (tc_tuple_ref e idx di)"
  unfolding sound_kind_def tc_tuple_ref_def
  by (intro allI impI gives_intros gives_bind [OF gives_unwrap [where P = "\<lambda>u. u = idx"]])
     (auto simp: uint256_to_usize_def intro!: gives_intros split: tipe.split if_splits)

lemma struct_slot_less: "struct_slot i flds name = Some k \<Longrightarrow> k < i + length flds"
  by (induction i flds name rule: struct_slot.induct) (auto split: if_splits)

lemma slot_by_name_less: "get_struct_slot_by_name (TStruct flds) name = Some k \<Longrightarrow> k < length flds"
  using struct_slot_less [of 0] by (fastforce simp: get_struct_slot_by_name_def)

lemma sound_dot_ref: "sound_expr md e \<Longrightarrow> sound_kind md (tc_dot_ref e name di)"
  unfolding sound_kind_def tc_dot_ref_def
  by (intro allI impI gives_intros, assumption+, rule gives_bind_any)
     (auto dest: slot_by_name_less intro!: gives_intros split: tipe.split option.split)

lemma option_const_labels: "value_labels (constant_value c) = []" "value_labels (option_const_value oc) = []"
  by (induction c and oc) (simp_all add: value_none_def value_new_tuple_def)

lemma sound_constant: "sound_kind md (tc_constant c di)"
  unfolding sound_kind_def tc_constant_def
  by (auto intro!: gives_intros simp: option_const_labels value_none_def value_new_tuple_def split: mini_constant.split)

lemma sound_check_all:
  "list_all (sound_expr md) cs \<Longrightarrow> env_fits md env \<Longrightarrow> gives (\<lambda>es. list_all (wf_expr md) es \<and> length es = length cs) (check_all cs env)"
  by (induction cs) (auto intro!: gives_intros intro: gives_bind)

lemma sound_call_args:
  "list_all (sound_expr md) cs \<Longrightarrow> env_fits md env \<Longrightarrow> gives (list_all (wf_expr md)) (tc_call_args cs ts di env)"
proof (induction cs ts di env rule: tc_call_args.induct)
  case (1 a args t ts di env)
  then have rest: "gives (list_all (wf_expr md)) (tc_call_args args ts di env)" by simp
  show ?case
    using "1.prems" unfolding tc_call_args.simps
    by (intro bind_expr gives_bind_any) (auto intro!: gives_intros gives_bind [OF rest] intro: gives_bind_any)
qed (auto intro!: gives_intros)

lemma sound_function_call:
  "sound_expr md f \<Longrightarrow> list_all (sound_expr md) args \<Longrightarrow> sound_kind md (tc_function_call f args di)"
  unfolding sound_kind_def tc_function_call_def
  by (intro allI impI gives_intros, assumption+, rule gives_bind_any)
     (auto simp: list_all_iff intro!: gives_intros gives_bind [OF sound_call_args] split: tipe.split)

subsection \<open>Arrays, tuples, structs and unions\<close>

lemma gives_case_container:
  "(\<And>t. gives P (fa t)) \<Longrightarrow> (\<And>t n. gives P (ff t n)) \<Longrightarrow> (\<And>k v. gives P (fm k v)) \<Longrightarrow> (\<And>t. gives P (fo t)) \<Longrightarrow>
   gives P (case rep of TArray t \<Rightarrow> fa t | TFixedArray t n \<Rightarrow> ff t n | TMap k v \<Rightarrow> fm k v | other \<Rightarrow> fo other)"
  by (cases rep) simp_all

lemma sound_array_or_map_ref: "sound_expr md e1 \<Longrightarrow> sound_expr md e2 \<Longrightarrow> sound_kind md (tc_array_or_map_ref e1 e2 di)"
  unfolding sound_kind_def tc_array_or_map_ref_def Let_def
  by (intro allI impI bind_expr gives_bind_any gives_case_container; assumption?)
     (auto intro!: gives_intros gives_bind_any dest: env_fits_builtins)

lemma sound_new_array: "sound_expr md e \<Longrightarrow> sound_kind md (tc_new_array e t di)"
  unfolding sound_kind_def tc_new_array_def
  by (intro allI impI bind_expr gives_bind_any; assumption?) (auto intro!: gives_intros dest: env_fits_builtins)

lemma sound_new_fixed_array: "pred_option (sound_expr md) oe \<Longrightarrow> sound_kind md (tc_new_fixed_array sz oe di)"
  unfolding sound_kind_def tc_new_fixed_array_def
  by (cases oe) (auto intro!: gives_intros)

lemma sound_new_map: "sound_kind md (tc_new_map kt vt di)"
  unfolding sound_kind_def tc_new_map_def by (auto intro!: gives_intros dest: env_fits_builtins)

lemma sound_array_or_map_mod:
  "sound_expr md e1 \<Longrightarrow> sound_expr md e2 \<Longrightarrow> sound_expr md e3 \<Longrightarrow> sound_kind md (tc_array_or_map_mod e1 e2 e3 di)"
  unfolding sound_kind_def tc_array_or_map_mod_def Let_def array_mod_index_def
  by (intro allI impI bind_expr gives_bind_any gives_case_container; assumption?)
     (auto intro!: gives_intros gives_bind_any env_fits_builtins)

lemma sound_new_union: "sound_expr md e \<Longrightarrow> sound_kind md (tc_new_union ts e di)"
  unfolding sound_kind_def tc_new_union_def
  by (intro allI impI bind_expr gives_bind_any; assumption?) (auto intro!: gives_intros)

lemma sound_union_cast: "sound_expr md e \<Longrightarrow> sound_kind md (tc_union_cast e t di)"
  unfolding sound_kind_def tc_union_cast_def
  by (intro allI impI bind_expr gives_bind_any; assumption?) (auto intro!: gives_intros split: tipe.split)

lemma sound_struct_initializer:
  "list_all (sound_expr md) (map init_value flds) \<Longrightarrow> sound_kind md (tc_struct_initializer flds di)"
  unfolding sound_kind_def tc_struct_initializer_def Let_def
  by (auto simp: list_all_length intro!: gives_intros gives_bind [OF sound_check_all])

lemma sound_tuple: "list_all (sound_expr md) es \<Longrightarrow> sound_kind md (tc_tuple es di)"
  unfolding sound_kind_def tc_tuple_def
  by (auto simp: list_all_iff intro!: gives_intros gives_bind [OF sound_check_all])

lemma sound_struct_mod: "sound_expr md e1 \<Longrightarrow> sound_expr md e2 \<Longrightarrow> sound_kind md (tc_struct_mod e1 name e2 di)"
  unfolding sound_kind_def tc_struct_mod_def
  by (intro allI impI bind_expr gives_bind_any; assumption?)
     (auto intro!: gives_intros gives_bind_any slot_by_name_less split: tipe.split option.split)

lemma sound_unsafe_cast: "sound_expr md e \<Longrightarrow> sound_kind md (tc_unsafe_cast e t di)"
  unfolding sound_kind_def tc_unsafe_cast_def by (auto intro!: gives_intros)

subsection \<open>Control flow\<close>

lemma sound_asm: "wf_asm md insns \<Longrightarrow> list_all (sound_expr md) es \<Longrightarrow> sound_kind md (tc_asm t insns es di)"
  unfolding sound_kind_def tc_asm_def
  by (auto simp: list_all_iff intro!: gives_intros gives_bind [OF sound_check_all])

lemma gives_in_option_function:
  "gives P body \<Longrightarrow> gives P (case t of TOption _ \<Rightarrow> body | TAny \<Rightarrow> body | ret \<Rightarrow> type_fail (f ret) l)"
  by (cases t) (simp_all add: gives_none)

lemma sound_try: "sound_expr md e \<Longrightarrow> sound_kind md (tc_try e di)"
  unfolding sound_kind_def tc_try_def Let_def
  by (intro allI impI gives_in_option_function bind_expr gives_bind_any; assumption?) (auto intro!: gives_intros split: tipe.split)

lemma sound_set_gas: "sound_expr md e \<Longrightarrow> sound_kind md (tc_set_gas e di)"
  unfolding sound_kind_def tc_set_gas_def by (auto intro!: gives_intros)

lemma bind_block [gives_intros]:
  "sound_block md c \<Longrightarrow> env_fits md env \<Longrightarrow> (\<And>b. wf_block md b \<Longrightarrow> gives P (f b)) \<Longrightarrow> gives P (bind_c (c env) f)"
  unfolding sound_block_def by (blast intro: gives_bind)

lemma sound_check_opt:
  "pred_option (\<lambda>c. \<forall>env. env_fits md env \<longrightarrow> gives P (c env)) oc \<Longrightarrow> env_fits md env \<Longrightarrow> gives (pred_option P) (check_opt oc env)"
  by (cases oc) (auto simp: check_opt_def intro!: gives_intros intro: gives_bind)

lemma bind_opt_block [gives_intros]:
  "pred_option (sound_block md) oc \<Longrightarrow> env_fits md env \<Longrightarrow> (\<And>ob. pred_option (wf_block md) ob \<Longrightarrow> gives P (f ob))
   \<Longrightarrow> gives P (bind_c (check_opt oc env) f)"
  by (rule gives_bind [OF sound_check_opt]) (cases oc; simp add: sound_block_def)+

lemma bind_opt_expr [gives_intros]:
  "pred_option (sound_expr md) oc \<Longrightarrow> env_fits md env \<Longrightarrow> (\<And>oe. pred_option (wf_expr md) oe \<Longrightarrow> gives P (f oe))
   \<Longrightarrow> gives P (bind_c (check_opt oc env) f)"
  by (rule gives_bind [OF sound_check_opt]) (cases oc; simp add: sound_expr_def)+

lemma pred_option_case: "(case map_option f oe of Some b \<Rightarrow> b | None \<Rightarrow> True) \<longleftrightarrow> pred_option f oe"
  by (cases oe) simp_all

lemma sound_if:
  "sound_expr md c \<Longrightarrow> sound_block md b \<Longrightarrow> pred_option (sound_block md) ob \<Longrightarrow> sound_kind md (tc_if c b ob di)"
  unfolding sound_kind_def tc_if_def
  by (intro allI impI bind_expr bind_block bind_opt_block; assumption?)
     (auto simp: pred_option_case [simplified] intro!: gives_intros gives_bind_any)

lemma gives_case_option_type:
  "(\<And>t. gives P (f t)) \<Longrightarrow> (\<And>t. gives P (g t)) \<Longrightarrow> gives P (case rep of TOption t \<Rightarrow> f t | other \<Rightarrow> g other)"
  by (cases rep) simp_all

lemma sound_if_let:
  "sound_expr md e \<Longrightarrow> sound_block md b \<Longrightarrow> pred_option (sound_block md) ob \<Longrightarrow> sound_kind md (tc_if_let l e b ob di)"
  unfolding sound_kind_def tc_if_let_def
  by (intro allI impI bind_expr gives_case_option_type bind_block bind_opt_block; (assumption | simp)?)
     (auto simp: pred_option_case [simplified] intro!: gives_none gives_return gives_bind_any)

subsection \<open>Statements\<close>

lemma sound_return: "sound_expr md e \<Longrightarrow> sound_statement_kind md (tc_return e di)"
  unfolding sound_statement_kind_def tc_return_def
  by (intro allI impI bind_expr gives_bind_any; assumption?) (auto intro!: gives_intros gives_bind_any)

lemma sound_return_void: "sound_statement_kind md (tc_return_void di)"
  unfolding sound_statement_kind_def tc_return_void_def by (auto intro!: gives_intros gives_bind_any)

lemma sound_break: "pred_option (sound_expr md) oe \<Longrightarrow> sound_statement_kind md (tc_break oe sc di)"
proof -
  assume oe: "pred_option (sound_expr md) oe"
  have again: "gives (\<lambda>(st, _). wf_statement_kind md st) (bind_c (check_opt oe env) (\<lambda>te. return_c (SBreak te key, [])))"
    if "env_fits md env" for env key
    using oe that by (intro bind_opt_expr) (auto simp: pred_option_case [simplified] intro!: gives_intros)
  show ?thesis
    unfolding sound_statement_kind_def tc_break_def Let_def
    by (intro allI impI, rule gives_bind_any, rule gives_bind_any) (auto intro!: again gives_none gives_bind_fail split: option.split)
qed

lemma sound_expression: "sound_expr md e \<Longrightarrow> sound_statement_kind md (tc_expression e di)"
  "sound_expr md e \<Longrightarrow> sound_statement_kind md (tc_debug_print e di)"
  unfolding sound_statement_kind_def tc_expression_def tc_debug_print_def by (auto intro!: gives_intros)

lemma sound_let: "sound_expr md e \<Longrightarrow> sound_statement_kind md (tc_let pat e di)"
proof -
  assume e: "sound_expr md e"
  have pat: "gives (\<lambda>(st, _). wf_statement_kind md st)
      (case pat_kind pat of
         PBind name \<Rightarrow> return_c (SLet (MatchPattern (PBind name) (pat_debug_info pat) t) x, [(name, t)])
       | PAssign _ \<Rightarrow> panic_c
       | PTuple pats \<Rightarrow>
           bind_c (typecheck_patvec t pats (location di)) (\<lambda>(tc_pats, bindings).
             return_c (SLet (MatchPattern (PTuple tc_pats) (pat_debug_info pat) t) x, bindings)))"
    if "wf_expr md x" for x t
    using that by (auto intro!: gives_intros gives_bind_any split: match_pattern_kind.split)
  show ?thesis
    unfolding sound_statement_kind_def tc_let_def Let_def
    by (intro allI impI bind_expr [OF e]) (auto intro!: gives_none gives_bind [OF pat] gives_then gives_return)
qed

lemma sound_assign: "sound_expr md e \<Longrightarrow> sound_statement_kind md (tc_assign name e di)"
  unfolding sound_statement_kind_def tc_assign_def Let_def
  by (intro allI impI bind_expr; assumption?)
     (auto simp: env_fits_def intro!: gives_none gives_return gives_bind_any split: option.split)

lemma sound_statements:
  "list_all (sound_statement md) cs \<Longrightarrow> env_fits md env \<Longrightarrow>
   gives (\<lambda>(sts, env'). list_all (wf_statement md) sts \<and> env_fits md env') (tc_statements cs env)"
proof (induction cs arbitrary: env)
  case (Cons c cs)
  then have c: "gives (\<lambda>(st, _). wf_statement md st) (c env)" by (simp add: sound_statement_def)
  have rest: "gives (\<lambda>(sts, env'). list_all (wf_statement md) sts \<and> env_fits md env') (tc_statements cs (bind_types bs env))" for bs
    using Cons by simp
  show ?case
    unfolding tc_statements.simps by (intro gives_bind [OF c]) (auto intro!: gives_bind [OF rest] gives_return)
qed (auto intro!: gives_intros)

lemma sound_sequence:
  "list_all (sound_statement md) cs \<Longrightarrow> env_fits md env \<Longrightarrow> gives (list_all (wf_statement md)) (tc_sequence cs env)"
  unfolding tc_sequence_def by (rule gives_bind [OF sound_statements]) (auto intro!: gives_return)

lemma sound_while: "sound_expr md c \<Longrightarrow> list_all (sound_statement md) cs \<Longrightarrow> sound_statement_kind md (tc_while c cs di)"
  unfolding sound_statement_kind_def tc_while_def
  by (auto simp: list_all_iff [symmetric] list.pred_map id_comp intro!: bind_expr gives_none gives_return gives_bind [OF sound_sequence])

lemma sound_loop:
  "list_all (sound_statement md) cs \<Longrightarrow> sound_kind md (\<lambda>env. bind_c (tc_sequence cs env) (\<lambda>sts. return_c (ELoop sts)))"
  unfolding sound_kind_def by (auto simp: list.pred_map id_comp intro!: gives_return gives_bind [OF sound_sequence])

lemma sound_asm_statement:
  "wf_asm md insns \<Longrightarrow> list_all (sound_expr md) es \<Longrightarrow> sound_statement_kind md (tc_asm_statement insns es di)"
  unfolding sound_statement_kind_def tc_asm_statement_def
  by (auto simp: list_all_iff intro!: gives_intros gives_bind [OF sound_check_all])

lemma sound_assert:
  "sound_expr md e \<Longrightarrow> builtin_known md ''builtin_assert'' \<Longrightarrow> sound_statement_kind md (tc_assert e di)"
  unfolding sound_statement_kind_def tc_assert_def
  by (auto intro!: gives_none gives_return bind_expr split: tipe.split list.split)

lemma sound_codeblock:
  assumes "list_all (sound_statement md) cs" "pred_option (sound_expr md) oe"
  shows "sound_block md (tc_codeblock cs oe)"
  unfolding sound_block_def tc_codeblock_def
  using assms
  by (auto simp: list.pred_map id_comp pred_option_case [simplified] intro!: gives_then gives_bind [OF sound_statements] bind_opt_expr gives_return)

subsection \<open>All expressions and statements\<close>

lemma list_all_sound:
  "list_all id (map ok xs) \<Longrightarrow> (\<And>x. x \<in> set xs \<Longrightarrow> ok x \<longrightarrow> sound (f x)) \<Longrightarrow> list_all sound (map f xs)"
  by (auto simp: list_all_iff)

lemma pred_option_sound:
  "(case map_option ok ox of Some b \<Rightarrow> b | None \<Rightarrow> True) \<Longrightarrow> (\<And>x. x \<in> set_option ox \<Longrightarrow> ok x \<longrightarrow> sound (f x)) \<Longrightarrow>
   pred_option sound (map_option f ox)"
  by (cases ox) auto

lemma typecheck_sound:
  "src_expr_ok md e \<longrightarrow> sound_expr md (typecheck_expr e)"
  "src_kind_ok md k \<longrightarrow> (\<forall>di. sound_kind md (typecheck_kind k di))"
  "src_statement_ok md st \<longrightarrow> sound_statement md (typecheck_statement st)"
  "src_statement_kind_ok md sk \<longrightarrow> (\<forall>di. sound_statement_kind md (typecheck_statement_kind sk di))"
  "src_block_ok md bl \<longrightarrow> sound_block md (typecheck_codeblock bl)"
proof (induction e and k and st and sk and bl)
  case (Expr k di)
  then show ?case
    unfolding sound_expr_def sound_kind_def by (auto intro!: gives_bind [where Q = "wf_kind md"] gives_return)
next
  case (Statement sk di)
  then show ?case
    unfolding sound_statement_def sound_statement_kind_def
    by (auto intro!: gives_bind [where Q = "\<lambda>(st, _). wf_statement_kind md st"] gives_return)
next
  case (XStructInitializer flds)
  have "list_all (sound_expr md) (map init_value (map (map_field_initializer typecheck_expr) flds))"
    if "src_kind_ok md (XStructInitializer flds)"
    using that XStructInitializer
    by (auto simp: list_all_iff field_initializer.map_sel) (metis field_initializer.set_sel)
  then show ?case by (simp add: sound_struct_initializer)
next
  case (XCodeBlock b)
  then show ?case unfolding sound_kind_def by (auto intro!: bind_block gives_return)
next
  case XNewBuffer
  then show ?case by (auto simp: sound_kind_def intro!: gives_return)
next
  case XError
  then show ?case by (auto simp: sound_kind_def intro!: gives_return)
next
  case XGetGas
  then show ?case by (auto simp: sound_kind_def intro!: gives_return)
next
  case YNoop
  then show ?case by (auto simp: sound_statement_kind_def intro!: gives_return)
qed (auto intro!: sound_unary sound_binary sound_trinary sound_shortcut sound_option_initializer sound_variable_ref sound_tuple_ref
    sound_dot_ref sound_constant sound_function_call sound_array_or_map_ref sound_new_array sound_new_fixed_array sound_new_map
    sound_array_or_map_mod sound_new_union sound_union_cast sound_tuple sound_struct_mod sound_unsafe_cast sound_asm sound_try
    sound_set_gas sound_if sound_if_let sound_loop sound_return sound_return_void sound_break sound_expression sound_let sound_assign
    sound_while sound_asm_statement sound_assert sound_codeblock
    intro: list_all_sound [where ok = "src_expr_ok md"] list_all_sound [where ok = "src_statement_ok md"]
      pred_option_sound [where ok = "src_expr_ok md"] pred_option_sound [where ok = "src_block_ok md"])

section \<open>Functions and modules\<close>

lemma env_fits_func [simp]: "env_fits md (func_env env fd undef) \<longleftrightarrow> env_fits md env"
  by (simp add: func_env_def) (simp add: env_fits_def)

lemma func_error_fails [simp]: "func_error st i desc locs s \<noteq> Done x s'"
  by (simp add: func_error_def bind_c_def unwrap_c_def fail_c_def panic_c_def return_c_def split: option.split)

lemma check_last_statement_keeps: "check_last_statement st fd s = Done x s' \<Longrightarrow> s' = s"
  by (auto simp: check_last_statement_def return_c_def split: if_splits statement_kind.splits)

lemma define_func_Done:
  "define_func st fd s = Done x s' \<Longrightarrow> s (func_name fd) = None \<and> s' = s(func_name fd \<mapsto> location (func_debug_info fd))"
  by (auto simp: define_func_def split: option.splits)

lemma check_func_args_Done: "check_func_args st fd env args s = Done x s' \<Longrightarrow> s' = s \<and> (\<forall>a \<in> set args. s (arg_name a) = None)"
proof (induction st fd env args s rule: check_func_args.induct)
  case (2 st fd env arg args undef)
  then show ?case
    by (auto simp: bind_c_def unwrap_c_def return_c_def panic_c_def split: option.splits sum.splits)
qed simp

lemma typecheck_function_Done:
  assumes "typecheck_function env st fd s = Done f s'"
  shows "s (func_name fd) = None \<and> s' = s(func_name fd \<mapsto> location (func_debug_info fd)) \<and> (\<forall>a \<in> set (func_args fd). s' (arg_name a) = None)
    \<and> (\<exists>sts scs. tc_sequence (map typecheck_statement (func_code fd)) (func_env env fd s') [] = Done sts scs
        \<and> f = \<lparr>func_name = func_name fd, func_args = func_args fd, func_ret_type = func_ret_type fd, func_code = sts,
               func_tipe = func_tipe fd, func_kind = func_kind fd, func_debug_info = func_debug_info fd,
               func_properties = func_properties fd\<rparr>)"
proof -
  from assms obtain s1 s2 s3 where s: "check_last_statement st fd s = Done () s1" "define_func st fd s1 = Done () s2"
    "check_func_args st fd env (func_args fd) s2 = Done () s3"
    "(case tc_sequence (map typecheck_statement (func_code fd)) (func_env env fd s3) [] of
        Done sts scs \<Rightarrow> Done \<lparr>func_name = func_name fd, func_args = func_args fd, func_ret_type = func_ret_type fd, func_code = sts,
               func_tipe = func_tipe fd, func_kind = func_kind fd, func_debug_info = func_debug_info fd,
               func_properties = func_properties fd\<rparr> s3
      | Fail e scs \<Rightarrow> Fail e s3 | Panic \<Rightarrow> Panic) = Done f s'"
    unfolding typecheck_function_def then_c_def by (auto simp: bind_c_Done_iff)
  with check_last_statement_keeps [OF s(1)] define_func_Done [OF s(2)] check_func_args_Done [OF s(3)] show ?thesis
    by (auto split: outcome.splits)
qed

lemma typecheck_function_wf:
  assumes "typecheck_function env st fd s = Done f s'" "list_all (src_statement_ok md) (func_code fd)" "env_fits md env"
  shows "wf_func md f"
proof -
  have "list_all (sound_statement md) (map typecheck_statement (func_code fd))"
    using assms(2) typecheck_sound(3) by (auto simp: list_all_iff)
  then have "gives (list_all (wf_statement md)) (tc_sequence (map typecheck_statement (func_code fd)) (func_env env fd s'))"
    using assms(3) by (intro sound_sequence) simp_all
  with typecheck_function_Done [OF assms(1)] show ?thesis by (auto simp: wf_func_def dest: givesD)
qed

lemma btree_insert_subset: "set (btree_insert k v kvs) \<subseteq> insert (k, v) (set kvs)"
  by (induction k v kvs rule: btree_insert.induct) auto

lemma btree_insert_keys: "fst ` set (btree_insert k v kvs) = insert k (fst ` set kvs)"
  by (induction k v kvs rule: btree_insert.induct) auto

text \<open>The functions that a module defines, in order: each one is checked, named once, and exported if it is public.\<close>

definition all_checked :: "(tc_func \<Rightarrow> bool) \<Rightarrow> (string_id \<times> tc_func) list \<Rightarrow> bool" where
  "all_checked P checked \<longleftrightarrow> (\<forall>(i, f) \<in> set checked. i = func_name f \<and> P f)"

lemma all_checked_insert: "all_checked P checked \<Longrightarrow> P f \<Longrightarrow> all_checked P (btree_insert (func_name f) f checked)"
  using btree_insert_subset [of "func_name f" f checked] by (fastforce simp: all_checked_def)

lemma exported_func_new_label: "exported_func_new i l t st = Some ex \<Longrightarrow> exp_label ex = l"
  by (auto simp: exported_func_new_def)

lemma typecheck_funcs_Done:
  assumes "typecheck_funcs env st fds exported checked s = Done (exported', checked') s'"
    "\<forall>(i, fd) \<in> set fds. i = func_name fd \<and> (\<forall>s f s'. typecheck_function env st fd s = Done f s' \<longrightarrow> P f)" "all_checked P checked"
  shows "all_checked P checked' \<and> fst ` set checked' = fst ` set checked \<union> fst ` set fds
    \<and> distinct (map fst fds) \<and> dom s \<inter> fst ` set fds = {}
    \<and> map exp_label exported' = map exp_label exported @ map (Func \<circ> fst) (filter (\<lambda>(i, fd). func_kind fd = Public) fds)"
  using assms
proof (induction env st fds exported checked arbitrary: s rule: typecheck_funcs.induct)
  case (2 env st i fd fds exported checked)
  from "2.prems"(1) obtain f s1 where f: "typecheck_function env st fd s = Done f s1"
    and run: "(case func_kind fd of
         Public \<Rightarrow>
           bind_c (unwrap_c (exported_func_new (func_name f) (Func (func_name f)) (func_tipe f) st)) (\<lambda>ex.
             typecheck_funcs env st fds (exported @ [ex]) (btree_insert i f checked))
       | Private \<Rightarrow> typecheck_funcs env st fds exported (btree_insert i f checked)) s1 = Done (exported', checked') s'"
    by (auto simp: bind_c_Done_iff)
  note fd = typecheck_function_Done [OF f]
  have i: "i = func_name fd" "i = func_name f" "P f" using "2.prems"(2) f fd by auto
  have dom: "dom s1 = insert i (dom s)" "i \<notin> dom s" using fd i(1) by auto
  have ok: "all_checked P (btree_insert i f checked)" using all_checked_insert [OF "2.prems"(3), of f] i(2,3) by simp
  show ?case
  proof (cases "func_kind fd")
    case Public
    with run obtain ex where ex: "exp_label ex = Func i"
      "typecheck_funcs env st fds (exported @ [ex]) (btree_insert i f checked) s1 = Done (exported', checked') s'"
      by (auto simp: bind_c_def unwrap_c_def i(2) dest: exported_func_new_label split: option.splits)
    from "2.IH"(1) [OF Public ex(2) _ ok] "2.prems"(2) dom ex(1) Public show ?thesis
      by (auto simp: btree_insert_keys)
  next
    case Private
    with run have "typecheck_funcs env st fds exported (btree_insert i f checked) s1 = Done (exported', checked') s'" by simp
    from "2.IH"(2) [OF Private this _ ok] "2.prems"(2) dom Private show ?thesis
      by (auto simp: btree_insert_keys)
  qed
qed (auto simp: return_c_def)

lemma fixed_global_first_mset: "mset (fixed_global_first gvs) = mset gvs"
  by (auto simp: fixed_global_first_def find_Some_iff intro!: mset_swap split: option.split)

lemma globals_table_less: "globals_table gvs name = Some (t, i) \<Longrightarrow> i < length gvs"
  by (auto simp: globals_table_def dest!: map_of_SomeD)

text \<open>The tables with which the functions of a module are checked.\<close>

definition module_env :: "tc_env \<Rightarrow> (string_id \<rightharpoonup> tipe) \<Rightarrow> global_var_decl list \<Rightarrow> (string_id \<rightharpoonup> tipe) \<Rightarrow> tc_env" where
  "module_env env named_types gvs func_map =
     env\<lparr>te_types := named_types, te_globals := globals_table (fixed_global_first gvs), te_funcs := func_map\<rparr>"

lemma typecheck_top_level_Done:
  assumes "typecheck_top_level_decls env fds named_types gvs imps st func_map [] = Done (exported, gvs', checked) undef"
    "\<forall>(i, fd) \<in> set fds. i = func_name fd
       \<and> (\<forall>s f s'. typecheck_function (module_env env named_types gvs func_map) st fd s = Done f s' \<longrightarrow> P f)"
  shows "all_checked P checked \<and> fst ` set checked = fst ` set fds \<and> distinct (map fst fds) \<and> mset gvs' = mset gvs
    \<and> map exp_label exported = map (Func \<circ> fst) (filter (\<lambda>(i, fd). func_kind fd = Public) fds)"
proof -
  from assms(1) obtain undef0 where "undefinable_imports st imps Map.empty = Some undef0"
    by (cases "undefinable_imports st imps Map.empty") (simp_all add: typecheck_top_level_decls_def Let_def)
  with assms(1) have "bind_c (typecheck_funcs (module_env env named_types gvs func_map) st fds [] [])
      (\<lambda>(exported, checked'). return_c (exported, fixed_global_first gvs, checked')) undef0 = Done (exported, gvs', checked) undef"
    by (simp add: typecheck_top_level_decls_def Let_def module_env_def)
  then have run: "typecheck_funcs (module_env env named_types gvs func_map) st fds [] [] undef0 = Done (exported, checked) undef"
    and gvs': "gvs' = fixed_global_first gvs"
    by (auto simp: bind_c_def return_c_def split: outcome.splits)
  from typecheck_funcs_Done [OF run assms(2)] show ?thesis
    by (simp add: all_checked_def gvs' fixed_global_first_mset)
qed

lemma module_env_fits:
  assumes "\<forall>name t. func_map name = Some t \<longrightarrow> func_label md name \<in> known md" "globals_count md = length gvs"
    "\<forall>imp \<in> set builtin_func_decls. builtin_known md (import_name imp)"
  shows "env_fits md (module_env env named_types gvs func_map)"
proof -
  have "length (fixed_global_first gvs) = length gvs" by (metis fixed_global_first_mset size_mset)
  then have "i < globals_count md" if "globals_table (fixed_global_first gvs) name = Some (t, i)" for name t i
    using globals_table_less [OF that] assms(2) by simp
  with assms(1,3) show ?thesis unfolding env_fits_def module_env_def tc_env.simps by simp
qed

lemma checked_wf:
  assumes "\<forall>(i, fd) \<in> set fds. i = func_name fd \<and> list_all (src_statement_ok md) (func_code fd)" "env_fits md env"
  shows "\<forall>(i, fd) \<in> set fds. i = func_name fd \<and> (\<forall>s f s'. typecheck_function env st fd s = Done f s' \<longrightarrow> wf_func md f)"
  using assms typecheck_function_wf by blast

lemma import_map_unknown: "name \<notin> imp_name_id ` set imps \<Longrightarrow> import_map imps name = None"
  by (induction imps rule: rev_induct) (auto simp: import_map_def)

lemma import_map_known:
  "name \<in> imp_name_id ` set imps \<Longrightarrow> \<exists>f \<in> set imps. import_map imps name = Some (External (imp_slot_num f))"
  by (induction imps rule: rev_induct) (auto simp: import_map_def)

lemma func_label_known:
  assumes "name \<in> func_name ` set funcs \<or> name \<in> imp_name_id ` set imps"
  shows "func_label (module_of funcs tab imps globals) name \<in> known (module_of funcs tab imps globals)"
  using assms import_map_known [of name imps] import_map_unknown [of name imps]
  by (cases "name \<in> imp_name_id ` set imps") (auto simp: func_label_def module_of_def)

section \<open>Properties\<close>

text \<open>
  C7: Checked modules are well-formed.  When all declarations of a module pass the type checker, there is exactly one checked
  function for every function of the module, under its name; no two functions and no function and import share a name; globals are
  only reordered; exported are exactly the public functions, under their own labels; and every checked function refers only to
  functions with a known label, to globals that exist, to fields that tuples and structs have and to functions of the library.
\<close>

theorem checked_modules_are_well_formed:
  assumes "typecheck_top_level_decls env fds named_types gvs imps st func_map [] = Done (exported, gvs', checked) undef"
    "\<forall>(i, fd) \<in> set fds. i = func_name fd \<and> list_all (src_statement_ok md) (func_code fd)"
    "\<forall>name t. func_map name = Some t \<longrightarrow> func_label md name \<in> known md" "globals_count md = length gvs"
    "\<forall>imp \<in> set builtin_func_decls. builtin_known md (import_name imp)"
  shows "(\<forall>(i, f) \<in> set checked. i = func_name f \<and> list_all (wf_statement md) (func_code f))
    \<and> fst ` set checked = fst ` set fds \<and> distinct (map fst fds) \<and> mset gvs' = mset gvs
    \<and> map exp_label exported = map (Func \<circ> fst) (filter (\<lambda>(i, fd). func_kind fd = Public) fds)"
  using typecheck_top_level_Done [OF assms(1) checked_wf [OF assms(2) module_env_fits [OF assms(3-5)]]]
  by (simp add: all_checked_def wf_func_def)

lemma checked_module_funcs_wf:
  assumes "typecheck_top_level_decls env fds named_types gvs imps st func_map [] = Done (exported, gvs', checked) undef"
    "\<forall>(i, fd) \<in> set fds. i = func_name fd
       \<and> list_all (src_statement_ok (module_of (map snd checked) st imported (map gv_name_id gvs'))) (func_code fd)"
    "\<forall>name t. func_map name = Some t \<longrightarrow> name \<in> fst ` set fds \<or> name \<in> imp_name_id ` set imported"
    "\<forall>imp \<in> set builtin_func_decls. \<exists>i \<in> imp_name_id ` set imported. string_table_get_if_exists st (import_name imp) = Some i"
  shows "\<forall>f \<in> set (map snd checked). wf_func (module_of (map snd checked) st imported (map gv_name_id gvs')) f"
proof -
  let ?md = "module_of (map snd checked) st imported (map gv_name_id gvs')"
  have "\<forall>(i, fd) \<in> set fds. i = func_name fd
      \<and> (\<forall>s f s'. typecheck_function (module_env env named_types gvs func_map) st fd s = Done f s' \<longrightarrow> True)" using assms(2) by auto
  note checked = typecheck_top_level_Done [OF assms(1) this]
  then have names: "func_name ` set (map snd checked) = fst ` set fds" by (force simp: all_checked_def image_iff)
  have fits: "\<forall>name t. func_map name = Some t \<longrightarrow> func_label ?md name \<in> known ?md"
  proof (intro allI impI)
    fix name t
    assume "func_map name = Some t"
    with assms(3) names have "name \<in> func_name ` set (map snd checked) \<or> name \<in> imp_name_id ` set imported" by metis
    then show "func_label ?md name \<in> known ?md" by (rule func_label_known)
  qed
  have "globals_count ?md = length gvs" using checked by (metis cg_module.select_convs(2) length_map module_of_def size_mset)
  moreover have "\<forall>imp \<in> set builtin_func_decls. builtin_known ?md (import_name imp)"
  proof
    fix imp
    assume "imp \<in> set builtin_func_decls"
    with assms(4) obtain i where i: "i \<in> imp_name_id ` set imported" "string_table_get_if_exists st (import_name imp) = Some i" by blast
    from i(1) have "func_label ?md i \<in> known ?md" by (intro func_label_known) simp
    moreover have "names ?md = st" by (simp add: module_of_def)
    ultimately show "builtin_known ?md (import_name imp)" unfolding builtin_known_def using i(2) by simp
  qed
  ultimately show ?thesis
    using typecheck_top_level_Done [OF assms(1) checked_wf [OF assms(2) module_env_fits [OF fits]]] by (auto simp: all_checked_def)
qed

text \<open>
  C8: What passes the type checker links.  The functions of a checked module, given to the code generator with its
  imports and globals, yield code whose labels are unique and on which all passes after generation succeed, up to three operators
  without an instruction.  Needed are that every function the checker knows is defined in the module or imported, and that the six
  functions of the library are imported.
\<close>

theorem checked_modules_link:
  assumes "typecheck_top_level_decls env fds named_types gvs imps st func_map [] = Done (exported, gvs', checked) undef"
    "\<forall>(i, fd) \<in> set fds. i = func_name fd
       \<and> list_all (src_statement_ok (module_of (map snd checked) st imported (map gv_name_id gvs'))) (func_code fd)"
    "\<forall>name t. func_map name = Some t \<longrightarrow> name \<in> fst ` set fds \<or> name \<in> imp_name_id ` set imported"
    "\<forall>imp \<in> set builtin_func_decls. \<exists>i \<in> imp_name_id ` set imported. string_table_get_if_exists st (import_name imp) = Some i"
    "mavm_codegen kec (map snd checked) st imported (map gv_name_id gvs') release = Done cs ws" "\<forall>i \<in> set cs. sizes_fit i"
    "fix_nonforward_labels cs imported (length gvs') = (cs2, jt)" "length jt \<le> usize_limit"
  shows "distinct (defined_labels cs) \<and>
    (\<exists>cs3 out jt'. fix_tuple_size cs2 (length gvs' + 1) = Inr cs3 \<and> strip_labels (peephole cs3) jt imported = Inr (out, jt')
       \<and> (\<forall>e. collect_res to_avm out = Inl e \<longrightarrow>
            (\<exists>op locs. e = VirtualOpcode op locs \<and> op \<in> {UnaryMinus, LogicalAnd, LogicalOr})))"
  using generated_code_ok [OF assms(5) checked_module_funcs_wf [OF assms(1-4)] assms(6), of cs2 jt] assms(7,8) by simp

text \<open>A module with one global, which calls an imported function, loops and returns a disjunction.\<close>

abbreviation (input) demo_src :: "expr_kind \<Rightarrow> expr" where
  "demo_src k \<equiv> Expr k debug_info_default"

abbreviation (input) demo_src_stat :: "statement_kind \<Rightarrow> statement" where
  "demo_src_stat k \<equiv> Statement k debug_info_default"

definition demo_names :: "string list" where
  "demo_names = map import_name builtin_func_decls @ [''f'', ''x'', ''y'', ''c'', ''g'']"

definition demo_table :: string_table where
  "demo_table = \<lparr>next_id = 11, table = map_of (zip demo_names [0..<11]), by_id = demo_names\<rparr>"

definition demo_imported :: "imported_func list" where
  "demo_imported = map (\<lambda>i. \<lparr>imp_name_id = i, imp_slot_num = i, imp_name = demo_names ! i\<rparr>) [0, 1, 2, 3, 4, 5, 10]"

definition demo_source :: source_func where
  "demo_source = func_new 6 False [\<lparr>arg_name = 7, arg_tipe = TBool, arg_debug_info = debug_info_default\<rparr>] TBool
     [demo_src_stat (YLet (MatchPattern (PBind 8) debug_info_default ()) (demo_src (XFunctionCall (demo_src (XVariableRef 10)) []))),
      demo_src_stat (YWhile (demo_src (XVariableRef 7))
        [demo_src_stat (YAssign 9 (demo_src (XBinary BPlus (demo_src (XVariableRef 9)) (demo_src (XVariableRef 8)))))]),
      demo_src_stat (YReturn (demo_src (XShortcutOr (demo_src (XVariableRef 7)) (demo_src (XConstant (CBool True))))))]
     True debug_info_default"

definition demo_globals :: "global_var_decl list" where
  "demo_globals = [\<lparr>gv_name_id = 9, gv_name = ''c'', gv_tipe = TUint, gv_location = None\<rparr>]"

definition demo_tables :: tc_env where
  "demo_tables = \<lparr>te_types = Map.empty, te_globals = Map.empty, te_funcs = Map.empty, te_return = TVoid, te_tree = Map.empty,
     te_undef = Map.empty, te_fuel = 3, te_hash = \<lambda>_. [], te_parse_hex = \<lambda>_. None\<rparr>"

definition demo_checked :: "(compile_error, undefinable, exported_func list \<times> global_var_decl list \<times> (string_id \<times> tc_func) list) outcome" where
  "demo_checked = typecheck_top_level_decls demo_tables [(6, demo_source)] Map.empty demo_globals builtin_func_decls demo_table
     [6 \<mapsto> func_tipe demo_source, 10 \<mapsto> TFunc False [] TUint] []"

lemma demo_checks:
  "case demo_checked of
     Done (exported, gvs, checked) undef \<Rightarrow> length gvs = 1 \<and> length exported = 1 \<and> map fst checked = [6] \<and>
       (case mavm_codegen (\<lambda>bs. bs) (map snd checked) demo_table demo_imported (map gv_name_id gvs) False of
          Done cs ws \<Rightarrow> ws = [] \<and> list_all (sizes_upto 10) cs \<and> length (snd (fix_nonforward_labels cs demo_imported 1)) \<le> 10
        | _ \<Rightarrow> False)
   | _ \<Rightarrow> False"
  by code_simp

lemma demo_source_ok: "list_all (src_statement_ok md) (func_code demo_source)" "func_name demo_source = 6"
  by (simp_all add: demo_source_def func_new_def)

lemma demo_imports_known: "list_all (\<lambda>imp. string_table_get_if_exists demo_table (import_name imp) \<in> Some ` imp_name_id ` set demo_imported) builtin_func_decls"
  by code_simp

definition demo_md :: cg_module where
  "demo_md = \<lparr>known = {Func 6} \<union> External ` {0, 1, 2, 3, 4, 5, 10}, globals_count = 1, md_imports = import_map demo_imported, names = demo_table\<rparr>"

theorem checked_modules_are_well_formed_witness:
  "\<exists>exported gvs checked undef. demo_checked = Done (exported, gvs, checked) undef
     \<and> list_all (\<lambda>(i, f). list_all (wf_statement demo_md) (func_code f)) checked \<and> map exp_label exported = [Func 6]"
proof -
  obtain exported gvs checked undef where run: "demo_checked = Done (exported, gvs, checked) undef"
    using demo_checks by (auto split: outcome.splits)
  have labels: "\<forall>name t. [6 \<mapsto> func_tipe demo_source, 10 \<mapsto> TFunc False [] TUint] name = Some t \<longrightarrow> func_label demo_md name \<in> known demo_md"
    by (auto simp: func_label_def demo_md_def demo_imported_def import_map_def split: if_splits)
  have "list_all (\<lambda>imp. builtin_known demo_md (import_name imp)) builtin_func_decls" by code_simp
  then have builtins: "\<forall>imp \<in> set builtin_func_decls. builtin_known demo_md (import_name imp)" by (simp only: list_all_iff)
  have "\<forall>(i, fd) \<in> set [(6, demo_source)]. i = func_name fd \<and> list_all (src_statement_ok demo_md) (func_code fd)"
    by (simp add: demo_source_ok)
  from checked_modules_are_well_formed [OF run [unfolded demo_checked_def] this labels _ builtins]
  have "\<forall>(i, f) \<in> set checked. i = func_name f \<and> list_all (wf_statement demo_md) (func_code f)" "map exp_label exported = [Func 6]"
    by (simp_all add: demo_md_def demo_globals_def demo_source_def func_new_def)
  then have "list_all (\<lambda>(i, f). list_all (wf_statement demo_md) (func_code f)) checked" by (auto simp: list_all_iff)
  with run \<open>map exp_label exported = _\<close> show ?thesis by (intro exI conjI)
qed

theorem checked_modules_link_witness:
  "\<exists>exported gvs checked undef cs cs2 jt cs3 out jt'. demo_checked = Done (exported, gvs, checked) undef
     \<and> mavm_codegen (\<lambda>bs. bs) (map snd checked) demo_table demo_imported (map gv_name_id gvs) False = Done cs []
     \<and> fix_nonforward_labels cs demo_imported 1 = (cs2, jt) \<and> fix_tuple_size cs2 2 = Inr cs3
     \<and> strip_labels (peephole cs3) jt demo_imported = Inr (out, jt')"
proof -
  have fit: "sizes_upto 10 i \<Longrightarrow> sizes_fit i" for i
    by (auto simp: sizes_fit_def sizes_upto_def usize_limit_def split: opcode.splits)
  obtain exported gvs checked undef where checked: "demo_checked = Done (exported, gvs, checked) undef"
    using demo_checks by (auto split: outcome.splits)
  have demo: "length gvs = 1"
    "case mavm_codegen (\<lambda>bs. bs) (map snd checked) demo_table demo_imported (map gv_name_id gvs) False of
       Done cs ws \<Rightarrow> ws = [] \<and> list_all (sizes_upto 10) cs \<and> length (snd (fix_nonforward_labels cs demo_imported 1)) \<le> 10
     | _ \<Rightarrow> False"
    using demo_checks unfolding checked by simp_all
  obtain cs where cs: "mavm_codegen (\<lambda>bs. bs) (map snd checked) demo_table demo_imported (map gv_name_id gvs) False = Done cs []"
      "list_all (sizes_upto 10) cs" "length (snd (fix_nonforward_labels cs demo_imported 1)) \<le> 10"
    using demo(2) by (cases "mavm_codegen (\<lambda>bs. bs) (map snd checked) demo_table demo_imported (map gv_name_id gvs) False") simp_all
  have run: "demo_checked = Done (exported, gvs, checked) undef" "length gvs = 1"
    "mavm_codegen (\<lambda>bs. bs) (map snd checked) demo_table demo_imported (map gv_name_id gvs) False = Done cs []"
    "\<forall>i \<in> set cs. sizes_fit i" "length (snd (fix_nonforward_labels cs demo_imported 1)) \<le> usize_limit"
    using checked demo(1) cs(1) fit cs(2) le_trans [OF cs(3)] by (simp_all add: list_all_iff usize_limit_def)
  obtain cs2 jt where table: "fix_nonforward_labels cs demo_imported 1 = (cs2, jt)" by fastforce
  have "\<forall>(i, fd) \<in> set [(6, demo_source)]. i = func_name fd
      \<and> list_all (src_statement_ok (module_of (map snd checked) demo_table demo_imported (map gv_name_id gvs))) (func_code fd)"
    by (simp add: demo_source_ok)
  moreover have "\<forall>name t. [6 \<mapsto> func_tipe demo_source, 10 \<mapsto> TFunc False [] TUint] name = Some t \<longrightarrow>
      name \<in> fst ` set [(6, demo_source)] \<or> name \<in> imp_name_id ` set demo_imported"
    by (auto simp: demo_imported_def split: if_splits)
  moreover have "\<forall>imp \<in> set builtin_func_decls. \<exists>i \<in> imp_name_id ` set demo_imported.
      string_table_get_if_exists demo_table (import_name imp) = Some i"
    using demo_imports_known unfolding list_all_iff by blast
  ultimately have "\<exists>cs3 out jt'. fix_tuple_size cs2 2 = Inr cs3 \<and> strip_labels (peephole cs3) jt demo_imported = Inr (out, jt')"
    using checked_modules_link [OF run(1) [unfolded demo_checked_def] _ _ _ run(3,4), of cs2 jt] run(2,5) table
    by (simp add: numeral_2_eq_2) blast
  with run(1,3) table show ?thesis by metis
qed

end
