(* ===== verification/Inlining_Wf.thy ===== *)
theory Inlining_Wf
  imports Inlining Typecheck_Wf
begin

text \<open>
  What inlining and passing down attributes keep: the types of expressions and the conditions that the code generator relies on.
  A call has the declared type of the function, the block that replaces it has the type of the expression that is returned; with a
  condition that makes both the same at every call, inlined modules still link.
\<close>

section \<open>Everywhere in a tree\<close>

lemma everywhere_parts:
  assumes "list_all (everywhere P) ns" "m \<in> parts ns"
  shows "everywhere P m"
proof -
  from assms(2) consider "m \<in> set ns" | fi where "m = NExpression (init_value fi)" "NStructField fi \<in> set ns"
    by (auto simp: parts_def)
  then show ?thesis
  proof cases
    case (2 fi)
    with assms(1) have "everywhere P (NStructField fi)" by (simp add: list_all_iff)
    then show ?thesis by (simp add: 2(1) everywhere.simps [of P "NStructField fi"])
  qed (use assms(1) in \<open>simp add: list_all_iff\<close>)
qed

lemma everywhere_expr: "everywhere P (NExpression e) \<longleftrightarrow> P (NExpression e) \<and> list_all (everywhere P) (expr_child_nodes (expr_kind e))"
  by (simp add: everywhere.simps [of P "NExpression e"])

lemma everywhere_stat: "everywhere P (NStatement s) \<longleftrightarrow> P (NStatement s) \<and> list_all (everywhere P) (stat_child_nodes (stat_kind s))"
  by (simp add: everywhere.simps [of P "NStatement s"])

section \<open>Changes that keep types and conditions\<close>

definition expr_kept :: "cg_module \<Rightarrow> tc_expr \<Rightarrow> tc_expr \<Rightarrow> bool" where
  "expr_kept md e e' \<longleftrightarrow> (wf_expr md e \<longrightarrow> wf_expr md e') \<and> expr_get_type e' = expr_get_type e"

definition stat_kept :: "cg_module \<Rightarrow> tc_statement \<Rightarrow> tc_statement \<Rightarrow> bool" where
  "stat_kept md s s' \<longleftrightarrow> (wf_statement md s \<longrightarrow> wf_statement md s')"

lemma map_block_kept:
  assumes "\<And>s. NStatement s \<in> set (block_child_nodes b) \<Longrightarrow> stat_kept md s (f s)"
    "\<And>e. NExpression e \<in> set (block_child_nodes b) \<Longrightarrow> expr_kept md e (g e)"
  shows "wf_block md b \<Longrightarrow> wf_block md (map_block_children f g b)" "block_get_type (map_block_children f g b) = block_get_type b"
  using assms
  by (cases b; cases "block_ret_expr b"; auto simp: map_block_children_def block_child_nodes_def list_all_iff stat_kept_def expr_kept_def)+

lemma map_expr_kept:
  assumes "\<And>s. NStatement s \<in> parts (expr_child_nodes k) \<Longrightarrow> stat_kept md s (f s)"
    "\<And>e. NExpression e \<in> parts (expr_child_nodes k) \<Longrightarrow> expr_kept md e (g e)"
  shows "wf_kind md k \<Longrightarrow> wf_kind md (map_expr_children f g k)" "kind_get_type (map_expr_children f g k) = kind_get_type k"
proof -
  have part: "expr_kept md e (g e)" if "NExpression e \<in> set (expr_child_nodes k)" for e using assms(2) that by (simp add: parts_def)
  have field: "expr_kept md (init_value fi) (g (init_value fi))" if "NStructField fi \<in> set (expr_child_nodes k)" for fi
    using assms(2) that by (auto simp: parts_def)
  have stat: "stat_kept md s (f s)" if "NStatement s \<in> set (expr_child_nodes k)" for s using assms(1) that by (simp add: parts_def)
  have block: "wf_block md b \<Longrightarrow> wf_block md (map_block_children f g b)" "block_get_type (map_block_children f g b) = block_get_type b"
    if "set (block_child_nodes b) \<subseteq> set (expr_child_nodes k)" for b
    by (rule map_block_kept [of b md f g]; use part stat that in blast)+
  show "kind_get_type (map_expr_children f g k) = kind_get_type k"
    using part by (cases k) (auto simp: expr_kept_def block(2))
  show "wf_kind md k \<Longrightarrow> wf_kind md (map_expr_children f g k)"
  proof (cases k)
    case (EStructInitializer inits t)
    then show "wf_kind md k \<Longrightarrow> wf_kind md (map_expr_children f g k)"
      using field by (auto simp: list_all_iff expr_kept_def field_initializer.map_sel)
  qed (use part stat in \<open>auto simp: list_all_iff expr_kept_def stat_kept_def image_iff intro: block(1) split: option.splits\<close>)
qed

lemma map_subexprs_kept:
  assumes "\<And>s. NStatement s \<in> parts (expr_child_nodes (expr_kind e)) \<Longrightarrow> stat_kept md s (f s)"
    "\<And>e'. NExpression e' \<in> parts (expr_child_nodes (expr_kind e)) \<Longrightarrow> expr_kept md e' (g e')"
  shows "expr_kept md e (map_subexprs f g e)"
  using map_expr_kept [OF assms] by (cases e) (simp add: expr_kept_def map_subexprs_def)

lemma map_stat_kept:
  assumes "\<And>s. NStatement s \<in> parts (stat_child_nodes k) \<Longrightarrow> stat_kept md s (f s)"
    "\<And>e. NExpression e \<in> parts (stat_child_nodes k) \<Longrightarrow> expr_kept md e (g e)"
    "wf_statement_kind md k"
  shows "wf_statement_kind md (map_stat_children f g k)"
proof (cases k)
  case (SBreak oe sc)
  show ?thesis
  proof (cases oe)
    case (Some e)
    with assms SBreak have "expr_kept md e (map_subexprs f g e)" by (intro map_subexprs_kept) simp_all
    with Some SBreak assms(3) show ?thesis by (simp add: expr_kept_def)
  qed (simp add: SBreak)
qed (use assms in \<open>auto simp: list_all_iff expr_kept_def stat_kept_def parts_def image_iff\<close>)

section \<open>Attributes\<close>

lemma propagate_kept: "stat_kept md s (propagate_stat pr s)" "expr_kept md e (propagate_expr pr e)"
proof (induction pr s and pr e rule: propagate_stat_propagate_expr.induct)
  case (1 pr k di)
  let ?pr = "codegen_print (attributes (print_from pr di))"
  have asm: "wf_statement_kind md (print_asm b k') = wf_statement_kind md k'" for b k'
    by (cases k') (auto simp: print_asm_def wf_asm_def wf_insn_def insn_labels_def instruction_get_label_def index_below_def list_all_iff
        split: opcode.splits)
  from 1 show ?case
    using map_stat_kept [of k md "propagate_stat ?pr" "propagate_expr ?pr"]
    by (auto simp: stat_kept_def asm Let_def)
next
  case (2 pr k di)
  let ?pr = "codegen_print (attributes (print_from pr di))"
  from 2 show ?case
    using map_expr_kept [of k md "propagate_stat ?pr" "propagate_expr ?pr"] by (simp add: expr_kept_def Let_def)
qed

section \<open>Returns become breaks\<close>

lemma stripped_try_kept:
  "wf_expr md inner \<Longrightarrow> wf_kind md (stripped_try inner t)" "kind_get_type (stripped_try inner t) = t"
  by (simp_all add: stripped_try_def Let_def wf_asm_def wf_insn_def insn_labels_def instruction_get_label_def)

lemma strip_kept: "stat_kept md s (strip_stat s)" "expr_kept md e (strip_expr e)"
proof (induction s and e rule: strip_stat_strip_expr.induct)
  case (1 k di)
  have "wf_statement_kind md k \<Longrightarrow> wf_statement_kind md (return_to_break k)" by (cases k) (simp_all add: return_to_break_def)
  with 1 show ?case using map_stat_kept [of "return_to_break k" md strip_stat strip_expr] by (simp add: stat_kept_def)
next
  case (2 k di)
  then show ?case
    using map_expr_kept [of k md strip_stat strip_expr]
    by (auto simp: expr_kept_def stripped_try_kept split: option.splits)
qed

lemma strip_below_kept: "expr_kept md e (strip_below_expr e)" "stat_kept md s (strip_below_stat s)"
proof -
  show "expr_kept md e (strip_below_expr e)" unfolding strip_below_expr_def by (intro map_subexprs_kept strip_kept)
  show "stat_kept md s (strip_below_stat s)"
    using map_stat_kept [of "stat_kind s" md strip_stat strip_expr, OF strip_kept]
    by (cases s) (simp add: strip_below_stat_def stat_kept_def)
qed

section \<open>The types of calls\<close>

definition result_type :: "tc_func \<Rightarrow> tipe" where
  "result_type f =
     (if func_code f = [] then TVoid
      else case stat_kind (last (func_code f)) of SReturn e \<Rightarrow> expr_get_type e | _ \<Rightarrow> TVoid)"

text \<open>A call of a function of the module has the type of the expression that the function returns at its end.\<close>

definition call_typed :: "tc_func list \<Rightarrow> tc_node \<Rightarrow> bool" where
  "call_typed funcs n =
     (case n of
        NExpression e \<Rightarrow>
          (case expr_kind e of
             EFunctionCall callee args t props \<Rightarrow>
               (case expr_kind callee of
                  EFuncRef i _ \<Rightarrow> list_all (\<lambda>f. func_name f = i \<longrightarrow> result_type f = t) funcs
                | _ \<Rightarrow> True)
           | _ \<Rightarrow> True)
      | _ \<Rightarrow> True)"

lemma call_typed_simps [simp]:
  "call_typed funcs (NStatement s)" "call_typed funcs (NStructField fi)" "call_typed funcs (NType t)"
  "call_typed funcs (NExpression (TcExpr (ECodeBlock b) di))" "call_typed funcs (NExpression (TcExpr (EIf c b ob t) di))"
  "call_typed funcs (NExpression (TcExpr (EAsm t insns args) di))" "call_typed funcs (NExpression (TcExpr EError di))"
  "call_typed funcs (NExpression (TcExpr (ETuple es t) di))"
  by (simp_all add: call_typed_def)

fun node_map :: "(tc_statement \<Rightarrow> tc_statement) \<Rightarrow> (tc_expr \<Rightarrow> tc_expr) \<Rightarrow> tc_node \<Rightarrow> tc_node" where
  "node_map f g (NStatement s) = NStatement (f s)"
| "node_map f g (NExpression e) = NExpression (g e)"
| "node_map f g (NStructField fi) = NStructField (map_field_initializer g fi)"
| "node_map f g (NType t) = NType t"

lemma block_child_nodes_map: "block_child_nodes (map_block_children f g b) = map (node_map f g) (block_child_nodes b)"
  by (simp add: block_child_nodes_def map_block_children_def split: option.split)

lemma expr_child_nodes_map: "expr_child_nodes (map_expr_children f g k) = map (node_map f g) (expr_child_nodes k)"
  by (cases k) (simp_all add: block_child_nodes_map split: option.split)

lemma stat_child_nodes_map: "stat_child_nodes (map_stat_children f g k) = map (node_map f g) (stat_child_nodes k)"
  by (cases k) (simp_all add: expr_child_nodes_map map_subexprs_def split: option.split)

lemma everywhere_node_map:
  assumes "list_all (everywhere (call_typed funcs)) ns"
    "\<And>s. NStatement s \<in> parts ns \<Longrightarrow> everywhere (call_typed funcs) (NStatement s) \<Longrightarrow> everywhere (call_typed funcs) (NStatement (f s))"
    "\<And>e. NExpression e \<in> parts ns \<Longrightarrow> everywhere (call_typed funcs) (NExpression e) \<Longrightarrow> everywhere (call_typed funcs) (NExpression (g e))"
  shows "list_all (everywhere (call_typed funcs)) (map (node_map f g) ns)"
proof -
  have "everywhere (call_typed funcs) (node_map f g n)" if n: "n \<in> set ns" for n
  proof (cases n)
    case (NStructField fi)
    from n assms(1) have "everywhere (call_typed funcs) n" by (simp add: list_all_iff)
    then have "everywhere (call_typed funcs) (NExpression (init_value fi))" by (simp add: NStructField everywhere.simps [of _ "NStructField fi"])
    moreover have "NExpression (init_value fi) \<in> parts ns" using n NStructField by (auto simp: parts_def)
    ultimately show ?thesis using assms(3)
      by (simp add: NStructField everywhere.simps [of _ "NStructField _"] field_initializer.map_sel)
  qed (use n assms in \<open>auto simp: list_all_iff parts_def\<close>)
  then show ?thesis by (auto simp: list_all_iff)
qed

lemma strip_expr_FuncRef: "expr_kind (strip_expr e) = EFuncRef i t \<Longrightarrow> expr_kind e = EFuncRef i t"
  by (cases e; cases "expr_kind e") (auto simp: stripped_try_def Let_def split: option.splits)

lemma call_typed_map:
  assumes "call_typed funcs (NExpression (TcExpr k di))"
    "\<And>e i t. expr_kind (g e) = EFuncRef i t \<Longrightarrow> expr_kind e = EFuncRef i t"
  shows "call_typed funcs (NExpression (TcExpr (map_expr_children f g k) di))"
proof (cases k)
  case (EFunctionCall callee args t props)
  show ?thesis
  proof (cases "\<exists>i t'. expr_kind (g callee) = EFuncRef i t'")
    case True
    then obtain i t' where ref: "expr_kind (g callee) = EFuncRef i t'" by blast
    with assms(1) assms(2) [OF ref] show ?thesis by (simp add: EFunctionCall call_typed_def)
  next
    case False
    then show ?thesis by (cases "expr_kind (g callee)") (simp_all add: EFunctionCall call_typed_def)
  qed
qed (simp_all add: call_typed_def)

lemma strip_typed:
  "everywhere (call_typed funcs) (NStatement s) \<Longrightarrow> everywhere (call_typed funcs) (NStatement (strip_stat s))"
  "everywhere (call_typed funcs) (NExpression e) \<Longrightarrow> everywhere (call_typed funcs) (NExpression (strip_expr e))"
proof (induction s and e rule: strip_stat_strip_expr.induct)
  case (1 k di)
  then have "list_all (everywhere (call_typed funcs)) (stat_child_nodes (return_to_break k))"
    by (cases k) (simp_all add: everywhere_stat everywhere_expr return_to_break_def)
  from everywhere_node_map [OF this, of strip_stat strip_expr] 1(1,2)
  have "list_all (everywhere (call_typed funcs)) (map (node_map strip_stat strip_expr) (stat_child_nodes (return_to_break k)))" by simp
  then show ?case by (simp add: everywhere_stat stat_child_nodes_map)
next
  case (2 k di)
  show ?case
  proof (cases "try_parts k")
    case None
    with 2 show ?thesis
      using everywhere_node_map [of funcs "expr_child_nodes k" strip_stat strip_expr] call_typed_map [OF _ strip_expr_FuncRef, of funcs k di]
      by (simp add: everywhere_expr expr_child_nodes_map)
  next
    case (Some p)
    then obtain inner t where k: "k = ETry inner t" by (cases p) simp
    with 2 have "everywhere (call_typed funcs) (NExpression (strip_expr inner))" by (simp add: everywhere_expr)
    then show ?thesis
      by (simp add: k stripped_try_def Let_def everywhere_expr everywhere_stat block_child_nodes_def)
  qed
qed

lemma strip_below_typed:
  "everywhere (call_typed funcs) (NExpression e) \<Longrightarrow> everywhere (call_typed funcs) (NExpression (strip_below_expr e))"
  "everywhere (call_typed funcs) (NStatement s) \<Longrightarrow> everywhere (call_typed funcs) (NStatement (strip_below_stat s))"
proof -
  assume e: "everywhere (call_typed funcs) (NExpression e)"
  then have "call_typed funcs (NExpression (TcExpr (expr_kind e) (expr_debug_info e)))" by (simp add: everywhere_expr)
  from e call_typed_map [OF this strip_expr_FuncRef] show "everywhere (call_typed funcs) (NExpression (strip_below_expr e))"
    using everywhere_node_map [of funcs "expr_child_nodes (expr_kind e)" strip_stat strip_expr, OF _ strip_typed]
    by (simp add: strip_below_expr_def map_subexprs_def everywhere_expr expr_child_nodes_map)
next
  assume "everywhere (call_typed funcs) (NStatement s)"
  then show "everywhere (call_typed funcs) (NStatement (strip_below_stat s))"
    using everywhere_node_map [of funcs "stat_child_nodes (stat_kind s)" strip_stat strip_expr, OF _ strip_typed]
    by (simp add: strip_below_stat_def everywhere_stat stat_child_nodes_map)
qed

section \<open>Calls become blocks\<close>

text \<open>The functions of a module whose calls have the types of the results.\<close>

definition funcs_typed :: "cg_module \<Rightarrow> tc_func list \<Rightarrow> bool" where
  "funcs_typed md funcs \<longleftrightarrow>
     (\<forall>f \<in> set funcs. wf_func md f \<and> list_all (\<lambda>s. everywhere (call_typed funcs) (NStatement s)) (func_code f))"

lemma bind_args_shape: "bind_args f args = [] \<or> (\<exists>pat e di. bind_args f args = [TcStatement (SLet pat e) di])"
  by (simp add: bind_args_def Let_def)

lemma bind_args_ok:
  "list_all (wf_expr md) args \<Longrightarrow> list_all (wf_statement md) (bind_args f args)"
  "list_all (\<lambda>e. everywhere (call_typed funcs) (NExpression e)) args \<Longrightarrow>
     list_all (\<lambda>s. everywhere (call_typed funcs) (NStatement s)) (bind_args f args)"
  using strip_below_kept(1) [of md] strip_below_typed(1) [of funcs]
  by (auto simp: bind_args_def Let_def list_all_iff expr_kept_def everywhere_stat everywhere_expr)

lemma inlined_block_cases:
  obtains (plain) "inlined_block f args = TcCodeBlock (map strip_below_stat (bind_args f args @ func_code f)) None (Some ''_inline'')"
      "result_type f = TVoid"
  | (result) e where "func_code f \<noteq> []" "stat_kind (last (func_code f)) = SReturn e" "result_type f = expr_get_type e"
      "inlined_block f args =
        TcCodeBlock (map strip_below_stat (butlast (bind_args f args @ func_code f))) (Some (strip_below_expr e)) (Some ''_inline'')"
proof -
  let ?cs = "bind_args f args @ func_code f"
  show thesis
  proof (cases "\<exists>e. ?cs \<noteq> [] \<and> stat_kind (last ?cs) = SReturn e")
    case True
    then obtain e where e: "?cs \<noteq> []" "stat_kind (last ?cs) = SReturn e" by blast
    then have "func_code f \<noteq> []" using bind_args_shape [of f args] by auto
    with e show thesis by (intro result) (simp_all add: inlined_block_def Let_def result_type_def)
  next
    case False
    then have "inlined_block f args = TcCodeBlock (map strip_below_stat ?cs) None (Some ''_inline'')"
      by (cases "?cs = []"; cases "stat_kind (last ?cs)") (simp_all add: inlined_block_def Let_def)
    moreover from False have "result_type f = TVoid"
      by (cases "func_code f = []"; cases "stat_kind (last (func_code f))") (simp_all add: result_type_def)
    ultimately show thesis by (rule plain)
  qed
qed

lemma inlined_block_type: "block_get_type (inlined_block f args) = result_type f"
  using strip_below_kept(1) by (cases rule: inlined_block_cases [of f args]) (simp_all add: expr_kept_def)

lemma inlined_block_wf:
  assumes "list_all (wf_expr md) args" "wf_func md f"
  shows "wf_block md (inlined_block f args)"
proof -
  have cs: "\<forall>s \<in> set (bind_args f args @ func_code f). wf_statement md (strip_below_stat s)"
    using bind_args_ok(1) [OF assms(1)] assms(2) strip_below_kept(2) [of md] by (auto simp: wf_func_def list_all_iff stat_kept_def)
  show ?thesis
  proof (cases rule: inlined_block_cases [of f args])
    case plain
    with cs show ?thesis by (auto simp: list_all_iff)
  next
    case (result e)
    from assms(2) result(1) have "wf_statement md (last (func_code f))" by (simp add: wf_func_def list_all_iff)
    with result(2) have "wf_expr md (strip_below_expr e)"
      using strip_below_kept(1) [of md e] by (cases "last (func_code f)") (simp add: expr_kept_def)
    moreover have "\<forall>s \<in> set (butlast (bind_args f args @ func_code f)). wf_statement md (strip_below_stat s)"
      using cs by (blast dest: in_set_butlastD)
    ultimately show ?thesis by (simp add: result(4) list_all_iff)
  qed
qed

lemma inlined_block_typed:
  assumes "list_all (\<lambda>e. everywhere (call_typed funcs) (NExpression e)) args"
    "list_all (\<lambda>s. everywhere (call_typed funcs) (NStatement s)) (func_code f)"
  shows "list_all (everywhere (call_typed funcs)) (block_child_nodes (inlined_block f args))"
proof -
  have cs: "\<forall>s \<in> set (bind_args f args @ func_code f). everywhere (call_typed funcs) (NStatement (strip_below_stat s))"
    using bind_args_ok(2) [OF assms(1)] assms(2) strip_below_typed(2) [of funcs] by (auto simp: list_all_iff)
  show ?thesis
  proof (cases rule: inlined_block_cases [of f args])
    case plain
    with cs show ?thesis by (auto simp: list_all_iff block_child_nodes_def)
  next
    case (result e)
    from assms(2) result(1) have "everywhere (call_typed funcs) (NStatement (last (func_code f)))" by (simp add: list_all_iff)
    with result(2) have "everywhere (call_typed funcs) (NExpression (strip_below_expr e))"
      using strip_below_typed(1) [of funcs e] by (simp add: everywhere_stat)
    moreover have "\<forall>s \<in> set (butlast (bind_args f args @ func_code f)). everywhere (call_typed funcs) (NStatement (strip_below_stat s))"
      using cs by (blast dest: in_set_butlastD)
    ultimately show ?thesis by (simp add: result(4) list_all_iff block_child_nodes_def)
  qed
qed

lemma inline_call_kept:
  assumes typed: "funcs_typed md funcs" and e: "everywhere (call_typed funcs) (NExpression e)"
    and step: "inline_call funcs heuristic mode opened e = (e', opened', below)"
  shows "expr_kept md e e' \<and> list_all (everywhere (call_typed funcs)) (expr_child_nodes (expr_kind e'))"
  using step
proof (cases rule: inline_call_cases)
  case kept
  with e show ?thesis by (simp add: everywhere_expr expr_kept_def)
next
  case (opened f callee args t props i t')
  from typed opened(3) have f: "wf_func md f" "list_all (\<lambda>s. everywhere (call_typed funcs) (NStatement s)) (func_code f)"
    by (simp_all add: funcs_typed_def)
  from e opened(1-4) have "result_type f = t" by (auto simp: everywhere_expr call_typed_def list_all_iff)
  moreover have "wf_expr md e \<Longrightarrow> list_all (wf_expr md) args" using opened(1) by (cases e) (simp add: list_all_iff)
  moreover have "list_all (\<lambda>e. everywhere (call_typed funcs) (NExpression e)) args"
    using e opened(1) by (simp add: everywhere_expr list_all_iff)
  ultimately show ?thesis
    using opened(1,6) inlined_block_type [of f args] inlined_block_wf [OF _ f(1), of args] inlined_block_typed [OF _ f(2), of args]
    by (cases e) (simp add: expr_kept_def)
qed

lemma inline_kept:
  assumes "funcs_typed md funcs"
  shows "everywhere (call_typed funcs) (NStatement s) \<Longrightarrow> stat_kept md s (inline_stat funcs heuristic mode opened s)"
    "everywhere (call_typed funcs) (NExpression e) \<Longrightarrow> expr_kept md e (inline_expr funcs heuristic mode opened e)"
  using assms
proof (induction funcs heuristic mode opened s and funcs heuristic mode opened e rule: inline_stat_inline_expr.induct)
  case (1 funcs heuristic mode opened k di)
  let ?mode = "inline_mode (attributes di)"
  have part: "everywhere (call_typed funcs) m" if "m \<in> parts (stat_child_nodes k)" for m
    using 1(3) that by (intro everywhere_parts [of _ "stat_child_nodes k"]) (simp_all add: everywhere_stat)
  show ?case
    using map_stat_kept [of k md "inline_stat funcs heuristic ?mode opened" "inline_expr funcs heuristic ?mode opened"]
      1(1,2) [OF refl _ part 1(4)] by (simp add: stat_kept_def Let_def)
next
  case (2 funcs heuristic mode opened e)
  obtain e' opened' below where step: "inline_call funcs heuristic mode opened e = (e', opened', below)" by (metis prod_cases3)
  note kept = inline_call_kept [OF 2(4,3) step]
  show ?case
  proof (cases below)
    case True
    have part: "everywhere (call_typed funcs) m" if "m \<in> parts (expr_child_nodes (expr_kind e'))" for m
      using kept that by (blast intro: everywhere_parts)
    have "expr_kept md e' (map_subexprs (inline_stat funcs heuristic mode opened') (inline_expr funcs heuristic mode opened') e')"
      using 2(1,2) [OF step [symmetric] refl True _ part 2(4)] by (intro map_subexprs_kept) auto
    then show ?thesis using kept True by (simp add: step expr_kept_def map_subexprs_def)
  qed (use kept step in simp)
qed

section \<open>Modules\<close>

lemma func_inline_parts:
  "func_name (func_inline funcs heuristic f) = func_name f" "func_args (func_inline funcs heuristic f) = func_args f"
  "func_tipe (func_inline funcs heuristic f) = func_tipe f" "func_kind (func_inline funcs heuristic f) = func_kind f"
  by (simp_all add: func_inline_def)

lemma func_inline_wf:
  assumes "funcs_typed md funcs" "f \<in> set funcs"
  shows "wf_func md (propagate_attributes (func_inline funcs heuristic f))"
proof -
  from assms have "list_all (wf_statement md) (func_code f)" "list_all (\<lambda>s. everywhere (call_typed funcs) (NStatement s)) (func_code f)"
    by (auto simp: funcs_typed_def wf_func_def)
  then show ?thesis
    using inline_kept(1) [OF assms(1)] propagate_kept(1) [of md]
    by (auto simp: wf_func_def func_inline_def propagate_attributes_def list_all_iff stat_kept_def)
qed

text \<open>The functions of a module as they reach the code generator: inlined, with the attributes passed down.\<close>

definition prepared :: "inlining_heuristic \<Rightarrow> (string_id \<times> tc_func) list \<Rightarrow> tc_func list" where
  "prepared heuristic checked = map (propagate_attributes \<circ> snd) (module_inline heuristic checked)"

lemma module_of_prepared: "module_of (prepared heuristic checked) st imported gs = module_of (map snd checked) st imported gs"
  by (force simp: module_of_def prepared_def module_inline_def propagate_attributes_def func_inline_parts image_image)


text \<open>A function that calls one with an early return, which is inlined.\<close>

definition callee_source :: source_func where
  "callee_source = func_new 10 False [\<lparr>arg_name = 8, arg_tipe = TBool, arg_debug_info = debug_info_default\<rparr>] TUint
     [demo_src_stat (YExpression (demo_src (XIf (demo_src (XVariableRef 8))
        (CodeBlock [demo_src_stat (YReturn (demo_src (XConstant (CUint 1))))] None) None))),
      demo_src_stat (YReturn (demo_src (XConstant (CUint 2))))]
     True debug_info_default"

definition caller_source :: source_func where
  "caller_source = func_new 6 False [\<lparr>arg_name = 7, arg_tipe = TBool, arg_debug_info = debug_info_default\<rparr>] TUint
     [demo_src_stat (YReturn (demo_src (XBinary BPlus
        (demo_src (XFunctionCall (demo_src (XVariableRef 10)) [demo_src (XVariableRef 7)])) (demo_src (XConstant (CUint 3))))))]
     True debug_info_default"

definition library_imported :: "imported_func list" where
  "library_imported = map (\<lambda>i. \<lparr>imp_name_id = i, imp_slot_num = i, imp_name = demo_names ! i\<rparr>) [0, 1, 2, 3, 4, 5]"

definition calls_checked :: "(compile_error, undefinable, exported_func list \<times> global_var_decl list \<times> (string_id \<times> tc_func) list) outcome" where
  "calls_checked = typecheck_top_level_decls demo_tables [(6, caller_source), (10, callee_source)] Map.empty [] builtin_func_decls
     demo_table [6 \<mapsto> func_tipe caller_source, 10 \<mapsto> func_tipe callee_source] []"

lemma calls_check:
  "case calls_checked of
     Done (exported, gvs, checked) undef \<Rightarrow> gvs = [] \<and>
       list_all (\<lambda>(i, f). list_all (\<lambda>s. everywhere (call_typed (map snd checked)) (NStatement s)) (func_code f)) checked \<and>
       list_all (\<lambda>f. determine_funcs_used (func_child_nodes f) = []) (prepared InlineAll checked) \<and>
       (case mavm_codegen (\<lambda>bs. bs) (prepared InlineAll checked) demo_table library_imported [] False of
          Done cs ws \<Rightarrow> list_all (sizes_upto 10) cs \<and> length (snd (fix_nonforward_labels cs library_imported 0)) \<le> 10
        | _ \<Rightarrow> False)
   | _ \<Rightarrow> False"
  by code_simp

lemma library_imports_known:
  "list_all (\<lambda>imp. string_table_get_if_exists demo_table (import_name imp) \<in> Some ` imp_name_id ` set library_imported) builtin_func_decls"
  by code_simp

lemma calls_source_ok:
  "list_all (src_statement_ok md) (func_code caller_source)" "func_name caller_source = 6"
  "list_all (src_statement_ok md) (func_code callee_source)" "func_name callee_source = 10"
  by (simp_all add: caller_source_def callee_source_def func_new_def)


section \<open>What inlining does not keep\<close>

text \<open>
  Returns at the top level of the inlined function, other than a final one with a value, stay returns: after a final \<open>return;\<close> the
  code of the caller is left.  The same holds for a \<open>?\<close> that is returned directly.
\<close>

lemma inlined_return_leaves_caller:
  "block_body (inlined_block (f\<lparr>func_args := [], func_code := [TcStatement SReturnVoid di]\<rparr>) args) = [TcStatement SReturnVoid di]"
  "block_ret_expr (inlined_block (f\<lparr>func_args := [], func_code := [TcStatement (SReturn (TcExpr (ETry (TcExpr (ELocalVariableRef 1 t) di) t') di)) di]\<rparr>) args)
     = Some (TcExpr (ETry (TcExpr (ELocalVariableRef 1 t) di) t') di)"
  by (simp_all add: inlined_block_def bind_args_def strip_below_stat_def strip_below_expr_def map_subexprs_def)

text \<open>A \<open>?\<close> in an argument belongs to the caller, but becomes a break out of the inlined block.\<close>

lemma inlined_argument_breaks:
  "\<exists>pat es t di'. block_body (inlined_block (f\<lparr>func_args := [a], func_code := []\<rparr>) [TcExpr (ETry (TcExpr (ELocalVariableRef 1 t1) di) t2) di])
     = [TcStatement (SLet pat (TcExpr (ETuple [TcExpr (stripped_try (TcExpr (ELocalVariableRef 1 t1) di) t2) di] t) di')) di']"
  by (simp add: inlined_block_def bind_args_def strip_below_stat_def strip_below_expr_def map_subexprs_def Let_def)

text \<open>The block that replaces a call may have another type than the call.\<close>

lemma inlining_changes_types:
  "expr_get_type (inline_expr [\<lparr>func_name = 1, func_args = [], func_ret_type = TTuple [TUint, TUint],
       func_code = [TcStatement (SReturn (TcExpr EError di)) di], func_tipe = TFunc False [] (TTuple [TUint, TUint]),
       func_kind = Private, func_debug_info = debug_info_default, func_properties = \<lparr>pure = True\<rparr>\<rparr>]
     InlineAll AutoInline []
     (TcExpr (EFunctionCall (TcExpr (EFuncRef 1 t) di) [] (TTuple [TUint, TUint]) props) di)) = TEvery"
  by (simp add: inline_call_def inlining_mode_and_def debug_info_default_def attributes_default_def inlined_block_def bind_args_def
      strip_below_expr_def map_subexprs_def map_block_children_def)

end
