(* ===== verification/Flow_Analysis.thy ===== *)
theory Flow_Analysis
  imports Syntax_Nodes
begin

text \<open>
  Flow analysis of a function (\<open>flowcheck_reachability\<close>, \<open>flowcheck_liveliness\<close> and \<open>TypeCheckedFunc::flowcheck\<close> of
  \<open>src/compile/typecheck.rs\<close>): statements after a return, values that are assigned but never used, arguments and imports that
  are never used.  The analysis of live values runs over the nodes of a scope, with a second pass over the nodes of a loop; each
  node is represented by what it does to the state in the two passes.
\<close>

section \<open>Definitions\<close>

subsection \<open>Statements after a return\<close>

fun is_return :: "tc_node \<Rightarrow> bool" where
  "is_return (NStatement s) = (case stat_kind s of SReturn _ \<Rightarrow> True | SReturnVoid \<Rightarrow> True | _ \<Rightarrow> False)"
| "is_return _ = False"

definition stat_location :: "tc_node \<Rightarrow> location list" where
  "stat_location n = (case n of NStatement s \<Rightarrow> loc_list (stat_debug_info s) | _ \<Rightarrow> [])"

text \<open>The return, the statement after it and the last one, as far as they have locations.\<close>

definition unreachable_locations :: "tc_node list \<Rightarrow> location list" where
  "unreachable_locations ns =
     (case dropWhile (\<lambda>n. \<not> is_return n) ns of
        [] \<Rightarrow> []
      | r # after \<Rightarrow> stat_location r @ (case after of
            [] \<Rightarrow> []
          | n # others \<Rightarrow> stat_location n @ (if others = [] then [] else stat_location (last others))))"

definition unreachable_warning :: "tc_node list \<Rightarrow> compile_error list" where
  "unreachable_warning ns =
     (let locs = unreachable_locations ns
      in if length locs \<le> 1 then []
         else [compile_error_new_warning ''Compile warning''
                (if length locs = 2 then ''found unreachable statement'' else ''found unreachable statements'') locs])"

text \<open>The branches of a conditional that is a statement; its condition is not looked at.\<close>

definition branches :: "tc_node \<Rightarrow> tc_code_block list option" where
  "branches n =
     (case n of
        NStatement s \<Rightarrow>
          (case stat_kind s of
             SExpression e \<Rightarrow>
               (case expr_kind e of
                  EIf _ b ob _ \<Rightarrow> Some (b # (case ob of Some b' \<Rightarrow> [b'] | None \<Rightarrow> []))
                | EIfLet _ _ b ob _ \<Rightarrow> Some (b # (case ob of Some b' \<Rightarrow> [b'] | None \<Rightarrow> []))
                | _ \<Rightarrow> None)
           | _ \<Rightarrow> None)
      | _ \<Rightarrow> None)"

definition below_nodes :: "tc_node \<Rightarrow> tc_node list list" where
  "below_nodes n = (case branches n of Some bs \<Rightarrow> map block_child_nodes bs | None \<Rightarrow> [child_nodes n])"

lemma branches_cases:
  assumes "branches n = Some bs" "b \<in> set bs"
  obtains s e where "n = NStatement s" "stat_kind s = SExpression e" "set (block_child_nodes b) \<subseteq> set (expr_child_nodes (expr_kind e))"
proof (cases n)
  case (NStatement s)
  show thesis
  proof (cases "stat_kind s")
    case (SExpression e)
    have "set (block_child_nodes b) \<subseteq> set (expr_child_nodes (expr_kind e))"
      using assms by (cases "expr_kind e") (simp_all add: branches_def NStatement SExpression, (auto split: option.splits)[2])
    with NStatement SExpression show thesis by (rule that)
  qed (use assms in \<open>simp_all add: branches_def NStatement\<close>)
qed (use assms in \<open>simp_all add: branches_def\<close>)

lemma below_nodes_size:
  assumes "ns \<in> set (below_nodes n)" "m \<in> set ns"
  shows "node_size m < node_size n"
proof (cases "branches n")
  case None
  with assms show ?thesis by (simp add: below_nodes_def child_size)
next
  case (Some bs)
  with assms obtain b where b: "b \<in> set bs" "m \<in> set (block_child_nodes b)" by (auto simp: below_nodes_def)
  from Some b(1) obtain s e where n: "n = NStatement s" "stat_kind s = SExpression e"
      "set (block_child_nodes b) \<subseteq> set (expr_child_nodes (expr_kind e))"
    by (rule branches_cases)
  then have "node_size m < node_size (NExpression e)" using b(2) child_size [of m "NExpression e"] by auto
  also have "\<dots> < node_size n" using n(1,2) child_size [of "NExpression e" n] by simp
  finally show ?thesis .
qed

function reach_node :: "tc_node \<Rightarrow> compile_error list" where
  "reach_node n =
     concat (map (\<lambda>ns. concat (map reach_node (takeWhile (\<lambda>m. \<not> is_return m) ns)) @ unreachable_warning ns) (below_nodes n))"
  by auto
termination
  by (relation "measure node_size") (auto dest!: set_takeWhileD intro: below_nodes_size)

definition flowcheck_reachability :: "tc_node list \<Rightarrow> compile_error list" where
  "flowcheck_reachability ns = concat (map reach_node (takeWhile (\<lambda>m. \<not> is_return m) ns)) @ unreachable_warning ns"

declare reach_node.simps [simp del]

subsection \<open>Values that are never used\<close>

text \<open>
  The state of a scope: values that are alive, values of outer scopes that it brings to life again, values that it binds, values
  that it uses, values of outer scopes that it overwrites before any use, and the problems found so far.
\<close>

record live_state =
  alive :: "(string_id \<times> location) list"
  reborn :: "(string_id \<times> location) list"
  born :: "string_id set"
  killed :: "string_id set"
  rescue :: "string_id set"
  problems :: "(location \<times> string_id) list"

definition live_start :: "(location \<times> string_id) list \<Rightarrow> live_state" where
  "live_start ps = \<lparr>alive = [], reborn = [], born = {}, killed = {}, rescue = {}, problems = ps\<rparr>"

definition drop_ids :: "string_id set \<Rightarrow> (string_id \<times> location) list \<Rightarrow> (string_id \<times> location) list" where
  "drop_ids ids m = filter (\<lambda>(i, _). i \<notin> ids) m"

definition revive :: "string_id \<times> location \<Rightarrow> live_state \<Rightarrow> live_state" where
  "revive p s =
     (case p of (i, loc) \<Rightarrow>
        if i \<in> born s then s\<lparr>alive := btree_insert i loc (alive s)\<rparr> else s\<lparr>reborn := btree_insert i loc (reborn s)\<rparr>)"

text \<open>The macro \<open>process\<close>: the effects of an inner scope.\<close>

definition process :: "string_id set \<Rightarrow> (string_id \<times> location) list \<Rightarrow> live_state \<Rightarrow> live_state" where
  "process child_killed child_reborn s =
     (let s' = fold revive child_reborn (s\<lparr>alive := drop_ids child_killed (alive s), reborn := drop_ids child_killed (reborn s)\<rparr>)
      in s'\<lparr>killed := killed s' \<union> child_killed\<rparr>)"

text \<open>What a node does in the first and in the second pass; a panic is \<open>None\<close>.\<close>

type_synonym live_step = "live_state \<Rightarrow> live_state option"
type_synonym walker = "live_step \<times> live_step"

primrec live_steps :: "live_step list \<Rightarrow> live_step" where
  "live_steps [] s = Some s"
| "live_steps (f # fs) s = (case f s of None \<Rightarrow> None | Some s' \<Rightarrow> live_steps fs s')"

text \<open>A scope: what it uses and brings to life again, and the problems with its own.\<close>

definition flowcheck_liveliness ::
    "walker list \<Rightarrow> bool \<Rightarrow> (location \<times> string_id) list
     \<Rightarrow> ((location \<times> string_id) list \<times> string_id set \<times> (string_id \<times> location) list) option" where
  "flowcheck_liveliness ws loop_pass ps =
     (case live_steps (map fst ws) (live_start ps) of
        None \<Rightarrow> None
      | Some s1 \<Rightarrow>
          (case (if loop_pass then live_steps (map snd ws) s1 else Some s1) of
             None \<Rightarrow> None
           | Some s \<Rightarrow>
               Some (problems s @ map (\<lambda>(i, loc). (loc, i)) (filter (\<lambda>(i, _). i \<in> born s) (alive s)),
                     killed s - rescue s, reborn s)))"

definition process_scope :: "walker list \<Rightarrow> bool \<Rightarrow> live_step" where
  "process_scope ws loop_pass s =
     map_option (\<lambda>(ps, child_killed, child_reborn). process child_killed child_reborn (s\<lparr>problems := ps\<rparr>))
       (flowcheck_liveliness ws loop_pass (problems s))"

text \<open>In the second pass, values bound in this scope stay alive, and problems are not reported again.\<close>

definition second_kill :: "string_id set \<Rightarrow> live_state \<Rightarrow> live_state" where
  "second_kill ids s = s\<lparr>alive := drop_ids (ids - born s) (alive s), reborn := drop_ids (ids - born s) (reborn s)\<rparr>"

definition second_scope :: "walker list \<Rightarrow> bool \<Rightarrow> live_step" where
  "second_scope ws loop_pass s =
     map_option (\<lambda>(_, child_killed, _). second_kill child_killed s) (flowcheck_liveliness ws loop_pass [])"

definition node_walker :: "bool \<Rightarrow> walker list \<Rightarrow> walker" where
  "node_walker repeat ws = (process_scope ws repeat, second_scope ws repeat)"

text \<open>A use of a variable; the slot of a field access is treated in the same way.\<close>

definition variable_walker :: "string_id \<Rightarrow> walker list \<Rightarrow> walker" where
  "variable_walker i ws =
     (\<lambda>s. process_scope ws False (s\<lparr>killed := insert i (killed s), alive := drop_ids {i} (alive s), reborn := drop_ids {i} (reborn s)\<rparr>),
      \<lambda>s. second_scope ws False (second_kill {i} s))"

text \<open>A conditional: condition and branches are scopes whose effects are joined.\<close>

fun join_scopes ::
    "walker list list \<Rightarrow> (location \<times> string_id) list
     \<Rightarrow> ((location \<times> string_id) list \<times> string_id set \<times> (string_id \<times> location) list) option" where
  "join_scopes [] ps = Some (ps, {}, [])"
| "join_scopes (ws # wss) ps =
     (case flowcheck_liveliness ws False ps of
        None \<Rightarrow> None
      | Some (ps1, k1, r1) \<Rightarrow>
          map_option (\<lambda>(ps2, k2, r2). (ps2, k1 \<union> k2, fold (\<lambda>(i, loc). btree_insert i loc) r2 r1)) (join_scopes wss ps1))"

definition if_walker :: "walker \<Rightarrow> walker list \<Rightarrow> walker list option \<Rightarrow> walker" where
  "if_walker c block else_block =
     (\<lambda>s. map_option (\<lambda>(ps, if_killed, if_reborn). process if_killed if_reborn (s\<lparr>problems := ps\<rparr>))
        (join_scopes ([c] # block # (case else_block of Some b \<Rightarrow> [b] | None \<Rightarrow> [])) (problems s)),
      second_scope (c # block @ (case else_block of Some b \<Rightarrow> b | None \<Rightarrow> [])) False)"

definition note_problem :: "string_id \<Rightarrow> live_state \<Rightarrow> live_state" where
  "note_problem i s = (case map_of (alive s) i of Some loc \<Rightarrow> s\<lparr>problems := problems s @ [(loc, i)]\<rparr> | None \<Rightarrow> s)"

definition note_rescue :: "string_id \<Rightarrow> live_state \<Rightarrow> live_state" where
  "note_rescue i s =
     (if i \<notin> fst ` set (alive s) \<and> i \<notin> born s \<and> i \<notin> killed s then s\<lparr>rescue := insert i (rescue s)\<rparr> else s)"

text \<open>An assignment to a variable, and a binding, at a location; \<open>stat_loc\<close> is that of the statement.\<close>

definition assign_id :: "string_id \<Rightarrow> location option \<Rightarrow> location \<Rightarrow> live_step" where
  "assign_id i stat_loc loc s =
     (let s1 = note_problem i s
      in map_option (\<lambda>s2. (note_rescue i s2)\<lparr>alive := btree_insert i loc (alive s2)\<rparr>)
           (if i \<in> born s1 then Some s1
            else case stat_loc of Some l \<Rightarrow> Some (s1\<lparr>reborn := btree_insert i l (reborn s1)\<rparr>) | None \<Rightarrow> None))"

definition bind_id :: "string_id \<Rightarrow> location \<Rightarrow> live_state \<Rightarrow> live_state" where
  "bind_id i loc s =
     (let s1 = note_rescue i (if i \<in> born s then note_problem i s else s)
      in s1\<lparr>born := insert i (born s1), alive := btree_insert i loc (alive s1)\<rparr>)"

definition assign_walker :: "string_id \<Rightarrow> debug_info \<Rightarrow> walker \<Rightarrow> walker" where
  "assign_walker i di w =
     (\<lambda>s. case process_scope [w] False s of
            None \<Rightarrow> None
          | Some s' \<Rightarrow> (case location di of Some loc \<Rightarrow> assign_id i (location di) loc s' | None \<Rightarrow> None),
      second_scope [w] False)"

definition let_step :: "debug_info \<Rightarrow> string_id \<times> bool \<times> location \<Rightarrow> live_step" where
  "let_step di p s = (case p of (i, assigns, loc) \<Rightarrow> if assigns then assign_id i (location di) loc s else Some (bind_id i loc s))"

text \<open>The location of an assigned name in a pattern is shifted by one column, past its star.\<close>

definition pattern_ids :: "tipe match_pattern \<Rightarrow> (string_id \<times> bool \<times> location) list option" where
  "pattern_ids pat =
     collect_opt (\<lambda>(i, assigns, di). map_option (\<lambda>loc. (i, assigns, loc\<lparr>column := column loc + (if assigns then 1 else 0)\<rparr>)) (location di))
       (collect_identifiers pat)"

definition let_walker :: "tipe match_pattern \<Rightarrow> debug_info \<Rightarrow> walker \<Rightarrow> walker" where
  "let_walker pat di w =
     (\<lambda>s. case process_scope [w] False s of
            None \<Rightarrow> None
          | Some s' \<Rightarrow> (case pattern_ids pat of Some ids \<Rightarrow> live_steps (map (let_step di) ids) s' | None \<Rightarrow> None),
      second_scope [w] False)"

text \<open>A \<open>break\<close>: the first pass visits its expression, the second only the children of the expression.\<close>

definition break_walker :: "(walker \<times> walker list) option \<Rightarrow> walker" where
  "break_walker ow =
     (case ow of
        Some (w, ws) \<Rightarrow> (process_scope [w] False, second_scope ws False)
      | None \<Rightarrow> (process_scope [] False, second_scope [] False))"

definition plain :: "walker list \<Rightarrow> walker \<times> walker list" where
  "plain ws = (node_walker False ws, ws)"

text \<open>The walker of an expression, together with those of its children.\<close>

primrec live_expr :: "tc_expr \<Rightarrow> walker \<times> walker list"
  and live_kind :: "tc_expr_kind \<Rightarrow> walker \<times> walker list"
  and live_statement :: "tc_statement \<Rightarrow> walker"
  and live_statement_kind :: "tc_statement_kind \<Rightarrow> debug_info \<Rightarrow> walker"
  and live_block :: "tc_code_block \<Rightarrow> walker list" where
  "live_expr (TcExpr k di) = live_kind k"
| "live_kind ENewBuffer = plain []"
| "live_kind (EUnaryOp op e t) = plain [fst (live_expr e)]"
| "live_kind (EBinary op e1 e2 t) = plain [fst (live_expr e1), fst (live_expr e2)]"
| "live_kind (ETrinary op e1 e2 e3 t) = plain [fst (live_expr e1), fst (live_expr e2), fst (live_expr e3)]"
| "live_kind (EShortcutOr e1 e2) = plain [fst (live_expr e1), fst (live_expr e2)]"
| "live_kind (EShortcutAnd e1 e2) = plain [fst (live_expr e1), fst (live_expr e2)]"
| "live_kind (ELocalVariableRef name t) = (variable_walker name [], [])"
| "live_kind (EGlobalVariableRef idx t) = plain []"
| "live_kind (EVariant e) = plain [fst (live_expr e)]"
| "live_kind (EFuncRef name t) = plain []"
| "live_kind (ETupleRef e idx t) = plain [fst (live_expr e)]"
| "live_kind (EDotRef e slot sz t) = (variable_walker slot [fst (live_expr e)], [fst (live_expr e)])"
| "live_kind (EConst v t) = plain []"
| "live_kind (EFunctionCall f args t props) = plain (fst (live_expr f) # map fst (map live_expr args))"
| "live_kind (ECodeBlock b) = plain (live_block b)"
| "live_kind (EStructInitializer inits t) =
     plain (map (\<lambda>fi. node_walker False [fst (init_value fi)]) (map (map_field_initializer live_expr) inits))"
| "live_kind (EArrayRef e1 e2 t) = plain [fst (live_expr e1), fst (live_expr e2)]"
| "live_kind (EFixedArrayRef e1 e2 sz t) = plain [fst (live_expr e1), fst (live_expr e2)]"
| "live_kind (EMapRef e1 e2 t) = plain [fst (live_expr e1), fst (live_expr e2)]"
| "live_kind (ETuple es t) = plain (map fst (map live_expr es))"
| "live_kind (ENewArray e base t) = plain [fst (live_expr e)]"
| "live_kind (ENewFixedArray sz oe t) = plain (case map_option live_expr oe of Some w \<Rightarrow> [fst w] | None \<Rightarrow> [])"
| "live_kind (ENewMap t) = plain []"
| "live_kind (EArrayMod e1 e2 e3 t) = plain [fst (live_expr e1), fst (live_expr e2), fst (live_expr e3)]"
| "live_kind (EFixedArrayMod e1 e2 e3 sz t) = plain [fst (live_expr e1), fst (live_expr e2), fst (live_expr e3)]"
| "live_kind (EMapMod e1 e2 e3 t) = plain [fst (live_expr e1), fst (live_expr e2), fst (live_expr e3)]"
| "live_kind (EStructMod e1 idx e2 t) = plain [fst (live_expr e1), fst (live_expr e2)]"
| "live_kind (ECast e t) = plain [fst (live_expr e)]"
| "live_kind (EAsm t insns args) = plain (map fst (map live_expr args))"
| "live_kind EError = plain []"
| "live_kind EGetGas = plain []"
| "live_kind (ESetGas e) = plain [fst (live_expr e)]"
| "live_kind (ETry e t) = plain [fst (live_expr e)]"
| "live_kind (EIf c b ob t) =
     (if_walker (fst (live_expr c)) (live_block b) (map_option live_block ob),
      fst (live_expr c) # live_block b @ (case map_option live_block ob of Some ws \<Rightarrow> ws | None \<Rightarrow> []))"
| "live_kind (EIfLet name c b ob t) =
     (if_walker (fst (live_expr c)) (live_block b) (map_option live_block ob),
      fst (live_expr c) # live_block b @ (case map_option live_block ob of Some ws \<Rightarrow> ws | None \<Rightarrow> []))"
| "live_kind (ELoop stats) = (node_walker True (map live_statement stats), map live_statement stats)"
| "live_statement (TcStatement k di) = live_statement_kind k di"
| "live_statement_kind SNoop = (\<lambda>di. node_walker False [])"
| "live_statement_kind SReturnVoid = (\<lambda>di. node_walker False [])"
| "live_statement_kind (SReturn e) = (\<lambda>di. node_walker False [fst (live_expr e)])"
| "live_statement_kind (SBreak oe sc) = (\<lambda>di. break_walker (map_option live_expr oe))"
| "live_statement_kind (SExpression e) = (\<lambda>di. node_walker False [fst (live_expr e)])"
| "live_statement_kind (SLet pat e) = (\<lambda>di. let_walker pat di (fst (live_expr e)))"
| "live_statement_kind (SAssignLocal name e) = (\<lambda>di. assign_walker name di (fst (live_expr e)))"
| "live_statement_kind (SAssignGlobal idx e) = (\<lambda>di. node_walker False [fst (live_expr e)])"
| "live_statement_kind (SWhile c stats) = (\<lambda>di. node_walker True (fst (live_expr c) # map live_statement stats))"
| "live_statement_kind (SAsm insns args) = (\<lambda>di. node_walker False (map fst (map live_expr args)))"
| "live_statement_kind (SDebugPrint e) = (\<lambda>di. node_walker False [fst (live_expr e)])"
| "live_statement_kind (SAssert e) = (\<lambda>di. node_walker False [fst (live_expr e)])"
| "live_block (TcCodeBlock body r sc) =
     map live_statement body @ (case map_option live_expr r of Some w \<Rightarrow> [fst w] | None \<Rightarrow> [])"

subsection \<open>Functions\<close>

definition in_color :: "string \<Rightarrow> string \<Rightarrow> string" where
  "in_color warn_color n = warn_color @ n @ CHR 0x1B # ''[0;0m''"

definition unused_allowed :: "string \<Rightarrow> bool" where
  "unused_allowed n = (take 1 n = ''_'')"

definition flow_warning :: "string \<Rightarrow> location list \<Rightarrow> compile_error" where
  "flow_warning desc locs = compile_error_new_warning ''Compile warning'' desc locs"

text \<open>The warnings about one argument; names that start with an underscore are left alone.\<close>

definition arg_warnings ::
    "tc_func \<Rightarrow> string_table \<Rightarrow> string \<Rightarrow> string_id set \<Rightarrow> (string_id \<times> location) list \<Rightarrow> func_arg \<Rightarrow> compile_error list option" where
  "arg_warnings f st warn_color used assigned arg =
     (case string_table_name_from_id st (arg_name arg) of
        None \<Rightarrow> None
      | Some n \<Rightarrow>
          if unused_allowed n then Some []
          else let about = (\<lambda>what. map_option (\<lambda>fn. ''func '' @ in_color warn_color fn @ '''s argument '' @ in_color warn_color n @ what)
                     (string_table_name_from_id st (func_name f)));
                   declared = (if arg_name arg \<in> used then Some []
                     else map_option (\<lambda>t. [flow_warning t (loc_list (arg_debug_info arg))]) (about '' is declared but never used''));
                   overwritten = (case map_of assigned (arg_name arg) of
                       None \<Rightarrow> Some []
                     | Some loc \<Rightarrow> map_option (\<lambda>t. [flow_warning t [loc]]) (about '' is assigned but never used''))
               in (case (declared, overwritten) of (Some ws1, Some ws2) \<Rightarrow> Some (ws1 @ ws2) | _ \<Rightarrow> None))"

definition value_warnings :: "string_table \<Rightarrow> string \<Rightarrow> location \<times> string_id \<Rightarrow> compile_error list option" where
  "value_warnings st warn_color p =
     (case p of (loc, i) \<Rightarrow>
        map_option (\<lambda>n. if unused_allowed n then []
            else [flow_warning (''value '' @ in_color warn_color n @ '' is assigned but never used'') [loc]])
          (string_table_name_from_id st i))"

text \<open>The imports that are still unused, and the warnings of a function.\<close>

definition func_flowcheck ::
    "tc_func \<Rightarrow> (string_id \<times> import_decl) list \<Rightarrow> string_table \<Rightarrow> string \<Rightarrow> ((string_id \<times> import_decl) list \<times> compile_error list) option" where
  "func_flowcheck f imps st warn_color =
     (let imps' = remove_ids (find_nominals (func_tipe f)) (flowcheck_imports (func_child_nodes f) imps)
      in case flowcheck_liveliness (map live_statement (func_code f)) False [] of
           None \<Rightarrow> None
         | Some (unused, used, assigned) \<Rightarrow>
             (case (collect_opt (arg_warnings f st warn_color used assigned) (func_args f), collect_opt (value_warnings st warn_color) unused) of
                (Some ws1, Some ws2) \<Rightarrow> Some (imps', flowcheck_reachability (func_child_nodes f) @ concat ws1 @ concat ws2)
              | _ \<Rightarrow> None))"

section \<open>Unused values are reported\<close>

text \<open>What a step keeps of a value that it does not use.\<close>

definition id_kept :: "string_id \<Rightarrow> live_state \<Rightarrow> live_state \<Rightarrow> bool" where
  "id_kept x s s' \<longleftrightarrow> (x \<in> killed s' \<longrightarrow> x \<in> killed s) \<and> (x \<in> born s \<longrightarrow> x \<in> born s')
     \<and> (x \<in> fst ` set (alive s) \<longrightarrow> x \<in> fst ` set (alive s'))"

definition step_keeps :: "string_id \<Rightarrow> live_step \<Rightarrow> bool" where
  "step_keeps x f \<longleftrightarrow> (\<forall>s s'. f s = Some s' \<longrightarrow> id_kept x s s')"

definition walker_keeps :: "string_id \<Rightarrow> walker \<Rightarrow> bool" where
  "walker_keeps x w \<longleftrightarrow> step_keeps x (fst w) \<and> step_keeps x (snd w)"

lemma id_kept_refl: "id_kept x s s"
  by (simp add: id_kept_def)

lemma id_kept_trans: "id_kept x s1 s2 \<Longrightarrow> id_kept x s2 s3 \<Longrightarrow> id_kept x s1 s3"
  by (simp add: id_kept_def)

lemma fst_btree_insert: "fst ` set (btree_insert k v kvs) = insert k (fst ` set kvs)"
  by (induction k v kvs rule: btree_insert.induct) auto

lemma fst_drop_ids: "x \<notin> ids \<Longrightarrow> x \<in> fst ` set (drop_ids ids m) \<longleftrightarrow> x \<in> fst ` set m"
  by (force simp: drop_ids_def)

lemma step_keepsD: "step_keeps x f \<Longrightarrow> f s = Some s' \<Longrightarrow> id_kept x s s'"
  by (simp add: step_keeps_def)

lemma step_keepsI: "(\<And>s s'. f s = Some s' \<Longrightarrow> id_kept x s s') \<Longrightarrow> step_keeps x f"
  by (simp add: step_keeps_def)

lemma live_steps_keeps: "(\<And>f. f \<in> set fs \<Longrightarrow> step_keeps x f) \<Longrightarrow> step_keeps x (live_steps fs)"
proof (induction fs)
  case (Cons f fs)
  show ?case
  proof (rule step_keepsI)
    fix s s'
    assume "live_steps (f # fs) s = Some s'"
    then obtain s1 where s1: "f s = Some s1" "live_steps fs s1 = Some s'" by (auto split: option.splits)
    have "step_keeps x f" "step_keeps x (live_steps fs)" by (rule Cons.prems, simp) (rule Cons.IH, rule Cons.prems, simp)
    with s1 have "id_kept x s s1" "id_kept x s1 s'" by (blast dest: step_keepsD)+
    then show "id_kept x s s'" by (rule id_kept_trans)
  qed
qed (simp add: step_keeps_def id_kept_refl)

lemma revive_kept: "id_kept x s (fold revive ps s)"
proof (induction ps arbitrary: s)
  case (Cons p ps)
  have "id_kept x s (revive p s)" by (auto simp: revive_def id_kept_def fst_btree_insert split: prod.splits)
  with Cons show ?case by (auto intro: id_kept_trans)
qed (simp add: id_kept_refl)

lemma process_kept:
  assumes "x \<notin> K"
  shows "id_kept x s (process K R s)"
proof -
  let ?s1 = "s\<lparr>alive := drop_ids K (alive s), reborn := drop_ids K (reborn s)\<rparr>"
  have "id_kept x s ?s1" using assms by (simp add: id_kept_def fst_drop_ids)
  also have "id_kept x ?s1 (fold revive R ?s1)" by (rule revive_kept)
  finally (id_kept_trans) show ?thesis using assms by (simp add: process_def Let_def id_kept_def)
qed

lemma problems_kept: "id_kept x (s\<lparr>problems := ps\<rparr>) s' = id_kept x s s'"
  by (simp add: id_kept_def)

lemma flowcheck_liveliness_cases:
  assumes "flowcheck_liveliness ws lp ps = Some (ps', K, R)"
  obtains s1 s where "live_steps (map fst ws) (live_start ps) = Some s1" "if lp then live_steps (map snd ws) s1 = Some s else s = s1"
    "ps' = problems s @ map (\<lambda>(i, loc). (loc, i)) (filter (\<lambda>(i, _). i \<in> born s) (alive s))" "K = killed s - rescue s" "R = reborn s"
  using assms that by (auto simp: flowcheck_liveliness_def split: option.splits if_splits)

lemma scope_state_kept:
  assumes "\<And>w. w \<in> set ws \<Longrightarrow> walker_keeps x w" "if lp then live_steps (map snd ws) s1 = Some s else s = s1"
  shows "id_kept x s1 s"
proof (cases lp)
  case True
  have "step_keeps x (live_steps (map snd ws))" using assms(1) by (intro live_steps_keeps) (auto simp: walker_keeps_def)
  with True assms(2) show ?thesis by (simp add: step_keepsD)
qed (use assms(2) in \<open>simp add: id_kept_refl\<close>)

lemma scope_keeps:
  assumes "\<And>w. w \<in> set ws \<Longrightarrow> walker_keeps x w" "flowcheck_liveliness ws lp ps = Some (ps', K, R)"
  shows "x \<notin> K"
proof -
  from assms(2) obtain s1 s where s: "live_steps (map fst ws) (live_start ps) = Some s1"
      "if lp then live_steps (map snd ws) s1 = Some s else s = s1" "K = killed s - rescue s"
    by (rule flowcheck_liveliness_cases)
  have "step_keeps x (live_steps (map fst ws))" using assms(1) by (intro live_steps_keeps) (auto simp: walker_keeps_def)
  then have "id_kept x (live_start ps) s" using s(1) scope_state_kept [OF assms(1) s(2)] by (blast intro: step_keepsD id_kept_trans)
  then show ?thesis by (simp add: s(3) id_kept_def live_start_def)
qed

lemma process_scope_keeps:
  assumes "\<And>w. w \<in> set ws \<Longrightarrow> walker_keeps x w"
  shows "step_keeps x (process_scope ws lp)"
proof (rule step_keepsI)
  fix s s'
  assume "process_scope ws lp s = Some s'"
  then obtain ps K R where "flowcheck_liveliness ws lp (problems s) = Some (ps, K, R)" "s' = process K R (s\<lparr>problems := ps\<rparr>)"
    by (auto simp: process_scope_def)
  with process_kept [OF scope_keeps [OF assms], of ws lp "problems s" ps K R "s\<lparr>problems := ps\<rparr>" R]
  show "id_kept x s s'" by (simp add: problems_kept)
qed

lemma second_kill_kept: "x \<notin> ids \<Longrightarrow> id_kept x s (second_kill ids s)"
  by (simp add: second_kill_def id_kept_def fst_drop_ids)

lemma second_scope_keeps:
  assumes "\<And>w. w \<in> set ws \<Longrightarrow> walker_keeps x w"
  shows "step_keeps x (second_scope ws lp)"
proof (rule step_keepsI)
  fix s s'
  assume "second_scope ws lp s = Some s'"
  then obtain ps K R where "flowcheck_liveliness ws lp [] = Some (ps, K, R)" "s' = second_kill K s"
    by (auto simp: second_scope_def)
  with second_kill_kept [OF scope_keeps [OF assms], of ws lp "[]" ps K R s] show "id_kept x s s'" by simp
qed

lemma node_walker_keeps: "(\<And>w. w \<in> set ws \<Longrightarrow> walker_keeps x w) \<Longrightarrow> walker_keeps x (node_walker repeat ws)"
  by (simp add: walker_keeps_def node_walker_def process_scope_keeps second_scope_keeps)

lemma variable_walker_keeps:
  assumes "x \<noteq> i" "\<And>w. w \<in> set ws \<Longrightarrow> walker_keeps x w"
  shows "walker_keeps x (variable_walker i ws)"
proof -
  have "id_kept x s (s\<lparr>killed := insert i (killed s), alive := drop_ids {i} (alive s), reborn := drop_ids {i} (reborn s)\<rparr>)"
    "id_kept x s (second_kill {i} s)" for s
    using assms(1) second_kill_kept [of x "{i}" s] by (simp_all add: id_kept_def fst_drop_ids)
  with step_keepsD [OF process_scope_keeps [of ws x False, OF assms(2)]] step_keepsD [OF second_scope_keeps [of ws x False, OF assms(2)]]
  show ?thesis
    unfolding walker_keeps_def variable_walker_def fst_conv snd_conv by (blast intro: step_keepsI id_kept_trans)
qed

lemma join_scopes_keeps:
  "(\<And>ws w. ws \<in> set wss \<Longrightarrow> w \<in> set ws \<Longrightarrow> walker_keeps x w) \<Longrightarrow> join_scopes wss ps = Some (ps', K, R) \<Longrightarrow> x \<notin> K"
proof (induction wss ps arbitrary: ps' K R rule: join_scopes.induct)
  case (2 ws wss ps)
  from 2(3) obtain ps1 k1 r1 ps2 k2 r2 where parts: "flowcheck_liveliness ws False ps = Some (ps1, k1, r1)"
      "join_scopes wss ps1 = Some (ps2, k2, r2)" "K = k1 \<union> k2"
    by (auto split: option.splits)
  have "x \<notin> k1" by (rule scope_keeps [OF _ parts(1)]) (rule 2(2), simp_all)
  moreover have "x \<notin> k2" by (rule 2(1) [OF parts(1) refl refl _ parts(2)]) (rule 2(2), simp_all)
  ultimately show ?case by (simp add: parts(3))
qed simp

lemma if_walker_keeps:
  assumes "walker_keeps x c" "\<And>w. w \<in> set block \<Longrightarrow> walker_keeps x w"
    "\<And>b w. else_block = Some b \<Longrightarrow> w \<in> set b \<Longrightarrow> walker_keeps x w"
  shows "walker_keeps x (if_walker c block else_block)"
proof -
  let ?wss = "[c] # block # (case else_block of Some b \<Rightarrow> [b] | None \<Rightarrow> [])"
  have killed: "x \<notin> K" if "join_scopes ?wss ps = Some (ps', K, R)" for ps ps' K R
    by (rule join_scopes_keeps [OF _ that]) (use assms in \<open>auto split: option.splits\<close>)
  have "step_keeps x (fst (if_walker c block else_block))"
  proof (rule step_keepsI)
    fix s s'
    assume "fst (if_walker c block else_block) s = Some s'"
    then obtain ps K R where "join_scopes ?wss (problems s) = Some (ps, K, R)" "s' = process K R (s\<lparr>problems := ps\<rparr>)"
      by (auto simp: if_walker_def)
    with process_kept [OF killed, of "problems s" ps K R "s\<lparr>problems := ps\<rparr>" R] show "id_kept x s s'" by (simp add: problems_kept)
  qed
  moreover have "step_keeps x (snd (if_walker c block else_block))"
    unfolding if_walker_def snd_conv by (rule second_scope_keeps) (use assms in \<open>auto split: option.splits\<close>)
  ultimately show ?thesis by (simp add: walker_keeps_def)
qed

lemma note_kept: "id_kept x s (note_problem i s)" "id_kept x s (note_rescue i s)"
  by (auto simp: note_problem_def note_rescue_def id_kept_def split: option.splits)

lemma step_keeps_then:
  assumes "step_keeps x f" "step_keeps x g"
  shows "step_keeps x (\<lambda>s. case f s of None \<Rightarrow> None | Some s' \<Rightarrow> g s')"
proof (rule step_keepsI)
  fix s s'
  assume "(case f s of None \<Rightarrow> None | Some s' \<Rightarrow> g s') = Some s'"
  then obtain s1 where "f s = Some s1" "g s1 = Some s'" by (auto split: option.splits)
  with assms have "id_kept x s s1" "id_kept x s1 s'" by (blast dest: step_keepsD)+
  then show "id_kept x s s'" by (rule id_kept_trans)
qed

lemma step_keeps_case: "(\<And>a. v = Some a \<Longrightarrow> step_keeps x (g a)) \<Longrightarrow> step_keeps x (\<lambda>s. case v of Some a \<Rightarrow> g a s | None \<Rightarrow> None)"
  by (cases v) (simp_all add: step_keeps_def)

lemma assign_id_keeps: "step_keeps x (assign_id i stat_loc loc)"
proof (rule step_keepsI)
  fix s s'
  assume run: "assign_id i stat_loc loc s = Some s'"
  have noted: "id_kept x s (note_problem i s)" by (rule note_kept)
  have add: "id_kept x s ((note_rescue i s2)\<lparr>alive := btree_insert i loc (alive s2)\<rparr>)"
    if "alive s2 = alive (note_problem i s)" "born s2 = born (note_problem i s)" "killed s2 = killed (note_problem i s)" for s2
    using noted that note_kept(2) [of x s2 i] by (auto simp: id_kept_def fst_btree_insert)
  show "id_kept x s s'"
  proof (cases "i \<in> born (note_problem i s)")
    case True
    with run show ?thesis using add [of "note_problem i s"] by (simp add: assign_id_def Let_def)
  next
    case False
    with run obtain l where "stat_loc = Some l" by (cases stat_loc) (simp_all add: assign_id_def)
    with False run show ?thesis using add [of "(note_problem i s)\<lparr>reborn := btree_insert i l (reborn (note_problem i s))\<rparr>"]
      by (simp add: assign_id_def Let_def)
  qed
qed

lemma bind_id_kept: "id_kept x s (bind_id i loc s)"
proof -
  let ?s = "if i \<in> born s then note_problem i s else s"
  have "id_kept x s ?s" by (simp add: note_kept id_kept_refl)
  with note_kept(2) [of x ?s i] show ?thesis by (auto simp: bind_id_def Let_def id_kept_def fst_btree_insert)
qed

lemma let_step_keeps: "step_keeps x (let_step di p)"
proof (rule step_keepsI)
  fix s s'
  obtain i assigns loc where p: "p = (i, assigns, loc)" by (rule prod_cases3)
  assume "let_step di p s = Some s'"
  then show "id_kept x s s'"
    using step_keepsD [OF assign_id_keeps, of i "location di" loc s s' x] bind_id_kept [of x s i loc]
    by (auto simp: let_step_def p split: if_splits)
qed

lemma assign_walker_keeps:
  assumes "walker_keeps x w"
  shows "walker_keeps x (assign_walker i di w)"
  unfolding walker_keeps_def assign_walker_def fst_conv snd_conv
  by (intro conjI step_keeps_then step_keeps_case process_scope_keeps second_scope_keeps assign_id_keeps) (use assms in simp_all)

lemma let_walker_keeps:
  assumes "walker_keeps x w"
  shows "walker_keeps x (let_walker pat di w)"
proof -
  have "step_keeps x (live_steps (map (let_step di) ids))" for ids
    using let_step_keeps by (intro live_steps_keeps) auto
  then show ?thesis
    unfolding walker_keeps_def let_walker_def fst_conv snd_conv
    by (intro conjI step_keeps_then step_keeps_case process_scope_keeps second_scope_keeps) (use assms in simp_all)
qed

subsection \<open>Nodes and their walkers\<close>

fun walker_of :: "tc_node \<Rightarrow> walker" where
  "walker_of (NStatement s) = live_statement s"
| "walker_of (NExpression e) = fst (live_expr e)"
| "walker_of (NStructField fi) = node_walker False [fst (live_expr (init_value fi))]"
| "walker_of (NType t) = node_walker False []"

lemma live_block_eq: "live_block b = map walker_of (block_child_nodes b)"
  by (cases b) (simp add: block_child_nodes_def split: option.split)

lemma live_children_eq: "snd (live_expr e) = map walker_of (expr_child_nodes (expr_kind e))"
  by (cases e; cases "expr_kind e") (auto simp: plain_def live_block_eq field_initializer.map_sel split: option.split)

text \<open>The variables that a node uses in itself, as the analysis sees it.\<close>

definition expr_uses :: "tc_expr \<Rightarrow> string_id list" where
  "expr_uses e = (case expr_kind e of ELocalVariableRef i _ \<Rightarrow> [i] | EDotRef _ slot _ _ \<Rightarrow> [slot] | _ \<Rightarrow> [])"

definition uses_here :: "tc_node \<Rightarrow> string_id list" where
  "uses_here n =
     (case n of
        NExpression e \<Rightarrow> expr_uses e
      | NStatement s \<Rightarrow> (case stat_kind s of SBreak (Some e) _ \<Rightarrow> expr_uses e | _ \<Rightarrow> [])
      | _ \<Rightarrow> [])"

lemma expr_walker_keeps:
  assumes "x \<notin> set (expr_uses e)" "\<And>n. n \<in> set (expr_child_nodes (expr_kind e)) \<Longrightarrow> walker_keeps x (walker_of n)"
  shows "walker_keeps x (fst (live_expr e))"
proof -
  have plain: "walker_keeps x (fst (live_expr e))" if "fst (live_expr e) = node_walker repeat (snd (live_expr e))" for repeat
    using assms(2) by (auto simp: that live_children_eq intro!: node_walker_keeps)
  show ?thesis
  proof (cases "expr_kind e")
    case (EIf c b ob t)
    then have "fst (live_expr e) = if_walker (fst (live_expr c)) (live_block b) (map_option live_block ob)" by (cases e) simp
    moreover have "walker_keeps x (if_walker (fst (live_expr c)) (live_block b) (map_option live_block ob))"
      by (rule if_walker_keeps) (use assms(2) assms(2) [of "NExpression c"] in \<open>auto simp: EIf live_block_eq\<close>)
    ultimately show ?thesis by simp
  next
    case (EIfLet name c b ob t)
    then have "fst (live_expr e) = if_walker (fst (live_expr c)) (live_block b) (map_option live_block ob)" by (cases e) simp
    moreover have "walker_keeps x (if_walker (fst (live_expr c)) (live_block b) (map_option live_block ob))"
      by (rule if_walker_keeps) (use assms(2) assms(2) [of "NExpression c"] in \<open>auto simp: EIfLet live_block_eq\<close>)
    ultimately show ?thesis by simp
  next
    case (ELocalVariableRef i t)
    then show ?thesis using assms by (cases e) (auto simp: expr_uses_def intro!: variable_walker_keeps)
  next
    case (EDotRef e' slot sz t)
    then show ?thesis using assms by (cases e) (auto simp: expr_uses_def intro!: variable_walker_keeps)
  next
    case (ELoop stats)
    then show ?thesis by (intro plain [of True]) (cases e, simp)
  qed (rule plain [of False], cases e, simp add: plain_def)+
qed

lemma walker_of_keeps: "everywhere (\<lambda>m. x \<notin> set (uses_here m)) n \<Longrightarrow> walker_keeps x (walker_of n)"
proof (induction n rule: node_induct)
  case (node n)
  then have here: "x \<notin> set (uses_here n)" and children: "\<And>m. m \<in> set (child_nodes n) \<Longrightarrow> walker_keeps x (walker_of m)"
    by (simp_all add: everywhere.simps [of _ n] list_all_iff)
  have exprs: "walker_keeps x (fst (live_expr e))" if "NExpression e \<in> set (child_nodes n)" for e using children [OF that] by simp
  have stats: "walker_keeps x (live_statement s)" if "NStatement s \<in> set (child_nodes n)" for s using children [OF that] by simp
  show ?case
  proof (cases n)
    case (NStatement s)
    obtain k di where s: "s = TcStatement k di" by (cases s)
    show ?thesis
    proof (cases k)
      case (SBreak oe sc)
      show ?thesis
      proof (cases oe)
        case None
        then show ?thesis
          by (simp add: NStatement s SBreak break_walker_def walker_keeps_def) (intro conjI process_scope_keeps second_scope_keeps; simp)
      next
        case (Some e)
        have inner: "walker_keeps x (fst (live_expr e))"
          using here children by (intro expr_walker_keeps) (simp_all add: NStatement s SBreak Some uses_here_def)
        have "walker_keeps x w" if "w \<in> set (snd (live_expr e))" for w
          using that children by (auto simp: live_children_eq NStatement s SBreak Some)
        then show ?thesis
          using process_scope_keeps [of "[fst (live_expr e)]" x False] second_scope_keeps [of "snd (live_expr e)" x False] inner
          by (simp add: NStatement s SBreak Some break_walker_def walker_keeps_def [of x "(_, _)"] case_prod_beta)
      qed
    qed (use exprs stats in \<open>auto simp: NStatement s intro!: node_walker_keeps let_walker_keeps assign_walker_keeps\<close>)
  next
    case (NExpression e)
    then show ?thesis using here children expr_walker_keeps [of x e] by (simp add: uses_here_def)
  next
    case (NStructField fi)
    then show ?thesis using exprs by (auto intro!: node_walker_keeps)
  qed (auto intro!: node_walker_keeps)
qed

subsection \<open>Bindings\<close>

definition step_binds :: "string_id \<Rightarrow> live_step \<Rightarrow> bool" where
  "step_binds x f \<longleftrightarrow> (\<forall>s s'. f s = Some s' \<longrightarrow> x \<in> born s' \<and> x \<in> fst ` set (alive s'))"

lemma live_steps_binds:
  assumes "\<And>f. f \<in> set fs \<Longrightarrow> step_keeps x f" "f \<in> set fs" "step_binds x f"
  shows "step_binds x (live_steps fs)"
  unfolding step_binds_def
proof (intro allI impI)
  fix s s'
  assume run: "live_steps fs s = Some s'"
  from assms(2) obtain fs1 fs2 where fs: "fs = fs1 @ f # fs2" by (meson split_list)
  have "live_steps (fs1 @ f # fs2) s = Some s' \<Longrightarrow> \<exists>s1 s2. f s1 = Some s2 \<and> live_steps fs2 s2 = Some s'"
    by (induction fs1 arbitrary: s) (auto split: option.splits)
  with run fs obtain s1 s2 where s2: "f s1 = Some s2" "live_steps fs2 s2 = Some s'" by blast
  have "step_keeps x (live_steps fs2)" using assms(1) by (intro live_steps_keeps) (simp add: fs)
  then have "id_kept x s2 s'" using s2(2) by (rule step_keepsD)
  moreover from assms(3) s2(1) have "x \<in> born s2" "x \<in> fst ` set (alive s2)" by (auto simp: step_binds_def)
  ultimately show "x \<in> born s' \<and> x \<in> fst ` set (alive s')" by (simp add: id_kept_def)
qed

lemma collect_opt_member: "collect_opt f xs = Some ys \<Longrightarrow> x \<in> set xs \<Longrightarrow> \<exists>y \<in> set ys. f x = Some y"
  by (fastforce simp: collect_opt_Some_iff in_set_conv_nth list_all2_conv_all_nth)

lemma let_walker_binds:
  assumes "(x, False, di') \<in> set (collect_identifiers pat)"
  shows "step_binds x (fst (let_walker pat di w))"
proof -
  have "step_binds x (live_steps (map (let_step di) ids))" if ids: "pattern_ids pat = Some ids" for ids
  proof -
    from collect_opt_member [OF ids [unfolded pattern_ids_def] assms] obtain q where q: "q \<in> set ids"
        "map_option (\<lambda>loc. (x, False, loc\<lparr>column := column loc + 0\<rparr>)) (location di') = Some q" by auto
    then obtain loc where loc: "q = (x, False, loc)" by auto
    have "step_binds x (let_step di (x, False, loc))"
      by (auto simp: step_binds_def let_step_def bind_id_def Let_def fst_btree_insert)
    with q(1) loc show ?thesis using let_step_keeps by (intro live_steps_binds) auto
  qed
  then show ?thesis
    by (auto simp: step_binds_def let_walker_def split: option.splits)
qed

lemma scope_reports:
  assumes "\<And>w. w \<in> set ws \<Longrightarrow> walker_keeps x w" "w \<in> set ws" "step_binds x (fst w)"
    "flowcheck_liveliness ws lp ps = Some (ps', K, R)"
  shows "\<exists>loc. (loc, x) \<in> set ps'"
proof -
  from assms(4) obtain s1 s where s: "live_steps (map fst ws) (live_start ps) = Some s1"
      "if lp then live_steps (map snd ws) s1 = Some s else s = s1"
      "ps' = problems s @ map (\<lambda>(i, loc). (loc, i)) (filter (\<lambda>(i, _). i \<in> born s) (alive s))"
    by (rule flowcheck_liveliness_cases)
  have "step_binds x (live_steps (map fst ws))"
    using assms(1-3) by (intro live_steps_binds [of _ x "fst w"]) (auto simp: walker_keeps_def)
  with s(1) have "x \<in> born s1" "x \<in> fst ` set (alive s1)" by (auto simp: step_binds_def)
  with scope_state_kept [OF assms(1) s(2)] have "x \<in> born s" "x \<in> fst ` set (alive s)" by (auto simp: id_kept_def)
  then show ?thesis by (force simp: s(3))
qed

lemma arg_warnings_unused:
  assumes "arg_warnings f st warn_color used assigned arg = Some ys" "arg_name arg \<notin> used"
    "string_table_name_from_id st (arg_name arg) = Some n" "\<not> unused_allowed n"
  shows "\<exists>fn. string_table_name_from_id st (func_name f) = Some fn
    \<and> flow_warning (''func '' @ in_color warn_color fn @ '''s argument '' @ in_color warn_color n @ '' is declared but never used'')
        (loc_list (arg_debug_info arg)) \<in> set ys"
  using assms by (auto simp: arg_warnings_def Let_def split: option.splits)


text \<open>A function with an unused argument that binds an unused value.\<close>

definition unused_example :: tc_func where
  "unused_example = \<lparr>func_name = 0, func_args = [\<lparr>arg_name = 1, arg_tipe = TUint, arg_debug_info = debug_info_default\<rparr>], func_ret_type = TVoid,
     func_code = [TcStatement (SLet (MatchPattern (PBind 2) (debug_info_from (Some \<lparr>line = 3, column = 7, absolute = 40, file_id = 1\<rparr>)) TUint)
       (TcExpr (EConst (IntV 5) TUint) debug_info_default)) debug_info_default],
     func_tipe = TFunc False [TUint] TVoid, func_kind = Private, func_debug_info = debug_info_default, func_properties = \<lparr>pure = True\<rparr>\<rparr>"

definition unused_table :: string_table where
  "unused_table = \<lparr>next_id = 3, table = [''f'' \<mapsto> 0, ''a'' \<mapsto> 1, ''v'' \<mapsto> 2], by_id = [''f'', ''a'', ''v'']\<rparr>"

lemma unused_example_runs:
  "case func_flowcheck unused_example [] unused_table '''' of Some (_, ws) \<Rightarrow> length ws = 2 | None \<Rightarrow> False"
  "list_all (everywhere (\<lambda>m. 2 \<notin> set (uses_here m))) (func_child_nodes unused_example)"
  "string_table_name_from_id unused_table 2 = Some ''v''" "\<not> unused_allowed ''v''"
  by code_simp+


text \<open>A field access counts as a use of the variable whose id is the slot of the field: here of the variable 0, which is never used.\<close>

lemma slot_counts_as_use:
  "map_option fst (flowcheck_liveliness (map live_statement
     [TcStatement (SLet (MatchPattern (PBind 0) (debug_info_from (Some \<lparr>line = 3, column = 7, absolute = 40, file_id = 1\<rparr>)) TUint)
        (TcExpr (EConst (IntV 5) TUint) debug_info_default)) debug_info_default,
      TcStatement (SExpression (TcExpr (EDotRef (TcExpr (EConst (IntV 6) TAny) debug_info_default) 0 2 TUint) debug_info_default)) debug_info_default])
     False []) = Some []"
  by code_simp

section \<open>Statements after a return are reported\<close>

lemma reach_node_eq: "reach_node n = concat (map flowcheck_reachability (below_nodes n))"
  by (simp add: reach_node.simps [of n] flowcheck_reachability_def [abs_def])

lemma dead_statement_reported:
  assumes "is_return r" "list_all (\<lambda>n. \<not> is_return n) ns" "stat_location r = [l1]" "stat_location d = [l2]"
  shows "\<exists>desc locs. compile_error_new_warning ''Compile warning'' desc (l1 # l2 # locs) \<in> set (flowcheck_reachability (ns @ r # d # ms))"
proof -
  have "dropWhile (\<lambda>n. \<not> is_return n) (ns @ r # d # ms) = r # d # ms"
    using assms(1,2) by (subst dropWhile_append2) (auto simp: list_all_iff)
  with assms(3,4) show ?thesis
    by (auto simp: flowcheck_reachability_def unreachable_warning_def unreachable_locations_def)
qed

lemma no_return_no_warning: "list_all (\<lambda>n. \<not> is_return n) ns \<Longrightarrow> unreachable_warning ns = []"
  by (simp add: unreachable_warning_def unreachable_locations_def list_all_iff dropWhile_eq_Nil_conv [THEN iffD2])

end
