(* ===== verification/Driver.thy ===== *)
theory Driver
  imports Inlining Flow_Analysis "HOL-Library.AList" "HOL-Library.List_Lexorder" "HOL-Library.Char_ord"
begin

text \<open>
  The compilation driver (\<open>src/compile/mod.rs\<close>) between parsing and linking: the modules of a program, their imports from each
  other, type checking, flow analysis, the call graph with which unused functions are removed, inlining and code generation.
  Reading files and the generated parser are parameters.
  Hash maps are association lists; the order of their entries, on which only the order of warnings, the numbers of imports and the choice
  among several errors depend, is that of the list.
\<close>

section \<open>Definitions\<close>

subsection \<open>Modules\<close>

record mini_module =
  mod_imported_funcs :: "imported_func list"
  mod_funcs :: "(string_id \<times> source_func) list"
  mod_named_types :: "(string_id \<times> tipe) list"
  mod_constants :: "string list"
  mod_global_vars :: "global_var_decl list"
  mod_imports :: "import_decl list"
  mod_string_table :: string_table
  mod_func_table :: "string_id \<rightharpoonup> tipe"
  mod_path :: "string list"
  mod_name :: string

record tc_module =
  tm_checked_funcs :: "(string_id \<times> tc_func) list"
  tm_string_table :: string_table
  tm_imported_funcs :: "imported_func list"
  tm_exported_funcs :: "exported_func list"
  tm_named_types :: "(string_id \<times> tipe) list"
  tm_constants :: "string list"
  tm_global_vars :: "global_var_decl list"
  tm_imports :: "import_decl list"
  tm_path :: "string list"
  tm_name :: string

text \<open>After the modules are read, the driver adds to the warnings and may fail or panic.\<close>

type_synonym 'a driver = "(compile_error, compile_error list, 'a) comp"

definition add_warnings :: "compile_error list \<Rightarrow> unit driver" where
  "add_warnings ws = modify_c (\<lambda>s. s @ ws)"

subsection \<open>The modules of a program\<close>

text \<open>The name of the file of a module; \<open>None\<close>: an index out of bounds.\<close>

definition module_file :: "string list \<Rightarrow> string option" where
  "module_file path =
     map_option (\<lambda>n. n @ ''.mini'')
       (case path of
          [] \<Rightarrow> None
        | [p] \<Rightarrow> Some p
        | p # q # _ \<Rightarrow>
            if p = ''std'' then Some (''../stdlib/'' @ q) else if p = ''core'' then Some (''../builtin/'' @ q) else Some p)"

text \<open>
  What surrounds the driver: the name of a file in the folder that is compiled, reading a file, the hash of the path of a module, and the
  generated parser, which returns declarations, the table of names and the constants that are used, or an error, and its warnings.
\<close>

type_synonym parsed_module = "top_level_decl list \<times> string_table \<times> string list"

record front_end =
  fe_join :: "string \<Rightarrow> string"
  fe_read :: "string \<Rightarrow> compile_error + string"
  fe_hash :: "string list \<Rightarrow> u64"
  fe_parse :: "string \<Rightarrow> u64 \<Rightarrow> string list \<Rightarrow> (compile_error + parsed_module) \<times> compile_error list"

definition module_from :: "parsed_module \<Rightarrow> string list \<Rightarrow> bool \<Rightarrow> string \<Rightarrow> mini_module" where
  "module_from parsed path builtins name =
     (case parsed of (decls, st, consts) \<Rightarrow>
        let sd = sort_top_level_decls decls path builtins
        in \<lparr>mod_imported_funcs = [], mod_funcs = sd_funcs sd, mod_named_types = sd_named_types sd, mod_constants = consts,
            mod_global_vars = sd_global_vars sd, mod_imports = sd_imports sd, mod_string_table = st, mod_func_table = sd_func_table sd,
            mod_path = path, mod_name = name\<rparr>)"

text \<open>The lines of a file.\<close>

fun split_lines :: "string \<Rightarrow> string list" where
  "split_lines [] = [[]]"
| "split_lines (c # cs) = (if c = CHR 0x0A then [] # split_lines cs else (c # hd (split_lines cs)) # tl (split_lines cs))"

definition file_entry :: "front_end \<Rightarrow> string list \<Rightarrow> string \<Rightarrow> string \<Rightarrow> file_info" where
  "file_entry fe path name source = \<lparr>fi_name = path_display path, fi_path = fe_join fe name, fi_contents = split_lines source\<rparr>"

text \<open>
  Loading one module, with the files seen so far and the warnings.  \<open>Panic\<close>: the path is empty.
\<close>

type_synonym 'a loader = "(compile_error, (u64 \<rightharpoonup> file_info) \<times> compile_error list, 'a) comp"

definition load_module :: "front_end \<Rightarrow> bool \<Rightarrow> string list \<Rightarrow> mini_module loader" where
  "load_module fe builtins path s =
     (case module_file path of
        None \<Rightarrow> Panic
      | Some name \<Rightarrow>
          (case fe_read fe name of
             Inl e \<Rightarrow> Fail e s
           | Inr source \<Rightarrow>
               let file_id = fe_hash fe path;
                   (result, ws) = fe_parse fe source file_id path;
                   s' = ((fst s)(file_id \<mapsto> file_entry fe path name source), snd s @ ws)
               in (case result of
                     Inl e \<Rightarrow> Fail e s'
                   | Inr parsed \<Rightarrow> Done (module_from parsed path builtins name) s')))"

text \<open>
  The loop over the paths to visit, from the end of the list.  The result is \<open>None\<close> when the loop does not end.  The second table of the
  source, of the imports of the modules, is read off the modules.
\<close>

partial_function (option) program_tree_loop ::
    "front_end \<Rightarrow> bool \<Rightarrow> string list list \<Rightarrow> string list set \<Rightarrow> (string list \<times> mini_module) list
     \<Rightarrow> (u64 \<rightharpoonup> file_info) \<times> compile_error list
     \<Rightarrow> (compile_error, (u64 \<rightharpoonup> file_info) \<times> compile_error list, (string list \<times> mini_module) list) outcome option" where
  "program_tree_loop fe builtins paths seen programs s =
     (case rev paths of
        [] \<Rightarrow> Some (Done programs s)
      | path # rest \<Rightarrow>
          if path \<in> seen then program_tree_loop fe builtins (rev rest) seen programs s
          else case load_module fe builtins path s of
                 Panic \<Rightarrow> Some Panic
               | Fail e s' \<Rightarrow> Some (Fail e s')
               | Done m s' \<Rightarrow>
                   program_tree_loop fe builtins (rev rest @ map import_path (mod_imports m)) (insert path seen) (AList.update path m programs) s')"

declare program_tree_loop.simps [code]

definition main_path :: "string option \<Rightarrow> string \<Rightarrow> string list" where
  "main_path library main = (case library of Some lib \<Rightarrow> [lib, main] | None \<Rightarrow> [main])"

definition create_program_tree ::
    "front_end \<Rightarrow> string option \<Rightarrow> string \<Rightarrow> bool \<Rightarrow> (u64 \<rightharpoonup> file_info) \<times> compile_error list
     \<Rightarrow> (compile_error, (u64 \<rightharpoonup> file_info) \<times> compile_error list, (string list \<times> mini_module) list) outcome option" where
  "create_program_tree fe library main builtins = program_tree_loop fe builtins [main_path library main] {} []"

subsection \<open>Imports\<close>

definition import_text :: "import_decl \<Rightarrow> string" where
  "import_text imp = quoted ((case import_path imp of [] \<Rightarrow> [] | p # _ \<Rightarrow> p) @ ''::'' @ import_name imp)"

definition opt_list :: "'a option \<Rightarrow> 'a list" where
  "opt_list o1 = (case o1 of Some x \<Rightarrow> [x] | None \<Rightarrow> [])"

definition internal_error :: "string \<Rightarrow> import_decl \<Rightarrow> 'a driver" where
  "internal_error what imp =
     fail_c (compile_error_new ''Compile error: Internal error'' (''Can not find '' @ what @ '' file for import '' @ import_text imp)
       (opt_list (import_location imp)))"

text \<open>What a module offers under a name.  The name is entered into the table of the module.\<close>

definition lookup_import :: "import_decl \<Rightarrow> mini_module \<Rightarrow> mini_module \<times> tipe option \<times> tipe option" where
  "lookup_import imp m =
     (case string_table_get (mod_string_table m) (import_name imp) of
        (index, st) \<Rightarrow> (m\<lparr>mod_string_table := st\<rparr>, map_of (mod_named_types m) index, mod_func_table m index))"

text \<open>Entering an import into the module that declares it; types come first.\<close>

definition enter_import :: "import_decl \<Rightarrow> tipe option \<Rightarrow> tipe option \<Rightarrow> mini_module \<Rightarrow> mini_module driver" where
  "enter_import imp named_type imp_func m =
     (case string_table_get (mod_string_table m) (import_name imp) of
        (index, st) \<Rightarrow>
          let m1 = m\<lparr>mod_string_table := st\<rparr>
          in case (named_type, imp_func) of
               (Some t, _) \<Rightarrow> return_c (m1\<lparr>mod_named_types := btree_insert index t (mod_named_types m1)\<rparr>)
             | (None, Some t) \<Rightarrow>
                 bind_c (unwrap_c (imported_func_new (length (mod_imported_funcs m1)) index st)) (\<lambda>f.
                   return_c (m1\<lparr>mod_func_table := (mod_func_table m1)(index \<mapsto> t), mod_imported_funcs := mod_imported_funcs m1 @ [f]\<rparr>))
             | (None, None) \<Rightarrow>
                 then_c (add_warnings [compile_error_new_warning ''Compile warning''
                     (''import '' @ import_text imp @ '' does not correspond to a type or function'') (opt_list (import_location imp))])
                 (return_c m1))"

definition resolve_import :: "string list \<Rightarrow> import_decl \<Rightarrow> (string list \<times> mini_module) list \<Rightarrow> (string list \<times> mini_module) list driver" where
  "resolve_import name imp programs =
     (case map_of programs (import_path imp) of
        None \<Rightarrow> internal_error ''target'' imp
      | Some target \<Rightarrow>
          (case lookup_import imp target of
             (target', named_type, imp_func) \<Rightarrow>
               let programs1 = AList.update (import_path imp) target' programs
               in (case map_of programs1 name of
                     None \<Rightarrow> internal_error ''originating'' imp
                   | Some origin \<Rightarrow>
                       bind_c (enter_import imp named_type imp_func origin) (\<lambda>origin'. return_c (AList.update name origin' programs1)))))"

fun fold_driver :: "('a \<Rightarrow> 'b \<Rightarrow> 'b driver) \<Rightarrow> 'a list \<Rightarrow> 'b \<Rightarrow> 'b driver" where
  "fold_driver f [] b = return_c b"
| "fold_driver f (x # xs) b = bind_c (f x b) (\<lambda>b'. fold_driver f xs b')"

text \<open>All imports of all modules; the table of imports is the one from before.\<close>

definition resolve_all_imports :: "(string list \<times> mini_module) list \<Rightarrow> (string list \<times> mini_module) list driver" where
  "resolve_all_imports programs =
     fold_driver (\<lambda>(name, imps). fold_driver (resolve_import name) imps) (map (\<lambda>(p, m). (p, mod_imports m)) programs) programs"

text \<open>The table of all named types; \<open>None\<close>: a type without a name.\<close>

definition create_type_tree :: "(string list \<times> mini_module) list \<Rightarrow> type_tree option" where
  "create_type_tree programs =
     map_option (\<lambda>entries. map_of (rev (concat entries)))
       (collect_opt (\<lambda>(path, m). collect_opt (\<lambda>(i, t). map_option (\<lambda>n. ((path, i), (t, n))) (string_table_name_from_id (mod_string_table m) i))
            (mod_named_types m)) programs)"

subsection \<open>Type checking\<close>

definition purity_warnings :: "string_table \<Rightarrow> string \<Rightarrow> (string_id \<times> tc_func) list \<Rightarrow> compile_error list option" where
  "purity_warnings st warn_color checked =
     map_option concat (collect_opt (\<lambda>(i, f).
       case func_is_pure f of
         None \<Rightarrow> None
       | Some detected \<Rightarrow>
           let declared = pure (func_properties f)
           in if detected = declared then Some []
              else map_option (\<lambda>n. [compile_error_new_warning ''Compile warning''
                     (''func '' @ in_color warn_color n @ '' '' @
                      (if declared then ''is impure but not marked impure'' else ''is declared impure but does not contain impure code''))
                     (loc_list (func_debug_info f))])
                   (string_table_name_from_id st i)) checked)"

text \<open>One module; \<open>None\<close> is a panic.\<close>

definition typecheck_module :: "tc_env \<Rightarrow> string \<Rightarrow> mini_module \<Rightarrow> (compile_error + tc_module \<times> compile_error list) option" where
  "typecheck_module env warn_color m =
     (case typecheck_top_level_decls env (mod_funcs m) (map_of (mod_named_types m)) (mod_global_vars m) (mod_imports m)
             (mod_string_table m) (mod_func_table m) [] of
        Panic \<Rightarrow> None
      | Fail e _ \<Rightarrow> Some (Inl e)
      | Done (exported, gvs, checked) _ \<Rightarrow>
          map_option (\<lambda>ws. Inr
              (\<lparr>tm_checked_funcs = checked, tm_string_table = mod_string_table m, tm_imported_funcs = mod_imported_funcs m,
                tm_exported_funcs = exported, tm_named_types = mod_named_types m, tm_constants = mod_constants m, tm_global_vars = gvs,
                tm_imports = mod_imports m, tm_path = mod_path m, tm_name = mod_name m\<rparr>, ws))
            (purity_warnings (mod_string_table m) warn_color checked))"

text \<open>All modules.  The source checks them in parallel and reports one of the errors.\<close>

definition typecheck_programs :: "tc_env \<Rightarrow> string \<Rightarrow> mini_module list \<Rightarrow> tc_module list driver" where
  "typecheck_programs env warn_color modules =
     bind_c (unwrap_c (collect_opt (typecheck_module env warn_color) modules)) (\<lambda>results.
       case collect_res id results of
         Inl e \<Rightarrow> fail_c e
       | Inr ms \<Rightarrow> then_c (add_warnings (concat (map snd ms))) (return_c (map fst ms)))"

definition check_global_constants :: "string list \<Rightarrow> string \<Rightarrow> tc_module list \<Rightarrow> unit driver" where
  "check_global_constants global_constants warn_color modules =
     add_warnings (map (\<lambda>c. compile_error_new_warning ''Compile warning'' (''global constant '' @ in_color warn_color c @ '' is never used'') [])
       (filter (\<lambda>c. \<not> unused_allowed c) (filter (\<lambda>c. \<forall>m \<in> set modules. c \<notin> set (tm_constants m)) global_constants)))"

subsection \<open>Flow analysis\<close>

text \<open>The imports by the ids of their names, without those of the core library; a name that is imported twice is reported.\<close>

fun collect_imports ::
    "string_table \<Rightarrow> string \<Rightarrow> import_decl list \<Rightarrow> (string_id \<times> import_decl) list \<Rightarrow> ((string_id \<times> import_decl) list \<times> compile_error list) option" where
  "collect_imports st warn_color [] m = Some (m, [])"
| "collect_imports st warn_color (imp # imps) m =
     (case string_table_get_if_exists st (import_name imp) of
        None \<Rightarrow> None
      | Some i \<Rightarrow>
          let ws = (case map_of m i of
                Some prior \<Rightarrow> [flow_warning (''use statement '' @ in_color warn_color (import_name imp) @ '' is a duplicate'')
                    (opt_list (import_location prior) @ opt_list (import_location imp))]
              | None \<Rightarrow> [])
          in (case import_path imp of
                [] \<Rightarrow> None
              | p # _ \<Rightarrow>
                  map_option (\<lambda>(m', ws'). (m', ws @ ws'))
                    (collect_imports st warn_color imps (if p \<noteq> ''core'' then btree_insert i imp m else m))))"

fun flowcheck_funcs ::
    "string_table \<Rightarrow> string \<Rightarrow> tc_func list \<Rightarrow> (string_id \<times> import_decl) list \<Rightarrow> ((string_id \<times> import_decl) list \<times> compile_error list) option" where
  "flowcheck_funcs st warn_color [] imps = Some (imps, [])"
| "flowcheck_funcs st warn_color (f # fs) imps =
     (case func_flowcheck f imps st warn_color of
        None \<Rightarrow> None
      | Some (imps', ws) \<Rightarrow> map_option (\<lambda>(imps'', ws'). (imps'', ws @ ws')) (flowcheck_funcs st warn_color fs imps'))"

text \<open>Two or more warnings are sorted by the line of their last location, which panics for a warning without locations.\<close>

definition sort_warnings :: "compile_error list \<Rightarrow> compile_error list option" where
  "sort_warnings ws =
     (if 2 \<le> length ws \<and> (\<exists>w \<in> set ws. locations w = []) then None
      else Some (sort_key (\<lambda>w. line (last (locations w))) ws))"

definition module_flowcheck :: "string \<Rightarrow> tc_module \<Rightarrow> compile_error list option" where
  "module_flowcheck warn_color m =
     (case collect_imports (tm_string_table m) warn_color (tm_imports m) [] of
        None \<Rightarrow> None
      | Some (imps, ws1) \<Rightarrow>
          let imps1 = remove_ids (concat (map (\<lambda>g. find_nominals (gv_tipe g)) (tm_global_vars m))
                        @ concat (map (\<lambda>(_, t). find_nominals t) (tm_named_types m))) imps
          in (case flowcheck_funcs (tm_string_table m) warn_color (map snd (tm_checked_funcs m)) imps1 of
                None \<Rightarrow> None
              | Some (imps2, ws2) \<Rightarrow>
                  sort_warnings (ws1 @ ws2 @ map (\<lambda>(_, imp).
                    flow_warning (''use statement '' @ in_color warn_color (import_name imp) @ '' is unnecessary'')
                      (opt_list (import_location imp))) imps2)))"

subsection \<open>The call graph\<close>

type_synonym calls = "(string_id \<times> import_decl option) list"
type_synonym callgraph = "(string_id \<times> calls \<times> location) list"

definition library_path :: "string list \<Rightarrow> bool option" where
  "library_path path = (case path of [] \<Rightarrow> None | p # _ \<Rightarrow> Some (p = ''core'' \<or> p = ''std''))"

definition import_ids :: "import_decl list \<Rightarrow> string_id \<rightharpoonup> import_decl" where
  "import_ids imps = map_of (rev (concat (map (\<lambda>imp. case import_id imp of Some i \<Rightarrow> [(i, imp)] | None \<Rightarrow> []) imps)))"

text \<open>A function that is used: one of the module, or an import; imports from the libraries are left out.\<close>

definition call_of :: "import_decl list \<Rightarrow> string_id \<Rightarrow> calls option" where
  "call_of imps i =
     (case import_ids imps i of
        None \<Rightarrow> Some [(i, None)]
      | Some imp \<Rightarrow> map_option (\<lambda>lib. if lib then [] else [(i, Some imp)]) (library_path (import_path imp)))"

fun callgraph_funcs :: "import_decl list \<Rightarrow> tc_func list \<Rightarrow> callgraph \<Rightarrow> callgraph option" where
  "callgraph_funcs imps [] g = Some g"
| "callgraph_funcs imps (f # fs) g =
     (case (collect_opt (call_of imps) (determine_funcs_used (func_child_nodes f)), location (func_debug_info f)) of
        (Some calls, Some loc) \<Rightarrow> callgraph_funcs imps fs (btree_insert (func_name f) (concat calls, loc) g)
      | _ \<Rightarrow> None)"

definition build_callgraph :: "tc_module \<Rightarrow> callgraph option" where
  "build_callgraph m = callgraph_funcs (tm_imports m) (map snd (tm_checked_funcs m)) []"

text \<open>The module and function that a call leads to.\<close>

definition call_target :: "(string list \<times> tc_module) list \<Rightarrow> string_id \<times> import_decl option \<Rightarrow> tc_module \<Rightarrow> (string_id \<times> tc_module) option" where
  "call_target modules call m =
     (case snd call of
        None \<Rightarrow> Some (fst call, m)
      | Some imp \<Rightarrow>
          (case map_of modules (import_path imp) of
             None \<Rightarrow> None
           | Some other \<Rightarrow> map_option (\<lambda>f. (f, other)) (string_table_get_if_exists (tm_string_table other) (import_name imp))))"

definition funcs_left :: "(string list \<times> callgraph) list \<Rightarrow> nat" where
  "funcs_left g = sum_list (map (length \<circ> snd) g)"

text \<open>Every function that is visited leaves the graph, so the walk ends.\<close>

lemma delete_shorter:
  assumes "map_of cg f = Some d"
  shows "length (AList.delete f cg) < length cg"
proof -
  from assms have "(f, d) \<in> set cg"
    by (rule map_of_SomeD)
  then show ?thesis
    by (auto simp: AList.delete_eq intro!: length_filter_less)
qed

lemma funcs_left_update_less:
  "map_of g p = Some cg \<Longrightarrow> length cg' < length cg \<Longrightarrow> funcs_left (AList.update p cg' g) < funcs_left g"
  by (induction g) (auto simp: funcs_left_def)

function callgraph_descend :: "(string list \<times> tc_module) list \<Rightarrow> string_id \<Rightarrow> tc_module \<Rightarrow> (string list \<times> callgraph) list
    \<Rightarrow> (string list \<times> callgraph) list option"
  and descend_calls :: "(string list \<times> tc_module) list \<Rightarrow> calls \<Rightarrow> tc_module \<Rightarrow> (string list \<times> callgraph) list
    \<Rightarrow> (string list \<times> callgraph) list option" where
  "callgraph_descend modules func m g =
     (case library_path (tm_path m) of
        None \<Rightarrow> None
      | Some True \<Rightarrow> Some g
      | Some False \<Rightarrow>
          (case map_of g (tm_path m) of
             None \<Rightarrow> None
           | Some cg \<Rightarrow>
               (case map_of cg func of
                  None \<Rightarrow> Some g
                | Some (calls, _) \<Rightarrow> descend_calls modules calls m (AList.update (tm_path m) (AList.delete func cg) g))))"
| "descend_calls modules [] m g = Some g"
| "descend_calls modules (call # calls) m g =
     (case call_target modules call m of
        None \<Rightarrow> None
      | Some (f, other) \<Rightarrow>
          (case callgraph_descend modules f other g of
             None \<Rightarrow> None
           | Some g' \<Rightarrow> descend_calls modules calls m g'))"
  by pat_completeness auto


termination
proof -
  have descend_funcs_left:
    "callgraph_descend_descend_calls_dom (Inl (modules, func, m, g)) \<Longrightarrow> callgraph_descend modules func m g = Some g' \<Longrightarrow> funcs_left g' \<le> funcs_left g"
    "callgraph_descend_descend_calls_dom (Inr (modules, calls, m, g)) \<Longrightarrow> descend_calls modules calls m g = Some g' \<Longrightarrow> funcs_left g' \<le> funcs_left g"
    for modules func calls m g g'
  proof (induction modules func m g and modules calls m g arbitrary: g' and g' rule: callgraph_descend_descend_calls.pinduct)
    case (1 modules func m g)
    consider (same) "g' = g"
      | (call) cg calls loc where "library_path (tm_path m) = Some False" "map_of g (tm_path m) = Some cg" "map_of cg func = Some (calls, loc)"
          "descend_calls modules calls m (AList.update (tm_path m) (AList.delete func cg) g) = Some g'"
      using 1(1,3) by (auto simp: callgraph_descend.psimps split: option.splits bool.splits)
    then show ?case
    proof cases
      case call
      then have "funcs_left g' \<le> funcs_left (AList.update (tm_path m) (AList.delete func cg) g)"
        by (intro 1(2)[OF call(1) _ call(2) call(3)]) auto
      also have "\<dots> < funcs_left g"
        by (rule funcs_left_update_less[OF call(2) delete_shorter[OF call(3)]])
      finally show ?thesis
        by simp
    qed simp
  next
    case (2 modules m g)
    then show ?case
      by (simp add: descend_calls.psimps)
  next
    case (3 modules call calls m g)
    from 3 show ?case
      by (auto simp: descend_calls.psimps split: option.splits prod.splits) (meson order_trans)
  qed
  show ?thesis
  proof (relation "measures [\<lambda>x. case x of Inl (_, _, _, g) \<Rightarrow> funcs_left g | Inr (_, _, _, g) \<Rightarrow> funcs_left g,
    \<lambda>x. case x of Inl _ \<Rightarrow> 0 | Inr (_, calls, _, _) \<Rightarrow> Suc (length calls)]", goal_cases)
    case 1
    then show ?case
      by simp
  next
    case (2 modules func m g cg d calls loc)
    then show ?case
      by (auto intro: funcs_left_update_less[OF _ delete_shorter])
  next
    case (3 modules call calls m g x f other)
    then show ?case
      by simp
  next
    case (4 modules call calls m g x f other g')
    from 4 descend_funcs_left(1) have "funcs_left g' \<le> funcs_left g"
      by blast
    then show ?case
      by auto
  qed
qed

text \<open>
  The functions that the walk has not removed are unused: a warning for each whose name has no underscore in front, and the function is
  removed from its module.
\<close>

definition prune_module :: "string \<Rightarrow> callgraph \<Rightarrow> tc_module \<Rightarrow> (tc_module \<times> compile_error list) option" where
  "prune_module warn_color cg m =
     map_option (\<lambda>ws. (m\<lparr>tm_checked_funcs := filter (\<lambda>(i, _). i \<notin> fst ` set cg) (tm_checked_funcs m)\<rparr>, concat ws))
       (collect_opt (\<lambda>(func, _, loc).
          map_option (\<lambda>n. if unused_allowed n then []
              else [compile_error_new_warning ''Compile warning'' (''func '' @ in_color warn_color n @ '' is unreachable'') [loc]])
            (string_table_name_from_id (tm_string_table m) func)) cg)"

text \<open>A table of modules by their paths holds the last one of a path; \<open>None\<close>: there is none.\<close>

fun with_module :: "string list \<Rightarrow> (tc_module \<Rightarrow> (tc_module \<times> 'w) option) \<Rightarrow> tc_module list \<Rightarrow> (tc_module list \<times> 'w) option" where
  "with_module path f [] = None"
| "with_module path f (m # ms) =
     (if tm_path m = path \<and> path \<notin> tm_path ` set ms then map_option (\<lambda>(m', w). (m' # ms, w)) (f m)
      else map_option (\<lambda>(ms', w). (m # ms', w)) (with_module path f ms))"

fun prune_modules :: "string \<Rightarrow> (string list \<times> callgraph) list \<Rightarrow> tc_module list \<Rightarrow> (tc_module list \<times> compile_error list) option" where
  "prune_modules warn_color [] ms = Some (ms, [])"
| "prune_modules warn_color ((path, cg) # g) ms =
     (case library_path path of
        None \<Rightarrow> None
      | Some lib \<Rightarrow>
          if lib \<or> cg = [] then prune_modules warn_color g ms
          else (case with_module path (prune_module warn_color cg) ms of
                  None \<Rightarrow> None
                | Some (ms', ws) \<Rightarrow> map_option (\<lambda>(ms'', ws'). (ms'', ws @ ws')) (prune_modules warn_color g ms')))"

definition paths_to_modules :: "tc_module list \<Rightarrow> (string list \<times> tc_module) list" where
  "paths_to_modules ms = rev (map (\<lambda>m. (tm_path m, m)) ms)"

text \<open>The walk starts from the function of the first module whose name has the smallest id.\<close>

definition consume_program_callgraph :: "string \<Rightarrow> (string list \<times> callgraph) list \<Rightarrow> tc_module list \<Rightarrow> tc_module list driver" where
  "consume_program_callgraph warn_color g modules =
     (case modules of
        [] \<Rightarrow> unwrap_c None
      | main_module # _ \<Rightarrow>
          (case tm_checked_funcs main_module of
             [] \<Rightarrow> unwrap_c None
           | (main_func, _) # _ \<Rightarrow>
               bind_c (unwrap_c (library_path (tm_path main_module))) (\<lambda>lib.
                 if lib then return_c modules
                 else bind_c (unwrap_c (callgraph_descend (paths_to_modules modules) main_func main_module g)) (\<lambda>unused.
                   bind_c (unwrap_c (prune_modules warn_color unused modules)) (\<lambda>(ms, ws).
                     then_c (add_warnings ws) (return_c ms))))))"

subsection \<open>Code generation\<close>

definition codegen_program :: "hash_fn \<Rightarrow> bool \<Rightarrow> type_tree \<Rightarrow> (string \<Rightarrow> string) \<Rightarrow> tc_module \<Rightarrow> compiled_program driver" where
  "codegen_program kec release tree join m s =
     (case mavm_codegen kec (map snd (tm_checked_funcs m)) (tm_string_table m) (tm_imported_funcs m) (map gv_name_id (tm_global_vars m)) release of
        Panic \<Rightarrow> Panic
      | Fail e ws \<Rightarrow> Fail (compile_error_new ''Codegen error'' (cg_reason e) (opt_list (cg_location e))) (s @ ws)
      | Done code_out ws \<Rightarrow>
          Done \<lparr>prog_code = code_out, prog_exported_funcs = tm_exported_funcs m, prog_imported_funcs = tm_imported_funcs m,
              prog_globals = tm_global_vars m, prog_source_file_map = Some (source_file_map_new (length code_out) (join (tm_name m))),
              prog_file_info_chart = Map.empty, prog_type_tree = tree\<rparr> (s @ ws))"

definition codegen_programs :: "hash_fn \<Rightarrow> bool \<Rightarrow> type_tree \<Rightarrow> (string \<Rightarrow> string) \<Rightarrow> tc_module list \<Rightarrow> compiled_program list driver" where
  "codegen_programs kec release tree join ms =
     fold_driver (\<lambda>m progs. bind_c (codegen_program kec release tree join m) (\<lambda>prog. return_c (progs @ [prog]))) ms []"

subsection \<open>A folder\<close>

record compile_options =
  co_inline :: "inlining_heuristic option"
  co_constants :: "string list"
  co_must_use_constants :: bool
  co_warn_color :: string
  co_release :: bool
  co_builtins :: bool

text \<open>The main module first, the others by their names in descending order.\<close>

definition order_modules :: "string list \<Rightarrow> (string list \<times> mini_module) list \<Rightarrow> mini_module list option" where
  "order_modules path programs =
     map_option (\<lambda>main. main # rev (sort_key mod_name (rev (map snd (AList.delete path programs))))) (map_of programs path)"

definition analyse_module :: "string \<Rightarrow> tc_module \<Rightarrow> (string list \<times> callgraph) list \<Rightarrow> (string list \<times> callgraph) list driver" where
  "analyse_module warn_color m g =
     bind_c (unwrap_c (module_flowcheck warn_color m)) (\<lambda>ws.
       then_c (add_warnings ws) (bind_c (unwrap_c (build_callgraph m)) (\<lambda>cg. return_c (AList.update (tm_path m) cg g))))"

definition flowcheck_modules :: "string \<Rightarrow> tc_module list \<Rightarrow> (string list \<times> callgraph) list driver" where
  "flowcheck_modules warn_color ms = fold_driver (analyse_module warn_color) ms []"

definition finish_module :: "inlining_heuristic option \<Rightarrow> tc_module \<Rightarrow> tc_module" where
  "finish_module inline m =
     m\<lparr>tm_checked_funcs := map (\<lambda>(i, f). (i, propagate_attributes f))
         (case inline of Some h \<Rightarrow> module_inline h (tm_checked_funcs m) | None \<Rightarrow> tm_checked_funcs m)\<rparr>"

text \<open>Everything after the modules are read.\<close>

definition compile_modules :: "compile_options \<Rightarrow> tc_env \<Rightarrow> (string \<Rightarrow> string) \<Rightarrow> string list \<Rightarrow> (string list \<times> mini_module) list
    \<Rightarrow> compiled_program list driver" where
  "compile_modules opts env join path programs0 =
     bind_c (resolve_all_imports programs0) (\<lambda>programs.
     bind_c (unwrap_c (create_type_tree programs)) (\<lambda>tree.
     bind_c (unwrap_c (order_modules path programs)) (\<lambda>modules.
     bind_c (typecheck_programs (env\<lparr>te_tree := tree\<rparr>) (co_warn_color opts) modules) (\<lambda>checked.
     then_c (if co_must_use_constants opts then check_global_constants (co_constants opts) (co_warn_color opts) checked else return_c ())
       (bind_c (flowcheck_modules (co_warn_color opts) checked) (\<lambda>g.
        bind_c (consume_program_callgraph (co_warn_color opts) g checked) (\<lambda>pruned.
          codegen_programs (te_hash env) (co_release opts) tree join (map (finish_module (co_inline opts)) pruned))))))))"

text \<open>The result is \<open>None\<close> when the modules cannot be collected.\<close>

definition compile_from_folder ::
    "front_end \<Rightarrow> string option \<Rightarrow> string \<Rightarrow> compile_options \<Rightarrow> tc_env \<Rightarrow> (u64 \<rightharpoonup> file_info) \<times> compile_error list
     \<Rightarrow> (compile_error, (u64 \<rightharpoonup> file_info) \<times> compile_error list, compiled_program list) outcome option" where
  "compile_from_folder fe library main opts env s =
     map_option (\<lambda>r. case r of
         Panic \<Rightarrow> Panic
       | Fail e s' \<Rightarrow> Fail e s'
       | Done programs (chart, ws) \<Rightarrow>
           (case compile_modules opts env (fe_join fe) (main_path library main) programs ws of
              Panic \<Rightarrow> Panic
            | Fail e ws' \<Rightarrow> Fail e (chart, ws')
            | Done progs ws' \<Rightarrow> Done progs (chart, ws')))
       (create_program_tree fe library main (co_builtins opts) s)"


subsection \<open>The compiler\<close>

text \<open>
  A path of the command line: whether it is a directory, the name of the directory it is in, its stem as a string (\<open>Some None\<close>: not
  UTF-8; \<open>None\<close>: there is none), how it and its stem are displayed, and the front end of the folder to compile.
\<close>

record source_path =
  sp_is_dir :: bool
  sp_parent_name :: "string option"
  sp_stem :: "string option option"
  sp_display :: string
  sp_stem_debug :: string
  sp_front_end :: front_end

definition library_of :: "source_path \<Rightarrow> string option" where
  "library_of path =
     (if sp_parent_name path = Some ''builtin'' then Some ''core''
      else if sp_parent_name path = Some ''stdlib'' then Some ''std'' else None)"

definition compile_from_file ::
    "compile_options \<Rightarrow> tc_env \<Rightarrow> source_path \<Rightarrow> (u64 \<rightharpoonup> file_info) \<times> compile_error list
     \<Rightarrow> (compile_error, (u64 \<rightharpoonup> file_info) \<times> compile_error list, compiled_program list) outcome option" where
  "compile_from_file opts env path s =
     (if sp_is_dir path then compile_from_folder (sp_front_end path) (library_of path) ''main'' opts env s
      else case sp_stem path of
             Some (Some file_name) \<Rightarrow> compile_from_folder (sp_front_end path) (library_of path) file_name opts env s
           | Some None \<Rightarrow> Some (Fail (compile_error_new ''Compile error'' (''File name '' @ sp_stem_debug path @ '' must be UTF-8'') []) s)
           | None \<Rightarrow> Some (Fail (compile_error_new ''Compile error''
               (''Could not parse '' @ highlighted (sp_display path) @ '' as valid path'') []) s))"

fun compile_inputs ::
    "compile_options \<Rightarrow> tc_env \<Rightarrow> source_path list \<Rightarrow> compiled_program list \<Rightarrow> (u64 \<rightharpoonup> file_info) \<times> compile_error list
     \<Rightarrow> (compile_error, (u64 \<rightharpoonup> file_info) \<times> compile_error list, compiled_program list) outcome option" where
  "compile_inputs opts env [] progs s = Some (Done progs s)"
| "compile_inputs opts env (path # paths) progs s =
     (case compile_from_file opts env path s of
        Some (Done new (chart, ws)) \<Rightarrow>
          compile_inputs opts env paths (progs @ new) (foldl (\<lambda>c p. c ++ prog_file_info_chart p) chart new, ws)
      | r \<Rightarrow> r)"

text \<open>The errors of the linker keep their own type.  Without a success the result is the errors, the warnings and the files.\<close>

datatype invoke_error = CompileFailed compile_error | LinkFailed link_error

type_synonym invoke_result =
  "invoke_error list \<times> compile_error list \<times> (u64 \<rightharpoonup> file_info) + linked_program \<times> compile_error list \<times> (u64 \<rightharpoonup> file_info)"

text \<open>
  What comes after the inputs are compiled; \<open>None\<close> is a panic.  The arguments before the programs are the hash of file names, the version of
  the virtual machine and the order in which the table of types is iterated.
\<close>

definition link_and_finish ::
    "(string \<Rightarrow> u64) \<Rightarrow> u64 option \<Rightarrow> (type_tree \<Rightarrow> ((string list \<times> usize) \<times> (tipe \<times> string)) list) \<Rightarrow> bool \<Rightarrow> bool
     \<Rightarrow> compiled_program list \<Rightarrow> (u64 \<rightharpoonup> file_info) \<times> compile_error list \<Rightarrow> invoke_result option" where
  "link_and_finish file_hash version entries test_mode warnings_are_errors progs s =
     (case link file_hash progs test_mode of
        None \<Rightarrow> None
      | Some (linked, ws1) \<Rightarrow>
          let ws = snd s @ ws1
          in if 58 \<le> length (prog_globals linked) then None
             else map_option (\<lambda>r. case r of
                 Inl e \<Rightarrow> Inl ([LinkFailed e], ws, fst s)
               | Inr lp \<Rightarrow>
                   if ws \<noteq> [] \<and> warnings_are_errors
                   then Inl ([CompileFailed (compile_error_new ''Compile Error'' ''Found warning with -w on'' [])], ws, fst s)
                   else Inr (lp, ws, fst s))
               (postlink_compile version (entries (prog_type_tree linked)) linked (fst s) test_mode))"

definition warning_color :: "bool \<Rightarrow> string" where
  "warning_color warnings_are_errors = CHR 0x1B # (if warnings_are_errors then ''[38;5;161;1m'' else ''[33;1m'')"

text \<open>\<open>None\<close>: a panic, or the modules of an input cannot be collected.\<close>

definition invoke ::
    "(string \<Rightarrow> u64) \<Rightarrow> u64 option \<Rightarrow> (type_tree \<Rightarrow> ((string list \<times> usize) \<times> (tipe \<times> string)) list) \<Rightarrow> tc_env \<Rightarrow> compile_options
     \<Rightarrow> bool \<Rightarrow> bool \<Rightarrow> source_path list \<Rightarrow> invoke_result option" where
  "invoke file_hash version entries env opts test_mode warnings_are_errors input =
     (case compile_inputs (opts\<lparr>co_warn_color := warning_color warnings_are_errors\<rparr>) env input [] (Map.empty, []) of
        None \<Rightarrow> None
      | Some Panic \<Rightarrow> None
      | Some (Fail e (chart, ws)) \<Rightarrow> Some (Inl ([CompileFailed e], ws, chart))
      | Some (Done progs s) \<Rightarrow> link_and_finish file_hash version entries test_mode warnings_are_errors progs s)"

end
