(* ===== verification/Program_Graph.thy ===== *)
theory Program_Graph
  imports Driver
begin

text \<open>
  The two graphs that the driver walks.  Collecting the modules of a program follows imports: it ends when finitely many modules can be
  reached, and its result is closed under imports.  Removing unused functions follows calls across modules: the functions that remain are
  exactly those that calls lead to from the main function, and those of the libraries.
\<close>

section \<open>Calls\<close>

definition calls_in :: "(string list \<times> callgraph) list \<Rightarrow> string list \<Rightarrow> string_id \<Rightarrow> (calls \<times> location) option" where
  "calls_in g p f = Option.bind (map_of g p) (\<lambda>cg. map_of cg f)"

text \<open>The functions of the graph outside of the libraries.\<close>

definition nodes :: "(string list \<times> callgraph) list \<Rightarrow> (string list \<times> string_id) set" where
  "nodes g = {(p, f). library_path p = Some False \<and> calls_in g p f \<noteq> None}"

text \<open>A call that a function of the graph contains, and what calls lead to.\<close>

inductive call_edge :: "(string list \<times> tc_module) list \<Rightarrow> (string list \<times> callgraph) list \<Rightarrow> string list \<times> string_id \<Rightarrow> string list \<times> string_id \<Rightarrow> bool"
  for modules g where
  "(p, f) \<in> nodes g \<Longrightarrow> calls_in g p f = Some (calls, loc) \<Longrightarrow> c \<in> set calls \<Longrightarrow> map_of modules p = Some m
    \<Longrightarrow> call_target modules c m = Some (f', other) \<Longrightarrow> call_edge modules g (p, f) (tm_path other, f')"

inductive used :: "(string list \<times> tc_module) list \<Rightarrow> (string list \<times> callgraph) list \<Rightarrow> string list \<times> string_id \<Rightarrow> string list \<times> string_id \<Rightarrow> bool"
  for modules g s where
  start: "used modules g s s"
| call: "used modules g s x \<Longrightarrow> call_edge modules g x y \<Longrightarrow> used modules g s y"

inductive_cases call_edgeE: "call_edge modules g x y"

lemma call_edge_node: "call_edge modules g x y \<Longrightarrow> x \<in> nodes g"
  by (auto elim: call_edgeE)

definition part_of :: "(string list \<times> callgraph) list \<Rightarrow> (string list \<times> callgraph) list \<Rightarrow> bool" where
  "part_of g' g \<longleftrightarrow> (\<forall>p f d. calls_in g' p f = Some d \<longrightarrow> calls_in g p f = Some d) \<and> map fst g' = map fst g"

lemma part_of_refl [simp]: "part_of g g"
  by (simp add: part_of_def)

lemma part_of_trans: "part_of g'' g' \<Longrightarrow> part_of g' g \<Longrightarrow> part_of g'' g"
  by (simp add: part_of_def)

lemma part_of_calls: "part_of g' g \<Longrightarrow> calls_in g' p f = Some d \<Longrightarrow> calls_in g p f = Some d"
  unfolding part_of_def by blast

lemma part_of_nodes: "part_of g' g \<Longrightarrow> nodes g' \<subseteq> nodes g"
  by (auto simp: nodes_def dest: part_of_calls)

lemma call_edge_part:
  assumes "part_of g' g" "x \<in> nodes g'"
  shows "call_edge modules g' x y \<longleftrightarrow> call_edge modules g x y"
proof
  assume "call_edge modules g' x y"
  then show "call_edge modules g x y"
    using part_of_calls [OF assms(1)] part_of_nodes [OF assms(1)] by (auto elim!: call_edgeE intro: call_edge.intros)
next
  assume "call_edge modules g x y"
  then show "call_edge modules g' x y"
  proof cases
    case (1 p f calls loc c m f' other)
    with assms obtain d where d: "calls_in g' p f = Some d"
      by (auto simp: nodes_def)
    with assms(1) 1(4) have "calls_in g' p f = Some (calls, loc)"
      by (auto dest: part_of_calls)
    with 1 assms(2) show ?thesis
      by (auto intro: call_edge.intros)
  qed
qed

lemma used_mono:
  assumes "used modules g' t x" "part_of g' g" "used modules g s t"
  shows "used modules g s x"
  using assms(1)
proof induction
  case (call x y)
  then show ?case
    using call_edge_part [OF assms(2) call_edge_node [OF call(2)]] by (blast intro: used.call)
qed (rule assms(3))

lemma calls_in_remove:
  "map_of g p = Some cg \<Longrightarrow> calls_in (AList.update p (AList.delete f cg) g) = (calls_in g)(p := (calls_in g p)(f := None))"
  by (auto simp: calls_in_def fun_eq_iff AList.update_conv' AList.delete_conv')

lemma keys_update_present: "map_of g p = Some cg \<Longrightarrow> map fst (AList.update p v g) = map fst g"
  by (induction g) auto

lemma remove_part_of: "map_of g p = Some cg \<Longrightarrow> part_of (AList.update p (AList.delete f cg) g) g"
  by (auto simp: part_of_def calls_in_remove keys_update_present split: if_splits)

lemma nodes_remove: "map_of g p = Some cg \<Longrightarrow> nodes (AList.update p (AList.delete f cg) g) = nodes g - {(p, f)}"
  by (auto simp: nodes_def calls_in_remove split: if_splits)

text \<open>A table of modules under their own paths.\<close>

definition by_path :: "(string list \<times> tc_module) list \<Rightarrow> bool" where
  "by_path modules \<longleftrightarrow> (\<forall>(p, m) \<in> set modules. tm_path m = p)"

lemma by_pathD: "by_path modules \<Longrightarrow> map_of modules p = Some m \<Longrightarrow> tm_path m = p"
  by (auto simp: by_path_def dest: map_of_SomeD)

lemma call_target_by_path:
  assumes "call_target modules c m = Some (f, other)" "map_of modules (tm_path m) = Some m" "by_path modules"
  shows "map_of modules (tm_path other) = Some other"
proof (cases "snd c")
  case None
  with assms show ?thesis
    by (simp add: call_target_def)
next
  case (Some imp)
  with assms(1) have "map_of modules (import_path imp) = Some other"
    by (auto simp: call_target_def split: option.splits)
  with by_pathD [OF assms(3) this] show ?thesis
    by simp
qed

text \<open>The walk removes a set of functions: all are used, and what they call is not left either.\<close>

definition removes :: "(string list \<times> tc_module) list \<Rightarrow> (string list \<times> string_id) set \<Rightarrow> (string list \<times> callgraph) list \<Rightarrow> (string list \<times> callgraph) list \<Rightarrow> bool" where
  "removes modules S g g' \<longleftrightarrow> part_of g' g \<and> S \<inter> nodes g' = {}
     \<and> (\<forall>x \<in> nodes g - nodes g'. \<exists>s \<in> S. used modules g s x)
     \<and> (\<forall>x y. x \<notin> nodes g' \<longrightarrow> call_edge modules g x y \<longrightarrow> y \<notin> nodes g')"

lemma removes_nothing: "S \<inter> nodes g = {} \<Longrightarrow> removes modules S g g"
  by (simp add: removes_def) (blast dest: call_edge_node)

lemma removes_seq:
  assumes 1: "removes modules S g g1" and 2: "removes modules T g1 g2"
  shows "removes modules (S \<union> T) g g2"
  unfolding removes_def
proof (intro conjI ballI allI impI)
  from 1 2 have p: "part_of g1 g" "part_of g2 g1"
    by (simp_all add: removes_def)
  then show "part_of g2 g"
    by (blast intro: part_of_trans)
  from p(2) have n: "nodes g2 \<subseteq> nodes g1"
    by (rule part_of_nodes)
  from 1 2 n show "(S \<union> T) \<inter> nodes g2 = {}"
    unfolding removes_def by blast
  show "\<exists>s \<in> S \<union> T. used modules g s x" if "x \<in> nodes g - nodes g2" for x
  proof (cases "x \<in> nodes g1")
    case True
    with that 2 obtain s where "s \<in> T" "used modules g1 s x"
      unfolding removes_def by blast
    with used_mono [OF this(2) p(1) used.start] show ?thesis
      by blast
  next
    case False
    with that 1 show ?thesis
      unfolding removes_def by blast
  qed
  show "y \<notin> nodes g2" if "x \<notin> nodes g2" "call_edge modules g x y" for x y
  proof (cases "x \<in> nodes g1")
    case True
    with that call_edge_part [OF p(1) True] 2 show ?thesis
      unfolding removes_def by blast
  next
    case False
    with that 1 n show ?thesis
      unfolding removes_def by blast
  qed
qed


text \<open>Leaving a function for the functions it calls.\<close>

definition targets :: "(string list \<times> tc_module) list \<Rightarrow> calls \<Rightarrow> tc_module \<Rightarrow> (string list \<times> string_id) set" where
  "targets modules calls m =
     (\<Union>c \<in> set calls. case call_target modules c m of Some (f, other) \<Rightarrow> {(tm_path other, f)} | None \<Rightarrow> {})"

lemma targets_simps [simp]:
  "targets modules [] m = {}"
  "call_target modules c m = Some (f, other) \<Longrightarrow> targets modules (c # calls) m = insert (tm_path other, f) (targets modules calls m)"
  by (simp_all add: targets_def)

lemma call_edge_targets:
  assumes "(p, f) \<in> nodes g" "calls_in g p f = Some (calls, loc)" "map_of modules p = Some m"
  shows "call_edge modules g (p, f) y \<longleftrightarrow> y \<in> targets modules calls m"
proof
  assume "call_edge modules g (p, f) y"
  then show "y \<in> targets modules calls m"
    using assms by cases (force simp: targets_def)
next
  assume "y \<in> targets modules calls m"
  then show "call_edge modules g (p, f) y"
    using assms by (auto simp: targets_def split: option.splits intro: call_edge.intros)
qed

lemma removes_call:
  assumes "library_path (tm_path m) = Some False" "map_of g (tm_path m) = Some cg" "map_of cg func = Some (calls, loc)"
    and m: "map_of modules (tm_path m) = Some m"
    and r: "removes modules (targets modules calls m)
      (AList.update (tm_path m) (AList.delete func cg) g) g'"
  shows "removes modules {(tm_path m, func)} g g'"
proof -
  let ?S = "targets modules calls m"
    and ?g = "AList.update (tm_path m) (AList.delete func cg) g" and ?s = "(tm_path m, func)"
  have s: "?s \<in> nodes g" and c: "calls_in g (tm_path m) func = Some (calls, loc)"
    using assms(1-3) by (simp_all add: nodes_def calls_in_def)
  have p: "part_of ?g g" and n: "nodes ?g = nodes g - {?s}"
    using assms(2) by (simp_all only: remove_part_of nodes_remove)
  have edge: "call_edge modules g ?s y \<longleftrightarrow> y \<in> ?S" for y
    using s c m by (rule call_edge_targets)
  from r have g': "part_of g' ?g" "?S \<inter> nodes g' = {}" "\<forall>x \<in> nodes ?g - nodes g'. \<exists>s \<in> ?S. used modules ?g s x"
    "\<forall>x y. x \<notin> nodes g' \<longrightarrow> call_edge modules ?g x y \<longrightarrow> y \<notin> nodes g'"
    unfolding removes_def by blast+
  show ?thesis
    unfolding removes_def
  proof (intro conjI ballI allI impI)
    show "part_of g' g"
      using g'(1) p by (rule part_of_trans)
    show "{?s} \<inter> nodes g' = {}"
      using part_of_nodes [OF g'(1)] n by blast
    show "\<exists>s \<in> {?s}. used modules g s x" if "x \<in> nodes g - nodes g'" for x
    proof (cases "x = ?s")
      case False
      with that n g'(3) obtain y where y: "y \<in> ?S" "used modules ?g y x"
        by blast
      have "used modules g ?s y"
        using y(1) edge by (blast intro: used.intros)
      with used_mono [OF y(2) p this] show ?thesis
        by blast
    qed (auto intro: used.start)
    show "y \<notin> nodes g'" if "x \<notin> nodes g'" "call_edge modules g x y" for x y
    proof (cases "x = ?s")
      case True
      with that edge g'(2) show ?thesis
        by blast
    next
      case False
      with call_edge_node [OF that(2)] n have "x \<in> nodes ?g"
        by blast
      with that call_edge_part [OF p this] g'(4) show ?thesis
        by blast
    qed
  qed
qed

lemma descend_removes:
  "callgraph_descend modules func m g = Some g' \<Longrightarrow> by_path modules \<Longrightarrow> map_of modules (tm_path m) = Some m
   \<Longrightarrow> removes modules {(tm_path m, func)} g g'"
  "descend_calls modules calls m g = Some g' \<Longrightarrow> by_path modules \<Longrightarrow> map_of modules (tm_path m) = Some m
   \<Longrightarrow> removes modules (targets modules calls m) g g'"
proof (induction modules func m g and modules calls m g arbitrary: g' and g' rule: callgraph_descend_descend_calls.induct)
  case (1 modules func m g)
  consider (skip) "g' = g" "(tm_path m, func) \<notin> nodes g"
    | (call) cg calls loc where "library_path (tm_path m) = Some False" "map_of g (tm_path m) = Some cg" "map_of cg func = Some (calls, loc)"
        "descend_calls modules calls m (AList.update (tm_path m) (AList.delete func cg) g) = Some g'"
    using 1(2) by (auto simp: nodes_def calls_in_def split: option.splits bool.splits)
  then show ?case
  proof cases
    case skip
    then show ?thesis
      by (simp add: removes_nothing)
  next
    case call
    have "removes modules (targets modules calls m)
      (AList.update (tm_path m) (AList.delete func cg) g) g'"
      by (rule 1(1) [OF call(1) _ call(2) call(3) _ call(4) 1(3,4)]) auto
    with call(1-3) 1(4) show ?thesis
      by (rule removes_call)
  qed
next
  case (2 modules m g)
  then show ?case
    by (simp add: removes_nothing)
next
  case (3 modules call calls m g)
  from 3(3) obtain f other g1 where c: "call_target modules call m = Some (f, other)" "callgraph_descend modules f other g = Some g1"
    "descend_calls modules calls m g1 = Some g'"
    by (auto split: option.splits prod.splits)
  have "removes modules {(tm_path other, f)} g g1"
    by (rule 3(1) [OF c(1) _ c(2) 3(4) call_target_by_path [OF c(1) 3(5,4)]]) simp
  moreover have "removes modules (targets modules calls m) g1 g'"
    by (rule 3(2) [OF c(1) _ c(2) c(3) 3(4,5)]) simp
  ultimately show ?case
    using removes_seq c(1) by fastforce
qed

text \<open>The walk leaves exactly the functions that calls do not lead to.\<close>

lemma descend_unused:
  assumes "callgraph_descend modules func m g = Some g'" "by_path modules" "map_of modules (tm_path m) = Some m"
  shows "nodes g' = {x \<in> nodes g. \<not> used modules g (tm_path m, func) x}" and "part_of g' g"
proof -
  note r = descend_removes(1) [OF assms]
  then show "part_of g' g"
    by (simp add: removes_def)
  have "x \<notin> nodes g'" if "used modules g (tm_path m, func) x" for x
    using that r by induction (auto simp: removes_def)
  moreover have "used modules g (tm_path m, func) x" if "x \<in> nodes g - nodes g'" for x
    using that r unfolding removes_def by blast
  ultimately show "nodes g' = {x \<in> nodes g. \<not> used modules g (tm_path m, func) x}"
    using part_of_nodes [OF \<open>part_of g' g\<close>] by blast
qed


section \<open>Removing functions\<close>

definition without :: "(string list \<times> string_id) set \<Rightarrow> tc_module \<Rightarrow> tc_module" where
  "without S m = m\<lparr>tm_checked_funcs := filter (\<lambda>(i, _). (tm_path m, i) \<notin> S) (tm_checked_funcs m)\<rparr>"

lemma without_path [simp]: "tm_path (without S m) = tm_path m"
  by (simp add: without_def)

lemma without_without: "without S (without T m) = without (S \<union> T) m"
  by (simp add: without_def case_prod_unfold conj_commute)

lemma without_none [simp]: "without {} m = m"
  by (simp add: without_def)

lemma without_other [simp]: "tm_path m \<noteq> p \<Longrightarrow> without ({p} \<times> S) m = m"
  by (simp add: without_def)

lemma prune_module_without:
  "prune_module wc cg m = Some (m', ws) \<Longrightarrow> m' = without ({tm_path m} \<times> fst ` set cg) m"
  by (auto simp: prune_module_def without_def)

lemma with_module_update:
  assumes "with_module p (prune_module wc cg) ms = Some (ms', ws)" "distinct (map tm_path ms)"
  shows "ms' = map (without ({p} \<times> fst ` set cg)) ms"
  using assms
proof (induction ms arbitrary: ms' ws)
  case (Cons m ms)
  show ?case
  proof (cases "tm_path m = p")
    case True
    with Cons.prems obtain m' where m': "prune_module wc cg m = Some (m', ws)" "ms' = m' # ms"
      by (auto split: if_splits)
    have "without ({p} \<times> fst ` set cg) x = x" if "x \<in> set ms" for x
      using that True Cons.prems(2) by (intro without_other) (metis distinct.simps(2) image_eqI list.set_map list.simps(9))
    then show ?thesis
      using m' prune_module_without [OF m'(1)] True by (simp add: map_idI)
  next
    case False
    with Cons.prems obtain ms'' where ms'': "with_module p (prune_module wc cg) ms = Some (ms'', ws)" "ms' = m # ms''"
      by auto
    with Cons.IH [OF ms''(1)] Cons.prems(2) False show ?thesis
      by simp
  qed
qed simp

lemma in_nodes_iff: "(p, f) \<in> nodes g \<longleftrightarrow> library_path p = Some False \<and> (\<exists>cg. map_of g p = Some cg \<and> f \<in> fst ` set cg)"
proof -
  have "map_of cg f \<noteq> None \<longleftrightarrow> f \<in> fst ` set cg" for cg :: callgraph
    by (simp add: map_of_eq_None_iff)
  then show ?thesis
    by (cases "map_of g p") (simp_all add: nodes_def calls_in_def del: not_None_eq)
qed

lemma nodes_Cons:
  assumes "p \<notin> fst ` set g"
  shows "nodes ((p, cg) # g) = (if library_path p = Some False then {p} \<times> fst ` set cg else {}) \<union> nodes g"
proof (rule set_eqI)
  fix x
  from assms have "map_of g p = None"
    by (simp add: map_of_eq_None_iff)
  then show "x \<in> nodes ((p, cg) # g) \<longleftrightarrow> x \<in> (if library_path p = Some False then {p} \<times> fst ` set cg else {}) \<union> nodes g"
    by (cases x) (simp add: in_nodes_iff)
qed

lemma prune_modules_without:
  assumes "prune_modules wc g ms = Some (ms', ws)" "distinct (map fst g)" "distinct (map tm_path ms)"
  shows "ms' = map (without (nodes g)) ms"
  using assms
proof (induction wc g ms arbitrary: ms' ws rule: prune_modules.induct)
  case (1 wc ms)
  then show ?case
    by (simp add: nodes_def calls_in_def map_idI)
next
  case (2 wc p cg g ms)
  from 2(3) obtain lib where lib: "library_path p = Some lib"
    by (auto split: option.splits)
  have n: "nodes ((p, cg) # g) = (if lib then {} else {p} \<times> fst ` set cg) \<union> nodes g"
    using nodes_Cons [of p g cg] 2(4) lib by auto
  show ?case
  proof (cases "lib \<or> cg = []")
    case True
    with 2(3) lib have "prune_modules wc g ms = Some (ms', ws)"
      by simp
    with 2(1) [OF lib True] 2(4,5) n True show ?thesis
      by auto
  next
    case False
    with 2(3) lib obtain ms1 ws1 ws2 where a: "with_module p (prune_module wc cg) ms = Some (ms1, ws1)"
      and b: "prune_modules wc g ms1 = Some (ms', ws2)"
      by (auto split: option.splits)
    have ms1: "ms1 = map (without ({p} \<times> fst ` set cg)) ms"
      using with_module_update [OF a 2(5)] .
    then have "distinct (map tm_path ms1)"
      using 2(5) by (simp add: comp_def)
    with 2(2) [OF lib False a _ b] 2(4) have "ms' = map (without (nodes g)) ms1"
      by simp
    with ms1 n False show ?thesis
      by (simp add: without_without Un_commute)
  qed
qed

section \<open>The graph of a program\<close>

lemma callgraph_funcs_keys:
  "callgraph_funcs imps fs g = Some g' \<Longrightarrow> fst ` set g' = fst ` set g \<union> func_name ` set fs"
  by (induction imps fs g rule: callgraph_funcs.induct) (auto simp: fst_btree_insert split: option.splits)

lemma build_callgraph_keys: "build_callgraph m = Some cg \<Longrightarrow> fst ` set cg = func_name ` snd ` set (tm_checked_funcs m)"
  by (simp add: build_callgraph_def callgraph_funcs_keys)

lemma analyse_module_Done:
  "analyse_module wc m g ws = Done g' ws' \<Longrightarrow> \<exists>cg. build_callgraph m = Some cg \<and> g' = AList.update (tm_path m) cg g"
  by (auto simp: analyse_module_def outcome_simps add_warnings_def return_c_def split: outcome.splits option.splits)

lemma analyse_modules:
  assumes "fold_driver (analyse_module wc) ms g0 ws = Done g ws'" "distinct (map fst g0)" "distinct (map tm_path ms)"
  shows "distinct (map fst g) \<and> (\<forall>m \<in> set ms. map_of g (tm_path m) = build_callgraph m \<and> build_callgraph m \<noteq> None)
    \<and> (\<forall>p. p \<notin> tm_path ` set ms \<longrightarrow> map_of g p = map_of g0 p)"
  using assms
proof (induction ms arbitrary: g0 ws)
  case (Cons m ms)
  from Cons.prems(1) obtain g1 ws1 where g1: "analyse_module wc m g0 ws = Done g1 ws1" "fold_driver (analyse_module wc) ms g1 ws1 = Done g ws'"
    by (auto simp: bind_c_Done_iff)
  then obtain cg where cg: "build_callgraph m = Some cg" "g1 = AList.update (tm_path m) cg g0"
    by (blast dest: analyse_module_Done)
  have "distinct (map fst g1)"
    unfolding cg(2) using Cons.prems(2) by (rule distinct_update)
  from Cons.IH [OF g1(2) this] Cons.prems(3) cg show ?case
    by (auto simp: update_conv')
qed (simp add: return_c_def)

text \<open>Whether calls lead to a function from the main function of a program, the first of its first module.\<close>

definition used_in_program :: "tc_module list \<Rightarrow> (string list \<times> callgraph) list \<Rightarrow> tc_module \<Rightarrow> string_id \<Rightarrow> bool" where
  "used_in_program modules g m i =
     used (paths_to_modules modules) g (tm_path (hd modules), fst (hd (tm_checked_funcs (hd modules)))) (tm_path m, i)"

lemma by_path_modules: "by_path (paths_to_modules modules)"
  by (auto simp: by_path_def paths_to_modules_def)

lemma map_of_modules:
  assumes "distinct (map tm_path modules)" "m \<in> set modules"
  shows "map_of (paths_to_modules modules) (tm_path m) = Some m"
proof -
  have "map fst (paths_to_modules modules) = rev (map tm_path modules)"
    by (simp add: paths_to_modules_def rev_map comp_def)
  with assms(1) have "distinct (map fst (paths_to_modules modules))"
    by simp
  with assms(2) show ?thesis
    by (intro map_of_is_SomeI) (auto simp: paths_to_modules_def)
qed


text \<open>
  C12: Take a program outside of the libraries, whose modules have different paths and list their functions under the names of these, and
  its call graph as the driver builds it.  If removing unused functions succeeds then a function of a module outside of the libraries
  remains exactly if calls, within modules or over imports, lead to it from the first function of the first module; the modules of the
  libraries and everything else in the modules stay the same.
\<close>

theorem unused_functions_are_removed:
  assumes "flowcheck_modules wc modules ws = Done g ws1" "consume_program_callgraph wc g modules ws1 = Done pruned ws2"
    "library_path (tm_path (hd modules)) = Some False" "distinct (map tm_path modules)"
    "\<forall>m \<in> set modules. \<forall>(i, f) \<in> set (tm_checked_funcs m). func_name f = i"
  shows "pruned = map (\<lambda>m. if library_path (tm_path m) = Some False
      then m\<lparr>tm_checked_funcs := filter (\<lambda>(i, _). used_in_program modules g m i) (tm_checked_funcs m)\<rparr> else m) modules"
proof -
  obtain main ms main_func f fs where mods: "modules = main # ms" "tm_checked_funcs main = (main_func, f) # fs"
    using assms(2) by (auto simp: consume_program_callgraph_def unwrap_c_def split: list.splits)
  with assms(2,3) obtain g' ws' where d: "callgraph_descend (paths_to_modules modules) main_func main g = Some g'"
    and p: "prune_modules wc g' modules = Some (pruned, ws')"
    by (auto simp: consume_program_callgraph_def bind_c_Done_iff then_c_Done_iff unwrap_c_def return_c_def split: option.splits)
  from assms(1) have g: "distinct (map fst g)" "\<forall>m \<in> set modules. map_of g (tm_path m) = build_callgraph m \<and> build_callgraph m \<noteq> None"
    using analyse_modules [of wc modules "[]" ws g ws1] assms(4) by (auto simp: flowcheck_modules_def)
  have "map_of (paths_to_modules modules) (tm_path main) = Some main"
    using assms(4) by (rule map_of_modules) (simp add: mods)
  note u = descend_unused [OF d by_path_modules this]
  from u(2) g(1) have "distinct (map fst g')"
    by (simp add: part_of_def)
  with p assms(4) have pruned: "pruned = map (without (nodes g')) modules"
    by (intro prune_modules_without)
  have "without (nodes g') m = (if library_path (tm_path m) = Some False
      then m\<lparr>tm_checked_funcs := filter (\<lambda>(i, _). used_in_program modules g m i) (tm_checked_funcs m)\<rparr> else m)" if "m \<in> set modules" for m
  proof (cases "library_path (tm_path m) = Some False")
    case True
    from that g(2) obtain cg where cg: "map_of g (tm_path m) = Some cg" "build_callgraph m = Some cg"
      by fastforce
    have "(tm_path m, i) \<in> nodes g" if "(i, f) \<in> set (tm_checked_funcs m)" for i f
    proof -
      from that assms(5) \<open>m \<in> set modules\<close> have "i = func_name f"
        by blast
      with that have "i \<in> func_name ` snd ` set (tm_checked_funcs m)"
        by (metis imageI snd_conv)
      with True cg(1) build_callgraph_keys [OF cg(2)] show ?thesis
        by (simp add: in_nodes_iff)
    qed
    with True show ?thesis
      by (auto simp: without_def u(1) used_in_program_def mods intro!: arg_cong [of _ _ "\<lambda>fs. m\<lparr>tm_checked_funcs := fs\<rparr>"] filter_cong)
  next
    case False
    then show ?thesis
      by (simp add: without_def in_nodes_iff)
  qed
  with pruned show ?thesis
    by simp
qed

text \<open>
  A main module that calls a function of another one.  A function of the main module that is never called, and the function of the other module
  that only it calls, are removed.
\<close>

definition demo_tc_func :: "string_id \<Rightarrow> string_id list \<Rightarrow> tc_func" where
  "demo_tc_func i calls = \<lparr>func_name = i, func_args = [], func_ret_type = TVoid,
     func_code = map (\<lambda>c. TcStatement (SExpression (TcExpr (EFuncRef c (TFunc False [] TVoid)) debug_info_default)) debug_info_default) calls,
     func_tipe = TFunc False [] TVoid, func_kind = Private,
     func_debug_info = debug_info_default\<lparr>location := Some \<lparr>line = i, column = 0, absolute = 0, file_id = 0\<rparr>\<rparr>, func_properties = \<lparr>pure = True\<rparr>\<rparr>"

definition demo_modules :: "tc_module list" where
  "demo_modules =
     [\<lparr>tm_checked_funcs = [(0, demo_tc_func 0 [2]), (1, demo_tc_func 1 [3])], tm_string_table = snd (string_table_get (snd (string_table_get
          (snd (string_table_get (snd (string_table_get string_table_new ''main'')) ''dead'')) ''f'')) ''g''),
        tm_imported_funcs = [], tm_exported_funcs = [], tm_named_types = [], tm_constants = [], tm_global_vars = [],
        tm_imports = [import_new [''lib''] ''f'' (Some 2) None, import_new [''lib''] ''g'' (Some 3) None], tm_path = [''main''], tm_name = ''main.mini''\<rparr>,
      \<lparr>tm_checked_funcs = [(0, demo_tc_func 0 [1]), (1, demo_tc_func 1 [0]), (2, demo_tc_func 2 [])], tm_string_table = snd (string_table_get
          (snd (string_table_get (snd (string_table_get string_table_new ''f'')) ''helper'')) ''g''),
        tm_imported_funcs = [], tm_exported_funcs = [], tm_named_types = [], tm_constants = [], tm_global_vars = [],
        tm_imports = [], tm_path = [''lib''], tm_name = ''lib.mini''\<rparr>]"

lemma demo_modules_pruned:
  "case flowcheck_modules [] demo_modules [] of
     Done g ws1 \<Rightarrow> (case consume_program_callgraph [] g demo_modules ws1 of
        Done pruned ws2 \<Rightarrow> map (map fst \<circ> tm_checked_funcs) pruned = [[0], [0, 1]] \<and> length ws2 = length ws1 + 2
      | _ \<Rightarrow> False)
   | _ \<Rightarrow> False"
  by code_simp

lemma demo_modules_ok:
  "library_path (tm_path (hd demo_modules)) = Some False" "distinct (map tm_path demo_modules)"
  "\<forall>m \<in> set demo_modules. \<forall>(i, f) \<in> set (tm_checked_funcs m). func_name f = i"
  by (simp_all add: demo_modules_def demo_tc_func_def library_path_def)

theorem unused_functions_are_removed_witness:
  "\<exists>g ws1 pruned ws2. flowcheck_modules [] demo_modules [] = Done g ws1 \<and> consume_program_callgraph [] g demo_modules ws1 = Done pruned ws2
     \<and> map (map fst \<circ> tm_checked_funcs) pruned = [[0], [0, 1]]
     \<and> pruned = map (\<lambda>m. if library_path (tm_path m) = Some False
         then m\<lparr>tm_checked_funcs := filter (\<lambda>(i, _). used_in_program demo_modules g m i) (tm_checked_funcs m)\<rparr> else m) demo_modules"
proof -
  from demo_modules_pruned obtain g ws1 where 1: "flowcheck_modules [] demo_modules [] = Done g ws1"
    by (auto split: outcome.splits)
  with demo_modules_pruned obtain pruned ws2 where 2: "consume_program_callgraph [] g demo_modules ws1 = Done pruned ws2"
    "map (map fst \<circ> tm_checked_funcs) pruned = [[0], [0, 1]]"
    by (auto split: outcome.splits)
  show ?thesis
    by (intro exI conjI, rule 1, rule 2(1), rule 2(2), rule unused_functions_are_removed [OF 1 2(1) demo_modules_ok])
qed


section \<open>Collecting modules\<close>

text \<open>The modules that are loaded lie under their paths, and all paths they import have been seen or are still to be visited.\<close>

definition imports_within :: "(string list \<times> mini_module) list \<Rightarrow> string list set \<Rightarrow> bool" where
  "imports_within programs X \<longleftrightarrow> list_all (\<lambda>(p, m). mod_path m = p \<and> import_path ` set (mod_imports m) \<subseteq> X) programs"

lemma imports_within_mono: "imports_within programs X \<Longrightarrow> X \<subseteq> Y \<Longrightarrow> imports_within programs Y"
  unfolding imports_within_def by (erule list.pred_mono_strong) auto

lemma imports_within_append [simp]:
  "imports_within (programs @ [(p, m)]) X \<longleftrightarrow> imports_within programs X \<and> mod_path m = p \<and> import_path ` set (mod_imports m) \<subseteq> X"
  by (auto simp: imports_within_def)

definition tree_inv :: "string list list \<Rightarrow> string list set \<Rightarrow> (string list \<times> mini_module) list \<Rightarrow> bool" where
  "tree_inv paths seen programs \<longleftrightarrow> distinct (map fst programs) \<and> fst ` set programs = seen
     \<and> imports_within programs (seen \<union> set paths)"

lemma load_module_path: "load_module fe builtins path s = Done m s' \<Longrightarrow> mod_path m = path"
  by (auto simp: load_module_def module_from_def Let_def split: option.splits sum.splits prod.splits)

lemma load_module_no_panic: "path \<noteq> [] \<Longrightarrow> load_module fe builtins path s \<noteq> Panic"
  by (auto simp: load_module_def module_file_def Let_def split: option.splits sum.splits prod.splits list.splits)

lemma tree_inv_skip:
  assumes "tree_inv (paths @ [path]) seen programs" "path \<in> seen"
  shows "tree_inv paths seen programs"
proof -
  have "seen \<union> set (paths @ [path]) = seen \<union> set paths"
    using assms(2) by auto
  with assms(1) show ?thesis
    unfolding tree_inv_def by simp
qed

lemma update_new: "k \<notin> fst ` set kvs \<Longrightarrow> AList.update k v kvs = kvs @ [(k, v)]"
  by (induction kvs) auto

lemma tree_inv_load:
  assumes "tree_inv (paths @ [path]) seen programs" "path \<notin> seen" "mod_path m = path"
  shows "tree_inv (paths @ map import_path (mod_imports m)) (insert path seen) (AList.update path m programs)"
proof -
  let ?X = "insert path seen \<union> set (paths @ map import_path (mod_imports m))"
  have "path \<notin> fst ` set programs"
    using assms by (simp add: tree_inv_def)
  then have u: "AList.update path m programs = programs @ [(path, m)]"
    by (rule update_new)
  have "imports_within programs ?X"
    by (rule imports_within_mono [of _ "seen \<union> set (paths @ [path])"]) (use assms(1) in \<open>auto simp: tree_inv_def\<close>)
  moreover have "distinct (map fst programs)" "fst ` set programs = seen"
    using assms(1) by (simp_all add: tree_inv_def)
  moreover have "import_path ` set (mod_imports m) \<subseteq> ?X"
    by auto
  ultimately show ?thesis
    unfolding tree_inv_def u using assms(2,3) by simp
qed

text \<open>The loop takes the last path.\<close>

lemma program_tree_loop_snoc:
  "program_tree_loop fe builtins [] seen programs s = Some (Done programs s)"
  "program_tree_loop fe builtins (paths @ [path]) seen programs s =
     (if path \<in> seen then program_tree_loop fe builtins paths seen programs s
      else case load_module fe builtins path s of
             Panic \<Rightarrow> Some Panic
           | Fail e s' \<Rightarrow> Some (Fail e s')
           | Done m s' \<Rightarrow> program_tree_loop fe builtins (paths @ map import_path (mod_imports m)) (insert path seen)
               (AList.update path m programs) s')"
  by (subst program_tree_loop.simps, simp split: outcome.split)+

text \<open>Paths that are not empty, and that the modules under them do not lead out of.\<close>

definition closed_paths :: "front_end \<Rightarrow> bool \<Rightarrow> string list set \<Rightarrow> bool" where
  "closed_paths fe builtins U \<longleftrightarrow> finite U \<and> [] \<notin> U
     \<and> (\<forall>path \<in> U. \<forall>s m s'. load_module fe builtins path s = Done m s' \<longrightarrow> import_path ` set (mod_imports m) \<subseteq> U)"

definition program_closed :: "(string list \<times> mini_module) list \<Rightarrow> bool" where
  "program_closed programs \<longleftrightarrow> distinct (map fst programs)
     \<and> imports_within programs (fst ` set programs)"

lemma program_tree_loop_ends:
  assumes "closed_paths fe builtins U" "set paths \<subseteq> U" "tree_inv paths seen programs"
  shows "\<exists>r. program_tree_loop fe builtins paths seen programs s = Some r \<and> r \<noteq> Panic
    \<and> (\<forall>programs' s'. r = Done programs' s' \<longrightarrow> program_closed programs' \<and> seen \<union> set paths \<subseteq> fst ` set programs')"
  using assms(2,3)
proof (induction "card (U - seen)" arbitrary: paths seen programs s rule: less_induct)
  case less
  then show ?case
  proof (induction paths rule: rev_induct)
    case Nil
    then show ?case
      by (simp add: program_tree_loop_snoc(1) tree_inv_def program_closed_def)
  next
    case (snoc path paths)
    show ?case
    proof (cases "path \<in> seen")
      case True
      have "\<exists>r. program_tree_loop fe builtins paths seen programs s = Some r \<and> r \<noteq> Panic
          \<and> (\<forall>programs' s'. r = Done programs' s' \<longrightarrow> program_closed programs' \<and> seen \<union> set paths \<subseteq> fst ` set programs')"
        using snoc.prems tree_inv_skip [OF snoc.prems(3) True] by (intro snoc.IH) auto
      with True show ?thesis
        by (auto simp: program_tree_loop_snoc(2))
    next
      case False
      have path: "path \<in> U" "path \<noteq> []" "finite U"
        using snoc.prems(2) assms(1) by (auto simp: closed_paths_def)
      show ?thesis
      proof (cases "load_module fe builtins path s")
        case (Done m s')
        have "import_path ` set (mod_imports m) \<subseteq> U"
          using assms(1) path(1) Done unfolding closed_paths_def by blast
        with snoc.prems(2) have "set (paths @ map import_path (mod_imports m)) \<subseteq> U"
          by simp
        moreover have "card (U - insert path seen) < card (U - seen)"
          using path False by (intro psubset_card_mono) auto
        moreover note tree_inv_load [OF snoc.prems(3) False load_module_path [OF Done]]
        ultimately obtain r where r: "program_tree_loop fe builtins (paths @ map import_path (mod_imports m)) (insert path seen)
            (AList.update path m programs) s' = Some r" "r \<noteq> Panic"
          "\<forall>programs' s'. r = Done programs' s' \<longrightarrow> program_closed programs'
             \<and> insert path seen \<union> set (paths @ map import_path (mod_imports m)) \<subseteq> fst ` set programs'"
          using snoc.prems(1) by meson
        then show ?thesis
          using Done False by (auto simp: program_tree_loop_snoc(2))
      next
        case (Fail e s')
        with False show ?thesis
          by (simp add: program_tree_loop_snoc(2))
      next
        case Panic
        with load_module_no_panic path(2) show ?thesis
          by blast
      qed
    qed
  qed
qed

text \<open>An outcome that is no error, with a condition on the result.\<close>

fun no_error :: "('a \<Rightarrow> bool) \<Rightarrow> ('e, 's, 'a) outcome \<Rightarrow> bool" where
  "no_error P (Done a s) = P a"
| "no_error P (Fail e s) = False"
| "no_error P Panic = True"

lemma no_error_fold:
  assumes "\<And>x b s. x \<in> set xs \<Longrightarrow> I b \<Longrightarrow> no_error I (f x b s)" and "I b"
  shows "no_error I (fold_driver f xs b s)"
  using assms
proof (induction xs arbitrary: b s)
  case (Cons x xs)
  from Cons.prems(1) [of x b s] Cons.prems(2) have x: "no_error I (f x b s)"
    by simp
  show ?case
  proof (cases "f x b s")
    case (Done b' s')
    with x have "I b'"
      by simp
    with Done Cons.IH [of b' s'] Cons.prems(1) show ?thesis
      by (simp add: bind_c_def)
  qed (use x in \<open>simp_all add: bind_c_def\<close>)
qed (simp add: return_c_def)

text \<open>Over a program that contains what it imports, entering imports keeps the modules and does not fail.\<close>

lemma enter_import_no_fail: "no_error (\<lambda>_. True) (enter_import imp t f m ws)"
  by (auto simp: enter_import_def outcome_simps add_warnings_def return_c_def Let_def split: prod.splits option.splits)

lemma update_keys: "k \<in> fst ` set kvs \<Longrightarrow> fst ` set (AList.update k v kvs) = fst ` set kvs"
  by (simp add: dom_update insert_absorb)

lemma resolve_import_ok:
  assumes "import_path imp \<in> fst ` set programs" "name \<in> fst ` set programs"
  shows "no_error (\<lambda>programs'. fst ` set programs' = fst ` set programs) (resolve_import name imp programs ws)"
proof -
  from assms(1) obtain target where target: "map_of programs (import_path imp) = Some target"
    by (metis map_of_eq_None_iff option.exhaust)
  obtain target' t f where l: "lookup_import imp target = (target', t, f)"
    by (rule prod_cases3)
  let ?p = "AList.update (import_path imp) target' programs"
  have keys: "fst ` set ?p = fst ` set programs"
    by (rule update_keys [OF assms(1)])
  with assms(2) obtain origin where origin: "map_of ?p name = Some origin"
    by (metis map_of_eq_None_iff option.exhaust)
  have "fst ` set (AList.update name o1 ?p) = fst ` set programs" for o1
    using update_keys [of name ?p o1] assms(2) keys by (simp only:)
  moreover have "resolve_import name imp programs = bind_c (enter_import imp t f origin) (\<lambda>origin'. return_c (AList.update name origin' ?p))"
    by (simp add: resolve_import_def target l origin)
  ultimately show ?thesis
    using enter_import_no_fail [of imp t f origin ws] by (cases "enter_import imp t f origin ws") (simp_all add: bind_c_def return_c_def)
qed

lemma resolve_imports_of_module:
  assumes "p \<in> K" "import_path ` set imps \<subseteq> K" "fst ` set ps = K"
  shows "no_error (\<lambda>ps'. fst ` set ps' = K) (fold_driver (resolve_import p) imps ps s)"
proof (rule no_error_fold)
  fix imp s and ps :: "(string list \<times> mini_module) list"
  assume "imp \<in> set imps" and ps: "fst ` set ps = K"
  then have "import_path imp \<in> fst ` set ps" "p \<in> fst ` set ps"
    using assms(1,2) by blast+
  from resolve_import_ok [OF this] show "no_error (\<lambda>ps'. fst ` set ps' = K) (resolve_import p imp ps s)"
    unfolding ps .
qed (rule assms(3))

lemma resolve_all_imports_no_fail:
  assumes "program_closed programs"
  shows "resolve_all_imports programs ws \<noteq> Fail e ws'"
proof -
  let ?I = "\<lambda>ps :: (string list \<times> mini_module) list. fst ` set ps = fst ` set programs"
  have "no_error ?I (resolve_all_imports programs ws)"
    unfolding resolve_all_imports_def
  proof (rule no_error_fold)
    fix x s and ps :: "(string list \<times> mini_module) list"
    assume "x \<in> set (map (\<lambda>(p, m). (p, mod_imports m)) programs)" "?I ps"
    then obtain p m where x: "x = (p, mod_imports m)" "(p, m) \<in> set programs" "?I ps"
      by auto
    from x(2) have "p \<in> fst ` set programs"
      by (metis fst_conv imageI)
    moreover have "import_path ` set (mod_imports m) \<subseteq> fst ` set programs"
      using bspec [OF assms [unfolded program_closed_def imports_within_def list_all_iff, THEN conjunct2] x(2)] by simp
    ultimately have "no_error ?I (fold_driver (resolve_import p) (mod_imports m) ps s)"
      using x(3) by (rule resolve_imports_of_module)
    with x show "no_error ?I ((\<lambda>(name, imps). fold_driver (resolve_import name) imps) x ps s)"
      by simp
  qed simp
  then show ?thesis
    by auto
qed

text \<open>
  C13: Suppose that the modules a program can reach by imports are among finitely many non-empty paths.  Then collecting the modules ends
  without a panic; a result contains the main module and every module that one of its modules imports, so the errors about missing files
  when imports are resolved afterwards do not occur.
\<close>

theorem program_tree_is_complete:
  assumes "closed_paths fe builtins U" "main_path library main \<in> U"
  shows "\<exists>r. create_program_tree fe library main builtins s = Some r \<and> r \<noteq> Panic
    \<and> (\<forall>programs s'. r = Done programs s' \<longrightarrow> main_path library main \<in> fst ` set programs \<and> program_closed programs
        \<and> (\<forall>ws e ws'. resolve_all_imports programs ws \<noteq> Fail e ws'))"
proof -
  have "tree_inv [main_path library main] {} []"
    by (simp add: tree_inv_def imports_within_def)
  with program_tree_loop_ends [OF assms(1), of "[main_path library main]" "{}" "[]" s] assms(2) show ?thesis
    unfolding create_program_tree_def by (metis empty_subsetI insert_subset list.set(1,2) resolve_all_imports_no_fail sup_bot_left)
qed

text \<open>Two modules that import each other.\<close>

definition demo_front_end :: front_end where
  "demo_front_end = \<lparr>fe_join = (\<lambda>n. n), fe_read = Inr, fe_hash = (\<lambda>_. 0),
     fe_parse = (\<lambda>source file_id path. (Inr ([TopUse (import_new [if path = [''main''] then ''lib'' else ''main''] ''f'' (Some 0) None)],
       snd (string_table_get string_table_new ''f''), []), []))\<rparr>"

lemma demo_program_tree:
  "case create_program_tree demo_front_end None ''main'' False (Map.empty, []) of
     Some (Done programs s) \<Rightarrow> map fst programs = [[''main''], [''lib'']] | _ \<Rightarrow> False"
  by code_simp

lemma demo_closed: "closed_paths demo_front_end False {[''main''], [''lib'']}"
  by (auto simp: closed_paths_def load_module_def module_file_def demo_front_end_def module_from_def sort_top_level_decls_def import_new_def)

theorem program_tree_is_complete_witness:
  "\<exists>programs s. create_program_tree demo_front_end None ''main'' False (Map.empty, []) = Some (Done programs s)
     \<and> map fst programs = [[''main''], [''lib'']] \<and> program_closed programs \<and> (\<forall>ws e ws'. resolve_all_imports programs ws \<noteq> Fail e ws')"
proof -
  from demo_program_tree obtain programs s where 1: "create_program_tree demo_front_end None ''main'' False (Map.empty, []) = Some (Done programs s)"
    "map fst programs = [[''main''], [''lib'']]"
    by (auto split: option.splits outcome.splits)
  have "main_path None ''main'' \<in> {[''main''], [''lib'']}"
    by (simp add: main_path_def)
  from program_tree_is_complete [OF demo_closed this, of "(Map.empty, [])"] 1 show ?thesis
    by auto
qed

end
