(* ===== verification/Source_Lines.thy ===== *)
theory Source_Lines
  imports Linker
begin

text \<open>
  Positions in source files: the map from byte offsets to lines and columns (\<open>src/compile/source.rs\<close>) and the positions, locations and
  spans it is made of (\<open>src/pos.rs\<close>).  Positions are 32-bit numbers: conversion from \<open>usize\<close> cuts them off.
\<close>

section \<open>Definitions\<close>

subsection \<open>Positions and locations\<close>

definition pos_from :: "usize \<Rightarrow> nat" where
  "pos_from n = n mod 2 ^ 32"

definition pos_add :: "nat \<Rightarrow> nat \<Rightarrow> nat" where
  "pos_add a b = pos_from ((a + b) mod usize_limit)"

definition pos_sub :: "nat \<Rightarrow> nat \<Rightarrow> nat" where
  "pos_sub a b = pos_from ((a + usize_limit - b) mod usize_limit)"

text \<open>The number of bytes of a character in UTF-8 is an argument.\<close>

definition location_shift :: "location \<Rightarrow> bool \<Rightarrow> usize \<Rightarrow> location" where
  "location_shift loc at_newline len =
     (if at_newline then loc\<lparr>line := pos_from (line loc + 1), column := 1, absolute := pos_from (absolute loc + len)\<rparr>
      else loc\<lparr>column := pos_from (column loc + 1), absolute := pos_from (absolute loc + len)\<rparr>)"

text \<open>Lines and columns are displayed from one on.\<close>

definition location_display :: "location \<Rightarrow> string" where
  "location_display loc = ''Line: '' @ decimal (pos_from (line loc + 1)) @ '', Column: '' @ decimal (pos_from (column loc + 1))"

definition display_with_file :: "location \<Rightarrow> (u64 \<rightharpoonup> file_info) \<Rightarrow> bool \<Rightarrow> string" where
  "display_with_file loc chart line_break =
     location_display loc @ (if line_break then [CHR 0x0A] else '' '') @ ''In file: ''
       @ (case chart (file_id loc) of None \<Rightarrow> decimal (file_id loc) | Some info \<Rightarrow> fi_name info)"

definition try_display_location :: "location option \<Rightarrow> (u64 \<rightharpoonup> file_info) \<Rightarrow> bool \<Rightarrow> string" where
  "try_display_location loc chart line_break = (case loc of Some l \<Rightarrow> display_with_file l chart line_break | None \<Rightarrow> ''No location'')"

subsection \<open>Spans\<close>

record 'p span =
  span_start :: 'p
  span_end :: 'p
  expansion_id :: nat

definition span_with_id :: "'p \<Rightarrow> 'p \<Rightarrow> nat \<Rightarrow> 'p span" where
  "span_with_id s e i = \<lparr>span_start = s, span_end = e, expansion_id = i\<rparr>"

definition span_new :: "'p \<Rightarrow> 'p \<Rightarrow> 'p span" where
  "span_new s e = span_with_id s e 0"

definition span_eq :: "'p span \<Rightarrow> 'p span \<Rightarrow> bool" where
  "span_eq a b \<longleftrightarrow> span_start a = span_start b \<and> span_end a = span_end b"

datatype ordering = OrdLess | OrdEqual | OrdGreater

definition compare_pos :: "'p::linorder \<Rightarrow> 'p \<Rightarrow> ordering" where
  "compare_pos a b = (if a < b then OrdLess else if a = b then OrdEqual else OrdGreater)"

text \<open>The second comparison is between the end of the first span and itself.\<close>

definition span_cmp :: "'p::linorder span \<Rightarrow> 'p span \<Rightarrow> ordering" where
  "span_cmp a b =
     (let ord = compare_pos (span_start a) (span_start b)
      in if ord = OrdEqual then compare_pos (span_end a) (span_end a) else ord)"

definition span_contains :: "'p::linorder span \<Rightarrow> 'p span \<Rightarrow> bool" where
  "span_contains a b \<longleftrightarrow> span_start a \<le> span_start b \<and> span_end b \<le> span_end a"

definition span_containment :: "'p::linorder span \<Rightarrow> 'p \<Rightarrow> ordering" where
  "span_containment a p =
     (case (compare_pos p (span_start a), compare_pos p (span_end a)) of
        (OrdEqual, _) \<Rightarrow> OrdEqual
      | (_, OrdEqual) \<Rightarrow> OrdEqual
      | (OrdGreater, OrdLess) \<Rightarrow> OrdEqual
      | (OrdLess, _) \<Rightarrow> OrdLess
      | (_, OrdGreater) \<Rightarrow> OrdGreater)"

definition span_containment_exclusive :: "'p::linorder span \<Rightarrow> 'p \<Rightarrow> ordering" where
  "span_containment_exclusive a p = (if span_end a = p then OrdGreater else span_containment a p)"

text \<open>The outer \<open>None\<close>: the assertion fails.\<close>

definition span_merge :: "'p::linorder span \<Rightarrow> 'p span \<Rightarrow> 'p span option option" where
  "span_merge a b =
     (if expansion_id a \<noteq> expansion_id b then None
      else if span_start a \<le> span_start b \<and> span_end a > span_start b \<or> span_start a \<ge> span_start b \<and> span_start a < span_end b
      then Some (Some \<lparr>span_start = min (span_start a) (span_start b), span_end = max (span_end a) (span_end b), expansion_id = expansion_id a\<rparr>)
      else Some None)"

definition span_map :: "('p \<Rightarrow> 'q) \<Rightarrow> 'p span \<Rightarrow> 'q span" where
  "span_map f a = \<lparr>span_start = f (span_start a), span_end = f (span_end a), expansion_id = expansion_id a\<rparr>"

record ('t, 'p) spanned =
  spanned_span :: "'p span"
  spanned_value :: 't

definition spanned2 :: "'p \<Rightarrow> 'p \<Rightarrow> 't \<Rightarrow> ('t, 'p) spanned" where
  "spanned2 s e v = \<lparr>spanned_span = span_new s e, spanned_value = v\<rparr>"

definition spanned_map :: "('t \<Rightarrow> 'u) \<Rightarrow> ('t, 'p) spanned \<Rightarrow> ('u, 'p) spanned" where
  "spanned_map f a = \<lparr>spanned_span = spanned_span a, spanned_value = f (spanned_value a)\<rparr>"

subsection \<open>Lines\<close>

record source_lines =
  starting_bytes :: "nat list"
  source_end :: usize

definition lines_new :: "byte list \<Rightarrow> source_lines" where
  "lines_new src =
     \<lparr>starting_bytes = pos_from 0 # map (\<lambda>i. pos_from (i + 1)) (filter (\<lambda>i. src ! i = 0x0A) [0..<length src]), source_end = length src\<rparr>"

definition lines_line :: "source_lines \<Rightarrow> nat \<Rightarrow> nat option" where
  "lines_line ls n = (if n < length (starting_bytes ls) then Some (starting_bytes ls ! n) else None)"

definition line_number_at_byte :: "source_lines \<Rightarrow> nat \<Rightarrow> nat" where
  "line_number_at_byte ls b =
     (let num_lines = length (starting_bytes ls)
      in pos_from (case filter (\<lambda>i. starting_bytes ls ! i > b) [0..<num_lines] of
            i # _ \<Rightarrow> (i + usize_limit - 1) mod usize_limit
          | [] \<Rightarrow> (num_lines + usize_limit - 1) mod usize_limit))"

definition lines_location :: "source_lines \<Rightarrow> nat \<Rightarrow> u64 \<Rightarrow> location option" where
  "lines_location ls b fid =
     (if b \<le> source_end ls then
        let line_index = line_number_at_byte ls b
        in map_option (\<lambda>line_byte. \<lparr>line = line_index, column = pos_sub b line_byte, absolute = b, file_id = fid\<rparr>) (lines_line ls line_index)
      else None)"

section \<open>Lines and columns\<close>

text \<open>The offsets at which lines start, without the limit of positions.\<close>

definition starts :: "byte list \<Rightarrow> nat list" where
  "starts src = 0 # map Suc (filter (\<lambda>i. src ! i = 0x0A) [0..<length src])"

lemma starts_nonempty: "starts src \<noteq> []"
  by (simp add: starts_def)

lemma starts_snoc: "starts (src @ [b]) = starts src @ (if b = 0x0A then [Suc (length src)] else [])"
proof -
  have "filter (\<lambda>i. (src @ [b]) ! i = 0x0A) [0..<length src] = filter (\<lambda>i. src ! i = 0x0A) [0..<length src]"
    by (rule filter_cong) (auto simp: nth_append)
  then show ?thesis
    by (simp add: starts_def nth_append)
qed

lemma starts_length: "length (starts src) = Suc (count_list src 0x0A)"
  by (induction src rule: rev_induct) (simp_all add: starts_snoc, simp add: starts_def)

lemma starts_last: "last (starts src) + length (takeWhile (\<lambda>b. b \<noteq> 0x0A) (rev src)) = length src"
  by (induction src rule: rev_induct) (simp_all add: starts_snoc, simp add: starts_def)

lemma starts_bound: "x \<in> set (starts src) \<Longrightarrow> x \<le> length src"
  by (auto simp: starts_def)

text \<open>The lines that start up to an offset are those of the text before it.\<close>

lemma starts_append: "\<exists>zs. starts (xs @ ys) = starts xs @ zs \<and> (\<forall>z \<in> set zs. length xs < z)"
proof (induction ys rule: rev_induct)
  case (snoc y ys)
  then obtain zs where "starts (xs @ ys) = starts xs @ zs" "\<forall>z \<in> set zs. length xs < z"
    by blast
  then show ?case
    using starts_snoc [of "xs @ ys" y] by (intro exI [of _ "zs @ (if y = 0x0A then [Suc (length (xs @ ys))] else [])"]) auto
qed simp

lemma indices_above:
  assumes "\<forall>x \<in> set xs. x \<le> b" "\<forall>z \<in> set zs. b < (z :: nat)"
  shows "filter (\<lambda>i. (xs @ zs) ! i > b) [0..<length (xs @ zs)] = [length xs..<length (xs @ zs)]"
proof -
  have "[0..<length (xs @ zs)] = [0..<length xs] @ [length xs..<length (xs @ zs)]"
    using upt_add_eq_append [of 0 "length xs" "length zs"] by simp
  moreover have "filter (\<lambda>i. (xs @ zs) ! i > b) [0..<length xs] = []"
    using assms(1) by (auto simp: filter_empty_conv nth_append not_less)
  moreover have "filter (\<lambda>i. (xs @ zs) ! i > b) [length xs..<length (xs @ zs)] = [length xs..<length (xs @ zs)]"
    using assms(2) by (auto simp: filter_id_conv nth_append)
  ultimately show ?thesis
    by simp
qed

lemma lines_new_starts:
  assumes "length src < 2 ^ 32"
  shows "starting_bytes (lines_new src) = starts src"
  using assms by (auto simp: lines_new_def starts_def pos_from_def)

lemma line_number:
  assumes "length src < 2 ^ 32" "b \<le> length src"
  shows "line_number_at_byte (lines_new src) b = count_list (take b src) 0x0A"
    and "starts src ! count_list (take b src) 0x0A = last (starts (take b src))"
    and "count_list (take b src) 0x0A < length (starts src)"
proof -
  let ?s = "starts (take b src)"
  have tb: "length (take b src) = b"
    using assms(2) by simp
  obtain zs where zs: "starts src = ?s @ zs" "\<forall>z \<in> set zs. b < z"
    using starts_append [of "take b src" "drop b src"] tb by auto
  have s: "\<forall>x \<in> set ?s. x \<le> b" "length ?s = Suc (count_list (take b src) 0x0A)"
    using starts_bound [of _ "take b src"] tb starts_length by auto
  have c: "count_list (take b src) 0x0A < 2 ^ 32"
    using count_le_length [of "take b src" "0x0A"] tb assms by linarith
  have f: "filter (\<lambda>i. starts src ! i > b) [0..<length (starts src)] = [length ?s..<length ?s + length zs]"
    using indices_above [OF s(1) zs(2)] unfolding zs(1) by simp
  have "line_number_at_byte (lines_new src) b = pos_from ((length ?s + usize_limit - 1) mod usize_limit)"
    unfolding line_number_at_byte_def lines_new_starts [OF assms(1)] f Let_def by (cases zs) (simp_all add: zs(1) upt_rec)
  with c s(2) show "line_number_at_byte (lines_new src) b = count_list (take b src) 0x0A"
    by (simp add: pos_from_def usize_limit_def)
  show "starts src ! count_list (take b src) 0x0A = last ?s" "count_list (take b src) 0x0A < length (starts src)"
    using s(2) zs(1) last_conv_nth [of ?s] starts_nonempty [of "take b src"] by (simp_all add: nth_append)
qed

lemma pos_sub_eq: "a + n = b \<Longrightarrow> b < 2 ^ 32 \<Longrightarrow> pos_sub b a = n"
proof -
  assume "a + n = b" "b < 2 ^ 32"
  then have "b + usize_limit - a = n + usize_limit" "n < 2 ^ 32"
    by simp_all
  then show ?thesis
    by (simp add: pos_sub_def pos_from_def usize_limit_def)
qed

text \<open>
  C38: For a source below four gigabytes, the location of an offset up to its end has as line the number of line feeds before the offset,
  and as column the number of bytes since the last of them.
\<close>

theorem location_counts_lines_and_columns:
  assumes "length src < 2 ^ 32" "b \<le> length src"
  shows "lines_location (lines_new src) b fid =
    Some \<lparr>line = count_list (take b src) 0x0A, column = length (takeWhile (\<lambda>c. c \<noteq> 0x0A) (rev (take b src))), absolute = b, file_id = fid\<rparr>"
proof -
  have l: "last (starts (take b src)) + length (takeWhile (\<lambda>c. c \<noteq> 0x0A) (rev (take b src))) = b"
    using starts_last [of "take b src"] assms(2) by simp
  then have "pos_sub b (last (starts (take b src))) = length (takeWhile (\<lambda>c. c \<noteq> 0x0A) (rev (take b src)))"
    using assms by (intro pos_sub_eq) auto
  with line_number [OF assms] assms show ?thesis
    by (simp add: lines_location_def lines_line_def lines_new_starts lines_new_def [THEN arg_cong [of _ _ source_end]])
qed

theorem location_counts_lines_and_columns_witness:
  "lines_location (lines_new [0x61, 0x0A, 0x62, 0x63, 0x0A]) 4 7 = Some \<lparr>line = 1, column = 2, absolute = 4, file_id = 7\<rparr>"
  using location_counts_lines_and_columns [of "[0x61, 0x0A, 0x62, 0x63, 0x0A]" 4 7] by simp

section \<open>Spans\<close>

text \<open>For a span with its start up to its end, a position is found inside, on or next to the span as its bounds say.\<close>

lemma containment_cases:
  assumes "span_start a \<le> span_end a"
  shows "span_containment a p =
    (if p < span_start a then OrdLess else if p \<le> span_end a then OrdEqual else OrdGreater)"
  using assms by (auto simp: span_containment_def compare_pos_def)

text \<open>Spans of the same expansion that overlap are merged into one that contains both.\<close>

lemma merge_contains: "span_merge a b = Some (Some c) \<Longrightarrow> span_contains c a \<and> span_contains c b"
  by (auto simp: span_merge_def span_contains_def split: if_splits)


text \<open>Two spans with the same start compare as equal whatever their ends are, though they are not equal.\<close>

lemma span_cmp_ignores_ends: "span_cmp (span_new (0 :: nat) 1) (span_new 0 2) = OrdEqual" "\<not> span_eq (span_new (0 :: nat) 1) (span_new 0 2)"
  by (simp_all add: span_cmp_def compare_pos_def span_new_def span_with_id_def span_eq_def)

end
